(* ===== verification/Prelude.thy ===== *)
theory Prelude
  imports Main "HOL-Library.Code_Target_Numeral" "HOL-Library.Char_ord" "HOL-Library.List_Lexorder" "HOL-Library.Sublist" "HOL-Library.Multiset"
begin

text \<open>
  Shared vocabulary of the development: the Python built-ins the service code leans
  on (string methods, insertion-ordered dictionaries, integer printing and parsing),
  and the generic facts the component theories use through the simplifier and
  through the collections declared here.

  Strings are HOL strings. The model of the Python text operations is exact on ASCII
  text: \<open>casefold\<close> and \<open>lower\<close> agree there and NFKC normalisation is the identity.
\<close>

named_theorems dict_simps
named_theorems str_simps
named_theorems wf_intros

section \<open>Characters\<close>

definition char_code :: "char \<Rightarrow> nat" where
  "char_code c = of_char c"

definition is_digit :: "char \<Rightarrow> bool" where
  "is_digit c \<longleftrightarrow> 48 \<le> char_code c \<and> char_code c \<le> 57"

definition is_upper :: "char \<Rightarrow> bool" where
  "is_upper c \<longleftrightarrow> 65 \<le> char_code c \<and> char_code c \<le> 90"

definition is_lower :: "char \<Rightarrow> bool" where
  "is_lower c \<longleftrightarrow> 97 \<le> char_code c \<and> char_code c \<le> 122"

definition is_alpha :: "char \<Rightarrow> bool" where
  "is_alpha c \<longleftrightarrow> is_upper c \<or> is_lower c"

definition is_alnum :: "char \<Rightarrow> bool" where
  "is_alnum c \<longleftrightarrow> is_alpha c \<or> is_digit c"

definition is_space :: "char \<Rightarrow> bool" where
  "is_space c \<longleftrightarrow> (let n = char_code c in
     n = 32 \<or> (9 \<le> n \<and> n \<le> 13) \<or> (28 \<le> n \<and> n \<le> 31) \<or> n = 133 \<or> n = 160)"

definition is_ascii :: "char \<Rightarrow> bool" where
  "is_ascii c \<longleftrightarrow> char_code c < 128"

definition lower_char :: "char \<Rightarrow> char" where
  "lower_char c = (if is_upper c then char_of (char_code c + 32) else c)"

lemmas char_defs = char_code_def is_digit_def is_upper_def is_lower_def is_alpha_def
  is_alnum_def is_space_def is_ascii_def lower_char_def Let_def

lemma char_code_less: "char_code c < 256"
  unfolding char_code_def by (rule of_char_mod_256[THEN subst]) simp

lemma char_code_char_of [simp]: "n < 256 \<Longrightarrow> char_code (char_of n) = n"
  by (simp add: char_code_def)

lemma char_of_char_code [simp]: "char_of (char_code c) = c"
  by (simp add: char_code_def)

lemma lower_char_not_upper [simp]: "\<not> is_upper (lower_char c)"
  by (auto simp: lower_char_def is_upper_def)

lemma lower_char_idem [simp]: "lower_char (lower_char c) = lower_char c"
  using lower_char_not_upper[of c] by (simp add: lower_char_def[of "lower_char c"])

lemma is_space_lower_char [simp]: "is_space (lower_char c) = is_space c"
  by (auto simp: lower_char_def is_upper_def is_space_def Let_def)

section \<open>String methods\<close>

definition lower :: "string \<Rightarrow> string" where
  "lower s = map lower_char s"

definition lstrip :: "string \<Rightarrow> string" where
  "lstrip s = dropWhile is_space s"

definition rstrip :: "string \<Rightarrow> string" where
  "rstrip s = rev (dropWhile is_space (rev s))"

definition strip :: "string \<Rightarrow> string" where
  "strip s = rstrip (lstrip s)"

lemma length_lower [simp]: "length (lower s) = length s"
  by (simp add: lower_def)

lemma lower_idem [simp]: "lower (lower s) = lower s"
  by (simp add: lower_def)

lemma lower_Nil_iff [simp]: "lower s = [] \<longleftrightarrow> s = []" "lower [] = []"
  by (simp_all add: lower_def)

lemma lower_append [simp]: "lower (a @ b) = lower a @ lower b"
  by (simp add: lower_def)

text \<open>
  \<open>split_by P\<close> cuts at every character satisfying \<open>P\<close>. \<open>s.split(sep)\<close> for a
  one-character separator cuts at that character; \<open>s.split()\<close> cuts at whitespace and
  drops the empty parts.
\<close>

fun split_by :: "(char \<Rightarrow> bool) \<Rightarrow> string \<Rightarrow> string list" where
  "split_by P [] = [[]]"
| "split_by P (x # xs) =
     (if P x then [] # split_by P xs
      else (case split_by P xs of [] \<Rightarrow> [[x]] | p # ps \<Rightarrow> (x # p) # ps))"

definition split_on :: "char \<Rightarrow> string \<Rightarrow> string list" where
  "split_on c s = split_by (\<lambda>x. x = c) s"

definition split_ws :: "string \<Rightarrow> string list" where
  "split_ws s = filter (\<lambda>p. p \<noteq> []) (split_by is_space s)"

fun join :: "string \<Rightarrow> string list \<Rightarrow> string" where
  "join sep [] = []"
| "join sep [p] = p"
| "join sep (p # q # ps) = p @ sep @ join sep (q # ps)"

fun contains_sub :: "string \<Rightarrow> string \<Rightarrow> bool" where
  "contains_sub p [] = (p = [])"
| "contains_sub p (x # xs) = (prefix p (x # xs) \<or> contains_sub p xs)"

definition collapse_ws :: "string \<Rightarrow> string" where
  "collapse_ws s = join '' '' (split_ws s)"

lemma split_by_ne [simp]: "split_by P s \<noteq> []"
  by (cases s) (auto split: list.splits)

lemma split_by_Cons: "split_by P (x # xs) =
     (if P x then [] # split_by P xs
      else (x # hd (split_by P xs)) # tl (split_by P xs))"
  using split_by_ne[of P xs] by (auto split: list.splits)

declare split_by.simps(2) [simp del] split_by_Cons [simp]

lemma split_on_ne [simp]: "split_on c s \<noteq> []"
  by (simp add: split_on_def)

lemma join_Cons_ne: "ps \<noteq> [] \<Longrightarrow> join sep (p # ps) = p @ sep @ join sep ps"
  by (cases ps) auto

lemma join_hd_Cons: "ps \<noteq> [] \<Longrightarrow> join sep ((x # hd ps) # tl ps) = x # join sep ps"
  by (cases ps; cases "tl ps") auto

lemma join_split_on [str_simps]: "join [c] (split_on c s) = s"
  unfolding split_on_def by (induction s) (auto simp: join_Cons_ne join_hd_Cons)

lemma split_by_parts: "\<forall>p \<in> set (split_by P s). \<forall>c \<in> set p. \<not> P c \<and> c \<in> set s"
proof (induction s)
  case (Cons x xs)
  then have "\<forall>c \<in> set (hd (split_by P xs)). \<not> P c \<and> c \<in> set xs"
    and "\<forall>p \<in> set (tl (split_by P xs)). \<forall>c \<in> set p. \<not> P c \<and> c \<in> set xs"
    using list.set_sel[of "split_by P xs"] by auto
  with Cons show ?case by auto
qed simp

lemma split_on_no_sep: "p \<in> set (split_on c s) \<Longrightarrow> c \<notin> set p"
  using split_by_parts[of "\<lambda>x. x = c" s] by (auto simp: split_on_def)

lemma split_on_chars: "p \<in> set (split_on c s) \<Longrightarrow> set p \<subseteq> set s"
  using split_by_parts[of "\<lambda>x. x = c" s] by (auto simp: split_on_def)

lemma split_by_free: "\<forall>c \<in> set s. \<not> P c \<Longrightarrow> split_by P s = [s]"
  by (induction s) auto

lemma split_by_append:
  "\<lbrakk>\<forall>d \<in> set s. \<not> P d; P c\<rbrakk> \<Longrightarrow> split_by P (s @ c # t) = s # split_by P t"
  by (induction s) auto

lemma split_by_append_sep: "P c \<Longrightarrow> split_by P (a @ c # b) = split_by P a @ split_by P b"
  by (induction a) auto

lemma split_on_append_sep: "split_on c (a @ c # b) = split_on c a @ split_on c b"
  by (simp add: split_on_def split_by_append_sep)

lemma split_on_sep_free [str_simps]: "c \<notin> set s \<Longrightarrow> split_on c s = [s]"
  unfolding split_on_def by (rule split_by_free) auto

lemma split_on_append [str_simps]:
  "c \<notin> set s \<Longrightarrow> split_on c (s @ c # t) = s # split_on c t"
  unfolding split_on_def by (rule split_by_append) auto

lemma split_on_join [str_simps]:
  "\<lbrakk>ps \<noteq> []; \<forall>p \<in> set ps. c \<notin> set p\<rbrakk> \<Longrightarrow> split_on c (join [c] ps) = ps"
proof (induction ps rule: induct_list012)
  case (3 p q ps)
  then show ?case by (simp add: split_on_append)
qed (auto simp: split_on_sep_free)

lemma split_ws_parts: "p \<in> set (split_ws s) \<Longrightarrow> p \<noteq> [] \<and> (\<forall>c \<in> set p. \<not> is_space c)"
  using split_by_parts[of is_space s] by (auto simp: split_ws_def)

lemma split_ws_chars: "p \<in> set (split_ws s) \<Longrightarrow> set p \<subseteq> set s"
  using split_by_parts[of is_space s] by (auto simp: split_ws_def)

lemma is_space_blank [simp]: "is_space (CHR '' '')"
  by (simp add: is_space_def char_code_def)

lemma split_ws_word: "\<lbrakk>w \<noteq> []; \<forall>c \<in> set w. \<not> is_space c\<rbrakk> \<Longrightarrow> split_ws w = [w]"
  by (simp add: split_ws_def split_by_free)

lemma split_ws_word_space:
  "\<lbrakk>w \<noteq> []; \<forall>c \<in> set w. \<not> is_space c\<rbrakk> \<Longrightarrow> split_ws (w @ '' '' @ t) = w # split_ws t"
  by (simp add: split_ws_def split_by_append)

lemma split_ws_join:
  "(\<And>p. p \<in> set ps \<Longrightarrow> p \<noteq> [] \<and> (\<forall>c \<in> set p. \<not> is_space c)) \<Longrightarrow> split_ws (join '' '' ps) = ps"
proof (induction ps rule: induct_list012)
  case 1
  then show ?case by (simp add: split_ws_def)
next
  case (2 p)
  then show ?case by (simp add: split_ws_word)
next
  case (3 p q ps)
  have "split_ws (p @ '' '' @ join '' '' (q # ps)) = p # split_ws (join '' '' (q # ps))"
    by (rule split_ws_word_space) (use "3.prems"[of p] in auto)
  moreover have "split_ws (join '' '' (q # ps)) = q # ps"
    by (rule "3.IH"(2)) (use "3.prems" in auto)
  ultimately show ?case by simp
qed

lemma collapse_ws_idem [simp]: "collapse_ws (collapse_ws s) = collapse_ws s"
  unfolding collapse_ws_def by (subst split_ws_join) (auto dest: split_ws_parts)

lemma dropWhile_head: "dropWhile P xs = y # ys \<Longrightarrow> \<not> P y"
  by (metis hd_dropWhile list.distinct(1) list.sel(1))

lemma rstrip_last: "rstrip s \<noteq> [] \<Longrightarrow> \<not> is_space (last (rstrip s))"
  by (metis hd_dropWhile last_rev rev_is_Nil_conv rstrip_def)

lemma rstrip_prefix: "prefix (rstrip s) s"
proof -
  have "s = rev (dropWhile is_space (rev s)) @ rev (takeWhile is_space (rev s))"
    by (metis rev_append rev_rev_ident takeWhile_dropWhile_id)
  then show ?thesis unfolding rstrip_def by (rule prefixI)
qed

lemma strip_head: "strip s = c # cs \<Longrightarrow> \<not> is_space c"
proof -
  assume a: "strip s = c # cs"
  then have "prefix (c # cs) (dropWhile is_space s)"
    using rstrip_prefix[of "lstrip s"] by (simp add: strip_def lstrip_def)
  then obtain t where "dropWhile is_space s = c # t" by (auto elim!: prefixE)
  then show "\<not> is_space c" by (rule dropWhile_head)
qed

lemma strip_last: "strip s \<noteq> [] \<Longrightarrow> \<not> is_space (last (strip s))"
  unfolding strip_def by (rule rstrip_last)

lemma strip_fixed:
  "\<lbrakk>s \<noteq> []; \<not> is_space (hd s); \<not> is_space (last s)\<rbrakk> \<Longrightarrow> strip s = s"
proof -
  assume s: "s \<noteq> []" "\<not> is_space (hd s)" "\<not> is_space (last s)"
  have "dropWhile is_space s = s" using s by (cases s) auto
  moreover have "dropWhile is_space (rev s) = rev s"
    using s by (cases s rule: rev_cases) auto
  ultimately show ?thesis by (simp add: strip_def lstrip_def rstrip_def)
qed

lemma strip_idem [simp]: "strip (strip s) = strip s"
proof (cases "strip s")
  case Nil
  show ?thesis unfolding Nil by (simp add: strip_def lstrip_def rstrip_def)
next
  case (Cons c cs)
  show ?thesis
    by (rule strip_fixed) (use Cons strip_head[OF Cons] strip_last[of s] in simp_all)
qed

lemma set_strip: "set (strip s) \<subseteq> set s"
  by (auto simp: strip_def lstrip_def rstrip_def dest!: set_dropWhileD)

lemma length_strip: "length (strip s) \<le> length s"
  by (simp add: strip_def lstrip_def rstrip_def)
     (metis (no_types, lifting) length_dropWhile_le length_rev order_trans)

lemma sublist_strip: "sublist (strip s) s"
proof -
  have "suffix (lstrip s) s" by (simp add: lstrip_def suffix_dropWhile)
  then show ?thesis unfolding strip_def
    by (metis prefix_imp_sublist rstrip_prefix sublist_order.order_trans suffix_imp_sublist)
qed

section \<open>Positional numerals\<close>

function digits :: "nat \<Rightarrow> nat \<Rightarrow> nat list" where
  "digits b n = (if b < 2 \<or> n < b then [n] else digits b (n div b) @ [n mod b])"
  by auto
termination by (relation "measure snd") auto

declare digits.simps [simp del]

definition undigits :: "nat \<Rightarrow> nat list \<Rightarrow> nat" where
  "undigits b ds = foldl (\<lambda>a d. a * b + d) 0 ds"

lemma undigits_snoc: "undigits b (ds @ [d]) = undigits b ds * b + d"
  by (simp add: undigits_def)

lemma undigits_digits [simp]: "2 \<le> b \<Longrightarrow> undigits b (digits b n) = n"
proof (induction b n rule: digits.induct)
  case (1 b n)
  then show ?case
    by (subst digits.simps) (auto simp: undigits_snoc, simp add: undigits_def)
qed

lemma digits_less: "\<lbrakk>2 \<le> b; d \<in> set (digits b n)\<rbrakk> \<Longrightarrow> d < b"
proof (induction b n rule: digits.induct)
  case (1 b n)
  then show ?case by (subst (asm) (2) digits.simps) (auto split: if_splits)
qed

lemma digits_ne [simp]: "digits b n \<noteq> []"
  by (subst digits.simps) simp

lemma digits_hd_nonzero: "\<lbrakk>2 \<le> b; b \<le> n\<rbrakk> \<Longrightarrow> hd (digits b n) \<noteq> 0"
proof (induction b n rule: digits.induct)
  case (1 b n)
  show ?case
  proof (cases "n div b < b")
    case True
    have "0 < n div b" using 1 by (simp add: div_greater_zero_iff)
    then show ?thesis using 1 True by (subst digits.simps, subst digits.simps) simp
  next
    case False
    then show ?thesis using 1 by (subst digits.simps) simp
  qed
qed

lemma digits_length_bound: "\<lbrakk>2 \<le> b; 0 < k; n < b ^ k\<rbrakk> \<Longrightarrow> length (digits b n) \<le> k"
proof (induction k arbitrary: n)
  case (Suc k)
  show ?case
  proof (cases "n < b")
    case True then show ?thesis by (subst digits.simps) simp
  next
    case False
    then have k: "0 < k" using Suc.prems by (cases k) auto
    have "n div b < b ^ k" using Suc.prems by (simp add: less_mult_imp_div_less mult.commute)
    then have "length (digits b (n div b)) \<le> k" using Suc k by simp
    then show ?thesis using False by (subst digits.simps) simp
  qed
qed simp

definition digit_char :: "nat \<Rightarrow> char" where
  "digit_char d = char_of (if d < 10 then 48 + d else 87 + d)"

definition hex_value :: "char \<Rightarrow> nat option" where
  "hex_value c = (let n = char_code c in
     if is_digit c then Some (n - 48)
     else if 97 \<le> n \<and> n \<le> 102 then Some (n - 87)
     else if 65 \<le> n \<and> n \<le> 70 then Some (n - 55)
     else None)"

lemma hex_value_digit_char [simp]: "d < 16 \<Longrightarrow> hex_value (digit_char d) = Some d"
  by (auto simp: hex_value_def digit_char_def is_digit_def Let_def)

lemma is_digit_digit_char [simp]: "d < 10 \<Longrightarrow> is_digit (digit_char d)"
  by (simp add: digit_char_def is_digit_def)

lemma digit_char_code: "d < 10 \<Longrightarrow> char_code (digit_char d) = 48 + d"
  by (simp add: digit_char_def)

definition nat_str :: "nat \<Rightarrow> string" where
  "nat_str n = map digit_char (digits 10 n)"

definition int_str :: "int \<Rightarrow> string" where
  "int_str i = (if i < 0 then ''-'' @ nat_str (nat (- i)) else nat_str (nat i))"

definition nat_of_digits :: "string \<Rightarrow> nat" where
  "nat_of_digits s = undigits 10 (map (\<lambda>c. char_code c - 48) s)"

lemma nat_str_digits: "c \<in> set (nat_str n) \<Longrightarrow> is_digit c"
  using digits_less[of 10 _ n] by (auto simp: nat_str_def)

lemma nat_str_ne [simp]: "nat_str n \<noteq> []"
  by (simp add: nat_str_def)

lemma nat_of_digits_nat_str [simp]: "nat_of_digits (nat_str n) = n"
proof -
  have "map (\<lambda>c. char_code c - 48) (nat_str n) = digits 10 n"
    unfolding nat_str_def map_map
    by (rule map_idI) (use digits_less[of 10 _ n] in \<open>simp add: digit_char_code\<close>)
  then show ?thesis by (simp add: nat_of_digits_def)
qed

lemma nat_str_inj [simp]: "nat_str m = nat_str n \<longleftrightarrow> m = n"
  by (metis nat_of_digits_nat_str)

section \<open>Insertion-ordered dictionaries\<close>

text \<open>
  A Python \<open>dict\<close> keeps insertion order. \<open>dset\<close> is \<open>d[k] = v\<close>: an existing key keeps
  its place, a new one goes to the end. \<open>ddel\<close> is \<open>del d[k]\<close>.
\<close>

type_synonym ('k, 'v) dict = "('k \<times> 'v) list"

definition dget :: "('k, 'v) dict \<Rightarrow> 'k \<Rightarrow> 'v option" where
  "dget d k = map_of d k"

fun dset :: "'k \<Rightarrow> 'v \<Rightarrow> ('k, 'v) dict \<Rightarrow> ('k, 'v) dict" where
  "dset k v [] = [(k, v)]"
| "dset k v ((k', v') # d) = (if k = k' then (k, v) # d else (k', v') # dset k v d)"

definition ddel :: "'k \<Rightarrow> ('k, 'v) dict \<Rightarrow> ('k, 'v) dict" where
  "ddel k d = filter (\<lambda>e. fst e \<noteq> k) d"

definition dkeys :: "('k, 'v) dict \<Rightarrow> 'k list" where
  "dkeys d = map fst d"

definition dict_wf :: "('k, 'v) dict \<Rightarrow> bool" where
  "dict_wf d \<longleftrightarrow> distinct (map fst d)"

lemma dget_Nil [dict_simps]: "dget [] k = None"
  by (simp add: dget_def)

lemma dget_Cons [dict_simps]: "dget ((k', v) # d) k = (if k = k' then Some v else dget d k)"
  by (simp add: dget_def)

lemma dget_dset [dict_simps]: "dget (dset k v d) k' = (if k' = k then Some v else dget d k')"
  by (induction k v d rule: dset.induct) (auto simp: dget_def)

lemma dget_ddel [dict_simps]: "dget (ddel k d) k' = (if k' = k then None else dget d k')"
  by (induction d) (auto simp: dget_def ddel_def)

lemma dget_append [dict_simps]:
  "dget (d @ e) k = (case dget d k of None \<Rightarrow> dget e k | Some v \<Rightarrow> Some v)"
  by (auto simp: dget_def map_of_append map_add_def split: option.splits)

lemma dget_SomeD: "dget d k = Some v \<Longrightarrow> (k, v) \<in> set d"
  by (simp add: dget_def map_of_SomeD)

lemma dget_None_iff: "dget d k = None \<longleftrightarrow> k \<notin> fst ` set d"
  by (simp add: dget_def map_of_eq_None_iff)

lemma dget_in_set: "\<lbrakk>dict_wf d; (k, v) \<in> set d\<rbrakk> \<Longrightarrow> dget d k = Some v"
  by (simp add: dget_def dict_wf_def)

lemma dict_wf_Nil [wf_intros]: "dict_wf []"
  by (simp add: dict_wf_def)

lemma fst_set_dset: "fst ` set (dset k v d) = insert k (fst ` set d)"
  by (induction k v d rule: dset.induct) auto

lemma dict_wf_dset [wf_intros]: "dict_wf d \<Longrightarrow> dict_wf (dset k v d)"
  by (induction k v d rule: dset.induct) (auto simp: dict_wf_def fst_set_dset simp flip: image_set)

lemma dict_wf_ddel [wf_intros]: "dict_wf d \<Longrightarrow> dict_wf (ddel k d)"
  by (auto simp: dict_wf_def ddel_def distinct_map_filter)

lemma set_dset: "x \<in> set (dset k v d) \<Longrightarrow> x = (k, v) \<or> x \<in> set d"
  by (induction k v d rule: dset.induct) (auto split: if_splits)

lemma length_dset_le: "length (dset k v d) \<le> Suc (length d)"
  by (induction k v d rule: dset.induct) auto

section \<open>Lists\<close>

text \<open>\<open>dict.fromkeys(xs)\<close> as a list: the first occurrence of every element, in order.\<close>

fun uniq :: "'a list \<Rightarrow> 'a list" where
  "uniq [] = []"
| "uniq (x # xs) = x # filter (\<lambda>y. y \<noteq> x) (uniq xs)"

lemma set_uniq [simp]: "set (uniq xs) = set xs"
  by (induction xs) auto

lemma distinct_uniq [simp]: "distinct (uniq xs)"
  by (induction xs) auto

lemma uniq_distinct [simp]: "distinct xs \<Longrightarrow> uniq xs = xs"
  by (induction xs) (auto intro: filter_True)

lemma length_uniq_le: "length (uniq xs) \<le> length xs"
proof (induction xs)
  case (Cons x xs)
  have "length (filter (\<lambda>y. y \<noteq> x) (uniq xs)) \<le> length (uniq xs)" by (rule length_filter_le)
  with Cons have "length (filter (\<lambda>y. y \<noteq> x) (uniq xs)) \<le> length xs" by (rule order_trans[rotated])
  then show ?case by simp
qed simp

fun first_some :: "('a \<Rightarrow> 'b option) \<Rightarrow> 'a list \<Rightarrow> 'b option" where
  "first_some f [] = None"
| "first_some f (x # xs) = (case f x of Some y \<Rightarrow> Some y | None \<Rightarrow> first_some f xs)"

lemma first_someD: "first_some f xs = Some y \<Longrightarrow> \<exists>x \<in> set xs. f x = Some y"
  by (induction xs) (auto split: option.splits)

fun update_at :: "nat \<Rightarrow> ('a \<Rightarrow> 'a) \<Rightarrow> 'a list \<Rightarrow> 'a list" where
  "update_at _ f [] = []"
| "update_at 0 f (x # xs) = f x # xs"
| "update_at (Suc n) f (x # xs) = x # update_at n f xs"

definition or_else :: "'a option \<Rightarrow> 'a option \<Rightarrow> 'a option" where
  "or_else a b = (case a of Some x \<Rightarrow> Some x | None \<Rightarrow> b)"

lemma or_else_simps [simp]: "or_else (Some x) b = Some x" "or_else None b = b"
  by (simp_all add: or_else_def)

end
