(* ===== verification/IpNet.thy ===== *)
theory IpNet
  imports Prelude "HOL-Library.Word"
begin

unbundle bit_operations_syntax

text \<open>
  \<open>src/app/security/ip.py\<close> over a model of the parts of the standard library's
  \<open>ipaddress\<close> it calls: address and network parsing, printing, membership and
  IPv4-mapped addresses. Addresses are 32- and 128-bit words; a parse error
  (\<open>ValueError\<close>) is \<open>None\<close>.
\<close>

datatype ip = V4 "32 word" | V6 "128 word" "string option"

datatype network = Net4 "32 word" nat | Net6 "128 word" "string option" nat

section \<open>Positional bytes and hextets\<close>

primrec fixed_digits :: "nat \<Rightarrow> nat \<Rightarrow> nat \<Rightarrow> nat list" where
  "fixed_digits b 0 n = []"
| "fixed_digits b (Suc k) n = fixed_digits b k (n div b) @ [n mod b]"

lemma length_fixed_digits [simp]: "length (fixed_digits b k n) = k"
  by (induction k arbitrary: n) auto

lemma fixed_digits_ne [simp]: "fixed_digits b k n = [] \<longleftrightarrow> k = 0"
  using length_fixed_digits[of b k n] by (metis length_0_conv)

lemma digit_char_0: "digit_char 0 = CHR ''0''"
  by code_simp

lemma fixed_digits_less: "\<lbrakk>0 < b; d \<in> set (fixed_digits b k n)\<rbrakk> \<Longrightarrow> d < b"
  by (induction k arbitrary: n) auto

lemma undigits_fixed_digits: "\<lbrakk>0 < b; n < b ^ k\<rbrakk> \<Longrightarrow> undigits b (fixed_digits b k n) = n"
proof (induction k arbitrary: n)
  case 0
  then show ?case by (simp add: undigits_def)
next
  case (Suc k)
  have "n div b < b ^ k" using Suc.prems by (simp add: less_mult_imp_div_less mult.commute)
  then show ?case using Suc by (simp add: undigits_snoc)
qed

lemma undigits_less: "\<lbrakk>0 < b; \<forall>d \<in> set ds. d < b\<rbrakk> \<Longrightarrow> undigits b ds < b ^ length ds"
proof (induction ds rule: rev_induct)
  case Nil
  then show ?case by (simp add: undigits_def)
next
  case (snoc d ds)
  then have "undigits b ds + 1 \<le> b ^ length ds" and d: "d < b" by (simp_all add: Suc_leI)
  then have "(undigits b ds + 1) * b \<le> b ^ length ds * b" by (intro mult_right_mono) simp_all
  then show ?case using d by (simp add: undigits_snoc algebra_simps)
qed

section \<open>Addresses of the standard library\<close>

definition parse_octet :: "string \<Rightarrow> nat option" where
  "parse_octet s =
     (if s = [] then None
      else if \<not> list_all is_digit s then None
      else if length s > 3 then None
      else if s \<noteq> ''0'' \<and> hd s = CHR ''0'' then None
      else if nat_of_digits s > 255 then None
      else Some (nat_of_digits s))"

definition parse_ipv4 :: "string \<Rightarrow> 32 word option" where
  "parse_ipv4 s =
     (if CHR ''/'' \<in> set s \<or> s = [] then None
      else let octets = split_on (CHR ''.'') s in
        if length octets \<noteq> 4 then None
        else map_option (\<lambda>ds. word_of_nat (undigits 256 ds)) (those (map parse_octet octets)))"

definition ipv4_str :: "32 word \<Rightarrow> string" where
  "ipv4_str w = join ''.'' (map nat_str (fixed_digits 256 4 (unat w)))"

definition hex_str :: "nat \<Rightarrow> string" where
  "hex_str n = map digit_char (digits 16 n)"

definition parse_hextet :: "string \<Rightarrow> nat option" where
  "parse_hextet s =
     (if length s > 4 \<or> s = [] then None
      else map_option (undigits 16) (those (map hex_value s)))"

definition ipv4_suffix :: "string list \<Rightarrow> string list option" where
  "ipv4_suffix parts =
     (if CHR ''.'' \<in> set (last parts) then
        map_option (\<lambda>w. butlast parts @
            [hex_str (unat w div 65536 mod 65536), hex_str (unat w mod 65536)])
          (parse_ipv4 (last parts))
      else Some parts)"

definition empty_inner :: "string list \<Rightarrow> nat list" where
  "empty_inner parts = filter (\<lambda>i. parts ! i = []) [1..<length parts - 1]"

definition hextets_value :: "string list \<Rightarrow> nat \<Rightarrow> string list \<Rightarrow> 128 word option" where
  "hextets_value hi skipped lo =
     (case (those (map parse_hextet hi), those (map parse_hextet lo)) of
        (Some a, Some b) \<Rightarrow> Some (word_of_nat (undigits 65536 (a @ replicate skipped 0 @ b)))
      | _ \<Rightarrow> None)"

definition parse_hextets :: "string list \<Rightarrow> 128 word option" where
  "parse_hextets parts =
     (case empty_inner parts of
        [] \<Rightarrow>
          if length parts \<noteq> 8 \<or> hd parts = [] \<or> last parts = [] then None
          else hextets_value parts 0 []
      | [i] \<Rightarrow>
          let lead = (hd parts = []); trail = (last parts = []);
              hi = (if lead then i - 1 else i);
              lo0 = length parts - i - 1;
              lo = (if trail then lo0 - 1 else lo0)
          in if lead \<and> hi \<noteq> 0 \<or> trail \<and> lo \<noteq> 0 \<or> hi + lo > 7 then None
             else hextets_value (take hi parts) (8 - (hi + lo)) (drop (length parts - lo) parts)
      | _ \<Rightarrow> None)"

definition parse_ipv6_value :: "string \<Rightarrow> 128 word option" where
  "parse_ipv6_value s =
     (let parts = split_on (CHR '':'') s in
      if s = [] \<or> length parts < 3 then None
      else case ipv4_suffix parts of
             None \<Rightarrow> None
           | Some ps \<Rightarrow> if length ps > 9 then None else parse_hextets ps)"

text \<open>\<open>s.partition('%')\<close> and the scope check of \<open>_split_scope_id\<close>.\<close>

definition split_scope :: "string \<Rightarrow> (string \<times> string option) option" where
  "split_scope s =
     (let a = takeWhile (\<lambda>c. c \<noteq> CHR ''%'') s; r = dropWhile (\<lambda>c. c \<noteq> CHR ''%'') s in
      case r of
        [] \<Rightarrow> Some (a, None)
      | _ # z \<Rightarrow> if z = [] \<or> CHR ''%'' \<in> set z then None else Some (a, Some z))"

definition parse_ipv6 :: "string \<Rightarrow> (128 word \<times> string option) option" where
  "parse_ipv6 s =
     (if CHR ''/'' \<in> set s then None
      else case split_scope s of
             None \<Rightarrow> None
           | Some (a, scope) \<Rightarrow> map_option (\<lambda>w. (w, scope)) (parse_ipv6_value a))"

definition ip_address :: "string \<Rightarrow> ip option" where
  "ip_address s =
     (case parse_ipv4 s of
        Some w \<Rightarrow> Some (V4 w)
      | None \<Rightarrow> map_option (\<lambda>(w, z). V6 w z) (parse_ipv6 s))"

text \<open>\<open>_compress_hextets\<close>: the first longest run of zero groups becomes \<open>::\<close>.\<close>

fun best_zero_run :: "nat \<Rightarrow> string list \<Rightarrow> nat \<times> nat \<Rightarrow> nat option \<times> nat \<Rightarrow> nat \<times> nat" where
  "best_zero_run i [] best cur = best"
| "best_zero_run i (h # hs) (bs, bl) (cs, cl) =
     (if h = ''0'' then
        let cs' = (case cs of None \<Rightarrow> i | Some j \<Rightarrow> j); cl' = cl + 1 in
        best_zero_run (i + 1) hs (if cl' > bl then (cs', cl') else (bs, bl)) (Some cs', cl')
      else best_zero_run (i + 1) hs (bs, bl) (None, 0))"

definition compress_hextets :: "string list \<Rightarrow> string list" where
  "compress_hextets hs =
     (case best_zero_run 0 hs (0, 0) (None, 0) of (s, l) \<Rightarrow>
        if l > 1 then
          (if s = 0 then [[]] else []) @ take s hs @ [[]] @ drop (s + l) hs @
          (if s + l = length hs then [[]] else [])
        else hs)"

definition ipv6_str :: "128 word \<Rightarrow> string" where
  "ipv6_str w = join '':'' (compress_hextets (map hex_str (fixed_digits 65536 8 (unat w))))"

fun ip_str :: "ip \<Rightarrow> string" where
  "ip_str (V4 w) = ipv4_str w"
| "ip_str (V6 w None) = ipv6_str w"
| "ip_str (V6 w (Some z)) = ipv6_str w @ ''%'' @ z"

text \<open>\<open>ipv4_mapped\<close>: the low 32 bits when the upper 96 are \<open>::ffff\<close>.\<close>

definition ipv4_mapped :: "128 word \<Rightarrow> 32 word option" where
  "ipv4_mapped w = (if drop_bit 32 w = 0xFFFF then Some (ucast w) else None)"

definition map_ipv4 :: "32 word \<Rightarrow> 128 word" where
  "map_ipv4 a = push_bit 32 (mask 16) OR ucast a"

section \<open>Networks of the standard library\<close>

definition netmask :: "nat \<Rightarrow> 'a::len word" where
  "netmask p = NOT (mask (LENGTH('a) - p))"

definition prefix_from_digits :: "nat \<Rightarrow> string \<Rightarrow> nat option" where
  "prefix_from_digits mx s =
     (if s = [] \<or> \<not> list_all is_digit s then None
      else if nat_of_digits s > mx then None else Some (nat_of_digits s))"

fun prefix_of_mask_from :: "nat \<Rightarrow> 32 word \<Rightarrow> nat option" where
  "prefix_of_mask_from p w =
     (if w = netmask p then Some p else if p = 0 then None else prefix_of_mask_from (p - 1) w)"

text \<open>A dotted netmask, or failing that a dotted hostmask (its inversion is a netmask).\<close>

definition prefix_from_dotted :: "string \<Rightarrow> nat option" where
  "prefix_from_dotted s =
     (case (if s = [] then None else
            let octets = split_on (CHR ''.'') s in
            if length octets \<noteq> 4 then None
            else map_option (\<lambda>ds. word_of_nat (undigits 256 ds) :: 32 word)
                   (those (map parse_octet octets))) of
        None \<Rightarrow> None
      | Some w \<Rightarrow> (case prefix_of_mask_from 32 w of
                    Some p \<Rightarrow> Some p
                  | None \<Rightarrow> prefix_of_mask_from 32 (NOT w)))"

definition net4_of :: "32 word \<Rightarrow> nat \<Rightarrow> network" where
  "net4_of w p = Net4 (w AND netmask p) p"

definition net6_of :: "128 word \<Rightarrow> string option \<Rightarrow> nat \<Rightarrow> network" where
  "net6_of w z p = Net6 (w AND netmask p) (if w AND netmask p = w then z else None) p"

definition parse_net4 :: "string list \<Rightarrow> network option" where
  "parse_net4 parts = (case parts of
      [a] \<Rightarrow> map_option (\<lambda>w. net4_of w 32) (parse_ipv4 a)
    | [a, m] \<Rightarrow> (case parse_ipv4 a of
          None \<Rightarrow> None
        | Some w \<Rightarrow> map_option (net4_of w)
            (or_else (prefix_from_digits 32 m) (prefix_from_dotted m)))
    | _ \<Rightarrow> None)"

definition parse_net6 :: "string list \<Rightarrow> network option" where
  "parse_net6 parts = (case parts of
      [a] \<Rightarrow> map_option (\<lambda>(w, z). net6_of w z 128) (parse_ipv6 a)
    | [a, m] \<Rightarrow> (case parse_ipv6 a of
          None \<Rightarrow> None
        | Some (w, z) \<Rightarrow> map_option (net6_of w z) (prefix_from_digits 128 m))
    | _ \<Rightarrow> None)"

text \<open>\<open>ip_network(s, strict=False)\<close>.\<close>

definition ip_network :: "string \<Rightarrow> network option" where
  "ip_network s = (let parts = split_on (CHR ''/'') s in
     or_else (parse_net4 parts) (parse_net6 parts))"

fun network_str :: "network \<Rightarrow> string" where
  "network_str (Net4 w p) = ipv4_str w @ ''/'' @ nat_str p"
| "network_str (Net6 w z p) = ip_str (V6 w z) @ ''/'' @ nat_str p"

fun in_network :: "ip \<Rightarrow> network \<Rightarrow> bool" where
  "in_network (V4 a) (Net4 w p) \<longleftrightarrow> a AND netmask p = w"
| "in_network (V6 a _) (Net6 w _ p) \<longleftrightarrow> a AND netmask p = w"
| "in_network _ _ \<longleftrightarrow> False"

section \<open>\<open>security/ip.py\<close>\<close>

fun collapse_ip :: "ip \<Rightarrow> ip" where
  "collapse_ip (V4 w) = V4 w"
| "collapse_ip (V6 w z) = (case ipv4_mapped w of Some a \<Rightarrow> V4 a | None \<Rightarrow> V6 w z)"

definition normalize_ip :: "string \<Rightarrow> ip option" where
  "normalize_ip value_str = map_option collapse_ip (ip_address value_str)"

definition normalize_network :: "string \<Rightarrow> network option" where
  "normalize_network value_str =
     (case ip_network value_str of
        Some (Net6 w z p) \<Rightarrow>
          (case ipv4_mapped w of
             Some mapped \<Rightarrow> ip_network (ipv4_str mapped @ ''/'' @ nat_str (p - 96))
           | None \<Rightarrow> Some (Net6 w z p))
      | r \<Rightarrow> r)"

definition address_in_networks :: "ip \<Rightarrow> network list \<Rightarrow> bool" where
  "address_in_networks address networks \<longleftrightarrow> list_ex (in_network address) networks"

text \<open>
  \<open>TrustedClientIpResolver.resolve\<close>. Request headers are a dictionary; an absent
  mapping is \<open>None\<close>. An empty header value is falsy and falls through to the other
  spelling, exactly as \<open>or\<close> does.
\<close>

definition truthy_or :: "string option \<Rightarrow> string option \<Rightarrow> string option" where
  "truthy_or a b = (case a of Some (c # cs) \<Rightarrow> Some (c # cs) | _ \<Rightarrow> b)"

definition forwarded_headers ::
  "(string, string) dict option \<Rightarrow> string list option \<Rightarrow> string list" where
  "forwarded_headers headers forwarded_values =
     (let given = (case forwarded_values of None \<Rightarrow> [] | Some vs \<Rightarrow> vs) in
      case (given, headers) of
        ([], Some hs) \<Rightarrow>
          (case truthy_or (dget hs ''x-forwarded-for'') (dget hs ''X-Forwarded-For'') of
             None \<Rightarrow> [] | Some v \<Rightarrow> [v])
      | _ \<Rightarrow> given)"

fun peel :: "network list \<Rightarrow> ip \<Rightarrow> ip list \<Rightarrow> ip" where
  "peel trusted current [] = current"
| "peel trusted current (candidate # rest) =
     (if address_in_networks current trusted then peel trusted candidate rest else current)"

definition chain_parts :: "string list \<Rightarrow> string list" where
  "chain_parts vs = map strip (concat (map (split_on (CHR '','')) vs))"

definition resolve ::
  "network list \<Rightarrow> string option \<Rightarrow> (string, string) dict option \<Rightarrow> string list option \<Rightarrow> ip option" where
  "resolve trusted peer_host headers forwarded_values =
     (case peer_host of
        None \<Rightarrow> None
      | Some host \<Rightarrow>
          (case normalize_ip host of
             None \<Rightarrow> None
           | Some peer \<Rightarrow>
               if \<not> address_in_networks peer trusted then Some peer
               else
                 let vs = forwarded_headers headers forwarded_values;
                     parts = chain_parts vs in
                 if vs = [] then None
                 else if parts = [] \<or> [] \<in> set parts then None
                 else (case those (map normalize_ip parts) of
                         None \<Rightarrow> None
                       | Some chain \<Rightarrow> Some (peel trusted peer (rev chain)))))"

section \<open>Printing and parsing\<close>

lemma those_map_Some: "(\<And>x. x \<in> set xs \<Longrightarrow> f x = Some (g x)) \<Longrightarrow> those (map f xs) = Some (map g xs)"
  by (induction xs) auto

lemma those_append: "those (xs @ ys) =
  (case (those xs, those ys) of (Some a, Some b) \<Rightarrow> Some (a @ b) | _ \<Rightarrow> None)"
  by (induction xs) (auto split: option.splits)

lemma those_eq_SomeD: "those xs = Some ys \<Longrightarrow> xs = map Some ys"
  by (induction xs arbitrary: ys) (auto split: option.splits)

lemma nat_str_length: "\<lbrakk>0 < k; n < 10 ^ k\<rbrakk> \<Longrightarrow> length (nat_str n) \<le> k"
  by (simp add: nat_str_def digits_length_bound)

lemma digit_char_eq_iff: "\<lbrakk>d < 16; e < 16\<rbrakk> \<Longrightarrow> digit_char d = digit_char e \<longleftrightarrow> d = e"
  by (metis hex_value_digit_char option.inject)

lemma nat_str_leading: "nat_str n = ''0'' \<or> hd (nat_str n) \<noteq> CHR ''0''"
proof (cases "n < 10")
  case True
  then have "nat_str n = [digit_char n]" by (simp add: nat_str_def digits.simps[of 10 n])
  then show ?thesis using True digit_char_eq_iff[of n 0] by (auto simp: digit_char_0)
next
  case False
  have "hd (nat_str n) = digit_char (hd (digits 10 n))" by (simp add: nat_str_def hd_map)
  moreover have "hd (digits 10 n) \<noteq> 0" using False by (intro digits_hd_nonzero) auto
  moreover have "hd (digits 10 n) < 10" by (rule digits_less[of 10 _ n]) simp_all
  ultimately show ?thesis using digit_char_eq_iff[of "hd (digits 10 n)" 0] by (auto simp: digit_char_0)
qed

lemma parse_octet_nat_str: "d < 256 \<Longrightarrow> parse_octet (nat_str d) = Some d"
  using nat_str_leading[of d] nat_str_length[of 3 d] nat_str_digits[of _ d]
  by (auto simp: parse_octet_def list_all_iff)

lemma digit_not_special [simp]:
  "\<not> is_digit (CHR ''.'')" "\<not> is_digit (CHR ''/'')" "\<not> is_digit (CHR '':'')" "\<not> is_digit (CHR ''%'')"
  by (simp_all add: is_digit_def char_code_def)

lemma nat_str_free: "\<not> is_digit c \<Longrightarrow> c \<notin> set (nat_str n)"
  using nat_str_digits by blast

lemma set_join: "set (join sep ps) \<subseteq> set sep \<union> \<Union> (set ` set ps)"
  by (induction sep ps rule: join.induct) auto

lemma ipv4_str_chars: "c \<in> set (ipv4_str w) \<Longrightarrow> is_digit c \<or> c = CHR ''.''"
  using set_join[of "''.''" "map nat_str (fixed_digits 256 4 (unat w))"] nat_str_digits
  by (auto simp: ipv4_str_def)

lemma ipv4_str_ne [simp]: "ipv4_str w \<noteq> []"
proof -
  have "join ''.'' (map nat_str ds) \<noteq> []" if "ds \<noteq> []" for ds
    using that by (cases ds; cases "tl ds") auto
  then show ?thesis by (simp add: ipv4_str_def)
qed

lemma unat_less_exp: "unat (w :: 'a::len word) < 2 ^ LENGTH('a)"
  by (rule unsigned_less)

lemma unat_of_bytes: "word_of_nat (undigits 256 (fixed_digits 256 4 (unat (w :: 32 word)))) = w"
proof -
  have "unat w < 256 ^ 4" using unat_less_exp[of w] by simp
  then show ?thesis by (simp add: undigits_fixed_digits)
qed

lemma split_ipv4_str:
  "split_on (CHR ''.'') (ipv4_str w) = map nat_str (fixed_digits 256 4 (unat w))"
  unfolding ipv4_str_def
proof (rule split_on_join)
  show "map nat_str (fixed_digits 256 4 (unat w)) \<noteq> []" by simp
qed (auto simp: nat_str_free)

lemma parse_ipv4_str: "parse_ipv4 (ipv4_str w) = Some w"
proof -
  have "CHR ''/'' \<notin> set (ipv4_str w)" using ipv4_str_chars[of "CHR ''/''" w] by auto
  moreover have "those (map parse_octet (map nat_str (fixed_digits 256 4 (unat w)))) =
      Some (fixed_digits 256 4 (unat w))"
    using those_map_Some[of "fixed_digits 256 4 (unat w)" "parse_octet \<circ> nat_str" id]
    by (simp add: parse_octet_nat_str fixed_digits_less)
  ultimately show ?thesis by (simp add: parse_ipv4_def split_ipv4_str unat_of_bytes)
qed

lemma parse_octet_digits: "parse_octet s = Some d \<Longrightarrow> list_all is_digit s"
  by (auto simp: parse_octet_def split: if_splits)

lemma those_map_all: "those (map f xs) = Some ys \<Longrightarrow> \<forall>x \<in> set xs. \<exists>y. f x = Some y"
  by (induction xs arbitrary: ys) (auto split: option.splits)

lemma parse_ipv4_chars:
  assumes "parse_ipv4 s = Some w" "c \<in> set s"
  shows "is_digit c \<or> c = CHR ''.''"
proof -
  obtain ds where "those (map parse_octet (split_on (CHR ''.'') s)) = Some ds"
    using assms(1) by (auto simp: parse_ipv4_def Let_def split: if_splits)
  then have "\<forall>p \<in> set (split_on (CHR ''.'') s). \<forall>c \<in> set p. is_digit c"
    using those_map_all parse_octet_digits by (fastforce simp: list_all_iff)
  moreover have "c \<in> set (join [CHR ''.''] (split_on (CHR ''.'') s))"
    using assms(2) by (simp add: join_split_on)
  ultimately show ?thesis using set_join by fastforce
qed

lemma parse_ipv4_no_colon: "CHR '':'' \<in> set s \<Longrightarrow> parse_ipv4 s = None"
  using parse_ipv4_chars[of s _ "CHR '':''"] by (cases "parse_ipv4 s") auto

text \<open>Hextets.\<close>

lemma parse_hextet_hex_str: "h < 65536 \<Longrightarrow> parse_hextet (hex_str h) = Some h"
proof -
  assume h: "h < 65536"
  have "length (digits 16 h) \<le> 4" by (rule digits_length_bound) (use h in simp_all)
  moreover have "those (map hex_value (hex_str h)) = Some (digits 16 h)"
    using those_map_Some[of "digits 16 h" "hex_value \<circ> digit_char" id] digits_less[of 16 _ h]
    by (simp add: hex_str_def)
  ultimately show ?thesis by (simp add: parse_hextet_def hex_str_def)
qed

lemma hex_value_special [simp]:
  "hex_value (CHR ''.'') = None" "hex_value (CHR '':'') = None" "hex_value (CHR ''%'') = None"
  "hex_value (CHR ''/'') = None"
  by (simp_all add: hex_value_def is_digit_def char_code_def)

lemma hex_str_value: "c \<in> set (hex_str h) \<Longrightarrow> \<exists>d. hex_value c = Some d"
  using digits_less[of 16 _ h] by (auto simp: hex_str_def)

lemma hex_str_free: "hex_value c = None \<Longrightarrow> c \<notin> set (hex_str h)"
  using hex_str_value by fastforce

lemma hex_str_ne [simp]: "hex_str h \<noteq> []" "[] \<noteq> hex_str h"
  by (simp_all add: hex_str_def)

lemma hex_str_zero: "h < 65536 \<Longrightarrow> hex_str h = ''0'' \<longleftrightarrow> h = 0"
proof
  assume "h < 65536" "hex_str h = ''0''"
  then have "Some h = parse_hextet ''0''" using parse_hextet_hex_str by metis
  then show "h = 0"
    by (simp add: parse_hextet_def hex_value_def is_digit_def char_code_def undigits_def)
next
  show "h = 0 \<Longrightarrow> hex_str h = ''0''" by (simp add: hex_str_def digits.simps digit_char_0)
qed

text \<open>The run the compression chooses consists of zero groups.\<close>

lemma best_zero_run_zeros:
  assumes "drop i xs = hs" "i \<le> length xs"
    and "bs + bl \<le> i" "\<forall>j. bs \<le> j \<and> j < bs + bl \<longrightarrow> xs ! j = ''0''"
    and "case (cs :: nat option) of None \<Rightarrow> cl = 0 | Some c \<Rightarrow> c + cl = i \<and> (\<forall>j. c \<le> j \<and> j < i \<longrightarrow> xs ! j = ''0'')"
    and "best_zero_run i hs (bs, bl) (cs, cl) = (s, l)"
  shows "s + l \<le> length xs \<and> (\<forall>j. s \<le> j \<and> j < s + l \<longrightarrow> xs ! j = ''0'')"
  using assms
proof (induction hs arbitrary: i bs bl cs cl)
  case Nil
  then show ?case by auto
next
  case (Cons h hs)
  have i: "i < length xs" using Cons.prems(1) by (metis drop_eq_Nil leI list.distinct(1))
  then have h: "xs ! i = h" and hs: "drop (Suc i) xs = hs"
    using Cons.prems(1) by (simp_all add: Cons_nth_drop_Suc[symmetric])
  define c where "c = (case cs of None \<Rightarrow> i | Some j \<Rightarrow> j)"
  show ?case
  proof (cases "h = ''0''")
    case True
    have c: "c + (cl + 1) = Suc i" "\<forall>j. c \<le> j \<and> j < Suc i \<longrightarrow> xs ! j = ''0''"
      using Cons.prems(5) True h by (auto simp: c_def less_Suc_eq split: option.splits)
    have step: "best_zero_run (Suc i) hs (if cl + 1 > bl then (c, cl + 1) else (bs, bl)) (Some c, cl + 1) = (s, l)"
      using Cons.prems(6) True by (simp add: c_def Let_def split: option.splits if_splits)
    show ?thesis
    proof (cases "cl + 1 > bl")
      case True
      show ?thesis by (rule Cons.IH[where i = "Suc i" and bs = c and bl = "cl + 1" and cs = "Some c" and cl = "cl + 1"])
        (use hs i c step True in auto)
    next
      case False
      show ?thesis by (rule Cons.IH[where i = "Suc i" and bs = bs and bl = bl and cs = "Some c" and cl = "cl + 1"])
        (use hs i c step False Cons.prems(3,4) in auto)
    qed
  next
    case False
    then show ?thesis using Cons.IH[where i = "Suc i" and bs = bs and bl = bl and cs = None and cl = 0]
        Cons.prems hs i by auto
  qed
qed

lemma compress_cases:
  assumes "\<forall>h \<in> set hs. h < 65536"
  obtains (plain) "compress_hextets (map hex_str hs) = map hex_str hs"
  | (run) a b l where "hs = a @ replicate l 0 @ b" "2 \<le> l"
      "compress_hextets (map hex_str hs) =
        (if a = [] then [[]] else []) @ map hex_str a @ [[]] @ map hex_str b @ (if b = [] then [[]] else [])"
proof -
  obtain s l where sl: "best_zero_run 0 (map hex_str hs) (0, 0) (None, 0) = (s, l)"
    by (rule prod.exhaust)
  have z: "s + l \<le> length hs" "\<forall>j. s \<le> j \<and> j < s + l \<longrightarrow> map hex_str hs ! j = ''0''"
    using best_zero_run_zeros[of 0 "map hex_str hs" "map hex_str hs" 0 0 0 None s l] sl by auto
  show thesis
  proof (cases "l > 1")
    case False
    then show ?thesis using plain sl by (simp add: compress_hextets_def)
  next
    case True
    have "hs ! j = 0" if "s \<le> j" "j < s + l" for j
      using z that assms hex_str_zero[of "hs ! j"] by (auto simp: nth_mem)
    then have "take l (drop s hs) = replicate l 0"
      using z(1) by (intro nth_equalityI) auto
    then have split: "hs = take s hs @ replicate l 0 @ drop (s + l) hs"
      by (metis append_take_drop_id drop_drop add.commute)
    have "(take s hs = []) = (s = 0)" "(drop (s + l) hs = []) = (s + l = length hs)"
      using z(1) True by auto
    then show ?thesis using run[OF split] True sl
      by (auto simp: compress_hextets_def take_map drop_map)
  qed
qed

lemma filter_single:
  "\<lbrakk>m \<le> i; i < n; P i; \<And>j. \<lbrakk>m \<le> j; j < n; j \<noteq> i\<rbrakk> \<Longrightarrow> \<not> P j\<rbrakk> \<Longrightarrow> filter P [m..<n] = [i]"
proof -
  assume a: "m \<le> i" "i < n" "P i" "\<And>j. \<lbrakk>m \<le> j; j < n; j \<noteq> i\<rbrakk> \<Longrightarrow> \<not> P j"
  have "filter P [m..<n] = filter P ([m..<i] @ i # [Suc i..<n])"
    using a(1,2) upt_add_eq_append[of m i "n - i"] by (simp add: upt_conv_Cons)
  moreover have "filter P [m..<i] = []" "filter P [Suc i..<n] = []"
    using a by (auto simp: filter_empty_conv)
  ultimately show ?thesis using a(3) by simp
qed

definition run_parts :: "string list \<Rightarrow> string list \<Rightarrow> string list" where
  "run_parts a b = (if a = [] then [[]] else []) @ a @ [[]] @ b @ (if b = [] then [[]] else [])"

lemma run_parts_length:
  "length (run_parts a b) = length a + length b + 1 + (if a = [] then 1 else 0) + (if b = [] then 1 else 0)"
  by (simp add: run_parts_def)

lemma run_parts_inner:
  assumes "[] \<notin> set a" "[] \<notin> set b"
  shows "empty_inner (run_parts a b) = [if a = [] then 1 else length a]"
  unfolding empty_inner_def
proof (rule filter_single, goal_cases)
  case 1
  then show ?case by (cases a) auto
next
  case 2
  then show ?case by (cases b) (auto simp: run_parts_length)
next
  case 3
  then show ?case by (simp add: run_parts_def nth_append)
next
  case (4 j)
  show ?case
  proof (cases "a = []")
    case True
    then have "2 \<le> j" "j - 2 < length b" "run_parts a b ! j = b ! (j - 2)"
      using 4 by (auto simp: run_parts_def nth_append nth_Cons split: nat.splits if_splits)
    then show ?thesis using assms(2) by (metis nth_mem)
  next
    case False
    have "j < length a \<or> (length a < j \<and> j - length a - 1 < length b)"
      using 4 False by (auto simp: run_parts_length split: if_splits)
    then show ?thesis
    proof
      assume "j < length a"
      then show ?thesis using False assms(1) by (auto simp: run_parts_def nth_append) (metis nth_mem)
    next
      assume j: "length a < j \<and> j - length a - 1 < length b"
      then obtain k where "j = length a + Suc k" "k < length b"
        by (metis add_Suc_right diff_Suc_eq_diff_pred diff_diff_left less_imp_Suc_add diff_add_inverse One_nat_def plus_1_eq_Suc add.commute)
      then show ?thesis using False assms(2) by (auto simp: run_parts_def nth_append) (metis nth_mem)
    qed
  qed
qed

lemma parse_hextets_run:
  assumes "[] \<notin> set a" "[] \<notin> set b" "length a + length b \<le> 7"
  shows "parse_hextets (run_parts a b) = hextets_value a (8 - (length a + length b)) b"
proof -
  have h: "hd (run_parts a b) = [] \<longleftrightarrow> a = []" using assms(1) by (cases a) (auto simp: run_parts_def)
  have t: "last (run_parts a b) = [] \<longleftrightarrow> b = []" using assms(2)
    by (cases b rule: rev_cases) (auto simp: run_parts_def)
  show ?thesis
    using assms(3) unfolding parse_hextets_def run_parts_inner[OF assms(1,2)] h t run_parts_length
    by (cases "a = []"; cases "b = []") (simp_all add: Let_def, simp_all add: run_parts_def)
qed

lemma hextets_value_hex:
  "\<lbrakk>\<forall>h \<in> set a. h < 65536; \<forall>h \<in> set b. h < 65536\<rbrakk> \<Longrightarrow>
   hextets_value (map hex_str a) n (map hex_str b) =
     Some (word_of_nat (undigits 65536 (a @ replicate n 0 @ b)))"
  using those_map_Some[of a "parse_hextet \<circ> hex_str" id] those_map_Some[of b "parse_hextet \<circ> hex_str" id]
  by (simp add: hextets_value_def parse_hextet_hex_str)

lemma run_parts_chars: "p \<in> set (run_parts (map hex_str a) (map hex_str b)) \<Longrightarrow> c \<in> set p \<Longrightarrow>
   hex_value c \<noteq> None"
  using hex_str_value by (auto simp: run_parts_def split: if_splits)

lemma unat_of_hextets:
  "word_of_nat (undigits 65536 (fixed_digits 65536 8 (unat (w :: 128 word)))) = w"
proof -
  have "unat w < 65536 ^ 8" using unat_less_exp[of w] by simp
  then show ?thesis by (simp add: undigits_fixed_digits)
qed

lemma last_dot_free: "\<lbrakk>ps \<noteq> []; \<forall>p \<in> set ps. CHR ''.'' \<notin> set p\<rbrakk> \<Longrightarrow> ipv4_suffix ps = Some ps"
  by (simp add: ipv4_suffix_def)

lemma join_ne: "\<lbrakk>2 \<le> length ps; sep \<noteq> []\<rbrakk> \<Longrightarrow> join sep ps \<noteq> []"
  by (cases ps; cases "tl ps") auto

lemma parse_ipv6_parts:
  assumes "3 \<le> length ps" "length ps \<le> 9"
    and "\<forall>p \<in> set ps. \<forall>c \<in> set p. hex_value c \<noteq> None"
  shows "parse_ipv6_value (join '':'' ps) = parse_hextets ps"
proof -
  have "\<forall>p \<in> set ps. CHR '':'' \<notin> set p" "\<forall>p \<in> set ps. CHR ''.'' \<notin> set p"
    using assms(3) by fastforce+
  moreover have "ps \<noteq> []" using assms(1) by auto
  ultimately show ?thesis using assms(1,2)
    by (simp add: parse_ipv6_value_def split_on_join last_dot_free join_ne)
qed

lemma empty_inner_none: "[] \<notin> set ps \<Longrightarrow> empty_inner ps = []"
proof -
  assume a: "[] \<notin> set ps"
  have "ps ! i \<noteq> []" if "i < length ps" for i using a that by (metis nth_mem)
  then show ?thesis by (auto simp: empty_inner_def filter_empty_conv)
qed

lemma parse_ipv6_str: "parse_ipv6_value (ipv6_str w) = Some w"
proof -
  let ?hs = "fixed_digits 65536 8 (unat w)"
  have lt: "\<forall>h \<in> set ?hs. h < 65536" by (auto intro: fixed_digits_less)
  show ?thesis
  proof (rule compress_cases[OF lt])
    assume c: "compress_hextets (map hex_str ?hs) = map hex_str ?hs"
    have ne: "[] \<notin> set (map hex_str ?hs)" using hex_str_ne by (metis imageE list.set_map)
    have "parse_ipv6_value (ipv6_str w) = parse_hextets (map hex_str ?hs)"
      unfolding ipv6_str_def c by (rule parse_ipv6_parts) (use hex_str_value in \<open>auto simp del: fixed_digits.simps\<close>)
    also have "\<dots> = hextets_value (map hex_str ?hs) 0 (map hex_str [])"
    proof -
      have "hd (map hex_str ?hs) \<noteq> []" "last (map hex_str ?hs) \<noteq> []"
        using ne hd_in_set[of "map hex_str ?hs"] last_in_set[of "map hex_str ?hs"] by auto
      then show ?thesis by (simp add: parse_hextets_def empty_inner_none[OF ne])
    qed
    also have "\<dots> = Some w"
      using hextets_value_hex[OF lt, of "[]" 0] by (simp add: unat_of_hextets)
    finally show ?thesis .
  next
    fix a b l
    assume r: "?hs = a @ replicate l 0 @ b" "2 \<le> l"
      and c: "compress_hextets (map hex_str ?hs) =
        (if a = [] then [[]] else []) @ map hex_str a @ [[]] @ map hex_str b @ (if b = [] then [[]] else [])"
    have len: "length a + l + length b = 8" using r(1) length_fixed_digits[of 65536 8 "unat w"]
      by (metis add.assoc length_append length_replicate)
    have lta: "\<forall>h \<in> set a. h < 65536" and ltb: "\<forall>h \<in> set b. h < 65536" using lt r(1) by auto
    have "compress_hextets (map hex_str ?hs) = run_parts (map hex_str a) (map hex_str b)"
      using c by (simp add: run_parts_def)
    then have "parse_ipv6_value (ipv6_str w) = parse_hextets (run_parts (map hex_str a) (map hex_str b))"
      unfolding ipv6_str_def
    proof (simp only:, intro parse_ipv6_parts)
      show "3 \<le> length (run_parts (map hex_str a) (map hex_str b))"
        by (cases a; cases b) (auto simp: run_parts_length)
      show "length (run_parts (map hex_str a) (map hex_str b)) \<le> 9"
        using len r(2) by (auto simp: run_parts_length)
    qed (use run_parts_chars in blast)
    also have "\<dots> = hextets_value (map hex_str a) (8 - (length a + length b)) (map hex_str b)"
      using len r(2) by (subst parse_hextets_run) auto
    also have "\<dots> = Some (word_of_nat (undigits 65536 ?hs))"
    proof -
      have "8 - (length a + length b) = l" using len by simp
      then show ?thesis using hextets_value_hex[OF lta ltb, of l] r(1) by simp
    qed
    finally show ?thesis by (simp add: unat_of_hextets)
  qed
qed

definition scope_wf :: "string option \<Rightarrow> bool" where
  "scope_wf z = (case z of None \<Rightarrow> True
     | Some t \<Rightarrow> t \<noteq> [] \<and> CHR ''%'' \<notin> set t \<and> CHR ''/'' \<notin> set t)"

fun ip_wf :: "ip \<Rightarrow> bool" where
  "ip_wf (V4 w) = True"
| "ip_wf (V6 w z) = scope_wf z"

lemma compress_chars: "set (compress_hextets hs) \<subseteq> insert [] (set hs)"
  by (auto simp: compress_hextets_def split: prod.splits dest: in_set_takeD in_set_dropD)

lemma ipv6_str_chars: "c \<in> set (ipv6_str w) \<Longrightarrow> hex_value c \<noteq> None \<or> c = CHR '':''"
  using set_join[of "'':''" "compress_hextets (map hex_str (fixed_digits 65536 8 (unat w)))"]
    compress_chars[of "map hex_str (fixed_digits 65536 8 (unat w))"] hex_str_value
  by (fastforce simp: ipv6_str_def)

lemma ipv6_str_colon: "CHR '':'' \<in> set (ipv6_str w)"
proof (rule ccontr)
  assume "\<not> ?thesis"
  then have "parse_ipv6_value (ipv6_str w) = None"
    by (simp add: parse_ipv6_value_def split_on_sep_free)
  then show False by (simp add: parse_ipv6_str)
qed

lemma ipv6_str_free: "\<lbrakk>hex_value c = None; c \<noteq> CHR '':''\<rbrakk> \<Longrightarrow> c \<notin> set (ipv6_str w)"
  using ipv6_str_chars by blast

lemma takeWhile_free: "c \<notin> set s \<Longrightarrow> takeWhile (\<lambda>x. x \<noteq> c) (s @ c # t) = s"
  and dropWhile_free: "c \<notin> set s \<Longrightarrow> dropWhile (\<lambda>x. x \<noteq> c) (s @ c # t) = c # t"
  by (induction s) auto

lemma split_scope_plain: "CHR ''%'' \<notin> set s \<Longrightarrow> split_scope s = Some (s, None)"
proof -
  assume a: "CHR ''%'' \<notin> set s"
  have "takeWhile (\<lambda>c. c \<noteq> CHR ''%'') s = s" using a by (auto simp: takeWhile_eq_all_conv)
  moreover have "dropWhile (\<lambda>c. c \<noteq> CHR ''%'') s = []" using a by (auto simp: dropWhile_eq_Nil_conv)
  ultimately show ?thesis unfolding split_scope_def Let_def by (simp only: list.case)
qed

lemma split_scope_scoped:
  "\<lbrakk>CHR ''%'' \<notin> set s; z \<noteq> []; CHR ''%'' \<notin> set z\<rbrakk> \<Longrightarrow> split_scope (s @ ''%'' @ z) = Some (s, Some z)"
  by (simp add: split_scope_def takeWhile_free dropWhile_free Let_def)

lemma split_scope_wf: "split_scope s = Some (a, z) \<Longrightarrow> CHR ''/'' \<notin> set s \<Longrightarrow> scope_wf z"
  by (auto simp: split_scope_def scope_wf_def Let_def split: list.splits if_splits)
    (metis list.set_intros(2) set_dropWhileD)

lemma parse_ipv6_ip_str: "scope_wf z \<Longrightarrow> parse_ipv6 (ip_str (V6 w z)) = Some (w, z)"
  using ipv6_str_free[of "CHR ''/''" w] ipv6_str_free[of "CHR ''%''" w]
  by (cases z) (auto simp: parse_ipv6_def split_scope_plain split_scope_scoped parse_ipv6_str
      scope_wf_def simp del: append.simps)

lemma ip_str_v6_colon: "CHR '':'' \<in> set (ip_str (V6 w z))"
  using ipv6_str_colon by (cases z) auto

lemma ip_address_ip_str: "ip_wf a \<Longrightarrow> ip_address (ip_str a) = Some a"
  by (cases a) (auto simp: ip_address_def parse_ipv4_str parse_ipv6_ip_str
      parse_ipv4_no_colon[OF ip_str_v6_colon])

lemma parse_ipv6_wf: "parse_ipv6 s = Some (w, z) \<Longrightarrow> scope_wf z"
  using split_scope_wf by (auto simp: parse_ipv6_def split: if_splits option.splits)

lemma ip_address_wf: "ip_address s = Some a \<Longrightarrow> ip_wf a"
  using parse_ipv6_wf by (auto simp: ip_address_def split: option.splits)

fun network_wf :: "network \<Rightarrow> bool" where
  "network_wf (Net4 w p) \<longleftrightarrow> p \<le> 32 \<and> w AND netmask p = w"
| "network_wf (Net6 w z p) \<longleftrightarrow> p \<le> 128 \<and> w AND netmask p = w \<and> scope_wf z"

lemma prefix_from_digits_str: "p \<le> mx \<Longrightarrow> prefix_from_digits mx (nat_str p) = Some p"
  using nat_str_digits by (auto simp: prefix_from_digits_def list_all_iff)

lemma split_network_str:
  "CHR ''/'' \<notin> set a \<Longrightarrow> split_on (CHR ''/'') (a @ ''/'' @ nat_str p) = [a, nat_str p]"
  by (simp add: split_on_append split_on_sep_free nat_str_free)

lemma ip_str_no_slash: "ip_wf a \<Longrightarrow> CHR ''/'' \<notin> set (ip_str a)"
  using ipv6_str_free[of "CHR ''/''"] ipv4_str_chars[of "CHR ''/''"]
  by (cases a rule: ip_str.cases) (auto simp: scope_wf_def)

lemma ip_network_v4: "p \<le> 32 \<Longrightarrow> ip_network (ipv4_str w @ ''/'' @ nat_str p) = Some (net4_of w p)"
  using split_network_str[of "ipv4_str w" p] ip_str_no_slash[of "V4 w"]
  by (simp add: ip_network_def parse_net4_def parse_ipv4_str prefix_from_digits_str)

lemmas ip_network_v4' = ip_network_v4[simplified]

lemma ip_network_network_str: "network_wf n \<Longrightarrow> ip_network (network_str n) = Some n"
proof (cases n)
  case (Net4 w p)
  then show "network_wf n \<Longrightarrow> ?thesis" using ip_network_v4[of p w] by (simp add: net4_of_def)
next
  case (Net6 w z p)
  assume wf: "network_wf n"
  then have wf': "ip_wf (V6 w z)" and p: "p \<le> 128" and m: "w AND netmask p = w"
    using Net6 by simp_all
  have "split_on (CHR ''/'') (network_str n) = [ip_str (V6 w z), nat_str p]"
    using split_network_str[OF ip_str_no_slash[OF wf'], of p] Net6 by simp
  then show ?thesis using wf' p m Net6
    by (simp add: ip_network_def parse_net4_def parse_net6_def parse_ipv4_no_colon[OF ip_str_v6_colon]
        parse_ipv6_ip_str prefix_from_digits_str net6_of_def)
qed

declare prefix_of_mask_from.simps [simp del]

lemma prefix_of_mask_from_le: "prefix_of_mask_from p w = Some q \<Longrightarrow> q \<le> p"
proof (induction p w rule: prefix_of_mask_from.induct)
  case (1 p w)
  then show ?case by (subst (asm) (2) prefix_of_mask_from.simps) (auto split: if_splits)
qed

lemma prefix_from_dotted_le: "prefix_from_dotted s = Some p \<Longrightarrow> p \<le> 32"
  by (auto simp: prefix_from_dotted_def dest: prefix_of_mask_from_le split: option.splits if_splits)

lemma net4_of_wf: "p \<le> 32 \<Longrightarrow> network_wf (net4_of w p)"
  by (simp add: net4_of_def and.assoc)

lemma net6_of_wf: "\<lbrakk>p \<le> 128; scope_wf z\<rbrakk> \<Longrightarrow> network_wf (net6_of w z p)"
  by (auto simp: net6_of_def and.assoc scope_wf_def)

lemma ip_network_wf: "ip_network s = Some n \<Longrightarrow> network_wf n"
proof -
  have "network_wf n" if "parse_net4 ps = Some n" for ps
    using that prefix_from_dotted_le
    by (auto simp: parse_net4_def or_else_def prefix_from_digits_def split: list.splits option.splits
        if_splits intro!: net4_of_wf)
  moreover have "network_wf n" if "parse_net6 ps = Some n" for ps
    using that parse_ipv6_wf
    by (auto simp: parse_net6_def prefix_from_digits_def split: list.splits option.splits
        if_splits intro!: net6_of_wf)
  ultimately show "ip_network s = Some n \<Longrightarrow> network_wf n"
    by (auto simp: ip_network_def or_else_def Let_def split: option.splits)
qed

section \<open>Mapped networks\<close>

lemma bit_0xFFFF [simp]: "bit (0xFFFF :: nat) n \<longleftrightarrow> n < 16" "bit (0xFFFF :: int) n \<longleftrightarrow> n < 16"
proof -
  have m: "(0xFFFF :: nat) = mask 16" "(0xFFFF :: int) = mask 16"
    by (simp_all add: mask_eq_exp_minus_1)
  show "bit (0xFFFF :: nat) n \<longleftrightarrow> n < 16" "bit (0xFFFF :: int) n \<longleftrightarrow> n < 16"
    unfolding m by (simp_all only: bit_mask_iff) auto
qed

lemma bit_netmask: "bit (netmask p :: 'a::len word) n \<longleftrightarrow> n < LENGTH('a) \<and> LENGTH('a) - p \<le> n"
  by (auto simp: netmask_def bit_not_iff bit_mask_iff)

lemma bit_map_ipv4: "bit (map_ipv4 a) n \<longleftrightarrow> (n < 32 \<and> bit a n) \<or> (32 \<le> n \<and> n < 48)"
  unfolding map_ipv4_def bit_or_iff bit_push_bit_iff bit_mask_iff bit_ucast_iff
  by (auto dest: bit_imp_le_length)

lemma ipv4_mapped_iff: "ipv4_mapped w = Some a \<longleftrightarrow> w = map_ipv4 a"
proof
  assume m: "ipv4_mapped w = Some a"
  then have hi: "drop_bit 32 w = 0xFFFF" and a: "a = ucast w"
    by (auto simp: ipv4_mapped_def split: if_splits)
  have "bit w n \<longleftrightarrow> n < 48" if "32 \<le> n" "n < 128" for n
    using arg_cong[OF hi, of "\<lambda>x. bit x (n - 32)"] that by (auto simp: bit_drop_bit_eq)
  then show "w = map_ipv4 a"
    by (intro bit_word_eqI) (auto simp: bit_map_ipv4 a bit_ucast_iff not_less)
next
  assume w: "w = map_ipv4 a"
  have "drop_bit 32 w = 0xFFFF"
    by (rule bit_word_eqI) (auto simp: w bit_drop_bit_eq bit_map_ipv4)
  moreover have "ucast w = a"
    by (rule bit_word_eqI) (auto simp: w bit_ucast_iff bit_map_ipv4)
  ultimately show "ipv4_mapped w = Some a" by (simp add: ipv4_mapped_def)
qed

lemma mapped_map_ipv4 [simp]: "ipv4_mapped (map_ipv4 a) = Some a"
  by (simp add: ipv4_mapped_iff)

lemma mapped_network_prefix:
  "\<lbrakk>ipv4_mapped w = Some a; w AND netmask p = w; p \<le> 128\<rbrakk> \<Longrightarrow> 96 \<le> p"
proof (rule ccontr)
  assume a: "ipv4_mapped w = Some a" "w AND netmask p = w" "p \<le> 128" "\<not> 96 \<le> p"
  have "bit w 32" using a(1) by (simp add: ipv4_mapped_iff bit_map_ipv4)
  moreover have "32 < 128 - p" using a(4) by simp
  then have "\<not> bit (w AND netmask p) 32" by (simp add: bit_and_iff bit_netmask)
  ultimately show False using a(2) by simp
qed

lemma bit_eq_words: "(a :: 'a::len word) = b \<longleftrightarrow> (\<forall>n < LENGTH('a). bit a n = bit b n)"
  by (auto intro: bit_word_eqI)

lemma mapped_in_network:
  assumes "96 \<le> p" "p \<le> 128"
  shows "map_ipv4 a AND netmask p = map_ipv4 b \<longleftrightarrow> a AND netmask (p - 96) = b"
proof
  assume l: "map_ipv4 a AND netmask p = map_ipv4 b"
  show "a AND netmask (p - 96) = b"
  proof (rule bit_word_eqI)
    fix n assume "n < LENGTH(32)"
    then show "bit (a AND netmask (p - 96)) n = bit b n"
      using arg_cong[OF l, of "\<lambda>x. bit x n"] assms by (auto simp: bit_and_iff bit_map_ipv4 bit_netmask)
  qed
next
  assume r: "a AND netmask (p - 96) = b"
  show "map_ipv4 a AND netmask p = map_ipv4 b"
    by (rule bit_word_eqI) (use assms in \<open>auto simp: r[symmetric] bit_and_iff bit_map_ipv4 bit_netmask\<close>)
qed

lemma netmask_hi_zero_iff:
  "\<lbrakk>96 \<le> p; p \<le> 128; w AND netmask p = map_ipv4 b\<rbrakk> \<Longrightarrow> \<exists>a. w = map_ipv4 a"
proof -
  assume a: "96 \<le> p" "p \<le> 128" "w AND netmask p = map_ipv4 b"
  have "bit w n \<longleftrightarrow> n < 48" if "32 \<le> n" "n < 128" for n
    using arg_cong[OF a(3), of "\<lambda>x. bit x n"] that a(1,2) by (auto simp: bit_and_iff bit_map_ipv4 bit_netmask)
  then have "w = map_ipv4 (ucast w)"
    by (intro bit_word_eqI) (auto simp: bit_map_ipv4 bit_ucast_iff not_less)
  then show ?thesis by blast
qed

lemma normalize_network_cases:
  assumes "normalize_network s = Some n"
  obtains (plain) "ip_network s = Some n" "\<And>w z p. n = Net6 w z p \<Longrightarrow> ipv4_mapped w = None"
  | (mapped) w z p a where "ip_network s = Some (Net6 w z p)" "ipv4_mapped w = Some a"
      "96 \<le> p" "p \<le> 128" "n = net4_of a (p - 96)"
proof (cases "\<exists>w z p a. ip_network s = Some (Net6 w z p) \<and> ipv4_mapped w = Some a")
  case True
  then obtain w z p a where n6: "ip_network s = Some (Net6 w z p)" "ipv4_mapped w = Some a" by blast
  then have wf: "p \<le> 128" "w AND netmask p = w" using ip_network_wf by fastforce+
  then have "96 \<le> p" using mapped_network_prefix n6(2) by blast
  moreover have "n = net4_of a (p - 96)"
    using assms n6 wf by (simp add: normalize_network_def ip_network_v4')
  ultimately show thesis using mapped n6 wf(1) by blast
next
  case False
  then show thesis using assms plain
    by (auto simp: normalize_network_def split: option.splits network.splits)
qed

section \<open>Lemmas on the resolver\<close>

lemma peel_split:
  "\<exists>pre post. c # xs = pre @ peel T c xs # post \<and> (\<forall>x \<in> set pre. address_in_networks x T) \<and>
     (post = [] \<or> \<not> address_in_networks (peel T c xs) T)"
proof (induction xs arbitrary: c)
  case Nil
  show ?case by (intro exI[of _ "[]"]) simp
next
  case (Cons x xs)
  show ?case
  proof (cases "address_in_networks c T")
    case True
    obtain pre post where "x # xs = pre @ peel T x xs # post" "\<forall>x \<in> set pre. address_in_networks x T"
      "post = [] \<or> \<not> address_in_networks (peel T x xs) T" using Cons by blast
    moreover have "peel T c (x # xs) = peel T x xs" using True by simp
    ultimately have "c # x # xs = (c # pre) @ peel T c (x # xs) # post \<and>
        (\<forall>x \<in> set (c # pre). address_in_networks x T) \<and>
        (post = [] \<or> \<not> address_in_networks (peel T c (x # xs)) T)"
      using True by (metis append_Cons set_ConsD)
    then show ?thesis by blast
  next
    case False
    then show ?thesis by (intro exI[of _ "[]"] exI[of _ "x # xs"]) simp
  qed
qed

lemma peel_append: "\<not> address_in_networks (peel T c xs) T \<Longrightarrow> peel T c (xs @ ys) = peel T c xs"
proof (induction xs arbitrary: c)
  case Nil
  then show ?case by (cases ys) auto
qed auto

lemma collapse_ip_canonical: "collapse_ip a = V6 w z \<Longrightarrow> ipv4_mapped w = None"
  by (cases a) (auto split: option.splits)

lemma normalize_ip_canonical: "normalize_ip s = Some (V6 w z) \<Longrightarrow> ipv4_mapped w = None"
  by (auto simp: normalize_ip_def dest: collapse_ip_canonical)

lemma normalize_ip_text: "ip_wf a \<Longrightarrow> normalize_ip (ip_str a) = Some (collapse_ip a)"
  by (simp add: normalize_ip_def ip_address_ip_str)

lemma collapse_ip_wf: "ip_wf a \<Longrightarrow> ip_wf (collapse_ip a)"
  by (cases a) (auto split: option.splits)

lemma collapse_ip_idem [simp]: "collapse_ip (collapse_ip a) = collapse_ip a"
  by (cases a) (auto split: option.splits)

lemma normalize_ip_wf: "normalize_ip s = Some a \<Longrightarrow> ip_wf a \<and> normalize_ip (ip_str a) = Some a"
  by (auto simp: normalize_ip_def ip_address_wf collapse_ip_wf ip_address_ip_str)

lemma resolve_trusted:
  assumes "normalize_ip h = Some peer" "address_in_networks peer T" "forwarded_headers hs fv \<noteq> []"
  shows "resolve T (Some h) hs fv =
    (case those (map normalize_ip (chain_parts (forwarded_headers hs fv))) of
       Some chain \<Rightarrow> if [] \<in> set (chain_parts (forwarded_headers hs fv)) then None
                    else Some (peel T peer (rev chain))
     | None \<Rightarrow> None)"
proof -
  have "split_on (CHR '','') v \<noteq> []" for v by simp
  then have "chain_parts (forwarded_headers hs fv) \<noteq> []"
    using assms(3) by (cases "forwarded_headers hs fv") (auto simp: chain_parts_def)
  then show ?thesis using assms by (auto simp: resolve_def Let_def split: option.splits)
qed

lemma resolve_someD:
  assumes "resolve T (Some h) hs fv = Some r" "normalize_ip h = Some peer" "address_in_networks peer T"
  obtains chain where "forwarded_headers hs fv \<noteq> []"
    "those (map normalize_ip (chain_parts (forwarded_headers hs fv))) = Some chain"
    "r = peel T peer (rev chain)" "[] \<notin> set (chain_parts (forwarded_headers hs fv))"
  using assms by (auto simp: resolve_def Let_def split: if_splits option.splits)

section \<open>Properties\<close>

text \<open>A normalised network is well formed, is never an IPv4-mapped IPv6 network, and
  normalising its text again changes nothing.\<close>

theorem normalize_network_canonical:
  assumes "normalize_network s = Some n"
  shows "network_wf n \<and> (\<forall>w z p. n = Net6 w z p \<longrightarrow> ipv4_mapped w = None) \<and>
    normalize_network (network_str n) = Some n"
proof -
  have "network_wf n \<and> (\<forall>w z p. n = Net6 w z p \<longrightarrow> ipv4_mapped w = None)"
    using assms
  proof (cases rule: normalize_network_cases)
    case plain
    then show ?thesis using ip_network_wf by blast
  next
    case (mapped w z p a)
    then show ?thesis using net4_of_wf[of "p - 96" a] by (simp add: net4_of_def)
  qed
  moreover from this have "normalize_network (network_str n) = Some n"
    by (cases n) (simp_all add: normalize_network_def ip_network_network_str del: network_str.simps network_wf.simps)
  ultimately show ?thesis by blast
qed

theorem normalize_network_canonical_witness:
  "normalize_network (network_str (Net4 0x0A000000 8)) = Some (Net4 0x0A000000 8)"
proof -
  have "normalize_network ''10.1.2.3/8'' = Some (Net4 0x0A000000 8)"
  proof -
    have "ip_network ''10.1.2.3/8'' = Some (Net4 0x0A000000 8)" by code_simp
    then show ?thesis by (simp add: normalize_network_def)
  qed
  then show ?thesis using normalize_network_canonical by blast
qed

text \<open>Collapsing an IPv4-mapped network keeps its members. The prefix of such a
  network is always at least 96, so the guard against a negative prefix never acts;
  every member of the network is a mapped address, and it matches the collapsed network
  exactly when it matched before.\<close>

theorem mapped_network_membership:
  assumes "ip_network s = Some (Net6 w z p)" "ipv4_mapped w = Some b"
  shows "96 \<le> p \<and> (\<exists>m. normalize_network s = Some m \<and>
    (\<forall>x y. in_network (V6 x y) (Net6 w z p) \<longleftrightarrow> (\<exists>a. collapse_ip (V6 x y) = V4 a \<and> in_network (V4 a) m)))"
proof -
  have wf: "p \<le> 128" "w AND netmask p = w" using ip_network_wf[OF assms(1)] by simp_all
  then have p: "96 \<le> p" using mapped_network_prefix assms(2) by blast
  have w: "w = map_ipv4 b" using assms(2) by (simp add: ipv4_mapped_iff)
  then have b: "b AND netmask (p - 96) = b" using wf mapped_in_network[OF p wf(1)] by simp
  have n: "normalize_network s = Some (Net4 b (p - 96))"
    using assms wf(1) b by (simp add: normalize_network_def ip_network_v4' net4_of_def)
  have "in_network (V6 x y) (Net6 w z p) \<longleftrightarrow>
      (\<exists>a. collapse_ip (V6 x y) = V4 a \<and> in_network (V4 a) (Net4 b (p - 96)))" for x y
  proof
    assume l: "in_network (V6 x y) (Net6 w z p)"
    then obtain a where a: "x = map_ipv4 a" using netmask_hi_zero_iff[OF p wf(1), of x b] w by auto
    then have "a AND netmask (p - 96) = b" using l mapped_in_network[OF p wf(1)] w by simp
    then show "\<exists>a. collapse_ip (V6 x y) = V4 a \<and> in_network (V4 a) (Net4 b (p - 96))"
      using a by (intro exI[of _ a]) simp
  next
    assume "\<exists>a. collapse_ip (V6 x y) = V4 a \<and> in_network (V4 a) (Net4 b (p - 96))"
    then obtain a where "ipv4_mapped x = Some a" "a AND netmask (p - 96) = b"
      by (auto split: option.splits)
    then show "in_network (V6 x y) (Net6 w z p)"
      using mapped_in_network[OF p wf(1)] w by (simp add: ipv4_mapped_iff)
  qed
  then show ?thesis using p n by blast
qed

theorem mapped_network_membership_witness:
  "(96::nat) \<le> 104 \<and> (\<exists>m. normalize_network ''::ffff:10.1.2.3/104'' = Some m \<and>
     in_network (V4 0x0A090909) m)"
proof -
  have s: "split_on (CHR ''/'') ''::ffff:10.1.2.3/104'' = [''::ffff:10.1.2.3'', ''104'']" by code_simp
  have v6: "parse_net6 [''::ffff:10.1.2.3'', ''104''] = Some (Net6 0xFFFF0A000000 None 104)" by code_simp
  have v4: "parse_net4 [''::ffff:10.1.2.3'', ''104''] = None"
    by (simp add: parse_net4_def parse_ipv4_no_colon)
  have n: "ip_network ''::ffff:10.1.2.3/104'' = Some (Net6 0xFFFF0A000000 None 104)"
    by (simp add: ip_network_def s v4 v6)
  have m: "ipv4_mapped 0xFFFF0A000000 = Some 0x0A000000" by code_simp
  have i: "in_network (V6 0xFFFF0A090909 None) (Net6 0xFFFF0A000000 None 104)" by code_simp
  have c: "ipv4_mapped 0xFFFF0A090909 = Some 0x0A090909" by code_simp
  obtain k where k: "normalize_network ''::ffff:10.1.2.3/104'' = Some k"
    and mem: "\<And>x y. in_network (V6 x y) (Net6 0xFFFF0A000000 None 104) \<longleftrightarrow>
      (\<exists>a. collapse_ip (V6 x y) = V4 a \<and> in_network (V4 a) k)"
    using mapped_network_membership[OF n m] by blast
  have "in_network (V4 0x0A090909) k" using mem[of "0xFFFF0A090909" None] i c by simp
  then show ?thesis using k by simp
qed

text \<open>C25: the normal form of the security tables is canonical. A normalised address is well
  formed, is never an IPv4-mapped IPv6 address, and its text normalises to itself; an IPv4
  address and its mapped form normalise alike. The same holds of networks, and a rule written for a
  mapped network admits, in its normal form, exactly the IPv4 addresses whose mapped form
  the written network contains.\<close>

theorem ip_normalization_canonical:
  shows "(normalize_ip s = Some a \<longrightarrow> ip_wf a \<and> (\<forall>w z. a = V6 w z \<longrightarrow> ipv4_mapped w = None) \<and>
      normalize_ip (ip_str a) = Some a) \<and>
    normalize_ip (ip_str (V4 v)) = Some (V4 v) \<and> normalize_ip (ip_str (V6 (map_ipv4 v) None)) = Some (V4 v) \<and>
    (normalize_network t = Some n \<longrightarrow> network_wf n \<and> (\<forall>w z p. n = Net6 w z p \<longrightarrow> ipv4_mapped w = None) \<and>
      normalize_network (network_str n) = Some n) \<and>
    (ip_network t = Some (Net6 u z p) \<and> ipv4_mapped u = Some b \<longrightarrow> (\<exists>m. normalize_network t = Some m \<and>
      (\<forall>x y. in_network (V6 x y) (Net6 u z p) \<longleftrightarrow> (\<exists>c. collapse_ip (V6 x y) = V4 c \<and> in_network (V4 c) m))))"
  using normalize_ip_wf[of s a] normalize_ip_canonical[of s] normalize_network_canonical[of t n]
    mapped_network_membership[of t u z p b] normalize_ip_text[of "V4 v"] normalize_ip_text[of "V6 (map_ipv4 v) None"]
  by (auto simp: scope_wf_def)

theorem ip_normalization_canonical_witness:
  "normalize_ip ''::ffff:10.1.2.3'' = Some (V4 0x0A010203) \<and> normalize_ip (ip_str (V4 0x0A010203)) = Some (V4 0x0A010203)"
proof -
  have "normalize_ip ''::ffff:10.1.2.3'' = Some (V4 0x0A010203)" by code_simp
  then show ?thesis using ip_normalization_canonical[of "''::ffff:10.1.2.3''" "V4 0x0A010203"] by simp
qed

text \<open>C13: behind a trusted proxy, what a client writes in front of the forwarding entries the
  proxies recorded never makes it someone else. When the genuine entries contain an untrusted hop, a
  prefix whose entries are all addresses leaves the resolved address as it was, and a prefix
  with any other entry leaves the request without an address. From an untrusted peer no header
  is read.\<close>

theorem resolve_spoof_resistant:
  assumes "normalize_ip h = Some peer"
    and "resolve T (Some h) None (Some vs) = Some r" "\<not> address_in_networks r T"
    and "forged = spoof # vs \<or> (\<exists>v rest. vs = v # rest \<and> forged = (spoof @ '','' @ v) # rest)"
  shows "if address_in_networks peer T
    then resolve T (Some h) None (Some forged) =
      (if \<forall>entry \<in> set (split_on (CHR '','') spoof). normalize_ip (strip entry) \<noteq> None then Some r else None)
    else resolve T (Some h) hs fv = Some peer"
proof (cases "address_in_networks peer T")
  case False
  then show ?thesis using assms(1) by (auto simp: resolve_def)
next
  case True
  have fh: "forwarded_headers None (Some us) = us" for us by (simp add: forwarded_headers_def split: list.splits)
  obtain chain where vs: "vs \<noteq> []" and chain: "those (map normalize_ip (chain_parts vs)) = Some chain"
    and r: "r = peel T peer (rev chain)" and full: "[] \<notin> set (chain_parts vs)"
    using resolve_someD[OF assms(2,1) True] by (auto simp: fh)
  let ?extra = "map strip (split_on (CHR '','') spoof)"
  have ex: "chain_parts forged = ?extra @ chain_parts vs"
    using assms(4) by (auto simp: chain_parts_def split_on_append_sep)
  have ne: "forged \<noteq> []" using assms(4) by auto
  note res = resolve_trusted[OF assms(1) True, of None "Some forged", unfolded fh ex, OF ne]
  show ?thesis
  proof (cases "those (map normalize_ip ?extra)")
    case None
    then have "\<not> (\<forall>entry \<in> set (split_on (CHR '','') spoof). normalize_ip (strip entry) \<noteq> None)"
      using those_map_Some[of ?extra normalize_ip "\<lambda>x. the (normalize_ip x)"] by fastforce
    then show ?thesis using res None True by (simp add: those_append)
  next
    case (Some pre)
    have ok: "\<forall>entry \<in> set (split_on (CHR '','') spoof). normalize_ip (strip entry) \<noteq> None"
      using those_map_all[OF Some] by auto
    moreover have "normalize_ip [] = None" by code_simp
    ultimately have "[] \<notin> set ?extra" by (metis (no_types, lifting) image_iff list.set_map)
    moreover have "peel T peer (rev (pre @ chain)) = r"
      using assms(3) r peel_append[of T peer "rev chain" "rev pre"] by simp
    ultimately show ?thesis using res Some chain full True ok by (simp add: those_append)
  qed
qed

theorem resolve_spoof_resistant_witness:
  "resolve [Net4 0x0A000000 8] (Some ''10.0.0.1'') None (Some [''1.2.3.4, 203.0.113.9'']) = Some (V4 0xCB007109)"
proof -
  have p: "normalize_ip ''10.0.0.1'' = Some (V4 0x0A000001)" by code_simp
  have r: "resolve [Net4 0x0A000000 8] (Some ''10.0.0.1'') None (Some ['' 203.0.113.9'']) =
      Some (V4 0xCB007109)" by code_simp
  have u: "\<not> address_in_networks (V4 0xCB007109) [Net4 0x0A000000 8]"
    "address_in_networks (V4 0x0A000001) [Net4 0x0A000000 8]" by code_simp+
  have e: "list_all (\<lambda>x. normalize_ip (strip x) \<noteq> None) (split_on (CHR '','') ''1.2.3.4'')" by code_simp
  show ?thesis
    using resolve_spoof_resistant[OF p r u(1), of "[''1.2.3.4, 203.0.113.9'']" "''1.2.3.4''" None None] u(2) e
    by (simp add: list_all_iff)
qed

text \<open>The hop the resolver returns: everything nearer than it is a trusted proxy, and it
  is the first untrusted one unless the whole chain is trusted.\<close>

lemma resolve_rightmost_untrusted:
  assumes "resolve T (Some h) hs fv = Some r" "normalize_ip h = Some peer" "address_in_networks peer T"
  shows "\<exists>chain pre post.
     those (map normalize_ip (chain_parts (forwarded_headers hs fv))) = Some chain \<and>
     peer # rev chain = pre @ r # post \<and> (\<forall>x \<in> set pre. address_in_networks x T) \<and>
     (post = [] \<or> \<not> address_in_networks r T)"
  using resolve_someD[OF assms] peel_split by metis

end
