(* ===== verification/Regex.thy ===== *)
theory Regex
  imports Prelude
begin

text \<open>
  The regular expressions of the code, with the semantics of Python's \<open>re\<close> module: a
  backtracking matcher explores the alternatives in order and the first way to match
  wins. \<open>matches r st\<close> is the list of the states in which a match of \<open>r\<close> from \<open>st\<close> can
  end, in the order the engine would try them, so \<open>re.match\<close> is its head. Captures are
  kept latest first. \<open>IGNORECASE\<close> is expressed in the character sets.
\<close>

datatype rx =
    REps
  | RSet "char \<Rightarrow> bool"
  | RSeq rx rx
  | RAlt rx rx
  | RStar rx
  | RLazy rx
  | RGroup string rx
  | RWordB
  | RBegin
  | REnd

record mstate =
  prior :: string
  ahead :: string
  groups :: "(string \<times> string) list"

definition is_word :: "char \<Rightarrow> bool" where
  "is_word c \<longleftrightarrow> is_alnum c \<or> c = CHR ''_''"

definition word_at :: "string \<Rightarrow> bool" where
  "word_at s = (case s of [] \<Rightarrow> False | c # _ \<Rightarrow> is_word c)"

definition span_text :: "mstate \<Rightarrow> mstate \<Rightarrow> string" where
  "span_text st st' = take (length (ahead st) - length (ahead st')) (ahead st)"

fun star_matches :: "(mstate \<Rightarrow> mstate list) \<Rightarrow> nat \<Rightarrow> mstate \<Rightarrow> mstate list" where
  "star_matches f 0 st = [st]"
| "star_matches f (Suc n) st =
     concat (map (star_matches f n) (filter (\<lambda>st'. length (ahead st') < length (ahead st)) (f st))) @ [st]"

fun lazy_matches :: "(mstate \<Rightarrow> mstate list) \<Rightarrow> nat \<Rightarrow> mstate \<Rightarrow> mstate list" where
  "lazy_matches f 0 st = [st]"
| "lazy_matches f (Suc n) st =
     st # concat (map (lazy_matches f n) (filter (\<lambda>st'. length (ahead st') < length (ahead st)) (f st)))"

primrec matches :: "rx \<Rightarrow> mstate \<Rightarrow> mstate list" where
  "matches REps st = [st]"
| "matches (RSet P) st = (case ahead st of
      [] \<Rightarrow> []
    | c # r \<Rightarrow> if P c then [st\<lparr>prior := c # prior st, ahead := r\<rparr>] else [])"
| "matches (RSeq x y) st = concat (map (matches y) (matches x st))"
| "matches (RAlt x y) st = matches x st @ matches y st"
| "matches (RStar x) st = star_matches (matches x) (length (ahead st)) st"
| "matches (RLazy x) st = lazy_matches (matches x) (length (ahead st)) st"
| "matches (RGroup n x) st =
     map (\<lambda>st'. st'\<lparr>groups := (n, span_text st st') # groups st'\<rparr>) (matches x st)"
| "matches RWordB st = (if word_at (prior st) \<noteq> word_at (ahead st) then [st] else [])"
| "matches RBegin st = (if prior st = [] then [st] else [])"
| "matches REnd st = (if ahead st = [] \<or> ahead st = [CHR 0x0A] then [st] else [])"

section \<open>Searching\<close>

record hit =
  hit_text :: string
  hit_groups :: "(string \<times> string) list"
  hit_prior :: string
  hit_tail :: string

definition match_at :: "rx \<Rightarrow> string \<Rightarrow> string \<Rightarrow> hit option" where
  "match_at r b s = (let st = \<lparr>prior = b, ahead = s, groups = []\<rparr> in
     case matches r st of
       [] \<Rightarrow> None
     | st' # _ \<Rightarrow> Some \<lparr>hit_text = span_text st st', hit_groups = groups st',
                      hit_prior = b, hit_tail = ahead st'\<rparr>)"

fun search_from :: "rx \<Rightarrow> string \<Rightarrow> string \<Rightarrow> hit option" where
  "search_from r b [] = match_at r b []"
| "search_from r b (c # s) =
     (case match_at r b (c # s) of Some h \<Rightarrow> Some h | None \<Rightarrow> search_from r (c # b) s)"

text \<open>\<open>re.search\<close>, \<open>re.match\<close> and \<open>re.fullmatch\<close>-style tests and \<open>finditer\<close>.\<close>

definition re_search :: "rx \<Rightarrow> string \<Rightarrow> hit option" where
  "re_search r s = search_from r [] s"

definition re_test :: "rx \<Rightarrow> string \<Rightarrow> bool" where
  "re_test r s = (re_search r s \<noteq> None)"

fun hits_from :: "nat \<Rightarrow> rx \<Rightarrow> string \<Rightarrow> string \<Rightarrow> hit list" where
  "hits_from 0 r b s = []"
| "hits_from (Suc n) r b s =
     (case match_at r b s of
        Some h \<Rightarrow>
          if hit_text h \<noteq> [] then h # hits_from n r (rev (hit_text h) @ b) (hit_tail h)
          else h # (case s of [] \<Rightarrow> [] | c # s' \<Rightarrow> hits_from n r (c # b) s')
      | None \<Rightarrow> (case s of [] \<Rightarrow> [] | c # s' \<Rightarrow> hits_from n r (c # b) s'))"

definition finditer :: "rx \<Rightarrow> string \<Rightarrow> hit list" where
  "finditer r s = hits_from (Suc (length s)) r [] s"

definition grp :: "hit \<Rightarrow> string \<Rightarrow> string option" where
  "grp h n = dget (hit_groups h) n"

text \<open>\<open>bool(match.group(n))\<close>: captured and not empty.\<close>

definition has_grp :: "hit \<Rightarrow> string \<Rightarrow> bool" where
  "has_grp h n = (case grp h n of Some (_ # _) \<Rightarrow> True | _ \<Rightarrow> False)"

section \<open>Pattern constructors\<close>

definition rchar :: "char \<Rightarrow> rx" where
  "rchar c = RSet (\<lambda>d. d = c)"

definition rchar_ci :: "char \<Rightarrow> rx" where
  "rchar_ci c = RSet (\<lambda>d. lower_char d = lower_char c)"

fun rlit :: "string \<Rightarrow> rx" where
  "rlit [] = REps"
| "rlit [c] = rchar c"
| "rlit (c # d # s) = RSeq (rchar c) (rlit (d # s))"

fun rlit_ci :: "string \<Rightarrow> rx" where
  "rlit_ci [] = REps"
| "rlit_ci [c] = rchar_ci c"
| "rlit_ci (c # d # s) = RSeq (rchar_ci c) (rlit_ci (d # s))"

definition ropt :: "rx \<Rightarrow> rx" where
  "ropt r = RAlt r REps"

definition rplus :: "rx \<Rightarrow> rx" where
  "rplus r = RSeq r (RStar r)"

fun rseq :: "rx list \<Rightarrow> rx" where
  "rseq [] = REps"
| "rseq [r] = r"
| "rseq (r # q # rs) = RSeq r (rseq (q # rs))"

fun ralts :: "rx list \<Rightarrow> rx" where
  "ralts [] = RSet (\<lambda>_. False)"
| "ralts [r] = r"
| "ralts (r # q # rs) = RAlt r (ralts (q # rs))"

fun rupto :: "nat \<Rightarrow> rx \<Rightarrow> rx" where
  "rupto 0 r = REps"
| "rupto (Suc n) r = RAlt (RSeq r (rupto n r)) REps"

fun rtimes :: "nat \<Rightarrow> rx \<Rightarrow> rx" where
  "rtimes 0 r = REps"
| "rtimes (Suc n) r = RSeq r (rtimes n r)"

definition rrange :: "nat \<Rightarrow> nat \<Rightarrow> rx \<Rightarrow> rx" where
  "rrange m n r = RSeq (rtimes m r) (rupto (n - m) r)"

definition rdigit :: rx where "rdigit = RSet is_digit"
definition rspaces :: rx where "rspaces = RStar (RSet is_space)"
definition rspaces1 :: rx where "rspaces1 = rplus (RSet is_space)"

section \<open>What a match means\<close>

text \<open>The language of a pattern, its zero-width assertions read as the empty word.\<close>

inductive rx_lang :: "rx \<Rightarrow> string \<Rightarrow> bool" where
  lang_eps: "rx_lang REps []"
| lang_set: "P c \<Longrightarrow> rx_lang (RSet P) [c]"
| lang_seq: "\<lbrakk>rx_lang x u; rx_lang y v\<rbrakk> \<Longrightarrow> rx_lang (RSeq x y) (u @ v)"
| lang_alt1: "rx_lang x u \<Longrightarrow> rx_lang (RAlt x y) u"
| lang_alt2: "rx_lang y u \<Longrightarrow> rx_lang (RAlt x y) u"
| lang_star0: "rx_lang (RStar x) []"
| lang_star: "\<lbrakk>rx_lang x u; rx_lang (RStar x) v\<rbrakk> \<Longrightarrow> rx_lang (RStar x) (u @ v)"
| lang_lazy0: "rx_lang (RLazy x) []"
| lang_lazy: "\<lbrakk>rx_lang x u; rx_lang (RLazy x) v\<rbrakk> \<Longrightarrow> rx_lang (RLazy x) (u @ v)"
| lang_group: "rx_lang x u \<Longrightarrow> rx_lang (RGroup n x) u"
| lang_wordb: "rx_lang RWordB []"
| lang_begin: "rx_lang RBegin []"
| lang_end: "rx_lang REnd []"

inductive_cases lang_epsE [elim!]: "rx_lang REps u"
inductive_cases lang_setE [elim!]: "rx_lang (RSet P) u"
inductive_cases lang_seqE [elim!]: "rx_lang (RSeq x y) u"
inductive_cases lang_altE: "rx_lang (RAlt x y) u"
inductive_cases lang_starE: "rx_lang (RStar x) u"
inductive_cases lang_groupE [elim!]: "rx_lang (RGroup n x) u"
inductive_cases lang_wordbE [elim!]: "rx_lang RWordB u"
inductive_cases lang_beginE [elim!]: "rx_lang RBegin u"
inductive_cases lang_endE [elim!]: "rx_lang REnd u"

lemmas lang_zero = lang_eps lang_wordb lang_begin lang_end lang_star0 lang_lazy0

primrec rx_groups :: "rx \<Rightarrow> (string \<times> rx) list" where
  "rx_groups REps = []"
| "rx_groups (RSet P) = []"
| "rx_groups (RSeq x y) = rx_groups x @ rx_groups y"
| "rx_groups (RAlt x y) = rx_groups x @ rx_groups y"
| "rx_groups (RStar x) = rx_groups x"
| "rx_groups (RLazy x) = rx_groups x"
| "rx_groups (RGroup n x) = (n, x) # rx_groups x"
| "rx_groups RWordB = []"
| "rx_groups RBegin = []"
| "rx_groups REnd = []"

text \<open>\<open>steps L G st st'\<close>: the matcher moved from \<open>st\<close> to \<open>st'\<close> over a word \<open>u\<close> satisfying
  \<open>L\<close>, and every capture it added satisfies \<open>G\<close>.\<close>

definition steps :: "(string \<Rightarrow> bool) \<Rightarrow> (string \<Rightarrow> string \<Rightarrow> bool) \<Rightarrow> mstate \<Rightarrow> mstate \<Rightarrow> bool" where
  "steps L G st st' \<longleftrightarrow> (\<exists>u. ahead st = u @ ahead st' \<and> prior st' = rev u @ prior st \<and> L u \<and>
     (\<forall>(n, x) \<in> set (groups st'). (n, x) \<in> set (groups st) \<or> G n x))"

definition captures :: "rx \<Rightarrow> string \<Rightarrow> string \<Rightarrow> bool" where
  "captures r n x \<longleftrightarrow> (\<exists>q. (n, q) \<in> set (rx_groups r) \<and> rx_lang q x)"

lemma steps_refl: "L [] \<Longrightarrow> steps L G st st"
  by (auto simp: steps_def)

lemma steps_trans:
  "\<lbrakk>steps L G st st'; steps M H st' st''; \<And>u v. L u \<Longrightarrow> M v \<Longrightarrow> N (u @ v);
    \<And>n x. G n x \<Longrightarrow> K n x; \<And>n x. H n x \<Longrightarrow> K n x\<rbrakk> \<Longrightarrow> steps N K st st''"
  unfolding steps_def by (elim exE, rule_tac x = "u @ ua" in exI) fastforce

lemma steps_mono:
  "\<lbrakk>steps L G st st'; \<And>u. L u \<Longrightarrow> M u; \<And>n x. G n x \<Longrightarrow> H n x\<rbrakk> \<Longrightarrow> steps M H st st'"
  unfolding steps_def by fast

lemma steps_span: "steps L G st st' \<Longrightarrow> L (span_text st st') \<and> ahead st = span_text st st' @ ahead st'"
  by (auto simp: steps_def span_text_def)

lemma star_matches_steps:
  assumes "\<And>st st'. st' \<in> set (f st) \<Longrightarrow> steps L G st st'"
    and "M []" "\<And>u v. L u \<Longrightarrow> M v \<Longrightarrow> M (u @ v)"
  shows "st' \<in> set (star_matches f n st) \<Longrightarrow> steps M G st st'"
proof (induction n arbitrary: st)
  case 0
  then show ?case using assms(2) by (simp add: steps_refl)
next
  case (Suc n)
  then consider "st' = st" | st1 where "st1 \<in> set (f st)" "st' \<in> set (star_matches f n st1)" by auto
  then show ?case
  proof cases
    case 1
    then show ?thesis using assms(2) by (simp add: steps_refl)
  next
    case 2
    show ?thesis by (rule steps_trans[OF assms(1)[OF 2(1)] Suc.IH[OF 2(2)]]) (use assms(3) in auto)
  qed
qed

lemma lazy_matches_steps:
  assumes "\<And>st st'. st' \<in> set (f st) \<Longrightarrow> steps L G st st'"
    and "M []" "\<And>u v. L u \<Longrightarrow> M v \<Longrightarrow> M (u @ v)"
  shows "st' \<in> set (lazy_matches f n st) \<Longrightarrow> steps M G st st'"
proof (induction n arbitrary: st)
  case 0
  then show ?case using assms(2) by (simp add: steps_refl)
next
  case (Suc n)
  then consider "st' = st" | st1 where "st1 \<in> set (f st)" "st' \<in> set (lazy_matches f n st1)" by auto
  then show ?case
  proof cases
    case 1
    then show ?thesis using assms(2) by (simp add: steps_refl)
  next
    case 2
    show ?thesis by (rule steps_trans[OF assms(1)[OF 2(1)] Suc.IH[OF 2(2)]]) (use assms(3) in auto)
  qed
qed

lemma matches_sound: "st' \<in> set (matches r st) \<Longrightarrow> steps (rx_lang r) (captures r) st st'"
proof (induction r arbitrary: st st')
  case (RSet P)
  then obtain c r where "ahead st = c # r" "P c" "st' = st\<lparr>prior := c # prior st, ahead := r\<rparr>"
    by (cases "ahead st") (auto split: if_splits)
  then show ?case by (auto simp: steps_def intro: lang_set intro!: exI[of _ "[c]"])
next
  case (RSeq x y)
  then obtain st1 where "st1 \<in> set (matches x st)" "st' \<in> set (matches y st1)" by auto
  then show ?case
    by (intro steps_trans[OF RSeq.IH(1)[of st1 st] RSeq.IH(2)[of st' st1]]) (auto intro: lang_seq simp: captures_def)
next
  case (RAlt x y)
  then consider "st' \<in> set (matches x st)" | "st' \<in> set (matches y st)" by auto
  then show ?case
  proof cases
    case 1
    show ?thesis by (rule steps_mono[OF RAlt.IH(1)[OF 1]]) (auto intro: lang_alt1 simp: captures_def)
  next
    case 2
    show ?thesis by (rule steps_mono[OF RAlt.IH(2)[OF 2]]) (auto intro: lang_alt2 simp: captures_def)
  qed
next
  case (RStar x)
  have "steps (rx_lang (RStar x)) (captures x) st st'"
    using RStar.prems star_matches_steps[of "matches x" "rx_lang x" "captures x" "rx_lang (RStar x)"]
      RStar.IH lang_star0 lang_star by simp
  moreover have "captures (RStar x) = captures x" by (intro ext) (simp add: captures_def)
  ultimately show ?case by simp
next
  case (RLazy x)
  have "steps (rx_lang (RLazy x)) (captures x) st st'"
    using RLazy.prems lazy_matches_steps[of "matches x" "rx_lang x" "captures x" "rx_lang (RLazy x)"]
      RLazy.IH lang_lazy0 lang_lazy by simp
  moreover have "captures (RLazy x) = captures x" by (intro ext) (simp add: captures_def)
  ultimately show ?case by simp
next
  case (RGroup n x)
  then obtain st1 where st1: "st1 \<in> set (matches x st)"
    "st' = st1\<lparr>groups := (n, span_text st st1) # groups st1\<rparr>" by auto
  have s: "steps (rx_lang x) (captures x) st st1" by (rule RGroup.IH[OF st1(1)])
  then have "rx_lang x (span_text st st1)" by (blast dest: steps_span)
  with s show ?case unfolding steps_def st1(2) by (fastforce simp: captures_def intro: lang_group)
qed (auto intro!: steps_refl intro: lang_zero split: if_splits)

text \<open>The iteration bound of the star is enough: more fuel finds the same matches.\<close>

lemma star_matches_fuel:
  "length (ahead st) \<le> n \<Longrightarrow> star_matches f (Suc n) st = star_matches f n st"
proof (induction n arbitrary: st)
  case 0
  then show ?case by simp
next
  case (Suc n)
  have "map (star_matches f (Suc n)) (filter (\<lambda>st'. length (ahead st') < length (ahead st)) (f st)) =
      map (star_matches f n) (filter (\<lambda>st'. length (ahead st') < length (ahead st)) (f st))"
    using Suc by (intro map_cong refl) auto
  then show ?case by (simp only: star_matches.simps)
qed

lemma match_at_sound:
  assumes "match_at r b s = Some h"
  shows "s = hit_text h @ hit_tail h \<and> hit_prior h = b \<and> rx_lang r (hit_text h) \<and>
    (\<forall>n x. grp h n = Some x \<longrightarrow> captures r n x)"
proof -
  let ?st = "\<lparr>prior = b, ahead = s, groups = []\<rparr>"
  obtain st' sts where m: "matches r ?st = st' # sts"
    and h: "h = \<lparr>hit_text = span_text ?st st', hit_groups = groups st', hit_prior = b, hit_tail = ahead st'\<rparr>"
    using assms by (auto simp: match_at_def Let_def split: list.splits)
  have st: "steps (rx_lang r) (captures r) ?st st'" by (rule matches_sound) (simp add: m)
  show ?thesis using steps_span[OF st] st
    by (auto simp: h grp_def steps_def dest!: dget_SomeD)
qed

lemma search_from_sound:
  "search_from r b s = Some h \<Longrightarrow> \<exists>u. s = u @ hit_text h @ hit_tail h \<and> hit_prior h = rev u @ b \<and>
     match_at r (hit_prior h) (hit_text h @ hit_tail h) = Some h"
proof (induction r b s rule: search_from.induct)
  case (1 r b)
  then show ?case using match_at_sound[of r b "[]" h] by auto
next
  case (2 r b c s)
  show ?case
  proof (cases "match_at r b (c # s)")
    case None
    then have "search_from r (c # b) s = Some h" using 2 by simp
    then obtain u where "s = u @ hit_text h @ hit_tail h \<and> hit_prior h = rev u @ c # b \<and>
        match_at r (hit_prior h) (hit_text h @ hit_tail h) = Some h" using 2 None by blast
    then show ?thesis by (intro exI[of _ "c # u"]) auto
  next
    case (Some a)
    then have "match_at r b (c # s) = Some h" using 2 by simp
    moreover from match_at_sound[OF this] have "c # s = hit_text h @ hit_tail h" "hit_prior h = b" by simp_all
    ultimately show ?thesis by (intro exI[of _ "[]"]) simp
  qed
qed

lemma re_search_sound:
  assumes "re_search r s = Some h"
  shows "s = rev (hit_prior h) @ hit_text h @ hit_tail h" "rx_lang r (hit_text h)"
    "grp h n = Some x \<Longrightarrow> captures r n x"
proof -
  obtain u where u: "s = u @ hit_text h @ hit_tail h" "hit_prior h = rev u"
    "match_at r (hit_prior h) (hit_text h @ hit_tail h) = Some h"
    using search_from_sound[OF assms[unfolded re_search_def]] by auto
  note m = match_at_sound[OF u(3)]
  show "s = rev (hit_prior h) @ hit_text h @ hit_tail h" using u by simp
  show "rx_lang r (hit_text h)" "grp h n = Some x \<Longrightarrow> captures r n x" using m by simp_all
qed

lemma hits_from_sound:
  "h \<in> set (hits_from n r b s) \<Longrightarrow> \<exists>u. s = u @ hit_text h @ hit_tail h \<and> hit_prior h = rev u @ b \<and>
     match_at r (hit_prior h) (hit_text h @ hit_tail h) = Some h"
proof (induction n r b s rule: hits_from.induct)
  case (2 n r b s)
  have head: ?case if m: "match_at r b s = Some h"
    using match_at_sound[OF m] m by (intro exI[of _ "[]"]) auto
  have skip: ?case if "s = c # s'"
    "\<exists>u. s' = u @ hit_text h @ hit_tail h \<and> hit_prior h = rev u @ c # b \<and>
       match_at r (hit_prior h) (hit_text h @ hit_tail h) = Some h" for c s'
    using that by (metis append_Cons append_assoc rev.simps(2) append_Nil)
  show ?case
  proof (cases "match_at r b s")
    case None
    then show ?thesis using 2 skip by (cases s) auto
  next
    case (Some g)
    have g: "s = hit_text g @ hit_tail g" using match_at_sound[OF Some] by simp
    show ?thesis
    proof (cases "hit_text g = []")
      case True
      then show ?thesis using 2 Some skip head by (cases s) auto
    next
      case False
      then consider "h = g" | "h \<in> set (hits_from n r (rev (hit_text g) @ b) (hit_tail g))"
        using "2.prems" Some by auto
      then show ?thesis
      proof cases
        case 1 then show ?thesis using head Some by simp
      next
        case 2
        then obtain u where "hit_tail g = u @ hit_text h @ hit_tail h"
          "hit_prior h = rev u @ rev (hit_text g) @ b"
          "match_at r (hit_prior h) (hit_text h @ hit_tail h) = Some h"
          using "2.IH"(2)[OF Some False] by blast
        then show ?thesis using g by (intro exI[of _ "hit_text g @ u"]) simp
      qed
    qed
  qed
qed simp

lemma finditer_sound:
  assumes "h \<in> set (finditer r s)"
  shows "s = rev (hit_prior h) @ hit_text h @ hit_tail h" "rx_lang r (hit_text h)"
    "grp h n = Some x \<Longrightarrow> captures r n x"
proof -
  obtain u where u: "s = u @ hit_text h @ hit_tail h" "hit_prior h = rev u"
    "match_at r (hit_prior h) (hit_text h @ hit_tail h) = Some h"
    using hits_from_sound[OF assms[unfolded finditer_def]] by auto
  note m = match_at_sound[OF u(3)]
  show "s = rev (hit_prior h) @ hit_text h @ hit_tail h" using u by simp
  show "rx_lang r (hit_text h)" "grp h n = Some x \<Longrightarrow> captures r n x" using m by simp_all
qed

text \<open>Every character of a word of a digit-repetition pattern is a digit.\<close>

definition all_in :: "(char \<Rightarrow> bool) \<Rightarrow> rx \<Rightarrow> bool" where
  "all_in P r \<longleftrightarrow> (\<forall>u. rx_lang r u \<longrightarrow> list_all P u)"

lemma all_in_basic [wf_intros]:
  "all_in P REps" "(\<And>c. Q c \<Longrightarrow> P c) \<Longrightarrow> all_in P (RSet Q)"
  by (auto simp: all_in_def)

lemma all_in_seq [wf_intros]: "\<lbrakk>all_in P x; all_in P y\<rbrakk> \<Longrightarrow> all_in P (RSeq x y)"
  by (auto simp: all_in_def)

lemma all_in_alt [wf_intros]: "\<lbrakk>all_in P x; all_in P y\<rbrakk> \<Longrightarrow> all_in P (RAlt x y)"
  unfolding all_in_def by (blast elim: lang_altE)

lemma all_in_group [wf_intros]: "all_in P x \<Longrightarrow> all_in P (RGroup n x)"
  by (auto simp: all_in_def)

lemma rx_lang_star_all: "rx_lang r u \<Longrightarrow> r = RStar x \<Longrightarrow> all_in P x \<Longrightarrow> list_all P u"
  by (induction rule: rx_lang.induct) (auto simp: all_in_def)

lemma all_in_star [wf_intros]: "all_in P x \<Longrightarrow> all_in P (RStar x)"
  using rx_lang_star_all unfolding all_in_def by blast

lemma all_in_rtimes [wf_intros]: "all_in P r \<Longrightarrow> all_in P (rtimes n r)"
  by (induction n) (auto intro: wf_intros)

lemma all_in_rupto [wf_intros]: "all_in P r \<Longrightarrow> all_in P (rupto n r)"
  by (induction n) (auto intro: wf_intros)

text \<open>Bounds on the length of the words of a pattern.\<close>

lemma rtimes_length: "\<lbrakk>rx_lang (rtimes n (RSet P)) u\<rbrakk> \<Longrightarrow> length u = n"
  by (induction n arbitrary: u) auto

lemma rupto_length: "rx_lang (rupto n (RSet P)) u \<Longrightarrow> length u \<le> n"
  by (induction n arbitrary: u) (auto elim!: lang_altE)

lemma rrange_length: "\<lbrakk>rx_lang (rrange m n (RSet P)) u; m \<le> n\<rbrakk> \<Longrightarrow> m \<le> length u \<and> length u \<le> n"
  using rtimes_length rupto_length by (fastforce simp: rrange_def)

end
