(* ===== verification/Experience.thy ===== *)
theory Experience
  imports Regex
begin

text \<open>
  \<open>src/app/jobs/parsing/experience.py\<close> (years of experience from free text) and
  \<open>src/app/jobs/parsing/employment_type.py\<close> (employment and workplace types), with the
  enumerations of \<open>src/app/jobs/types.py\<close>. An absent or empty text is the empty string.
\<close>

section \<open>Experience\<close>

record experience =
  exp_min :: "nat option"
  exp_max :: "nat option"
  exp_text :: string

definition rx_years :: rx where
  "rx_years = RAlt (RSeq (rlit_ci ''year'') (ropt (rchar_ci (CHR ''s''))))
                   (RSeq (rlit_ci ''yr'') (ropt (rchar_ci (CHR ''s''))))"

definition rx_two_digits :: "string \<Rightarrow> rx" where
  "rx_two_digits n = RGroup n (rrange 1 2 rdigit)"

definition rx_plus_sign :: rx where "rx_plus_sign = rchar (CHR ''+'')"

definition exp_range_rx :: rx where
  "exp_range_rx = rseq [RWordB, rx_two_digits ''min'', rspaces,
     RAlt (rchar (CHR ''-'')) (rlit_ci ''to''), rspaces, rx_two_digits ''max'', rspaces,
     ropt rx_plus_sign, rspaces, rx_years, RWordB]"

definition exp_plus_rx :: rx where
  "exp_plus_rx = rseq [RWordB, rx_two_digits ''min'', rspaces, rx_plus_sign, rspaces, rx_years, RWordB]"

definition exp_least_rx :: rx where
  "exp_least_rx = rseq [RWordB,
     RAlt (rlit_ci ''at least'') (RSeq (rlit_ci ''minimum'') (ropt (rlit_ci '' of''))), rspaces1,
     rx_two_digits ''min'', rspaces, rx_years, RWordB]"

definition exp_of_rx :: rx where
  "exp_of_rx = rseq [RWordB, rx_two_digits ''min'', ropt rx_plus_sign, rspaces, rx_years, rspaces1,
     ropt (RSeq (rlit_ci ''of'') rspaces1),
     ropt (ralts [RSeq (rlit_ci ''relevant'') rspaces1, RSeq (rlit_ci ''professional'') rspaces1,
       RSeq (rlit_ci ''hands-on'') rspaces1]),
     rlit_ci ''experience'', RWordB]"

definition group_int :: "hit \<Rightarrow> string \<Rightarrow> nat option" where
  "group_int h n = map_option nat_of_digits (grp h n)"

definition range_extractor :: "hit \<Rightarrow> experience" where
  "range_extractor h = \<lparr>exp_min = group_int h ''min'', exp_max = group_int h ''max'', exp_text = strip (hit_text h)\<rparr>"

definition min_extractor :: "hit \<Rightarrow> experience" where
  "min_extractor h = \<lparr>exp_min = group_int h ''min'', exp_max = None, exp_text = strip (hit_text h)\<rparr>"

definition experience_patterns :: "(rx \<times> (hit \<Rightarrow> experience)) list" where
  "experience_patterns = [(exp_range_rx, range_extractor), (exp_plus_rx, min_extractor),
     (exp_least_rx, min_extractor), (exp_of_rx, min_extractor)]"

definition unrealistic :: "nat option \<Rightarrow> bool" where
  "unrealistic y = (case y of Some n \<Rightarrow> n > 30 | None \<Rightarrow> False)"

definition ordered_years :: "experience \<Rightarrow> experience" where
  "ordered_years e = (case (exp_min e, exp_max e) of
     (Some a, Some b) \<Rightarrow> if a > b then e\<lparr>exp_min := Some b, exp_max := Some a\<rparr> else e
   | _ \<Rightarrow> e)"

definition try_pattern :: "string \<Rightarrow> rx \<times> (hit \<Rightarrow> experience) \<Rightarrow> experience option" where
  "try_pattern s p = (case p of (pattern, extractor) \<Rightarrow>
     (case re_search pattern s of
        None \<Rightarrow> None
      | Some h \<Rightarrow> let e = extractor h in
          if unrealistic (exp_min e) then None
          else if unrealistic (exp_max e) then None
          else Some (ordered_years e)))"

definition extract_experience :: "string \<Rightarrow> experience option" where
  "extract_experience s = (if s = [] then None else first_some (try_pattern s) experience_patterns)"

section \<open>Employment and workplace types\<close>

datatype employment_type = FULL_TIME | PART_TIME | CONTRACT | TEMPORARY | INTERNSHIP

datatype remote_type = REMOTE | HYBRID | ON_SITE

definition rx_words :: "rx list \<Rightarrow> rx" where
  "rx_words rs = rseq [RWordB, RGroup ''1'' (ralts rs), RWordB]"

definition rx_sep :: "string \<Rightarrow> rx" where
  "rx_sep cs = ropt (RSet (\<lambda>c. c \<in> set cs))"

definition employment_rules :: "(rx \<times> employment_type) list" where
  "employment_rules =
     [(rx_words [RSeq (rlit ''intern'') (ropt (rlit ''ship''))], INTERNSHIP),
      (rx_words [RSeq (rlit ''contract'') (ropt (rlit ''or'')), rlit ''c2c'', rlit ''corp-to-corp'',
         rlit ''w2 contract'', rlit ''freelance''], CONTRACT),
      (rx_words [rseq [rlit ''part'', rx_sep '' _-'', rlit ''time'']], PART_TIME),
      (rx_words [rseq [rlit ''full'', rx_sep '' _-'', rlit ''time''], rlit ''permanent'', rlit ''direct hire''], FULL_TIME),
      (rx_words [RSeq (rlit ''temp'') (ropt (rlit ''orary''))], TEMPORARY)]"

definition first_rule :: "(rx \<times> 'a) list \<Rightarrow> string \<Rightarrow> 'a option" where
  "first_rule rules s = first_some (\<lambda>(r, t). if re_test r s then Some t else None) rules"

definition normalize_employment_type :: "string \<Rightarrow> employment_type option" where
  "normalize_employment_type s = (if s = [] then None else first_rule employment_rules (lower s))"

definition normalize_remote_type :: "string \<Rightarrow> bool option \<Rightarrow> remote_type option" where
  "normalize_remote_type s remote_flag =
     (if remote_flag = Some True then Some REMOTE
      else if s = [] then (if remote_flag = Some False then Some ON_SITE else None)
      else let lowered = lower s in
        if contains_sub ''hybrid'' lowered then Some HYBRID
        else if list_ex (\<lambda>k. contains_sub k lowered) [''remote'', ''telecommute'', ''work from home'', ''wfh'']
        then Some REMOTE
        else if list_ex (\<lambda>k. contains_sub k lowered) [''on-site'', ''onsite'', ''in-office'', ''in office'']
        then Some ON_SITE
        else if remote_flag = Some False then Some ON_SITE
        else None)"

section \<open>Lemmas\<close>

lemma two_digits_lang: "rx_lang (rrange 1 2 rdigit) u \<Longrightarrow> list_all is_digit u \<and> u \<noteq> [] \<and> length u \<le> 2"
proof -
  assume u: "rx_lang (rrange 1 2 rdigit) u"
  have "all_in is_digit (rrange 1 2 rdigit)" unfolding rrange_def rdigit_def by (intro wf_intros) auto
  then have "list_all is_digit u" using u by (simp add: all_in_def)
  then show ?thesis using rrange_length[of 1 2 is_digit u] u by (auto simp: rdigit_def)
qed

lemma no_min_groups [simp]:
  "rx_groups rx_years = []" "rx_groups rx_plus_sign = []" "rx_groups rspaces = []" "rx_groups rspaces1 = []"
  "rx_groups (rx_two_digits n) = [(n, rrange 1 2 rdigit)]"
  by (simp_all add: rx_years_def rx_plus_sign_def rspaces_def rspaces1_def rx_two_digits_def rrange_def
      rdigit_def rchar_def rchar_ci_def rplus_def ropt_def numeral_2_eq_2)

lemma pattern_groups:
  "(r, f) \<in> set experience_patterns \<Longrightarrow> (n, q) \<in> set (rx_groups r) \<Longrightarrow> q = rrange 1 2 rdigit"
  by (auto simp: experience_patterns_def exp_range_rx_def exp_plus_rx_def exp_least_rx_def exp_of_rx_def
      rchar_def rchar_ci_def ropt_def)

lemma undigits_two: "length ds \<le> 2 \<Longrightarrow> \<forall>d \<in> set ds. d < 10 \<Longrightarrow> undigits 10 ds < 100"
  by (cases ds; cases "tl ds"; cases "tl (tl ds)") (auto simp: undigits_def)

lemma two_digits_value: "list_all is_digit u \<Longrightarrow> length u \<le> 2 \<Longrightarrow> nat_of_digits u < 100"
  unfolding nat_of_digits_def by (rule undigits_two) (auto simp: list_all_iff is_digit_def)

text \<open>Every captured number is one or two digits, so \<open>int\<close> always succeeds on it.\<close>

lemma experience_groups_parse:
  assumes "(r, f) \<in> set experience_patterns" "re_search r s = Some h" "grp h n = Some x"
  shows "list_all is_digit x \<and> x \<noteq> [] \<and> nat_of_digits x < 100"
proof -
  have "captures r n x" by (rule re_search_sound(3)[OF assms(2,3)])
  then have "rx_lang (rrange 1 2 rdigit) x"
    using pattern_groups[OF assms(1)] by (auto simp: captures_def)
  then show ?thesis using two_digits_lang two_digits_value by blast
qed

lemma extractors:
  "(r, f) \<in> set experience_patterns \<Longrightarrow> exp_text (f h) = strip (hit_text h)"
  by (auto simp: experience_patterns_def range_extractor_def min_extractor_def)

lemma ordered_years_text [simp]: "exp_text (ordered_years e) = exp_text e"
  by (auto simp: ordered_years_def split: option.splits)

lemma ordered_years_found:
  "ordered_years e = e' \<Longrightarrow> exp_min e' = Some a \<Longrightarrow> exp_max e' = Some b \<Longrightarrow> a \<le> b"
  by (auto simp: ordered_years_def split: option.splits if_splits)

lemma experience_found_ordered:
  "extract_experience s = Some e \<Longrightarrow> exp_min e = Some a \<Longrightarrow> exp_max e = Some b \<Longrightarrow> a \<le> b"
  by (auto simp: extract_experience_def try_pattern_def Let_def split: if_splits option.splits prod.splits
      dest!: first_someD intro: ordered_years_found[OF refl])

text \<open>Extracted years of experience never exceed thirty at either end, the lower end
  never exceeds the upper one, and the wording is a piece of the text.\<close>

theorem extract_experience_sound:
  assumes "extract_experience s = Some e"
  shows "(\<forall>a. exp_min e = Some a \<longrightarrow> a \<le> 30) \<and> (\<forall>b. exp_max e = Some b \<longrightarrow> b \<le> 30) \<and>
    (\<forall>a b. exp_min e = Some a \<and> exp_max e = Some b \<longrightarrow> a \<le> b) \<and> sublist (exp_text e) s"
proof -
  obtain r f where rf: "(r, f) \<in> set experience_patterns" "try_pattern s (r, f) = Some e"
    using assms by (auto simp: extract_experience_def split: if_splits dest!: first_someD)
  then obtain h where h: "re_search r s = Some h" "e = ordered_years (f h)"
    "\<not> unrealistic (exp_min (f h))" "\<not> unrealistic (exp_max (f h))"
    by (auto simp: try_pattern_def Let_def split: option.splits if_splits)
  have "s = rev (hit_prior h) @ hit_text h @ hit_tail h" by (rule re_search_sound(1)[OF h(1)])
  then have "sublist (hit_text h) s" by (metis sublist_appendI)
  moreover have "sublist (strip (hit_text h)) (hit_text h)" by (rule sublist_strip)
  ultimately have "sublist (exp_text e) s"
    using extractors[OF rf(1)] h(2) by (metis ordered_years_text sublist_order.order_trans)
  then show ?thesis using h
    by (auto simp: ordered_years_def unrealistic_def split: option.splits if_splits)
qed

theorem extract_experience_sound_witness:
  "\<exists>e. extract_experience ''7 to 3 yrs'' = Some e \<and> (\<forall>a b. exp_min e = Some a \<and> exp_max e = Some b \<longrightarrow> a \<le> b)"
proof -
  have "extract_experience ''7 to 3 yrs'' =
      Some \<lparr>exp_min = Some 3, exp_max = Some 7, exp_text = ''7 to 3 yrs''\<rparr>" by code_simp
  then show ?thesis using extract_experience_sound by blast
qed

text \<open>The remote flag of a source outranks its text, and an explicit negative flag only
  fills in when the text names no arrangement.\<close>

lemma remote_flag_wins: "normalize_remote_type s (Some True) = Some REMOTE"
  by (simp add: normalize_remote_type_def)

lemma remote_false_total: "normalize_remote_type s (Some False) \<noteq> None"
  by (simp add: normalize_remote_type_def Let_def)

lemma remote_false_agrees:
  "normalize_remote_type s None = Some t \<Longrightarrow> normalize_remote_type s (Some False) = Some t"
  by (auto simp: normalize_remote_type_def Let_def split: if_splits)

lemma normalize_employment_type_lower:
  "normalize_employment_type (lower s) = normalize_employment_type s"
  by (simp add: normalize_employment_type_def)

end
