(* ===== verification/JobModel.thy ===== *)
theory JobModel
  imports Experience Complex_Main
begin

text \<open>
  The data of the jobs domain: \<open>src/app/domain/jobs.py\<close>, the payload classes of
  \<open>src/app/jobs/ingestion/normalization.py\<close> and the values of \<open>src/app/jobs/types.py\<close>.
  Identifiers are natural numbers drawn in increasing order, instants are microseconds of
  UTC, decimals are rationals, JSON values are a datatype. A string column that holds an
  enumeration keeps the enumeration's text.
\<close>

datatype json = JNull | JBool bool | JNum rat | JStr string | JList "json list"
  | JObj "(string \<times> json) list"

datatype search_status = QUEUED | PROCESSING | COMPLETED | FAILED

datatype job_source = DICE | LINKEDIN | GLASSDOOR | HIRINGCAFE

fun source_str :: "job_source \<Rightarrow> string" where
  "source_str DICE = ''dice''"
| "source_str LINKEDIN = ''linkedin''"
| "source_str GLASSDOOR = ''glassdoor''"
| "source_str HIRINGCAFE = ''hiringcafe''"

fun employment_str :: "employment_type \<Rightarrow> string" where
  "employment_str FULL_TIME = ''full-time''"
| "employment_str PART_TIME = ''part-time''"
| "employment_str CONTRACT = ''contract''"
| "employment_str TEMPORARY = ''temporary''"
| "employment_str INTERNSHIP = ''internship''"

fun remote_str :: "remote_type \<Rightarrow> string" where
  "remote_str REMOTE = ''remote''"
| "remote_str HYBRID = ''hybrid''"
| "remote_str ON_SITE = ''on_site''"

text \<open>A \<open>datetime\<close>: without a zone, or with its offset from UTC.\<close>

datatype py_datetime = Naive int | Aware int int

record discovered_job =
  dj_source :: string
  dj_external_id :: string
  dj_title :: string
  dj_url :: "string option"

record raw_job =
  rj_source :: string
  rj_external_id :: string
  rj_title :: string
  rj_company :: "string option"
  rj_location :: "string option"
  rj_url :: "string option"
  rj_description :: "string option"
  rj_salary_text :: "string option"
  rj_salary_min :: "rat option"
  rj_salary_max :: "rat option"
  rj_salary_currency :: "string option"
  rj_salary_period :: "string option"
  rj_employment_type :: "string option"
  rj_remote :: "bool option"
  rj_remote_type :: "remote_type option"
  rj_posted_at :: "py_datetime option"
  rj_source_updated_at :: "py_datetime option"
  rj_skills :: "string list"
  rj_experience_min :: "int option"
  rj_experience_max :: "int option"
  rj_experience_text :: "string option"
  rj_raw_data :: "(string, json) dict"

record normalized_job =
  nj_source :: string
  nj_external_id :: string
  nj_title :: string
  nj_normalized_title :: string
  nj_role_family :: string
  nj_company :: "string option"
  nj_normalized_company :: "string option"
  nj_location :: "string option"
  nj_normalized_location :: "string option"
  nj_url :: "string option"
  nj_description :: "string option"
  nj_salary_text :: "string option"
  nj_employment_type :: "string option"
  nj_remote :: "bool option"
  nj_skills :: "string list"
  nj_posted_at :: "int option"
  nj_source_updated_at :: "int option"
  nj_experience_min :: "int option"
  nj_experience_max :: "int option"
  nj_experience_text :: "string option"
  nj_content_hash :: string
  nj_raw_data :: "(string, json) dict"
  nj_salary_min :: "rat option"
  nj_salary_max :: "rat option"
  nj_salary_currency :: "string option"
  nj_salary_period :: "string option"
  nj_remote_type :: "remote_type option"

record company =
  co_id :: nat
  co_name :: string
  co_normalized_name :: string
  co_website_url :: "string option"
  co_domain :: "string option"

record canonical_job =
  cj_id :: nat
  cj_company_id :: "nat option"
  cj_title :: string
  cj_normalized_title :: string
  cj_description :: "string option"
  cj_location :: "string option"
  cj_normalized_location :: "string option"
  cj_employment_type :: "string option"
  cj_remote_type :: "remote_type option"
  cj_skills :: "string list"
  cj_experience_min :: "int option"
  cj_experience_max :: "int option"
  cj_experience_text :: "string option"
  cj_role_family :: string
  cj_seniority :: "string option"
  cj_salary_min :: "rat option"
  cj_salary_max :: "rat option"
  cj_salary_currency :: "string option"
  cj_salary_text :: "string option"
  cj_salary_period :: "string option"
  cj_posted_at :: "int option"
  cj_source_updated_at :: "int option"
  cj_first_seen_at :: int
  cj_last_seen_at :: int
  cj_is_active :: bool
  cj_canonical_hash :: string

record source_row =
  js_id :: nat
  js_job_id :: nat
  js_source :: string
  js_source_job_id :: string
  js_source_url :: "string option"
  js_posted_at :: "int option"
  js_updated_at :: "int option"
  js_first_seen_at :: int
  js_last_seen_at :: int
  js_scraped_at :: int
  js_content_hash :: string
  js_is_active :: bool
  js_raw_data :: "(string, json) dict"

text \<open>The table constraints: years of experience are not negative and ordered, and a
  salary interval is ordered.\<close>

definition ordered_opt :: "'a::linorder option \<Rightarrow> 'a option \<Rightarrow> bool" where
  "ordered_opt a b = (case (a, b) of (Some x, Some y) \<Rightarrow> x \<le> y | _ \<Rightarrow> True)"

definition nonneg_opt :: "int option \<Rightarrow> bool" where
  "nonneg_opt a = (case a of Some x \<Rightarrow> 0 \<le> x | None \<Rightarrow> True)"

definition canonical_checks :: "canonical_job \<Rightarrow> bool" where
  "canonical_checks j \<longleftrightarrow> nonneg_opt (cj_experience_min j) \<and> nonneg_opt (cj_experience_max j) \<and>
     ordered_opt (cj_experience_min j) (cj_experience_max j) \<and>
     ordered_opt (cj_salary_min j) (cj_salary_max j)"

section \<open>Dates\<close>

text \<open>The civil date of a day number (days since 1970-01-01) and the ISO texts of an
  instant, as \<open>date.isoformat\<close> and \<open>datetime.isoformat\<close> print them in UTC.\<close>

definition civil_date :: "int \<Rightarrow> int \<times> int \<times> int" where
  "civil_date days =
     (let z = days + 719468; era = z div 146097; doe = z mod 146097;
          yoe = (doe - doe div 1460 + doe div 36524 - doe div 146096) div 365;
          doy = doe - (365 * yoe + yoe div 4 - yoe div 100);
          mp = (5 * doy + 2) div 153;
          d = doy - (153 * mp + 2) div 5 + 1;
          m = (if mp < 10 then mp + 3 else mp - 9)
      in (yoe + era * 400 + (if m \<le> 2 then 1 else 0), m, d))"

definition padded :: "nat \<Rightarrow> int \<Rightarrow> string" where
  "padded w i = (let s = nat_str (nat i) in replicate (w - length s) (CHR ''0'') @ s)"

definition day_us :: int where "day_us = 86400000000"

definition iso_date :: "int \<Rightarrow> string" where
  "iso_date t = (case civil_date (t div day_us) of (y, m, d) \<Rightarrow>
     padded 4 y @ ''-'' @ padded 2 m @ ''-'' @ padded 2 d)"

definition iso_instant :: "int \<Rightarrow> string" where
  "iso_instant t =
     (let us = t mod day_us; secs = us div 1000000; frac = us mod 1000000 in
      iso_date t @ ''T'' @ padded 2 (secs div 3600) @ '':'' @ padded 2 (secs div 60 mod 60) @ '':'' @
      padded 2 (secs mod 60) @ (if frac = 0 then [] else ''.'' @ padded 6 frac) @ ''+00:00'')"

section \<open>Optional text\<close>

definition opt_text :: "string option \<Rightarrow> string" where
  "opt_text s = (case s of Some t \<Rightarrow> t | None \<Rightarrow> [])"

definition truthy :: "string option \<Rightarrow> bool" where
  "truthy s \<longleftrightarrow> opt_text s \<noteq> []"

lemma truthy_simps [simp]: "truthy None = False" "truthy (Some s) = (s \<noteq> [])"
  by (simp_all add: truthy_def opt_text_def)

lemma ordered_opt_simps [simp]:
  "ordered_opt None b" "ordered_opt a None" "ordered_opt (Some x) (Some y) \<longleftrightarrow> x \<le> y"
  by (auto simp: ordered_opt_def split: option.splits)

end
