(* ===== verification/Errors.thy ===== *)
theory Errors
  imports JobModel
begin

text \<open>
  Safe HTTP error handling and the request context (\<open>src/app/core/errors.py\<close>,
  \<open>src/app/core/middleware.py\<close>): the domain errors with their status codes, the exception
  handlers as one function from an exception to a response, and the correlation header.
  A response is its status, its JSON content and its header dictionary.
\<close>

record app_error =
  ae_code :: string
  ae_message :: string
  ae_status :: nat
  ae_headers :: "(string, string) dict option"

definition app_error_of :: "string \<Rightarrow> string \<Rightarrow> nat \<Rightarrow> app_error" where
  "app_error_of code message status = \<lparr>ae_code = code, ae_message = message, ae_status = status, ae_headers = None\<rparr>"

definition not_found_error :: "string \<Rightarrow> string \<Rightarrow> app_error" where
  "not_found_error code message = app_error_of code message 404"

definition infrastructure_error :: "string \<Rightarrow> string \<Rightarrow> app_error" where
  "infrastructure_error code message = app_error_of code message 503"

definition domain_validation_error :: "string \<Rightarrow> string \<Rightarrow> app_error" where
  "domain_validation_error code message = app_error_of code message 422"

definition conflict_error :: "string \<Rightarrow> string \<Rightarrow> app_error" where
  "conflict_error code message = app_error_of code message 409"

definition authentication_error :: "string \<Rightarrow> string \<Rightarrow> app_error" where
  "authentication_error code message = app_error_of code message 401"

definition authorization_error :: "string \<Rightarrow> string \<Rightarrow> app_error" where
  "authorization_error code message = app_error_of code message 403"

definition external_service_error :: "string \<Rightarrow> string \<Rightarrow> app_error" where
  "external_service_error code message = app_error_of code message 502"

section \<open>Exception handlers\<close>

record response =
  rs_status :: nat
  rs_content :: "(string, json) dict"
  rs_headers :: "(string, string) dict"

datatype py_exception =
    Application app_error
  | RequestValidation "json list"
  | Http nat "(string, string) dict option"
  | Database string
  | Unexpected string

definition update_headers :: "(string, string) dict \<Rightarrow> (string, string) dict \<Rightarrow> (string, string) dict" where
  "update_headers hs new = fold (\<lambda>(k, v). dset k v) new hs"

definition error_response ::
  "string \<Rightarrow> nat \<Rightarrow> string \<Rightarrow> string \<Rightarrow> json list option \<Rightarrow> (string, string) dict option \<Rightarrow> response" where
  "error_response request_id status code message details headers =
     \<lparr>rs_status = status,
      rs_content = (''error'', JObj [(''code'', JStr code), (''message'', JStr message), (''request_id'', JStr request_id)]) #
        (case details of None \<Rightarrow> [] | Some ds \<Rightarrow> [(''details'', JList ds)]),
      rs_headers = (case headers of
          None \<Rightarrow> [(''X-Request-ID'', request_id)]
        | Some hs \<Rightarrow> update_headers [(''X-Request-ID'', request_id)] hs)\<rparr>"

definition http_error_text :: "nat \<Rightarrow> string \<times> string" where
  "http_error_text status =
     (if status = 401 then (''UNAUTHENTICATED'', ''Authentication is required.'')
      else if status = 403 then (''FORBIDDEN'', ''Access is not permitted.'')
      else if status = 404 then (''NOT_FOUND'', ''The requested resource was not found.'')
      else if status = 405 then (''METHOD_NOT_ALLOWED'', ''The method is not allowed.'')
      else (''HTTP_ERROR'', ''The request could not be completed.''))"

fun handle_exception :: "string \<Rightarrow> py_exception \<Rightarrow> response" where
  "handle_exception rid (Application e) =
     error_response rid (ae_status e) (ae_code e) (ae_message e) None (ae_headers e)"
| "handle_exception rid (RequestValidation details) =
     error_response rid 422 ''REQUEST_VALIDATION_FAILED'' ''The request did not pass validation.'' (Some details) None"
| "handle_exception rid (Http status headers) =
     error_response rid status (fst (http_error_text status)) (snd (http_error_text status)) None headers"
| "handle_exception rid (Database _) =
     error_response rid 500 ''INTERNAL_SERVER_ERROR'' ''An unexpected error occurred.'' None None"
| "handle_exception rid (Unexpected _) =
     error_response rid 500 ''INTERNAL_SERVER_ERROR'' ''An unexpected error occurred.'' None None"

section \<open>Request context\<close>

definition request_id_char :: "char \<Rightarrow> bool" where
  "request_id_char c \<longleftrightarrow> is_alnum c \<or> c \<in> set ''._-''"

definition request_id_ok :: "string \<Rightarrow> bool" where
  "request_id_ok s \<longleftrightarrow> 1 \<le> length s \<and> length s \<le> 128 \<and> list_all request_id_char s"

definition choose_request_id :: "string \<Rightarrow> string option \<Rightarrow> string" where
  "choose_request_id fresh supplied = (if request_id_ok (opt_text supplied) then opt_text supplied else fresh)"

definition get_request_id :: "string option \<Rightarrow> string" where
  "get_request_id state_id = (case state_id of None \<Rightarrow> ''unavailable'' | Some i \<Rightarrow> i)"

text \<open>The header list of an outgoing response start; names compare without case.\<close>

definition with_request_id :: "string \<Rightarrow> (string \<times> string) list \<Rightarrow> (string \<times> string) list" where
  "with_request_id rid headers =
     (if list_ex (\<lambda>h. lower (fst h) = ''x-request-id'') headers then headers
      else headers @ [(''x-request-id'', rid)])"

definition respond :: "string \<Rightarrow> string option \<Rightarrow> py_exception \<Rightarrow> response" where
  "respond fresh supplied e =
     (let rid = choose_request_id fresh supplied; r = handle_exception rid e in
      r\<lparr>rs_headers := with_request_id rid (rs_headers r)\<rparr>)"

lemma dget_update_headers: "dget (update_headers hs new) k = (case dget (rev new) k of Some v \<Rightarrow> Some v | None \<Rightarrow> dget hs k)"
proof (induction new arbitrary: hs)
  case (Cons kv new)
  obtain a b where kv: "kv = (a, b)" by fastforce
  show ?case using Cons[of "dset a b hs"]
    by (simp add: update_headers_def kv dict_simps split: option.splits)
qed (simp add: update_headers_def dict_simps)

lemma update_headers_keeps: "k \<in> fst ` set hs \<Longrightarrow> k \<in> fst ` set (update_headers hs new)"
  unfolding update_headers_def by (induction new arbitrary: hs) (simp_all add: fst_set_dset case_prod_beta)

lemma lower_request_id_name: "lower ''X-Request-ID'' = ''x-request-id''"
  by code_simp

lemma error_response_id_header:
  "''X-Request-ID'' \<in> fst ` set (rs_headers (error_response rid status code message details headers))"
  unfolding error_response_def by (cases headers) (simp_all add: update_headers_keeps)

lemma handle_exception_id_header: "''X-Request-ID'' \<in> fst ` set (rs_headers (handle_exception rid e))"
  by (cases e) (simp_all add: error_response_id_header)

lemma respond_eq: "respond fresh supplied e = handle_exception (choose_request_id fresh supplied) e"
proof -
  have "list_ex (\<lambda>h. lower (fst h) = ''x-request-id'') (rs_headers (handle_exception r e))" for r
    using handle_exception_id_header[of r e] lower_request_id_name unfolding list_ex_iff by force
  then show ?thesis by (simp add: respond_def with_request_id_def Let_def)
qed

lemma choose_request_id_ok: "request_id_ok fresh \<Longrightarrow> request_id_ok (choose_request_id fresh supplied)"
  by (simp add: choose_request_id_def)

section \<open>Properties\<close>

text \<open>C26: what a client sees of a failed request. The body names the chosen correlation
  identifier, which is the caller's only when it has 1 to 128 safe characters and therefore
  can never inject a header line; database and unexpected failures answer 500 with a text
  that does not depend on the exception; and every response carries the correlation header.\<close>

theorem error_responses_safe:
  assumes "request_id_ok fresh" "rid = choose_request_id fresh supplied"
  shows "request_id_ok rid \<and> (request_id_ok (opt_text supplied) \<longrightarrow> rid = opt_text supplied) \<and>
    CHR 0x0A \<notin> set rid \<and> CHR 0x0D \<notin> set rid \<and>
    respond fresh supplied (Database a) = respond fresh supplied (Unexpected b) \<and>
    rs_status (respond fresh supplied (Unexpected b)) = 500 \<and>
    (\<exists>code message. dget (rs_content (respond fresh supplied e)) ''error'' = Some (JObj [(''code'', JStr code), (''message'', JStr message), (''request_id'', JStr rid)])) \<and>
    (\<exists>h \<in> set (rs_headers (respond fresh supplied e)). lower (fst h) = ''x-request-id'')"
proof -
  have ok: "request_id_ok rid" unfolding assms(2) by (rule choose_request_id_ok[OF assms(1)])
  have "\<not> request_id_char (CHR 0x0A)" "\<not> request_id_char (CHR 0x0D)" by code_simp+
  then have "CHR 0x0A \<notin> set rid \<and> CHR 0x0D \<notin> set rid" using ok by (auto simp: request_id_ok_def list_all_iff)
  moreover have "\<exists>code message. dget (rs_content (handle_exception rid e)) ''error'' = Some (JObj [(''code'', JStr code), (''message'', JStr message), (''request_id'', JStr rid)])"
    by (cases e) (simp_all add: error_response_def dict_simps)
  moreover have "\<exists>h \<in> set (rs_headers (handle_exception rid e)). lower (fst h) = ''x-request-id''"
    using handle_exception_id_header[of rid e] lower_request_id_name by force
  ultimately show ?thesis
    using ok assms(2) by (simp add: respond_eq choose_request_id_def error_response_def)
qed

theorem error_responses_safe_witness:
  "respond ''f1'' (Some ''a b'') (Database ''secret'') = respond ''f1'' (Some ''a b'') (Unexpected ''trace'')"
  using error_responses_safe[of "''f1''" "choose_request_id ''f1'' (Some ''a b'')" "Some ''a b''"]
  by (simp add: request_id_ok_def request_id_char_def char_defs)

end
