(* ===== verification/Paging.thy ===== *)
theory Paging
  imports Prelude
begin

text \<open>
  The contract of the paged reads (\<open>offset((page - 1) * page_size).limit(page_size)\<close> with
  a count_all count), stated once as the locale \<open>paged_read\<close> and interpreted by every
  component that answers pages.
\<close>

definition page_of :: "nat \<Rightarrow> nat \<Rightarrow> 'a list \<Rightarrow> 'a list" where
  "page_of page per xs = take per (drop ((page - 1) * per) xs)"

definition page_count :: "nat \<Rightarrow> nat \<Rightarrow> nat" where
  "page_count count_all per = (count_all + per - 1) div per"

lemma length_page_of: "length (page_of p s xs) = min s (length xs - (p - 1) * s)"
  by (simp add: page_of_def min.commute)

lemma concat_pages: "concat (map (\<lambda>p. page_of (Suc p) s xs) [0..<n]) = take (n * s) xs"
proof (induction n)
  case (Suc n)
  have "take (n * s + s) xs = take (n * s) xs @ take s (drop (n * s) xs)" by (rule take_add)
  then show ?case using Suc by (simp add: page_of_def add.commute)
qed simp

lemma page_count_covers: "0 < per \<Longrightarrow> count_all \<le> page_count count_all per * per"
proof -
  assume s: "0 < per"
  have "count_all + per - 1 = page_count count_all per * per + (count_all + per - 1) mod per"
    by (simp add: page_count_def)
  moreover have "(count_all + per - 1) mod per < per" using s by simp
  ultimately show ?thesis by linarith
qed

lemma page_count_tight: "\<lbrakk>0 < per; 0 < count_all\<rbrakk> \<Longrightarrow> (page_count count_all per - 1) * per < count_all"
proof -
  assume s: "0 < per" "0 < count_all"
  have "page_count count_all per * per \<le> count_all + per - 1" by (simp add: page_count_def)
  then show ?thesis using s by (simp add: diff_mult_distrib)
qed

locale paged_read =
  fixes fetch :: "nat \<Rightarrow> nat \<Rightarrow> 'r list \<times> nat"
    and rows :: "'r list"
  assumes fetch_page: "0 < p \<Longrightarrow> fetch p s = (page_of p s rows, length rows)"
begin

lemma pages_cover:
  assumes "0 < s"
  shows "concat (map (\<lambda>p. fst (fetch (Suc p) s)) [0..<page_count (length rows) s]) = rows"
  using concat_pages[of s rows "page_count (length rows) s"] page_count_covers[OF assms]
  by (simp add: fetch_page)

lemma page_bounds: "0 < p \<Longrightarrow> length (fst (fetch p s)) = min s (snd (fetch p s) - (p - 1) * s)"
  by (simp add: fetch_page length_page_of)

lemma page_nonempty:
  "\<lbrakk>0 < s; 0 < length rows; p < page_count (length rows) s\<rbrakk> \<Longrightarrow> fst (fetch (Suc p) s) \<noteq> []"
proof -
  assume s: "0 < s" "0 < length rows" "p < page_count (length rows) s"
  then have "p * s \<le> (page_count (length rows) s - 1) * s" by (intro mult_right_mono) simp_all
  also have "\<dots> < length rows" by (rule page_count_tight[OF s(1,2)])
  finally show ?thesis using s(1) by (simp add: fetch_page page_of_def)
qed

lemma total_is_length: "0 < p \<Longrightarrow> snd (fetch p s) = length rows"
  by (simp add: fetch_page)

end

end
