(* ===== verification/IpRules.thy ===== *)
theory IpRules
  imports IpNet Errors Regex Paging
begin

text \<open>
  Administration of the persistent IP rules and the security audit trail
  (\<open>src/app/security/service.py\<close>, \<open>src/app/security/repository.py\<close>,
  \<open>src/app/domain/security.py\<close>, the validators of \<open>src/app/schemas/security.py\<close>).

  The tables are lists of rows. A CIDR column holds the text Python prints for the network.
  Every mutation first takes the advisory lock, so a mutation is one atomic step of the
  model; \<open>commit_ok\<close> says whether the database accepts the transaction (a violated
  constraint, such as an actor whose profile is gone, is an \<open>IntegrityError\<close>). A row's
  identifier and time are arguments. Times are microseconds.
\<close>

section \<open>Rules and events\<close>

record ip_rule =
  ir_id :: nat
  ir_cidr :: string
  ir_label :: string
  ir_description :: "string option"
  ir_enabled :: bool
  ir_created_by :: nat
  ir_created_at :: int

datatype audit_type =
    IP_ACCESS_DENIED | IP_RULE_CREATED | IP_RULE_UPDATED | IP_RULE_DISABLED | IP_RULE_DELETED
  | IP_EMERGENCY_BYPASS_USED

record audit_event =
  au_id :: nat
  au_actor :: "nat option"
  au_type :: audit_type
  au_request_ip :: "string option"
  au_user_agent :: "string option"
  au_resource_type :: "string option"
  au_resource_id :: "nat option"
  au_metadata :: "(string, json) dict"
  au_created_at :: int

record security_db =
  ip_rules :: "ip_rule list"
  audit_events :: "audit_event list"

record audit_ctx =
  ac_actor :: "nat option"
  ac_request_ip :: "string option"
  ac_user_agent :: "string option"

section \<open>Redaction\<close>

definition sensitive_terms :: "string list" where
  "sensitive_terms = [''authorization'', ''bearer '', ''cookie'', ''password'', ''secret'', ''token'', ''credential'']"

definition jwt_char :: "char \<Rightarrow> bool" where
  "jwt_char c \<longleftrightarrow> is_alnum c \<or> c = CHR ''_'' \<or> c = CHR ''-''"

definition one_or_more :: "(char \<Rightarrow> bool) \<Rightarrow> rx" where
  "one_or_more P = RSeq (RSet P) (RStar (RSet P))"

definition jwt_pattern :: rx where
  "jwt_pattern =
     RSeq RWordB (RSeq (RSet (\<lambda>c. c = CHR ''e'')) (RSeq (RSet (\<lambda>c. c = CHR ''y'')) (RSeq (RSet (\<lambda>c. c = CHR ''J''))
       (RSeq (one_or_more jwt_char) (RSeq (RSet (\<lambda>c. c = CHR ''.''))
       (RSeq (one_or_more jwt_char) (RSeq (RSet (\<lambda>c. c = CHR ''.''))
       (RSeq (one_or_more jwt_char) RWordB))))))))"

text \<open>\<open>str.isprintable\<close> of one Latin-1 character; \<open>str.casefold\<close> turns a sharp s into two letters.\<close>

definition is_printable :: "char \<Rightarrow> bool" where
  "is_printable c \<longleftrightarrow> (let n = char_code c in (32 \<le> n \<and> n \<le> 126) \<or> (161 \<le> n \<and> n \<noteq> 173))"

definition casefold :: "string \<Rightarrow> string" where
  "casefold s = concat (map (\<lambda>c. if char_code c = 223 then ''ss'' else [lower_char c]) s)"

definition has_sensitive :: "string \<Rightarrow> bool" where
  "has_sensitive s \<longleftrightarrow> list_ex (\<lambda>t. sublist t (casefold s)) sensitive_terms"

definition sanitize_user_agent :: "string option \<Rightarrow> string option" where
  "sanitize_user_agent value_opt = (case value_opt of
      None \<Rightarrow> None
    | Some v \<Rightarrow>
        let sanitized = strip (filter is_printable v) in
        if has_sensitive sanitized \<or> re_test jwt_pattern sanitized then Some ''[redacted]''
        else if take 512 sanitized = [] then None else Some (take 512 sanitized))"

definition safe_metadata :: "(string, json) dict \<Rightarrow> (string, json) dict" where
  "safe_metadata metadata = fold (\<lambda>(key, v) safe.
     let safe_key = take 64 key in
     if has_sensitive safe_key then safe
     else (case v of
         JStr s \<Rightarrow> dset safe_key (case sanitize_user_agent (Some s) of None \<Rightarrow> JNull | Some t \<Rightarrow> JStr t) safe
       | JList _ \<Rightarrow> safe
       | JObj _ \<Rightarrow> safe
       | _ \<Rightarrow> dset safe_key v safe)) (take 16 metadata) []"

definition add_audit_event ::
  "nat \<Rightarrow> int \<Rightarrow> audit_type \<Rightarrow> audit_ctx \<Rightarrow> string option \<Rightarrow> nat option \<Rightarrow> (string, json) dict option \<Rightarrow>
   security_db \<Rightarrow> security_db" where
  "add_audit_event eid now ty ctx resource_type resource_id metadata db =
     db\<lparr>audit_events := audit_events db @
       [\<lparr>au_id = eid, au_actor = ac_actor ctx, au_type = ty, au_request_ip = ac_request_ip ctx,
         au_user_agent = sanitize_user_agent (ac_user_agent ctx),
         au_resource_type = (case resource_type of None \<Rightarrow> None | Some t \<Rightarrow> if t = [] then None else Some (take 64 t)),
         au_resource_id = resource_id,
         au_metadata = safe_metadata (case metadata of None \<Rightarrow> [] | Some m \<Rightarrow> m),
         au_created_at = now\<rparr>]\<rparr>"

definition audit_context :: "nat option \<Rightarrow> ip option \<Rightarrow> string option \<Rightarrow> audit_ctx" where
  "audit_context profile client_ip user_agent =
     \<lparr>ac_actor = profile,
      ac_request_ip = map_option (\<lambda>a. ip_str (collapse_ip a)) client_ip,
      ac_user_agent = sanitize_user_agent user_agent\<rparr>"

section \<open>Repository\<close>

definition get_rule :: "nat \<Rightarrow> security_db \<Rightarrow> ip_rule option" where
  "get_rule rid db = List.find (\<lambda>r. ir_id r = rid) (ip_rules db)"

definition get_by_cidr :: "string \<Rightarrow> security_db \<Rightarrow> ip_rule option" where
  "get_by_cidr cidr db = List.find (\<lambda>r. ir_cidr r = cidr) (ip_rules db)"

definition rules_in_order :: "ip_rule list \<Rightarrow> ip_rule list" where
  "rules_in_order rs = sort_key ir_created_at (sort_key ir_id rs)"

definition list_enabled :: "security_db \<Rightarrow> ip_rule list" where
  "list_enabled db = rules_in_order (filter ir_enabled (ip_rules db))"

definition rule_page :: "security_db \<Rightarrow> nat \<Rightarrow> nat \<Rightarrow> ip_rule list \<times> nat" where
  "rule_page db offset limit = (take limit (drop offset (rules_in_order (ip_rules db))), length (ip_rules db))"

definition audit_page :: "security_db \<Rightarrow> nat \<Rightarrow> nat \<Rightarrow> audit_event list \<times> nat" where
  "audit_page db offset limit =
     (take limit (drop offset (sort_key (\<lambda>e. - au_created_at e) (sort_key (\<lambda>e. - int (au_id e)) (audit_events db)))),
      length (audit_events db))"

text \<open>
  The \<open>>>=\<close> operator of a CIDR column. The cast of the client address to \<open>INET\<close> raises for a
  scoped IPv6 address, which the type cannot hold; the raise is \<open>None\<close>.
\<close>

definition cidr_contains :: "string \<Rightarrow> ip \<Rightarrow> bool" where
  "cidr_contains cidr a = (case ip_network cidr of None \<Rightarrow> False | Some n \<Rightarrow> in_network a n)"

fun inet_castable :: "ip \<Rightarrow> bool" where
  "inet_castable (V4 _) \<longleftrightarrow> True"
| "inet_castable (V6 _ z) \<longleftrightarrow> z = None"

definition rules_match :: "security_db \<Rightarrow> ip \<Rightarrow> nat option \<Rightarrow> bool option" where
  "rules_match db client_ip exclude =
     (if \<not> inet_castable client_ip then None
      else Some (list_ex (\<lambda>r. ir_enabled r \<and> cidr_contains (ir_cidr r) client_ip \<and> exclude \<noteq> Some (ir_id r)) (ip_rules db)))"

section \<open>Service\<close>

datatype rule_error = Rejected app_error | InvalidNetwork

type_synonym 'a rule_result = "rule_error + 'a"

definition rule_conflict :: "string \<Rightarrow> rule_error" where
  "rule_conflict message = Rejected (app_error_of ''CONFLICT'' message 409)"

definition duplicate_rule :: rule_error where
  "duplicate_rule = rule_conflict ''An IP rule for this network already exists.''"

definition lockout_risk :: rule_error where
  "lockout_risk = rule_conflict ''The change could lock out the current administrator.''"

definition rule_not_found :: rule_error where
  "rule_not_found = Rejected (app_error_of ''NOT_FOUND'' ''The requested resource was not found.'' 404)"

record allowlist_settings =
  al_enabled :: bool
  al_fail_closed :: bool
  al_bypass :: "network list"

definition create_rule ::
  "nat \<Rightarrow> nat \<Rightarrow> int \<Rightarrow> bool \<Rightarrow> nat \<Rightarrow> audit_ctx \<Rightarrow> string \<Rightarrow> string \<Rightarrow> string option \<Rightarrow> bool \<Rightarrow>
   security_db \<Rightarrow> ip_rule rule_result \<times> security_db" where
  "create_rule rid eid now commit_ok actor ctx cidr label description enabled db =
     (case normalize_network cidr of
        None \<Rightarrow> (Inl InvalidNetwork, db)
      | Some n \<Rightarrow>
          let normalized = network_str n in
          if get_by_cidr normalized db \<noteq> None then (Inl duplicate_rule, db)
          else
            let rule = \<lparr>ir_id = rid, ir_cidr = normalized, ir_label = label, ir_description = description,
                        ir_enabled = enabled, ir_created_by = actor, ir_created_at = now\<rparr>;
                db1 = db\<lparr>ip_rules := ip_rules db @ [rule]\<rparr>;
                db2 = add_audit_event eid now IP_RULE_CREATED ctx (Some ''ip_access_rule'') (Some rid) None db1
            in if commit_ok then (Inr rule, db2) else (Inl duplicate_rule, db))"

definition guard_lockout ::
  "allowlist_settings \<Rightarrow> security_db \<Rightarrow> nat \<Rightarrow> ip option \<Rightarrow> string \<Rightarrow> bool \<Rightarrow> unit rule_result" where
  "guard_lockout cfg db rule_id current_ip target_cidr target_enabled =
     (if \<not> al_enabled cfg then Inr ()
      else case current_ip of
        None \<Rightarrow> Inl lockout_risk
      | Some a \<Rightarrow>
          if address_in_networks a (al_bypass cfg) then Inr ()
          else
            let others = map (\<lambda>r. ir_cidr r) (filter (\<lambda>r. ir_id r \<noteq> rule_id) (list_enabled db));
                cidrs = others @ (if target_enabled then [target_cidr] else [])
            in case those (map normalize_network cidrs) of
                 None \<Rightarrow> Inl InvalidNetwork
               | Some networks \<Rightarrow> if address_in_networks a networks then Inr () else Inl lockout_risk)"

definition store_rule :: "ip_rule \<Rightarrow> security_db \<Rightarrow> security_db" where
  "store_rule rule db = db\<lparr>ip_rules := map (\<lambda>r. if ir_id r = ir_id rule then rule else r) (ip_rules db)\<rparr>"

definition next_cidr :: "string option \<Rightarrow> ip_rule \<Rightarrow> string option" where
  "next_cidr cidr rule = (case cidr of
      None \<Rightarrow> Some (ir_cidr rule)
    | Some c \<Rightarrow> map_option network_str (normalize_network c))"

text \<open>\<open>description\<close> is \<open>None\<close> when the field was not sent, and the new value when it was.\<close>

definition updated_rule ::
  "string \<Rightarrow> string option \<Rightarrow> string option option \<Rightarrow> bool \<Rightarrow> ip_rule \<Rightarrow> ip_rule" where
  "updated_rule cidr label description enabled rule = rule\<lparr>
     ir_cidr := cidr,
     ir_label := (case label of None \<Rightarrow> ir_label rule | Some l \<Rightarrow> l),
     ir_description := (case description of None \<Rightarrow> ir_description rule | Some d \<Rightarrow> d),
     ir_enabled := enabled\<rparr>"

definition update_rule ::
  "allowlist_settings \<Rightarrow> nat \<Rightarrow> int \<Rightarrow> bool \<Rightarrow> audit_ctx \<Rightarrow> nat \<Rightarrow> string option \<Rightarrow> string option \<Rightarrow>
   string option option \<Rightarrow> bool option \<Rightarrow> ip option \<Rightarrow> security_db \<Rightarrow> ip_rule rule_result \<times> security_db" where
  "update_rule cfg eid now commit_ok ctx rule_id cidr label description enabled current_ip db =
     (case get_rule rule_id db of
        None \<Rightarrow> (Inl rule_not_found, db)
      | Some rule \<Rightarrow>
          (case next_cidr cidr rule of
             None \<Rightarrow> (Inl InvalidNetwork, db)
           | Some target \<Rightarrow>
               if target \<noteq> ir_cidr rule \<and>
                  (case get_by_cidr target db of None \<Rightarrow> False | Some d \<Rightarrow> ir_id d \<noteq> ir_id rule)
               then (Inl duplicate_rule, db)
               else
                 let next_enabled = (case enabled of None \<Rightarrow> ir_enabled rule | Some b \<Rightarrow> b) in
                 (case guard_lockout cfg db (ir_id rule) current_ip target next_enabled of
                    Inl e \<Rightarrow> (Inl e, db)
                  | Inr _ \<Rightarrow>
                      let rule' = updated_rule target label description next_enabled rule;
                          ty = (if ir_enabled rule \<and> \<not> next_enabled then IP_RULE_DISABLED else IP_RULE_UPDATED);
                          db1 = add_audit_event eid now ty ctx (Some ''ip_access_rule'') (Some (ir_id rule)) None
                                  (store_rule rule' db)
                      in if commit_ok then (Inr rule', db1) else (Inl duplicate_rule, db))))"

definition delete_rule ::
  "allowlist_settings \<Rightarrow> nat \<Rightarrow> int \<Rightarrow> audit_ctx \<Rightarrow> nat \<Rightarrow> ip option \<Rightarrow> security_db \<Rightarrow>
   unit rule_result \<times> security_db" where
  "delete_rule cfg eid now ctx rule_id current_ip db =
     (case get_rule rule_id db of
        None \<Rightarrow> (Inl rule_not_found, db)
      | Some rule \<Rightarrow>
          (case guard_lockout cfg db (ir_id rule) current_ip (ir_cidr rule) False of
             Inl e \<Rightarrow> (Inl e, db)
           | Inr _ \<Rightarrow>
               let db1 = add_audit_event eid now IP_RULE_DELETED ctx (Some ''ip_access_rule'') (Some (ir_id rule))
                           (Some [(''cidr'', JStr (ir_cidr rule))]) db
               in (Inr (), db1\<lparr>ip_rules := filter (\<lambda>r. ir_id r \<noteq> ir_id rule) (ip_rules db1)\<rparr>)))"

section \<open>Request schemas\<close>

definition length_between :: "nat \<Rightarrow> nat \<Rightarrow> string \<Rightarrow> bool" where
  "length_between a b s \<longleftrightarrow> a \<le> length s \<and> length s \<le> b"

definition opt_ok :: "('a \<Rightarrow> bool) \<Rightarrow> 'a option \<Rightarrow> bool" where
  "opt_ok P v = (case v of None \<Rightarrow> True | Some x \<Rightarrow> P x)"

text \<open>\<open>IpRuleCreate\<close>: the canonical network text, or \<open>None\<close> when the body is rejected.\<close>

definition rule_create_body :: "string \<Rightarrow> string \<Rightarrow> string option \<Rightarrow> string option" where
  "rule_create_body cidr label description =
     (if length_between 1 128 label \<and> opt_ok (length_between 0 500) description
      then map_option network_str (normalize_network cidr) else None)"

text \<open>
  \<open>IpRuleUpdate\<close>: each field is absent (\<open>None\<close>) or present, possibly with null. The
  result is the canonical network text, if one was given.
\<close>

definition rule_update_body ::
  "string option option \<Rightarrow> string option option \<Rightarrow> string option option \<Rightarrow> bool option option \<Rightarrow> string option option" where
  "rule_update_body cidr label description enabled =
     (if cidr = None \<and> label = None \<and> description = None \<and> enabled = None then None
      else if \<not> opt_ok (opt_ok (length_between 1 128)) label \<or> \<not> opt_ok (opt_ok (length_between 0 500)) description
      then None
      else case cidr of
             Some (Some c) \<Rightarrow> map_option (\<lambda>n. Some (network_str n)) (normalize_network c)
           | _ \<Rightarrow> Some None)"

section \<open>Lemmas on redaction\<close>

definition text_redacted :: "string \<Rightarrow> bool" where
  "text_redacted s \<longleftrightarrow> s = ''[redacted]'' \<or>
     (1 \<le> length s \<and> length s \<le> 512 \<and> list_all is_printable s \<and> \<not> has_sensitive s)"

definition json_redacted :: "json \<Rightarrow> bool" where
  "json_redacted v = (case v of JStr s \<Rightarrow> text_redacted s | JList _ \<Rightarrow> False | JObj _ \<Rightarrow> False | _ \<Rightarrow> True)"

definition metadata_safe :: "(string, json) dict \<Rightarrow> bool" where
  "metadata_safe m \<longleftrightarrow> dict_wf m \<and> length m \<le> 16 \<and>
     (\<forall>(k, v) \<in> set m. length k \<le> 64 \<and> \<not> has_sensitive k \<and> json_redacted v)"

definition event_safe :: "audit_event \<Rightarrow> bool" where
  "event_safe e \<longleftrightarrow> opt_ok text_redacted (au_user_agent e) \<and> metadata_safe (au_metadata e) \<and>
     opt_ok (\<lambda>t. 1 \<le> length t \<and> length t \<le> 64) (au_resource_type e)"

lemma casefold_append [simp]: "casefold (a @ b) = casefold a @ casefold b"
  by (simp add: casefold_def)

lemma has_sensitive_prefix: "\<lbrakk>prefix a b; has_sensitive a\<rbrakk> \<Longrightarrow> has_sensitive b"
  unfolding has_sensitive_def list_ex_iff
  by (metis casefold_append prefixE prefix_imp_sublist prefixI sublist_order.order_trans)

lemma sanitize_redacted: "opt_ok text_redacted (sanitize_user_agent v)"
proof (cases v)
  case None
  then show ?thesis by (simp add: sanitize_user_agent_def opt_ok_def)
next
  case (Some s)
  let ?t = "strip (filter is_printable s)"
  have "set (take 512 ?t) \<subseteq> Collect is_printable"
    using set_strip[of "filter is_printable s"] set_take_subset[of 512 ?t] by auto
  moreover have "\<not> has_sensitive (take 512 ?t)" if "\<not> has_sensitive ?t"
    using that has_sensitive_prefix take_is_prefix by blast
  moreover have "1 \<le> length (take 512 ?t)" "length (take 512 ?t) \<le> 512" if "take 512 ?t \<noteq> []"
    using that by (simp_all add: Suc_le_eq)
  ultimately show ?thesis using Some
    by (auto simp: sanitize_user_agent_def Let_def opt_ok_def text_redacted_def list_all_iff)
qed

lemma sanitize_no_jwt:
  "\<lbrakk>sanitize_user_agent v = Some s; length s < 512\<rbrakk> \<Longrightarrow> s = ''[redacted]'' \<or> \<not> re_test jwt_pattern s"
  by (auto simp: sanitize_user_agent_def Let_def split: option.splits if_splits)

definition metadata_step :: "string \<times> json \<Rightarrow> (string, json) dict \<Rightarrow> (string, json) dict" where
  "metadata_step kv safe = (case kv of (key, v) \<Rightarrow>
     let safe_key = take 64 key in
     if has_sensitive safe_key then safe
     else (case v of
         JStr s \<Rightarrow> dset safe_key (case sanitize_user_agent (Some s) of None \<Rightarrow> JNull | Some t \<Rightarrow> JStr t) safe
       | JList _ \<Rightarrow> safe
       | JObj _ \<Rightarrow> safe
       | _ \<Rightarrow> dset safe_key v safe))"

lemma safe_metadata_fold: "safe_metadata m = fold metadata_step (take 16 m) []"
  unfolding safe_metadata_def metadata_step_def by (rule fold_cong) (simp_all add: fun_eq_iff split: prod.splits)

definition entries_safe :: "(string, json) dict \<Rightarrow> bool" where
  "entries_safe m \<longleftrightarrow> dict_wf m \<and> (\<forall>(k, v) \<in> set m. length k \<le> 64 \<and> \<not> has_sensitive k \<and> json_redacted v)"

lemma entries_safe_dset:
  "\<lbrakk>entries_safe m; length k \<le> 64; \<not> has_sensitive k; json_redacted v\<rbrakk> \<Longrightarrow> entries_safe (dset k v m)"
  using set_dset[of _ k v m] by (force simp: entries_safe_def wf_intros)

lemma sanitized_json:
  "json_redacted (case sanitize_user_agent (Some s) of None \<Rightarrow> JNull | Some t \<Rightarrow> JStr t)"
  using sanitize_redacted[of "Some s"] by (auto simp: json_redacted_def opt_ok_def split: option.splits)

lemma metadata_step_safe: "entries_safe m \<Longrightarrow> entries_safe (metadata_step kv m)"
  using sanitized_json
  by (auto simp: metadata_step_def Let_def json_redacted_def intro!: entries_safe_dset split: prod.splits json.splits)

lemma metadata_step_length: "length (metadata_step kv m) \<le> Suc (length m)"
  by (auto simp: metadata_step_def Let_def length_dset_le le_SucI split: prod.splits json.splits)

lemma metadata_fold_safe:
  "entries_safe m \<Longrightarrow> entries_safe (fold metadata_step kvs m) \<and> length (fold metadata_step kvs m) \<le> length m + length kvs"
proof (induction kvs arbitrary: m)
  case (Cons kv kvs)
  show ?case using Cons.IH[OF metadata_step_safe[OF Cons.prems, of kv]] metadata_step_length[of kv m] by simp
qed simp

lemma safe_metadata_safe: "metadata_safe (safe_metadata m)"
proof -
  have "entries_safe []" by (simp add: entries_safe_def dict_wf_Nil)
  from metadata_fold_safe[OF this, of "take 16 m"] show ?thesis
    by (simp add: safe_metadata_fold metadata_safe_def entries_safe_def)
qed

lemma add_audit_event_rules [simp]: "ip_rules (add_audit_event eid now ty ctx rt ri md db) = ip_rules db"
  by (simp add: add_audit_event_def)

lemma add_audit_event_appends:
  "\<exists>e. audit_events (add_audit_event eid now ty ctx rt ri md db) = audit_events db @ [e] \<and> event_safe e \<and> au_type e = ty"
  by (cases rt) (simp_all add: add_audit_event_def event_safe_def sanitize_redacted safe_metadata_safe,
      simp_all add: opt_ok_def Suc_le_eq)

section \<open>Lemmas on the rules\<close>

definition canonical_cidr :: "string \<Rightarrow> bool" where
  "canonical_cidr c \<longleftrightarrow> map_option network_str (normalize_network c) = Some c"

definition rules_wf :: "security_db \<Rightarrow> bool" where
  "rules_wf db \<longleftrightarrow> distinct (map ir_id (ip_rules db)) \<and> distinct (map ir_cidr (ip_rules db)) \<and>
     (\<forall>r \<in> set (ip_rules db). canonical_cidr (ir_cidr r))"

lemma normalize_network_stable:
  assumes "normalize_network s = Some n"
  shows "ip_network (network_str n) = Some n \<and> normalize_network (network_str n) = Some n"
proof -
  have "network_wf n \<and> (\<forall>w z p. n = Net6 w z p \<longrightarrow> ipv4_mapped w = None)"
    using assms
  proof (cases rule: normalize_network_cases)
    case plain
    then show ?thesis using ip_network_wf by blast
  next
    case (mapped w z p a)
    then show ?thesis using net4_of_wf[of "p - 96" a] by (simp add: net4_of_def)
  qed
  then show ?thesis using ip_network_network_str[of n]
    by (auto simp: normalize_network_def split: network.splits)
qed

lemma canonical_network: "normalize_network s = Some n \<Longrightarrow> canonical_cidr (network_str n)"
  using normalize_network_stable by (simp add: canonical_cidr_def)

lemma canonical_contains:
  assumes "canonical_cidr c"
  shows "\<exists>n. normalize_network c = Some n \<and> cidr_contains c = (\<lambda>a. in_network a n)"
proof -
  obtain n where n: "normalize_network c = Some n" "network_str n = c"
    using assms by (auto simp: canonical_cidr_def)
  then have "ip_network c = Some n" using normalize_network_stable by blast
  then show ?thesis using n by (auto simp: cidr_contains_def)
qed

lemma normalized_contains:
  "\<forall>c \<in> set cs. canonical_cidr c \<Longrightarrow>
   \<exists>ns. those (map normalize_network cs) = Some ns \<and>
     (\<forall>a. address_in_networks a ns \<longleftrightarrow> (\<exists>c \<in> set cs. cidr_contains c a))"
proof (induction cs)
  case Nil
  then show ?case by (simp add: address_in_networks_def)
next
  case (Cons c cs)
  obtain n where "normalize_network c = Some n" "cidr_contains c = (\<lambda>a. in_network a n)"
    using canonical_contains[of c] Cons.prems by auto
  moreover obtain ns where "those (map normalize_network cs) = Some ns"
    "\<forall>a. address_in_networks a ns \<longleftrightarrow> (\<exists>c \<in> set cs. cidr_contains c a)"
    using Cons by auto
  ultimately show ?case by (intro exI[of _ "n # ns"]) (simp add: address_in_networks_def)
qed

lemma set_list_enabled [simp]: "set (list_enabled db) = {r \<in> set (ip_rules db). ir_enabled r}"
  by (simp add: list_enabled_def rules_in_order_def)

definition admits :: "ip_rule list \<Rightarrow> ip \<Rightarrow> bool" where
  "admits rs a \<longleftrightarrow> (\<exists>r \<in> set rs. ir_enabled r \<and> cidr_contains (ir_cidr r) a)"

lemma guard_lockout_passes:
  assumes wf: "rules_wf db" and t: "canonical_cidr target"
    and g: "guard_lockout cfg db rid cur target en = Inr ()" and on: "al_enabled cfg"
  obtains a where "cur = Some a" "address_in_networks a (al_bypass cfg) \<or>
    admits (filter (\<lambda>r. ir_id r \<noteq> rid) (ip_rules db)) a \<or> (en \<and> cidr_contains target a)"
proof -
  let ?cs = "map ir_cidr (filter (\<lambda>r. ir_id r \<noteq> rid) (list_enabled db)) @ (if en then [target] else [])"
  obtain a where a: "cur = Some a" using g on by (auto simp: guard_lockout_def split: option.splits)
  show thesis
  proof (cases "address_in_networks a (al_bypass cfg)")
    case True
    then show ?thesis using that a by blast
  next
    case False
    have "\<forall>c \<in> set ?cs. canonical_cidr c" using wf t by (auto simp: rules_wf_def)
    then obtain ns where ns: "those (map normalize_network ?cs) = Some ns"
      "\<forall>a. address_in_networks a ns \<longleftrightarrow> (\<exists>c \<in> set ?cs. cidr_contains c a)"
      using normalized_contains by blast
    have "address_in_networks a ns"
      using g on a False ns(1) by (simp add: guard_lockout_def Let_def del: map_append split: if_splits)
    then have "\<exists>c \<in> set ?cs. cidr_contains c a" using ns(2) by blast
    then have "admits (filter (\<lambda>r. ir_id r \<noteq> rid) (ip_rules db)) a \<or> (en \<and> cidr_contains target a)"
      by (auto simp: admits_def split: if_splits)
    then show ?thesis using that a by blast
  qed
qed

lemma get_rule_SomeD: "get_rule rid db = Some r \<Longrightarrow> r \<in> set (ip_rules db) \<and> ir_id r = rid"
  by (auto simp: get_rule_def find_Some_iff)

lemma get_by_cidr_None: "get_by_cidr c db = None \<longleftrightarrow> c \<notin> ir_cidr ` set (ip_rules db)"
  by (auto simp: get_by_cidr_def find_None_iff)

lemma next_cidr_canonical:
  "\<lbrakk>next_cidr c r = Some t; canonical_cidr (ir_cidr r)\<rbrakk> \<Longrightarrow> canonical_cidr t"
  using canonical_network by (auto simp: next_cidr_def split: option.splits)

lemma create_ruleE:
  assumes "create_rule rid eid now ok actor ctx cidr label descr en db = (res, db')"
  obtains (refused) e where "res = Inl e" "db' = db"
  | (created) n r where "res = Inr r" "normalize_network cidr = Some n" "get_by_cidr (network_str n) db = None"
      "r = \<lparr>ir_id = rid, ir_cidr = network_str n, ir_label = label, ir_description = descr, ir_enabled = en,
            ir_created_by = actor, ir_created_at = now\<rparr>"
      "db' = add_audit_event eid now IP_RULE_CREATED ctx (Some ''ip_access_rule'') (Some rid) None
         (db\<lparr>ip_rules := ip_rules db @ [r]\<rparr>)"
proof (cases "normalize_network cidr")
  case None
  then show thesis using assms by (intro refused) (auto simp: create_rule_def)
next
  case (Some n)
  show thesis
  proof (cases "get_by_cidr (network_str n) db = None \<and> ok")
    case True
    then show thesis using assms Some by (intro created[OF _ Some]) (auto simp: create_rule_def Let_def)
  next
    case False
    then show thesis using assms Some by (intro refused[of duplicate_rule]) (auto simp: create_rule_def Let_def split: if_splits)
  qed
qed

lemma update_ruleE:
  assumes "update_rule cfg eid now ok ctx rid cidr label descr en cur db = (res, db')"
  obtains (refused) e where "res = Inl e" "db' = db"
  | (updated) rule t ne ty where "get_rule rid db = Some rule" "next_cidr cidr rule = Some t"
      "t = ir_cidr rule \<or> (case get_by_cidr t db of None \<Rightarrow> True | Some d \<Rightarrow> ir_id d = ir_id rule)"
      "guard_lockout cfg db rid cur t ne = Inr ()" "ne = (case en of None \<Rightarrow> ir_enabled rule | Some b \<Rightarrow> b)"
      "res = Inr (updated_rule t label descr ne rule)"
      "ty = (if ir_enabled rule \<and> \<not> ne then IP_RULE_DISABLED else IP_RULE_UPDATED)"
      "db' = add_audit_event eid now ty ctx (Some ''ip_access_rule'') (Some rid) None
         (store_rule (updated_rule t label descr ne rule) db)"
proof (cases "get_rule rid db")
  case None
  then show thesis using assms by (intro refused[of rule_not_found]) (auto simp: update_rule_def)
next
  case (Some rule)
  have rid: "ir_id rule = rid" using get_rule_SomeD[OF Some] by simp
  show thesis
  proof (cases "next_cidr cidr rule")
    case None
    then show thesis using assms Some by (intro refused[of InvalidNetwork]) (auto simp: update_rule_def)
  next
    case t: (Some t)
    let ?ne = "case en of None \<Rightarrow> ir_enabled rule | Some b \<Rightarrow> b"
    let ?dup = "t \<noteq> ir_cidr rule \<and> (case get_by_cidr t db of None \<Rightarrow> False | Some d \<Rightarrow> ir_id d \<noteq> ir_id rule)"
    show thesis
    proof (cases "?dup \<or> \<not> ok \<or> (\<exists>e. guard_lockout cfg db rid cur t ?ne = Inl e)")
      case True
      then have "\<exists>e. res = Inl e \<and> db' = db" using assms Some t rid
        by (auto simp: update_rule_def Let_def split: if_splits sum.splits)
      then show thesis using refused by blast
    next
      case False
      then have g: "guard_lockout cfg db rid cur t ?ne = Inr ()"
        by (cases "guard_lockout cfg db rid cur t ?ne") auto
      show thesis
        by (rule updated[OF Some t _ g refl _ refl])
           (use False g assms Some t rid in \<open>auto simp: update_rule_def Let_def split: option.splits\<close>)
    qed
  qed
qed

lemma delete_ruleE:
  assumes "delete_rule cfg eid now ctx rid cur db = (res, db')"
  obtains (refused) e where "res = Inl e" "db' = db"
  | (deleted) rule where "get_rule rid db = Some rule" "res = Inr ()"
      "guard_lockout cfg db rid cur (ir_cidr rule) False = Inr ()"
      "ip_rules db' = filter (\<lambda>r. ir_id r \<noteq> rid) (ip_rules db)"
      "audit_events db' = audit_events (add_audit_event eid now IP_RULE_DELETED ctx (Some ''ip_access_rule'')
         (Some rid) (Some [(''cidr'', JStr (ir_cidr rule))]) db)"
proof (cases "get_rule rid db")
  case None
  then show thesis using assms by (intro refused[of rule_not_found]) (auto simp: delete_rule_def)
next
  case (Some rule)
  have rid: "ir_id rule = rid" using get_rule_SomeD[OF Some] by simp
  show thesis
  proof (cases "guard_lockout cfg db rid cur (ir_cidr rule) False")
    case (Inl e)
    then show thesis using assms Some rid by (intro refused[of e]) (auto simp: delete_rule_def)
  next
    case (Inr u)
    then show thesis using assms Some rid by (intro deleted[OF Some]) (auto simp: delete_rule_def Let_def)
  qed
qed

lemma store_rule_ids: "map ir_id (ip_rules (store_rule r db)) = map ir_id (ip_rules db)"
  by (auto simp: store_rule_def)

lemma store_rule_others:
  "filter (\<lambda>r. ir_id r \<noteq> ir_id new) (ip_rules (store_rule new db)) = filter (\<lambda>r. ir_id r \<noteq> ir_id new) (ip_rules db)"
  unfolding store_rule_def by (simp add: filter_map o_def) (rule map_idI, auto)

lemma updated_rule_simps [simp]:
  "ir_id (updated_rule t l d e r) = ir_id r" "ir_cidr (updated_rule t l d e r) = t"
  "ir_enabled (updated_rule t l d e r) = e"
  by (simp_all add: updated_rule_def)

lemma store_rule_wf:
  assumes wf: "rules_wf db" and r: "rule \<in> set (ip_rules db)" "ir_id new = ir_id rule" and c: "canonical_cidr (ir_cidr new)"
    and u: "ir_cidr new = ir_cidr rule \<or> ir_cidr new \<notin> ir_cidr ` set (ip_rules db)"
  shows "rules_wf (store_rule new db)"
proof -
  let ?f = "\<lambda>r. if ir_id r = ir_id new then new else r"
  have same: "x = rule" if "x \<in> set (ip_rules db)" "ir_id x = ir_id rule" for x
    using wf that r(1) by (auto simp: rules_wf_def distinct_map inj_on_def)
  have inj: "inj_on ir_cidr (set (ip_rules db))" and d: "distinct (ip_rules db)"
    using wf by (auto simp: rules_wf_def distinct_map)
  have "inj_on (ir_cidr \<circ> ?f) (set (ip_rules db))"
  proof (intro inj_onI)
    fix x y
    assume xy: "x \<in> set (ip_rules db)" "y \<in> set (ip_rules db)" "(ir_cidr \<circ> ?f) x = (ir_cidr \<circ> ?f) y"
    have *: "ir_cidr new \<noteq> ir_cidr z" if "z \<in> set (ip_rules db)" "ir_id z \<noteq> ir_id rule" for z
      using u that r(1) inj by (auto dest: inj_onD)
    show "x = y"
    proof (cases "ir_id x = ir_id rule \<or> ir_id y = ir_id rule")
      case True
      then show ?thesis using xy *[of x] *[of y] same r(2) by (auto split: if_splits)
    next
      case False
      then show ?thesis using xy r(2) inj by (auto dest: inj_onD)
    qed
  qed
  then have "distinct (map ir_cidr (ip_rules (store_rule new db)))"
    using \<open>distinct (ip_rules db)\<close> by (simp add: store_rule_def distinct_map comp_inj_on_iff o_def)
  moreover have "distinct (map ir_id (ip_rules (store_rule new db)))"
    using wf unfolding store_rule_ids by (simp add: rules_wf_def)
  moreover have "\<forall>r \<in> set (ip_rules (store_rule new db)). canonical_cidr (ir_cidr r)"
    using wf c by (auto simp: rules_wf_def store_rule_def)
  ultimately show ?thesis by (simp add: rules_wf_def)
qed

lemma rules_wf_audit [simp]: "rules_wf (add_audit_event eid now ty ctx rt ri md db) = rules_wf db"
  by (simp add: rules_wf_def)

lemma create_rule_wf:
  assumes "create_rule rid eid now ok actor ctx cidr label descr en db = (res, db')" "rules_wf db"
    "rid \<notin> ir_id ` set (ip_rules db)"
  shows "rules_wf db'"
  using assms(1)
proof (cases rule: create_ruleE)
  case (created n r)
  then show ?thesis using assms(2,3) canonical_network[OF created(2)]
    by (simp add: rules_wf_def get_by_cidr_None)
qed (use assms in simp)

lemma update_rule_wf:
  assumes "update_rule cfg eid now ok ctx rid cidr label descr en cur db = (res, db')" "rules_wf db"
  shows "rules_wf db'"
  using assms(1)
proof (cases rule: update_ruleE)
  case (updated rule t ne ty)
  have r: "rule \<in> set (ip_rules db)" "ir_id rule = rid" using get_rule_SomeD[OF updated(1)] by auto
  then have "canonical_cidr (ir_cidr rule)" using assms(2) by (simp add: rules_wf_def)
  then have c: "canonical_cidr t" using next_cidr_canonical updated(2) by blast
  have "t = ir_cidr rule \<or> t \<notin> ir_cidr ` set (ip_rules db)"
  proof (cases "get_by_cidr t db")
    case None
    then show ?thesis by (simp add: get_by_cidr_None)
  next
    case (Some d)
    then have d: "d \<in> set (ip_rules db)" "ir_cidr d = t" by (auto simp: get_by_cidr_def find_Some_iff)
    show ?thesis
    proof (cases "t = ir_cidr rule")
      case False
      then have "ir_id d = ir_id rule" using updated(3) Some by simp
      then have "d = rule" using d r assms(2) by (auto simp: rules_wf_def distinct_map inj_on_def)
      then show ?thesis using d by simp
    qed simp
  qed
  then show ?thesis unfolding updated(8) rules_wf_audit
    by (intro store_rule_wf[OF assms(2) r(1)]) (simp_all add: c)
qed (use assms in simp)

lemma delete_rule_wf:
  assumes "delete_rule cfg eid now ctx rid cur db = (res, db')" "rules_wf db"
  shows "rules_wf db'"
  using assms(1)
  by (cases rule: delete_ruleE) (use assms(2) in \<open>auto simp: rules_wf_def distinct_map_filter\<close>)

end
