(* ===== verification/RateLimit.thy ===== *)
theory RateLimit
  imports Prelude Complex_Main
begin

text \<open>
  \<open>src/app/security/rate_limit.py\<close>: the bounded in-memory fixed-window store and the
  route limiter in front of it. Clock readings are exact rationals (the float rounding of
  \<open>time.monotonic\<close> is not modelled); every call receives the reading it makes.
  The \<open>RateLimitStore\<close> protocol is the locale \<open>counter_store\<close>; the route limiter's
  lemmas are proved in it and the locale is interpreted on the bounded store.
\<close>

section \<open>The bounded store\<close>

record decision =
  allowed :: bool
  retry_after_seconds :: int

type_synonym window_row = "rat \<times> int \<times> int"

record bounded_store =
  max_keys :: nat
  entries :: "(string, window_row) dict"

definition new_store :: "nat \<Rightarrow> bounded_store" where
  "new_store n = \<lparr>max_keys = n, entries = []\<rparr>"

definition row_expired :: "rat \<Rightarrow> window_row \<Rightarrow> bool" where
  "row_expired now r = (case r of (started_at, _, stored_window) \<Rightarrow>
     now - started_at \<ge> of_int stored_window)"

definition live_entries :: "rat \<Rightarrow> (string, window_row) dict \<Rightarrow> (string, window_row) dict" where
  "live_entries now es = filter (\<lambda>e. \<not> row_expired now (snd e)) es"

fun evict_oldest :: "nat \<Rightarrow> (string, window_row) dict \<Rightarrow> (string, window_row) dict" where
  "evict_oldest n [] = []"
| "evict_oldest n (e # es) = (if length (e # es) > n then evict_oldest n es else e # es)"

text \<open>Python's \<open>int(x)\<close> on a number truncates towards zero.\<close>

definition py_int :: "rat \<Rightarrow> int" where
  "py_int x = (if x < 0 then \<lceil>x\<rceil> else \<lfloor>x\<rfloor>)"

definition retry_after :: "int \<Rightarrow> rat \<Rightarrow> rat \<Rightarrow> int" where
  "retry_after window_seconds now started_at =
     max 1 (py_int (of_int window_seconds - (now - started_at) + 999 / 1000))"

definition current_row :: "(string, window_row) dict \<Rightarrow> string \<Rightarrow> int \<Rightarrow> rat \<Rightarrow> rat \<times> int" where
  "current_row es key window_seconds now =
     (case dget es key of
        None \<Rightarrow> (now, 0)
      | Some (started_at, n, stored_window) \<Rightarrow>
          if stored_window \<noteq> window_seconds \<or> now - started_at \<ge> of_int window_seconds
          then (now, 0) else (started_at, n))"

definition consume ::
  "bounded_store \<Rightarrow> string \<Rightarrow> int \<Rightarrow> int \<Rightarrow> rat \<Rightarrow> decision \<times> bounded_store" where
  "consume st key limit window_seconds now =
     (let live = live_entries now (entries st);
          (started_at, n) = current_row live key window_seconds now;
          n' = n + 1;
          stored = ddel key live @ [(key, (started_at, n', window_seconds))];
          kept = evict_oldest (max_keys st) stored
      in (\<lparr>allowed = n' \<le> limit, retry_after_seconds = retry_after window_seconds now started_at\<rparr>,
          st\<lparr>entries := kept\<rparr>))"

definition store_wf :: "bounded_store \<Rightarrow> bool" where
  "store_wf st \<longleftrightarrow> dict_wf (entries st) \<and> length (entries st) \<le> max_keys st"

section \<open>Lemmas on the store\<close>

lemma evict_oldest_length: "length (evict_oldest n es) \<le> n"
  by (induction n es rule: evict_oldest.induct) auto

lemma evict_oldest_id: "length es \<le> n \<Longrightarrow> evict_oldest n es = es"
  by (cases es) auto

lemma evict_oldest_suffix: "suffix (evict_oldest n es) es"
  by (induction n es rule: evict_oldest.induct) (auto intro: suffix_ConsI)

lemma evict_oldest_snoc: "0 < n \<Longrightarrow> \<exists>es'. evict_oldest n (es @ [e]) = es' @ [e]"
  by (induction es) auto

lemma dict_wf_filter [wf_intros]: "dict_wf es \<Longrightarrow> dict_wf (filter P es)"
  by (simp add: dict_wf_def distinct_map_filter)

lemma dict_wf_move_end [wf_intros]: "dict_wf es \<Longrightarrow> dict_wf (ddel k es @ [(k, v)])"
  by (auto simp: dict_wf_def ddel_def distinct_map_filter)

lemma dict_wf_suffix: "\<lbrakk>suffix es' es; dict_wf es\<rbrakk> \<Longrightarrow> dict_wf es'"
  by (auto simp: suffix_def dict_wf_def)

lemma dict_wf_live_entries [wf_intros]: "dict_wf es \<Longrightarrow> dict_wf (live_entries now es)"
  by (simp add: live_entries_def wf_intros)

lemma set_live_entries: "set (live_entries now es) \<subseteq> set es"
  by (auto simp: live_entries_def)

lemma dget_live_entries:
  "dict_wf es \<Longrightarrow> dget (live_entries now es) k =
     (case dget es k of None \<Rightarrow> None | Some v \<Rightarrow> if row_expired now v then None else Some v)"
proof (induction es)
  case (Cons e es)
  then have "dget es (fst e) = None" by (simp add: dict_wf_def dget_None_iff)
  moreover have "dict_wf es" using Cons.prems by (simp add: dict_wf_def)
  ultimately show ?case using Cons.IH
    by (cases e) (auto simp: live_entries_def dict_simps split: option.splits)
qed (simp add: live_entries_def dict_simps)

lemma dget_move_end:
  "dget (ddel k es @ [(k, v)]) k' = (if k' = k then Some v else dget es k')"
  by (auto simp: dict_simps split: option.splits)

lemma py_int_mono_le: "x \<le> of_int i \<Longrightarrow> 0 \<le> i \<Longrightarrow> py_int x \<le> i"
  by (auto simp: py_int_def ceiling_le_iff floor_le_iff)

lemma py_int_gt: "0 \<le> x \<Longrightarrow> x - 1 < of_int (py_int x)"
  unfolding py_int_def by simp linarith

lemma retry_after_ge1: "1 \<le> retry_after w now s"
  by (simp add: retry_after_def)

lemma retry_after_le: "\<lbrakk>s \<le> now; 1 \<le> w\<rbrakk> \<Longrightarrow> retry_after w now s \<le> w"
proof -
  assume a: "s \<le> now" "1 \<le> w"
  let ?x = "of_int w - (now - s) + 999 / 1000 :: rat"
  have lt: "?x < of_int (w + 1)" using a by simp
  have "py_int ?x \<le> w"
  proof (cases "?x < 0")
    case True
    then have "py_int ?x \<le> 0" by (auto simp: py_int_def ceiling_le_iff)
    then show ?thesis using a by simp
  next
    case False
    then show ?thesis using lt by (simp add: py_int_def floor_le_iff)
  qed
  then show ?thesis using a by (simp add: retry_after_def)
qed

lemma retry_after_covers:
  assumes "now - s < of_int w"
  shows "of_int w - (now - s) - 1 / 1000 < of_int (retry_after w now s)"
proof -
  let ?x = "of_int w - (now - s) + 999 / 1000 :: rat"
  have "?x - 1 < of_int (py_int ?x)" by (rule py_int_gt) (use assms in simp)
  also have "of_int (py_int ?x) \<le> (of_int (retry_after w now s) :: rat)"
    by (simp only: of_int_le_iff) (simp add: retry_after_def)
  finally show ?thesis by simp
qed

lemma consume_wf: "store_wf st \<Longrightarrow> store_wf (snd (consume st k l w now))"
  by (auto simp: consume_def Let_def store_wf_def evict_oldest_length split: prod.splits
      intro!: dict_wf_suffix[OF evict_oldest_suffix] wf_intros)

lemma consume_max_keys [simp]: "max_keys (snd (consume st k l w now)) = max_keys st"
  by (simp add: consume_def Let_def split: prod.splits)

text \<open>The counter of a key that is live in the window \<open>w\<close> at time \<open>now\<close>.\<close>

definition live_window :: "bounded_store \<Rightarrow> string \<Rightarrow> int \<Rightarrow> rat \<Rightarrow> (rat \<times> int) option" where
  "live_window st key w now =
     (case dget (entries st) key of
        Some (s, n, w') \<Rightarrow> if w' = w \<and> now - s < of_int w then Some (s, n) else None
      | None \<Rightarrow> None)"

text \<open>The keys \<open>K\<close> fit when there is room for all of them; what the store holds of other keys does
  not matter. A key of \<open>K\<close> is safe from requests for the others once everything more recent
  than it, which would be evicted after it, is of \<open>K\<close> too.\<close>

definition store_fits :: "string set \<Rightarrow> bounded_store \<Rightarrow> bool" where
  "store_fits K st \<longleftrightarrow> dict_wf (entries st) \<and> finite K \<and> card K \<le> max_keys st"

definition key_safe :: "string \<Rightarrow> string set \<Rightarrow> bounded_store \<Rightarrow> bool" where
  "key_safe k K st \<longleftrightarrow> store_fits K st \<and> k \<in> K \<and>
     (\<exists>old recent. entries st = old @ recent \<and> fst ` set recent \<subseteq> K \<and> k \<notin> fst ` set old)"

lemma current_row_live:
  "dict_wf (entries st) \<Longrightarrow>
   current_row (live_entries now (entries st)) key w now =
     (case live_window st key w now of None \<Rightarrow> (now, 0) | Some p \<Rightarrow> p)"
  by (auto simp: current_row_def live_window_def dget_live_entries row_expired_def
      split: option.splits prod.splits)

lemma fits_length:
  "\<lbrakk>dict_wf es; finite K; fst ` set es \<subseteq> K; card K \<le> n\<rbrakk> \<Longrightarrow> length es \<le> n"
proof -
  assume a: "dict_wf es" "finite K" "fst ` set es \<subseteq> K" "card K \<le> n"
  have "length es = card (fst ` set es)"
    using a(1) by (metis dict_wf_def distinct_card length_map list.set_map)
  also have "\<dots> \<le> card K" using a by (simp add: card_mono)
  finally show ?thesis using a by simp
qed

lemma evict_oldest_recent:
  "length recent \<le> n \<Longrightarrow> \<exists>old'. evict_oldest n (old @ recent) = old' @ recent \<and> set old' \<subseteq> set old"
proof (induction old)
  case Nil
  then show ?case by (simp add: evict_oldest_id)
next
  case (Cons e old)
  then obtain old' where o: "evict_oldest n (old @ recent) = old' @ recent" "set old' \<subseteq> set old" by blast
  show ?case
  proof (cases "length (e # old @ recent) > n")
    case True
    then show ?thesis using o by (intro exI[of _ old']) auto
  next
    case False
    then show ?thesis by (intro exI[of _ "e # old"]) auto
  qed
qed

lemma ddel_append: "ddel k (a @ b) = ddel k a @ ddel k b"
  by (simp add: ddel_def)

lemma live_entries_append: "live_entries t (a @ b) = live_entries t a @ live_entries t b"
  by (simp add: live_entries_def)

lemma dget_append_free: "k \<notin> fst ` set a \<Longrightarrow> dget (a @ b) k = dget b k"
  by (induction a) (auto simp: dget_def)

lemma ddel_keys: "k \<notin> fst ` set (ddel k es)" "fst ` set (ddel k es) \<subseteq> fst ` set es"
  by (auto simp: ddel_def)

lemma live_keys: "fst ` set (live_entries t es) \<subseteq> fst ` set es"
  by (auto simp: live_entries_def)

text \<open>A request puts its key last, behind what is left of the others.\<close>

lemma consume_entries:
  assumes "store_fits K st" "key \<in> K"
  obtains old s n where "entries (snd (consume st key l w now)) = old @ [(key, (s, n + 1, w))]"
    "key \<notin> fst ` set old" "(s, n) = (case live_window st key w now of None \<Rightarrow> (now, 0) | Some p \<Rightarrow> p)"
proof -
  let ?live = "live_entries now (entries st)"
  obtain s n where sn: "current_row ?live key w now = (s, n)" by (rule prod.exhaust)
  have live: "(s, n) = (case live_window st key w now of None \<Rightarrow> (now, 0) | Some p \<Rightarrow> p)"
    using sn current_row_live[of st now key w] assms(1) by (simp add: store_fits_def)
  have "0 < card K" using assms by (auto simp: store_fits_def card_gt_0_iff)
  then have "length [(key, (s, n + 1, w))] \<le> max_keys st" using assms(1) by (simp add: store_fits_def)
  from evict_oldest_recent[OF this, of "ddel key ?live"]
  obtain old where "evict_oldest (max_keys st) (ddel key ?live @ [(key, (s, n + 1, w))]) = old @ [(key, (s, n + 1, w))]"
    "set old \<subseteq> set (ddel key ?live)" by blast
  note old = this
  have "entries (snd (consume st key l w now)) = old @ [(key, (s, n + 1, w))]"
    using old(1) sn by (simp add: consume_def Let_def)
  moreover have "key \<notin> fst ` set old" using old(2) ddel_keys(1)[of key ?live] by auto
  ultimately show ?thesis using live by (rule that)
qed

lemma consume_store_fits: "store_fits K st \<Longrightarrow> store_fits K (snd (consume st key l w now))"
proof -
  assume fits: "store_fits K st"
  have "dict_wf (ddel key (live_entries now (entries st)) @ [(key, v)])" for v
    using fits by (auto simp: store_fits_def intro!: wf_intros)
  then have "dict_wf (entries (snd (consume st key l w now)))"
    using dict_wf_suffix[OF evict_oldest_suffix] by (simp add: consume_def Let_def split: prod.split)
  then show ?thesis using fits by (simp add: store_fits_def consume_def Let_def split: prod.splits)
qed

lemma consume_starts_safe:
  assumes "store_fits K st" "key \<in> K"
  shows "key_safe key K (snd (consume st key l w now))"
proof -
  obtain old v where "entries (snd (consume st key l w now)) = old @ [(key, v)]" "key \<notin> fst ` set old"
    by (rule consume_entries[OF assms]) blast
  moreover have "fst ` set [(key, v)] \<subseteq> K" using assms(2) by simp
  ultimately show ?thesis unfolding key_safe_def using assms(2) consume_store_fits[OF assms(1)] by blast
qed

text \<open>A request for another key of \<open>K\<close> leaves a safe key where it was.\<close>

lemma consume_other:
  assumes "key_safe k K st" "key \<in> K" "key \<noteq> k"
  shows "key_safe k K (snd (consume st key l w now)) \<and>
    dget (entries (snd (consume st key l w now))) k = dget (live_entries now (entries st)) k"
proof -
  obtain old recent where e: "entries st = old @ recent" "fst ` set recent \<subseteq> K" "k \<notin> fst ` set old"
    and fits: "store_fits K st" "k \<in> K" using assms(1) by (auto simp: key_safe_def)
  let ?live = "live_entries now (entries st)"
  obtain s n where sn: "current_row ?live key w now = (s, n)" by (rule prod.exhaust)
  let ?row = "(key, (s, n + 1, w))"
  let ?old = "ddel key (live_entries now old)" and ?recent = "ddel key (live_entries now recent) @ [?row]"
  have st: "ddel key ?live @ [?row] = ?old @ ?recent" by (simp add: e(1) live_entries_append ddel_append)
  have sub: "fst ` set (ddel key (live_entries now es)) \<subseteq> fst ` set es" for es
    using ddel_keys(2) live_keys by (rule order_trans)
  have keys: "fst ` set ?recent \<subseteq> K" "k \<notin> fst ` set ?old"
    using sub[of recent] sub[of old] e(2,3) assms(2) by auto
  have wf: "dict_wf (?old @ ?recent)" unfolding st[symmetric] using fits(1) by (auto simp: store_fits_def intro!: wf_intros)
  then have "dict_wf ?recent" by (rule dict_wf_suffix[rotated]) (simp add: suffix_def)
  then have "length ?recent \<le> max_keys st"
    using fits_length[OF _ _ keys(1), of "max_keys st"] fits(1) unfolding store_fits_def by blast
  from evict_oldest_recent[OF this, of ?old]
  obtain old' where ev: "evict_oldest (max_keys st) (?old @ ?recent) = old' @ ?recent" "set old' \<subseteq> set ?old" by blast
  have "entries (snd (consume st key l w now)) = evict_oldest (max_keys st) (ddel key ?live @ [?row])"
    using sn by (simp add: consume_def Let_def)
  then have ents: "entries (snd (consume st key l w now)) = old' @ ?recent" unfolding st using ev(1) by simp
  have k: "k \<notin> fst ` set old'" using ev(2) keys(2) by auto
  have "dget (old' @ ?recent) k = dget (?old @ ?recent) k"
    by (simp only: dget_append_free[OF k] dget_append_free[OF keys(2)])
  then have "dget (entries (snd (consume st key l w now))) k = dget ?live k"
    unfolding ents st[symmetric] using assms(3) by (simp add: dget_move_end)
  moreover have "key_safe k K (snd (consume st key l w now))"
    unfolding key_safe_def ents using consume_store_fits[OF fits(1)] fits(2) keys(1) k by blast
  ultimately show ?thesis by blast
qed

lemma consume_decision:
  "dict_wf (entries st) \<Longrightarrow> fst (consume st key l w now) =
     (case live_window st key w now of
        None \<Rightarrow> \<lparr>allowed = 1 \<le> l, retry_after_seconds = retry_after w now now\<rparr>
      | Some (s, n) \<Rightarrow> \<lparr>allowed = n + 1 \<le> l, retry_after_seconds = retry_after w now s\<rparr>)"
  by (auto simp: consume_def current_row_live Let_def split: option.splits prod.splits)

lemma consume_live_same:
  assumes "store_fits K st" "key \<in> K"
  shows "live_window (snd (consume st key l w now)) key w t =
     (let (s, n) = (case live_window st key w now of None \<Rightarrow> (now, 0) | Some p \<Rightarrow> p)
      in if t - s < of_int w then Some (s, n + 1) else None)"
proof -
  obtain old s n where e: "entries (snd (consume st key l w now)) = old @ [(key, (s, n + 1, w))]" "key \<notin> fst ` set old"
    and sn: "(s, n) = (case live_window st key w now of None \<Rightarrow> (now, 0) | Some p \<Rightarrow> p)"
    by (rule consume_entries[OF assms])
  have "dget (entries (snd (consume st key l w now))) key = Some (s, n + 1, w)"
    unfolding e(1) dget_append_free[OF e(2)] by (simp add: dget_def)
  then show ?thesis unfolding sn[symmetric] by (simp add: live_window_def)
qed

lemma consume_live_other:
  assumes "key_safe k K st" "key \<in> K" "key \<noteq> k" "now \<le> t"
  shows "live_window (snd (consume st key l w now)) k w' t = live_window st k w' t"
  using consume_other[OF assms(1-3), of l w now] assms(1,4)
  by (auto simp: live_window_def dget_live_entries key_safe_def store_fits_def row_expired_def
      split: prod.splits option.splits if_splits)

section \<open>The protocol and its client\<close>

text \<open>
  \<open>RouteRateLimiter.check\<close> calls the store through the \<open>RateLimitStore\<close> protocol. A
  store answers a decision, or raises (\<open>None\<close>); either way it may have changed.
\<close>

datatype store_error = RateLimitStoreError

type_synonym 's store_op = "'s \<Rightarrow> string \<Rightarrow> int \<Rightarrow> int \<Rightarrow> rat \<Rightarrow> decision option \<times> 's"

definition route_key :: "string \<Rightarrow> string \<Rightarrow> string" where
  "route_key route_group client_key = route_group @ '':'' @ client_key"

definition route_check ::
  "'s store_op \<Rightarrow> bool \<Rightarrow> 's \<Rightarrow> string \<Rightarrow> string \<Rightarrow> int \<Rightarrow> int \<Rightarrow> rat \<Rightarrow>
   (store_error + decision option) \<times> 's" where
  "route_check store fail_closed s route_group client_key limit window_seconds now =
     (case store s (route_key route_group client_key) limit window_seconds now of
        (Some d, s') \<Rightarrow> (Inr (Some d), s')
      | (None, s') \<Rightarrow> (if fail_closed then Inl RateLimitStoreError else Inr None, s'))"

record request =
  rq_group :: string
  rq_client :: string
  rq_limit :: int
  rq_window :: int
  rq_time :: rat

definition rq_key :: "request \<Rightarrow> string" where
  "rq_key r = route_key (rq_group r) (rq_client r)"

fun check_run ::
  "'s store_op \<Rightarrow> bool \<Rightarrow> 's \<Rightarrow> request list \<Rightarrow> (request \<times> (store_error + decision option)) list \<times> 's" where
  "check_run store fc s [] = ([], s)"
| "check_run store fc s (r # rs) =
     (let (d, s') = route_check store fc s (rq_group r) (rq_client r) (rq_limit r) (rq_window r) (rq_time r);
          (ds, s'') = check_run store fc s' rs
      in ((r, d) # ds, s''))"

definition is_admitted :: "store_error + decision option \<Rightarrow> bool" where
  "is_admitted d = (case d of Inr (Some x) \<Rightarrow> allowed x | _ \<Rightarrow> False)"

definition admitted_for :: "string \<Rightarrow> (request \<times> (store_error + decision option)) list \<Rightarrow> nat" where
  "admitted_for k ds = length (filter (\<lambda>(r, d). rq_key r = k \<and> is_admitted d) ds)"

definition requests_for :: "string \<Rightarrow> request list \<Rightarrow> nat" where
  "requests_for k rs = length (filter (\<lambda>r. rq_key r = k) rs)"

locale counter_store =
  fixes store :: "'s store_op"
    and live :: "'s \<Rightarrow> string \<Rightarrow> int \<Rightarrow> rat \<Rightarrow> (rat \<times> int) option"
    and fits :: "string set \<Rightarrow> 's \<Rightarrow> bool"
    and safe :: "string \<Rightarrow> string set \<Rightarrow> 's \<Rightarrow> bool"
  assumes answers: "fits K s \<Longrightarrow> \<exists>d. fst (store s k l w t) = Some d \<and>
      (allowed d \<longleftrightarrow> (case live s k w t of None \<Rightarrow> 1 \<le> l | Some (_, n) \<Rightarrow> n + 1 \<le> l))"
    and safe_fits: "safe k K s \<Longrightarrow> fits K s \<and> k \<in> K"
    and starts_safe: "\<lbrakk>fits K s; k \<in> K\<rbrakk> \<Longrightarrow> safe k K (snd (store s k l w t))"
    and keeps_safe: "\<lbrakk>safe k K s; k' \<in> K; k' \<noteq> k\<rbrakk> \<Longrightarrow> safe k K (snd (store s k' l w t))"
    and counts_same: "\<lbrakk>fits K s; k \<in> K\<rbrakk> \<Longrightarrow> live (snd (store s k l w t)) k w t' =
      (let (b, n) = (case live s k w t of None \<Rightarrow> (t, 0) | Some p \<Rightarrow> p)
       in if t' - b < of_int w then Some (b, n + 1) else None)"
    and keeps_other: "\<lbrakk>safe k K s; k' \<in> K; k' \<noteq> k; t \<le> t'\<rbrakk> \<Longrightarrow>
      live (snd (store s k' l w t)) k w' t' = live s k w' t'"
begin

lemma check_never_fails:
  "fits K s \<Longrightarrow> \<exists>d. fst (route_check store fc s g c l w t) = Inr (Some d)"
  using answers[of K s "route_key g c" l w t] by (auto simp: route_check_def split: prod.splits)

lemma check_admits:
  "fits K s \<Longrightarrow> is_admitted (fst (route_check store fc s g c l w t)) \<longleftrightarrow>
     (case live s (route_key g c) w t of None \<Rightarrow> 1 \<le> l | Some (_, n) \<Rightarrow> n + 1 \<le> l)"
  using answers[of K s "route_key g c" l w t]
  by (auto simp: route_check_def is_admitted_def split: prod.splits option.splits)

lemma check_store [simp]:
  "snd (route_check store fc s g c l w t) = snd (store s (route_key g c) l w t)"
  by (auto simp: route_check_def split: prod.splits option.splits)

lemma admitted_Cons:
  "admitted_for k (fst (check_run store fc s (r # rs))) =
     (if rq_key r = k \<and> is_admitted (fst (route_check store fc s (rq_group r) (rq_client r)
          (rq_limit r) (rq_window r) (rq_time r))) then 1 else 0) +
     admitted_for k (fst (check_run store fc (snd (store s (rq_key r) (rq_limit r) (rq_window r) (rq_time r))) rs))"
proof -
  obtain d s' where c: "route_check store fc s (rq_group r) (rq_client r) (rq_limit r) (rq_window r) (rq_time r) = (d, s')"
    by (rule prod.exhaust)
  then have s': "s' = snd (store s (rq_key r) (rq_limit r) (rq_window r) (rq_time r))"
    unfolding rq_key_def by (metis check_store snd_conv)
  obtain ds s'' where r: "check_run store fc s' rs = (ds, s'')" by (rule prod.exhaust)
  have "check_run store fc s (r # rs) = ((r, d) # ds, s'')" using c r by simp
  then show ?thesis using r c by (simp add: s'[symmetric] admitted_for_def)
qed

text \<open>
  Within one window the limiter admits exactly \<open>l - n\<close> more requests of a key that has
  been counted \<open>n\<close> times, whatever other keys do in between.
\<close>

lemma admits_rest:
  assumes "safe k K s" "\<forall>r \<in> set rs. rq_key r \<in> K"
    and "\<forall>r \<in> set rs. rq_key r = k \<longrightarrow> rq_limit r = l \<and> rq_window r = w"
    and "\<forall>r \<in> set rs. rq_time r - b < of_int w"
    and "sorted (map rq_time rs)" "0 \<le> n"
    and "\<forall>r \<in> set rs. live s k w (rq_time r) = Some (b, n)"
  shows "int (admitted_for k (fst (check_run store fc s rs))) =
     max 0 (min (int (requests_for k rs)) (l - n))"
  using assms
proof (induction rs arbitrary: s n)
  case Nil
  then show ?case by (simp add: admitted_for_def requests_for_def)
next
  case (Cons r rs)
  let ?s = "snd (store s (rq_key r) (rq_limit r) (rq_window r) (rq_time r))"
  have rK: "rq_key r \<in> K" and fits: "fits K s" and safe': "safe k K ?s"
    using Cons.prems(1,2) safe_fits keeps_safe starts_safe by (cases "rq_key r = k"; fastforce)+
  show ?case
  proof (cases "rq_key r = k")
    case True
    have "live ?s k w (rq_time r') = Some (b, n + 1)" if "r' \<in> set rs" for r'
      using counts_same[OF fits rK, of l w "rq_time r" "rq_time r'"] Cons.prems that True
      by simp
    then have "int (admitted_for k (fst (check_run store fc ?s rs))) =
        max 0 (min (int (requests_for k rs)) (l - (n + 1)))"
      using Cons.prems safe' by (intro Cons.IH) auto
    moreover have "is_admitted (fst (route_check store fc s (rq_group r) (rq_client r)
        (rq_limit r) (rq_window r) (rq_time r))) \<longleftrightarrow> n + 1 \<le> l"
      using check_admits[OF fits, where g = "rq_group r" and c = "rq_client r"] Cons.prems rK True
      by (simp add: rq_key_def)
    ultimately show ?thesis using True Cons.prems
      by (auto simp del: check_run.simps simp: admitted_Cons requests_for_def)
  next
    case False
    have "live ?s k w (rq_time r') = Some (b, n)" if "r' \<in> set rs" for r'
      using keeps_other[OF Cons.prems(1) rK, of "rq_time r" "rq_time r'"] Cons.prems that False
      by auto
    then have "int (admitted_for k (fst (check_run store fc ?s rs))) =
        max 0 (min (int (requests_for k rs)) (l - n))"
      using Cons.prems safe' by (intro Cons.IH) auto
    then show ?thesis using False
      by (simp del: check_run.simps add: admitted_Cons requests_for_def)
  qed
qed

lemma admits_window:
  assumes "fits K s" "\<forall>r \<in> set (r0 # rs). rq_key r \<in> K"
    and "\<forall>r \<in> set (r0 # rs). rq_key r = rq_key r0 \<longrightarrow> rq_limit r = l \<and> rq_window r = w"
    and "\<forall>r \<in> set rs. rq_time r - rq_time r0 < of_int w"
    and "sorted (map rq_time (r0 # rs))"
    and "live s (rq_key r0) w (rq_time r0) = None"
  shows "int (admitted_for (rq_key r0) (fst (check_run store fc s (r0 # rs)))) =
     max 0 (min (int (requests_for (rq_key r0) (r0 # rs))) l)"
proof -
  let ?s = "snd (store s (rq_key r0) (rq_limit r0) (rq_window r0) (rq_time r0))"
  have K: "rq_key r0 \<in> K" using assms(2) by simp
  have safe': "safe (rq_key r0) K ?s" using starts_safe[OF assms(1) K] .
  have "live ?s (rq_key r0) w (rq_time r) = Some (rq_time r0, 1)" if "r \<in> set rs" for r
    using counts_same[OF assms(1) K, of l w "rq_time r0" "rq_time r"] assms that by simp
  then have "int (admitted_for (rq_key r0) (fst (check_run store fc ?s rs))) =
      max 0 (min (int (requests_for (rq_key r0) rs)) (l - 1))"
    using assms safe' K by (intro admits_rest[where b = "rq_time r0"]) auto
  moreover have "is_admitted (fst (route_check store fc s (rq_group r0) (rq_client r0)
      (rq_limit r0) (rq_window r0) (rq_time r0))) \<longleftrightarrow> 1 \<le> l"
    using check_admits[OF assms(1), where g = "rq_group r0" and c = "rq_client r0"] assms K by (simp add: rq_key_def)
  ultimately show ?thesis
    by (auto simp del: check_run.simps simp: admitted_Cons requests_for_def)
qed

end

definition bounded_op :: "bounded_store store_op" where
  "bounded_op st k l w t = (case consume st k l w t of (d, st') \<Rightarrow> (Some d, st'))"

lemma bounded_op_simps [simp]:
  "fst (bounded_op st k l w t) = Some (fst (consume st k l w t))"
  "snd (bounded_op st k l w t) = snd (consume st k l w t)"
  by (simp_all add: bounded_op_def split: prod.splits)

interpretation bounded: counter_store bounded_op live_window store_fits key_safe
proof (unfold_locales, goal_cases)
  case (1 K s k l w t)
  then have "dict_wf (entries s)" by (simp add: store_fits_def)
  then show ?case by (simp add: consume_decision split: option.splits)
next
  case (2 k K s)
  then show ?case by (simp add: key_safe_def)
next
  case (4 k K s k' l w t)
  then show ?case using consume_other by simp
qed (simp_all add: consume_starts_safe consume_live_same consume_live_other)

section \<open>Properties\<close>

text \<open>In one window the limiter over the bounded store admits exactly
  \<open>min(requests, limit)\<close> of the requests of a client on a route group, however they
  interleave with requests of other keys and whatever the store held before, as long as it has
  room for the keys requested in that window.\<close>

theorem limiter_admits_exactly_limit:
  assumes "store_fits K st" "\<forall>r \<in> set (r0 # rs). rq_key r \<in> K"
    and "\<forall>r \<in> set (r0 # rs). rq_key r = rq_key r0 \<longrightarrow> rq_limit r = l \<and> rq_window r = w"
    and "\<forall>r \<in> set rs. rq_time r - rq_time r0 < of_int w"
    and "sorted (map rq_time (r0 # rs))"
    and "live_window st (rq_key r0) w (rq_time r0) = None"
  shows "int (admitted_for (rq_key r0) (fst (check_run bounded_op fc st (r0 # rs)))) =
     max 0 (min (int (requests_for (rq_key r0) (r0 # rs))) l)"
  using assms by (rule bounded.admits_window)

definition sample_request :: "rat \<Rightarrow> request" where
  "sample_request t = \<lparr>rq_group = ''auth'', rq_client = ''10.0.0.1'', rq_limit = 2,
     rq_window = 60, rq_time = t\<rparr>"

theorem limiter_admits_exactly_limit_witness:
  "int (admitted_for ''auth:10.0.0.1'' (fst (check_run bounded_op True (new_store 5)
     (sample_request 0 # [sample_request 1, sample_request 2])))) = 2"
proof -
  have k: "rq_key (sample_request t) = ''auth:10.0.0.1''" for t
    by (simp add: rq_key_def sample_request_def route_key_def)
  have "int (admitted_for (rq_key (sample_request 0)) (fst (check_run bounded_op True (new_store 5)
      (sample_request 0 # [sample_request 1, sample_request 2])))) =
    max 0 (min (int (requests_for (rq_key (sample_request 0))
      (sample_request 0 # [sample_request 1, sample_request 2]))) 2)"
    by (rule limiter_admits_exactly_limit[where K = "{''auth:10.0.0.1''}" and w = 60])
      (simp_all add: k, simp_all add: sample_request_def store_fits_def new_store_def dict_wf_def
        live_window_def dget_def)
  then show ?thesis by (simp add: k requests_for_def)
qed

text \<open>Whatever the history, the store never holds more keys than its capacity, a
  consumed request sees a retry delay between one second and the window, and a refused
  or admitted client that waits the delay is at most a millisecond short of the end of
  its window.\<close>

theorem consume_bounds:
  assumes "store_wf st" "1 \<le> w" "\<forall>k s n w'. (k, s, n, w') \<in> set (entries st) \<longrightarrow> s \<le> now"
    and "consume st key l w now = (d, st')"
  shows "length (entries st') \<le> max_keys st \<and> store_wf st' \<and>
    1 \<le> retry_after_seconds d \<and> retry_after_seconds d \<le> w \<and>
    (\<exists>s \<le> now. now - s < of_int w \<and>
       s + of_int w - 1 / 1000 < now + of_int (retry_after_seconds d))"
proof -
  have wf: "dict_wf (entries st)" using assms(1) by (simp add: store_wf_def)
  have d: "d = fst (consume st key l w now)" and st': "st' = snd (consume st key l w now)"
    using assms(4) by simp_all
  obtain s where s: "retry_after_seconds d = retry_after w now s" "s \<le> now" "now - s < of_int w"
  proof (cases "live_window st key w now")
    case None
    then show ?thesis using that[of now] assms(2) by (simp add: d consume_decision[OF wf])
  next
    case (Some p)
    then obtain s n where p: "p = (s, n)" "dget (entries st) key = Some (s, n, w)" "now - s < of_int w"
      by (cases p) (auto simp: live_window_def split: option.splits if_splits)
    then have "s \<le> now" using assms(3) dget_SomeD by fastforce
    then show ?thesis using that[of s] p Some by (simp add: d consume_decision[OF wf])
  qed
  have "store_wf st'" using assms(1) consume_wf by (simp add: st')
  moreover have "length (entries st') \<le> max_keys st"
    using \<open>store_wf st'\<close> by (simp add: store_wf_def st')
  moreover have "s + of_int w - 1 / 1000 < now + of_int (retry_after_seconds d)"
    using retry_after_covers[OF s(3)] s(1) by simp
  ultimately show ?thesis using s retry_after_ge1 retry_after_le[OF s(2) assms(2)] by auto
qed

theorem consume_bounds_witness:
  "length (entries (snd (consume (new_store 1) ''k'' 5 60 3))) \<le> 1"
  using consume_bounds[of "new_store 1" 60 3 "''k''" 5
      "fst (consume (new_store 1) ''k'' 5 60 3)" "snd (consume (new_store 1) ''k'' 5 60 3)"]
  by (simp add: store_wf_def new_store_def dict_wf_def)

text \<open>The failure policy, and the separation of route groups in the key space.\<close>

lemma check_failure_policy:
  "fst (store s (route_key g c) l w t) = None \<Longrightarrow>
   fst (route_check store fc s g c l w t) = (if fc then Inl RateLimitStoreError else Inr None)"
  by (auto simp: route_check_def split: prod.splits option.splits)

lemma route_key_inj:
  "\<lbrakk>CHR '':'' \<notin> set g; CHR '':'' \<notin> set g'\<rbrakk> \<Longrightarrow>
   route_key g c = route_key g' c' \<longleftrightarrow> g = g' \<and> c = c'"
proof (induction g arbitrary: g')
  case Nil
  then show ?case by (cases g') (auto simp: route_key_def)
next
  case (Cons x g)
  then show ?case by (cases g') (auto simp: route_key_def)
qed

text \<open>A window that ends restarts the count, and a changed window length does too.\<close>

lemma consume_restarts:
  assumes "dict_wf (entries st)" "dget (entries st) key = Some (s, n, w')"
    and "w' \<noteq> w \<or> of_int w \<le> now - s"
  shows "allowed (fst (consume st key l w now)) \<longleftrightarrow> 1 \<le> l"
  using assms by (auto simp: consume_decision live_window_def)

end
