(* ===== verification/IpGate.thy ===== *)
theory IpGate
  imports IpRules RateLimit
begin

text \<open>
  The security middleware (\<open>src/app/security/middleware.py\<close>): client address resolution,
  the persistent allowlist, and the route limits, in front of the application. It composes
  the resolver of \<open>IpNet\<close>, the rules and the audit trail of \<open>IpRules\<close>, the limiter of
  \<open>RateLimit\<close> and the error responses of \<open>Errors\<close>. What the database may refuse is in the
  fault flags of a request; the limiter's store is any \<open>store_op\<close>.
\<close>

record security_settings =
  ss_allow :: allowlist_settings
  ss_trusted :: "network list"
  ss_prefix :: string
  ss_rate_enabled :: bool
  ss_rate_fail_closed :: bool
  ss_window :: int
  ss_admin_security_requests :: int
  ss_auth_requests :: int
  ss_resume_write_requests :: int

record http_request =
  hq_http :: bool
  hq_method :: string
  hq_path :: string
  hq_peer :: "string option"
  hq_headers :: "(string \<times> string) list"

text \<open>The session cannot be opened, the rule query raises, the audit row cannot be written.\<close>

record gate_faults =
  gf_session :: bool
  gf_query :: bool
  gf_audit :: bool

section \<open>The middleware\<close>

definition request_header :: "string \<Rightarrow> http_request \<Rightarrow> string option" where
  "request_header k rq = dget (hq_headers rq) k"

definition resolve_request_ip :: "security_settings \<Rightarrow> http_request \<Rightarrow> ip option" where
  "resolve_request_ip ss rq = resolve (ss_trusted ss) (hq_peer rq) None
     (Some (map snd (filter (\<lambda>h. lower (fst h) = ''x-forwarded-for'') (hq_headers rq))))"

definition access_denied :: app_error where
  "access_denied = app_error_of ''IP_ACCESS_DENIED'' ''Access is not permitted.'' 403"

definition record_request_event ::
  "gate_faults \<Rightarrow> nat \<Rightarrow> int \<Rightarrow> http_request \<Rightarrow> ip option \<Rightarrow> audit_type \<Rightarrow> (string, json) dict option \<Rightarrow>
   security_db \<Rightarrow> security_db" where
  "record_request_event fl eid now rq client_ip ty metadata db =
     (if gf_session fl \<or> gf_audit fl then db
      else add_audit_event eid now ty (audit_context None client_ip (request_header ''user-agent'' rq))
             (Some ''http_request'') None metadata db)"

definition allowlist_query :: "gate_faults \<Rightarrow> security_db \<Rightarrow> ip option \<Rightarrow> bool option" where
  "allowlist_query fl db client_ip =
     (if gf_session fl then None
      else case client_ip of
        None \<Rightarrow> Some False
      | Some a \<Rightarrow> if gf_query fl then None else rules_match db a None)"

definition bypassed :: "allowlist_settings \<Rightarrow> ip option \<Rightarrow> bool" where
  "bypassed cfg client_ip = (case client_ip of None \<Rightarrow> False | Some a \<Rightarrow> address_in_networks a (al_bypass cfg))"

definition enforce_allowlist ::
  "allowlist_settings \<Rightarrow> gate_faults \<Rightarrow> nat \<Rightarrow> int \<Rightarrow> http_request \<Rightarrow> ip option \<Rightarrow> security_db \<Rightarrow>
   app_error option \<times> security_db" where
  "enforce_allowlist cfg fl eid now rq client_ip db =
     (if bypassed cfg client_ip
      then (None, record_request_event fl eid now rq client_ip IP_EMERGENCY_BYPASS_USED None db)
      else case allowlist_query fl db client_ip of
        None \<Rightarrow> (if al_fail_closed cfg then Some access_denied else None, db)
      | Some True \<Rightarrow> (None, db)
      | Some False \<Rightarrow> (Some access_denied,
          record_request_event fl eid now rq client_ip IP_ACCESS_DENIED
            (Some [(''method'', JStr (hq_method rq))]) db))"

definition rate_policy :: "security_settings \<Rightarrow> string \<Rightarrow> string \<Rightarrow> (string \<times> int) option" where
  "rate_policy ss meth path =
     (let resumes_path = ss_prefix ss @ ''/resumes'' in
      if prefix (ss_prefix ss @ ''/admin/security'') path then Some (''admin-security'', ss_admin_security_requests ss)
      else if prefix (ss_prefix ss @ ''/auth'') path then Some (''authentication'', ss_auth_requests ss)
      else if meth = ''POST'' \<and> (path = resumes_path \<or> prefix (resumes_path @ ''/'') path \<and> suffix ''/replace'' path)
      then Some (''resume-write'', ss_resume_write_requests ss)
      else None)"

definition client_key :: "ip option \<Rightarrow> string" where
  "client_key client_ip = (case client_ip of None \<Rightarrow> ''unresolved'' | Some a \<Rightarrow> ip_str a)"

definition rate_unavailable :: app_error where
  "rate_unavailable = app_error_of ''RATE_LIMIT_UNAVAILABLE'' ''The service is temporarily unavailable.'' 503"

definition rate_limited :: "int \<Rightarrow> app_error" where
  "rate_limited seconds = (app_error_of ''RATE_LIMITED'' ''Too many requests.'' 429)
     \<lparr>ae_headers := Some [(''Retry-After'', int_str seconds)]\<rparr>"

definition enforce_rate_limit ::
  "security_settings \<Rightarrow> 's store_op \<Rightarrow> rat \<Rightarrow> http_request \<Rightarrow> ip option \<Rightarrow> bool \<Rightarrow> 's \<Rightarrow> app_error option \<times> 's" where
  "enforce_rate_limit ss store clock rq client_ip excluded st =
     (if \<not> ss_rate_enabled ss \<or> excluded then (None, st)
      else case rate_policy ss (hq_method rq) (hq_path rq) of
        None \<Rightarrow> (None, st)
      | Some (route_group, limit) \<Rightarrow>
          (case route_check store (ss_rate_fail_closed ss) st route_group (client_key client_ip) limit (ss_window ss) clock of
             (Inl _, st') \<Rightarrow> (Some rate_unavailable, st')
           | (Inr None, st') \<Rightarrow> (None, st')
           | (Inr (Some d), st') \<Rightarrow> (if allowed d then None else Some (rate_limited (retry_after_seconds d)), st')))"

datatype verdict = Passed | Forwarded "ip option" | Answered response

definition excluded_request :: "security_settings \<Rightarrow> http_request \<Rightarrow> bool" where
  "excluded_request ss rq \<longleftrightarrow> hq_method rq = ''OPTIONS'' \<or>
     hq_path rq = ss_prefix ss @ ''/health'' \<or> hq_path rq = ss_prefix ss @ ''/health/ready''"

text \<open>One request as the server delivers it: its faults, the identifier and time of an audit row,
  the limiter's clock and the correlation identifier the outer middleware left.\<close>

record arrival =
  ar_request :: http_request
  ar_faults :: gate_faults
  ar_event_id :: nat
  ar_now :: int
  ar_clock :: rat
  ar_request_id :: "string option"

definition answer_error :: "arrival \<Rightarrow> app_error \<Rightarrow> verdict" where
  "answer_error ar e = Answered (handle_exception (get_request_id (ar_request_id ar)) (Application e))"

definition allowlist_stage ::
  "security_settings \<Rightarrow> arrival \<Rightarrow> security_db \<Rightarrow> app_error option \<times> security_db" where
  "allowlist_stage ss ar db =
     (let rq = ar_request ar in
      if al_enabled (ss_allow ss) \<and> \<not> excluded_request ss rq
      then enforce_allowlist (ss_allow ss) (ar_faults ar) (ar_event_id ar) (ar_now ar) rq (resolve_request_ip ss rq) db
      else (None, db))"

definition gate ::
  "security_settings \<Rightarrow> 's store_op \<Rightarrow> arrival \<Rightarrow> security_db \<times> 's \<Rightarrow> verdict \<times> (security_db \<times> 's)" where
  "gate ss store ar w = (case w of (db, st) \<Rightarrow>
     (let rq = ar_request ar; client_ip = resolve_request_ip ss rq in
      if \<not> hq_http rq then (Passed, (db, st))
      else case allowlist_stage ss ar db of
        (Some e, db') \<Rightarrow> (answer_error ar e, (db', st))
      | (None, db') \<Rightarrow>
          (case enforce_rate_limit ss store (ar_clock ar) rq client_ip (excluded_request ss rq) st of
             (Some e, st') \<Rightarrow> (answer_error ar e, (db', st'))
           | (None, st') \<Rightarrow> (Forwarded client_ip, (db', st')))))"

fun gate_run ::
  "security_settings \<Rightarrow> 's store_op \<Rightarrow> arrival list \<Rightarrow> security_db \<times> 's \<Rightarrow> (arrival \<times> verdict) list \<times> (security_db \<times> 's)" where
  "gate_run ss store [] w = ([], w)"
| "gate_run ss store (ar # ars) w =
     (let (v, w1) = gate ss store ar w; (vs, w2) = gate_run ss store ars w1 in ((ar, v) # vs, w2))"

section \<open>Steps of the security tables\<close>

inductive security_step :: "allowlist_settings \<Rightarrow> security_db \<Rightarrow> security_db \<Rightarrow> bool" for cfg where
  create: "\<lbrakk>rid \<notin> ir_id ` set (ip_rules db);
     create_rule rid eid now ok actor ctx cidr label descr en db = (res, db')\<rbrakk> \<Longrightarrow> security_step cfg db db'"
| update: "update_rule cfg eid now ok ctx rid cidr label descr en cur db = (res, db') \<Longrightarrow> security_step cfg db db'"
| delete: "delete_rule cfg eid now ctx rid cur db = (res, db') \<Longrightarrow> security_step cfg db db'"
| request: "enforce_allowlist cfg fl eid now rq client_ip db = (res, db') \<Longrightarrow> security_step cfg db db'"

inductive security_steps :: "allowlist_settings \<Rightarrow> security_db \<Rightarrow> security_db \<Rightarrow> bool" for cfg where
  start: "security_steps cfg db db"
| advance: "\<lbrakk>security_steps cfg db db1; security_step cfg db1 db2\<rbrakk> \<Longrightarrow> security_steps cfg db db2"

definition audit_extends :: "security_db \<Rightarrow> security_db \<Rightarrow> bool" where
  "audit_extends db db' \<longleftrightarrow> (\<exists>new. audit_events db' = audit_events db @ new \<and> list_all event_safe new)"

lemma audit_extends_refl [simp]: "audit_extends db db"
  by (simp add: audit_extends_def)

lemma audit_extends_trans: "\<lbrakk>audit_extends a b; audit_extends b c\<rbrakk> \<Longrightarrow> audit_extends a c"
  by (auto simp: audit_extends_def)

lemma audit_extends_add: "audit_events db0 = audit_events db \<Longrightarrow>
   audit_extends db (add_audit_event eid now ty ctx rt ri md db0)"
  using add_audit_event_appends[of eid now ty ctx rt ri md db0] by (auto simp: audit_extends_def)

lemma record_request_event_rules [simp]: "ip_rules (record_request_event fl eid now rq ip ty md db) = ip_rules db"
  by (simp add: record_request_event_def)

lemma record_request_event_extends [simp]: "audit_extends db (record_request_event fl eid now rq ip ty md db)"
  by (simp add: record_request_event_def audit_extends_add)

lemma enforce_allowlist_keeps:
  "enforce_allowlist cfg fl eid now rq ip db = (res, db') \<Longrightarrow> ip_rules db' = ip_rules db \<and> audit_extends db db'"
  by (auto simp: enforce_allowlist_def split: if_splits option.splits bool.splits)

lemma store_rule_events [simp]: "audit_events (store_rule r db) = audit_events db"
  by (simp add: store_rule_def)

lemma rules_wf_cong: "ip_rules a = ip_rules b \<Longrightarrow> rules_wf a = rules_wf b"
  by (simp add: rules_wf_def)

lemma security_step_safe:
  "\<lbrakk>security_step cfg db db'; rules_wf db\<rbrakk> \<Longrightarrow> rules_wf db' \<and> audit_extends db db'"
proof (induction rule: security_step.induct)
  case (create rid db eid now ok actor ctx cidr label descr en res db')
  have "audit_extends db db'" using create(2)
    by (cases rule: create_ruleE) (simp_all add: audit_extends_add)
  then show ?case using create_rule_wf[OF create(2,3,1)] by simp
next
  case (update eid now ok ctx rid cidr label descr en cur db res db')
  have "audit_extends db db'" using update(1)
    by (cases rule: update_ruleE) (simp_all add: audit_extends_add)
  then show ?case using update_rule_wf[OF update] by simp
next
  case (delete eid now ctx rid cur db res db')
  have "audit_extends db db'" using delete(1)
  proof (cases rule: delete_ruleE)
    case (deleted rule)
    then show ?thesis
      using audit_extends_add[OF refl, of db eid now IP_RULE_DELETED ctx "Some ''ip_access_rule''" "Some rid"]
      by (simp add: audit_extends_def)
  qed simp
  then show ?case using delete_rule_wf[OF delete] by simp
next
  case (request fl eid now rq client_ip db res db')
  then show ?case using enforce_allowlist_keeps rules_wf_cong by blast
qed

section \<open>Lemmas on admission\<close>

lemma rules_match_admits: "inet_castable a \<Longrightarrow> rules_match db a None = Some (admits (ip_rules db) a)"
  by (simp add: rules_match_def admits_def list_ex_iff)

lemma admits_add: "admits (xs @ ys) a \<longleftrightarrow> admits xs a \<or> admits ys a"
  by (auto simp: admits_def)

lemma admits_mono: "\<lbrakk>set xs \<subseteq> set ys; admits xs a\<rbrakk> \<Longrightarrow> admits ys a"
  by (auto simp: admits_def)

lemma update_keeps_access:
  assumes "update_rule cfg eid now ok ctx rid cidr label descr en cur db = (Inr r', db')"
    "rules_wf db" "al_enabled cfg"
  obtains a where "cur = Some a" "bypassed cfg cur \<or> admits (ip_rules db') a"
  using assms(1)
proof (cases rule: update_ruleE)
  case (updated rule t ne ty)
  have r: "rule \<in> set (ip_rules db)" "ir_id rule = rid" using get_rule_SomeD[OF updated(1)] by auto
  then have "canonical_cidr (ir_cidr rule)" using assms(2) by (simp add: rules_wf_def)
  then have "canonical_cidr t" using next_cidr_canonical updated(2) by blast
  then obtain a where a: "cur = Some a" "address_in_networks a (al_bypass cfg) \<or>
      admits (filter (\<lambda>r. ir_id r \<noteq> rid) (ip_rules db)) a \<or> (ne \<and> cidr_contains t a)"
    using guard_lockout_passes[OF assms(2) _ updated(4) assms(3)] by blast
  let ?new = "updated_rule t label descr ne rule"
  have rules: "ip_rules db' = ip_rules (store_rule ?new db)" using updated(8) by simp
  have "set (filter (\<lambda>r. ir_id r \<noteq> rid) (ip_rules db)) \<subseteq> set (ip_rules db')"
    using store_rule_others[of ?new db] r(2) unfolding rules by (metis filter_is_subset updated_rule_simps(1))
  moreover have "?new \<in> set (ip_rules db')" using r unfolding rules by (force simp: store_rule_def)
  then have "admits (ip_rules db') a" if "ne" "cidr_contains t a"
    using that unfolding admits_def by (intro bexI[of _ ?new]) simp_all
  ultimately show thesis using that a admits_mono by (metis bypassed_def option.simps(5))
qed simp

lemma delete_keeps_access:
  assumes "delete_rule cfg eid now ctx rid cur db = (Inr u, db')" "rules_wf db" "al_enabled cfg"
  obtains a where "cur = Some a" "bypassed cfg cur \<or> admits (ip_rules db') a"
  using assms(1)
proof (cases rule: delete_ruleE)
  case (deleted rule)
  have "rule \<in> set (ip_rules db)" using get_rule_SomeD[OF deleted(1)] by auto
  then have "canonical_cidr (ir_cidr rule)" using assms(2) by (simp add: rules_wf_def)
  then show thesis using guard_lockout_passes[OF assms(2) _ deleted(3) assms(3)] that deleted(4)
    by (metis bypassed_def option.simps(5))
qed simp

lemma allowed_by_rules:
  assumes "bypassed cfg (Some a) \<or> admits (ip_rules db) a" "inet_castable a" "\<not> gf_session fl" "\<not> gf_query fl"
  shows "fst (enforce_allowlist cfg fl eid now rq (Some a) db) = None"
  using assms rules_match_admits[of a db] by (auto simp: enforce_allowlist_def allowlist_query_def)

section \<open>The limiter behind the gate\<close>

definition limiter_request :: "security_settings \<Rightarrow> arrival \<Rightarrow> request option" where
  "limiter_request ss ar = (let rq = ar_request ar in
     if \<not> hq_http rq \<or> \<not> ss_rate_enabled ss \<or> excluded_request ss rq then None
     else map_option (\<lambda>(g, l). \<lparr>rq_group = g, rq_client = client_key (resolve_request_ip ss rq), rq_limit = l,
             rq_window = ss_window ss, rq_time = ar_clock ar\<rparr>) (rate_policy ss (hq_method rq) (hq_path rq)))"

definition limited_requests :: "security_settings \<Rightarrow> security_db \<Rightarrow> arrival list \<Rightarrow> request list" where
  "limited_requests ss db ars =
     List.map_filter (limiter_request ss) (filter (\<lambda>ar. fst (allowlist_stage ss ar db) = None) ars)"

fun is_forwarded :: "verdict \<Rightarrow> bool" where
  "is_forwarded (Forwarded _) \<longleftrightarrow> True"
| "is_forwarded _ \<longleftrightarrow> False"

definition has_key :: "security_settings \<Rightarrow> string \<Rightarrow> arrival \<Rightarrow> bool" where
  "has_key ss k ar \<longleftrightarrow> map_option rq_key (limiter_request ss ar) = Some k"

definition forwarded_for :: "security_settings \<Rightarrow> string \<Rightarrow> (arrival \<times> verdict) list \<Rightarrow> nat" where
  "forwarded_for ss k vs = length (filter (\<lambda>(ar, v). has_key ss k ar \<and> is_forwarded v) vs)"

lemma allowlist_verdict_cong:
  "ip_rules a = ip_rules b \<Longrightarrow> fst (allowlist_stage ss ar a) = fst (allowlist_stage ss ar b)"
  by (auto simp: allowlist_stage_def enforce_allowlist_def allowlist_query_def rules_match_def Let_def
      split: option.splits bool.splits)

lemma allowlist_stage_rules: "ip_rules (snd (allowlist_stage ss ar db)) = ip_rules db"
  by (auto simp: allowlist_stage_def enforce_allowlist_def Let_def split: option.splits bool.splits)

lemma limited_requests_cong: "ip_rules a = ip_rules b \<Longrightarrow> limited_requests ss a ars = limited_requests ss b ars"
  by (simp add: limited_requests_def allowlist_verdict_cong[of a b])

lemma is_forwarded_answer [simp]: "\<not> is_forwarded (answer_error ar e)"
  by (simp add: answer_error_def)

lemma gate_refused:
  "\<lbrakk>hq_http (ar_request ar); fst (allowlist_stage ss ar db) = Some e\<rbrakk> \<Longrightarrow>
   gate ss store ar (db, st) = (answer_error ar e, (snd (allowlist_stage ss ar db), st))"
  by (cases "allowlist_stage ss ar db") (simp add: gate_def)

lemma gate_unlimited:
  "\<lbrakk>fst (allowlist_stage ss ar db) = None; limiter_request ss ar = None\<rbrakk> \<Longrightarrow>
   snd (snd (gate ss store ar (db, st))) = st"
  by (cases "allowlist_stage ss ar db")
     (auto simp: gate_def limiter_request_def enforce_rate_limit_def Let_def split: option.splits if_splits)

lemma bounded_decision: "\<exists>d. route_check bounded_op fc st g c l w t = (Inr (Some d), snd (consume st (route_key g c) l w t))"
  by (simp add: route_check_def bounded_op_def split: prod.splits)

lemma gate_limited:
  assumes "fst (allowlist_stage ss ar db) = None" "limiter_request ss ar = Some r"
  shows "snd (snd (gate ss bounded_op ar (db, st))) = snd (bounded_op st (rq_key r) (rq_limit r) (rq_window r) (rq_time r))"
    and "is_forwarded (fst (gate ss bounded_op ar (db, st))) \<longleftrightarrow>
      is_admitted (fst (route_check bounded_op (ss_rate_fail_closed ss) st (rq_group r) (rq_client r)
        (rq_limit r) (rq_window r) (rq_time r)))"
proof -
  let ?rq = "ar_request ar"
  obtain g l where gl: "rate_policy ss (hq_method ?rq) (hq_path ?rq) = Some (g, l)" and on: "hq_http ?rq"
      "ss_rate_enabled ss" "\<not> excluded_request ss ?rq"
    and r: "r = \<lparr>rq_group = g, rq_client = client_key (resolve_request_ip ss ?rq), rq_limit = l,
             rq_window = ss_window ss, rq_time = ar_clock ar\<rparr>"
    using assms(2) by (auto simp: limiter_request_def Let_def split: if_splits)
  obtain d where d: "route_check bounded_op (ss_rate_fail_closed ss) st g (client_key (resolve_request_ip ss ?rq)) l
      (ss_window ss) (ar_clock ar) = (Inr (Some d), snd (consume st (rq_key r) l (ss_window ss) (ar_clock ar)))"
    using bounded_decision[of "ss_rate_fail_closed ss" st g "client_key (resolve_request_ip ss ?rq)" l "ss_window ss" "ar_clock ar"] r
    by (auto simp: rq_key_def)
  show "snd (snd (gate ss bounded_op ar (db, st))) = snd (bounded_op st (rq_key r) (rq_limit r) (rq_window r) (rq_time r))"
    using assms(1) on gl d r by (cases "allowlist_stage ss ar db") (simp add: gate_def enforce_rate_limit_def Let_def)
  show "is_forwarded (fst (gate ss bounded_op ar (db, st))) \<longleftrightarrow>
      is_admitted (fst (route_check bounded_op (ss_rate_fail_closed ss) st (rq_group r) (rq_client r)
        (rq_limit r) (rq_window r) (rq_time r)))"
    using assms(1) on gl d r
    by (cases "allowlist_stage ss ar db") (simp add: gate_def enforce_rate_limit_def Let_def is_admitted_def)
qed

lemma gate_rules: "ip_rules (fst (snd (gate ss store ar (db, st)))) = ip_rules db"
  using allowlist_stage_rules[of ss ar db]
  by (auto simp: gate_def Let_def split: prod.splits option.splits)

lemma limited_requests_Cons:
  "limited_requests ss db (ar # ars) =
     (if fst (allowlist_stage ss ar db) = None
      then (case limiter_request ss ar of None \<Rightarrow> [] | Some r \<Rightarrow> [r]) else []) @ limited_requests ss db ars"
  by (simp add: limited_requests_def map_filter_simps split: option.splits)

lemma forwarded_Cons:
  "forwarded_for ss k (fst (gate_run ss store (ar # ars) w)) =
     (if has_key ss k ar \<and> is_forwarded (fst (gate ss store ar w)) then 1 else 0) +
     forwarded_for ss k (fst (gate_run ss store ars (snd (gate ss store ar w))))"
  by (simp add: forwarded_for_def split: prod.splits)

text \<open>What the gate lets through of a key is what the limiter admits of the requests that reach it.\<close>

lemma forwarded_admitted:
  "forwarded_for ss k (fst (gate_run ss bounded_op ars (db, st))) =
   admitted_for k (fst (check_run bounded_op (ss_rate_fail_closed ss) st (limited_requests ss db ars)))"
proof (induction ars arbitrary: db st)
  case Nil
  then show ?case by (simp add: forwarded_for_def admitted_for_def limited_requests_def map_filter_simps)
next
  case (Cons ar ars)
  let ?w = "snd (gate ss bounded_op ar (db, st))"
  have db: "limited_requests ss (fst ?w) ars = limited_requests ss db ars"
    by (rule limited_requests_cong) (rule gate_rules)
  have IH: "forwarded_for ss k (fst (gate_run ss bounded_op ars ?w)) =
      admitted_for k (fst (check_run bounded_op (ss_rate_fail_closed ss) (snd ?w) (limited_requests ss db ars)))"
    using Cons.IH[of "fst ?w" "snd ?w"] db by simp
  show ?case
  proof (cases "limiter_request ss ar")
    case None
    then have "\<not> has_key ss k ar" by (simp add: has_key_def)
    moreover have "snd ?w = st"
    proof (cases "hq_http (ar_request ar) \<and> fst (allowlist_stage ss ar db) \<noteq> None")
      case True
      then obtain e where "fst (allowlist_stage ss ar db) = Some e" by auto
      then show ?thesis using gate_refused[of ar ss db e bounded_op st] True by simp
    next
      case False
      then show ?thesis using gate_unlimited[OF _ None] by (auto simp: gate_def)
    qed
    ultimately show ?thesis using IH None by (simp add: forwarded_Cons limited_requests_Cons del: gate_run.simps)
  next
    case (Some r)
    then have http: "hq_http (ar_request ar)" by (auto simp: limiter_request_def Let_def split: if_splits)
    show ?thesis
    proof (cases "fst (allowlist_stage ss ar db)")
      case None
      then show ?thesis using gate_limited[OF None Some, of st] IH Some
        by (simp add: forwarded_Cons limited_requests_Cons bounded.admitted_Cons has_key_def
            del: gate_run.simps check_run.simps)
    next
      case (Some e)
      then show ?thesis using gate_refused[OF http Some, of bounded_op st] IH
        by (simp add: forwarded_Cons limited_requests_Cons del: gate_run.simps)
    qed
  qed
qed

section \<open>Properties\<close>

text \<open>C21: whatever administrators and requests do to the security tables, rule identifiers
  and networks stay unique and every stored network is its canonical text, so the unique
  index really forbids two spellings of one network; the audit trail only grows, and every
  row added to it is bounded and redacted: at most 16 metadata entries with keys of at most
  64 characters, no key or text that mentions credentials, no nested value.\<close>

theorem security_tables_consistent:
  assumes "security_steps cfg db db'" "rules_wf db"
  shows "rules_wf db' \<and> audit_extends db db'"
  using assms
proof (induction rule: security_steps.induct)
  case (advance db db1 db2)
  then show ?case using security_step_safe audit_extends_trans by blast
qed simp

definition sample_rules :: security_db where
  "sample_rules = \<lparr>ip_rules = [\<lparr>ir_id = 1, ir_cidr = ''10.0.0.0/8'', ir_label = ''office'', ir_description = None,
     ir_enabled = True, ir_created_by = 7, ir_created_at = 0\<rparr>], audit_events = []\<rparr>"

definition sample_ctx :: audit_ctx where
  "sample_ctx = \<lparr>ac_actor = Some 7, ac_request_ip = Some ''10.1.2.3'', ac_user_agent = Some ''curl/8''\<rparr>"

lemma sample_rules_wf: "rules_wf sample_rules"
proof -
  have "map_option network_str (normalize_network ''10.0.0.0/8'') = Some ''10.0.0.0/8''" by code_simp
  then show ?thesis by (simp add: rules_wf_def sample_rules_def canonical_cidr_def)
qed

definition sample_created :: security_db where
  "sample_created = snd (create_rule 2 1 50 True 7 sample_ctx ''::ffff:192.168.1.9/120'' ''vpn'' None True sample_rules)"

lemma sample_created_rules: "map ir_cidr (ip_rules sample_created) = [''10.0.0.0/8'', ''192.168.1.0/24'']"
  by code_simp

theorem security_tables_consistent_witness:
  "rules_wf sample_created \<and> audit_extends sample_rules sample_created"
proof -
  have "security_step cfg sample_rules sample_created" for cfg
    unfolding sample_created_def
    by (rule security_step.create[where rid = 2, OF _ prod.collapse[symmetric]]) (simp add: sample_rules_def)
  then have "security_steps undefined sample_rules sample_created" using security_steps.intros by blast
  then show ?thesis using security_tables_consistent sample_rules_wf by blast
qed

text \<open>C10: with the allowlist on, no accepted change of the rules locks out the administrator who
  made it: after a successful update or deletion the caller's own address is known and the
  middleware lets its next request through, whichever rule was narrowed, disabled or
  deleted.\<close>

theorem rule_changes_never_lock_out:
  assumes "rules_wf db" "al_enabled cfg"
    and "(\<exists>ok cidr label descr en r. update_rule cfg eid now ok ctx rid cidr label descr en cur db = (Inr r, db')) \<or>
         delete_rule cfg eid now ctx rid cur db = (Inr (), db')"
    and "opt_ok inet_castable cur" "\<not> gf_session fl" "\<not> gf_query fl"
  shows "cur \<noteq> None \<and> fst (enforce_allowlist cfg fl eid' now' rq cur db') = None"
proof -
  obtain a where "cur = Some a" "bypassed cfg cur \<or> admits (ip_rules db') a"
    using assms(3) update_keeps_access[OF _ assms(1,2)] delete_keeps_access[OF _ assms(1,2)] by metis
  then show ?thesis using allowed_by_rules assms(4-) by (simp add: opt_ok_def)
qed

definition sample_allow :: allowlist_settings where
  "sample_allow = \<lparr>al_enabled = True, al_fail_closed = True, al_bypass = []\<rparr>"

theorem rule_changes_never_lock_out_witness:
  "fst (enforce_allowlist sample_allow \<lparr>gf_session = False, gf_query = False, gf_audit = True\<rparr> 0 0 undefined
     (Some (V4 0x0A010203)) (snd (delete_rule sample_allow 9 60 sample_ctx 2 (Some (V4 0x0A010203)) sample_created))) = None"
proof -
  have "fst (delete_rule sample_allow 9 60 sample_ctx 2 (Some (V4 0x0A010203)) sample_created) = Inr ()"
    by code_simp
  then have "delete_rule sample_allow 9 60 sample_ctx 2 (Some (V4 0x0A010203)) sample_created =
     (Inr (), snd (delete_rule sample_allow 9 60 sample_ctx 2 (Some (V4 0x0A010203)) sample_created))"
    by (metis prod.collapse)
  moreover have "rules_wf sample_created" unfolding sample_created_def
    by (rule create_rule_wf[OF prod.collapse[symmetric] sample_rules_wf]) (simp add: sample_rules_def)
  ultimately show ?thesis
    using rule_changes_never_lock_out[of sample_created sample_allow 9 60 sample_ctx 2 "Some (V4 0x0A010203)"]
    by (simp add: sample_allow_def opt_ok_def)
qed

text \<open>C3: with the allowlist on, the only requests that reach the application from anywhere are the
  ones the middleware excludes, preflights and the two health probes, and connections that are
  not HTTP; they change nothing in the gate. Any other request reaches the application only from an
  emergency address, or from a resolved address that some enabled rule contains, or when the
  database could not answer and the service is configured to fail open; every other one is
  answered 403 with a fixed text, and spends none of the limiter's budget.\<close>

theorem gate_admits_only_listed:
  assumes "al_enabled (ss_allow ss)"
  shows "let ip = resolve_request_ip ss (ar_request ar); (v, w) = gate ss store ar (db, st) in
    if \<not> hq_http (ar_request ar) then v = Passed \<and> w = (db, st)
    else if hq_method (ar_request ar) = ''OPTIONS'' \<or>
      hq_path (ar_request ar) \<in> {ss_prefix ss @ ''/health'', ss_prefix ss @ ''/health/ready''}
    then v = Forwarded ip \<and> w = (db, st)
    else if bypassed (ss_allow ss) ip \<or> (\<exists>a. ip = Some a \<and> inet_castable a \<and> admits (ip_rules db) a \<and>
          \<not> gf_session (ar_faults ar) \<and> \<not> gf_query (ar_faults ar)) \<or>
       \<not> al_fail_closed (ss_allow ss) \<and> allowlist_query (ar_faults ar) db ip = None
    then is_forwarded v = (fst (enforce_rate_limit ss store (ar_clock ar) (ar_request ar) ip False st) = None)
    else v = answer_error ar access_denied \<and> snd w = st"
proof -
  let ?ip = "resolve_request_ip ss (ar_request ar)"
  let ?excluded = "hq_method (ar_request ar) = ''OPTIONS'' \<or>
      hq_path (ar_request ar) \<in> {ss_prefix ss @ ''/health'', ss_prefix ss @ ''/health/ready''}"
  let ?allowed = "bypassed (ss_allow ss) ?ip \<or> (\<exists>a. ?ip = Some a \<and> inet_castable a \<and> admits (ip_rules db) a \<and>
      \<not> gf_session (ar_faults ar) \<and> \<not> gf_query (ar_faults ar)) \<or>
    \<not> al_fail_closed (ss_allow ss) \<and> allowlist_query (ar_faults ar) db ?ip = None"
  have ex: "excluded_request ss (ar_request ar) \<longleftrightarrow> ?excluded" by (simp add: excluded_request_def)
  have q: "allowlist_query (ar_faults ar) db ?ip = Some True \<longleftrightarrow> (\<exists>a. ?ip = Some a \<and> inet_castable a \<and>
      admits (ip_rules db) a \<and> \<not> gf_session (ar_faults ar) \<and> \<not> gf_query (ar_faults ar))"
    by (auto simp: allowlist_query_def admits_def list_ex_iff rules_match_def split: option.splits if_splits)
  show ?thesis
  proof (cases "hq_http (ar_request ar)")
    case False
    then show ?thesis by (simp add: gate_def)
  next
    case http: True
    show ?thesis
    proof (cases ?excluded)
      case True
      then have "excluded_request ss (ar_request ar)" using ex by blast
      then have "gate ss store ar (db, st) = (Forwarded ?ip, (db, st))"
        using http by (simp add: gate_def allowlist_stage_def enforce_rate_limit_def)
      then show ?thesis using http True by simp
    next
      case nx: False
      then have not_ex: "\<not> excluded_request ss (ar_request ar)" using ex by blast
      have stage: "fst (allowlist_stage ss ar db) = (if ?allowed then None else Some access_denied)"
        using assms not_ex q by (auto simp: allowlist_stage_def enforce_allowlist_def Let_def split: option.splits bool.splits)
      show ?thesis
      proof (cases ?allowed)
        case True
        then have "fst (allowlist_stage ss ar db) = None" using stage by simp
        then have "is_forwarded (fst (gate ss store ar (db, st))) =
            (fst (enforce_rate_limit ss store (ar_clock ar) (ar_request ar) ?ip False st) = None)"
          using not_ex http by (cases "allowlist_stage ss ar db") (auto simp: gate_def Let_def split: option.splits prod.splits)
        then show ?thesis using http nx True by (simp add: split_beta Let_def)
      next
        case False
        then have "fst (allowlist_stage ss ar db) = Some access_denied" using stage by simp
        then have r: "gate ss store ar (db, st) = (answer_error ar access_denied, (snd (allowlist_stage ss ar db), st))"
          by (rule gate_refused[OF http])
        show ?thesis unfolding Let_def r prod.case if_not_P[OF False] if_not_P[OF nx] using http by simp
      qed
    qed
  qed
qed

definition sample_security :: security_settings where
  "sample_security = \<lparr>ss_allow = sample_allow, ss_trusted = [], ss_prefix = ''/api/v1'', ss_rate_enabled = True,
     ss_rate_fail_closed = True, ss_window = 60, ss_admin_security_requests = 30, ss_auth_requests = 2,
     ss_resume_write_requests = 10\<rparr>"

definition sample_arrival :: "string \<Rightarrow> rat \<Rightarrow> arrival" where
  "sample_arrival peer clock = \<lparr>ar_request = \<lparr>hq_http = True, hq_method = ''POST'', hq_path = ''/api/v1/auth/session'',
     hq_peer = Some peer, hq_headers = []\<rparr>, ar_faults = \<lparr>gf_session = False, gf_query = False, gf_audit = False\<rparr>,
     ar_event_id = 5, ar_now = 90, ar_clock = clock, ar_request_id = None\<rparr>"

theorem gate_admits_only_listed_witness:
  "fst (gate sample_security bounded_op (sample_arrival ''11.0.0.1'' 0) (sample_rules, new_store 5)) =
     answer_error (sample_arrival ''11.0.0.1'' 0) access_denied"
proof -
  let ?ar = "sample_arrival ''11.0.0.1'' 0"
  have ip: "resolve_request_ip sample_security (ar_request ?ar) = Some (V4 0x0B000001)" by code_simp
  have "\<not> cidr_contains ''10.0.0.0/8'' (V4 0x0B000001)" by code_simp
  moreover have "hq_http (ar_request ?ar)" "al_enabled (ss_allow sample_security)"
    "\<not> excluded_request sample_security (ar_request ?ar)" by code_simp+
  moreover have "\<not> bypassed (ss_allow sample_security) (Some (V4 0x0B000001))" "al_fail_closed (ss_allow sample_security)"
    by code_simp+
  ultimately show ?thesis
    using gate_admits_only_listed[of sample_security ?ar bounded_op sample_rules "new_store 5"] ip
    by (auto simp: admits_def sample_rules_def excluded_request_def split: prod.splits)
qed

text \<open>C20: the gate enforces the configured rate: of all the requests in one window that carry
  one limiter key (route group and resolved address), however they interleave with others,
  whatever the allowlist does to them and whatever the store held before, at most the configured
  number is forwarded to the application, and no fewer than that while enough of them pass
  the allowlist. The store must have room for the keys requested in that window: a store with
  less evicts a counter that is still running (\<open>eviction_forgets_window\<close>).\<close>

theorem gate_enforces_rate:
  assumes "limited_requests ss db ars = r0 # rs"
    and "dict_wf (entries st)" "card (rq_key ` set (r0 # rs)) \<le> max_keys st"
    and "\<forall>r \<in> set (r0 # rs). rq_key r = rq_key r0 \<longrightarrow> rq_limit r = l \<and> rq_window r = w"
    and "\<forall>r \<in> set rs. rq_time r - rq_time r0 < of_int w" "sorted (map rq_time (r0 # rs))"
    and "live_window st (rq_key r0) w (rq_time r0) = None"
  shows "int (forwarded_for ss (rq_key r0) (fst (gate_run ss bounded_op ars (db, st)))) =
     max 0 (min (int (requests_for (rq_key r0) (r0 # rs))) l)"
proof -
  have "store_fits (rq_key ` set (r0 # rs)) st" using assms(2,3) by (simp add: store_fits_def)
  moreover have "\<forall>r \<in> set (r0 # rs). rq_key r \<in> rq_key ` set (r0 # rs)" by blast
  ultimately show ?thesis unfolding forwarded_admitted assms(1) using assms(4-) by (rule bounded.admits_window)
qed

theorem gate_enforces_rate_witness:
  "int (forwarded_for sample_security ''authentication:10.0.0.1''
     (fst (gate_run sample_security bounded_op (map (sample_arrival ''10.0.0.1'') [0, 1, 2, 3]) (sample_rules, new_store 5)))) = 2"
proof -
  let ?r = "\<lambda>t. \<lparr>rq_group = ''authentication'', rq_client = ''10.0.0.1'', rq_limit = 2, rq_window = 60, rq_time = t\<rparr>"
  have reqs: "limited_requests sample_security sample_rules (map (sample_arrival ''10.0.0.1'') [0, 1, 2, 3]) =
      ?r 0 # [?r 1, ?r 2, ?r 3]" by code_simp
  have none: "live_window (new_store 5) ''authentication:10.0.0.1'' 60 0 = None" by code_simp
  have k: "rq_key (?r t) = ''authentication:10.0.0.1''" for t by (simp add: rq_key_def route_key_def)
  show ?thesis
    using gate_enforces_rate[OF reqs, of "new_store 5" 2 60] none
    by (simp add: k requests_for_def new_store_def dict_wf_def del: gate_run.simps)
qed

text \<open>With one slot, a request from another address makes the store forget a window that is still
  running: the same client is admitted three times where the limit is two.\<close>

lemma eviction_forgets_window:
  "let ars = [sample_arrival ''10.0.0.1'' 0, sample_arrival ''10.0.0.1'' 1, sample_arrival ''10.0.0.2'' 2, sample_arrival ''10.0.0.1'' 3] in
   forwarded_for sample_security ''authentication:10.0.0.1'' (fst (gate_run sample_security bounded_op ars (sample_rules, new_store 1))) = 3"
  by code_simp

end
