(* ===== verification/Salary.thy ===== *)
theory Salary
  imports Regex Complex_Main
begin

text \<open>
  \<open>src/app/jobs/parsing/salary.py\<close>: extraction of a salary range or a single salary from
  free text. \<open>Decimal\<close> amounts are exact rationals. The euro sign and the typographic
  dashes of the patterns lie outside the 8-bit characters of the model and are left out
  of the character sets; the pound sign is character 0xA3.
\<close>

definition currency_map :: "(string, string) dict" where
  "currency_map = [(''$'', ''USD''), (''usd'', ''USD''), (''cad'', ''CAD''), (''c$'', ''CAD''),
     ([CHR 0xA3], ''GBP''), (''gbp'', ''GBP''), (''eur'', ''EUR'')]"

definition period_map :: "(string, string) dict" where
  "period_map = [(''year'', ''year''), (''yr'', ''year''), (''annually'', ''year''),
     (''annual'', ''year''), (''per year'', ''year''), (''p.a.'', ''year''), (''pa'', ''year''),
     (''hour'', ''hour''), (''hr'', ''hour''), (''hourly'', ''hour''), (''per hour'', ''hour''),
     (''month'', ''month''), (''mo'', ''month''), (''monthly'', ''month''), (''per month'', ''month''),
     (''day'', ''day''), (''daily'', ''day''), (''per day'', ''day''),
     (''week'', ''week''), (''weekly'', ''week''), (''per week'', ''week'')]"

section \<open>The patterns\<close>

definition rx_codes :: rx where
  "rx_codes = ralts (map rlit_ci [''USD'', ''CAD'', ''GBP'', ''EUR''])"

definition rx_currency :: rx where
  "rx_currency = ralts (RSet (\<lambda>c. c = CHR ''$'' \<or> c = CHR 0xA3) # map rlit_ci [''USD'', ''CAD'', ''GBP'', ''EUR''])"

definition rx_cents :: rx where
  "rx_cents = ropt (rseq [rchar (CHR ''.''), rrange 1 2 rdigit])"

definition rx_amount :: rx where
  "rx_amount = RAlt
     (rseq [rrange 1 3 rdigit, RStar (RSeq (rchar (CHR '','')) (rtimes 3 rdigit)), rx_cents])
     (RSeq (rplus rdigit) rx_cents)"

definition rx_period :: rx where
  "rx_period = ralts (map rlit_ci [''year'', ''yr'', ''annually'', ''annual'', ''hour'', ''hr'',
     ''hourly'', ''month'', ''mo'', ''monthly'', ''day'', ''week''])"

definition rx_period_adv :: rx where
  "rx_period_adv = ralts (map rlit_ci [''annually'', ''annual'', ''hourly'', ''monthly'', ''daily'', ''weekly''])"

definition rx_per :: rx where
  "rx_per = RSeq (ralts [rlit_ci ''per'', rchar (CHR ''/''), rchar_ci (CHR ''a'')])
     (RSeq rspaces (RGroup ''period'' rx_period))"

definition rx_k :: "string \<Rightarrow> rx" where
  "rx_k n = ropt (RGroup n (rchar_ci (CHR ''k'')))"

definition salary_range_rx :: rx where
  "salary_range_rx = rseq
     [ropt (RGroup ''curr'' rx_currency), rspaces,
      RGroup ''min'' rx_amount, rspaces, rx_k ''min_k'', rspaces,
      RAlt (rchar (CHR ''-'')) (rlit_ci ''to''), rspaces,
      ropt (RGroup ''curr2'' rx_currency), rspaces,
      RGroup ''max'' rx_amount, rspaces, rx_k ''max_k'', rspaces,
      ropt (RSeq (RGroup ''curr3'' rx_codes) RWordB),
      ropt (RSeq rspaces rx_per)]"

definition salary_single_rx :: rx where
  "salary_single_rx = rseq
     [ropt (RGroup ''curr'' rx_currency), rspaces,
      RGroup ''amount'' rx_amount, rspaces, rx_k ''k'', rspaces,
      ropt (RSeq (RGroup ''curr2'' rx_codes) RWordB),
      ropt (RSeq rspaces (RAlt rx_per (RGroup ''period_adv'' rx_period_adv)))]"

section \<open>Amounts and periods\<close>

definition drop_commas :: "string \<Rightarrow> string" where
  "drop_commas s = filter (\<lambda>c. c \<noteq> CHR '','') s"

text \<open>\<open>Decimal(s)\<close> on plain decimal numerals; \<open>None\<close> is \<open>InvalidOperation\<close>.\<close>

definition parse_decimal :: "string \<Rightarrow> rat option" where
  "parse_decimal s =
     (case split_on (CHR ''.'') s of
        [a] \<Rightarrow> if a \<noteq> [] \<and> list_all is_digit a then Some (of_nat (nat_of_digits a)) else None
      | [a, b] \<Rightarrow> if a @ b \<noteq> [] \<and> list_all is_digit (a @ b)
                  then Some (of_nat (nat_of_digits (a @ b)) / 10 ^ length b) else None
      | _ \<Rightarrow> None)"

definition parse_amount :: "string \<Rightarrow> bool \<Rightarrow> rat option" where
  "parse_amount raw_str has_k =
     map_option (\<lambda>v. if has_k then v * 1000 else v) (parse_decimal (strip (drop_commas raw_str)))"

definition detect_period :: "string option \<Rightarrow> rat option \<Rightarrow> string option" where
  "detect_period period_raw amount_hint =
     (let by_hint = (case amount_hint of
          None \<Rightarrow> None
        | Some a \<Rightarrow> if a \<ge> 20000 then Some ''year'' else if a \<le> 300 then Some ''hour'' else None) in
      case period_raw of
        Some (c # cs) \<Rightarrow>
          (case dget period_map (strip (lower (c # cs))) of Some p \<Rightarrow> Some p | None \<Rightarrow> by_hint)
      | _ \<Rightarrow> by_hint)"

section \<open>\<open>parse_salary\<close>\<close>

record salary =
  sal_min :: rat
  sal_max :: rat
  sal_currency :: string
  sal_period :: "string option"
  sal_text :: string

definition group_or :: "hit \<Rightarrow> string list \<Rightarrow> string option" where
  "group_or h ns = first_some (\<lambda>n. if has_grp h n then grp h n else None) ns"

definition currency_of :: "hit \<Rightarrow> string list \<Rightarrow> string" where
  "currency_of h ns =
     (let raw = (case group_or h ns of Some c \<Rightarrow> c | None \<Rightarrow> ''$'') in
      case dget currency_map (lower raw) of Some c \<Rightarrow> c | None \<Rightarrow> ''USD'')"

definition experience_tail :: "string \<Rightarrow> bool" where
  "experience_tail tail = (let t = lower (lstrip (take 25 tail)) in
     list_ex (\<lambda>p. prefix p t) [''year'', ''yr'', ''month'', ''day'', ''week'', ''yoe''])"

definition raw_group :: "hit \<Rightarrow> string \<Rightarrow> string" where
  "raw_group h n = (case grp h n of Some s \<Rightarrow> s | None \<Rightarrow> [])"

definition range_has_curr :: "hit \<Rightarrow> bool" where
  "range_has_curr h \<longleftrightarrow> has_grp h ''curr'' \<or> has_grp h ''curr2'' \<or> has_grp h ''curr3''"

text \<open>In "120 - 160k" the k of the upper end also scales the lower one. The comparison
  parses a matched amount, which never raises (\<open>range_amounts_parse\<close>).\<close>

definition range_min_k :: "hit \<Rightarrow> bool" where
  "range_min_k h \<longleftrightarrow> has_grp h ''min_k'' \<or>
     (has_grp h ''max_k'' \<and> raw_group h ''min'' \<noteq> [] \<and>
      (case parse_decimal (drop_commas (raw_group h ''min'')) of Some v \<Rightarrow> v < 1000 | None \<Rightarrow> False))"

definition range_result :: "hit \<Rightarrow> rat \<Rightarrow> rat \<Rightarrow> salary" where
  "range_result h lo hi =
     (let lo' = (if lo > hi then hi else lo); hi' = (if lo > hi then lo else hi) in
      \<lparr>sal_min = lo', sal_max = hi',
       sal_currency = currency_of h [''curr'', ''curr2'', ''curr3''],
       sal_period = detect_period (grp h ''period'') (Some hi'),
       sal_text = strip (hit_text h)\<rparr>)"

text \<open>One turn of the loop over the range matches; \<open>None\<close> is \<open>continue\<close>.\<close>

definition range_salary :: "hit \<Rightarrow> salary option" where
  "range_salary h =
     (if \<not> (range_has_curr h \<or> has_grp h ''min_k'' \<or> has_grp h ''max_k'' \<or> has_grp h ''period'') then None
      else if \<not> range_has_curr h \<and> \<not> has_grp h ''period'' \<and> experience_tail (hit_tail h) then None
      else (case parse_amount (raw_group h ''min'') (range_min_k h) of
          None \<Rightarrow> None
        | Some lo \<Rightarrow> (case parse_amount (raw_group h ''max'') (has_grp h ''max_k'') of
              None \<Rightarrow> None
            | Some hi \<Rightarrow> if \<not> range_has_curr h \<and> lo < 5 then None else Some (range_result h lo hi))))"

definition single_result :: "hit \<Rightarrow> rat \<Rightarrow> salary" where
  "single_result h amt =
     \<lparr>sal_min = amt, sal_max = amt,
      sal_currency = currency_of h [''curr'', ''curr2''],
      sal_period = detect_period (group_or h [''period'', ''period_adv'']) (Some amt),
      sal_text = strip (hit_text h)\<rparr>"

definition single_salary :: "hit \<Rightarrow> salary option" where
  "single_salary h =
     (let has_curr = has_grp h ''curr'' \<or> has_grp h ''curr2'';
          has_k = has_grp h ''k'';
          has_period = group_or h [''period'', ''period_adv''] \<noteq> None
      in if \<not> (has_curr \<or> (has_k \<and> has_period)) then None
         else (case parse_amount (raw_group h ''amount'') has_k of
            None \<Rightarrow> None
          | Some amt \<Rightarrow> if amt < 10 \<and> \<not> has_period then None else Some (single_result h amt)))"

definition parse_salary :: "string \<Rightarrow> salary option" where
  "parse_salary s =
     (if s = [] then None
      else or_else (first_some range_salary (finditer salary_range_rx s))
                   (first_some single_salary (finditer salary_single_rx s)))"

section \<open>Matched amounts always parse\<close>

lemma drop_commas_append [simp]: "drop_commas (a @ b) = drop_commas a @ drop_commas b"
  by (simp add: drop_commas_def)

lemma digit_not_comma_dot [simp]: "\<not> is_digit (CHR '','')" "\<not> is_digit (CHR ''.'')"
  by (simp_all add: is_digit_def char_code_def)

lemma drop_commas_digits: "list_all is_digit a \<Longrightarrow> drop_commas a = a"
  by (induction a) (auto simp: drop_commas_def)

definition amount_int :: "string \<Rightarrow> bool" where
  "amount_int a \<longleftrightarrow> list_all (\<lambda>c. is_digit c \<or> c = CHR '','') a \<and> drop_commas a \<noteq> []"

lemma amount_int_digits: "amount_int a \<Longrightarrow> list_all is_digit (drop_commas a)"
  by (auto simp: amount_int_def drop_commas_def list_all_iff)

lemma digits_amount_int: "\<lbrakk>list_all is_digit a; a \<noteq> []\<rbrakk> \<Longrightarrow> amount_int a"
  by (auto simp: amount_int_def drop_commas_digits list_all_iff)

lemma amount_int_append: "\<lbrakk>amount_int a; list_all (\<lambda>c. is_digit c \<or> c = CHR '','') b\<rbrakk> \<Longrightarrow> amount_int (a @ b)"
  by (simp add: amount_int_def)

lemma all_in_range: "(\<And>c. Q c \<Longrightarrow> P c) \<Longrightarrow> all_in P (rrange m n (RSet Q))"
  unfolding rrange_def by (intro wf_intros) auto

lemma all_inD: "\<lbrakk>all_in P r; rx_lang r u\<rbrakk> \<Longrightarrow> list_all P u"
  by (simp add: all_in_def)

lemma cents_lang: "rx_lang rx_cents b \<Longrightarrow> b = [] \<or> (\<exists>d. b = CHR ''.'' # d \<and> list_all is_digit d)"
  using all_inD[OF all_in_range[of is_digit is_digit 1 2]]
  by (auto simp: rx_cents_def ropt_def rchar_def rdigit_def elim!: lang_altE)

lemma rrange_digits: "rx_lang (rrange 1 3 rdigit) a \<Longrightarrow> list_all is_digit a \<and> a \<noteq> []"
  using all_inD[OF all_in_range[of is_digit is_digit 1 3]] rrange_length[of 1 3 is_digit a]
  by (auto simp: rdigit_def)

lemma groups_lang: "rx_lang (RStar (RSeq (rchar (CHR '','')) (rtimes 3 rdigit))) b \<Longrightarrow>
  list_all (\<lambda>c. is_digit c \<or> c = CHR '','') b"
  by (rule all_inD) (auto simp: rchar_def rdigit_def intro!: wf_intros)

lemma rplus_digits: "rx_lang (rplus rdigit) a \<Longrightarrow> list_all is_digit a \<and> a \<noteq> []"
proof -
  assume a: "rx_lang (rplus rdigit) a"
  have "all_in is_digit (rplus rdigit)" by (auto simp: rplus_def rdigit_def intro!: wf_intros)
  with a have "list_all is_digit a" by (rule all_inD[rotated])
  moreover have "a \<noteq> []" using a by (auto simp: rplus_def rdigit_def)
  ultimately show ?thesis by simp
qed

lemma amount_split:
  assumes "rx_lang rx_amount u"
  obtains a b where "u = a @ b" "amount_int a" "b = [] \<or> (\<exists>d. b = CHR ''.'' # d \<and> list_all is_digit d)"
proof -
  consider (grouped) a b c where "u = a @ b @ c" "rx_lang (rrange 1 3 rdigit) a"
      "rx_lang (RStar (RSeq (rchar (CHR '','')) (rtimes 3 rdigit))) b" "rx_lang rx_cents c"
    | (plain) a c where "u = a @ c" "rx_lang (rplus rdigit) a" "rx_lang rx_cents c"
    using assms unfolding rx_amount_def by (elim lang_altE) auto
  then show thesis
  proof cases
    case grouped
    have "amount_int (a @ b)"
      using rrange_digits[OF grouped(2)] groups_lang[OF grouped(3)]
      by (intro amount_int_append digits_amount_int) auto
    then show ?thesis using that[of "a @ b" c] cents_lang[OF grouped(4)] grouped(1) by simp
  next
    case plain
    then show ?thesis using that[of a c] cents_lang rplus_digits digits_amount_int by blast
  qed
qed

lemma digits_no_dot: "list_all is_digit a \<Longrightarrow> CHR ''.'' \<notin> set a"
  by (auto simp: list_all_iff)

lemma is_digit_not_space: "is_digit c \<Longrightarrow> \<not> is_space c"
  by (auto simp: is_digit_def is_space_def Let_def)

lemma not_space_dot [simp]: "\<not> is_space (CHR ''.'')"
  by (simp add: is_space_def char_code_def)

lemma amount_parses:
  assumes "rx_lang rx_amount u"
  shows "\<exists>v. parse_decimal (drop_commas u) = Some v \<and> 0 \<le> v \<and> strip (drop_commas u) = drop_commas u"
proof -
  obtain a b where ab: "u = a @ b" "amount_int a" "b = [] \<or> (\<exists>d. b = CHR ''.'' # d \<and> list_all is_digit d)"
    using amount_split[OF assms] .
  let ?a = "drop_commas a"
  have a: "list_all is_digit ?a" "?a \<noteq> []" using amount_int_digits ab(2) by (auto simp: amount_int_def)
  have b: "drop_commas b = b" using ab(3) drop_commas_digits by (auto simp: drop_commas_def)
  have "\<exists>v. parse_decimal (?a @ b) = Some v \<and> 0 \<le> v"
    using ab(3) a digits_no_dot
    by (auto simp: parse_decimal_def split_on_sep_free split_on_append)
  moreover have "strip (?a @ b) = ?a @ b"
  proof (rule strip_fixed)
    have ns: "\<forall>c \<in> set (?a @ b). \<not> is_space c"
      using a ab(3) is_digit_not_space by (auto simp: list_all_iff)
    show "\<not> is_space (hd (?a @ b))" "\<not> is_space (last (?a @ b))"
      using ns a(2) by (metis Nil_is_append_conv hd_in_set last_in_set)+
  qed (use a in simp)
  ultimately show ?thesis using b ab(1) by simp
qed

lemma no_groups [simp]:
  "rx_groups rx_amount = []" "rx_groups rx_currency = []" "rx_groups rx_codes = []"
  "rx_groups rspaces = []" "rx_groups rx_period = []" "rx_groups rx_period_adv = []"
  "rx_groups rx_per = [(''period'', rx_period)]"
  by (simp_all add: rx_amount_def rx_currency_def rx_codes_def rspaces_def rx_period_def
      rx_period_adv_def rx_per_def rrange_def rdigit_def rchar_def rchar_ci_def rplus_def rx_cents_def
      ropt_def numeral_2_eq_2 numeral_3_eq_3)

lemma range_groups:
  "captures salary_range_rx ''min'' x \<Longrightarrow> rx_lang rx_amount x"
  "captures salary_range_rx ''max'' x \<Longrightarrow> rx_lang rx_amount x"
  by (auto simp: captures_def salary_range_rx_def ropt_def rx_k_def rchar_def rchar_ci_def)

lemma single_groups:
  "captures salary_single_rx ''amount'' x \<Longrightarrow> rx_lang rx_amount x"
  by (auto simp: captures_def salary_single_rx_def ropt_def rx_k_def rchar_def rchar_ci_def)

lemma parse_amount_nonneg: "parse_amount raw k = Some v \<Longrightarrow> 0 \<le> v"
  by (auto simp: parse_amount_def parse_decimal_def split: list.splits if_splits)

text \<open>No amount captured by the patterns makes \<open>Decimal\<close> raise.\<close>

lemma range_amounts_parse:
  assumes "h \<in> set (finditer salary_range_rx s)" "n \<in> {''min'', ''max''}" "grp h n = Some x"
  shows "parse_amount x k \<noteq> None \<and> parse_decimal (drop_commas x) \<noteq> None"
proof -
  have "rx_lang rx_amount x"
    using finditer_sound(3)[OF assms(1,3)] range_groups assms(2) by auto
  then show ?thesis using amount_parses[of x] by (auto simp: parse_amount_def)
qed

definition known_currency :: "string \<Rightarrow> bool" where
  "known_currency c \<longleftrightarrow> c \<in> {''USD'', ''CAD'', ''GBP'', ''EUR''}"

lemma currency_of_known: "known_currency (currency_of h ns)"
proof -
  have "snd ` set currency_map \<subseteq> {''USD'', ''CAD'', ''GBP'', ''EUR''}" by (simp add: currency_map_def)
  then have "dget currency_map k = Some c \<Longrightarrow> c \<in> {''USD'', ''CAD'', ''GBP'', ''EUR''}" for k c
    using dget_SomeD by fastforce
  then show ?thesis unfolding currency_of_def Let_def known_currency_def by (auto split: option.splits)
qed

definition known_period :: "string option \<Rightarrow> bool" where
  "known_period p \<longleftrightarrow> p \<in> {None, Some ''year'', Some ''hour'', Some ''month'', Some ''day'', Some ''week''}"

lemma detect_period_known: "known_period (detect_period p a)"
proof -
  have "snd ` set period_map \<subseteq> {''year'', ''hour'', ''month'', ''day'', ''week''}" by (simp add: period_map_def)
  then have "dget period_map k = Some c \<Longrightarrow> c \<in> {''year'', ''hour'', ''month'', ''day'', ''week''}" for k c
    using dget_SomeD by fastforce
  then show ?thesis unfolding detect_period_def Let_def known_period_def
    by (auto split: option.splits list.splits)
qed

lemma hit_text_sublist: "s = rev (hit_prior h) @ hit_text h @ hit_tail h \<Longrightarrow> sublist (strip (hit_text h)) s"
  by (metis sublist_appendI sublist_order.order_trans sublist_strip)

definition salary_ok :: "string \<Rightarrow> salary \<Rightarrow> bool" where
  "salary_ok s r \<longleftrightarrow> 0 \<le> sal_min r \<and> sal_min r \<le> sal_max r \<and>
     known_currency (sal_currency r) \<and> known_period (sal_period r) \<and>
     sublist (sal_text r) s \<and> strip (sal_text r) = sal_text r"

lemma range_result_ok:
  "\<lbrakk>h \<in> set (finditer salary_range_rx s); 0 \<le> lo; 0 \<le> hi\<rbrakk> \<Longrightarrow> salary_ok s (range_result h lo hi)"
  using hit_text_sublist[OF finditer_sound(1)]
  by (simp add: salary_ok_def range_result_def currency_of_known detect_period_known Let_def)

lemma single_result_ok:
  "\<lbrakk>h \<in> set (finditer salary_single_rx s); 0 \<le> amt\<rbrakk> \<Longrightarrow> salary_ok s (single_result h amt)"
  using hit_text_sublist[OF finditer_sound(1)]
  by (simp add: salary_ok_def single_result_def currency_of_known detect_period_known)

lemma range_salary_ok:
  "\<lbrakk>h \<in> set (finditer salary_range_rx s); range_salary h = Some r\<rbrakk> \<Longrightarrow> salary_ok s r"
  unfolding range_salary_def
  by (auto split: if_splits option.splits intro!: range_result_ok dest: parse_amount_nonneg)

lemma single_salary_ok:
  "\<lbrakk>h \<in> set (finditer salary_single_rx s); single_salary h = Some r\<rbrakk> \<Longrightarrow> salary_ok s r"
  unfolding single_salary_def Let_def
  by (auto split: if_splits option.splits intro!: single_result_ok dest: parse_amount_nonneg)

lemma parse_salary_ok: "parse_salary s = Some r \<Longrightarrow> salary_ok s r"
  using range_salary_ok single_salary_ok
  by (auto simp: parse_salary_def or_else_def split: option.splits if_splits dest!: first_someD)

lemma salary_found_ordered: "parse_salary s = Some r \<Longrightarrow> sal_min r \<le> sal_max r"
  using parse_salary_ok by (simp add: salary_ok_def)

section \<open>Properties\<close>

text \<open>Whatever the text, an extracted salary is a non-negative interval (the two ends
  are swapped when the text gives them the other way round), its currency and period are
  among the normalised ones, and the recorded wording is a piece of the text.\<close>

theorem parse_salary_sound:
  assumes "parse_salary s = Some r"
  shows "0 \<le> sal_min r \<and> sal_min r \<le> sal_max r \<and>
    sal_currency r \<in> {''USD'', ''CAD'', ''GBP'', ''EUR''} \<and>
    sal_period r \<in> {None, Some ''year'', Some ''hour'', Some ''month'', Some ''day'', Some ''week''} \<and>
    sublist (sal_text r) s \<and> strip (sal_text r) = sal_text r"
  using parse_salary_ok[OF assms] by (simp only: salary_ok_def known_period_def known_currency_def simp_thms)

theorem parse_salary_sound_witness:
  "\<exists>r. parse_salary ''$80/hr'' = Some r \<and> sal_min r \<le> sal_max r \<and> sublist (sal_text r) ''$80/hr''"
proof -
  let ?r = "\<lparr>sal_min = 80, sal_max = 80, sal_currency = ''USD'', sal_period = Some ''hour'',
     sal_text = ''$80/hr''\<rparr>"
  have "parse_salary ''$80/hr'' = Some ?r" by code_simp
  then show ?thesis using parse_salary_sound by blast
qed

end
