(* ===== verification/Skills.thy ===== *)
theory Skills
  imports Regex
begin

text \<open>
  \<open>src/app/jobs/parsing/skills.py\<close>: the table of canonical skill names, normalisation of
  one skill, extraction from explicit lists and from free text, and the merge of both.
\<close>

definition canonical_skills :: "(string, string) dict" where
  "canonical_skills =
    [(''python'', ''Python''), (''javascript'', ''JavaScript''), (''typescript'', ''TypeScript''),
     (''java'', ''Java''), (''c++'', ''C++''), (''cpp'', ''C++''),
     (''c#'', ''C#''), (''csharp'', ''C#''), (''golang'', ''Go''),
     (''go'', ''Go''), (''rust'', ''Rust''), (''ruby'', ''Ruby''),
     (''php'', ''PHP''), (''scala'', ''Scala''), (''kotlin'', ''Kotlin''),
     (''swift'', ''Swift''), (''dart'', ''Dart''), (''r'', ''R''),
     (''sql'', ''SQL''), (''nosql'', ''NoSQL''), (''html'', ''HTML''),
     (''html5'', ''HTML''), (''css'', ''CSS''), (''css3'', ''CSS''),
     (''sass'', ''Sass''), (''bash'', ''Bash''), (''shell'', ''Shell''),
     (''powershell'', ''PowerShell''), (''react'', ''React''), (''react.js'', ''React''),
     (''reactjs'', ''React''), (''next.js'', ''Next.js''), (''nextjs'', ''Next.js''),
     (''vue'', ''Vue.js''), (''vue.js'', ''Vue.js''), (''angular'', ''Angular''),
     (''node'', ''Node.js''), (''node.js'', ''Node.js''), (''nodejs'', ''Node.js''),
     (''express'', ''Express.js''), (''express.js'', ''Express.js''), (''fastapi'', ''FastAPI''),
     (''flask'', ''Flask''), (''django'', ''Django''), (''spring'', ''Spring''),
     (''spring boot'', ''Spring Boot''), (''springboot'', ''Spring Boot''), (''.net'', ''.NET''),
     (''dotnet'', ''.NET''), (''asp.net'', ''ASP.NET''), (''rails'', ''Ruby on Rails''),
     (''ruby on rails'', ''Ruby on Rails''), (''graphql'', ''GraphQL''), (''rest'', ''REST API''),
     (''restful'', ''REST API''), (''grpc'', ''gRPC''), (''postgresql'', ''PostgreSQL''),
     (''postgres'', ''PostgreSQL''), (''mysql'', ''MySQL''), (''sqlite'', ''SQLite''),
     (''mongodb'', ''MongoDB''), (''redis'', ''Redis''), (''elasticsearch'', ''Elasticsearch''),
     (''cassandra'', ''Cassandra''), (''dynamodb'', ''DynamoDB''), (''snowflake'', ''Snowflake''),
     (''bigquery'', ''BigQuery''), (''aws'', ''AWS''), (''amazon web services'', ''AWS''),
     (''azure'', ''Azure''), (''gcp'', ''GCP''), (''google cloud'', ''GCP''),
     (''docker'', ''Docker''), (''kubernetes'', ''Kubernetes''), (''k8s'', ''Kubernetes''),
     (''terraform'', ''Terraform''), (''ansible'', ''Ansible''), (''jenkins'', ''Jenkins''),
     (''github actions'', ''GitHub Actions''), (''gitlab ci'', ''GitLab CI''), (''circleci'', ''CircleCI''),
     (''linux'', ''Linux''), (''unix'', ''Unix''), (''git'', ''Git''),
     (''microservices'', ''Microservices''), (''kafka'', ''Kafka''), (''rabbitmq'', ''RabbitMQ''),
     (''sqs'', ''AWS SQS''), (''machine learning'', ''Machine Learning''), (''deep learning'', ''Deep Learning''),
     (''pytorch'', ''PyTorch''), (''tensorflow'', ''TensorFlow''), (''pandas'', ''Pandas''),
     (''numpy'', ''NumPy''), (''scikit-learn'', ''Scikit-Learn''), (''airflow'', ''Apache Airflow''),
     (''spark'', ''Apache Spark''), (''pytest'', ''PyTest''), (''junit'', ''JUnit''),
     (''jest'', ''Jest''), (''cypress'', ''Cypress''), (''playwright'', ''Playwright''),
     (''selenium'', ''Selenium'')]"

text \<open>\<open>str.title()\<close>: a letter is upper case after a non-letter, lower case after a letter.\<close>

definition upper_char :: "char \<Rightarrow> char" where
  "upper_char c = (if is_lower c then char_of (char_code c - 32) else c)"

fun title_from :: "bool \<Rightarrow> string \<Rightarrow> string" where
  "title_from after_letter [] = []"
| "title_from after_letter (c # s) =
     (if after_letter then lower_char c else upper_char c) # title_from (is_alpha c) s"

definition title_case :: "string \<Rightarrow> string" where
  "title_case s = title_from False s"

definition rx_skill :: "string \<Rightarrow> rx" where
  "rx_skill w = rseq [RAlt RBegin (RSet (\<lambda>c. is_space c \<or> c \<in> set ''.,;/('')), rlit_ci w,
     RAlt REnd (RSet (\<lambda>c. is_space c \<or> c \<in> set ''.,;/):''))]"

definition special_skill_patterns :: "(rx \<times> string) list" where
  "special_skill_patterns = [(rx_skill ''c++'', ''C++''), (rx_skill ''c#'', ''C#''),
     (rx_skill ''.net'', ''.NET''), (rx_skill ''go'', ''Go''), (rx_skill ''r'', ''R'')]"

definition normalize_skill :: "string \<Rightarrow> string option" where
  "normalize_skill skill =
     (let cleaned = collapse_ws (strip skill) in
      if cleaned = [] then None
      else case dget canonical_skills (lower cleaned) of
             Some c \<Rightarrow> Some c
           | None \<Rightarrow> if 2 \<le> length cleaned \<and> length cleaned \<le> 40 \<and> list_ex is_alpha cleaned
                     then Some (title_case cleaned) else None)"

text \<open>The loops collect names whose case-folded form has not been seen.\<close>

fun add_new :: "string list \<Rightarrow> string list \<Rightarrow> string list" where
  "add_new acc [] = acc"
| "add_new acc (n # ns) =
     (if lower n \<in> lower ` set acc then add_new acc ns else add_new (acc @ [n]) ns)"

definition list_separator :: "char \<Rightarrow> bool" where
  "list_separator c \<longleftrightarrow> c \<in> set '',;|/''"

definition extract_skills_from_list :: "string list \<Rightarrow> string list" where
  "extract_skills_from_list raw_skills =
     add_new [] (concat (map (\<lambda>raw. if raw = [] then []
       else List.map_filter normalize_skill (split_by list_separator raw)) raw_skills))"

definition alias_rx :: "string \<Rightarrow> rx" where
  "alias_rx a = rseq [RAlt RWordB (RSet is_space), rlit a, RAlt RWordB (RSet is_space)]"

fun scan_aliases :: "string \<Rightarrow> (string \<times> string) list \<Rightarrow> string list \<Rightarrow> string list" where
  "scan_aliases lowered_text [] found = found"
| "scan_aliases lowered_text ((a, c) # rest) found =
     (if lower c \<in> lower ` set found then scan_aliases lowered_text rest found
      else if a \<in> {''c++'', ''c#'', ''.net'', ''go'', ''r''} then scan_aliases lowered_text rest found
      else if re_test (alias_rx a) lowered_text then scan_aliases lowered_text rest (found @ [c])
      else scan_aliases lowered_text rest found)"

definition extract_skills_from_text :: "string \<Rightarrow> string list" where
  "extract_skills_from_text s =
     (if s = [] then []
      else scan_aliases ('' '' @ lower s @ '' '') canonical_skills
        (add_new [] (map snd (filter (\<lambda>(p, _). re_test p s) special_skill_patterns))))"

definition merge_skills :: "string list \<Rightarrow> string list \<Rightarrow> string list" where
  "merge_skills explicit_skills text_skills =
     add_new (add_new [] (extract_skills_from_list explicit_skills))
       (map (\<lambda>s. case normalize_skill s of Some n \<Rightarrow> n | None \<Rightarrow> s) text_skills)"

section \<open>Lemmas\<close>

definition distinct_names :: "string list \<Rightarrow> bool" where
  "distinct_names ns \<longleftrightarrow> distinct (map lower ns)"

lemma distinct_names_Nil [wf_intros]: "distinct_names []"
  by (simp add: distinct_names_def)

lemma distinct_names_snoc [wf_intros]:
  "\<lbrakk>distinct_names ns; lower n \<notin> lower ` set ns\<rbrakk> \<Longrightarrow> distinct_names (ns @ [n])"
  by (simp add: distinct_names_def)

lemma add_new_distinct [wf_intros]: "distinct_names acc \<Longrightarrow> distinct_names (add_new acc ns)"
  by (induction acc ns rule: add_new.induct) (auto intro: wf_intros)

lemma add_new_prefix: "prefix acc (add_new acc ns)"
proof (induction acc ns rule: add_new.induct)
  case (2 acc n ns)
  then show ?case by (auto dest: append_prefixD)
qed simp

lemma add_new_set: "set (add_new acc ns) \<subseteq> set acc \<union> set ns"
  by (induction acc ns rule: add_new.induct) auto

lemma add_new_covers: "lower ` set (add_new acc ns) = lower ` set acc \<union> lower ` set ns"
  by (induction acc ns rule: add_new.induct) auto

lemma add_new_id: "distinct_names (acc @ ns) \<Longrightarrow> add_new acc ns = acc @ ns"
  by (induction acc ns rule: add_new.induct) (auto simp: distinct_names_def)

lemma extract_list_distinct: "distinct_names (extract_skills_from_list xs)"
  by (simp add: extract_skills_from_list_def wf_intros)

lemma scan_aliases_distinct: "distinct_names found \<Longrightarrow> distinct_names (scan_aliases t as found)"
  by (induction t as found rule: scan_aliases.induct) (auto intro: wf_intros)

lemma scan_aliases_set: "set (scan_aliases t as found) \<subseteq> set found \<union> snd ` set as"
  by (induction t as found rule: scan_aliases.induct) auto

lemma extract_text_distinct: "distinct_names (extract_skills_from_text s)"
  by (simp add: extract_skills_from_text_def scan_aliases_distinct wf_intros)

lemma special_names: "snd ` set special_skill_patterns \<subseteq> snd ` set canonical_skills"
proof -
  have m: "c \<in> snd ` set canonical_skills" if "dget canonical_skills a = Some c" for a c
    using dget_SomeD[OF that] by force
  have "dget canonical_skills ''c++'' = Some ''C++''" by code_simp
  moreover have "dget canonical_skills ''c#'' = Some ''C#''" by code_simp
  moreover have "dget canonical_skills ''.net'' = Some ''.NET''" by code_simp
  moreover have "dget canonical_skills ''go'' = Some ''Go''" by code_simp
  moreover have "dget canonical_skills ''r'' = Some ''R''" by code_simp
  ultimately show ?thesis
    unfolding special_skill_patterns_def list.set image_insert image_empty snd_conv insert_subset
    by (intro conjI empty_subsetI) (erule m)+
qed

lemma extract_text_canonical: "set (extract_skills_from_text s) \<subseteq> snd ` set canonical_skills"
proof -
  let ?sp = "map snd (filter (\<lambda>(p, _). re_test p s) special_skill_patterns)"
  have "set (add_new [] ?sp) \<subseteq> snd ` set special_skill_patterns"
    using add_new_set[of "[]" ?sp] by auto
  also have "\<dots> \<subseteq> snd ` set canonical_skills" by (rule special_names)
  finally have sp: "set (add_new [] ?sp) \<subseteq> snd ` set canonical_skills" .
  have "set (scan_aliases t canonical_skills (add_new [] ?sp)) \<subseteq> snd ` set canonical_skills" for t
    using scan_aliases_set[of t canonical_skills "add_new [] ?sp"] sp by (meson Un_least subset_refl subset_trans)
  then show ?thesis by (simp only: extract_skills_from_text_def split: if_splits) simp
qed

section \<open>Properties\<close>

text \<open>No list of skills the module produces names a skill twice up to letter case; the
  merge keeps the explicit skills first and in their order; and a scan of free text only
  ever reports names of the canonical table.\<close>

theorem skills_distinct_and_ordered:
  "distinct (map lower (extract_skills_from_list xs)) \<and>
   distinct (map lower (extract_skills_from_text s)) \<and>
   distinct (map lower (merge_skills xs ys)) \<and>
   prefix (extract_skills_from_list xs) (merge_skills xs ys) \<and>
   set (extract_skills_from_text s) \<subseteq> snd ` set canonical_skills"
proof -
  have "add_new [] (extract_skills_from_list xs) = extract_skills_from_list xs"
    using add_new_id[of "[]"] extract_list_distinct by simp
  then have "prefix (extract_skills_from_list xs) (merge_skills xs ys)"
    unfolding merge_skills_def using add_new_prefix by metis
  moreover have "distinct_names (merge_skills xs ys)"
    unfolding merge_skills_def by (intro wf_intros)
  ultimately show ?thesis
    using extract_list_distinct extract_text_distinct extract_text_canonical
    by (simp add: distinct_names_def)
qed

text \<open>Normalising a canonical name again does not keep it when its own lower-case form
  is not a key of the table. The merge normalises the names found in free text a second
  time, so a text that mentions a REST interface is reported as "Rest Api" and not under
  the canonical name the scan found.\<close>

theorem merge_rewrites_canonical_name:
  "extract_skills_from_text ''restful'' = [''REST API''] \<and>
   normalize_skill ''REST API'' = Some ''Rest Api'' \<and> normalize_skill ''AWS SQS'' = Some ''Aws Sqs'' \<and>
   merge_skills [] (extract_skills_from_text ''restful'') = [''Rest Api'']"
proof -
  have a: "extract_skills_from_text ''restful'' = [''REST API'']" by code_simp
  have b: "normalize_skill ''REST API'' = Some ''Rest Api''" by code_simp
  have c: "normalize_skill ''AWS SQS'' = Some ''Aws Sqs''" by code_simp
  have "merge_skills [] (extract_skills_from_text ''restful'') = [''Rest Api'']"
    unfolding a merge_skills_def extract_skills_from_list_def by (simp add: b)
  with a b c show ?thesis by simp
qed

end
