(* ===== verification/Url.thy ===== *)
theory Url
  imports IpNet
begin

text \<open>
  The part of \<open>urllib.parse\<close> the job normaliser uses (\<open>urlsplit\<close>, \<open>parse_qsl\<close>,
  \<open>urlencode\<close>, \<open>urlunsplit\<close>) and \<open>normalize_url\<close> of
  \<open>src/app/jobs/ingestion/normalization.py\<close> on top of it. Text is a byte string: percent
  escapes denote bytes, which is what decoding and encoding again gives for valid UTF-8.
  A \<open>ValueError\<close> of \<open>urlsplit\<close> is \<open>None\<close>.
\<close>

record url_parts =
  u_scheme :: string
  u_netloc :: string
  u_path :: string
  u_query :: string

definition before_char :: "char \<Rightarrow> string \<Rightarrow> string" where
  "before_char c s = takeWhile (\<lambda>x. x \<noteq> c) s"

definition after_char :: "char \<Rightarrow> string \<Rightarrow> string" where
  "after_char c s = tl (dropWhile (\<lambda>x. x \<noteq> c) s)"

definition after_last :: "char \<Rightarrow> string \<Rightarrow> string" where
  "after_last c s = rev (takeWhile (\<lambda>x. x \<noteq> c) (rev s))"

definition is_scheme_char :: "char \<Rightarrow> bool" where
  "is_scheme_char c \<longleftrightarrow> is_alnum c \<or> c \<in> set ''+-.''"

definition split_scheme :: "string \<Rightarrow> string \<times> string" where
  "split_scheme u =
     (let p = before_char (CHR '':'') u in
      if CHR '':'' \<in> set u \<and> p \<noteq> [] \<and> is_alpha (hd p) \<and> list_all is_scheme_char p
      then (lower p, after_char (CHR '':'') u) else ([], u))"

definition netloc_char :: "char \<Rightarrow> bool" where
  "netloc_char c \<longleftrightarrow> c \<notin> set ''/?#''"

definition split_netloc :: "string \<Rightarrow> string \<times> string" where
  "split_netloc u =
     (if take 2 u = ''//'' then (takeWhile netloc_char (drop 2 u), dropWhile netloc_char (drop 2 u))
      else ([], u))"

definition bracketed_host_ok :: "string \<Rightarrow> bool" where
  "bracketed_host_ok h =
     (if prefix ''v'' h then
        (let v = takeWhile (\<lambda>c. hex_value c \<noteq> None) (tl h); r = dropWhile (\<lambda>c. hex_value c \<noteq> None) (tl h)
         in v \<noteq> [] \<and> 2 \<le> length r \<and> hd r = CHR ''.'' \<and> CHR 0x0A \<notin> set r)
      else (case ip_address h of Some (V6 _ _) \<Rightarrow> True | _ \<Rightarrow> False))"

definition brackets_ok :: "string \<Rightarrow> bool" where
  "brackets_ok netloc =
     (let opens = CHR ''['' \<in> set netloc; closes = CHR '']'' \<in> set netloc in
      if opens \<noteq> closes then False
      else if \<not> opens then True
      else let hp = after_last (CHR ''@'') netloc in
        if CHR ''['' \<in> set hp then
          before_char (CHR ''['') hp = [] \<and>
          (let b = after_char (CHR ''['') hp; port = after_char (CHR '']'') b in
            (port = [] \<or> prefix '':'' port) \<and> bracketed_host_ok (before_char (CHR '']'') b))
        else bracketed_host_ok (before_char (CHR '':'') hp))"

definition c0_or_space :: "char \<Rightarrow> bool" where
  "c0_or_space c \<longleftrightarrow> char_code c \<le> 32"

definition unsafe_byte :: "char \<Rightarrow> bool" where
  "unsafe_byte c \<longleftrightarrow> char_code c \<in> {9, 10, 13}"

text \<open>The fragment is split off and, as the caller discards it, not kept.\<close>

definition urlsplit :: "string \<Rightarrow> url_parts option" where
  "urlsplit url0 =
     (let url1 = filter (\<lambda>c. \<not> unsafe_byte c) (dropWhile c0_or_space url0);
          (scheme, url2) = split_scheme url1;
          (netloc, url3) = split_netloc url2;
          url4 = before_char (CHR ''#'') url3
      in if brackets_ok netloc
         then Some \<lparr>u_scheme = scheme, u_netloc = netloc, u_path = before_char (CHR ''?'') url4,
                   u_query = after_char (CHR ''?'') url4\<rparr>
         else None)"

fun unquote_plus :: "string \<Rightarrow> string" where
  "unquote_plus [] = []"
| "unquote_plus (c # s) =
     (if c = CHR ''+'' then CHR '' '' # unquote_plus s
      else if c = CHR ''%'' then
        (case s of
           a # b # s' \<Rightarrow>
             (case (hex_value a, hex_value b) of
                (Some x, Some y) \<Rightarrow> char_of (16 * x + y) # unquote_plus s'
              | _ \<Rightarrow> c # unquote_plus s)
         | _ \<Rightarrow> c # unquote_plus s)
      else c # unquote_plus s)"

definition always_safe :: "char \<Rightarrow> bool" where
  "always_safe c \<longleftrightarrow> is_alnum c \<or> c \<in> set ''_.-~''"

definition upper_hex :: "nat \<Rightarrow> char" where
  "upper_hex d = char_of (if d < 10 then 48 + d else 55 + d)"

definition quote_plus :: "string \<Rightarrow> string" where
  "quote_plus s = concat (map (\<lambda>c.
     if always_safe c then [c] else if c = CHR '' '' then ''+''
     else [CHR ''%'', upper_hex (char_code c div 16), upper_hex (char_code c mod 16)]) s)"

definition parse_qsl :: "string \<Rightarrow> (string \<times> string) list" where
  "parse_qsl qs =
     (if qs = [] then []
      else concat (map (\<lambda>nv. let v = after_char (CHR ''='') nv in
        if v = [] then [] else [(unquote_plus (before_char (CHR ''='') nv), unquote_plus v)])
        (split_on (CHR ''&'') qs)))"

definition urlencode :: "(string \<times> string) list \<Rightarrow> string" where
  "urlencode q = join ''&'' (map (\<lambda>(k, v). quote_plus k @ ''='' @ quote_plus v) q)"

definition uses_netloc :: "string list" where
  "uses_netloc = [[], ''ftp'', ''http'', ''gopher'', ''nntp'', ''telnet'', ''imap'', ''wais'', ''file'',
     ''mms'', ''https'', ''shttp'', ''snews'', ''prospero'', ''rtsp'', ''rtsps'', ''rtspu'', ''rsync'',
     ''svn'', ''svn+ssh'', ''sftp'', ''nfs'', ''git'', ''git+ssh'', ''ws'', ''wss'', ''itms-services'']"

definition urlunsplit :: "url_parts \<Rightarrow> string" where
  "urlunsplit p =
     (let path = u_path p;
          url1 = (if u_netloc p \<noteq> [] \<or> (u_scheme p \<noteq> [] \<and> u_scheme p \<in> set uses_netloc \<and> take 2 path \<noteq> ''//'')
                  then ''//'' @ u_netloc p @ (if path \<noteq> [] \<and> hd path \<noteq> CHR ''/'' then ''/'' @ path else path)
                  else path);
          url2 = (if u_scheme p \<noteq> [] then u_scheme p @ '':'' @ url1 else url1)
      in if u_query p \<noteq> [] then url2 @ ''?'' @ u_query p else url2)"

section \<open>\<open>normalize_url\<close>\<close>

definition tracking_key :: "string \<Rightarrow> bool" where
  "tracking_key k \<longleftrightarrow> list_ex (\<lambda>p. prefix p (lower k)) [''utm_'', ''trk'', ''ref'']"

definition rstrip_slash :: "string \<Rightarrow> string" where
  "rstrip_slash s = rev (dropWhile (\<lambda>c. c = CHR ''/'') (rev s))"

definition clean_parts :: "url_parts \<Rightarrow> url_parts" where
  "clean_parts p = \<lparr>u_scheme = lower (u_scheme p), u_netloc = lower (u_netloc p),
     u_path = rstrip_slash (u_path p),
     u_query = urlencode (filter (\<lambda>(k, _). \<not> tracking_key k) (parse_qsl (u_query p)))\<rparr>"

text \<open>The outer option is the \<open>ValueError\<close>, the inner one the returned value.\<close>

definition normalize_url :: "string option \<Rightarrow> string option option" where
  "normalize_url url =
     (case url of
        Some (c # cs) \<Rightarrow> map_option (\<lambda>p. Some (urlunsplit (clean_parts p))) (urlsplit (strip (c # cs)))
      | _ \<Rightarrow> Some None)"

section \<open>Lemmas\<close>

lemma hex_value_upper_hex [simp]: "d < 16 \<Longrightarrow> hex_value (upper_hex d) = Some d"
  by (auto simp: hex_value_def upper_hex_def is_digit_def Let_def)

lemma char_of_halves: "char_of (16 * (char_code c div 16) + char_code c mod 16) = c"
  by simp

lemma unquote_plus_safe: "always_safe c \<Longrightarrow> unquote_plus (c # s) = c # unquote_plus s"
  by (auto simp: always_safe_def is_alnum_def is_alpha_def is_upper_def is_lower_def is_digit_def char_code_def)

lemma unquote_quote_append: "unquote_plus (quote_plus s @ t) = s @ unquote_plus t"
proof (induction s)
  case Nil
  then show ?case by (simp add: quote_plus_def)
next
  case (Cons c s)
  have q: "quote_plus (c # s) @ t = (if always_safe c then [c] else if c = CHR '' '' then ''+''
     else [CHR ''%'', upper_hex (char_code c div 16), upper_hex (char_code c mod 16)]) @ quote_plus s @ t"
    by (simp add: quote_plus_def)
  have lt: "char_code c div 16 < 16" using char_code_less[of c] by simp
  show ?case unfolding q using Cons lt char_of_halves[of c]
    by (cases "always_safe c") (auto simp: unquote_plus_safe simp del: unquote_plus.simps(2), auto)
qed

lemma unquote_quote [simp]: "unquote_plus (quote_plus s) = s"
  using unquote_quote_append[of s "[]"] by simp

lemma char_code_div [simp]: "char_code c div 16 < 16"
  using char_code_less[of c] by simp

lemma upper_hex_alnum [simp]: "d < 16 \<Longrightarrow> always_safe (upper_hex d)"
  by (auto simp: always_safe_def upper_hex_def is_alnum_def is_alpha_def is_upper_def is_digit_def)

lemma quote_plus_chars: "c \<in> set (quote_plus s) \<Longrightarrow> always_safe c \<or> c \<in> set ''%+''"
  by (auto simp: quote_plus_def split: if_splits)

lemma always_safe_specials [simp]:
  "\<not> always_safe (CHR ''='')" "\<not> always_safe (CHR ''&'')" "\<not> always_safe (CHR ''?'')" "\<not> always_safe (CHR ''#'')"
  by (simp_all add: always_safe_def is_alnum_def is_alpha_def is_upper_def is_lower_def is_digit_def char_code_def)

lemma quote_plus_free [simp]: "CHR ''='' \<notin> set (quote_plus s)" "CHR ''&'' \<notin> set (quote_plus s)"
  using quote_plus_chars[of "CHR ''=''" s] quote_plus_chars[of "CHR ''&''" s] by auto

lemma quote_plus_ne: "s \<noteq> [] \<Longrightarrow> quote_plus s \<noteq> []"
  by (cases s) (auto simp: quote_plus_def)

lemma before_after_append:
  "c \<notin> set a \<Longrightarrow> before_char c (a @ c # b) = a" "c \<notin> set a \<Longrightarrow> after_char c (a @ c # b) = b"
  by (simp_all add: before_char_def after_char_def takeWhile_free dropWhile_free)

lemma before_char_free [simp]: "c \<notin> set a \<Longrightarrow> before_char c a = a"
  by (auto simp: before_char_def takeWhile_eq_all_conv)

text \<open>Decoding an encoded query gives the query back.\<close>

lemma parse_urlencode: "\<forall>(k, v) \<in> set q. v \<noteq> [] \<Longrightarrow> parse_qsl (urlencode q) = q"
proof (cases q)
  case Nil
  then show ?thesis by (simp add: parse_qsl_def urlencode_def)
next
  case (Cons kv q')
  assume ne: "\<forall>(k, v) \<in> set q. v \<noteq> []"
  let ?enc = "map (\<lambda>(k, v). quote_plus k @ ''='' @ quote_plus v) q"
  have split: "split_on (CHR ''&'') (urlencode q) = ?enc"
    unfolding urlencode_def by (rule split_on_join) (use Cons in auto)
  have "urlencode q \<noteq> []" using Cons by (cases kv; cases q') (auto simp: urlencode_def)
  moreover have "map (\<lambda>nv. let v = after_char (CHR ''='') nv in
        if v = [] then [] else [(unquote_plus (before_char (CHR ''='') nv), unquote_plus v)]) ?enc
      = map (\<lambda>kv. [kv]) q"
    using ne quote_plus_ne by (auto simp: before_after_append Let_def)
  ultimately have "parse_qsl (urlencode q) = concat (map (\<lambda>kv. [kv]) q)"
    by (simp only: parse_qsl_def split if_False)
  then show ?thesis by simp
qed

lemma parse_qsl_values: "(k, v) \<in> set (parse_qsl s) \<Longrightarrow> v \<noteq> []"
proof -
  have "unquote_plus s \<noteq> []" if "s \<noteq> []" for s using that
    by (cases s) (auto split: list.splits option.splits)
  then show "(k, v) \<in> set (parse_qsl s) \<Longrightarrow> v \<noteq> []"
    by (auto simp: parse_qsl_def Let_def split: if_splits)
qed

text \<open>URLs without blanks and control characters are taken as they are.\<close>

definition plain_url :: "string \<Rightarrow> bool" where
  "plain_url s \<longleftrightarrow> list_all (\<lambda>c. 33 \<le> char_code c \<and> char_code c < 127) s"

lemma plain_char: "33 \<le> char_code c \<and> char_code c < 127 \<Longrightarrow> \<not> is_space c \<and> \<not> c0_or_space c \<and> \<not> unsafe_byte c"
  by (auto simp: is_space_def c0_or_space_def unsafe_byte_def Let_def)

lemma plain_url_strip: "\<lbrakk>plain_url s; s \<noteq> []\<rbrakk> \<Longrightarrow> strip s = s"
  using plain_char by (intro strip_fixed) (auto simp: plain_url_def list_all_iff)

lemma plain_url_clean: "plain_url s \<Longrightarrow> filter (\<lambda>c. \<not> unsafe_byte c) (dropWhile c0_or_space s) = s"
proof -
  assume p: "plain_url s"
  have "dropWhile c0_or_space s = s" using p plain_char by (cases s) (auto simp: plain_url_def)
  moreover have "filter (\<lambda>c. \<not> unsafe_byte c) s = s"
    using p plain_char by (auto simp: plain_url_def list_all_iff intro: filter_True)
  ultimately show ?thesis by simp
qed

lemma before_char_append_other:
  "before_char c (a @ b) = (if c \<in> set a then before_char c a else a @ before_char c b)"
  by (induction a) (auto simp: before_char_def)

lemma after_char_append_in: "c \<in> set a \<Longrightarrow> after_char c (a @ b) = after_char c a @ b"
  by (induction a) (auto simp: after_char_def)

lemma split_scheme_query:
  "split_scheme (b @ CHR ''?'' # q) = (fst (split_scheme b), snd (split_scheme b) @ CHR ''?'' # q)"
proof (cases "CHR '':'' \<in> set b")
  case True
  then show ?thesis by (auto simp: split_scheme_def before_char_append_other after_char_append_in Let_def)
next
  case False
  have "before_char (CHR '':'') (b @ CHR ''?'' # q) = b @ CHR ''?'' # before_char (CHR '':'') q"
    using False by (simp add: before_char_append_other) (simp add: before_char_def)
  moreover have "\<not> is_scheme_char (CHR ''?'')"
    by (simp add: is_scheme_char_def is_alnum_def is_alpha_def is_upper_def is_lower_def is_digit_def char_code_def)
  ultimately show ?thesis using False by (simp add: split_scheme_def Let_def)
qed

lemma split_netloc_query:
  "split_netloc (b @ CHR ''?'' # q) = (fst (split_netloc b), snd (split_netloc b) @ CHR ''?'' # q)"
proof (cases "take 2 b = ''//''")
  case True
  then obtain b' where b: "b = ''//'' @ b'" by (metis append_take_drop_id)
  have "\<not> netloc_char (CHR ''?'')" by (simp add: netloc_char_def)
  then have "takeWhile netloc_char (b' @ CHR ''?'' # q) = takeWhile netloc_char b'"
    "dropWhile netloc_char (b' @ CHR ''?'' # q) = dropWhile netloc_char b' @ CHR ''?'' # q"
    by (induction b') auto
  then show ?thesis using b by (simp add: split_netloc_def)
next
  case False
  then have "take 2 (b @ CHR ''?'' # q) \<noteq> ''//''" by (cases b; cases "tl b") auto
  then show ?thesis using False by (simp add: split_netloc_def)
qed

lemma snd_split_scheme_set: "set (snd (split_scheme b)) \<subseteq> set b"
proof -
  have "set (after_char c b) \<subseteq> set b" for c
    unfolding after_char_def by (metis set_dropWhileD list.set_sel(2) subsetI tl_Nil)
  then show ?thesis by (auto simp: split_scheme_def Let_def)
qed

lemma snd_split_netloc_set: "set (snd (split_netloc b)) \<subseteq> set b"
  by (auto simp: split_netloc_def dest!: set_dropWhileD in_set_dropD)

lemma urlsplit_query:
  assumes "plain_url (b @ CHR ''?'' # q)" "CHR ''?'' \<notin> set b" "CHR ''#'' \<notin> set b"
  shows "urlsplit (b @ CHR ''?'' # q) =
    map_option (\<lambda>p. p\<lparr>u_query := before_char (CHR ''#'') q\<rparr>) (urlsplit b)"
proof -
  let ?s = "split_scheme b"
  let ?n = "split_netloc (snd ?s)"
  have pb: "plain_url b" using assms(1) by (simp add: plain_url_def)
  have free: "CHR ''?'' \<notin> set (snd ?n)" "CHR ''#'' \<notin> set (snd ?n)"
    using snd_split_scheme_set snd_split_netloc_set assms(2,3) by fast+
  have h: "before_char (CHR ''#'') (snd ?n @ CHR ''?'' # q) = snd ?n @ CHR ''?'' # before_char (CHR ''#'') q"
    using free by (simp add: before_char_append_other) (simp add: before_char_def)
  show ?thesis
    using free
    by (simp add: urlsplit_def plain_url_clean[OF assms(1)] plain_url_clean[OF pb] split_scheme_query
        split_netloc_query h before_after_append Let_def split_beta)
qed

section \<open>What a cleaned link is\<close>

text \<open>
  The link \<open>u\<close> stored for a link that splits into \<open>p\<close>: no fragment; the scheme and the host in lower
  case; the path without its trailing slashes; and behind the question mark exactly the
  parameters of \<open>p\<close> that do no tracking, in their order.
\<close>

definition cleaned_link :: "url_parts \<Rightarrow> string \<Rightarrow> bool" where
  "cleaned_link p u \<longleftrightarrow> CHR ''#'' \<notin> set u \<and>
     (\<exists>path n. u_path p = path @ replicate n (CHR ''/'') \<and> \<not> suffix ''/'' path \<and>
        before_char (CHR ''?'') u = urlunsplit \<lparr>u_scheme = lower (u_scheme p), u_netloc = lower (u_netloc p), u_path = path, u_query = []\<rparr>) \<and>
     parse_qsl (after_char (CHR ''?'') u) =
       filter (\<lambda>(k, v). \<not> (\<exists>t \<in> {''utm_'', ''trk'', ''ref''}. prefix t (lower k))) (parse_qsl (u_query p))"

lemma suffix_rev_hd: "suffix [c] (rev d) \<Longrightarrow> d \<noteq> []" "suffix [c] (rev d) \<Longrightarrow> hd d = c"
  by (cases d; auto simp: suffix_def)+

lemma rstrip_slash_split: "\<exists>n. s = rstrip_slash s @ replicate n (CHR ''/'') \<and> \<not> suffix ''/'' (rstrip_slash s)"
proof -
  let ?t = "takeWhile (\<lambda>c. c = CHR ''/'') (rev s)" and ?d = "dropWhile (\<lambda>c. c = CHR ''/'') (rev s)"
  have t: "?t = replicate (length ?t) (CHR ''/'')" by (rule replicate_eqI) (auto dest: set_takeWhileD)
  have s: "s = rev ?d @ rev ?t" unfolding rev_append[symmetric] takeWhile_dropWhile_id by simp
  have "rev ?t = replicate (length ?t) (CHR ''/'')" using t by (metis rev_replicate)
  then have "rev ?d @ rev ?t = rev ?d @ replicate (length ?t) (CHR ''/'')" by (simp only:)
  then have "s = rev ?d @ replicate (length ?t) (CHR ''/'')" by (rule trans[OF s])
  moreover have "\<not> suffix ''/'' (rev ?d)"
  proof
    assume "suffix ''/'' (rev ?d)"
    note d = suffix_rev_hd[OF this]
    show False by (rule notE[OF hd_dropWhile[OF d(1)] d(2)])
  qed
  ultimately show ?thesis unfolding rstrip_slash_def by (intro exI conjI)
qed

lemma lower_char_special: "char_code x < 65 \<Longrightarrow> lower_char c = x \<longleftrightarrow> c = x"
proof -
  assume x: "char_code x < 65"
  have up: "char_code (lower_char c) = char_code c + 32" if "is_upper c" using that by (simp add: lower_char_def is_upper_def)
  have "c = x" if "lower_char c = x"
  proof (cases "is_upper c")
    case True
    then have "97 \<le> char_code x" using up[OF True] that by (simp add: is_upper_def)
    then show ?thesis using x by simp
  qed (use that in \<open>simp add: lower_char_def\<close>)
  moreover have "lower_char x = x" using x by (simp add: lower_char_def is_upper_def)
  ultimately show ?thesis by blast
qed

lemma lower_specials [simp]:
  "CHR ''#'' \<in> set (lower s) \<longleftrightarrow> CHR ''#'' \<in> set s" "CHR ''?'' \<in> set (lower s) \<longleftrightarrow> CHR ''?'' \<in> set s"
proof -
  have l: "x \<in> set (lower s) \<longleftrightarrow> x \<in> set s" if "char_code x < 65" for x
    using lower_char_special[OF that] unfolding lower_def by (metis (no_types, lifting) image_iff list.set_map)
  show "CHR ''#'' \<in> set (lower s) \<longleftrightarrow> CHR ''#'' \<in> set s" "CHR ''?'' \<in> set (lower s) \<longleftrightarrow> CHR ''?'' \<in> set s"
    by (rule l, simp add: char_code_def)+
qed

lemma urlsplit_chars:
  assumes "urlsplit s = Some p"
  shows "CHR ''#'' \<notin> set (u_scheme p) \<union> set (u_netloc p) \<union> set (u_path p)"
    "CHR ''?'' \<notin> set (u_scheme p) \<union> set (u_netloc p) \<union> set (u_path p)"
proof -
  have sch: "CHR ''#'' \<notin> set (fst (split_scheme x))" "CHR ''?'' \<notin> set (fst (split_scheme x))" for x
  proof -
    have "\<not> is_scheme_char (CHR ''#'')" "\<not> is_scheme_char (CHR ''?'')"
      by (simp_all add: is_scheme_char_def is_alnum_def is_alpha_def is_upper_def is_lower_def is_digit_def char_code_def)
    then show "CHR ''#'' \<notin> set (fst (split_scheme x))" "CHR ''?'' \<notin> set (fst (split_scheme x))"
      by (auto simp: split_scheme_def Let_def list_all_iff)
  qed
  have net: "CHR ''#'' \<notin> set (fst (split_netloc x))" "CHR ''?'' \<notin> set (fst (split_netloc x))" for x
    by (auto simp: split_netloc_def netloc_char_def dest: set_takeWhileD)
  have pre: "c \<notin> set (before_char c x)" for c x by (auto simp: before_char_def dest: set_takeWhileD)
  have sub: "set (before_char c x) \<subseteq> set x" for c x by (auto simp: before_char_def dest: set_takeWhileD)
  show "CHR ''#'' \<notin> set (u_scheme p) \<union> set (u_netloc p) \<union> set (u_path p)"
    "CHR ''?'' \<notin> set (u_scheme p) \<union> set (u_netloc p) \<union> set (u_path p)"
    using assms sch net pre sub by (auto simp: urlsplit_def Let_def split: prod.splits if_splits) (metis fst_conv subsetD)+
qed

lemma urlunsplit_query:
  "urlunsplit p = (let b = urlunsplit (p\<lparr>u_query := []\<rparr>) in if u_query p = [] then b else b @ CHR ''?'' # u_query p)"
  by (simp add: urlunsplit_def Let_def)

lemma urlunsplit_chars:
  "c \<in> set (urlunsplit (p\<lparr>u_query := []\<rparr>)) \<Longrightarrow> c \<in> set (u_scheme p) \<union> set (u_netloc p) \<union> set (u_path p) \<union> {CHR '':'', CHR ''/''}"
  by (auto simp: urlunsplit_def Let_def split: if_splits)

lemma urlencode_chars: "c \<in> set (urlencode q) \<Longrightarrow> always_safe c \<or> c \<in> set ''%+=&''"
proof (induction q)
  case (Cons kv q)
  obtain k v where kv: "kv = (k, v)" by fastforce
  show ?case using Cons quote_plus_chars[of c k] quote_plus_chars[of c v]
    by (cases q) (auto simp: urlencode_def kv)
qed (simp add: urlencode_def)

lemma clean_parts_cleaned:
  assumes "urlsplit s = Some p"
  shows "cleaned_link p (urlunsplit (clean_parts p))"
proof -
  let ?q = "filter (\<lambda>(k, _). \<not> tracking_key k) (parse_qsl (u_query p))"
  let ?c = "clean_parts p"
  define b where "b = urlunsplit (?c\<lparr>u_query := []\<rparr>)"
  define e where "e = urlencode ?q"
  have c: "u_scheme ?c = lower (u_scheme p)" "u_netloc ?c = lower (u_netloc p)" "u_path ?c = rstrip_slash (u_path p)"
    "u_query ?c = e" by (simp_all add: clean_parts_def e_def)
  have path: "set (rstrip_slash (u_path p)) \<subseteq> set (u_path p)"
    by (auto simp: rstrip_slash_def dest: set_dropWhileD)
  have free: "CHR ''#'' \<notin> set b" "CHR ''?'' \<notin> set b"
    using urlunsplit_chars[of _ ?c] urlsplit_chars[OF assms] path unfolding c b_def[symmetric] by fastforce+
  have hash: "CHR ''#'' \<notin> set e" using urlencode_chars[of "CHR ''#''" ?q] unfolding e_def by auto
  have parse: "parse_qsl e = ?q" unfolding e_def by (rule parse_urlencode) (auto dest: parse_qsl_values)
  have u: "urlunsplit ?c = (if e = [] then b else b @ CHR ''?'' # e)"
    using urlunsplit_query[of ?c] unfolding c(4) Let_def b_def[symmetric] .
  have before: "before_char (CHR ''?'') (urlunsplit ?c) = b"
    unfolding u using free(2) before_after_append(1)[OF free(2)] by simp
  have "dropWhile (\<lambda>x. x \<noteq> CHR ''?'') b = []" unfolding dropWhile_eq_Nil_conv using free(2) by auto
  then have "after_char (CHR ''?'') b = []" by (simp only: after_char_def list.sel)
  then have "after_char (CHR ''?'') (urlunsplit ?c) = e"
    unfolding u using before_after_append(2)[OF free(2)] by simp
  then have query: "parse_qsl (after_char (CHR ''?'') (urlunsplit ?c)) = ?q" using parse by simp
  have t: "tracking_key k \<longleftrightarrow> (\<exists>t \<in> {''utm_'', ''trk'', ''ref''}. prefix t (lower k))" for k by (simp add: tracking_key_def)
  obtain n where n: "u_path p = rstrip_slash (u_path p) @ replicate n (CHR ''/'')" "\<not> suffix ''/'' (rstrip_slash (u_path p))"
    using rstrip_slash_split by blast
  have "?c\<lparr>u_query := []\<rparr> = \<lparr>u_scheme = lower (u_scheme p), u_netloc = lower (u_netloc p), u_path = rstrip_slash (u_path p), u_query = []\<rparr>"
    by (simp add: clean_parts_def)
  then have "\<exists>path n. u_path p = path @ replicate n (CHR ''/'') \<and> \<not> suffix ''/'' path \<and>
      before_char (CHR ''?'') (urlunsplit ?c) = urlunsplit \<lparr>u_scheme = lower (u_scheme p), u_netloc = lower (u_netloc p), u_path = path, u_query = []\<rparr>"
    using n before unfolding b_def by (intro exI[of _ "rstrip_slash (u_path p)"] exI[of _ n]) simp
  moreover have "CHR ''#'' \<notin> set (urlunsplit ?c)" using free hash unfolding u by simp
  ultimately show ?thesis using query unfolding cleaned_link_def t by blast
qed

section \<open>Properties\<close>

text \<open>Two listings of a source whose links differ only in tracking parameters and in the
  fragment have the same normalised link, so they are recognised as the same listing.\<close>

theorem normalize_url_ignores_tracking:
  assumes "plain_url (b @ ''?'' @ q1)" "plain_url (b @ ''?'' @ q2)" "b \<noteq> []"
    and "CHR ''?'' \<notin> set b" "CHR ''#'' \<notin> set b"
    and "filter (\<lambda>(k, _). \<not> tracking_key k) (parse_qsl (before_char (CHR ''#'') q1)) =
         filter (\<lambda>(k, _). \<not> tracking_key k) (parse_qsl (before_char (CHR ''#'') q2))"
  shows "normalize_url (Some (b @ ''?'' @ q1)) = normalize_url (Some (b @ ''?'' @ q2))"
proof -
  have n: "normalize_url (Some (b @ ''?'' @ q)) =
      map_option (\<lambda>p. Some (urlunsplit (clean_parts (p\<lparr>u_query := before_char (CHR ''#'') q\<rparr>)))) (urlsplit b)"
    if "plain_url (b @ ''?'' @ q)" for q
  proof -
    have "strip (b @ ''?'' @ q) = b @ ''?'' @ q" using that by (intro plain_url_strip) auto
    moreover have "urlsplit (b @ ''?'' @ q) = map_option (\<lambda>p. p\<lparr>u_query := before_char (CHR ''#'') q\<rparr>) (urlsplit b)"
      using urlsplit_query[of b q] that assms(4,5) by simp
    moreover have "normalize_url (Some u) = map_option (\<lambda>p. Some (urlunsplit (clean_parts p))) (urlsplit (strip u))"
      if "u \<noteq> []" for u using that by (cases u) (simp_all add: normalize_url_def)
    ultimately show ?thesis using assms(3) by (simp add: option.map_comp comp_def)
  qed
  have "clean_parts (p\<lparr>u_query := before_char (CHR ''#'') q1\<rparr>) =
      clean_parts (p\<lparr>u_query := before_char (CHR ''#'') q2\<rparr>)" for p
    using assms(6) by (simp add: clean_parts_def)
  then show ?thesis by (simp only: n[OF assms(1)] n[OF assms(2)])
qed

theorem normalize_url_ignores_tracking_witness:
  "normalize_url (Some ''https://Jobs.example.com/a/?id=7&utm_source=x#top'') =
   normalize_url (Some ''https://Jobs.example.com/a/?trk=9&id=7'')"
proof -
  let ?b = "''https://Jobs.example.com/a/''"
  have p1: "plain_url (?b @ ''?'' @ ''id=7&utm_source=x#top'')" by code_simp
  have p2: "plain_url (?b @ ''?'' @ ''trk=9&id=7'')" by code_simp
  have f1: "filter (\<lambda>(k, _). \<not> tracking_key k) (parse_qsl (before_char (CHR ''#'') ''id=7&utm_source=x#top'')) =
      [(''id'', ''7'')]" by code_simp
  have f2: "filter (\<lambda>(k, _). \<not> tracking_key k) (parse_qsl (before_char (CHR ''#'') ''trk=9&id=7'')) =
      [(''id'', ''7'')]" by code_simp
  show ?thesis using normalize_url_ignores_tracking[OF p1 p2] f1 f2 by simp
qed

end
