(* ===== verification/Normalization.thy ===== *)
theory Normalization
  imports JobModel Salary Skills Url
begin

text \<open>
  \<open>src/app/jobs/ingestion/normalization.py\<close>: normal forms of titles, companies, locations
  and roles, and the normalisation of a raw listing. The fingerprint of the content
  (\<open>sha256\<close> of its JSON text) is the parameter \<open>digest\<close>, applied to the dictionary the
  code serialises.
\<close>

section \<open>Normal forms\<close>

definition title_char :: "char \<Rightarrow> bool" where
  "title_char c \<longleftrightarrow> is_word c \<or> c \<in> set ''+/#&.-''"

text \<open>Other characters become blanks, runs of blanks one blank, and the ends are stripped.\<close>

definition normalize_title :: "string \<Rightarrow> string" where
  "normalize_title t = collapse_ws (map (\<lambda>c. if title_char c then c else CHR '' '') (lower t))"

definition normalize_company_name :: "string \<Rightarrow> string" where
  "normalize_company_name s = collapse_ws (lower s)"

definition normalize_location :: "string \<Rightarrow> string" where
  "normalize_location s = collapse_ws (lower s)"

definition role_rules :: "(rx \<times> string) list" where
  "role_rules =
     [(rx_words [rlit ''site reliability'', rlit ''sre''], ''sre''),
      (rx_words [rlit ''devops'', rlit ''dev ops''], ''devops''),
      (rx_words [rlit ''platform'', rlit ''infrastructure''], ''platform''),
      (rseq [RWordB, rlit ''cloud'', RWordB], ''cloud''),
      (rx_words [rseq [rlit ''full'', rx_sep '' -'', rlit ''stack'']], ''fullstack''),
      (rx_words [rseq [rlit ''front'', rx_sep '' -'', rlit ''end''], rlit ''react'', rlit ''angular'', rlit ''vue''], ''frontend''),
      (rx_words [rseq [rlit ''back'', rx_sep '' -'', rlit ''end''], rlit ''api engineer''], ''backend''),
      (rx_words [rlit ''machine learning'', rlit ''ml engineer''], ''machine_learning''),
      (rx_words [rlit ''data scientist'', rlit ''data science''], ''data_science''),
      (rx_words [rlit ''data engineer'', rlit ''analytics engineer''], ''data_engineering''),
      (rx_words [rlit ''qa'', rlit ''quality assurance'', rlit ''test automation''], ''qa''),
      (rx_words [rlit ''security'', rlit ''cyber''], ''security''),
      (rx_words [rlit ''ios'', rlit ''android'', rlit ''mobile''], ''mobile''),
      (rx_words [rlit ''accountant'', rlit ''accounting''], ''accounting''),
      (rx_words [rlit ''product manager'', rlit ''product management''], ''product_management''),
      (rx_words [rlit ''marketing''], ''marketing''),
      (rx_words [rlit ''software engineer'', rlit ''software developer''], ''software_engineering'')]"

definition role_families :: "string list" where
  "role_families = [''backend'', ''frontend'', ''fullstack'', ''software_engineering'', ''devops'',
     ''sre'', ''platform'', ''cloud'', ''data_engineering'', ''data_science'', ''machine_learning'',
     ''qa'', ''security'', ''mobile'', ''accounting'', ''marketing'', ''product_management'', ''other'']"

definition normalize_role :: "string \<Rightarrow> string" where
  "normalize_role title = (case first_rule role_rules (normalize_title title) of
     Some r \<Rightarrow> r | None \<Rightarrow> ''other'')"

definition role_compatibility :: "(string, string list) dict" where
  "role_compatibility =
     [(''devops'', [''devops'', ''sre'', ''platform'', ''cloud'']),
      (''sre'', [''devops'', ''sre'', ''platform'', ''cloud'']),
      (''platform'', [''devops'', ''sre'', ''platform'', ''cloud'']),
      (''cloud'', [''devops'', ''sre'', ''platform'', ''cloud'']),
      (''backend'', [''backend'', ''software_engineering'', ''fullstack'']),
      (''frontend'', [''frontend'', ''fullstack'']),
      (''fullstack'', [''fullstack'', ''backend'', ''frontend'', ''software_engineering'']),
      (''software_engineering'', [''software_engineering'', ''backend'', ''frontend'', ''fullstack'']),
      (''data_engineering'', [''data_engineering'']),
      (''data_science'', [''data_science'', ''machine_learning'']),
      (''machine_learning'', [''machine_learning'', ''data_science'']),
      (''qa'', [''qa'']),
      (''security'', [''security'']),
      (''mobile'', [''mobile''])]"

definition compatible_roles :: "string \<Rightarrow> string list" where
  "compatible_roles r = (case dget role_compatibility r of Some rs \<Rightarrow> rs | None \<Rightarrow> [r])"

definition roles_compatible :: "string \<Rightarrow> string \<Rightarrow> bool" where
  "roles_compatible candidate_role job_role \<longleftrightarrow> job_role \<in> set (compatible_roles (normalize_role candidate_role))"

fun as_utc :: "py_datetime \<Rightarrow> int" where
  "as_utc (Naive t) = t"
| "as_utc (Aware t offset) = t - offset"

section \<open>\<open>normalize_job\<close>\<close>

datatype normalize_error = BlankField | InvalidUrl

definition newline :: string where "newline = [CHR 0x0A]"

definition job_experience :: "raw_job \<Rightarrow> int option \<times> int option \<times> string option" where
  "job_experience raw =
     (if rj_experience_min raw = None \<and> rj_experience_max raw = None \<and> \<not> truthy (rj_experience_text raw)
      then (case extract_experience (rj_title raw @ newline @ opt_text (rj_description raw)) of
              None \<Rightarrow> (None, None, None)
            | Some e \<Rightarrow> (map_option int (exp_min e), map_option int (exp_max e), Some (exp_text e)))
      else (rj_experience_min raw, rj_experience_max raw, rj_experience_text raw))"

record job_pay =
  pay_min :: "rat option"
  pay_max :: "rat option"
  pay_currency :: "string option"
  pay_period :: "string option"
  pay_text :: "string option"

definition job_salary :: "raw_job \<Rightarrow> job_pay" where
  "job_salary raw =
     (let given = \<lparr>pay_min = rj_salary_min raw, pay_max = rj_salary_max raw,
        pay_currency = rj_salary_currency raw, pay_period = rj_salary_period raw,
        pay_text = rj_salary_text raw\<rparr> in
      if rj_salary_min raw = None \<and> rj_salary_max raw = None then
        (case parse_salary (opt_text (rj_salary_text raw) @ newline @ opt_text (rj_description raw)) of
           None \<Rightarrow> given
         | Some s \<Rightarrow> \<lparr>pay_min = Some (sal_min s), pay_max = Some (sal_max s),
             pay_currency = Some (sal_currency s), pay_period = sal_period s,
             pay_text = (if truthy (rj_salary_text raw) then rj_salary_text raw else Some (sal_text s))\<rparr>)
      else given)"

definition job_skills :: "raw_job \<Rightarrow> string list" where
  "job_skills raw = sort_key lower
     (merge_skills (rj_skills raw) (extract_skills_from_text (opt_text (rj_description raw))))"

definition job_employment_type :: "raw_job \<Rightarrow> string option" where
  "job_employment_type raw =
     (if truthy (rj_employment_type raw) then rj_employment_type raw
      else map_option employment_str
        (normalize_employment_type (rj_title raw @ newline @ opt_text (rj_description raw))))"

definition job_remote_type :: "raw_job \<Rightarrow> remote_type option" where
  "job_remote_type raw = or_else (rj_remote_type raw)
     (normalize_remote_type (opt_text (rj_location raw) @ newline @ opt_text (rj_description raw)) (rj_remote raw))"

definition job_remote :: "raw_job \<Rightarrow> bool option" where
  "job_remote raw =
     (if rj_remote raw = None \<and> job_remote_type raw = Some REMOTE then Some True else rj_remote raw)"

definition squeezed :: "string option \<Rightarrow> string option" where
  "squeezed s = (if truthy s then Some (collapse_ws (opt_text s)) else None)"

definition text_json :: "string option \<Rightarrow> json" where
  "text_json s = (case s of None \<Rightarrow> JNull | Some t \<Rightarrow> JStr t)"

definition time_json :: "int option \<Rightarrow> json" where
  "time_json t = (case t of None \<Rightarrow> JNull | Some n \<Rightarrow> JStr (iso_instant n))"

definition job_content :: "raw_job \<Rightarrow> string option \<Rightarrow> (string, json) dict" where
  "job_content raw url =
     [(''company'', text_json (squeezed (rj_company raw))),
      (''description'', text_json (rj_description raw)),
      (''employment_type'', text_json (job_employment_type raw)),
      (''job_url'', text_json url),
      (''location'', text_json (squeezed (rj_location raw))),
      (''posted_at'', time_json (map_option as_utc (rj_posted_at raw))),
      (''remote'', (case job_remote raw of None \<Rightarrow> JNull | Some b \<Rightarrow> JBool b)),
      (''salary_text'', text_json (pay_text (job_salary raw))),
      (''skills'', JList (map JStr (sort (map lower (job_skills raw))))),
      (''source_updated_at'', time_json (map_option as_utc (rj_source_updated_at raw))),
      (''title'', JStr (collapse_ws (rj_title raw)))]"

definition normalize_job ::
  "((string, json) dict \<Rightarrow> string) \<Rightarrow> raw_job \<Rightarrow> normalize_error + normalized_job" where
  "normalize_job digest raw =
     (let source = lower (strip (rj_source raw));
          external_job_id = strip (rj_external_id raw);
          job_title = collapse_ws (rj_title raw)
      in if source = [] \<or> external_job_id = [] \<or> job_title = [] then Inl BlankField
         else (case normalize_url (rj_url raw) of
            None \<Rightarrow> Inl InvalidUrl
          | Some url \<Rightarrow>
              let (minimum, maximum, experience_text) = job_experience raw;
                  pay = job_salary raw;
                  company = squeezed (rj_company raw);
                  location = squeezed (rj_location raw)
              in Inr \<lparr>nj_source = source, nj_external_id = external_job_id, nj_title = job_title,
                   nj_normalized_title = normalize_title job_title,
                   nj_role_family = normalize_role job_title,
                   nj_company = company,
                   nj_normalized_company =
                     (if truthy company then Some (normalize_company_name (opt_text company)) else None),
                   nj_location = location,
                   nj_normalized_location =
                     (if truthy location then Some (normalize_location (opt_text location)) else None),
                   nj_url = url, nj_description = rj_description raw,
                   nj_salary_text = pay_text pay, nj_employment_type = job_employment_type raw,
                   nj_remote = job_remote raw, nj_skills = job_skills raw,
                   nj_posted_at = map_option as_utc (rj_posted_at raw),
                   nj_source_updated_at = map_option as_utc (rj_source_updated_at raw),
                   nj_experience_min = minimum, nj_experience_max = maximum,
                   nj_experience_text = experience_text,
                   nj_content_hash = digest (job_content raw url), nj_raw_data = rj_raw_data raw,
                   nj_salary_min = pay_min pay, nj_salary_max = pay_max pay,
                   nj_salary_currency = pay_currency pay, nj_salary_period = pay_period pay,
                   nj_remote_type = job_remote_type raw\<rparr>))"

section \<open>Lemmas\<close>

lemma join_chars: "c \<in> set (join sep ps) \<Longrightarrow> c \<in> set sep \<or> (\<exists>p \<in> set ps. c \<in> set p)"
  by (induction sep ps rule: join.induct) auto

lemma collapse_ws_chars: "c \<in> set (collapse_ws s) \<Longrightarrow> c = CHR '' '' \<or> c \<in> set s"
  unfolding collapse_ws_def using join_chars[of c "'' ''"] split_ws_chars by fastforce

lemma title_char_lower: "title_char c \<Longrightarrow> c \<noteq> lower_char d \<or> lower_char c = c"
  by auto

lemma normalize_title_chars:
  "c \<in> set (normalize_title t) \<Longrightarrow> lower_char c = c \<and> (title_char c \<or> c = CHR '' '')"
proof -
  assume c: "c \<in> set (normalize_title t)"
  have sp: "lower_char (CHR '' '') = CHR '' ''" by (simp add: lower_char_def is_upper_def char_code_def)
  show ?thesis using collapse_ws_chars[OF c[unfolded normalize_title_def]] sp
    by (auto simp: lower_def split: if_splits)
qed

lemma normalize_title_idem [simp]: "normalize_title (normalize_title t) = normalize_title t"
proof -
  have l: "lower (normalize_title t) = normalize_title t"
    unfolding lower_def by (rule map_idI) (use normalize_title_chars in blast)
  have "map (\<lambda>c. if title_char c then c else CHR '' '') (normalize_title t) = normalize_title t"
    by (rule map_idI) (use normalize_title_chars in auto)
  then have "normalize_title (normalize_title t) = collapse_ws (normalize_title t)"
    by (simp add: normalize_title_def[of "normalize_title t"] l)
  then show ?thesis by (simp add: normalize_title_def)
qed

lemma normalize_role_title [simp]: "normalize_role (normalize_title t) = normalize_role t"
  by (simp add: normalize_role_def)

lemma first_rule_in: "first_rule rs s = Some t \<Longrightarrow> t \<in> snd ` set rs"
  unfolding first_rule_def by (drule first_someD) (auto split: if_splits intro: rev_image_eqI)

lemma role_rules_families: "snd ` set role_rules \<subseteq> set role_families"
proof -
  have m: "map snd role_rules = [''sre'', ''devops'', ''platform'', ''cloud'', ''fullstack'', ''frontend'',
      ''backend'', ''machine_learning'', ''data_science'', ''data_engineering'', ''qa'', ''security'',
      ''mobile'', ''accounting'', ''product_management'', ''marketing'', ''software_engineering'']"
    by (simp only: role_rules_def list.map snd_conv)
  have "list_all (\<lambda>r. r \<in> set role_families) [''sre'', ''devops'', ''platform'', ''cloud'', ''fullstack'', ''frontend'',
      ''backend'', ''machine_learning'', ''data_science'', ''data_engineering'', ''qa'', ''security'',
      ''mobile'', ''accounting'', ''product_management'', ''marketing'', ''software_engineering'']"
    by code_simp
  then have "list_all (\<lambda>r. r \<in> set role_families) (map snd role_rules)" unfolding m .
  then show ?thesis by (auto simp: list_all_iff)
qed

lemma normalize_role_family: "normalize_role t \<in> set role_families"
proof (cases "first_rule role_rules (normalize_title t)")
  case None
  then show ?thesis by (simp add: normalize_role_def role_families_def)
next
  case (Some r)
  then have "r \<in> set role_families" by (intro subsetD[OF role_rules_families] first_rule_in)
  then show ?thesis using Some by (simp add: normalize_role_def)
qed

lemma compatible_roles_refl: "r \<in> set role_families \<Longrightarrow> r \<in> set (compatible_roles r)"
proof -
  have "list_all (\<lambda>r. r \<in> set (compatible_roles r)) role_families" by code_simp
  then show "r \<in> set role_families \<Longrightarrow> ?thesis" by (simp add: list_all_iff)
qed

lemma roles_compatible_refl: "roles_compatible t (normalize_role t)"
  by (simp add: roles_compatible_def compatible_roles_refl normalize_role_family)

text \<open>The skills a listing ends with are the same set, up to case, in whatever order the
  source lists them.\<close>

lemma extract_list_names:
  "lower ` set (extract_skills_from_list xs) =
     lower ` (\<Union>raw \<in> set xs - {[]}. set (List.map_filter normalize_skill (split_by list_separator raw)))"
  by (auto simp: extract_skills_from_list_def add_new_covers split: if_splits)

lemma merge_names_perm:
  assumes "mset xs = mset ys"
  shows "lower ` set (merge_skills xs ts) = lower ` set (merge_skills ys ts)"
  using mset_eq_setD[OF assms] by (simp add: merge_skills_def add_new_covers extract_list_names)

lemma merge_distinct: "distinct (map lower (merge_skills xs ts))"
  unfolding merge_skills_def using wf_intros by (metis add_new_distinct distinct_names_Nil distinct_names_def)

lemma sort_distinct_eq: "\<lbrakk>distinct xs; distinct ys; set xs = set ys\<rbrakk> \<Longrightarrow> sort xs = sort (ys :: 'a::linorder list)"
  by (metis distinct_sort set_sort sorted_distinct_set_unique sorted_sort)

lemma job_skills_distinct: "distinct (map lower (job_skills raw))"
  unfolding job_skills_def by (metis distinct_map distinct_sort merge_distinct set_sort)

lemma job_skills_sorted: "sorted (map lower (job_skills raw))"
  by (simp add: job_skills_def)

lemma skill_fingerprint_perm:
  assumes "mset xs = mset (rj_skills raw)"
  shows "sort (map lower (job_skills (raw\<lparr>rj_skills := xs\<rparr>))) = sort (map lower (job_skills raw))"
  using job_skills_distinct[of "raw\<lparr>rj_skills := xs\<rparr>"] job_skills_distinct[of raw] merge_names_perm[OF assms]
  by (intro sort_distinct_eq) (simp_all add: job_skills_def)

text \<open>A listing as another source with another identifier and another order of skills
  would carry it.\<close>

definition relisted :: "raw_job \<Rightarrow> string \<Rightarrow> string \<Rightarrow> string list \<Rightarrow> raw_job" where
  "relisted raw src ident skills =
     raw\<lparr>rj_source := src, rj_external_id := ident, rj_skills := skills\<rparr>"

lemma relisted_sel:
  "rj_title (relisted raw a b xs) = rj_title raw" "rj_company (relisted raw a b xs) = rj_company raw"
  "rj_location (relisted raw a b xs) = rj_location raw"
  "rj_description (relisted raw a b xs) = rj_description raw"
  "rj_salary_text (relisted raw a b xs) = rj_salary_text raw"
  "rj_salary_min (relisted raw a b xs) = rj_salary_min raw"
  "rj_salary_max (relisted raw a b xs) = rj_salary_max raw"
  "rj_salary_currency (relisted raw a b xs) = rj_salary_currency raw"
  "rj_salary_period (relisted raw a b xs) = rj_salary_period raw"
  "rj_employment_type (relisted raw a b xs) = rj_employment_type raw"
  "rj_remote (relisted raw a b xs) = rj_remote raw"
  "rj_remote_type (relisted raw a b xs) = rj_remote_type raw"
  "rj_posted_at (relisted raw a b xs) = rj_posted_at raw"
  "rj_source_updated_at (relisted raw a b xs) = rj_source_updated_at raw"
  "rj_url (relisted raw a b xs) = rj_url raw" "rj_skills (relisted raw a b xs) = xs"
  by (simp_all add: relisted_def)

lemma relisted_parts:
  "job_employment_type (relisted raw a b xs) = job_employment_type raw"
  "job_remote_type (relisted raw a b xs) = job_remote_type raw"
  "job_remote (relisted raw a b xs) = job_remote raw"
  "job_salary (relisted raw a b xs) = job_salary raw"
  unfolding job_employment_type_def job_remote_def job_remote_type_def job_salary_def relisted_sel
  by (rule refl)+

lemma relisted_skills:
  assumes "mset xs = mset (rj_skills raw)"
  shows "sort (map lower (job_skills (relisted raw a b xs))) = sort (map lower (job_skills raw))"
proof (rule sort_distinct_eq)
  have "lower ` set (job_skills (relisted raw a b xs)) =
      lower ` set (merge_skills xs (extract_skills_from_text (opt_text (rj_description raw))))"
    unfolding job_skills_def relisted_sel by (simp only: set_sort)
  then show "set (map lower (job_skills (relisted raw a b xs))) = set (map lower (job_skills raw))"
    by (simp add: merge_names_perm[OF assms] job_skills_def[of raw])
qed (rule job_skills_distinct)+

lemma job_content_relisted:
  "mset xs = mset (rj_skills raw) \<Longrightarrow> job_content (relisted raw a b xs) url = job_content raw url"
  unfolding job_content_def relisted_parts relisted_sel by (simp only: relisted_skills)

lemma join_hd: "\<lbrakk>ps \<noteq> []; hd ps \<noteq> []\<rbrakk> \<Longrightarrow> hd (join sep ps) = hd (hd ps)"
  by (cases ps; cases "tl ps") auto

lemma join_last: "\<lbrakk>ps \<noteq> []; last ps \<noteq> []\<rbrakk> \<Longrightarrow> join sep ps \<noteq> [] \<and> last (join sep ps) = last (last ps)"
  by (induction sep ps rule: join.induct) auto

lemma collapse_ws_strip [simp]: "strip (collapse_ws s) = collapse_ws s"
proof (cases "split_ws s")
  case Nil
  then show ?thesis by (simp add: collapse_ws_def strip_def lstrip_def rstrip_def)
next
  case (Cons p ps)
  have parts: "q \<noteq> [] \<and> (\<forall>c \<in> set q. \<not> is_space c)" if "q \<in> set (split_ws s)" for q
    using split_ws_parts that by blast
  have h: "hd (split_ws s) \<in> set (split_ws s)" "last (split_ws s) \<in> set (split_ws s)"
    using Cons by (metis hd_in_set last_in_set list.distinct(1))+
  have ends: "hd (collapse_ws s) = hd (hd (split_ws s))" "collapse_ws s \<noteq> []"
    "last (collapse_ws s) = last (last (split_ws s))"
    using join_hd[of "split_ws s"] join_last[of "split_ws s"] parts h Cons
    by (auto simp: collapse_ws_def)
  show ?thesis
    by (rule strip_fixed) (use ends parts[OF h(1)] parts[OF h(2)] in auto)
qed

lemma strip_ne_stripped: "strip s \<noteq> [] \<Longrightarrow> strip (lower (strip s)) = lower (strip s)"
proof (rule strip_fixed)
  assume s: "strip s \<noteq> []"
  show "lower (strip s) \<noteq> []" using s by simp
  show "\<not> is_space (hd (lower (strip s)))"
    using s strip_head[of s] by (cases "strip s") (auto simp: lower_def)
  show "\<not> is_space (last (lower (strip s)))"
    using s strip_last[of s] by (simp add: lower_def last_map)
qed

text \<open>A raw listing whose own figures are ordered and not negative.\<close>

definition raw_ordered :: "raw_job \<Rightarrow> bool" where
  "raw_ordered raw \<longleftrightarrow> nonneg_opt (rj_experience_min raw) \<and> nonneg_opt (rj_experience_max raw) \<and>
     ordered_opt (rj_experience_min raw) (rj_experience_max raw) \<and>
     ordered_opt (rj_salary_min raw) (rj_salary_max raw)"

lemma extract_experience_ordered:
  "extract_experience s = Some e \<Longrightarrow> ordered_opt (map_option int (exp_min e)) (map_option int (exp_max e))"
  using experience_found_ordered[of s e] by (cases "exp_min e"; cases "exp_max e") auto

lemma job_experience_ordered:
  assumes "raw_ordered raw" "job_experience raw = (a, b, t)"
  shows "nonneg_opt a \<and> nonneg_opt b \<and> ordered_opt a b"
proof (cases "extract_experience (rj_title raw @ newline @ opt_text (rj_description raw))")
  case None
  then show ?thesis using assms by (auto simp: job_experience_def raw_ordered_def nonneg_opt_def split: if_splits)
next
  case (Some e)
  have "nonneg_opt (map_option int x)" for x by (cases x) (auto simp: nonneg_opt_def)
  then show ?thesis using assms Some extract_experience_ordered[OF Some]
    by (auto simp: job_experience_def raw_ordered_def split: if_splits)
qed

lemma job_salary_ordered:
  "raw_ordered raw \<Longrightarrow> ordered_opt (pay_min (job_salary raw)) (pay_max (job_salary raw))"
  using salary_found_ordered
  by (auto simp: job_salary_def raw_ordered_def Let_def split: option.splits)

lemma normalize_job_accepts:
  "\<lbrakk>strip (rj_source raw) \<noteq> []; strip (rj_external_id raw) \<noteq> []; collapse_ws (rj_title raw) \<noteq> [];
    normalize_url (rj_url raw) = Some url\<rbrakk> \<Longrightarrow> \<exists>j. normalize_job digest raw = Inr j"
  by (cases "job_experience raw") (simp add: normalize_job_def Let_def)

lemma normalize_job_rejects:
  "strip (rj_source raw) = [] \<or> strip (rj_external_id raw) = [] \<or> collapse_ws (rj_title raw) = [] \<longleftrightarrow>
   normalize_job digest raw = Inl BlankField"
  by (cases "job_experience raw") (auto simp: normalize_job_def Let_def split: option.splits)

definition sample_raw :: raw_job where
  "sample_raw = \<lparr>rj_source = '' Dice'', rj_external_id = ''x-1 '', rj_title = ''Senior  Backend Engineer'',
     rj_company = Some ''Acme'', rj_location = None, rj_url = None, rj_description = None,
     rj_salary_text = None, rj_salary_min = Some 10, rj_salary_max = Some 20, rj_salary_currency = None,
     rj_salary_period = None, rj_employment_type = None, rj_remote = None, rj_remote_type = None,
     rj_posted_at = Some (Aware 7200 3600), rj_source_updated_at = None, rj_skills = [''sql'', ''Python''],
     rj_experience_min = Some 2, rj_experience_max = None, rj_experience_text = None, rj_raw_data = []\<rparr>"

lemma sample_raw_sel [simp]:
  "rj_source sample_raw = '' Dice''" "rj_external_id sample_raw = ''x-1 ''"
  "rj_title sample_raw = ''Senior  Backend Engineer''" "rj_url sample_raw = None"
  "rj_skills sample_raw = [''sql'', ''Python'']"
  by (simp_all add: sample_raw_def)

lemma sample_raw_accepted:
  "\<exists>j. normalize_job digest sample_raw = Inr j"
  "\<exists>j. normalize_job digest (relisted sample_raw ''linkedin'' ''42'' [''Python'', ''sql'']) = Inr j"
proof -
  have n: "strip '' Dice'' \<noteq> []" "strip ''x-1 '' \<noteq> []" "collapse_ws ''Senior  Backend Engineer'' \<noteq> []"
    "strip ''linkedin'' \<noteq> []" "strip ''42'' \<noteq> []"
    by code_simp+
  show "\<exists>j. normalize_job digest sample_raw = Inr j"
    by (rule normalize_job_accepts[where url = None]) (simp_all add: n normalize_url_def)
  show "\<exists>j. normalize_job digest (relisted sample_raw ''linkedin'' ''42'' [''Python'', ''sql'']) = Inr j"
    by (rule normalize_job_accepts[where url = None]) (simp_all add: n normalize_url_def relisted_def)
qed

section \<open>Properties\<close>

text \<open>C11: a listing is normalised exactly when its source, identifier and title are not
  blank and its link, if it has one, splits into parts. Then the identity is stripped, the title
  normal form is stable, the role is one of the known families and compatible with itself,
  skills are sorted and pairwise different up to case, the link is clean (no fragment, no
  tracking parameter, lower-case scheme and host, no trailing slash, and all its other
  parameters kept), and the years and the pay satisfy the constraints of the tables whenever the
  figures the source itself supplied do.\<close>

theorem normalize_job_wellformed:
  assumes "raw_ordered raw"
  shows "case normalize_job digest raw of
      Inl BlankField \<Rightarrow> strip (rj_source raw) = [] \<or> strip (rj_external_id raw) = [] \<or> collapse_ws (rj_title raw) = []
    | Inl InvalidUrl \<Rightarrow> (\<exists>s. rj_url raw = Some s \<and> s \<noteq> [] \<and> urlsplit (strip s) = None)
    | Inr j \<Rightarrow> nj_source j = lower (strip (rj_source raw)) \<and> nj_source j \<noteq> [] \<and> strip (nj_source j) = nj_source j \<and>
        nj_external_id j = strip (rj_external_id raw) \<and> nj_external_id j \<noteq> [] \<and>
        nj_title j \<noteq> [] \<and> strip (nj_title j) = nj_title j \<and>
        normalize_title (nj_normalized_title j) = nj_normalized_title j \<and>
        nj_role_family j \<in> set role_families \<and> roles_compatible (nj_title j) (nj_role_family j) \<and>
        sorted (map lower (nj_skills j)) \<and> distinct (map lower (nj_skills j)) \<and>
        (case nj_url j of
           None \<Rightarrow> rj_url raw = None \<or> rj_url raw = Some []
         | Some u \<Rightarrow> \<exists>s p. rj_url raw = Some s \<and> s \<noteq> [] \<and> urlsplit (strip s) = Some p \<and> cleaned_link p u) \<and>
        nonneg_opt (nj_experience_min j) \<and> nonneg_opt (nj_experience_max j) \<and>
        ordered_opt (nj_experience_min j) (nj_experience_max j) \<and>
        ordered_opt (nj_salary_min j) (nj_salary_max j)"
proof (cases "normalize_job digest raw")
  case (Inl e)
  show ?thesis
  proof (cases e)
    case BlankField
    then have "strip (rj_source raw) = [] \<or> strip (rj_external_id raw) = [] \<or> collapse_ws (rj_title raw) = []"
      using Inl normalize_job_rejects by blast
    then show ?thesis using Inl BlankField by simp
  next
    case InvalidUrl
    then have "normalize_url (rj_url raw) = None"
      using Inl by (auto simp: normalize_job_def Let_def split: if_splits option.splits prod.splits)
    then have "\<exists>s. rj_url raw = Some s \<and> s \<noteq> [] \<and> urlsplit (strip s) = None"
      by (auto simp: normalize_url_def split: option.splits list.splits)
    then show ?thesis using Inl InvalidUrl by simp
  qed
next
  case (Inr j)
  obtain a b t where e: "job_experience raw = (a, b, t)" by (rule prod_cases3)
  have ne: "lower (strip (rj_source raw)) \<noteq> []" "strip (rj_external_id raw) \<noteq> []" "collapse_ws (rj_title raw) \<noteq> []"
    using Inr by (auto simp: normalize_job_def Let_def split: if_splits)
  have j: "nj_source j = lower (strip (rj_source raw))" "nj_external_id j = strip (rj_external_id raw)"
    "nj_title j = collapse_ws (rj_title raw)"
    "nj_normalized_title j = normalize_title (collapse_ws (rj_title raw))"
    "nj_role_family j = normalize_role (collapse_ws (rj_title raw))"
    "nj_skills j = job_skills raw" "nj_experience_min j = a" "nj_experience_max j = b"
    "nj_salary_min j = pay_min (job_salary raw)" "nj_salary_max j = pay_max (job_salary raw)"
    "normalize_url (rj_url raw) = Some (nj_url j)"
    using Inr e by (auto simp: normalize_job_def Let_def split: if_splits option.splits)
  have "case nj_url j of
       None \<Rightarrow> rj_url raw = None \<or> rj_url raw = Some []
     | Some u \<Rightarrow> \<exists>s p. rj_url raw = Some s \<and> s \<noteq> [] \<and> urlsplit (strip s) = Some p \<and> cleaned_link p u"
  proof (cases "rj_url raw = None \<or> rj_url raw = Some []")
    case True
    then have "nj_url j = None" using j(11) by (auto simp: normalize_url_def)
    then show ?thesis using True by simp
  next
    case False
    then obtain x xs where x: "rj_url raw = Some (x # xs)" by (metis list.exhaust option.exhaust)
    then obtain p where p: "urlsplit (strip (x # xs)) = Some p" "nj_url j = Some (urlunsplit (clean_parts p))"
      using j(11) by (auto simp: normalize_url_def)
    show ?thesis unfolding p(2) using x p(1) clean_parts_cleaned[OF p(1)] by simp
  qed
  then show ?thesis
    unfolding Inr sum.case using ne job_experience_ordered[OF assms e] job_salary_ordered[OF assms] j(1-10)
    by (simp add: strip_ne_stripped normalize_role_family roles_compatible_refl job_skills_distinct job_skills_sorted)
qed

definition linked_raw :: raw_job where
  "linked_raw = sample_raw\<lparr>rj_url := Some ''https://Jobs.example.com/a/?id=7&utm_source=x#top''\<rparr>"

theorem normalize_job_wellformed_witness:
  "case normalize_job (\<lambda>_. ''h'') linked_raw of Inl _ \<Rightarrow> False | Inr j \<Rightarrow> nj_url j = Some ''https://jobs.example.com/a?id=7'' \<and>
     (\<exists>p. cleaned_link p ''https://jobs.example.com/a?id=7'') \<and> ordered_opt (nj_salary_min j) (nj_salary_max j)"
proof -
  have n: "strip '' Dice'' \<noteq> []" "strip ''x-1 '' \<noteq> []" "collapse_ws ''Senior  Backend Engineer'' \<noteq> []"
    "normalize_url (rj_url linked_raw) = Some (Some ''https://jobs.example.com/a?id=7'')" by code_simp+
  have sel: "rj_source linked_raw = rj_source sample_raw" "rj_external_id linked_raw = rj_external_id sample_raw"
    "rj_title linked_raw = rj_title sample_raw" by (simp_all add: linked_raw_def)
  obtain j where j: "normalize_job (\<lambda>_. ''h'') linked_raw = Inr j"
    using normalize_job_accepts[of linked_raw _ "\<lambda>_. ''h''", OF _ _ _ n(4)] n sel by auto
  then have u: "nj_url j = Some ''https://jobs.example.com/a?id=7''"
    using n(4) by (auto simp: normalize_job_def Let_def split: if_splits prod.splits)
  have "raw_ordered linked_raw" by (simp add: raw_ordered_def linked_raw_def sample_raw_def nonneg_opt_def)
  from normalize_job_wellformed[OF this, of "\<lambda>_. ''h''"] show ?thesis unfolding j sum.case u option.case by blast
qed

text \<open>C28: the content fingerprint of a listing depends on neither the source, nor the
  identifier the source gives it, nor the order in which it lists the skills.\<close>

theorem content_hash_source_independent:
  assumes "mset xs = mset (rj_skills raw)"
    and "normalize_job digest raw = Inr j" "normalize_job digest (relisted raw src ident xs) = Inr k"
  shows "nj_content_hash k = nj_content_hash j"
proof -
  obtain url where u: "normalize_url (rj_url raw) = Some url"
    using assms(2) by (auto simp: normalize_job_def Let_def split: if_splits option.splits)
  have ru: "rj_url (relisted raw src ident xs) = rj_url raw" by (rule relisted_sel)
  have "nj_content_hash j = digest (job_content raw url)"
    using assms(2) u by (auto simp: normalize_job_def Let_def split: if_splits prod.splits)
  moreover have "nj_content_hash k = digest (job_content (relisted raw src ident xs) url)"
    using assms(3) u ru by (auto simp: normalize_job_def Let_def split: if_splits prod.splits)
  ultimately show ?thesis by (simp add: job_content_relisted[OF assms(1)])
qed

theorem content_hash_source_independent_witness:
  "\<exists>j k. normalize_job (\<lambda>c. concat (map fst c)) sample_raw = Inr j \<and>
     normalize_job (\<lambda>c. concat (map fst c)) (relisted sample_raw ''linkedin'' ''42'' [''Python'', ''sql'']) = Inr k \<and>
     nj_content_hash k = nj_content_hash j"
proof -
  obtain j where j: "normalize_job (\<lambda>c. concat (map fst c)) sample_raw = Inr j"
    using sample_raw_accepted(1) by blast
  obtain k where k: "normalize_job (\<lambda>c. concat (map fst c))
      (relisted sample_raw ''linkedin'' ''42'' [''Python'', ''sql'']) = Inr k"
    using sample_raw_accepted(2) by blast
  have "mset [''Python'', ''sql''] = mset (rj_skills sample_raw)" by simp
  then show ?thesis using content_hash_source_independent[OF _ j k] j k by blast
qed

end
