(* ===== verification/Dedup.thy ===== *)
theory Dedup
  imports Normalization
begin

text \<open>
  \<open>src/app/jobs/ingestion/deduplication.py\<close>, \<open>canonicalization.py\<close> and \<open>freshness.py\<close>:
  when an observed listing may reuse a canonical job. Confidence scores are exact
  rationals; the decision threshold is met exactly when the float sums of the code meet it.
\<close>

record dedup_decision =
  dd_job_id :: "nat option"
  dd_confidence :: rat
  dd_method :: string
  dd_evidence :: "string list"
  dd_should_merge :: bool

definition decision :: "nat option \<Rightarrow> rat \<Rightarrow> string \<Rightarrow> string list \<Rightarrow> bool \<Rightarrow> dedup_decision" where
  "decision i c m e b = \<lparr>dd_job_id = i, dd_confidence = c, dd_method = m, dd_evidence = e, dd_should_merge = b\<rparr>"

definition evaluate_same_source_url :: "canonical_job option \<Rightarrow> dedup_decision" where
  "evaluate_same_source_url candidate =
     (case candidate of
        None \<Rightarrow> decision None 0 ''no_candidate'' [] False
      | Some c \<Rightarrow> decision (Some (cj_id c)) 1 ''same_source_url'' [''source'', ''normalized_source_url''] True)"

type_synonym evidence = "string list \<times> rat"

definition title_evidence :: "canonical_job \<Rightarrow> normalized_job \<Rightarrow> evidence" where
  "title_evidence c j = (if cj_normalized_title c = nj_normalized_title j
     then ([''exact_normalized_title''], 4 / 10) else ([], 0))"

text \<open>\<open>None\<close> is the early return on a location mismatch.\<close>

definition location_evidence :: "canonical_job \<Rightarrow> normalized_job \<Rightarrow> evidence option" where
  "location_evidence c j =
     (let a = truthy (cj_normalized_location c); b = truthy (nj_normalized_location j) in
      if a \<and> b then
        (if cj_normalized_location c = nj_normalized_location j
         then Some ([''exact_normalized_location''], 2 / 10) else None)
      else if \<not> a \<and> \<not> b then Some ([''both_no_location''], 0)
      else Some ([''partial_location''], 0))"

definition type_evidence :: "canonical_job \<Rightarrow> normalized_job \<Rightarrow> evidence option" where
  "type_evidence c j =
     (if truthy (cj_employment_type c) \<and> truthy (nj_employment_type j) then
        (if cj_employment_type c = nj_employment_type j
         then Some ([''exact_employment_type''], 1 / 10) else None)
      else Some ([], 0))"

definition description_evidence :: "canonical_job \<Rightarrow> normalized_job \<Rightarrow> evidence" where
  "description_evidence c j =
     (if truthy (cj_description c) \<and> truthy (nj_description j) then
        (let d1 = lower (opt_text (cj_description c)); d2 = lower (opt_text (nj_description j)) in
         if d1 = d2 then ([''exact_description''], 5 / 10)
         else if length d1 > 100 \<and> length d2 > 100 then
           (if contains_sub d1 d2 \<or> contains_sub d2 d1 then ([''subset_description''], 3 / 10) else ([], 0))
         else ([], 0))
      else ([], 0))"

definition date_evidence :: "canonical_job \<Rightarrow> normalized_job \<Rightarrow> evidence" where
  "date_evidence c j =
     (case (cj_posted_at c, nj_posted_at j) of
        (Some a, Some b) \<Rightarrow> if \<bar>a - b\<bar> \<le> 3 * day_us then ([''close_posted_date''], 1 / 10) else ([], 0)
      | _ \<Rightarrow> ([], 0))"

definition evaluate_cross_source_candidate :: "canonical_job \<Rightarrow> normalized_job \<Rightarrow> dedup_decision" where
  "evaluate_cross_source_candidate c j =
     (let i = Some (cj_id c) in
      if \<not> cj_is_active c then decision i 0 ''candidate_inactive'' [] False
      else if cj_company_id c \<noteq> None \<and> \<not> truthy (nj_normalized_company j)
      then decision i 0 ''missing_incoming_company'' [] False
      else let (e1, c1) = title_evidence c j in
        (case location_evidence c j of
           None \<Rightarrow> decision i 0 ''location_mismatch'' e1 False
         | Some (e2, c2) \<Rightarrow>
             (case type_evidence c j of
                None \<Rightarrow> decision i 0 ''employment_type_mismatch'' (e1 @ e2) False
              | Some (e3, c3) \<Rightarrow>
                  let (e4, c4) = description_evidence c j; (e5, c5) = date_evidence c j;
                      evidence = e1 @ e2 @ e3 @ e4 @ e5; confidence = c1 + c2 + c3 + c4 + c5
                  in if confidence \<ge> 7 / 10 \<and> ''exact_normalized_title'' \<in> set evidence
                     then decision i confidence ''composite_high_confidence'' evidence True
                     else decision i confidence ''insufficient_evidence'' evidence False)))"

text \<open>\<open>build_canonical_hash\<close>; \<open>digest\<close> is \<open>sha256\<close>.\<close>

definition build_canonical_hash :: "(string \<Rightarrow> string) \<Rightarrow> normalized_job \<Rightarrow> string" where
  "build_canonical_hash digest j =
     digest (join [CHR 0x00] [opt_text (nj_normalized_company j), nj_normalized_title j,
       opt_text (nj_normalized_location j),
       (case nj_posted_at j of Some t \<Rightarrow> iso_date t | None \<Rightarrow> [])])"

definition mark_canonical_seen :: "int \<Rightarrow> canonical_job \<Rightarrow> canonical_job" where
  "mark_canonical_seen observed_at job = job\<lparr>cj_last_seen_at := observed_at, cj_is_active := True\<rparr>"

section \<open>Lemmas\<close>

lemma decision_sel [simp]:
  "dd_should_merge (decision i c m e b) = b" "dd_confidence (decision i c m e b) = c"
  "dd_job_id (decision i c m e b) = i" "dd_method (decision i c m e b) = m"
  "dd_evidence (decision i c m e b) = e"
  by (simp_all add: decision_def)

lemma evidence_no_title:
  "location_evidence c j = Some (e, x) \<Longrightarrow> ''exact_normalized_title'' \<notin> set e"
  "type_evidence c j = Some (e, x) \<Longrightarrow> ''exact_normalized_title'' \<notin> set e"
  "description_evidence c j = (e, x) \<Longrightarrow> ''exact_normalized_title'' \<notin> set e"
  "date_evidence c j = (e, x) \<Longrightarrow> ''exact_normalized_title'' \<notin> set e"
  by (auto simp: location_evidence_def type_evidence_def description_evidence_def date_evidence_def
      Let_def split: if_splits option.splits)

lemma evidence_bounds:
  "title_evidence c j = (e, x) \<Longrightarrow> 0 \<le> x \<and> x \<le> 4 / 10"
  "location_evidence c j = Some (e, x) \<Longrightarrow> 0 \<le> x \<and> x \<le> 2 / 10"
  "type_evidence c j = Some (e, x) \<Longrightarrow> 0 \<le> x \<and> x \<le> 1 / 10"
  "description_evidence c j = (e, x) \<Longrightarrow> 0 \<le> x \<and> x \<le> 5 / 10"
  "date_evidence c j = (e, x) \<Longrightarrow> 0 \<le> x \<and> x \<le> 1 / 10"
  by (auto simp: title_evidence_def location_evidence_def type_evidence_def description_evidence_def
      date_evidence_def Let_def split: if_splits option.splits)

lemma merge_cases:
  assumes "dd_should_merge (evaluate_cross_source_candidate c j)"
  obtains e2 c2 e3 c3 e4 c4 e5 c5 where
    "cj_is_active c" "cj_company_id c \<noteq> None \<longrightarrow> truthy (nj_normalized_company j)"
    "cj_normalized_title c = nj_normalized_title j"
    "location_evidence c j = Some (e2, c2)" "type_evidence c j = Some (e3, c3)"
    "description_evidence c j = (e4, c4)" "date_evidence c j = (e5, c5)"
    "4 / 10 + c2 + c3 + c4 + c5 \<ge> 7 / 10"
    "dd_confidence (evaluate_cross_source_candidate c j) = 4 / 10 + c2 + c3 + c4 + c5"
proof -
  have act: "cj_is_active c" "cj_company_id c \<noteq> None \<longrightarrow> truthy (nj_normalized_company j)"
    using assms by (auto simp: evaluate_cross_source_candidate_def Let_def split: if_splits)
  obtain e1 c1 where t: "title_evidence c j = (e1, c1)" by (rule prod.exhaust)
  obtain e2 c2 where l: "location_evidence c j = Some (e2, c2)"
    using assms act t by (cases "location_evidence c j") (auto simp: evaluate_cross_source_candidate_def Let_def)
  obtain e3 c3 where y: "type_evidence c j = Some (e3, c3)"
    using assms act t l by (cases "type_evidence c j") (auto simp: evaluate_cross_source_candidate_def Let_def)
  obtain e4 c4 where d: "description_evidence c j = (e4, c4)" by (rule prod.exhaust)
  obtain e5 c5 where p: "date_evidence c j = (e5, c5)" by (rule prod.exhaust)
  have ev: "evaluate_cross_source_candidate c j =
      (if c1 + c2 + c3 + c4 + c5 \<ge> 7 / 10 \<and> ''exact_normalized_title'' \<in> set (e1 @ e2 @ e3 @ e4 @ e5)
       then decision (Some (cj_id c)) (c1 + c2 + c3 + c4 + c5) ''composite_high_confidence'' (e1 @ e2 @ e3 @ e4 @ e5) True
       else decision (Some (cj_id c)) (c1 + c2 + c3 + c4 + c5) ''insufficient_evidence'' (e1 @ e2 @ e3 @ e4 @ e5) False)"
    using act by (auto simp: evaluate_cross_source_candidate_def Let_def t l y d p)
  have m: "c1 + c2 + c3 + c4 + c5 \<ge> 7 / 10" "''exact_normalized_title'' \<in> set (e1 @ e2 @ e3 @ e4 @ e5)"
    using assms unfolding ev by (auto split: if_splits)
  then have "''exact_normalized_title'' \<in> set e1"
    using evidence_no_title(1)[OF l] evidence_no_title(2)[OF y] evidence_no_title(3)[OF d] evidence_no_title(4)[OF p]
    by simp
  then have title: "cj_normalized_title c = nj_normalized_title j" "c1 = 4 / 10"
    using t by (auto simp: title_evidence_def split: if_splits)
  show thesis
    by (rule that[OF act title(1) l y d p]) (use m title in \<open>simp_all add: ev\<close>)
qed

text \<open>C12: a listing is merged into an existing opening only when the opening is active, the
  normalised titles are equal, neither the locations nor the employment types contradict
  each other, the confidence reaches 0.7, and at least one of location, description and
  both lesser signs agrees; a merge never rests on the title alone.\<close>

theorem cross_source_merge_requires:
  assumes "dd_should_merge (evaluate_cross_source_candidate c j)"
  shows "cj_is_active c \<and> cj_normalized_title c = nj_normalized_title j \<and>
    (cj_company_id c \<noteq> None \<longrightarrow> truthy (nj_normalized_company j)) \<and>
    (truthy (cj_normalized_location c) \<and> truthy (nj_normalized_location j) \<longrightarrow>
       cj_normalized_location c = nj_normalized_location j) \<and>
    (truthy (cj_employment_type c) \<and> truthy (nj_employment_type j) \<longrightarrow>
       cj_employment_type c = nj_employment_type j) \<and>
    7 / 10 \<le> dd_confidence (evaluate_cross_source_candidate c j) \<and>
    dd_confidence (evaluate_cross_source_candidate c j) \<le> 13 / 10 \<and>
    (truthy (cj_normalized_location c) \<and> cj_normalized_location c = nj_normalized_location j \<or>
     truthy (cj_description c) \<and> truthy (nj_description j))"
  using assms
proof (rule merge_cases)
  fix e2 c2 e3 c3 e4 c4 e5 c5
  assume m: "cj_is_active c" "cj_company_id c \<noteq> None \<longrightarrow> truthy (nj_normalized_company j)"
    "cj_normalized_title c = nj_normalized_title j"
    "location_evidence c j = Some (e2, c2)" "type_evidence c j = Some (e3, c3)"
    "description_evidence c j = (e4, c4)" "date_evidence c j = (e5, c5)"
    "4 / 10 + c2 + c3 + c4 + c5 \<ge> 7 / 10"
    "dd_confidence (evaluate_cross_source_candidate c j) = 4 / 10 + c2 + c3 + c4 + c5"
  note b = evidence_bounds(2)[OF m(4)] evidence_bounds(3)[OF m(5)] evidence_bounds(4)[OF m(6)] evidence_bounds(5)[OF m(7)]
  have "c2 \<noteq> 0 \<or> c4 \<noteq> 0" using m(8) b by auto
  moreover have "c2 \<noteq> 0 \<Longrightarrow> truthy (cj_normalized_location c) \<and> cj_normalized_location c = nj_normalized_location j"
    using m(4) by (auto simp: location_evidence_def Let_def split: if_splits)
  moreover have "c4 \<noteq> 0 \<Longrightarrow> truthy (cj_description c) \<and> truthy (nj_description j)"
    using m(6) by (auto simp: description_evidence_def split: if_splits)
  moreover have "truthy (cj_normalized_location c) \<and> truthy (nj_normalized_location j) \<longrightarrow>
       cj_normalized_location c = nj_normalized_location j"
    using m(4) by (auto simp: location_evidence_def Let_def split: if_splits)
  moreover have "truthy (cj_employment_type c) \<and> truthy (nj_employment_type j) \<longrightarrow>
       cj_employment_type c = nj_employment_type j"
    using m(5) by (auto simp: type_evidence_def split: if_splits)
  moreover have "4 / 10 + c2 + c3 + c4 + c5 \<le> 13 / 10" using b by linarith
  ultimately show ?thesis using m(1,2,3,8,9) by metis
qed

end
