(* ===== verification/CanonicalRepo.thy ===== *)
theory CanonicalRepo
  imports Dedup "HOL-Library.Product_Lexorder"
begin

text \<open>
  \<open>src/app/repositories/canonical_jobs.py\<close> over the tables of \<open>src/app/domain/jobs.py\<close>.
  The database is a record of row lists; a flush that violates a table constraint is an
  error value, and the caller's transaction then keeps the old database. The transaction
  lock of \<open>lock_source_identity\<close> serialises ingestions of one identity: the model runs
  them one after another.
\<close>

datatype db_error = CheckViolation | UniqueViolation | MissingCanonical

record db =
  companies :: "company list"
  jobs :: "canonical_job list"
  sources :: "source_row list"
  next_id :: nat

definition empty_db :: db where
  "empty_db = \<lparr>companies = [], jobs = [], sources = [], next_id = 0\<rparr>"

definition has_text :: "string option \<Rightarrow> bool" where
  "has_text v \<longleftrightarrow> strip (opt_text v) \<noteq> []"

definition prefer_text :: "string option \<Rightarrow> string option \<Rightarrow> string option" where
  "prefer_text incoming existing = (if has_text incoming then incoming else existing)"

definition remote_type_of :: "bool option \<Rightarrow> remote_type option" where
  "remote_type_of r = map_option (\<lambda>b. if b then REMOTE else ON_SITE) r"

fun remote_bool :: "remote_type option \<Rightarrow> bool option" where
  "remote_bool (Some REMOTE) = Some True"
| "remote_bool (Some ON_SITE) = Some False"
| "remote_bool _ = None"

section \<open>Observations\<close>

definition is_identity :: "string \<Rightarrow> string \<Rightarrow> source_row \<Rightarrow> bool" where
  "is_identity src i r \<longleftrightarrow> js_source r = src \<and> js_source_job_id r = i"

definition get_source :: "db \<Rightarrow> string \<Rightarrow> string \<Rightarrow> source_row option" where
  "get_source d src i = find (is_identity src i) (sources d)"

definition get_job :: "db \<Rightarrow> nat \<Rightarrow> canonical_job option" where
  "get_job d i = find (\<lambda>j. cj_id j = i) (jobs d)"

definition get_company :: "db \<Rightarrow> nat \<Rightarrow> company option" where
  "get_company d i = find (\<lambda>c. co_id c = i) (companies d)"

definition update_where :: "('a \<Rightarrow> bool) \<Rightarrow> ('a \<Rightarrow> 'a) \<Rightarrow> 'a list \<Rightarrow> 'a list" where
  "update_where P f xs = map (\<lambda>x. if P x then f x else x) xs"

definition touched :: "string \<Rightarrow> string list \<Rightarrow> source_row \<Rightarrow> bool" where
  "touched src ids r \<longleftrightarrow> js_source r = src \<and> js_source_job_id r \<in> set ids"

definition touch_sources_seen :: "db \<Rightarrow> string \<Rightarrow> string list \<Rightarrow> int \<Rightarrow> nat \<times> db" where
  "touch_sources_seen d src ids observed_at =
     (if ids = [] then (0, d)
      else let job_ids = map js_job_id (filter (touched src ids) (sources d)) in
        (length (filter (touched src ids) (sources d)),
         d\<lparr>jobs := update_where (\<lambda>j. cj_id j \<in> set job_ids)
             (\<lambda>j. j\<lparr>cj_last_seen_at := observed_at, cj_is_active := True\<rparr>) (jobs d),
           sources := update_where (touched src ids)
             (\<lambda>r. r\<lparr>js_last_seen_at := observed_at, js_is_active := True\<rparr>) (sources d)\<rparr>))"

definition detail_fetched_by_source_id :: "db \<Rightarrow> string \<Rightarrow> string list \<Rightarrow> (string, bool) dict" where
  "detail_fetched_by_source_id d src ids =
     (if ids = [] then []
      else fold (\<lambda>r m. dset (js_source_job_id r)
             (js_raw_data r \<noteq> [] \<and> dget (js_raw_data r) ''legacy_global_job_id'' = None) m)
           (filter (touched src ids) (sources d)) [])"

definition resolve_company :: "db \<Rightarrow> string \<Rightarrow> string \<Rightarrow> company \<times> bool \<times> db" where
  "resolve_company d name normalized_name =
     (case find (\<lambda>c. co_normalized_name c = normalized_name) (companies d) of
        Some c \<Rightarrow> (c, False, d)
      | None \<Rightarrow>
          let c = \<lparr>co_id = next_id d, co_name = name, co_normalized_name = normalized_name,
                   co_website_url = None, co_domain = None\<rparr>
          in (c, True, d\<lparr>companies := companies d @ [c], next_id := Suc (next_id d)\<rparr>))"

text \<open>The query has no order; the model takes the first row of the join.\<close>

definition find_job_by_source_url :: "db \<Rightarrow> string \<Rightarrow> string option \<Rightarrow> canonical_job option" where
  "find_job_by_source_url d src url =
     (case url of
        None \<Rightarrow> None
      | Some u \<Rightarrow>
          (case filter (\<lambda>r. js_source r = src \<and> js_source_url r = Some u \<and> get_job d (js_job_id r) \<noteq> None) (sources d) of
             [] \<Rightarrow> None
           | r # _ \<Rightarrow> get_job d (js_job_id r)))"

text \<open>\<open>ORDER BY posted_at DESC NULLS LAST, id\<close>.\<close>

definition posted_key :: "int option \<Rightarrow> int \<times> int" where
  "posted_key p = (case p of None \<Rightarrow> (1, 0) | Some t \<Rightarrow> (0, - t))"

definition find_dedup_candidates :: "db \<Rightarrow> nat \<Rightarrow> string \<Rightarrow> canonical_job list" where
  "find_dedup_candidates d company_id normalized_title =
     take 10 (sort_key (\<lambda>j. (posted_key (cj_posted_at j), cj_id j))
       (filter (\<lambda>j. cj_company_id j = Some company_id \<and> cj_is_active j \<and>
           cj_normalized_title j = normalized_title) (jobs d)))"

section \<open>Stale observations\<close>

definition last_seen :: "db \<Rightarrow> string \<Rightarrow> int option" where
  "last_seen d src = (case map js_last_seen_at (filter (\<lambda>r. js_source r = src) (sources d)) of
     [] \<Rightarrow> None | t # ts \<Rightarrow> Some (fold max ts t))"

definition is_stale :: "string \<Rightarrow> int \<Rightarrow> source_row \<Rightarrow> bool" where
  "is_stale src threshold r \<longleftrightarrow> js_source r = src \<and> js_is_active r \<and> js_last_seen_at r < threshold"

definition has_active_source :: "source_row list \<Rightarrow> nat \<Rightarrow> bool" where
  "has_active_source rs i \<longleftrightarrow> list_ex (\<lambda>r. js_job_id r = i \<and> js_is_active r) rs"

definition deactivate_stale_sources :: "db \<Rightarrow> string \<Rightarrow> int \<Rightarrow> int \<Rightarrow> nat \<times> db" where
  "deactivate_stale_sources d src stale_threshold safety_window_start =
     (case last_seen d src of
        None \<Rightarrow> (0, d)
      | Some health \<Rightarrow>
          if health < safety_window_start then (0, d)
          else let n = length (filter (is_stale src stale_threshold) (sources d));
                   rs = update_where (is_stale src stale_threshold) (\<lambda>r. r\<lparr>js_is_active := False\<rparr>) (sources d);
                   d1 = d\<lparr>sources := rs\<rparr>
            in if n > 0 then
                 (n, d1\<lparr>jobs := update_where (\<lambda>j. cj_is_active j \<and> \<not> has_active_source rs (cj_id j))
                        (\<lambda>j. j\<lparr>cj_is_active := False\<rparr>) (jobs d1)\<rparr>)
               else (n, d1))"

section \<open>Creating and refreshing\<close>

definition new_canonical ::
  "(string \<Rightarrow> string) \<Rightarrow> nat \<Rightarrow> normalized_job \<Rightarrow> company option \<Rightarrow> int \<Rightarrow> canonical_job" where
  "new_canonical digest i j co observed_at =
     \<lparr>cj_id = i, cj_company_id = map_option co_id co, cj_title = nj_title j,
      cj_normalized_title = nj_normalized_title j, cj_description = nj_description j,
      cj_location = nj_location j, cj_normalized_location = nj_normalized_location j,
      cj_employment_type = nj_employment_type j,
      cj_remote_type = or_else (nj_remote_type j) (remote_type_of (nj_remote j)),
      cj_skills = nj_skills j, cj_experience_min = nj_experience_min j,
      cj_experience_max = nj_experience_max j, cj_experience_text = nj_experience_text j,
      cj_role_family = nj_role_family j, cj_seniority = None,
      cj_salary_min = nj_salary_min j, cj_salary_max = nj_salary_max j,
      cj_salary_currency = nj_salary_currency j, cj_salary_text = nj_salary_text j,
      cj_salary_period = nj_salary_period j, cj_posted_at = nj_posted_at j,
      cj_source_updated_at = nj_source_updated_at j, cj_first_seen_at = observed_at,
      cj_last_seen_at = observed_at, cj_is_active = True,
      cj_canonical_hash = build_canonical_hash digest j\<rparr>"

definition create_job ::
  "(string \<Rightarrow> string) \<Rightarrow> db \<Rightarrow> normalized_job \<Rightarrow> company option \<Rightarrow> int \<Rightarrow> db_error + canonical_job \<times> db" where
  "create_job digest d j co observed_at =
     (let c = new_canonical digest (next_id d) j co observed_at in
      if canonical_checks c
      then Inr (c, d\<lparr>jobs := jobs d @ [c], next_id := Suc (next_id d)\<rparr>)
      else Inl CheckViolation)"

definition new_source :: "nat \<Rightarrow> normalized_job \<Rightarrow> nat \<Rightarrow> int \<Rightarrow> source_row" where
  "new_source i j job_id observed_at =
     \<lparr>js_id = i, js_job_id = job_id, js_source = nj_source j, js_source_job_id = nj_external_id j,
      js_source_url = nj_url j, js_posted_at = nj_posted_at j, js_updated_at = nj_source_updated_at j,
      js_first_seen_at = observed_at, js_last_seen_at = observed_at, js_scraped_at = observed_at,
      js_content_hash = nj_content_hash j, js_is_active = True, js_raw_data = nj_raw_data j\<rparr>"

definition create_source :: "db \<Rightarrow> normalized_job \<Rightarrow> canonical_job \<Rightarrow> int \<Rightarrow> db_error + source_row \<times> db" where
  "create_source d j c observed_at =
     (if get_source d (nj_source j) (nj_external_id j) \<noteq> None then Inl UniqueViolation
      else let r = new_source (next_id d) j (cj_id c) observed_at in
        Inr (r, d\<lparr>sources := sources d @ [r], next_id := Suc (next_id d)\<rparr>))"

definition refreshed_source :: "source_row \<Rightarrow> normalized_job \<Rightarrow> int \<Rightarrow> bool \<Rightarrow> source_row" where
  "refreshed_source r j observed_at content_changed =
     r\<lparr>js_last_seen_at := observed_at, js_scraped_at := observed_at, js_is_active := True,
       js_source_url := prefer_text (nj_url j) (js_source_url r),
       js_posted_at := or_else (nj_posted_at j) (js_posted_at r),
       js_updated_at := or_else (nj_source_updated_at j) (js_updated_at r),
       js_raw_data := (if nj_raw_data j \<noteq> [] then nj_raw_data j else js_raw_data r),
       js_content_hash := (if content_changed then nj_content_hash j else js_content_hash r)\<rparr>"

definition refreshed_canonical ::
  "(string \<Rightarrow> string) \<Rightarrow> canonical_job \<Rightarrow> normalized_job \<Rightarrow> company option \<Rightarrow> int \<Rightarrow> canonical_job" where
  "refreshed_canonical digest c j co observed_at =
     (let named = nj_title j \<noteq> [] \<and> \<not> prefix ''Unknown '' (nj_title j);
          located = has_text (nj_location j) in
      c\<lparr>cj_last_seen_at := observed_at, cj_is_active := True,
        cj_company_id := (case co of Some x \<Rightarrow> Some (co_id x) | None \<Rightarrow> cj_company_id c),
        cj_title := (if named then nj_title j else cj_title c),
        cj_normalized_title := (if named then nj_normalized_title j else cj_normalized_title c),
        cj_description := prefer_text (nj_description j) (cj_description c),
        cj_location := (if located then nj_location j else cj_location c),
        cj_normalized_location := (if located then nj_normalized_location j else cj_normalized_location c),
        cj_employment_type := prefer_text (nj_employment_type j) (cj_employment_type c),
        cj_remote_type := or_else (or_else (nj_remote_type j) (remote_type_of (nj_remote j))) (cj_remote_type c),
        cj_skills := (if nj_skills j \<noteq> [] then nj_skills j else cj_skills c),
        cj_experience_min := or_else (nj_experience_min j) (cj_experience_min c),
        cj_experience_max := or_else (nj_experience_max j) (cj_experience_max c),
        cj_experience_text := prefer_text (nj_experience_text j) (cj_experience_text c),
        cj_role_family := nj_role_family j,
        cj_salary_text := prefer_text (nj_salary_text j) (cj_salary_text c),
        cj_salary_min := or_else (nj_salary_min j) (cj_salary_min c),
        cj_salary_max := or_else (nj_salary_max j) (cj_salary_max c),
        cj_salary_currency := (if truthy (nj_salary_currency j) then nj_salary_currency j else cj_salary_currency c),
        cj_salary_period := (if truthy (nj_salary_period j) then nj_salary_period j else cj_salary_period c),
        cj_posted_at := or_else (nj_posted_at j) (cj_posted_at c),
        cj_source_updated_at := or_else (nj_source_updated_at j) (cj_source_updated_at c),
        cj_canonical_hash := (if truthy (nj_normalized_company j) \<and> truthy (nj_normalized_location j) \<and>
            nj_posted_at j \<noteq> None then build_canonical_hash digest j else cj_canonical_hash c)\<rparr>)"

definition refresh_source ::
  "(string \<Rightarrow> string) \<Rightarrow> db \<Rightarrow> source_row \<Rightarrow> normalized_job \<Rightarrow> company option \<Rightarrow> int \<Rightarrow> bool \<Rightarrow> db_error + db" where
  "refresh_source digest d r j co observed_at content_changed =
     (case get_job d (js_job_id r) of
        None \<Rightarrow> Inl MissingCanonical
      | Some c \<Rightarrow>
          let c' = refreshed_canonical digest c j co observed_at;
              r' = refreshed_source r j observed_at content_changed
          in if canonical_checks c'
             then Inr (d\<lparr>jobs := update_where (\<lambda>x. cj_id x = cj_id c) (\<lambda>_. c') (jobs d),
                        sources := update_where (\<lambda>x. js_id x = js_id r) (\<lambda>_. r') (sources d)\<rparr>)
             else Inl CheckViolation)"

section \<open>Reading\<close>

text \<open>SQL \<open>ILIKE\<close>: \<open>%\<close> any text, \<open>_\<close> any character, a backslash quotes the next one.\<close>

fun like :: "string \<Rightarrow> string \<Rightarrow> bool" where
  "like [] s = (s = [])"
| "like (p # ps) s =
     (if p = CHR ''%'' then like ps s \<or> (case s of [] \<Rightarrow> False | _ # s' \<Rightarrow> like (p # ps) s')
      else if p = CHR ''_'' then (case s of [] \<Rightarrow> False | _ # s' \<Rightarrow> like ps s')
      else if p = CHR 0x5C then
        (case (ps, s) of (q # qs, c # s') \<Rightarrow> c = q \<and> like qs s' | _ \<Rightarrow> False)
      else (case s of [] \<Rightarrow> False | c # s' \<Rightarrow> c = p \<and> like ps s'))"

definition ilike :: "string option \<Rightarrow> string \<Rightarrow> bool" where
  "ilike v pattern = (case v of None \<Rightarrow> False | Some s \<Rightarrow> like (lower pattern) (lower s))"

record job_query =
  q_text :: "string option"
  q_role :: "string option"
  q_location :: "string option"
  q_remote :: "bool option"
  q_employment :: "string option"
  q_source :: "string option"
  q_roles :: "string list"
  q_page :: nat
  q_page_size :: nat

record job_read =
  jr_id :: nat
  jr_source :: string
  jr_external_id :: string
  jr_title :: string
  jr_role_family :: string
  jr_company :: "string option"
  jr_location :: "string option"
  jr_url :: "string option"
  jr_description :: "string option"
  jr_salary_text :: "string option"
  jr_employment_type :: "string option"
  jr_remote :: "bool option"
  jr_skills :: "string list"
  jr_posted_at :: "int option"
  jr_source_updated_at :: "int option"
  jr_first_seen_at :: int
  jr_scraped_at :: int
  jr_experience_min :: "int option"
  jr_experience_max :: "int option"
  jr_experience_text :: "string option"
  jr_last_seen_at :: int
  jr_is_active :: bool
  jr_salary_min :: "rat option"
  jr_salary_max :: "rat option"
  jr_salary_currency :: "string option"
  jr_salary_period :: "string option"
  jr_remote_type :: "remote_type option"

definition company_name :: "db \<Rightarrow> canonical_job \<Rightarrow> string option" where
  "company_name d j = (case cj_company_id j of None \<Rightarrow> None | Some i \<Rightarrow> map_option co_name (get_company d i))"

definition contains_pattern :: "string option \<Rightarrow> string" where
  "contains_pattern v = ''%'' @ opt_text v @ ''%''"

definition matches_query :: "db \<Rightarrow> job_query \<Rightarrow> canonical_job \<Rightarrow> bool" where
  "matches_query d q j \<longleftrightarrow>
     cj_is_active j \<and>
     list_ex (\<lambda>r. js_job_id r = cj_id j \<and> js_is_active r \<and>
        (truthy (q_source q) \<longrightarrow> Some (js_source r) = q_source q)) (sources d) \<and>
     (truthy (q_text q) \<longrightarrow> ilike (Some (cj_title j)) (contains_pattern (q_text q)) \<or>
        ilike (company_name d j) (contains_pattern (q_text q)) \<or>
        ilike (cj_description j) (contains_pattern (q_text q))) \<and>
     (truthy (q_role q) \<longrightarrow> Some (cj_role_family j) = q_role q) \<and>
     (q_roles q \<noteq> [] \<longrightarrow> cj_role_family j \<in> set (q_roles q)) \<and>
     (truthy (q_location q) \<longrightarrow> ilike (cj_location j) (contains_pattern (q_location q))) \<and>
     (q_remote q \<noteq> None \<longrightarrow> cj_remote_type j = remote_type_of (q_remote q)) \<and>
     (truthy (q_employment q) \<longrightarrow> ilike (cj_employment_type j) (opt_text (q_employment q)))"

definition presentation_source :: "db \<Rightarrow> nat \<Rightarrow> source_row option" where
  "presentation_source d i =
     (case sort_key (\<lambda>r. (- js_last_seen_at r, js_first_seen_at r, js_source r, js_source_job_id r))
             (filter (\<lambda>r. js_job_id r = i \<and> js_is_active r) (sources d)) of
        [] \<Rightarrow> None | r # _ \<Rightarrow> Some r)"

definition read_job :: "db \<Rightarrow> canonical_job \<Rightarrow> source_row \<Rightarrow> job_read" where
  "read_job d j r =
     \<lparr>jr_id = cj_id j, jr_source = js_source r, jr_external_id = js_source_job_id r,
      jr_title = cj_title j, jr_role_family = cj_role_family j, jr_company = company_name d j,
      jr_location = cj_location j, jr_url = js_source_url r, jr_description = cj_description j,
      jr_salary_text = cj_salary_text j, jr_employment_type = cj_employment_type j,
      jr_remote = remote_bool (cj_remote_type j), jr_skills = cj_skills j,
      jr_posted_at = cj_posted_at j, jr_source_updated_at = js_updated_at r,
      jr_first_seen_at = js_first_seen_at r, jr_scraped_at = js_scraped_at r,
      jr_experience_min = cj_experience_min j, jr_experience_max = cj_experience_max j,
      jr_experience_text = cj_experience_text j, jr_last_seen_at = js_last_seen_at r,
      jr_is_active = cj_is_active j, jr_salary_min = cj_salary_min j, jr_salary_max = cj_salary_max j,
      jr_salary_currency = cj_salary_currency j, jr_salary_period = cj_salary_period j,
      jr_remote_type = cj_remote_type j\<rparr>"

definition search_order :: "canonical_job \<Rightarrow> (int \<times> int) \<times> int \<times> nat" where
  "search_order j = (posted_key (cj_posted_at j), - cj_last_seen_at j, cj_id j)"

definition search_rows :: "db \<Rightarrow> job_query \<Rightarrow> canonical_job list" where
  "search_rows d q = sort_key search_order (filter (matches_query d q) (jobs d))"

definition canonical_search :: "db \<Rightarrow> job_query \<Rightarrow> job_read list \<times> nat" where
  "canonical_search d q =
     (let rows = take (q_page_size q) (drop ((q_page q - 1) * q_page_size q) (search_rows d q)) in
      (concat (map (\<lambda>j. case presentation_source d (cj_id j) of
          None \<Rightarrow> [] | Some r \<Rightarrow> [read_job d j r]) rows),
       length (filter (matches_query d q) (jobs d))))"

section \<open>Well-formed databases\<close>

definition identity :: "source_row \<Rightarrow> string \<times> string" where
  "identity r = (js_source r, js_source_job_id r)"

definition ids_wf :: "db \<Rightarrow> bool" where
  "ids_wf d \<longleftrightarrow> distinct (map cj_id (jobs d)) \<and> distinct (map js_id (sources d)) \<and>
     distinct (map co_id (companies d)) \<and> distinct (map co_normalized_name (companies d)) \<and>
     distinct (map identity (sources d)) \<and>
     (\<forall>i \<in> cj_id ` set (jobs d). i < next_id d) \<and> (\<forall>i \<in> js_id ` set (sources d). i < next_id d) \<and>
     (\<forall>i \<in> co_id ` set (companies d). i < next_id d)"

definition links_wf :: "db \<Rightarrow> bool" where
  "links_wf d \<longleftrightarrow> js_job_id ` set (sources d) \<subseteq> cj_id ` set (jobs d) \<and>
     cj_company_id ` set (jobs d) \<subseteq> insert None (Some ` co_id ` set (companies d))"

definition active_sync :: "db \<Rightarrow> bool" where
  "active_sync d \<longleftrightarrow> (\<forall>j \<in> set (jobs d). cj_is_active j \<longleftrightarrow> has_active_source (sources d) (cj_id j))"

definition checks_wf :: "db \<Rightarrow> bool" where
  "checks_wf d \<longleftrightarrow> (\<forall>j \<in> set (jobs d). canonical_checks j)"

definition db_wf :: "db \<Rightarrow> bool" where
  "db_wf d \<longleftrightarrow> ids_wf d \<and> links_wf d \<and> active_sync d \<and> checks_wf d"

lemma empty_db_wf [wf_intros]: "db_wf empty_db"
  by (simp add: db_wf_def ids_wf_def links_wf_def active_sync_def checks_wf_def empty_db_def)

lemma map_update_where: "(\<And>x. g (f x) = g x) \<Longrightarrow> map g (update_where P f xs) = map g xs"
  by (simp add: update_where_def)

lemma map_update_const:
  "(\<And>x. x \<in> set xs \<Longrightarrow> P x \<Longrightarrow> g y = g x) \<Longrightarrow> map g (update_where P (\<lambda>_. y) xs) = map g xs"
  by (simp add: update_where_def)

lemma image_eq_map: "map g xs = map g ys \<Longrightarrow> g ` set xs = g ` set ys"
  by (metis set_map)

lemma set_update_where: "y \<in> set (update_where P f xs) \<longleftrightarrow> (\<exists>x \<in> set xs. y = (if P x then f x else x))"
  by (auto simp: update_where_def)

lemma set_update_const:
  assumes "x \<in> set xs" "\<And>y. y \<in> set xs \<Longrightarrow> P y \<longleftrightarrow> y = x"
  shows "set (update_where P (\<lambda>_. z) xs) = insert z (set xs - {x})"
proof -
  have "update_where P (\<lambda>_. z) xs = map (\<lambda>y. if y = x then z else y) xs"
    unfolding update_where_def using assms(2) by (intro map_cong refl) auto
  then show ?thesis using assms(1) by auto
qed

lemma length_update_where [simp]: "length (update_where P f xs) = length xs"
  by (simp add: update_where_def)

lemma find_SomeD: "find P xs = Some x \<Longrightarrow> x \<in> set xs \<and> P x"
  by (induction xs) (auto split: if_splits)

lemma find_None_iff': "find P xs = None \<longleftrightarrow> (\<forall>x \<in> set xs. \<not> P x)"
  by (induction xs) auto

lemma find_unique:
  "\<lbrakk>x \<in> set xs; P x; \<And>y. y \<in> set xs \<Longrightarrow> P y \<Longrightarrow> y = x\<rbrakk> \<Longrightarrow> find P xs = Some x"
  by (metis find_None_iff' find_SomeD not_None_eq)

lemma distinct_map_eq: "\<lbrakk>distinct (map f xs); x \<in> set xs; y \<in> set xs; f x = f y\<rbrakk> \<Longrightarrow> x = y"
  by (meson distinct_map inj_onD)

lemma get_job_in: "get_job d i = Some j \<Longrightarrow> j \<in> set (jobs d) \<and> cj_id j = i"
  unfolding get_job_def by (drule find_SomeD) simp

lemma get_job_found: "\<lbrakk>ids_wf d; j \<in> set (jobs d)\<rbrakk> \<Longrightarrow> get_job d (cj_id j) = Some j"
  unfolding get_job_def by (rule find_unique) (auto simp: ids_wf_def dest: distinct_map_eq)

lemma get_job_exists: "i \<in> cj_id ` set (jobs d) \<Longrightarrow> get_job d i \<noteq> None"
  unfolding get_job_def find_None_iff' by auto

lemma get_source_in: "get_source d s i = Some r \<Longrightarrow> r \<in> set (sources d) \<and> identity r = (s, i)"
  unfolding get_source_def by (drule find_SomeD) (simp add: is_identity_def identity_def)

lemma get_source_found: "\<lbrakk>ids_wf d; r \<in> set (sources d)\<rbrakk> \<Longrightarrow> get_source d (js_source r) (js_source_job_id r) = Some r"
  unfolding get_source_def
  by (rule find_unique) (auto simp: ids_wf_def is_identity_def identity_def dest: distinct_map_eq)

lemma get_source_None: "get_source d s i = None \<longleftrightarrow> (s, i) \<notin> identity ` set (sources d)"
  unfolding get_source_def find_None_iff' by (auto simp: is_identity_def identity_def)

lemma has_active_iff: "has_active_source rs i \<longleftrightarrow> (\<exists>r \<in> set rs. js_job_id r = i \<and> js_is_active r)"
  by (auto simp: has_active_source_def list_ex_iff)

section \<open>Every operation keeps the database well formed\<close>

lemma touch_wf [wf_intros]:
  assumes "db_wf d"
  shows "db_wf (snd (touch_sources_seen d src ids t))"
proof (cases "ids = []")
  case True
  then show ?thesis using assms by (simp add: touch_sources_seen_def)
next
  case False
  define job_ids where "job_ids = map js_job_id (filter (touched src ids) (sources d))"
  define js where "js = update_where (\<lambda>j. cj_id j \<in> set job_ids)
     (\<lambda>j. j\<lparr>cj_last_seen_at := t, cj_is_active := True\<rparr>) (jobs d)"
  define rs where "rs = update_where (touched src ids) (\<lambda>r. r\<lparr>js_last_seen_at := t, js_is_active := True\<rparr>) (sources d)"
  have d': "snd (touch_sources_seen d src ids t) = d\<lparr>jobs := js, sources := rs\<rparr>"
    using False by (simp add: touch_sources_seen_def Let_def js_def rs_def job_ids_def)
  have m: "map cj_id js = map cj_id (jobs d)" "map cj_company_id js = map cj_company_id (jobs d)"
    "map js_id rs = map js_id (sources d)" "map identity rs = map identity (sources d)"
    "map js_job_id rs = map js_job_id (sources d)"
    by (auto simp: js_def rs_def identity_def intro!: map_update_where)
  note im = m[THEN image_eq_map]
  have ids: "ids_wf (d\<lparr>jobs := js, sources := rs\<rparr>)"
    using assms m im by (simp add: db_wf_def ids_wf_def)
  have links: "links_wf (d\<lparr>jobs := js, sources := rs\<rparr>)"
    using assms im by (simp add: db_wf_def links_wf_def)
  have "checks_wf (d\<lparr>jobs := js, sources := rs\<rparr>)"
    using assms by (auto simp: db_wf_def checks_wf_def js_def set_update_where canonical_checks_def)
  moreover have "active_sync (d\<lparr>jobs := js, sources := rs\<rparr>)"
    unfolding active_sync_def has_active_iff
  proof (simp, intro ballI)
    fix j assume "j \<in> set js"
    then obtain j0 where j0: "j0 \<in> set (jobs d)" "j = (if cj_id j0 \<in> set job_ids
        then j0\<lparr>cj_last_seen_at := t, cj_is_active := True\<rparr> else j0)"
      by (auto simp: js_def set_update_where)
    have old: "cj_is_active j0 \<longleftrightarrow> (\<exists>r \<in> set (sources d). js_job_id r = cj_id j0 \<and> js_is_active r)"
      using assms j0(1) by (simp add: db_wf_def active_sync_def has_active_iff)
    show "cj_is_active j \<longleftrightarrow> (\<exists>r \<in> set rs. js_job_id r = cj_id j \<and> js_is_active r)"
    proof (cases "cj_id j0 \<in> set job_ids")
      case True
      then obtain r where r: "r \<in> set (sources d)" "touched src ids r" "js_job_id r = cj_id j0"
        by (auto simp: job_ids_def)
      then have "r\<lparr>js_last_seen_at := t, js_is_active := True\<rparr> \<in> set rs"
        by (auto simp: rs_def set_update_where intro!: bexI[of _ r])
      then show ?thesis using True j0(2) r(3) by (intro iffI bexI) auto
    next
      case False
      have unt: "\<not> touched src ids r" if "r \<in> set (sources d)" "js_job_id r = cj_id j0" for r
        using False that unfolding job_ids_def by force
      have "r \<in> set rs \<and> js_job_id r = cj_id j0 \<longleftrightarrow> r \<in> set (sources d) \<and> js_job_id r = cj_id j0" for r
        unfolding rs_def set_update_where using unt
        by (auto split: if_splits intro!: bexI[of _ r])
      then show ?thesis using False j0(2) old by auto
    qed
  qed
  ultimately show ?thesis using ids links by (simp add: d' db_wf_def)
qed

lemma deactivate_wf [wf_intros]:
  assumes "db_wf d"
  shows "db_wf (snd (deactivate_stale_sources d src threshold window))"
proof -
  define rs where "rs = update_where (is_stale src threshold) (\<lambda>r. r\<lparr>js_is_active := False\<rparr>) (sources d)"
  define js where "js = update_where (\<lambda>j. cj_is_active j \<and> \<not> has_active_source rs (cj_id j))
      (\<lambda>j. j\<lparr>cj_is_active := False\<rparr>) (jobs d)"
  have m: "map cj_id js = map cj_id (jobs d)" "map cj_company_id js = map cj_company_id (jobs d)"
    "map js_id rs = map js_id (sources d)" "map identity rs = map identity (sources d)"
    "map js_job_id rs = map js_job_id (sources d)"
    by (auto simp: js_def rs_def identity_def intro!: map_update_where)
  note im = m[THEN image_eq_map]
  have "ids_wf (d\<lparr>sources := rs, jobs := js\<rparr>)" "links_wf (d\<lparr>sources := rs, jobs := js\<rparr>)"
    using assms m im by (simp_all add: db_wf_def ids_wf_def links_wf_def)
  moreover have "checks_wf (d\<lparr>sources := rs, jobs := js\<rparr>)"
    using assms by (auto simp: db_wf_def checks_wf_def js_def set_update_where canonical_checks_def)
  moreover have "active_sync (d\<lparr>sources := rs, jobs := js\<rparr>)"
  proof -
    have "has_active_source rs i \<Longrightarrow> has_active_source (sources d) i" for i
      by (auto simp: has_active_iff rs_def set_update_where split: if_splits)
    moreover have "cj_is_active x = has_active_source (sources d) (cj_id x)" if "x \<in> set (jobs d)" for x
      using assms that by (simp add: db_wf_def active_sync_def)
    ultimately show ?thesis unfolding active_sync_def by (auto simp: js_def update_where_def)
  qed
  ultimately have main: "db_wf (d\<lparr>sources := rs, jobs := js\<rparr>)" by (simp add: db_wf_def)
  have none: "rs = sources d" if "length (filter (is_stale src threshold) (sources d)) = 0"
    using that by (auto simp: rs_def update_where_def filter_empty_conv intro: map_idI)
  show ?thesis
  proof (cases "last_seen d src")
    case None
    then show ?thesis using assms by (simp add: deactivate_stale_sources_def)
  next
    case (Some h)
    then show ?thesis using assms main none
      by (auto simp: deactivate_stale_sources_def Let_def rs_def[symmetric] js_def[symmetric])
  qed
qed

lemma resolve_company_wf:
  assumes "db_wf d" "resolve_company d name nname = (c, created, d')"
  shows "db_wf d' \<and> c \<in> set (companies d') \<and> jobs d' = jobs d \<and> sources d' = sources d"
proof (cases "find (\<lambda>c. co_normalized_name c = nname) (companies d)")
  case (Some x)
  then show ?thesis using assms find_SomeD[OF Some] by (auto simp: resolve_company_def)
next
  case None
  then have fresh: "nname \<notin> co_normalized_name ` set (companies d)" by (auto simp: find_None_iff')
  have d': "d' = d\<lparr>companies := companies d @ [c], next_id := Suc (next_id d)\<rparr>"
    "co_id c = next_id d" "co_normalized_name c = nname"
    using assms(2) None by (auto simp: resolve_company_def Let_def)
  have "co_id c \<notin> co_id ` set (companies d)"
    using assms(1) d'(2) by (auto simp: db_wf_def ids_wf_def)
  then show ?thesis using assms(1) fresh unfolding d'
    by (auto simp: d'(2,3) db_wf_def ids_wf_def links_wf_def active_sync_def checks_wf_def less_Suc_eq)
qed

lemma create_source_result:
  assumes "create_source d j c t = Inr (r, d')"
  shows "d' = d\<lparr>sources := sources d @ [r], next_id := Suc (next_id d)\<rparr> \<and>
    js_id r = next_id d \<and> js_job_id r = cj_id c \<and> js_is_active r \<and>
    identity r = (nj_source j, nj_external_id j) \<and> (nj_source j, nj_external_id j) \<notin> identity ` set (sources d) \<and>
    js_content_hash r = nj_content_hash j"
  using assms by (auto simp: create_source_def new_source_def Let_def identity_def get_source_None split: if_splits)

text \<open>A new observation of a job that is, or has just become, active.\<close>

lemma create_source_wf:
  assumes "ids_wf d" "links_wf d" "checks_wf d" "c \<in> set (jobs d)" "cj_is_active c"
    and "\<forall>j \<in> set (jobs d). cj_id j \<noteq> cj_id c \<longrightarrow> (cj_is_active j \<longleftrightarrow> has_active_source (sources d) (cj_id j))"
    and "create_source d j c t = Inr (r, d')"
  shows "db_wf d'"
proof -
  note r = create_source_result[OF assms(7)]
  have "ids_wf d'" using assms(1) r by (auto simp: ids_wf_def less_Suc_eq)
  moreover have "links_wf d'" using assms(2,4) r by (auto simp: links_wf_def)
  moreover have "checks_wf d'" using assms(3) r by (auto simp: checks_wf_def)
  moreover have "active_sync d'"
    unfolding active_sync_def
  proof
    fix x assume "x \<in> set (jobs d')"
    then have x: "x \<in> set (jobs d)" using r by simp
    show "cj_is_active x \<longleftrightarrow> has_active_source (sources d') (cj_id x)"
    proof (cases "cj_id x = cj_id c")
      case True
      then have "x = c" using distinct_map_eq[of cj_id "jobs d"] x assms(1,4) by (auto simp: ids_wf_def)
      then show ?thesis using assms(5) r by (auto simp: has_active_iff)
    next
      case False
      then show ?thesis using assms(6) x r by (auto simp: has_active_iff)
    qed
  qed
  ultimately show ?thesis by (simp add: db_wf_def)
qed

lemma create_job_result:
  assumes "create_job digest d j co t = Inr (c, d')"
  shows "c = new_canonical digest (next_id d) j co t \<and> canonical_checks c \<and>
    d' = d\<lparr>jobs := jobs d @ [c], next_id := Suc (next_id d)\<rparr> \<and> cj_id c = next_id d \<and> cj_is_active c \<and>
    cj_company_id c = map_option co_id co"
  using assms by (auto simp: create_job_def new_canonical_def Let_def split: if_splits)

lemma create_both_wf:
  assumes "db_wf d" "\<forall>x. co = Some x \<longrightarrow> x \<in> set (companies d)"
    and "create_job digest d j co t = Inr (c, d1)" "create_source d1 j c t = Inr (r, d2)"
  shows "db_wf d2"
proof -
  note c = create_job_result[OF assms(3)]
  have new: "cj_id c \<notin> cj_id ` set (jobs d)" using assms(1) c by (auto simp: db_wf_def ids_wf_def)
  have "ids_wf d1" using assms(1) c new by (auto simp: db_wf_def ids_wf_def less_Suc_eq)
  moreover have "links_wf d1" using assms(1,2) c by (cases co) (auto simp: db_wf_def links_wf_def)
  moreover have "checks_wf d1" using assms(1) c by (auto simp: db_wf_def checks_wf_def)
  moreover have "\<forall>x \<in> set (jobs d1). cj_id x \<noteq> cj_id c \<longrightarrow>
      (cj_is_active x \<longleftrightarrow> has_active_source (sources d1) (cj_id x))"
    using assms(1) c by (auto simp: db_wf_def active_sync_def)
  moreover have "c \<in> set (jobs d1)" using c by simp
  ultimately show ?thesis using create_source_wf assms(4) c by blast
qed

definition reactivate :: "db \<Rightarrow> canonical_job \<Rightarrow> int \<Rightarrow> canonical_job \<times> db" where
  "reactivate d c t = (let c' = mark_canonical_seen t c in
     (c', d\<lparr>jobs := update_where (\<lambda>x. cj_id x = cj_id c) (\<lambda>_. c') (jobs d)\<rparr>))"

lemma replace_job:
  assumes "ids_wf d" "c \<in> set (jobs d)" "cj_id c' = cj_id c"
  shows "set (update_where (\<lambda>x. cj_id x = cj_id c) (\<lambda>_. c') (jobs d)) = insert c' (set (jobs d) - {c})"
    "map cj_id (update_where (\<lambda>x. cj_id x = cj_id c) (\<lambda>_. c') (jobs d)) = map cj_id (jobs d)"
proof -
  have "x = c" if "x \<in> set (jobs d)" "cj_id x = cj_id c" for x
    using distinct_map_eq[of cj_id "jobs d"] that assms(1,2) by (auto simp: ids_wf_def)
  then show "set (update_where (\<lambda>x. cj_id x = cj_id c) (\<lambda>_. c') (jobs d)) = insert c' (set (jobs d) - {c})"
    using assms(2) by (intro set_update_const) auto
  show "map cj_id (update_where (\<lambda>x. cj_id x = cj_id c) (\<lambda>_. c') (jobs d)) = map cj_id (jobs d)"
    by (rule map_update_const) (simp add: assms(3))
qed

lemma attach_wf:
  assumes "db_wf d" "c \<in> set (jobs d)" "reactivate d c t = (c', d1)" "create_source d1 j c' t = Inr (r, d2)"
  shows "db_wf d2"
proof -
  have ids: "ids_wf d" using assms(1) by (simp add: db_wf_def)
  have c': "c' = mark_canonical_seen t c" "d1 = d\<lparr>jobs := update_where (\<lambda>x. cj_id x = cj_id c) (\<lambda>_. c') (jobs d)\<rparr>"
    using assms(3) by (auto simp: reactivate_def Let_def)
  have same: "cj_id c' = cj_id c" "cj_is_active c'" "cj_company_id c' = cj_company_id c"
    "canonical_checks c' = canonical_checks c"
    by (simp_all add: c'(1) mark_canonical_seen_def canonical_checks_def)
  note j = replace_job[OF ids assms(2) same(1)]
  have s: "set (jobs d1) = insert c' (set (jobs d) - {c})" "map cj_id (jobs d1) = map cj_id (jobs d)"
    "sources d1 = sources d" "companies d1 = companies d" "next_id d1 = next_id d"
    using j by (simp_all add: c'(2))
  have "ids_wf d1" using ids s image_eq_map[OF s(2)] by (simp add: ids_wf_def)
  moreover have "cj_company_id ` set (jobs d1) \<subseteq> cj_company_id ` set (jobs d)"
    using s(1) assms(2) same(3) by auto
  then have "links_wf d1" using assms(1) s image_eq_map[OF s(2)] by (auto simp: db_wf_def links_wf_def)
  moreover have "checks_wf d1" using assms(1,2) s same by (auto simp: db_wf_def checks_wf_def)
  moreover have "\<forall>x \<in> set (jobs d1). cj_id x \<noteq> cj_id c' \<longrightarrow>
      (cj_is_active x \<longleftrightarrow> has_active_source (sources d1) (cj_id x))"
    using assms(1) s same by (auto simp: db_wf_def active_sync_def)
  moreover have "c' \<in> set (jobs d1)" using s by simp
  ultimately show ?thesis using create_source_wf assms(4) same(2) by blast
qed

lemma refreshed_canonical_sel [simp]:
  "cj_id (refreshed_canonical digest c j co t) = cj_id c"
  "cj_is_active (refreshed_canonical digest c j co t)"
  "cj_last_seen_at (refreshed_canonical digest c j co t) = t"
  "cj_company_id (refreshed_canonical digest c j co t) =
     (case co of Some x \<Rightarrow> Some (co_id x) | None \<Rightarrow> cj_company_id c)"
  by (simp_all add: refreshed_canonical_def Let_def)

lemma refreshed_source_sel [simp]:
  "js_id (refreshed_source r j t b) = js_id r" "js_job_id (refreshed_source r j t b) = js_job_id r"
  "identity (refreshed_source r j t b) = identity r" "js_is_active (refreshed_source r j t b)"
  "js_first_seen_at (refreshed_source r j t b) = js_first_seen_at r"
  "js_last_seen_at (refreshed_source r j t b) = t"
  "js_content_hash (refreshed_source r j t b) = (if b then nj_content_hash j else js_content_hash r)"
  by (simp_all add: refreshed_source_def identity_def)

lemma refresh_source_result:
  assumes "refresh_source digest d r j co t b = Inr d'"
  obtains c where "get_job d (js_job_id r) = Some c" "canonical_checks (refreshed_canonical digest c j co t)"
    "d' = d\<lparr>jobs := update_where (\<lambda>x. cj_id x = cj_id c) (\<lambda>_. refreshed_canonical digest c j co t) (jobs d),
       sources := update_where (\<lambda>x. js_id x = js_id r) (\<lambda>_. refreshed_source r j t b) (sources d)\<rparr>"
  using assms by (auto simp: refresh_source_def Let_def split: option.splits if_splits)

lemma refresh_source_wf:
  assumes "db_wf d" "r \<in> set (sources d)" "\<forall>x. co = Some x \<longrightarrow> x \<in> set (companies d)"
    and "refresh_source digest d r j co t b = Inr d'"
  shows "db_wf d' \<and> map identity (sources d') = map identity (sources d) \<and>
    map cj_id (jobs d') = map cj_id (jobs d)"
  using assms(4)
proof (rule refresh_source_result)
  fix c assume c: "get_job d (js_job_id r) = Some c" "canonical_checks (refreshed_canonical digest c j co t)"
    and d': "d' = d\<lparr>jobs := update_where (\<lambda>x. cj_id x = cj_id c) (\<lambda>_. refreshed_canonical digest c j co t) (jobs d),
       sources := update_where (\<lambda>x. js_id x = js_id r) (\<lambda>_. refreshed_source r j t b) (sources d)\<rparr>"
  let ?c = "refreshed_canonical digest c j co t" and ?r = "refreshed_source r j t b"
  have ids: "ids_wf d" using assms(1) by (simp add: db_wf_def)
  have cin: "c \<in> set (jobs d)" "cj_id c = js_job_id r" using get_job_in[OF c(1)] by simp_all
  note j = replace_job[OF ids cin(1), of ?c, simplified]
  have runiq: "x = r" if "x \<in> set (sources d)" "js_id x = js_id r" for x
    using distinct_map_eq[of js_id "sources d"] that assms(2) ids by (auto simp: ids_wf_def)
  have s: "set (sources d') = insert ?r (set (sources d) - {r})"
    unfolding d' by simp (rule set_update_const[OF assms(2)], use runiq in auto)
  have sm: "map js_id (sources d') = map js_id (sources d)" "map identity (sources d') = map identity (sources d)"
    "map js_job_id (sources d') = map js_job_id (sources d)"
    by (auto simp: d' intro!: map_update_const) (metis runiq)+
  note im = image_eq_map[OF sm(1)] image_eq_map[OF sm(2)] image_eq_map[OF sm(3)]
  have jm: "set (jobs d') = insert ?c (set (jobs d) - {c})" "map cj_id (jobs d') = map cj_id (jobs d)"
    using j by (simp_all add: d')
  have rest: "companies d' = companies d" "next_id d' = next_id d" by (simp_all add: d')
  have "ids_wf d'" using ids sm im image_eq_map[OF jm(2)] jm(2) rest by (simp add: ids_wf_def)
  moreover have "links_wf d'"
  proof -
    have "cj_company_id ` set (jobs d') \<subseteq> insert None (Some ` co_id ` set (companies d))"
      using assms(1,3) cin(1) jm(1) by (auto simp: db_wf_def links_wf_def split: option.splits)
    then show ?thesis using assms(1) im(3) image_eq_map[OF jm(2)] rest by (simp add: db_wf_def links_wf_def)
  qed
  moreover have "checks_wf d'" using assms(1) c(2) jm(1) by (auto simp: db_wf_def checks_wf_def)
  moreover have "active_sync d'"
    unfolding active_sync_def
  proof
    fix x assume "x \<in> set (jobs d')"
    then consider "x = ?c" | "x \<in> set (jobs d)" "x \<noteq> c" using jm(1) by auto
    then show "cj_is_active x \<longleftrightarrow> has_active_source (sources d') (cj_id x)"
    proof cases
      case 1
      then show ?thesis using s cin(2) by (auto simp: has_active_iff)
    next
      case 2
      then have ne: "cj_id x \<noteq> js_job_id r"
        using distinct_map_eq[of cj_id "jobs d"] cin ids by (auto simp: ids_wf_def)
      then show ?thesis using assms(1) 2 s by (auto simp: db_wf_def active_sync_def has_active_iff)
    qed
  qed
  ultimately show ?thesis using sm jm by (simp add: db_wf_def)
qed

end
