(* ===== verification/Ingestion.thy ===== *)
theory Ingestion
  imports CanonicalRepo
begin

text \<open>
  \<open>src/app/jobs/ingestion/service.py\<close>: the ingestion of one normalised listing, the
  discovery touch and the detail report. An error value rolls the caller's transaction
  back, so it leaves the database as it was. What a batch of listings does to the set of
  known identities is proved once, in the locale \<open>identity_store\<close>.
\<close>

datatype ingestion_action = CREATED | REOBSERVED | UPDATED

record ingestion_result =
  ir_company :: "company option"
  ir_job :: canonical_job
  ir_source :: source_row
  ir_action :: ingestion_action

definition resolve_job_company :: "db \<Rightarrow> normalized_job \<Rightarrow> bool \<Rightarrow> company option \<times> bool \<times> db" where
  "resolve_job_company d j required =
     (case (required, nj_company j, nj_normalized_company j) of
        (True, Some name, Some normalized_name) \<Rightarrow>
          (case resolve_company d name normalized_name of (c, created, d') \<Rightarrow> (Some c, created, d'))
      | _ \<Rightarrow> (None, False, d))"

definition reingest ::
  "(string \<Rightarrow> string) \<Rightarrow> db \<Rightarrow> source_row \<Rightarrow> normalized_job \<Rightarrow> int \<Rightarrow> db_error + ingestion_result \<times> db" where
  "reingest digest d existing j observed_at =
     (let content_changed = (js_content_hash existing \<noteq> nj_content_hash j);
          (co, _, d1) = resolve_job_company d j True
      in case refresh_source digest d1 existing j co observed_at content_changed of
           Inl e \<Rightarrow> Inl e
         | Inr d2 \<Rightarrow>
             (case get_job d2 (js_job_id existing) of
                None \<Rightarrow> Inl MissingCanonical
              | Some canonical \<Rightarrow>
                  Inr (\<lparr>ir_company = (case (co, cj_company_id canonical) of
                           (None, Some i) \<Rightarrow> get_company d2 i | _ \<Rightarrow> co),
                         ir_job = canonical,
                         ir_source = refreshed_source existing j observed_at content_changed,
                         ir_action = (if content_changed then UPDATED else REOBSERVED)\<rparr>, d2)))"

text \<open>The opening a new listing joins: the one behind the same link of the same source,
  or else the first candidate of the company the deduplicator accepts.\<close>

definition choose_canonical :: "db \<Rightarrow> company option \<Rightarrow> normalized_job \<Rightarrow> canonical_job option" where
  "choose_canonical d co j =
     (let by_url = find_job_by_source_url d (nj_source j) (nj_url j) in
      if dd_should_merge (evaluate_same_source_url by_url) then by_url
      else (case co of
              None \<Rightarrow> None
            | Some c \<Rightarrow> find (\<lambda>cand. dd_should_merge (evaluate_cross_source_candidate cand j))
                (find_dedup_candidates d (co_id c) (nj_normalized_title j))))"

definition ingest_new ::
  "(string \<Rightarrow> string) \<Rightarrow> db \<Rightarrow> normalized_job \<Rightarrow> int \<Rightarrow> db_error + ingestion_result \<times> db" where
  "ingest_new digest d j observed_at =
     (let (co, _, d1) = resolve_job_company d j True;
          target = (case choose_canonical d1 co j of
             None \<Rightarrow> create_job digest d1 j co observed_at
           | Some c \<Rightarrow> Inr (reactivate d1 c observed_at))
      in case target of
           Inl e \<Rightarrow> Inl e
         | Inr (canonical, d2) \<Rightarrow>
             (case create_source d2 j canonical observed_at of
                Inl e \<Rightarrow> Inl e
              | Inr (src, d3) \<Rightarrow>
                  Inr (\<lparr>ir_company = co, ir_job = canonical, ir_source = src, ir_action = CREATED\<rparr>, d3)))"

definition ingest ::
  "(string \<Rightarrow> string) \<Rightarrow> db \<Rightarrow> normalized_job \<Rightarrow> int \<Rightarrow> db_error + ingestion_result \<times> db" where
  "ingest digest d j observed_at =
     (case get_source d (nj_source j) (nj_external_id j) of
        Some existing \<Rightarrow> reingest digest d existing j observed_at
      | None \<Rightarrow> ingest_new digest d j observed_at)"

definition touch_seen :: "db \<Rightarrow> string \<Rightarrow> string list \<Rightarrow> int \<Rightarrow> nat \<times> db" where
  "touch_seen d src ids observed_at = touch_sources_seen d src (uniq ids) observed_at"

definition detail_fetched :: "db \<Rightarrow> string \<Rightarrow> string list \<Rightarrow> (string, bool) dict" where
  "detail_fetched d src ids = detail_fetched_by_source_id d src (uniq ids)"

section \<open>Lemmas\<close>

lemma resolve_job_company_wf:
  assumes "db_wf d" "resolve_job_company d j b = (co, created, d')"
  shows "db_wf d' \<and> (\<forall>x. co = Some x \<longrightarrow> x \<in> set (companies d')) \<and> jobs d' = jobs d \<and> sources d' = sources d"
  using assms resolve_company_wf[OF assms(1)]
  by (auto simp: resolve_job_company_def split: bool.splits option.splits prod.splits)

lemma find_job_by_url_in: "find_job_by_source_url d s u = Some c \<Longrightarrow> c \<in> set (jobs d)"
  using get_job_in by (auto simp: find_job_by_source_url_def split: option.splits list.splits)

lemma candidates_in: "c \<in> set (find_dedup_candidates d i t) \<Longrightarrow>
  c \<in> set (jobs d) \<and> cj_is_active c \<and> cj_company_id c = Some i \<and> cj_normalized_title c = t"
  by (auto simp: find_dedup_candidates_def dest!: in_set_takeD)

lemma choose_canonical_in: "choose_canonical d co j = Some c \<Longrightarrow> c \<in> set (jobs d)"
  using find_job_by_url_in candidates_in
  by (auto simp: choose_canonical_def Let_def split: if_splits option.splits dest!: find_SomeD)

lemma get_source_cong: "sources d = sources d' \<Longrightarrow> get_source d s i = get_source d' s i"
  by (simp add: get_source_def)

lemma ingest_new_cases:
  assumes "ingest_new digest d j t = Inr (res, d3)"
  obtains (created) co k d1 c d2 r where "resolve_job_company d j True = (co, k, d1)"
      "choose_canonical d1 co j = None" "create_job digest d1 j co t = Inr (c, d2)"
      "create_source d2 j c t = Inr (r, d3)" "ir_action res = CREATED" "ir_source res = r" "ir_job res = c"
  | (attached) co k d1 x c d2 r where "resolve_job_company d j True = (co, k, d1)"
      "choose_canonical d1 co j = Some x" "reactivate d1 x t = (c, d2)"
      "create_source d2 j c t = Inr (r, d3)" "ir_action res = CREATED" "ir_source res = r" "ir_job res = c"
proof -
  obtain co k d1 where rc: "resolve_job_company d j True = (co, k, d1)" by (rule prod_cases3)
  show thesis
  proof (cases "choose_canonical d1 co j")
    case None
    then show ?thesis using assms rc created
      by (auto simp: ingest_new_def Let_def split: sum.splits prod.splits)
  next
    case (Some x)
    obtain c d2 where "reactivate d1 x t = (c, d2)" by (rule prod.exhaust)
    then show ?thesis using assms rc attached Some
      by (auto simp: ingest_new_def Let_def split: sum.splits prod.splits)
  qed
qed

lemma reactivate_sources [simp]: "sources (snd (reactivate d c t)) = sources d"
  "map cj_id (jobs (snd (reactivate d c t))) = map cj_id (jobs d)"
  by (auto simp: reactivate_def Let_def mark_canonical_seen_def intro!: map_update_const)

lemma ingest_new_wf:
  assumes "db_wf d" "ingest_new digest d j t = Inr (res, d3)"
  shows "db_wf d3 \<and> map identity (sources d3) = map identity (sources d) @ [(nj_source j, nj_external_id j)] \<and>
    ir_action res = CREATED \<and> (nj_source j, nj_external_id j) \<notin> identity ` set (sources d)"
  using assms(2)
proof (cases rule: ingest_new_cases)
  case (created co k d1 c d2 r)
  note rc = resolve_job_company_wf[OF assms(1) created(1)]
  note cj = create_job_result[OF created(3)]
  note cs = create_source_result[OF created(4)]
  have "db_wf d3" using create_both_wf[OF _ _ created(3,4)] rc by blast
  then show ?thesis using cs cj rc created(5) by simp
next
  case (attached co k d1 x c d2 r)
  note rc = resolve_job_company_wf[OF assms(1) attached(1)]
  note cs = create_source_result[OF attached(4)]
  have "db_wf d3" using attach_wf[OF _ choose_canonical_in[OF attached(2)] attached(3,4)] rc by blast
  moreover have "sources d2 = sources d1" using reactivate_sources(1)[of d1 x t] attached(3) by simp
  ultimately show ?thesis using cs rc attached(5) by simp
qed

lemma reingest_wf:
  assumes "db_wf d" "r \<in> set (sources d)" "reingest digest d r j t = Inr (res, d2)"
  shows "db_wf d2 \<and> map identity (sources d2) = map identity (sources d) \<and>
    map cj_id (jobs d2) = map cj_id (jobs d) \<and>
    ir_action res = (if js_content_hash r \<noteq> nj_content_hash j then UPDATED else REOBSERVED)"
proof -
  obtain co k d1 where rc: "resolve_job_company d j True = (co, k, d1)" by (rule prod_cases3)
  note w = resolve_job_company_wf[OF assms(1) rc]
  obtain rf: "refresh_source digest d1 r j co t (js_content_hash r \<noteq> nj_content_hash j) = Inr d2"
    and act: "ir_action res = (if js_content_hash r \<noteq> nj_content_hash j then UPDATED else REOBSERVED)"
    using assms(3) rc by (auto simp: reingest_def Let_def split: sum.splits option.splits)
  have "r \<in> set (sources d1)" using w assms(2) by simp
  then show ?thesis using refresh_source_wf[OF _ _ _ rf] w act by auto
qed

lemma ingest_wf:
  assumes "db_wf d" "ingest digest d j t = Inr (res, d')"
  shows "db_wf d' \<and> identity ` set (sources d') = insert (nj_source j, nj_external_id j) (identity ` set (sources d)) \<and>
    length (sources d') = length (sources d) + (if (nj_source j, nj_external_id j) \<in> identity ` set (sources d) then 0 else 1)"
proof (cases "get_source d (nj_source j) (nj_external_id j)")
  case None
  then have n: "ingest_new digest d j t = Inr (res, d')" using assms(2) by (simp add: ingest_def)
  note w = ingest_new_wf[OF assms(1) n]
  then have "length (map identity (sources d')) = Suc (length (sources d))" by simp
  then have "length (sources d') = Suc (length (sources d))" by simp
  moreover have "map identity (sources d') = map identity (sources d) @ [(nj_source j, nj_external_id j)]"
    using w by blast
  from arg_cong[OF this, of set]
  have "identity ` set (sources d') = insert (nj_source j, nj_external_id j) (identity ` set (sources d))" by simp
  ultimately show ?thesis using w by simp
next
  case (Some r)
  then have n: "reingest digest d r j t = Inr (res, d')" using assms(2) by (simp add: ingest_def)
  note r = get_source_in[OF Some]
  note w = reingest_wf[OF assms(1) _ n]
  have "length (sources d') = length (sources d)" using w r by (metis length_map)
  moreover have "(nj_source j, nj_external_id j) \<in> identity ` set (sources d)"
    using r by (metis image_eqI)
  ultimately show ?thesis using w r image_eq_map[of identity "sources d'" "sources d"]
    by (simp add: insert_absorb)
qed

section \<open>Batches over an identity store\<close>

text \<open>The shared contract of the stores that keep one row per provider identity: a stored
  item's identity is known afterwards, nothing else appears or disappears, and a known
  identity never gets a second row.\<close>

fun put_all :: "('d \<Rightarrow> 'j \<Rightarrow> 'e + 'd) \<Rightarrow> 'd \<Rightarrow> 'j list \<Rightarrow> 'e + 'd" where
  "put_all put d [] = Inr d"
| "put_all put d (j # js) = (case put d j of Inl e \<Rightarrow> Inl e | Inr d' \<Rightarrow> put_all put d' js)"

locale identity_store =
  fixes put :: "'d \<Rightarrow> 'j \<Rightarrow> 'e + 'd"
    and key :: "'j \<Rightarrow> 'k"
    and keys :: "'d \<Rightarrow> 'k list"
    and inv :: "'d \<Rightarrow> bool"
  assumes keys_distinct: "inv d \<Longrightarrow> distinct (keys d)"
    and put_inv: "\<lbrakk>inv d; put d j = Inr d'\<rbrakk> \<Longrightarrow> inv d'"
    and put_keys: "\<lbrakk>inv d; put d j = Inr d'\<rbrakk> \<Longrightarrow> set (keys d') = insert (key j) (set (keys d))"
begin

lemma put_all_inv:
  "\<lbrakk>inv d; put_all put d js = Inr d'\<rbrakk> \<Longrightarrow> inv d' \<and> set (keys d') = key ` set js \<union> set (keys d)"
proof (induction js arbitrary: d)
  case (Cons j js)
  then obtain d1 where d1: "put d j = Inr d1" "put_all put d1 js = Inr d'" by (auto split: sum.splits)
  have "inv d1" "set (keys d1) = insert (key j) (set (keys d))"
    using put_inv put_keys Cons.prems(1) d1(1) by blast+
  then show ?case using Cons.IH[OF _ d1(2)] by auto
qed simp

lemma put_all_size:
  assumes "inv d" "put_all put d js = Inr d'"
  shows "length (keys d') = card (key ` set js \<union> set (keys d))"
  using put_all_inv[OF assms] keys_distinct by (metis distinct_card)

lemma put_all_again:
  assumes "inv d" "put_all put d js = Inr d'" "put_all put d' js = Inr d''"
  shows "length (keys d'') = length (keys d') \<and> set (keys d'') = set (keys d')"
proof -
  have a: "inv d'" "set (keys d') = key ` set js \<union> set (keys d)" using put_all_inv[OF assms(1,2)] by blast+
  have b: "inv d''" "set (keys d'') = key ` set js \<union> set (keys d')" using put_all_inv[OF a(1) assms(3)] by blast+
  have "set (keys d'') = set (keys d')" using a b by auto
  then show ?thesis using keys_distinct a(1) b(1) by (metis distinct_card)
qed

end

definition ingest_put :: "(string \<Rightarrow> string) \<Rightarrow> int \<Rightarrow> db \<Rightarrow> normalized_job \<Rightarrow> db_error + db" where
  "ingest_put digest t d j = (case ingest digest d j t of Inl e \<Rightarrow> Inl e | Inr (_, d') \<Rightarrow> Inr d')"

definition identities :: "db \<Rightarrow> (string \<times> string) list" where
  "identities d = map identity (sources d)"

definition job_key :: "normalized_job \<Rightarrow> string \<times> string" where
  "job_key j = (nj_source j, nj_external_id j)"

interpretation canonical: identity_store "ingest_put digest t" job_key identities db_wf for digest t
proof (unfold_locales, goal_cases)
  case (1 d)
  then show ?case by (simp add: identities_def db_wf_def ids_wf_def)
next
  case (2 d j d')
  then show ?case using ingest_wf by (auto simp: ingest_put_def split: sum.splits prod.splits)
next
  case (3 d j d')
  then show ?case using ingest_wf[of d digest j t]
    by (auto simp: ingest_put_def identities_def job_key_def split: sum.splits prod.splits)
qed

section \<open>Histories\<close>

text \<open>A committed transaction of the collection side: one ingestion, one discovery touch or
  one freshness sweep.\<close>

inductive db_step :: "(string \<Rightarrow> string) \<Rightarrow> db \<Rightarrow> db \<Rightarrow> bool" for digest where
  step_ingest: "ingest digest d j t = Inr (res, d') \<Longrightarrow> db_step digest d d'"
| step_touch: "touch_seen d src ids t = (n, d') \<Longrightarrow> db_step digest d d'"
| step_stale: "deactivate_stale_sources d src threshold window = (n, d') \<Longrightarrow> db_step digest d d'"

inductive db_reachable :: "(string \<Rightarrow> string) \<Rightarrow> db \<Rightarrow> bool" for digest where
  reach_empty: "db_reachable digest empty_db"
| reach_step: "\<lbrakk>db_reachable digest d; db_step digest d d'\<rbrakk> \<Longrightarrow> db_reachable digest d'"

inductive_cases db_stepE: "db_step digest d d'"

lemma db_step_wf: "\<lbrakk>db_step digest d d'; db_wf d\<rbrakk> \<Longrightarrow> db_wf d'"
proof (erule db_stepE)
  fix j t res assume "db_wf d" "ingest digest d j t = Inr (res, d')"
  then show "db_wf d'" using ingest_wf by blast
next
  fix src ids t n assume "db_wf d" "touch_seen d src ids t = (n, d')"
  then show "db_wf d'" using touch_wf[of d src "uniq ids" t] by (simp add: touch_seen_def)
next
  fix src threshold window n assume "db_wf d" "deactivate_stale_sources d src threshold window = (n, d')"
  then show "db_wf d'" using deactivate_wf[of d src threshold window] by simp
qed

lemma db_reachable_wf: "db_reachable digest d \<Longrightarrow> db_wf d"
  by (induction rule: db_reachable.induct) (auto intro: empty_db_wf db_step_wf)

lemma resolve_job_company_again:
  assumes "db_wf d" "resolve_job_company d j True = (co, k, d1)"
    and "\<forall>c \<in> set (companies d1). c \<in> set (companies d2)" "db_wf d2"
    and "resolve_job_company d2 j True = (co2, k2, d3)"
  shows "d3 = d2 \<and> k2 = False"
proof (cases "nj_company j = None \<or> nj_normalized_company j = None")
  case True
  then show ?thesis using assms(5) by (auto simp: resolve_job_company_def split: option.splits)
next
  case False
  then obtain a b where ab: "nj_company j = Some a" "nj_normalized_company j = Some b" by auto
  obtain c where c: "co = Some c" "resolve_company d a b = (c, k, d1)"
    using assms(2) ab by (auto simp: resolve_job_company_def split: prod.splits)
  have "c \<in> set (companies d1)" using resolve_company_wf[OF assms(1) c(2)] by blast
  moreover have "co_normalized_name c = b"
    using c(2) by (auto simp: resolve_company_def Let_def dest: find_SomeD split: option.splits)
  ultimately have "find (\<lambda>c. co_normalized_name c = b) (companies d2) \<noteq> None"
    using assms(3) by (auto simp: find_None_iff')
  then show ?thesis using assms(5) ab by (auto simp: resolve_job_company_def resolve_company_def split: prod.splits)
qed

lemma ingest_effects:
  assumes "db_wf d" "ingest digest d j t = Inr (res, d')"
  shows "\<exists>r. get_source d' (nj_source j) (nj_external_id j) = Some r \<and> js_content_hash r = nj_content_hash j"
    and "\<exists>co k d1. resolve_job_company d j True = (co, k, d1) \<and> companies d' = companies d1"
proof -
  note w = ingest_wf[OF assms]
  have ids: "ids_wf d'" using w by (simp add: db_wf_def)
  obtain co k d1 where rc: "resolve_job_company d j True = (co, k, d1)" by (rule prod_cases3)
  have "(\<exists>r \<in> set (sources d'). identity r = (nj_source j, nj_external_id j) \<and> js_content_hash r = nj_content_hash j) \<and>
      companies d' = companies d1"
  proof (cases "get_source d (nj_source j) (nj_external_id j)")
    case None
    then have n: "ingest_new digest d j t = Inr (res, d')" using assms(2) by (simp add: ingest_def)
    then show ?thesis
    proof (cases rule: ingest_new_cases)
      case (created co' k' d1' c d2 r)
      note create_source_result[OF created(4)] create_job_result[OF created(3)]
      then show ?thesis using rc created(1) by auto
    next
      case (attached co' k' d1' x c d2 r)
      have "companies d2 = companies d1'" using attached(3) by (auto simp: reactivate_def Let_def)
      then show ?thesis using create_source_result[OF attached(4)] rc attached(1) by auto
    qed
  next
    case (Some r)
    then have n: "reingest digest d r j t = Inr (res, d')" using assms(2) by (simp add: ingest_def)
    have rf: "refresh_source digest d1 r j co t (js_content_hash r \<noteq> nj_content_hash j) = Inr d'"
      using n rc by (auto simp: reingest_def Let_def split: sum.splits option.splits)
    have rin: "r \<in> set (sources d1)" "identity r = (nj_source j, nj_external_id j)"
      using resolve_job_company_wf[OF assms(1) rc] get_source_in[OF Some] by simp_all
    show ?thesis using rf
    proof (rule refresh_source_result)
      fix c assume "d' = d1\<lparr>jobs := update_where (\<lambda>x. cj_id x = cj_id c) (\<lambda>_. refreshed_canonical digest c j co t) (jobs d1),
         sources := update_where (\<lambda>x. js_id x = js_id r)
           (\<lambda>_. refreshed_source r j t (js_content_hash r \<noteq> nj_content_hash j)) (sources d1)\<rparr>"
      then have "refreshed_source r j t (js_content_hash r \<noteq> nj_content_hash j) \<in> set (sources d')"
        "companies d' = companies d1"
        using rin(1) by (auto simp: set_update_where intro!: bexI[of _ r])
      then show ?thesis using rin(2) by (intro conjI bexI) auto
    qed
  qed
  then obtain r where r: "r \<in> set (sources d')" "identity r = (nj_source j, nj_external_id j)"
    "js_content_hash r = nj_content_hash j" and co: "companies d' = companies d1" by blast
  have "get_source d' (nj_source j) (nj_external_id j) = Some r"
    using get_source_found[OF ids r(1)] r(2) by (simp add: identity_def)
  then show "\<exists>r. get_source d' (nj_source j) (nj_external_id j) = Some r \<and> js_content_hash r = nj_content_hash j"
    using r(3) by blast
  show "\<exists>co k d1. resolve_job_company d j True = (co, k, d1) \<and> companies d' = companies d1"
    using rc co by blast
qed

definition plain_job :: "string \<Rightarrow> string \<Rightarrow> int option \<Rightarrow> int option \<Rightarrow> normalized_job" where
  "plain_job ident hash lo hi =
     \<lparr>nj_source = ''dice'', nj_external_id = ident, nj_title = ''Backend Engineer'',
      nj_normalized_title = ''backend engineer'', nj_role_family = ''backend'',
      nj_company = Some ''Acme'', nj_normalized_company = Some ''acme'',
      nj_location = Some ''Pune'', nj_normalized_location = Some ''pune'', nj_url = None,
      nj_description = None, nj_salary_text = None, nj_employment_type = None, nj_remote = None,
      nj_skills = [], nj_posted_at = Some 0, nj_source_updated_at = None,
      nj_experience_min = lo, nj_experience_max = hi, nj_experience_text = None,
      nj_content_hash = hash, nj_raw_data = [], nj_salary_min = None, nj_salary_max = None,
      nj_salary_currency = None, nj_salary_period = None, nj_remote_type = None\<rparr>"

lemmas ingest_eval = ingest_def ingest_new_def reingest_def resolve_job_company_def resolve_company_def
  choose_canonical_def find_job_by_source_url_def find_dedup_candidates_def create_job_def create_source_def
  new_canonical_def new_source_def get_source_def get_job_def get_company_def is_identity_def
  canonical_checks_def nonneg_opt_def refresh_source_def refreshed_canonical_def refreshed_source_def
  evaluate_same_source_url_def plain_job_def empty_db_def update_where_def build_canonical_hash_def Let_def

lemma first_ingest: "\<exists>res d1. ingest (\<lambda>s. ''h'') empty_db (plain_job ''1'' ''c'' (Some 1) (Some 3)) 10 = Inr (res, d1)"
  by (simp add: ingest_eval)

lemma merge_on_lesser_signs:
  assumes "cj_is_active c" "truthy (nj_normalized_company j)"
    and "cj_normalized_title c = nj_normalized_title j"
    and "truthy (nj_normalized_location j)" "cj_normalized_location c = nj_normalized_location j"
    and "\<not> (truthy (cj_employment_type c) \<and> truthy (nj_employment_type j)) \<or> cj_employment_type c = nj_employment_type j"
    and "cj_posted_at c = Some a" "nj_posted_at j = Some b" "\<bar>a - b\<bar> \<le> 3 * day_us"
  shows "dd_should_merge (evaluate_cross_source_candidate c j)"
proof -
  have t: "title_evidence c j = ([''exact_normalized_title''], 4 / 10)" using assms(3) by (simp add: title_evidence_def)
  have l: "location_evidence c j = Some ([''exact_normalized_location''], 2 / 10)"
    using assms(4,5) by (simp add: location_evidence_def)
  obtain e3 c3 where y: "type_evidence c j = Some (e3, c3)"
  proof (cases "truthy (cj_employment_type c) \<and> truthy (nj_employment_type j)")
    case True
    then have "type_evidence c j = Some ([''exact_employment_type''], 1 / 10)"
      using assms(6) by (simp add: type_evidence_def)
    then show ?thesis by (rule that)
  next
    case False
    then have "type_evidence c j = Some ([], 0)" by (simp only: type_evidence_def if_False)
    then show ?thesis by (rule that)
  qed
  obtain e4 c4 where d: "description_evidence c j = (e4, c4)" by (rule prod.exhaust)
  have p: "date_evidence c j = ([''close_posted_date''], 1 / 10)" using assms(7,8,9) by (simp add: date_evidence_def)
  have "0 \<le> c3" "0 \<le> c4" using evidence_bounds(3)[OF y] evidence_bounds(4)[OF d] by simp_all
  then show ?thesis using assms(1,2)
    by (simp add: evaluate_cross_source_candidate_def Let_def t l y d p)
qed

lemma sample_merge:
  "dd_should_merge (evaluate_cross_source_candidate
     (new_canonical (\<lambda>s. ''h'') 7 (plain_job ''1'' ''c'' None None) None 10) (plain_job ''2'' ''z'' None None))"
  by (rule merge_on_lesser_signs[where a = 0 and b = 0])
    (simp_all add: new_canonical_def plain_job_def day_us_def)

section \<open>Properties\<close>

text \<open>C1: in every database the collection side can reach, a provider identity has one
  listing, every listing belongs to an existing opening and every opening to an existing
  company, employers are unique by normalised name, an opening is active exactly when one
  of its listings is, and the figures of every opening satisfy the table constraints.\<close>

theorem reachable_database_consistent:
  assumes "db_reachable digest d"
  shows "distinct (map identity (sources d)) \<and>
    (\<forall>r \<in> set (sources d). \<exists>j \<in> set (jobs d). cj_id j = js_job_id r) \<and>
    (\<forall>j \<in> set (jobs d). \<forall>i. cj_company_id j = Some i \<longrightarrow> (\<exists>c \<in> set (companies d). co_id c = i)) \<and>
    distinct (map co_normalized_name (companies d)) \<and>
    (\<forall>j \<in> set (jobs d). cj_is_active j \<longleftrightarrow> (\<exists>r \<in> set (sources d). js_job_id r = cj_id j \<and> js_is_active r)) \<and>
    (\<forall>j \<in> set (jobs d). canonical_checks j)"
proof -
  have wf: "ids_wf d" "links_wf d" "active_sync d" "checks_wf d"
    using db_reachable_wf[OF assms] by (simp_all add: db_wf_def)
  have "\<exists>c \<in> set (companies d). co_id c = i" if "j \<in> set (jobs d)" "cj_company_id j = Some i" for j i
  proof -
    have "Some i \<in> insert None (Some ` co_id ` set (companies d))"
      using wf(2) imageI[OF that(1), of cj_company_id] unfolding links_wf_def that(2) by (meson subsetD)
    then show ?thesis by auto
  qed
  moreover have "\<exists>j \<in> set (jobs d). cj_id j = js_job_id r" if "r \<in> set (sources d)" for r
    using wf(2) that by (force simp: links_wf_def)
  ultimately show ?thesis using wf by (simp add: ids_wf_def active_sync_def checks_wf_def has_active_iff)
qed

theorem reachable_database_consistent_witness:
  "\<exists>d. db_reachable (\<lambda>s. ''h'') d \<and> length (sources d) = 1 \<and>
     (\<forall>r \<in> set (sources d). \<exists>j \<in> set (jobs d). cj_id j = js_job_id r)"
proof -
  obtain res d1 where i: "ingest (\<lambda>s. ''h'') empty_db (plain_job ''1'' ''c'' (Some 1) (Some 3)) 10 = Inr (res, d1)"
    using first_ingest by blast
  then have r: "db_reachable (\<lambda>s. ''h'') d1" by (intro reach_step[OF reach_empty] step_ingest)
  have "length (sources d1) = 1" using ingest_wf[OF empty_db_wf i] by (simp add: empty_db_def)
  then show ?thesis using r reachable_database_consistent[OF r] by blast
qed

theorem cross_source_merge_requires_witness:
  "cj_normalized_title (new_canonical (\<lambda>s. ''h'') 7 (plain_job ''1'' ''c'' None None) None 10) =
   nj_normalized_title (plain_job ''2'' ''z'' None None)"
  using cross_source_merge_requires[OF sample_merge] by blast

text \<open>Ingesting the same listing again is a re-observation: it adds no row to any
  table.\<close>

theorem ingest_again_reobserves:
  assumes "db_wf d" "ingest digest d j t = Inr (res1, d1)" "ingest digest d1 j t' = Inr (res2, d2)"
  shows "ir_action res2 = REOBSERVED \<and> map identity (sources d2) = map identity (sources d1) \<and>
    map cj_id (jobs d2) = map cj_id (jobs d1) \<and> companies d2 = companies d1"
proof -
  have wf1: "db_wf d1" using ingest_wf[OF assms(1,2)] by blast
  obtain r where r: "get_source d1 (nj_source j) (nj_external_id j) = Some r" "js_content_hash r = nj_content_hash j"
    using ingest_effects(1)[OF assms(1,2)] by blast
  then have re: "reingest digest d1 r j t' = Inr (res2, d2)" using assms(3) by (simp add: ingest_def)
  note rw = reingest_wf[OF wf1 _ re]
  obtain co k d0 where e1: "resolve_job_company d j True = (co, k, d0)" "companies d1 = companies d0"
    using ingest_effects(2)[OF assms(1,2)] by blast
  obtain co2 k2 d3 where e2: "resolve_job_company d1 j True = (co2, k2, d3)" "companies d2 = companies d3"
    using ingest_effects(2)[OF wf1 assms(3)] by blast
  have "d3 = d1" using resolve_job_company_again[OF assms(1) e1(1) _ wf1 e2(1)] e1(2) by simp
  then show ?thesis using rw r get_source_in[OF r(1)] e2(2) by simp
qed

theorem ingest_again_reobserves_witness:
  "\<exists>res1 d1 res2 d2. ingest (\<lambda>s. ''h'') empty_db (plain_job ''1'' ''c'' (Some 1) (Some 3)) 10 = Inr (res1, d1) \<and>
     ingest (\<lambda>s. ''h'') d1 (plain_job ''1'' ''c'' (Some 1) (Some 3)) 20 = Inr (res2, d2) \<and>
     ir_action res2 = REOBSERVED"
proof -
  obtain res1 d1 where i: "ingest (\<lambda>s. ''h'') empty_db (plain_job ''1'' ''c'' (Some 1) (Some 3)) 10 = Inr (res1, d1)"
    using first_ingest by blast
  have "\<exists>res2 d2. ingest (\<lambda>s. ''h'') d1 (plain_job ''1'' ''c'' (Some 1) (Some 3)) 20 = Inr (res2, d2)"
    using i by (auto simp: ingest_eval)
  then show ?thesis using ingest_again_reobserves[OF empty_db_wf i] i by blast
qed

text \<open>C9: a batch of listings that is ingested and then ingested again leaves exactly as
  many listings as there are identities, old and new.\<close>

theorem batch_ingestion_idempotent:
  assumes "db_wf d" "put_all (ingest_put digest t) d js = Inr d1" "put_all (ingest_put digest t) d1 js = Inr d2"
  shows "length (sources d1) = card (job_key ` set js \<union> set (identities d)) \<and>
    length (sources d2) = length (sources d1) \<and> set (identities d2) = set (identities d1)"
proof -
  have "length (identities d1) = card (job_key ` set js \<union> set (identities d))"
    by (rule canonical.put_all_size[OF assms(1,2)])
  moreover have "length (identities d2) = length (identities d1) \<and> set (identities d2) = set (identities d1)"
    by (rule canonical.put_all_again[OF assms])
  ultimately show ?thesis by (simp add: identities_def)
qed

theorem batch_ingestion_idempotent_witness:
  "\<exists>d1 d2. put_all (ingest_put (\<lambda>s. ''h'') 10) empty_db [plain_job ''1'' ''c'' (Some 1) (Some 3)] = Inr d1 \<and>
     put_all (ingest_put (\<lambda>s. ''h'') 10) d1 [plain_job ''1'' ''c'' (Some 1) (Some 3)] = Inr d2 \<and>
     length (sources d2) = length (sources d1)"
proof -
  let ?js = "[plain_job ''1'' ''c'' (Some 1) (Some 3)]"
  obtain d1 where i: "put_all (ingest_put (\<lambda>s. ''h'') 10) empty_db ?js = Inr d1"
    using first_ingest by (auto simp: ingest_put_def)
  have "\<exists>d2. put_all (ingest_put (\<lambda>s. ''h'') 10) d1 ?js = Inr d2"
    using i by (auto simp: ingest_put_def ingest_eval)
  then show ?thesis using batch_ingestion_idempotent[OF empty_db_wf i] i by blast
qed

text \<open>A listing whose new text raises the minimum years above the stored maximum, and
  names no maximum itself, cannot be refreshed: the stored maximum is kept, the row
  violates its constraint, and the ingestion fails, although both the listing and the
  stored row are well formed.\<close>

theorem refresh_keeps_stale_maximum:
  assumes "get_job d (js_job_id r) = Some c" "cj_experience_max c = Some b"
    and "nj_experience_min j = Some a" "nj_experience_max j = None" "b < a"
  shows "refresh_source digest d r j co t changed = Inl CheckViolation"
  using assms by (simp add: refresh_source_def refreshed_canonical_def canonical_checks_def Let_def)

theorem refresh_keeps_stale_maximum_witness:
  "\<exists>res d1. ingest (\<lambda>s. ''h'') empty_db (plain_job ''1'' ''c'' (Some 1) (Some 3)) 10 = Inr (res, d1) \<and> db_wf d1 \<and>
     (\<exists>r. get_source d1 ''dice'' ''1'' = Some r \<and>
       refresh_source (\<lambda>s. ''h'') d1 r (plain_job ''1'' ''c2'' (Some 5) None) None 20 True = Inl CheckViolation)"
proof -
  obtain res d1 where i: "ingest (\<lambda>s. ''h'') empty_db (plain_job ''1'' ''c'' (Some 1) (Some 3)) 10 = Inr (res, d1)"
    using first_ingest by blast
  obtain r c where r: "get_source d1 ''dice'' ''1'' = Some r" "get_job d1 (js_job_id r) = Some c" "cj_experience_max c = Some 3"
    using i by (auto simp: ingest_eval)
  have "refresh_source (\<lambda>s. ''h'') d1 r (plain_job ''1'' ''c2'' (Some 5) None) None 20 True = Inl CheckViolation"
    by (rule refresh_keeps_stale_maximum[OF r(2,3), where a = 5]) (simp_all add: plain_job_def)
  then show ?thesis using i r(1) ingest_wf[OF empty_db_wf i] by blast
qed

text \<open>Two listings of one provider with different identifiers become one opening when
  title, employer, location and posting date agree, whatever their descriptions: the
  merge needs neither a common link nor a common text.\<close>

theorem distinct_listings_merge:
  assumes "cj_is_active c" "truthy (nj_normalized_company j)"
    and "cj_normalized_title c = nj_normalized_title j"
    and "truthy (nj_normalized_location j)" "cj_normalized_location c = nj_normalized_location j"
    and "\<not> (truthy (cj_employment_type c) \<and> truthy (nj_employment_type j)) \<or> cj_employment_type c = nj_employment_type j"
    and "cj_posted_at c = Some a" "nj_posted_at j = Some b" "\<bar>a - b\<bar> \<le> 3 * day_us"
  shows "dd_should_merge (evaluate_cross_source_candidate c j)"
  using assms by (rule merge_on_lesser_signs)

theorem distinct_listings_merge_witness:
  "dd_should_merge (evaluate_cross_source_candidate
     (new_canonical (\<lambda>s. ''h'') 7 (plain_job ''1'' ''c'' None None) None 10) (plain_job ''2'' ''z'' None None))"
  by (rule distinct_listings_merge[where a = 0 and b = 0])
    (simp_all add: new_canonical_def plain_job_def day_us_def)

text \<open>A freshness sweep acts only when the source itself has been seen since the start
  of the safety window; then it deactivates exactly the active listings of that source
  last seen before the threshold and reports their number; afterwards an opening is
  active exactly when a listing of it still is. Otherwise it changes nothing.\<close>

theorem stale_sweep_effect:
  assumes "db_wf d" "deactivate_stale_sources d src threshold window = (n, d')"
    and "healthy \<longleftrightarrow> (\<exists>r \<in> set (sources d). js_source r = src \<and> window \<le> js_last_seen_at r)"
  shows "sources d' = (if healthy
        then map (\<lambda>r. if is_stale src threshold r then r\<lparr>js_is_active := False\<rparr> else r) (sources d)
        else sources d) \<and>
    n = (if healthy then length (filter (is_stale src threshold) (sources d)) else 0) \<and>
    (\<forall>j \<in> set (jobs d'). cj_is_active j \<longleftrightarrow> (\<exists>r \<in> set (sources d'). js_job_id r = cj_id j \<and> js_is_active r)) \<and>
    (\<not> healthy \<longrightarrow> d' = d)"
proof -
  have mx: "w \<le> fold max ts t \<longleftrightarrow> (\<exists>x \<in> set (t # ts). w \<le> x)" for w t :: int and ts
    by (induction ts arbitrary: t) auto
  have h: "healthy \<longleftrightarrow> (case last_seen d src of None \<Rightarrow> False | Some h \<Rightarrow> window \<le> h)"
  proof (cases "map js_last_seen_at (filter (\<lambda>r. js_source r = src) (sources d))")
    case Nil
    then show ?thesis by (auto simp: last_seen_def assms(3) filter_empty_conv)
  next
    case (Cons t ts)
    have "set (t # ts) = js_last_seen_at ` {r \<in> set (sources d). js_source r = src}"
      using arg_cong[OF Cons, of set] by simp
    then show ?thesis using Cons mx[of window ts t] by (auto simp: last_seen_def assms(3))
  qed
  have "db_wf d'" using deactivate_wf[OF assms(1), of src threshold window] assms(2) by simp
  then have "\<forall>j \<in> set (jobs d'). cj_is_active j \<longleftrightarrow> (\<exists>r \<in> set (sources d'). js_job_id r = cj_id j \<and> js_is_active r)"
    by (simp add: db_wf_def active_sync_def has_active_iff)
  moreover have "sources d' = (if healthy
        then map (\<lambda>r. if is_stale src threshold r then r\<lparr>js_is_active := False\<rparr> else r) (sources d)
        else sources d) \<and> n = (if healthy then length (filter (is_stale src threshold) (sources d)) else 0) \<and>
      (\<not> healthy \<longrightarrow> d' = d)"
    using assms(2) h
    by (auto simp: deactivate_stale_sources_def Let_def update_where_def split: option.splits if_splits)
  ultimately show ?thesis by blast
qed

theorem stale_sweep_effect_witness:
  "\<exists>res d1. ingest (\<lambda>s. ''h'') empty_db (plain_job ''1'' ''c'' (Some 1) (Some 3)) 10 = Inr (res, d1) \<and>
     fst (deactivate_stale_sources d1 ''dice'' 20 5) = 1"
proof -
  obtain res d1 where i: "ingest (\<lambda>s. ''h'') empty_db (plain_job ''1'' ''c'' (Some 1) (Some 3)) 10 = Inr (res, d1)"
    using first_ingest by blast
  have s: "map js_source (sources d1) = [''dice'']" "map js_last_seen_at (sources d1) = [10]"
    "map js_is_active (sources d1) = [True]"
    using i by (auto simp: ingest_eval)
  then obtain r where r: "sources d1 = [r]" "js_source r = ''dice''" "js_last_seen_at r = 10" "js_is_active r" by auto
  have "fst (deactivate_stale_sources d1 ''dice'' 20 5) =
      (if \<exists>r \<in> set (sources d1). js_source r = ''dice'' \<and> 5 \<le> js_last_seen_at r
       then length (filter (is_stale ''dice'' 20) (sources d1)) else 0)"
    using stale_sweep_effect[of d1 "''dice''" 20 5 "fst (deactivate_stale_sources d1 ''dice'' 20 5)"
        "snd (deactivate_stale_sources d1 ''dice'' 20 5)"] ingest_wf[OF empty_db_wf i] by simp
  then show ?thesis using i r by (simp add: is_stale_def)
qed

end
