(* ===== verification/Matching.thy ===== *)
theory Matching
  imports CanonicalRepo
begin

text \<open>
  Deterministic matching (\<open>src/app/jobs/matching\<close>): the hard eligibility rules, the five
  score components and the order of scored jobs. A \<open>MatchableJob\<close> is the read model both
  callers pass, \<open>CanonicalJobRead\<close>. Floats are exact rationals; the clock is an argument.
\<close>

record candidate =
  cd_role :: string
  cd_years :: "rat option"
  cd_skills :: "string list"
  cd_location :: "string option"
  cd_remote_preferred :: "bool option"

record match_score =
  ms_overall :: rat
  ms_role :: rat
  ms_skills :: rat
  ms_experience :: rat
  ms_location :: rat
  ms_freshness :: rat

definition as_legacy_mapping :: "match_score \<Rightarrow> (string, rat) dict" where
  "as_legacy_mapping s = [(''match_score'', ms_overall s), (''role_score'', ms_role s),
     (''skills_score'', ms_skills s), (''experience_score'', ms_experience s),
     (''location_score'', ms_location s), (''freshness_score'', ms_freshness s)]"

section \<open>Eligibility\<close>

definition experience_compatible :: "rat option \<Rightarrow> int option \<Rightarrow> bool" where
  "experience_compatible candidate_years minimum =
     (case (candidate_years, minimum) of
        (Some y, Some m) \<Rightarrow> of_int m \<le> y
      | _ \<Rightarrow> True)"

definition is_eligible :: "candidate \<Rightarrow> job_read \<Rightarrow> bool" where
  "is_eligible c j \<longleftrightarrow> jr_is_active j \<and> roles_compatible (cd_role c) (jr_role_family j) \<and>
     experience_compatible (cd_years c) (jr_experience_min j)"

section \<open>Scores\<close>

definition shared_skills :: "string list \<Rightarrow> string list \<Rightarrow> nat" where
  "shared_skills wanted owned =
     length (filter (\<lambda>s. s \<in> set (map lower owned)) (uniq (map lower wanted)))"

definition skills_points :: "candidate \<Rightarrow> job_read \<Rightarrow> rat" where
  "skills_points c j =
     (if jr_skills j = [] then 0
      else 30 * (of_nat (shared_skills (jr_skills j) (cd_skills c)) / of_nat (length (uniq (map lower (jr_skills j))))))"

definition experience_points :: "candidate \<Rightarrow> job_read \<Rightarrow> rat" where
  "experience_points c j =
     (case jr_experience_min j of
        None \<Rightarrow> 20
      | Some m \<Rightarrow> (case cd_years c of None \<Rightarrow> 0 | Some y \<Rightarrow> if of_int m \<le> y then 20 else 0))"

definition location_points :: "candidate \<Rightarrow> job_read \<Rightarrow> rat" where
  "location_points c j =
     (if jr_remote j = Some True \<and> cd_remote_preferred c = Some True then 10
      else case (cd_location c, jr_location j) of
             (Some (a # as), Some (b # bs)) \<Rightarrow>
               if contains_sub (lower (a # as)) (lower (b # bs)) then 10 else 0
           | _ \<Rightarrow> 0)"

definition age_days :: "int \<Rightarrow> job_read \<Rightarrow> rat" where
  "age_days now j =
     max 0 (of_int (now - (case jr_posted_at j of Some t \<Rightarrow> t | None \<Rightarrow> jr_last_seen_at j)) / of_int day_us)"

definition freshness_points :: "int \<Rightarrow> job_read \<Rightarrow> rat" where
  "freshness_points now j = max 0 (10 - min (age_days now j) 10)"

definition role_points :: "candidate \<Rightarrow> job_read \<Rightarrow> rat" where
  "role_points c j = (if roles_compatible (cd_role c) (jr_role_family j) then 30 else 0)"

definition score_job :: "int \<Rightarrow> candidate \<Rightarrow> job_read \<Rightarrow> match_score" where
  "score_job now c j =
     \<lparr>ms_overall = role_points c j + skills_points c j + experience_points c j + location_points c j + freshness_points now j,
      ms_role = role_points c j, ms_skills = skills_points c j, ms_experience = experience_points c j,
      ms_location = location_points c j, ms_freshness = freshness_points now j\<rparr>"

definition rank_job :: "int \<Rightarrow> candidate \<Rightarrow> job_read \<Rightarrow> (string, rat) dict" where
  "rank_job now c j = as_legacy_mapping (score_job now c j)"

section \<open>Order\<close>

definition match_key :: "job_read \<times> match_score \<Rightarrow> rat \<times> nat" where
  "match_key m = (- ms_overall (snd m), jr_id (fst m))"

definition rank_matches :: "(job_read \<times> match_score) list \<Rightarrow> (job_read \<times> match_score) list" where
  "rank_matches ms = sort_key match_key ms"

lemma score_job_sel [simp]:
  "ms_role (score_job now c j) = role_points c j" "ms_skills (score_job now c j) = skills_points c j"
  "ms_experience (score_job now c j) = experience_points c j"
  "ms_location (score_job now c j) = location_points c j"
  "ms_freshness (score_job now c j) = freshness_points now j"
  "ms_overall (score_job now c j) =
     role_points c j + skills_points c j + experience_points c j + location_points c j + freshness_points now j"
  by (simp_all add: score_job_def)

lemma shared_skills_card: "shared_skills ws os = card (lower ` set ws \<inter> lower ` set os)"
proof -
  have "set (filter (\<lambda>s. s \<in> set (map lower os)) (uniq (map lower ws))) = lower ` set ws \<inter> lower ` set os"
    by auto
  then show ?thesis unfolding shared_skills_def by (metis distinct_card distinct_filter distinct_uniq)
qed

lemma skill_count_card: "length (uniq (map lower ws)) = card (lower ` set ws)"
  by (metis distinct_card distinct_uniq list.set_map set_uniq)

lemma skills_points_bounds: "0 \<le> skills_points c j \<and> skills_points c j \<le> 30"
proof (cases "jr_skills j = []")
  case False
  let ?n = "card (lower ` set (jr_skills j))"
  let ?k = "card (lower ` set (jr_skills j) \<inter> lower ` set (cd_skills c))"
  have "0 < ?n" using False by (simp add: card_gt_0_iff)
  moreover have "?k \<le> ?n" by (intro card_mono) auto
  ultimately have "of_nat ?k / of_nat ?n \<le> (1 :: rat)" by (simp add: divide_le_eq)
  then show ?thesis using False by (simp add: skills_points_def shared_skills_card skill_count_card)
qed (simp add: skills_points_def)

lemma skills_points_mono:
  assumes "lower ` set (cd_skills c) \<subseteq> lower ` set (cd_skills c')"
  shows "skills_points c j \<le> skills_points c' j"
proof -
  have "card (lower ` set (jr_skills j) \<inter> lower ` set (cd_skills c)) \<le>
      card (lower ` set (jr_skills j) \<inter> lower ` set (cd_skills c'))"
    using assms by (intro card_mono) auto
  then show ?thesis
    by (auto simp: skills_points_def shared_skills_card intro!: divide_right_mono mult_left_mono)
qed

lemma other_points_bounds:
  "role_points c j \<in> {0, 30}" "experience_points c j \<in> {0, 20}" "location_points c j \<in> {0, 10}"
  "0 \<le> freshness_points now j \<and> freshness_points now j \<le> 10"
  by (simp_all add: role_points_def experience_points_def location_points_def freshness_points_def age_days_def
      split: option.splits list.splits)

lemma relearned_points [simp]:
  "role_points (c\<lparr>cd_skills := xs\<rparr>) j = role_points c j"
  "experience_points (c\<lparr>cd_skills := xs\<rparr>) j = experience_points c j"
  "location_points (c\<lparr>cd_skills := xs\<rparr>) j = location_points c j"
  by (simp_all add: role_points_def experience_points_def location_points_def split: option.split)

lemma rank_matches_sorted: "sorted (map match_key (rank_matches ms))"
  by (simp add: rank_matches_def)

lemma rank_matches_mset [simp]: "mset (rank_matches ms) = mset ms"
  by (simp add: rank_matches_def)

lemma set_rank_matches [simp]: "set (rank_matches ms) = set ms"
  by (simp add: rank_matches_def)

text \<open>A key list that is sorted and free of duplicates determines the list it belongs to.\<close>

lemma sorted_key_unique:
  assumes "mset xs = mset ys" "sorted (map f xs)" "sorted (map f ys)" "inj_on f (set xs)"
  shows "xs = ys"
proof -
  have "map f xs = map f ys"
    using assms(1-3) by (metis mset_map properties_for_sort)
  moreover have "set xs = set ys" using assms(1) by (rule mset_eq_setD)
  ultimately show ?thesis using assms(4) by (metis inj_on_map_eq_map sup.idem)
qed

lemma match_key_inj: "distinct (map (jr_id \<circ> fst) ms) \<Longrightarrow> inj_on match_key (set ms)"
  by (auto simp: inj_on_def match_key_def distinct_map)

section \<open>Properties\<close>

text \<open>Every component of a score stays in its range and the overall score, the sum of
  the components, between 0 and 100; an eligible job never scores below the 30 points of
  the role, nor below 50 when the candidate's years are known; and a candidate who learns
  further skills never loses points on any job.\<close>

theorem score_bounds_and_monotone:
  assumes "lower ` set (cd_skills c) \<subseteq> lower ` set xs"
  shows "ms_role (score_job now c j) \<in> {0, 30} \<and> ms_skills (score_job now c j) \<in> {0..30} \<and>
    ms_experience (score_job now c j) \<in> {0, 20} \<and> ms_location (score_job now c j) \<in> {0, 10} \<and>
    ms_freshness (score_job now c j) \<in> {0..10} \<and> ms_overall (score_job now c j) \<in> {0..100} \<and>
    (is_eligible c j \<longrightarrow> (if cd_years c = None then 30 else 50) \<le> ms_overall (score_job now c j)) \<and>
    ms_overall (score_job now c j) \<le> ms_overall (score_job now (c\<lparr>cd_skills := xs\<rparr>) j)"
proof -
  note b = other_points_bounds(1)[of c j] other_points_bounds(2)[of c j] other_points_bounds(3)[of c j]
    other_points_bounds(4)[of now j] skills_points_bounds[of c j]
  have range: "0 \<le> role_points c j" "role_points c j \<le> 30" "0 \<le> experience_points c j" "experience_points c j \<le> 20"
    "0 \<le> location_points c j" "location_points c j \<le> 10" using b by auto
  have "(if cd_years c = None then 30 else 50) \<le> ms_overall (score_job now c j)" if "is_eligible c j"
  proof -
    have "role_points c j = 30" using that by (simp add: is_eligible_def role_points_def)
    moreover have "cd_years c \<noteq> None \<Longrightarrow> experience_points c j = 20"
      using that by (auto simp: is_eligible_def experience_compatible_def experience_points_def split: option.splits)
    ultimately show ?thesis using b range by auto
  qed
  moreover have "ms_overall (score_job now c j) \<le> ms_overall (score_job now (c\<lparr>cd_skills := xs\<rparr>) j)"
    using skills_points_mono[of c "c\<lparr>cd_skills := xs\<rparr>" j] assms
    by simp
  ultimately show ?thesis using b range by simp
qed

definition sample_candidate :: candidate where
  "sample_candidate = \<lparr>cd_role = ''Backend Engineer'', cd_years = Some 5, cd_skills = [''python''],
     cd_location = None, cd_remote_preferred = None\<rparr>"

definition sample_read :: job_read where
  "sample_read = \<lparr>jr_id = 1, jr_source = ''dice'', jr_external_id = ''d1'', jr_title = ''Backend Engineer'',
     jr_role_family = ''backend'', jr_company = None, jr_location = None, jr_url = None, jr_description = None,
     jr_salary_text = None, jr_employment_type = None, jr_remote = None, jr_skills = [''Python'', ''SQL''],
     jr_posted_at = Some 0, jr_source_updated_at = None, jr_first_seen_at = 0, jr_scraped_at = 0,
     jr_experience_min = Some 3, jr_experience_max = None, jr_experience_text = None, jr_last_seen_at = 0,
     jr_is_active = True, jr_salary_min = None, jr_salary_max = None, jr_salary_currency = None,
     jr_salary_period = None, jr_remote_type = None\<rparr>"

theorem score_bounds_and_monotone_witness:
  "ms_overall (score_job 0 sample_candidate sample_read) \<le>
   ms_overall (score_job 0 (sample_candidate\<lparr>cd_skills := [''Python'', ''sql'']\<rparr>) sample_read)"
proof -
  have "lower ` set (cd_skills sample_candidate) \<subseteq> lower ` set [''Python'', ''sql'']"
    by (simp add: sample_candidate_def lower_def) code_simp
  from score_bounds_and_monotone[OF this, of 0 sample_read] show ?thesis by blast
qed

text \<open>Ranking permutes the scored jobs into descending score with ties by identity, and
  the result does not depend on the order in which the jobs arrive.\<close>

theorem ranking_deterministic:
  assumes "distinct (map (jr_id \<circ> fst) ms)" "mset ms = mset ms'"
  shows "mset (rank_matches ms) = mset ms \<and>
    sorted_wrt (\<lambda>a b. ms_overall (snd b) < ms_overall (snd a) \<or>
      ms_overall (snd b) = ms_overall (snd a) \<and> jr_id (fst a) < jr_id (fst b)) (rank_matches ms) \<and>
    rank_matches ms' = rank_matches ms"
proof -
  have "inj_on match_key (set (rank_matches ms))" using match_key_inj[OF assms(1)] by simp
  moreover have "distinct (rank_matches ms)"
    using assms(1) by (metis distinct_map mset_eq_imp_distinct_iff rank_matches_mset)
  ultimately have "distinct (map match_key (rank_matches ms))" by (simp add: distinct_map)
  then have "sorted_wrt (<) (map match_key (rank_matches ms))"
    using rank_matches_sorted by (simp add: strict_sorted_iff)
  then have "sorted_wrt (\<lambda>a b. match_key a < match_key b) (rank_matches ms)" by (simp add: sorted_wrt_map)
  then have "sorted_wrt (\<lambda>a b. ms_overall (snd b) < ms_overall (snd a) \<or>
      ms_overall (snd b) = ms_overall (snd a) \<and> jr_id (fst a) < jr_id (fst b)) (rank_matches ms)"
    by (rule sorted_wrt_mono_rel[rotated]) (auto simp: match_key_def)
  moreover have "rank_matches ms' = rank_matches ms"
    by (rule sorted_key_unique[where f = match_key])
      (use assms match_key_inj[OF assms(1)] rank_matches_sorted in \<open>simp_all flip: set_mset_mset\<close>)
  ultimately show ?thesis by simp
qed

theorem ranking_deterministic_witness:
  "rank_matches [(sample_read, score_job 0 sample_candidate sample_read),
      (sample_read\<lparr>jr_id := 2\<rparr>, score_job 0 sample_candidate sample_read)] =
   rank_matches [(sample_read\<lparr>jr_id := 2\<rparr>, score_job 0 sample_candidate sample_read),
      (sample_read, score_job 0 sample_candidate sample_read)]"
  using ranking_deterministic[of "[(sample_read\<lparr>jr_id := 2\<rparr>, score_job 0 sample_candidate sample_read),
      (sample_read, score_job 0 sample_candidate sample_read)]"
      "[(sample_read, score_job 0 sample_candidate sample_read),
      (sample_read\<lparr>jr_id := 2\<rparr>, score_job 0 sample_candidate sample_read)]"]
  by (simp add: sample_read_def add_mset_commute)

end
