(* ===== verification/ResumeModel.thy ===== *)
theory ResumeModel
  imports JobModel Paging "HOL-Library.Product_Lexorder" "HOL-Library.Monad_Syntax"
begin

text \<open>
  Resume persistence (\<open>src/app/domain/resumes.py\<close>, \<open>src/app/resumes/repository.py\<close>) and the
  parser's output contract (\<open>src/app/schemas/resumes.py\<close>): the three tables with their check
  and uniqueness constraints, the owner-scoped reads, and the normalised lists of a parsed
  resume.
\<close>

datatype resume_status = UPLOADED | PARSING | PARSED | PARSE_FAILED | DELETED

record resume =
  re_id :: nat
  re_owner :: nat
  re_filename :: string
  re_bucket :: string
  re_key :: string
  re_content_type :: string
  re_size :: nat
  re_sha256 :: string
  re_status :: resume_status
  re_parser_version :: "string option"
  re_parse_error :: "string option"
  re_version :: nat
  re_deleted_at :: "int option"
  re_created_at :: int

record candidate_profile =
  cp_resume_id :: nat
  cp_owner :: nat
  cp_full_name :: "string option"
  cp_email :: "string option"
  cp_phone :: "string option"
  cp_location :: "string option"
  cp_current_title :: "string option"
  cp_summary :: "string option"
  cp_years :: "rat option"
  cp_extracted_text :: "string option"
  cp_skills :: "string list"
  cp_employment :: "json list"
  cp_education :: "json list"
  cp_certifications :: "string list"
  cp_languages :: "string list"
  cp_raw_output :: "(string, json) dict"
  cp_updated_at :: int

record cleanup =
  cl_id :: nat
  cl_owner :: nat
  cl_bucket :: string
  cl_key :: string
  cl_available_at :: int
  cl_attempts :: nat
  cl_error :: "string option"

record resume_db =
  resumes :: "resume list"
  profiles :: "candidate_profile list"
  cleanups :: "cleanup list"

section \<open>Constraints\<close>

definition lower_hex :: "char \<Rightarrow> bool" where
  "lower_hex c \<longleftrightarrow> is_digit c \<or> (97 \<le> char_code c \<and> char_code c \<le> 102)"

definition resume_checks :: "resume \<Rightarrow> bool" where
  "resume_checks r \<longleftrightarrow> 0 < re_size r \<and> length (re_sha256 r) = 64 \<and> list_all lower_hex (re_sha256 r) \<and>
     list_ex (\<lambda>c. c \<noteq> CHR '' '') (re_filename r) \<and> re_content_type r = ''application/pdf'' \<and>
     (re_status r = DELETED \<longleftrightarrow> re_deleted_at r \<noteq> None) \<and>
     (re_status r = PARSE_FAILED \<longleftrightarrow> re_parse_error r \<noteq> None) \<and> 0 < re_version r"

definition profile_checks :: "candidate_profile \<Rightarrow> bool" where
  "profile_checks p \<longleftrightarrow> (case cp_years p of None \<Rightarrow> True | Some y \<Rightarrow> 0 \<le> y \<and> y \<le> 80)"

definition profile_linked :: "resume list \<Rightarrow> candidate_profile \<Rightarrow> bool" where
  "profile_linked rs p \<longleftrightarrow> (\<exists>r \<in> set rs. re_id r = cp_resume_id p \<and> re_owner r = cp_owner p)"

definition resume_db_wf :: "resume_db \<Rightarrow> bool" where
  "resume_db_wf d \<longleftrightarrow> distinct (map re_id (resumes d)) \<and> distinct (map re_key (resumes d)) \<and>
     distinct (map cp_resume_id (profiles d)) \<and> distinct (map cl_key (cleanups d)) \<and>
     list_all resume_checks (resumes d) \<and> list_all profile_checks (profiles d) \<and>
     list_all (profile_linked (resumes d)) (profiles d)"

section \<open>\<open>ResumeRepository\<close>\<close>

definition get_owned :: "resume_db \<Rightarrow> nat \<Rightarrow> nat \<Rightarrow> bool \<Rightarrow> resume option" where
  "get_owned d i owner include_deleted =
     find (\<lambda>r. re_id r = i \<and> re_owner r = owner \<and> (include_deleted \<or> re_status r \<noteq> DELETED)) (resumes d)"

definition get_owned_by_sha256 :: "resume_db \<Rightarrow> nat \<Rightarrow> string \<Rightarrow> resume option" where
  "get_owned_by_sha256 d owner digest =
     find (\<lambda>r. re_owner r = owner \<and> re_sha256 r = digest \<and> re_status r \<noteq> DELETED) (resumes d)"

definition owned_rows :: "resume_db \<Rightarrow> nat \<Rightarrow> resume list" where
  "owned_rows d owner =
     sort_key (\<lambda>r. (- re_created_at r, - int (re_id r)))
       (filter (\<lambda>r. re_owner r = owner \<and> re_status r \<noteq> DELETED) (resumes d))"

definition list_owned_page :: "resume_db \<Rightarrow> nat \<Rightarrow> nat \<Rightarrow> nat \<Rightarrow> resume list \<times> nat" where
  "list_owned_page d owner offset limit =
     (take limit (drop offset (owned_rows d owner)), length (owned_rows d owner))"

section \<open>\<open>CandidateProfileRepository\<close> and \<open>ResumeStorageCleanupRepository\<close>\<close>

definition get_owned_by_resume_id :: "resume_db \<Rightarrow> nat \<Rightarrow> nat \<Rightarrow> candidate_profile option" where
  "get_owned_by_resume_id d i owner = find (\<lambda>p. cp_resume_id p = i \<and> cp_owner p = owner) (profiles d)"

definition get_latest_owned :: "resume_db \<Rightarrow> nat \<Rightarrow> candidate_profile option" where
  "get_latest_owned d owner =
     (case sort_key (\<lambda>p. - cp_updated_at p) (filter (\<lambda>p. cp_owner p = owner) (profiles d)) of
        [] \<Rightarrow> None
      | p # _ \<Rightarrow> Some p)"

definition get_by_object_key :: "resume_db \<Rightarrow> string \<Rightarrow> cleanup option" where
  "get_by_object_key d k = find (\<lambda>c. cl_key c = k) (cleanups d)"

definition list_due_for_update :: "resume_db \<Rightarrow> int \<Rightarrow> nat \<Rightarrow> cleanup list" where
  "list_due_for_update d now limit =
     take limit (sort_key (\<lambda>c. (cl_available_at c, cl_id c)) (filter (\<lambda>c. cl_available_at c \<le> now) (cleanups d)))"

lemma get_latest_ownedD: "get_latest_owned d owner = Some p \<Longrightarrow> p \<in> set (profiles d) \<and> cp_owner p = owner"
proof -
  let ?ps = "sort_key (\<lambda>p. - cp_updated_at p) (filter (\<lambda>p. cp_owner p = owner) (profiles d))"
  assume "get_latest_owned d owner = Some p"
  then obtain ps where "?ps = p # ps" by (auto simp: get_latest_owned_def split: list.splits)
  then have "p \<in> set ?ps" by (metis list.set_intros(1))
  then show ?thesis by simp
qed

lemma get_ownedD:
  "get_owned d i owner b = Some r \<Longrightarrow> r \<in> set (resumes d) \<and> re_id r = i \<and> re_owner r = owner \<and> (b \<or> re_status r \<noteq> DELETED)"
  by (auto simp: get_owned_def find_Some_iff)

lemma list_owned_page_page:
  "list_owned_page d owner ((p - 1) * s) s = (page_of p s (owned_rows d owner), length (owned_rows d owner))"
  by (simp add: list_owned_page_def page_of_def)

interpretation resume_pages: paged_read "\<lambda>p s. list_owned_page d owner ((p - 1) * s) s" "owned_rows d owner" for d owner
  by unfold_locales (rule list_owned_page_page)

section \<open>The parser's output\<close>

fun fresh_strings :: "string list \<Rightarrow> string list \<Rightarrow> string list" where
  "fresh_strings seen [] = []"
| "fresh_strings seen (v # vs) =
     (let cleaned = strip v; k = lower cleaned in
      if cleaned = [] \<or> k \<in> set seen then fresh_strings seen vs
      else cleaned # fresh_strings (k # seen) vs)"

definition normalize_string_list :: "string list \<Rightarrow> string list" where
  "normalize_string_list vs = fresh_strings [] vs"

lemma fresh_strings_new: "s \<in> set (fresh_strings seen vs) \<Longrightarrow> lower s \<notin> set seen"
  by (induction seen vs rule: fresh_strings.induct) (auto simp: Let_def split: if_splits)

lemma fresh_strings_distinct: "distinct (map lower (fresh_strings seen vs))"
proof (induction seen vs rule: fresh_strings.induct)
  case (2 seen v vs)
  have "lower (strip v) \<notin> lower ` set (fresh_strings (lower (strip v) # seen) vs)"
    using fresh_strings_new[of _ "lower (strip v) # seen" vs] by fastforce
  then show ?case using 2 by (auto simp: Let_def)
qed simp

lemma fresh_strings_stripped: "s \<in> set (fresh_strings seen vs) \<Longrightarrow> s \<noteq> [] \<and> strip s = s \<and> s \<in> strip ` set vs"
  by (induction seen vs rule: fresh_strings.induct) (auto simp: Let_def split: if_splits)

lemma fresh_strings_fixed:
  "\<lbrakk>distinct (map lower vs); \<forall>s \<in> set vs. s \<noteq> [] \<and> strip s = s \<and> lower s \<notin> set seen\<rbrakk> \<Longrightarrow> fresh_strings seen vs = vs"
proof (induction seen vs rule: fresh_strings.induct)
  case (2 seen v vs)
  then have "\<forall>s \<in> set vs. lower s \<noteq> lower v" by (auto simp: image_iff)
  then show ?case using 2 by (auto simp: Let_def)
qed simp

lemma fresh_strings_covers:
  "\<lbrakk>v \<in> set vs; strip v \<noteq> []; lower (strip v) \<notin> set seen\<rbrakk> \<Longrightarrow> lower (strip v) \<in> lower ` set (fresh_strings seen vs)"
  by (induction seen vs rule: fresh_strings.induct) (auto simp: Let_def)

record employment_entry =
  ee_company :: "string option"
  ee_title :: "string option"
  ee_location :: "string option"
  ee_start :: "string option"
  ee_end :: "string option"
  ee_description :: "string option"

record education_entry =
  ed_institution :: "string option"
  ed_qualification :: "string option"
  ed_field :: "string option"
  ed_start :: "string option"
  ed_end :: "string option"

record parsed_resume =
  pr_full_name :: "string option"
  pr_email :: "string option"
  pr_phone :: "string option"
  pr_location :: "string option"
  pr_current_title :: "string option"
  pr_summary :: "string option"
  pr_years :: "rat option"
  pr_extracted_text :: string
  pr_skills :: "string list"
  pr_employment :: "employment_entry list"
  pr_education :: "education_entry list"
  pr_certifications :: "string list"
  pr_languages :: "string list"
  pr_raw_output :: "(string, json) dict"

text \<open>
  The string constraints strip whitespace, then bound the length. A field value that breaks
  its constraint makes the whole model fail to validate.
\<close>

definition constrained :: "nat \<Rightarrow> string \<Rightarrow> string option" where
  "constrained limit s = (let t = strip s in if t \<noteq> [] \<and> length t \<le> limit then Some t else None)"

definition opt_constrained :: "nat \<Rightarrow> string option \<Rightarrow> string option option" where
  "opt_constrained limit v = (case v of None \<Rightarrow> Some None | Some s \<Rightarrow> map_option Some (constrained limit s))"

definition list_constrained :: "nat \<Rightarrow> string list \<Rightarrow> string list option" where
  "list_constrained limit vs =
     (let ns = normalize_string_list vs in
      if length ns \<le> limit then those (map (constrained 200) ns) else None)"

definition max_extracted_text_characters :: nat where
  "max_extracted_text_characters = 200000"

definition employment_valid :: "employment_entry \<Rightarrow> employment_entry option" where
  "employment_valid e = do {
     c \<leftarrow> opt_constrained 200 (ee_company e);
     t \<leftarrow> opt_constrained 200 (ee_title e);
     l \<leftarrow> opt_constrained 200 (ee_location e);
     a \<leftarrow> opt_constrained 200 (ee_start e);
     b \<leftarrow> opt_constrained 200 (ee_end e);
     d \<leftarrow> opt_constrained 20000 (ee_description e);
     Some \<lparr>ee_company = c, ee_title = t, ee_location = l, ee_start = a, ee_end = b, ee_description = d\<rparr>
   }"

definition education_valid :: "education_entry \<Rightarrow> education_entry option" where
  "education_valid e = do {
     i \<leftarrow> opt_constrained 200 (ed_institution e);
     q \<leftarrow> opt_constrained 200 (ed_qualification e);
     f \<leftarrow> opt_constrained 200 (ed_field e);
     a \<leftarrow> opt_constrained 200 (ed_start e);
     b \<leftarrow> opt_constrained 200 (ed_end e);
     Some \<lparr>ed_institution = i, ed_qualification = q, ed_field = f, ed_start = a, ed_end = b\<rparr>
   }"

definition years_valid :: "rat option \<Rightarrow> bool" where
  "years_valid y = (case y of None \<Rightarrow> True | Some v \<Rightarrow> 0 \<le> v \<and> v \<le> 80)"

definition entries_valid :: "nat \<Rightarrow> ('a \<Rightarrow> 'a option) \<Rightarrow> 'a list \<Rightarrow> 'a list option" where
  "entries_valid limit valid es = (if length es \<le> limit then those (map valid es) else None)"

text \<open>Constructing a \<open>ParsedResume\<close>: the validated value, or \<open>None\<close> for a validation error.\<close>

definition validate_parsed :: "parsed_resume \<Rightarrow> parsed_resume option" where
  "validate_parsed r = do {
     n \<leftarrow> opt_constrained 200 (pr_full_name r);
     e \<leftarrow> opt_constrained 320 (pr_email r);
     p \<leftarrow> opt_constrained 64 (pr_phone r);
     l \<leftarrow> opt_constrained 200 (pr_location r);
     t \<leftarrow> opt_constrained 200 (pr_current_title r);
     s \<leftarrow> opt_constrained 20000 (pr_summary r);
     x \<leftarrow> constrained max_extracted_text_characters (pr_extracted_text r);
     sk \<leftarrow> list_constrained 500 (pr_skills r);
     em \<leftarrow> entries_valid 200 employment_valid (pr_employment r);
     ed \<leftarrow> entries_valid 100 education_valid (pr_education r);
     ce \<leftarrow> list_constrained 200 (pr_certifications r);
     la \<leftarrow> list_constrained 100 (pr_languages r);
     if years_valid (pr_years r) \<and> length (pr_raw_output r) \<le> 100
     then Some \<lparr>pr_full_name = n, pr_email = e, pr_phone = p, pr_location = l, pr_current_title = t,
       pr_summary = s, pr_years = pr_years r, pr_extracted_text = x, pr_skills = sk, pr_employment = em,
       pr_education = ed, pr_certifications = ce, pr_languages = la, pr_raw_output = pr_raw_output r\<rparr>
     else None
   }"

lemma constrainedD: "constrained n s = Some t \<Longrightarrow> t = strip s \<and> t \<noteq> [] \<and> length t \<le> n"
  by (auto simp: constrained_def Let_def split: if_splits)

lemma normalize_string_list_distinct: "distinct (map lower (normalize_string_list vs))"
  by (simp add: normalize_string_list_def fresh_strings_distinct)

lemma normalize_string_list_stripped:
  "s \<in> set (normalize_string_list vs) \<Longrightarrow> s \<noteq> [] \<and> strip s = s \<and> s \<in> strip ` set vs"
  unfolding normalize_string_list_def by (rule fresh_strings_stripped)

lemma normalize_string_list_fixed:
  "\<lbrakk>distinct (map lower vs); \<forall>s \<in> set vs. s \<noteq> [] \<and> strip s = s\<rbrakk> \<Longrightarrow> normalize_string_list vs = vs"
  by (simp add: normalize_string_list_def fresh_strings_fixed)

lemma normalize_string_list_idem:
  "normalize_string_list (normalize_string_list vs) = normalize_string_list vs"
  using normalize_string_list_distinct normalize_string_list_stripped by (intro normalize_string_list_fixed) auto

lemma those_Some_map: "those (map f xs) = Some ys \<Longrightarrow> \<forall>x \<in> set xs. \<exists>y. f x = Some y"
  by (induction xs arbitrary: ys) (auto split: option.splits)

lemma list_constrainedD:
  assumes "list_constrained n vs = Some ws"
  shows "ws = normalize_string_list vs \<and> length ws \<le> n \<and> (\<forall>s \<in> set ws. length s \<le> 200)"
proof -
  let ?ns = "normalize_string_list vs"
  have t: "those (map (constrained 200) ?ns) = Some ws" and l: "length ?ns \<le> n"
    using assms by (auto simp: list_constrained_def Let_def split: if_splits)
  have c: "constrained 200 s = Some s \<and> length s \<le> 200" if s: "s \<in> set ?ns" for s
  proof -
    obtain y where y: "constrained 200 s = Some y" using bspec[OF those_Some_map[OF t] s] by (rule exE)
    have "y = s" "length y \<le> 200" using constrainedD[OF y] normalize_string_list_stripped[OF s] by auto
    then show ?thesis using y by simp
  qed
  then have e: "map (constrained 200) ?ns = map Some ?ns" by (intro map_cong) auto
  have "those (map Some ?ns) = Some ws" using t unfolding e .
  moreover have "those (map Some xs) = Some xs" for xs :: "string list" by (induction xs) auto
  ultimately show ?thesis using l c by auto
qed

lemma validate_parsedD:
  assumes "validate_parsed r = Some v"
  shows "pr_skills v = normalize_string_list (pr_skills r) \<and> length (pr_skills v) \<le> 500 \<and>
    pr_years v = pr_years r \<and> years_valid (pr_years v) \<and> pr_extracted_text v = strip (pr_extracted_text r) \<and>
    pr_extracted_text v \<noteq> [] \<and> length (pr_extracted_text v) \<le> max_extracted_text_characters"
proof -
  obtain x sk where p: "constrained max_extracted_text_characters (pr_extracted_text r) = Some x"
      "list_constrained 500 (pr_skills r) = Some sk" "years_valid (pr_years r)"
      "pr_extracted_text v = x" "pr_skills v = sk" "pr_years v = pr_years r"
    using assms unfolding validate_parsed_def bind_eq_Some_conv
    by (elim exE conjE) (simp only: option.simps parsed_resume.simps split: if_split_asm, force)
  show ?thesis using p(3-6) constrainedD[OF p(1)] list_constrainedD[OF p(2)] by auto
qed

end
