(* ===== verification/JobSearch.thy ===== *)
theory JobSearch
  imports CanonicalRepo Paging
begin

text \<open>
  The paged search of \<open>src/app/repositories/canonical_jobs.py\<close> (defined in
  \<open>CanonicalRepo\<close>) against the page contract, and the source a row is presented under.
\<close>

definition present :: "db \<Rightarrow> canonical_job \<Rightarrow> job_read" where
  "present d j = read_job d j (the (presentation_source d (cj_id j)))"

lemma presentation_some:
  "presentation_source d i = Some r \<Longrightarrow> r \<in> set (sources d) \<and> js_job_id r = i \<and> js_is_active r"
proof -
  let ?xs = "sort_key (\<lambda>r. (- js_last_seen_at r, js_first_seen_at r, js_source r, js_source_job_id r))
             (filter (\<lambda>r. js_job_id r = i \<and> js_is_active r) (sources d))"
  assume "presentation_source d i = Some r"
  then obtain rs where "?xs = r # rs" by (auto simp: presentation_source_def split: list.splits)
  then have "r \<in> set ?xs" by (metis list.set_intros(1))
  then show ?thesis by simp
qed

lemma presentation_exists:
  "\<lbrakk>r \<in> set (sources d); js_job_id r = i; js_is_active r\<rbrakk> \<Longrightarrow> presentation_source d i \<noteq> None"
proof -
  let ?ys = "filter (\<lambda>r. js_job_id r = i \<and> js_is_active r) (sources d)"
  let ?xs = "sort_key (\<lambda>r. (- js_last_seen_at r, js_first_seen_at r, js_source r, js_source_job_id r)) ?ys"
  assume "r \<in> set (sources d)" "js_job_id r = i" "js_is_active r"
  then have "r \<in> set ?xs" by simp
  then have "?xs \<noteq> []" by (metis empty_iff empty_set)
  then show ?thesis by (auto simp: presentation_source_def split: list.splits)
qed

lemma matches_presented: "matches_query d q j \<Longrightarrow> presentation_source d (cj_id j) \<noteq> None"
  using presentation_exists unfolding matches_query_def list_ex_iff by metis

lemma search_rows_match: "j \<in> set (search_rows d q) \<Longrightarrow> matches_query d q j \<and> j \<in> set (jobs d)"
  by (simp add: search_rows_def)

text \<open>A matching row always has an active listing, so the loop never skips a row.\<close>

lemma canonical_search_pages:
  "canonical_search d (q\<lparr>q_page := p, q_page_size := s\<rparr>) =
     (page_of p s (map (present d) (search_rows d q)), length (search_rows d q))"
proof -
  let ?q = "q\<lparr>q_page := p, q_page_size := s\<rparr>"
  have m: "matches_query d ?q = matches_query d q" by (intro ext) (simp add: matches_query_def)
  then have rows: "search_rows d ?q = search_rows d q" by (simp add: search_rows_def)
  let ?rows = "take s (drop ((p - 1) * s) (search_rows d q))"
  have "concat (map (\<lambda>j. case presentation_source d (cj_id j) of None \<Rightarrow> [] | Some r \<Rightarrow> [read_job d j r]) ?rows) =
      map (present d) ?rows"
  proof -
    have "(case presentation_source d (cj_id j) of None \<Rightarrow> [] | Some r \<Rightarrow> [read_job d j r]) = [present d j]"
      if "j \<in> set ?rows" for j
    proof -
      have "j \<in> set (search_rows d q)" using that by (meson in_set_takeD in_set_dropD)
      then have "presentation_source d (cj_id j) \<noteq> None" using matches_presented search_rows_match by blast
      then show ?thesis by (auto simp: present_def)
    qed
    then have "map (\<lambda>j. case presentation_source d (cj_id j) of None \<Rightarrow> [] | Some r \<Rightarrow> [read_job d j r]) ?rows =
        map (\<lambda>j. [present d j]) ?rows" by (intro map_cong refl)
    then show ?thesis by (simp only: concat_map_singleton)
  qed
  then show ?thesis
    by (simp add: canonical_search_def rows m page_of_def take_map drop_map search_rows_def)
qed

interpretation canonical_pages: paged_read
  "\<lambda>p s. canonical_search d (q\<lparr>q_page := p, q_page_size := s\<rparr>)" "map (present d) (search_rows d q)" for d q
  by unfold_locales (simp add: canonical_search_pages)

lemma first_page_rows:
  "q_page q = 1 \<Longrightarrow> fst (canonical_search d q) = map (present d) (take (q_page_size q) (search_rows d q))"
proof -
  assume "q_page q = 1"
  then have "q\<lparr>q_page := 1, q_page_size := q_page_size q\<rparr> = q" by (cases q) simp
  then show ?thesis using canonical_search_pages[where d = d and q = q and p = 1 and s = "q_page_size q"]
    by (simp add: page_of_def take_map)
qed

lemma search_ids_distinct: "ids_wf d \<Longrightarrow> distinct (map cj_id (search_rows d q))"
proof -
  assume "ids_wf d"
  then have "distinct (map cj_id (filter (matches_query d q) (jobs d)))" by (simp add: ids_wf_def distinct_map_filter)
  moreover have "mset (map cj_id (search_rows d q)) = mset (map cj_id (filter (matches_query d q) (jobs d)))"
    by (simp add: search_rows_def)
  ultimately show ?thesis by (metis mset_eq_imp_distinct_iff)
qed

lemma present_sel [simp]: "jr_id (present d j) = cj_id j" "jr_is_active (present d j) = cj_is_active j"
  "jr_role_family (present d j) = cj_role_family j" "jr_experience_min (present d j) = cj_experience_min j"
  by (simp_all add: present_def read_job_def)

lemma first_page_ids_distinct:
  "\<lbrakk>ids_wf d; q_page q = 1\<rbrakk> \<Longrightarrow> distinct (map jr_id (fst (canonical_search d q)))"
  using search_ids_distinct[of d q] by (simp add: first_page_rows comp_def flip: take_map)

text \<open>A search restricted to one provider still presents a row under the listing seen
  last, so it can name another provider than the one asked for.\<close>

lemma source_filter_may_present_another_source:
  assumes "ids_wf d" "matches_query d q j" "j \<in> set (jobs d)" "0 < q_page_size q"
    and "presentation_source d (cj_id j) = Some r" "q_source q = Some wanted" "js_source r \<noteq> wanted"
  shows "\<exists>p. \<exists>row \<in> set (fst (canonical_search d (q\<lparr>q_page := Suc p\<rparr>))). jr_id row = cj_id j \<and> jr_source row \<noteq> wanted"
proof -
  let ?s = "q_page_size q"
  have q: "q\<lparr>q_page := p, q_page_size := ?s\<rparr> = q\<lparr>q_page := p\<rparr>" for p by (cases q) simp
  have "j \<in> set (search_rows d q)" using assms(2,3) by (simp add: search_rows_def)
  then have "present d j \<in> set (concat (map (\<lambda>p. fst (canonical_search d (q\<lparr>q_page := Suc p, q_page_size := ?s\<rparr>)))
      [0..<page_count (length (search_rows d q)) ?s]))"
    using canonical_pages.pages_cover[OF assms(4), of d q] by simp
  then obtain p where "present d j \<in> set (fst (canonical_search d (q\<lparr>q_page := Suc p\<rparr>)))"
    by (auto simp: q)
  moreover have "jr_id (present d j) = cj_id j" "jr_source (present d j) = js_source r"
    using assms(5) by (simp_all add: present_def read_job_def)
  ultimately show ?thesis using assms(7)
    by (intro exI[of _ p] bexI[of _ "present d j"]) simp_all
qed

section \<open>Properties\<close>

text \<open>C22: reading all pages of a search yields every matching opening exactly once, in the
  order newest first, no page but the last is short, and the total is the number of
  openings, never of listings.\<close>

theorem canonical_search_pages_complete:
  assumes "ids_wf d" "0 < s"
  shows "map jr_id (concat (map (\<lambda>p. fst (canonical_search d (q\<lparr>q_page := Suc p, q_page_size := s\<rparr>)))
        [0..<page_count (length (search_rows d q)) s])) = map cj_id (search_rows d q) \<and>
    distinct (map cj_id (search_rows d q)) \<and> sorted (map search_order (search_rows d q)) \<and>
    set (search_rows d q) = {j \<in> set (jobs d). matches_query d q j} \<and>
    (\<forall>p > 0. snd (canonical_search d (q\<lparr>q_page := p, q_page_size := s\<rparr>)) = length (search_rows d q) \<and>
       length (fst (canonical_search d (q\<lparr>q_page := p, q_page_size := s\<rparr>))) =
         min s (length (search_rows d q) - (p - 1) * s))"
proof -
  have "concat (map (\<lambda>p. fst (canonical_search d (q\<lparr>q_page := Suc p, q_page_size := s\<rparr>)))
      [0..<page_count (length (search_rows d q)) s]) = map (present d) (search_rows d q)"
    using canonical_pages.pages_cover[OF assms(2), of d q] by simp
  moreover have "distinct (map cj_id (search_rows d q))" by (rule search_ids_distinct[OF assms(1)])
  moreover have "sorted (map search_order (search_rows d q))" by (simp add: search_rows_def)
  moreover have "jr_id (present d j) = cj_id j" for j by (simp add: present_def read_job_def)
  ultimately show ?thesis
    by (auto simp: search_rows_def canonical_search_pages length_page_of comp_def)
qed

definition any_query :: job_query where
  "any_query = \<lparr>q_text = None, q_role = None, q_location = None, q_remote = None, q_employment = None,
     q_source = None, q_roles = [], q_page = 1, q_page_size = 2\<rparr>"

theorem canonical_search_pages_complete_witness:
  "map jr_id (concat (map (\<lambda>p. fst (canonical_search empty_db (any_query\<lparr>q_page := Suc p, q_page_size := 2\<rparr>)))
     [0..<page_count (length (search_rows empty_db any_query)) 2])) = []"
proof -
  have "map cj_id (search_rows empty_db any_query) = []" by (simp add: search_rows_def empty_db_def)
  moreover have "ids_wf empty_db" using empty_db_wf by (simp add: db_wf_def)
  ultimately show ?thesis
    using conjunct1[OF canonical_search_pages_complete[of empty_db 2 any_query]] by simp
qed

end
