(* ===== verification/Recommend.thy ===== *)
theory Recommend
  imports Matching ResumeModel JobSearch
begin

text \<open>
  Candidate recommendations (\<open>src/app/jobs/service.py\<close>): the owner's latest profile, the
  newest 500 openings of the compatible role families, eligibility, scoring and the page of
  the ranked list. Every job is scored against its own reading of the clock; \<open>clock i\<close> is
  the reading for the i-th eligible job.
\<close>

definition recommendation_candidate :: "candidate_profile \<Rightarrow> candidate" where
  "recommendation_candidate p =
     \<lparr>cd_role = opt_text (cp_current_title p), cd_years = cp_years p,
      cd_skills = map lower (cp_skills p), cd_location = cp_location p, cd_remote_preferred = None\<rparr>"

definition recommendation_query :: "string list \<Rightarrow> job_query" where
  "recommendation_query families =
     \<lparr>q_text = None, q_role = None, q_location = None, q_remote = None, q_employment = None,
      q_source = None, q_roles = families, q_page = 1, q_page_size = 500\<rparr>"

definition recommendation_rows :: "db \<Rightarrow> candidate \<Rightarrow> job_read list" where
  "recommendation_rows d c =
     filter (is_eligible c)
       (fst (canonical_search d (recommendation_query (compatible_roles (normalize_role (cd_role c))))))"

definition legacy_key :: "job_read \<times> (string, rat) dict \<Rightarrow> rat \<times> nat" where
  "legacy_key m = (case dget (snd m) ''match_score'' of Some s \<Rightarrow> - s | None \<Rightarrow> 0, jr_id (fst m))"

definition ranked_recommendations ::
  "(nat \<Rightarrow> int) \<Rightarrow> db \<Rightarrow> candidate \<Rightarrow> (job_read \<times> (string, rat) dict) list" where
  "ranked_recommendations clock d c =
     sort_key legacy_key (map (\<lambda>(i, j). (j, rank_job (clock i) c j)) (enumerate 0 (recommendation_rows d c)))"

definition get_recommendations ::
  "(nat \<Rightarrow> int) \<Rightarrow> db \<Rightarrow> resume_db \<Rightarrow> nat \<Rightarrow> nat \<Rightarrow> nat \<Rightarrow> (job_read \<times> (string, rat) dict) list \<times> nat" where
  "get_recommendations clock d rs owner page page_size =
     (case get_latest_owned rs owner of
        None \<Rightarrow> ([], 0)
      | Some p \<Rightarrow>
          let ranked = ranked_recommendations clock d (recommendation_candidate p) in
          (drop ((page - 1) * page_size) (take (page * page_size) ranked), length ranked))"

lemma page_slice: "0 < p \<Longrightarrow> drop ((p - 1) * s) (take (p * s) xs) = page_of p s xs"
  by (cases p) (simp_all add: page_of_def drop_take)

definition all_recommendations ::
  "(nat \<Rightarrow> int) \<Rightarrow> db \<Rightarrow> resume_db \<Rightarrow> nat \<Rightarrow> (job_read \<times> (string, rat) dict) list" where
  "all_recommendations clock d rs owner =
     (case get_latest_owned rs owner of
        None \<Rightarrow> [] | Some p \<Rightarrow> ranked_recommendations clock d (recommendation_candidate p))"

interpretation recommendation_pages: paged_read "get_recommendations clock d rs owner"
  "all_recommendations clock d rs owner" for clock d rs owner
  by unfold_locales
    (simp add: get_recommendations_def all_recommendations_def page_slice[simplified] Let_def page_of_def[of _ _ "[]"] split: option.split)

lemma map_fst_ranked: "mset (map fst (ranked_recommendations clock d c)) = mset (recommendation_rows d c)"
proof -
  let ?xs = "map (\<lambda>(i, j). (j, rank_job (clock i) c j)) (enumerate 0 (recommendation_rows d c))"
  have "map fst ?xs = recommendation_rows d c"
    by (simp add: comp_def case_prod_beta')
  moreover have "mset (map fst (sort_key legacy_key ?xs)) = mset (map fst ?xs)" by (simp only: mset_map mset_sort)
  ultimately show ?thesis by (simp only: ranked_recommendations_def)
qed

lemma ranked_scores:
  assumes "(j, m) \<in> set (ranked_recommendations clock d c)"
  shows "\<exists>now. m = as_legacy_mapping (score_job now c j)"
  using assms by (auto simp: ranked_recommendations_def rank_job_def in_set_enumerate_eq)

lemma ranked_sorted: "sorted (map legacy_key (ranked_recommendations clock d c))"
  by (simp add: ranked_recommendations_def)

lemma searched_rows: "fst (canonical_search d (recommendation_query fs)) =
    map (present d) (take 500 (search_rows d (recommendation_query fs)))"
  using first_page_rows[of "recommendation_query fs" d] by (simp add: recommendation_query_def)

section \<open>Properties\<close>

text \<open>The recommended openings are exactly the eligible ones among the newest 500 of the
  compatible roles; all pages together list each of them once, by descending score; each is
  active, of a compatible role, and asks for no more years than the candidate has; and the
  total counts them.\<close>

theorem recommendations_complete:
  assumes "ids_wf d" "get_latest_owned rs owner = Some p" "0 < s"
    and "xs = concat (map (\<lambda>k. fst (get_recommendations clock d rs owner (Suc k) s))
      [0..<page_count (snd (get_recommendations clock d rs owner 1 s)) s])"
    and "c = recommendation_candidate p"
    and "newest = take 500 (search_rows d (recommendation_query (compatible_roles (normalize_role (cd_role c)))))"
  shows "distinct (map (jr_id \<circ> fst) xs) \<and> sorted (map legacy_key xs) \<and>
    fst ` set xs = {j \<in> present d ` set newest. is_eligible c j} \<and>
    snd (get_recommendations clock d rs owner 1 s) = length xs \<and>
    (\<forall>(j, m) \<in> set xs. jr_is_active j \<and> roles_compatible (cd_role c) (jr_role_family j) \<and>
       (\<exists>now. m = as_legacy_mapping (score_job now c j)))"
proof -
  let ?all = "all_recommendations clock d rs owner"
  have t: "snd (get_recommendations clock d rs owner 1 s) = length ?all"
    by (rule recommendation_pages.total_is_length) simp
  have xs: "xs = ?all" unfolding assms(4) t using recommendation_pages.pages_cover[OF assms(3)] .
  have all: "?all = ranked_recommendations clock d c" using assms(2,5) by (simp add: all_recommendations_def)
  have "distinct (map jr_id (recommendation_rows d c))"
    using first_page_ids_distinct[OF assms(1)]
    by (simp add: recommendation_rows_def recommendation_query_def distinct_map_filter)
  then have "distinct (map (jr_id \<circ> fst) ?all)"
    unfolding all map_map[symmetric] using map_fst_ranked[of clock d c]
    by (metis mset_eq_imp_distinct_iff mset_map)
  moreover have rows: "fst ` set ?all = set (recommendation_rows d c)"
    unfolding all using mset_eq_setD[OF map_fst_ranked[of clock d c]] by simp
  moreover have "set (recommendation_rows d c) = {j \<in> present d ` set newest. is_eligible c j}"
    by (auto simp: recommendation_rows_def searched_rows assms(6))
  moreover have "jr_is_active j \<and> roles_compatible (cd_role c) (jr_role_family j) \<and>
      (\<exists>now. m = as_legacy_mapping (score_job now c j))" if "(j, m) \<in> set ?all" for j m
  proof -
    have "j \<in> set (recommendation_rows d c)" using rows that by force
    then have "is_eligible c j" by (simp add: recommendation_rows_def)
    then show ?thesis using ranked_scores that unfolding all is_eligible_def by blast
  qed
  ultimately show ?thesis unfolding xs t using ranked_sorted all by auto
qed

definition sample_profile :: candidate_profile where
  "sample_profile = \<lparr>cp_resume_id = 1, cp_owner = 7, cp_full_name = None, cp_email = None, cp_phone = None,
     cp_location = None, cp_current_title = Some ''Backend Engineer'', cp_summary = None, cp_years = Some 2,
     cp_extracted_text = Some ''t'', cp_skills = [''Python''], cp_employment = [], cp_education = [],
     cp_certifications = [], cp_languages = [], cp_raw_output = [], cp_updated_at = 0\<rparr>"

definition sample_db :: db where
  "sample_db =
     \<lparr>companies = [],
      jobs = [\<lparr>cj_id = 3, cj_company_id = None, cj_title = ''Backend Engineer'', cj_normalized_title = ''backend engineer'',
        cj_description = None, cj_location = None, cj_normalized_location = None, cj_employment_type = None,
        cj_remote_type = None, cj_skills = [''Python''], cj_experience_min = Some 1, cj_experience_max = None,
        cj_experience_text = None, cj_role_family = ''backend'', cj_seniority = None, cj_salary_min = None,
        cj_salary_max = None, cj_salary_currency = None, cj_salary_text = None, cj_salary_period = None,
        cj_posted_at = None, cj_source_updated_at = None, cj_first_seen_at = 0, cj_last_seen_at = 0,
        cj_is_active = True, cj_canonical_hash = ''h''\<rparr>],
      sources = [\<lparr>js_id = 4, js_job_id = 3, js_source = ''dice'', js_source_job_id = ''d3'', js_source_url = None,
        js_posted_at = None, js_updated_at = None, js_first_seen_at = 0, js_last_seen_at = 0, js_scraped_at = 0,
        js_content_hash = ''h'', js_is_active = True, js_raw_data = []\<rparr>],
      next_id = 5\<rparr>"

definition sample_resumes :: resume_db where
  "sample_resumes = \<lparr>resumes = [], profiles = [sample_profile], cleanups = []\<rparr>"

theorem recommendations_complete_witness:
  "snd (get_recommendations (\<lambda>_. 0) sample_db sample_resumes 7 1 10) =
     length (concat (map (\<lambda>k. fst (get_recommendations (\<lambda>_. 0) sample_db sample_resumes 7 (Suc k) 10))
       [0..<page_count (snd (get_recommendations (\<lambda>_. 0) sample_db sample_resumes 7 1 10)) 10]))"
proof -
  have "ids_wf sample_db" by (simp add: ids_wf_def sample_db_def)
  moreover have "get_latest_owned sample_resumes 7 = Some sample_profile"
    by (simp add: get_latest_owned_def sample_profile_def sample_resumes_def)
  ultimately show ?thesis
    using recommendations_complete[OF _ _ _ refl refl refl, of sample_db sample_resumes 7 sample_profile 10 "\<lambda>_. 0"]
    by simp
qed

end
