(* ===== verification/SearchRun.thy ===== *)
theory SearchRun
  imports Recommend Errors
begin

text \<open>
  Asynchronous searches (\<open>src/app/domain/search.py\<close>, \<open>src/app/search\<close>): the rows of a
  search and its results, the repository, the worker's execution with its single commit and
  its recovery, and the service a user starts and reads searches through. The database
  argument of every operation is the committed state; a worker's uncommitted rows are the
  list of row images it flushes. \<open>fault p\<close> says that the call made at point \<open>p\<close> raises.
\<close>

record job_search =
  se_id :: nat
  se_user :: nat
  se_status :: search_status
  se_query :: "string option"
  se_location :: "string option"
  se_remote_type :: "remote_type option"
  se_job_type :: "string option"
  se_experience_min :: "int option"
  se_experience_max :: "int option"
  se_limit :: nat
  se_progress :: nat
  se_stage :: string
  se_error :: "string option"
  se_started_at :: "int option"
  se_completed_at :: "int option"

record search_result =
  sr_search_id :: nat
  sr_job_id :: nat
  sr_rank :: nat
  sr_match :: rat
  sr_skills :: rat
  sr_experience :: rat
  sr_location :: rat
  sr_freshness :: rat

record search_db =
  searches :: "job_search list"
  results :: "search_result list"

definition search_db_wf :: "search_db \<Rightarrow> bool" where
  "search_db_wf d \<longleftrightarrow> distinct (map se_id (searches d)) \<and>
     distinct (map (\<lambda>r. (sr_search_id r, sr_job_id r)) (results d)) \<and>
     (\<forall>r \<in> set (results d). sr_search_id r \<in> se_id ` set (searches d)) \<and>
     (\<forall>s \<in> set (searches d). se_progress s \<le> 100)"

section \<open>\<open>SearchRepository\<close>\<close>

definition create_search :: "search_db \<Rightarrow> job_search \<Rightarrow> search_db" where
  "create_search d s = d\<lparr>searches := searches d @ [s]\<rparr>"

definition get_search :: "search_db \<Rightarrow> nat \<Rightarrow> nat \<Rightarrow> job_search option" where
  "get_search d i user = find (\<lambda>s. se_id s = i \<and> se_user s = user) (searches d)"

definition get_search_for_worker :: "search_db \<Rightarrow> nat \<Rightarrow> job_search option" where
  "get_search_for_worker d i = find (\<lambda>s. se_id s = i) (searches d)"

definition clear_results :: "search_db \<Rightarrow> nat \<Rightarrow> search_db" where
  "clear_results d i = d\<lparr>results := filter (\<lambda>r. sr_search_id r \<noteq> i) (results d)\<rparr>"

definition save_results :: "search_db \<Rightarrow> search_result list \<Rightarrow> search_db" where
  "save_results d rs = d\<lparr>results := results d @ rs\<rparr>"

definition result_rows :: "search_db \<Rightarrow> nat \<Rightarrow> search_result list" where
  "result_rows d i = sort_key sr_rank (filter (\<lambda>r. sr_search_id r = i) (results d))"

definition get_results :: "search_db \<Rightarrow> nat \<Rightarrow> nat \<Rightarrow> nat \<Rightarrow> search_result list \<times> nat" where
  "get_results d i page page_size =
     (let n = length (filter (\<lambda>r. sr_search_id r = i) (results d)) in
      if n = 0 then ([], 0)
      else (take page_size (drop ((page - 1) * page_size) (result_rows d i)), n))"

definition put_search :: "search_db \<Rightarrow> job_search \<Rightarrow> search_db" where
  "put_search d s = d\<lparr>searches := map (\<lambda>x. if se_id x = se_id s then s else x) (searches d)\<rparr>"

interpretation search_pages: paged_read "get_results d i" "result_rows d i" for d i
  by unfold_locales (auto simp: get_results_def result_rows_def page_of_def Let_def filter_empty_conv)

section \<open>Execution\<close>

datatype exec_point = AtStart | AtProfile | AtRetrieving | AtSearch | AtFiltering | AtMatching | AtRanking
  | AtSaving | AtClear | AtSave | AtCommit | AtRecover

datatype exec_outcome = Missing | Skipped | NoProfile | Completed | Recovered | Raised

fun first_text :: "string option list \<Rightarrow> string \<Rightarrow> string" where
  "first_text [] z = z"
| "first_text (v # vs) z = (if truthy v then the v else first_text vs z)"

definition search_candidate :: "job_search \<Rightarrow> candidate_profile \<Rightarrow> candidate" where
  "search_candidate s p =
     \<lparr>cd_role = first_text [se_query s, cp_current_title p, se_job_type s] ''Unknown'',
      cd_years = cp_years p, cd_skills = cp_skills p, cd_location = cp_location p,
      cd_remote_preferred = (if se_remote_type s = Some REMOTE then Some True else None)\<rparr>"

definition wanted_remote :: "remote_type option \<Rightarrow> bool option" where
  "wanted_remote t =
     (if t = Some REMOTE then Some True else if t = Some ON_SITE then Some False else None)"

definition execution_query :: "nat \<Rightarrow> job_search \<Rightarrow> job_query" where
  "execution_query candidate_limit s =
     \<lparr>q_text = se_query s, q_role = None, q_location = se_location s,
      q_remote = wanted_remote (se_remote_type s), q_employment = se_job_type s, q_source = None,
      q_roles = [], q_page = 1, q_page_size = candidate_limit\<rparr>"

definition top_matches :: "int \<Rightarrow> nat \<Rightarrow> db \<Rightarrow> job_search \<Rightarrow> candidate_profile \<Rightarrow> (job_read \<times> match_score) list" where
  "top_matches t candidate_limit cdb s p =
     (let c = search_candidate s p;
          eligible = filter (is_eligible c) (fst (canonical_search cdb (execution_query candidate_limit s))) in
      take (se_limit s) (rank_matches (map (\<lambda>j. (j, score_job t c j)) eligible)))"

definition result_of :: "job_search \<Rightarrow> nat \<times> job_read \<times> match_score \<Rightarrow> search_result" where
  "result_of s m = (case m of (rank, j, score) \<Rightarrow>
     \<lparr>sr_search_id = se_id s, sr_job_id = jr_id j, sr_rank = rank, sr_match = ms_overall score,
      sr_skills = ms_skills score, sr_experience = ms_experience score,
      sr_location = ms_location score, sr_freshness = ms_freshness score\<rparr>)"

definition started :: "int \<Rightarrow> job_search \<Rightarrow> job_search" where
  "started t s = s\<lparr>se_status := PROCESSING, se_stage := ''loading_profile'',
     se_started_at := or_else (se_started_at s) (Some t)\<rparr>"

definition at_stage :: "string \<Rightarrow> nat \<Rightarrow> job_search \<Rightarrow> job_search" where
  "at_stage stage progress s = s\<lparr>se_stage := stage, se_progress := progress\<rparr>"

text \<open>The row images flushed after the profile is loaded, each with the point of its flush.\<close>

definition stage_images :: "job_search \<Rightarrow> (exec_point \<times> job_search) list" where
  "stage_images s =
     [(AtRetrieving, at_stage ''retrieving_candidates'' 10 s), (AtFiltering, at_stage ''filtering'' 40 s),
      (AtMatching, at_stage ''matching'' 60 s), (AtRanking, at_stage ''ranking'' 80 s),
      (AtSaving, at_stage ''saving_results'' 90 s)]"

definition no_profile :: "int \<Rightarrow> job_search \<Rightarrow> job_search" where
  "no_profile t s = s\<lparr>se_status := FAILED, se_stage := ''loading_profile_failed'',
     se_error := Some ''No candidate profile found. Please upload a resume first.'', se_completed_at := Some t\<rparr>"

definition completed :: "int \<Rightarrow> job_search \<Rightarrow> job_search" where
  "completed t s = s\<lparr>se_status := COMPLETED, se_stage := ''completed'', se_progress := 100, se_completed_at := Some t\<rparr>"

definition recovered :: "int \<Rightarrow> job_search \<Rightarrow> job_search" where
  "recovered t s = s\<lparr>se_status := FAILED, se_stage := ''failed'',
     se_error := Some ''An unexpected error occurred during search execution.'', se_completed_at := Some t\<rparr>"

text \<open>The body of the \<open>try\<close>: \<open>Inl\<close> when a call raises, otherwise the committed database.\<close>

definition run_search ::
  "(exec_point \<Rightarrow> bool) \<Rightarrow> int \<Rightarrow> int \<Rightarrow> nat \<Rightarrow> db \<Rightarrow> resume_db \<Rightarrow> search_db \<Rightarrow> job_search \<Rightarrow>
     unit + exec_outcome \<times> search_db" where
  "run_search fault t1 t2 candidate_limit cdb rdb d s =
     (if fault AtProfile then Inl ()
      else case get_latest_owned rdb (se_user s) of
        None \<Rightarrow> if fault AtCommit then Inl () else Inr (NoProfile, put_search d (no_profile t2 s))
      | Some p \<Rightarrow>
          if list_ex fault (map fst (stage_images s)) \<or> fault AtSearch then Inl ()
          else
            let rows = map (result_of s) (enumerate 1 (top_matches t1 candidate_limit cdb s p));
                d' = save_results (clear_results d (se_id s)) rows in
            if fault AtClear \<or> rows \<noteq> [] \<and> fault AtSave \<or> fault AtCommit then Inl ()
            else Inr (Completed, put_search d' (completed t2 (at_stage ''saving_results'' 90 s))))"

definition execute ::
  "(exec_point \<Rightarrow> bool) \<Rightarrow> int \<Rightarrow> int \<Rightarrow> nat \<Rightarrow> db \<Rightarrow> resume_db \<Rightarrow> search_db \<Rightarrow> nat \<Rightarrow> exec_outcome \<times> search_db" where
  "execute fault t1 t2 candidate_limit cdb rdb d i =
     (case get_search_for_worker d i of
        None \<Rightarrow> (Missing, d)
      | Some s \<Rightarrow>
          if se_status s = COMPLETED \<or> se_status s = FAILED then (Skipped, d)
          else if fault AtStart then (Raised, d)
          else case run_search fault t1 t2 candidate_limit cdb rdb d (started t1 s) of
                 Inr r \<Rightarrow> r
               | Inl _ \<Rightarrow> if fault AtRecover then (Raised, d) else (Recovered, put_search d (recovered t2 s)))"

section \<open>\<open>SearchService\<close>\<close>

record search_request =
  ar_query :: "string option"
  ar_location :: "string option"
  ar_remote_type :: "remote_type option"
  ar_job_type :: "string option"
  ar_experience_min :: "int option"
  ar_experience_max :: "int option"
  ar_limit :: nat

definition within_length :: "nat \<Rightarrow> string option \<Rightarrow> bool" where
  "within_length n v = (case v of None \<Rightarrow> True | Some s \<Rightarrow> length s \<le> n)"

definition request_valid :: "search_request \<Rightarrow> bool" where
  "request_valid q \<longleftrightarrow> within_length 200 (ar_query q) \<and> within_length 200 (ar_location q) \<and> within_length 100 (ar_job_type q) \<and>
     nonneg_opt (ar_experience_min q) \<and> nonneg_opt (ar_experience_max q) \<and> 1 \<le> ar_limit q \<and> ar_limit q \<le> 500"

definition queued_search :: "nat \<Rightarrow> nat \<Rightarrow> search_request \<Rightarrow> job_search" where
  "queued_search i user q =
     \<lparr>se_id = i, se_user = user, se_status = QUEUED, se_query = ar_query q, se_location = ar_location q,
      se_remote_type = ar_remote_type q, se_job_type = ar_job_type q, se_experience_min = ar_experience_min q,
      se_experience_max = ar_experience_max q, se_limit = ar_limit q, se_progress = 0, se_stage = ''queued'',
      se_error = None, se_started_at = None, se_completed_at = None\<rparr>"

text \<open>\<open>start_search\<close>: the committed search, then the task is enqueued; \<open>enqueued\<close> is whether the
  queue accepted it. The result carries the queue's identifiers.\<close>

definition start_search ::
  "search_db \<Rightarrow> nat list \<Rightarrow> nat \<Rightarrow> nat \<Rightarrow> search_request \<Rightarrow> bool \<Rightarrow> (app_error + job_search) \<times> search_db \<times> nat list" where
  "start_search d queue i user q enqueued =
     (let s = queued_search i user q; d1 = create_search d s in
      if enqueued then (Inr s, d1, queue @ [i])
      else (Inl (infrastructure_error ''SEARCH_QUEUE_UNAVAILABLE'' ''The search could not be queued. Please try again later.''),
            put_search d1 (s\<lparr>se_status := FAILED, se_stage := ''queue_failed'',
              se_error := Some ''Failed to enqueue search task.''\<rparr>), queue))"

definition search_not_found :: app_error where
  "search_not_found = not_found_error ''SEARCH_NOT_FOUND'' ''The requested search does not exist.''"

definition get_search_progress :: "search_db \<Rightarrow> nat \<Rightarrow> nat \<Rightarrow> app_error + job_search" where
  "get_search_progress d user i = (case get_search d i user of None \<Rightarrow> Inl search_not_found | Some s \<Rightarrow> Inr s)"

record result_item =
  ri_job :: job_read
  ri_rank :: nat
  ri_match :: rat
  ri_skills :: rat
  ri_experience :: rat
  ri_location :: rat
  ri_freshness :: rat

definition nonzero :: "rat option \<Rightarrow> rat option" where
  "nonzero v = (case v of Some x \<Rightarrow> if x = 0 then None else Some x | None \<Rightarrow> None)"

definition item_of :: "db \<Rightarrow> search_result \<Rightarrow> result_item list" where
  "item_of cdb r =
     (case (presentation_source cdb (sr_job_id r), get_job cdb (sr_job_id r)) of
        (Some obs, Some j) \<Rightarrow>
          let read = read_job cdb j obs in
          [\<lparr>ri_job = read\<lparr>jr_salary_min := nonzero (jr_salary_min read), jr_salary_max := nonzero (jr_salary_max read)\<rparr>,
            ri_rank = sr_rank r, ri_match = sr_match r, ri_skills = sr_skills r,
            ri_experience = sr_experience r, ri_location = sr_location r, ri_freshness = sr_freshness r\<rparr>]
      | _ \<Rightarrow> [])"

definition get_search_results ::
  "db \<Rightarrow> search_db \<Rightarrow> nat \<Rightarrow> nat \<Rightarrow> nat \<Rightarrow> nat \<Rightarrow> app_error + job_search \<times> result_item list \<times> nat" where
  "get_search_results cdb d user i page page_size =
     (case get_search d i user of
        None \<Rightarrow> Inl search_not_found
      | Some s \<Rightarrow>
          if se_status s \<noteq> COMPLETED then
            Inl (if se_status s = FAILED
                 then conflict_error ''SEARCH_FAILED'' ''The search failed and has no results.''
                 else conflict_error ''SEARCH_NOT_COMPLETED'' ''The search is not yet completed.'')
          else (let (rs, n) = get_results d i page page_size in Inr (s, concat (map (item_of cdb) rs), n)))"

section \<open>Facts\<close>

lemma get_search_for_workerD: "get_search_for_worker d i = Some s \<Longrightarrow> s \<in> set (searches d) \<and> se_id s = i"
  by (auto simp: get_search_for_worker_def find_Some_iff)

lemma get_search_for_worker_None: "get_search_for_worker d i = None \<longleftrightarrow> i \<notin> se_id ` set (searches d)"
  by (auto simp: get_search_for_worker_def find_None_iff)

lemma get_searchD: "get_search d i u = Some s \<Longrightarrow> s \<in> set (searches d) \<and> se_id s = i \<and> se_user s = u"
  by (auto simp: get_search_def find_Some_iff)

lemma replaced_ids: "map se_id (map (\<lambda>x. if se_id x = se_id s then s else x) xs) = map se_id xs"
  by (induction xs) auto

lemma put_search_sel [simp]:
  "results (put_search d s) = results d" "map se_id (searches (put_search d s)) = map se_id (searches d)"
  by (simp_all only: put_search_def replaced_ids search_db.simps search_db.select_convs search_db.update_convs)
    (cases d, simp)+

lemma put_search_ids [simp]: "se_id ` set (searches (put_search d s)) = se_id ` set (searches d)"
  by (metis list.set_map put_search_sel(2))

lemma in_put_search: "x \<in> set (searches (put_search d s)) \<Longrightarrow> x = s \<or> x \<in> set (searches d) \<and> se_id x \<noteq> se_id s"
  by (auto simp: put_search_def split: if_splits)

lemma get_put_search:
  "get_search_for_worker (put_search d s) k =
     (if k = se_id s \<and> get_search_for_worker d k \<noteq> None then Some s else get_search_for_worker d k)"
proof -
  have f: "find (\<lambda>x. se_id x = k) (map (\<lambda>x. if se_id x = se_id s then s else x) xs) =
      (if k = se_id s \<and> find (\<lambda>x. se_id x = k) xs \<noteq> None then Some s else find (\<lambda>x. se_id x = k) xs)" for xs
    by (induction xs) auto
  show ?thesis by (auto simp: get_search_for_worker_def put_search_def f)
qed

lemma put_search_wf: "\<lbrakk>search_db_wf d; se_progress s \<le> 100\<rbrakk> \<Longrightarrow> search_db_wf (put_search d s)"
  unfolding search_db_wf_def using in_put_search[of _ d s] by (simp only: put_search_sel put_search_ids) blast

lemma stage_image_progress: "(pt, x) \<in> set (stage_images s) \<Longrightarrow> se_progress x \<le> 100 \<and> se_id x = se_id s"
  by (auto simp: stage_images_def at_stage_def)

lemma state_change_sel [simp]:
  "se_id (started t s) = se_id s" "se_user (started t s) = se_user s" "se_limit (started t s) = se_limit s"
  "se_progress (started t s) = se_progress s" "se_status (started t s) = PROCESSING"
  "se_id (at_stage g p s) = se_id s" "se_limit (at_stage g p s) = se_limit s"
  "se_id (no_profile t s) = se_id s" "se_progress (no_profile t s) = se_progress s" "se_status (no_profile t s) = FAILED"
  "se_limit (no_profile t s) = se_limit s"
  "se_id (completed t s) = se_id s" "se_progress (completed t s) = 100" "se_status (completed t s) = COMPLETED"
  "se_limit (completed t s) = se_limit s"
  "se_id (recovered t s) = se_id s" "se_progress (recovered t s) = se_progress s" "se_status (recovered t s) = FAILED"
  "se_limit (recovered t s) = se_limit s"
  by (simp_all add: started_def at_stage_def no_profile_def completed_def recovered_def)

lemma started_candidate [simp]: "search_candidate (started t s) p = search_candidate s p"
  "execution_query n (started t s) = execution_query n s"
  by (simp_all add: search_candidate_def execution_query_def started_def)

lemma top_matches_started [simp]: "top_matches t n cdb (started t' s) p = top_matches t n cdb s p"
  by (simp add: top_matches_def)

lemma result_of_started [simp]: "result_of (started t s) = result_of s"
  by (simp add: result_of_def fun_eq_iff)

text \<open>The new rows of a completed search.\<close>

definition new_rows :: "int \<Rightarrow> nat \<Rightarrow> db \<Rightarrow> job_search \<Rightarrow> candidate_profile \<Rightarrow> search_result list" where
  "new_rows t n cdb s p = map (result_of s) (enumerate 1 (top_matches t n cdb s p))"

lemma result_of_sel [simp]:
  "sr_search_id (result_of s m) = se_id s" "sr_rank (result_of s m) = fst m"
  "sr_job_id (result_of s m) = jr_id (fst (snd m))" "sr_match (result_of s m) = ms_overall (snd (snd m))"
  by (simp_all add: result_of_def split: prod.split)

lemma new_rows_maps:
  "map sr_rank (new_rows t n cdb s p) = [1..<Suc (length (top_matches t n cdb s p))]"
  "map sr_job_id (new_rows t n cdb s p) = map (jr_id \<circ> fst) (top_matches t n cdb s p)"
  "map sr_match (new_rows t n cdb s p) = map (ms_overall \<circ> snd) (top_matches t n cdb s p)"
  "\<forall>r \<in> set (new_rows t n cdb s p). sr_search_id r = se_id s"
proof -
  let ?xs = "top_matches t n cdb s p"
  have "map (f \<circ> snd) (enumerate 1 ?xs) = map f ?xs" for f :: "_ \<Rightarrow> 'x"
    by (simp only: map_map[symmetric] map_snd_enumerate)
  note m = this[unfolded comp_def]
  show "map sr_rank (new_rows t n cdb s p) = [1..<Suc (length ?xs)]"
    using map_fst_enumerate[of 1 ?xs] by (simp add: new_rows_def comp_def del: map_fst_enumerate upt.simps)
  show "map sr_job_id (new_rows t n cdb s p) = map (jr_id \<circ> fst) ?xs"
    using m[of "jr_id \<circ> fst"] by (simp add: new_rows_def comp_def)
  show "map sr_match (new_rows t n cdb s p) = map (ms_overall \<circ> snd) ?xs"
    using m[of "ms_overall \<circ> snd"] by (simp add: new_rows_def comp_def)
  show "\<forall>r \<in> set (new_rows t n cdb s p). sr_search_id r = se_id s" by (auto simp: new_rows_def)
qed

lemma eligible_rows_distinct:
  assumes "ids_wf cdb"
  shows "distinct (map jr_id (filter P (fst (canonical_search cdb (execution_query n s)))))"
  using first_page_ids_distinct[OF assms, of "execution_query n s"]
  by (simp add: distinct_map_filter execution_query_def)

lemma top_matches_distinct: "ids_wf cdb \<Longrightarrow> distinct (map (jr_id \<circ> fst) (top_matches t n cdb s p))"
proof -
  assume wf: "ids_wf cdb"
  let ?el = "filter (is_eligible (search_candidate s p)) (fst (canonical_search cdb (execution_query n s)))"
  let ?ms = "map (\<lambda>j. (j, score_job t (search_candidate s p) j)) ?el"
  have "distinct (map (jr_id \<circ> fst) ?ms)" using eligible_rows_distinct[OF wf] by (simp add: comp_def)
  moreover have "mset (map (jr_id \<circ> fst) (rank_matches ?ms)) = mset (map (jr_id \<circ> fst) ?ms)"
    by (simp only: mset_map rank_matches_mset)
  ultimately have "distinct (map (jr_id \<circ> fst) (rank_matches ?ms))" by (metis mset_eq_imp_distinct_iff)
  then show ?thesis by (simp add: top_matches_def Let_def flip: take_map)
qed

lemma replaced_results_wf:
  assumes "search_db_wf d" "i \<in> se_id ` set (searches d)" "\<forall>r \<in> set rs. sr_search_id r = i" "distinct (map sr_job_id rs)"
  shows "search_db_wf (save_results (clear_results d i) rs)"
proof -
  let ?k = "\<lambda>r. (sr_search_id r, sr_job_id r)"
  have "distinct (map ?k rs)" using assms(4) by (metis (mono_tags, lifting) distinct_map inj_onI inj_onD prod.inject)
  moreover have "distinct (map ?k (filter (\<lambda>r. sr_search_id r \<noteq> i) (results d)))"
    using assms(1) by (simp add: search_db_wf_def distinct_map_filter)
  moreover have "?k ` set (filter (\<lambda>r. sr_search_id r \<noteq> i) (results d)) \<inter> ?k ` set rs = {}" using assms(3) by auto
  ultimately show ?thesis using assms by (auto simp: search_db_wf_def save_results_def clear_results_def)
qed

text \<open>The four ways the body ends.\<close>

lemma run_search_cases:
  assumes "run_search fault t1 t2 n cdb rdb d s = Inr (out, d')"
  shows "out = NoProfile \<and> d' = put_search d (no_profile t2 s) \<or>
    (\<exists>p. get_latest_owned rdb (se_user s) = Some p \<and> out = Completed \<and>
       d' = put_search (save_results (clear_results d (se_id s)) (new_rows t1 n cdb s p)) (completed t2 (at_stage ''saving_results'' 90 s)))"
  using assms by (auto simp: run_search_def new_rows_def Let_def split: if_splits option.splits)

lemma execute_cases:
  assumes "execute fault t1 t2 n cdb rdb d i = (out, d')" "get_search_for_worker d i = Some s"
    and "se_status s \<noteq> COMPLETED" "se_status s \<noteq> FAILED"
  shows "out = Raised \<and> d' = d \<or> out = Recovered \<and> d' = put_search d (recovered t2 s) \<or>
    out = NoProfile \<and> d' = put_search d (no_profile t2 (started t1 s)) \<or>
    (\<exists>p. get_latest_owned rdb (se_user s) = Some p \<and> out = Completed \<and>
       d' = put_search (save_results (clear_results d i) (new_rows t1 n cdb s p))
         (completed t2 (at_stage ''saving_results'' 90 (started t1 s))))"
proof (cases "run_search fault t1 t2 n cdb rdb d (started t1 s)")
  case (Inl u)
  then show ?thesis using assms by (auto simp: execute_def split: if_splits)
next
  case (Inr r)
  obtain o' e where r: "r = (o', e)" by fastforce
  have "new_rows t1 n cdb (started t1 s) p = new_rows t1 n cdb s p" for p by (simp add: new_rows_def)
  then show ?thesis
    using run_search_cases[OF Inr[unfolded r]] assms Inr r get_search_for_workerD[OF assms(2)]
    by (auto simp: execute_def split: if_splits)
qed

lemma save_clear_sel [simp]:
  "searches (save_results (clear_results d i) rs) = searches d"
  "results (save_results (clear_results d i) rs) = filter (\<lambda>r. sr_search_id r \<noteq> i) (results d) @ rs"
  "get_search_for_worker (save_results (clear_results d i) rs) k = get_search_for_worker d k"
  by (simp_all add: save_results_def clear_results_def get_search_for_worker_def)

lemma result_rows_put [simp]: "result_rows (put_search d s) k = result_rows d k"
  by (simp add: result_rows_def)

lemma result_rows_other: "k \<noteq> i \<Longrightarrow> \<forall>r \<in> set rs. sr_search_id r = i \<Longrightarrow>
    result_rows (save_results (clear_results d i) rs) k = result_rows d k"
proof -
  assume k: "k \<noteq> i" and rs: "\<forall>r \<in> set rs. sr_search_id r = i"
  have "filter (\<lambda>r. sr_search_id r = k) rs = []" using k rs by (auto simp: filter_empty_conv)
  moreover have "filter (\<lambda>r. sr_search_id r = k) (filter (\<lambda>r. sr_search_id r \<noteq> i) (results d)) =
      filter (\<lambda>r. sr_search_id r = k) (results d)" using k by (auto intro: filter_cong)
  ultimately show ?thesis by (simp add: result_rows_def)
qed

lemma result_rows_new:
  assumes "\<forall>r \<in> set rs. sr_search_id r = i" "sorted (map sr_rank rs)"
  shows "result_rows (save_results (clear_results d i) rs) i = rs"
proof -
  have "filter (\<lambda>r. sr_search_id r = i) (filter (\<lambda>r. sr_search_id r \<noteq> i) (results d)) = []"
    by (simp add: filter_empty_conv)
  moreover have "filter (\<lambda>r. sr_search_id r = i) rs = rs" using assms(1) by simp
  ultimately show ?thesis using assms(2) by (simp add: result_rows_def sort_key_id_if_sorted)
qed

lemma new_rows_result_rows: "result_rows (save_results (clear_results d (se_id s)) (new_rows t n cdb s p)) (se_id s) =
    new_rows t n cdb s p"
  by (rule result_rows_new) (simp_all add: new_rows_maps(1,4) del: upt.simps)

text \<open>What any execution leaves behind, on every path.\<close>

lemma execute_effect:
  assumes "search_db_wf d" "ids_wf cdb" "execute fault t1 t2 n cdb rdb d i = (out, d')"
  shows "search_db_wf d'" "se_id ` set (searches d') = se_id ` set (searches d)"
    "\<forall>k. k \<noteq> i \<longrightarrow> get_search_for_worker d' k = get_search_for_worker d k \<and> result_rows d' k = result_rows d k"
proof -
  have "search_db_wf d' \<and> se_id ` set (searches d') = se_id ` set (searches d) \<and>
    (\<forall>k. k \<noteq> i \<longrightarrow> get_search_for_worker d' k = get_search_for_worker d k \<and> result_rows d' k = result_rows d k)"
  proof (cases "get_search_for_worker d i")
    case None
    then show ?thesis using assms by (simp add: execute_def)
  next
    case (Some s)
    note s = get_search_for_workerD[OF Some]
    have p: "se_progress s \<le> 100" using assms(1) s by (simp add: search_db_wf_def)
    show ?thesis
    proof (cases "se_status s = COMPLETED \<or> se_status s = FAILED")
      case True
      then show ?thesis using assms Some by (simp add: execute_def)
    next
      case False
      consider "d' = d" | s' where "d' = put_search d s'" "se_id s' = i" "se_progress s' \<le> 100"
        | q s' where "d' = put_search (save_results (clear_results d i) (new_rows t1 n cdb s q)) s'"
            "se_id s' = i" "se_progress s' = 100"
        using execute_cases[OF assms(3) Some] False s p by fastforce
      then show ?thesis
      proof cases
        case 3
        have "search_db_wf (save_results (clear_results d i) (new_rows t1 n cdb s q))"
          by (rule replaced_results_wf[OF assms(1)])
            (use s top_matches_distinct[OF assms(2)] in \<open>auto simp: new_rows_maps(2,4)\<close>)
        then show ?thesis using 3 s
          by (auto simp: put_search_wf get_put_search result_rows_other new_rows_maps(4))
      qed (use assms(1) in \<open>auto simp: put_search_wf get_put_search\<close>)
    qed
  qed
  then show "search_db_wf d'" "se_id ` set (searches d') = se_id ` set (searches d)"
    "\<forall>k. k \<noteq> i \<longrightarrow> get_search_for_worker d' k = get_search_for_worker d k \<and> result_rows d' k = result_rows d k"
    by blast+
qed

lemma execute_target:
  assumes "execute fault t1 t2 n cdb rdb d i = (out, d')" "get_search_for_worker d i = Some s"
    and "se_status s \<noteq> COMPLETED" "se_status s \<noteq> FAILED" "out \<noteq> Raised"
  shows "\<exists>s'. get_search_for_worker d' i = Some s' \<and> se_limit s' = se_limit s \<and>
    (out = Completed \<and> se_status s' = COMPLETED \<and> se_progress s' = 100 \<or>
     out \<noteq> Completed \<and> se_status s' = FAILED \<and> se_progress s' = se_progress s \<and> results d' = results d)"
  using execute_cases[OF assms(1-4)] assms(2,5) get_search_for_workerD[OF assms(2)]
  by (auto simp: get_put_search)

text \<open>Why an execution does not complete: a fault makes the body fail, and a fault of the recovery on
  top of it makes the execution raise.\<close>

lemma run_search_faulty:
  "run_search fault t1 t2 n cdb rdb d s = Inl u \<Longrightarrow> \<exists>p. p \<noteq> AtStart \<and> p \<noteq> AtRecover \<and> fault p"
  by (auto simp: run_search_def stage_images_def Let_def split: option.splits if_splits)

lemma run_search_clean:
  assumes "\<forall>p. p \<noteq> AtRecover \<longrightarrow> \<not> fault p"
  shows "\<exists>d'. run_search fault t1 t2 n cdb rdb d s =
    Inr (case get_latest_owned rdb (se_user s) of None \<Rightarrow> NoProfile | Some _ \<Rightarrow> Completed, d')"
  using assms by (auto simp: run_search_def stage_images_def Let_def split: option.splits)

lemma execute_faulty:
  assumes "execute fault t1 t2 n cdb rdb d i = (out, d')" "get_search_for_worker d i = Some s"
    and "se_status s \<noteq> COMPLETED" "se_status s \<noteq> FAILED"
  shows "out = Raised \<longrightarrow> fault AtStart \<or> fault AtRecover \<and> (\<exists>p. p \<noteq> AtStart \<and> p \<noteq> AtRecover \<and> fault p)"
    and "out = Recovered \<longrightarrow> (\<exists>p. p \<noteq> AtStart \<and> p \<noteq> AtRecover \<and> fault p)"
    and "(\<forall>p. p \<noteq> AtRecover \<longrightarrow> \<not> fault p) \<longrightarrow>
      out = (case get_latest_owned rdb (se_user s) of None \<Rightarrow> NoProfile | Some _ \<Rightarrow> Completed)"
proof -
  show "out = Raised \<longrightarrow> fault AtStart \<or> fault AtRecover \<and> (\<exists>p. p \<noteq> AtStart \<and> p \<noteq> AtRecover \<and> fault p)"
    "out = Recovered \<longrightarrow> (\<exists>p. p \<noteq> AtStart \<and> p \<noteq> AtRecover \<and> fault p)"
    using assms run_search_faulty[of fault t1 t2 n cdb rdb d "started t1 s"]
      run_search_cases[of fault t1 t2 n cdb rdb d "started t1 s"]
    by (cases "run_search fault t1 t2 n cdb rdb d (started t1 s)"; auto simp: execute_def split: if_splits)+
  have "se_user (started t1 s) = se_user s" by (simp add: started_def)
  then show "(\<forall>p. p \<noteq> AtRecover \<longrightarrow> \<not> fault p) \<longrightarrow>
      out = (case get_latest_owned rdb (se_user s) of None \<Rightarrow> NoProfile | Some _ \<Rightarrow> Completed)"
    using assms run_search_clean[of fault t1 t2 n cdb rdb d "started t1 s"] by (auto simp: execute_def)
qed

section \<open>Reachable states\<close>

definition empty_search_db :: search_db where
  "empty_search_db = \<lparr>searches = [], results = []\<rparr>"

inductive search_step :: "search_db \<Rightarrow> search_db \<Rightarrow> bool" where
  start: "\<lbrakk>i \<notin> se_id ` set (searches d); request_valid q; start_search d queue i user q enqueued = (r, d', queue')\<rbrakk> \<Longrightarrow>
    search_step d d'"
| run: "\<lbrakk>ids_wf cdb; execute fault t1 t2 n cdb rdb d i = (out, d')\<rbrakk> \<Longrightarrow> search_step d d'"

inductive search_reachable :: "search_db \<Rightarrow> bool" where
  init: "search_reachable empty_search_db"
| step: "\<lbrakk>search_reachable d; search_step d d'\<rbrakk> \<Longrightarrow> search_reachable d'"

inductive_cases search_stepE: "search_step d d'"

definition search_row_ok :: "search_db \<Rightarrow> job_search \<Rightarrow> bool" where
  "search_row_ok d s \<longleftrightarrow> se_status s \<noteq> PROCESSING \<and>
     se_progress s = (if se_status s = COMPLETED then 100 else 0) \<and>
     map sr_rank (result_rows d (se_id s)) = [1..<Suc (length (result_rows d (se_id s)))] \<and>
     length (result_rows d (se_id s)) \<le> se_limit s \<and>
     (se_status s \<noteq> COMPLETED \<longrightarrow> result_rows d (se_id s) = [])"

definition search_inv :: "search_db \<Rightarrow> bool" where
  "search_inv d \<longleftrightarrow> search_db_wf d \<and> (\<forall>i s. get_search_for_worker d i = Some s \<longrightarrow> search_row_ok d s)"

lemma get_search_for_worker_mem:
  "\<lbrakk>search_db_wf d; s \<in> set (searches d)\<rbrakk> \<Longrightarrow> get_search_for_worker d (se_id s) = Some s"
proof -
  assume wf: "search_db_wf d" and s: "s \<in> set (searches d)"
  then obtain x where x: "get_search_for_worker d (se_id s) = Some x"
    using get_search_for_worker_None[of d "se_id s"] by (cases "get_search_for_worker d (se_id s)") auto
  have "inj_on se_id (set (searches d))" using wf by (simp add: search_db_wf_def distinct_map)
  then show ?thesis using get_search_for_workerD[OF x] s x by (metis inj_onD)
qed

lemma find_append_Some: "find P xs = Some x \<Longrightarrow> find P (xs @ ys) = Some x"
  by (induction xs) (auto split: if_splits)

lemma start_inv:
  assumes "search_inv d" "i \<notin> se_id ` set (searches d)" "start_search d queue i user q enqueued = (r, d', queue')"
  shows "search_inv d'"
proof -
  let ?s = "queued_search i user q"
  have wf: "search_db_wf d" using assms(1) by (simp add: search_inv_def)
  obtain s' where d': "d' = d\<lparr>searches := searches d @ [s']\<rparr>" "se_id s' = i" "se_progress s' = 0" "se_status s' \<in> {QUEUED, FAILED}"
  proof (cases enqueued)
    case True
    then show ?thesis using assms(3) that[of ?s] by (simp add: start_search_def create_search_def queued_search_def Let_def)
  next
    case False
    have "map (\<lambda>x. if se_id x = i then y else x) (searches d) = searches d" for y
      using assms(2) by (intro map_idI) auto
    then show ?thesis using False assms(3)
        that[of "?s\<lparr>se_status := FAILED, se_stage := ''queue_failed'', se_error := Some ''Failed to enqueue search task.''\<rparr>"]
      by (simp add: start_search_def create_search_def queued_search_def put_search_def Let_def)
  qed
  have "filter (\<lambda>r. sr_search_id r = i) (results d) = []"
    unfolding filter_empty_conv using wf assms(2) by (auto simp: search_db_wf_def)
  then have none: "result_rows d i = []" by (simp add: result_rows_def)
  have rows: "result_rows d' k = result_rows d k" for k by (simp add: d' result_rows_def)
  have "search_db_wf d'" using wf assms(2) d' by (auto simp: search_db_wf_def)
  moreover have "search_row_ok d' s" if g: "get_search_for_worker d' k = Some s" for k s
  proof (cases "get_search_for_worker d k")
    case (Some x)
    then have "s = x" using g by (simp add: d' get_search_for_worker_def find_append_Some)
    then show ?thesis using assms(1) Some rows by (simp add: search_inv_def search_row_ok_def)
  next
    case None
    have "s = s' \<or> s \<in> set (searches d)" using get_search_for_workerD[OF g] d' by auto
    then have "s = s'" using None get_search_for_workerD[OF g] get_search_for_worker_None[of d k] by auto
    then show ?thesis using d' rows none by (auto simp: search_row_ok_def)
  qed
  ultimately show ?thesis by (simp add: search_inv_def)
qed

lemma execute_inv:
  assumes "search_inv d" "ids_wf cdb" "execute fault t1 t2 n cdb rdb d i = (out, d')"
  shows "search_inv d'"
proof -
  have wf: "search_db_wf d" using assms(1) by (simp add: search_inv_def)
  note eff = execute_effect[OF wf assms(2,3)]
  have ok: "search_row_ok d' s'" if g: "get_search_for_worker d' k = Some s'" for k s'
  proof (cases "k = i")
    case False
    then have "get_search_for_worker d k = Some s'" "result_rows d' (se_id s') = result_rows d (se_id s')"
      using eff(3) g get_search_for_workerD[OF g] by auto
    then show ?thesis using assms(1) by (auto simp: search_inv_def search_row_ok_def)
  next
    case True
    obtain s where s: "get_search_for_worker d i = Some s"
      using g True eff(2) get_search_for_workerD[OF g] get_search_for_worker_None[of d i]
      by (cases "get_search_for_worker d i") auto
    have ids: "se_id s = i" "search_row_ok d s" using get_search_for_workerD[OF s] assms(1) s by (auto simp: search_inv_def)
    show ?thesis
    proof (cases "se_status s = COMPLETED \<or> se_status s = FAILED")
      case fin: True
      then have "d' = d" using assms(3) s by (simp add: execute_def)
      then show ?thesis using g True s ids by simp
    next
      case False
      then have st: "se_status s \<noteq> COMPLETED" "se_status s \<noteq> FAILED" by simp_all
      consider "d' = d" | x where "d' = put_search d x" "se_id x = i" "se_status x = FAILED" "se_progress x = se_progress s"
        | q x where "d' = put_search (save_results (clear_results d i) (new_rows t1 n cdb s q)) x"
            "se_id x = i" "se_status x = COMPLETED" "se_progress x = 100" "se_limit x = se_limit s"
        using execute_cases[OF assms(3) s st] ids(1) by fastforce
      then show ?thesis
      proof cases
        case 1
        then show ?thesis using g True s ids by simp
      next
        case 2
        then have "s' = x" using g True s by (simp add: get_put_search)
        then show ?thesis using 2 ids st by (auto simp: search_row_ok_def)
      next
        case 3
        then have x: "s' = x" using g True s by (simp add: get_put_search)
        have "result_rows d' i = new_rows t1 n cdb s q" using 3 new_rows_result_rows[of d s] ids(1) by simp
        moreover have "length (new_rows t1 n cdb s q) \<le> se_limit s"
          by (simp add: new_rows_def top_matches_def Let_def)
        ultimately show ?thesis using 3 x new_rows_maps(1)[of t1 n cdb s q]
          by (simp add: search_row_ok_def new_rows_def del: upt.simps)
      qed
    qed
  qed
  show ?thesis unfolding search_inv_def using eff(1) ok by blast
qed

lemma search_reachable_inv: "search_reachable d \<Longrightarrow> search_inv d"
proof (induction rule: search_reachable.induct)
  case init
  then show ?case by (simp add: search_inv_def search_db_wf_def empty_search_db_def get_search_for_worker_def)
next
  case (step d d')
  from step.hyps(2) show ?case
    by (cases rule: search_step.cases) (use step.IH start_inv execute_inv in blast)+
qed

section \<open>Properties\<close>

text \<open>C6: the observable life of a search. Whatever the users start and the workers run, in
  any order and with any failing calls, a committed search is queued, completed or failed
  and never seen in progress; its progress is 100 exactly when it is completed and 0
  otherwise; the results of a completed search are ranked 1, 2, ... without a gap and at
  most as many as requested, and no other search has results.\<close>

theorem search_states_reachable:
  assumes "search_reachable d" "s \<in> set (searches d)"
  shows "se_status s \<in> {QUEUED, COMPLETED, FAILED} \<and> se_progress s = (if se_status s = COMPLETED then 100 else 0) \<and>
    map sr_rank (result_rows d (se_id s)) = [1..<Suc (length (result_rows d (se_id s)))] \<and>
    length (result_rows d (se_id s)) \<le> se_limit s \<and> (se_status s \<noteq> COMPLETED \<longrightarrow> result_rows d (se_id s) = [])"
proof -
  have inv: "search_inv d" by (rule search_reachable_inv[OF assms(1)])
  then have "get_search_for_worker d (se_id s) = Some s"
    using get_search_for_worker_mem assms(2) by (simp add: search_inv_def)
  then have "search_row_ok d s" using inv by (simp add: search_inv_def)
  then show ?thesis by (cases "se_status s") (simp_all add: search_row_ok_def del: upt.simps)
qed

text \<open>C15: an execution leaves every other search and its results alone. A missing or finished
  search is not touched. Otherwise the execution raises, and changes nothing, only when the
  start cannot be written or when a later call and the recovery after it both fail; in every
  other case the search is finished afterwards, completed, or failed with the old results kept,
  and delivering the task again changes nothing. Without a fault it completes, or fails for want
  of a profile.\<close>

theorem execute_finishes_once:
  assumes "search_db_wf d" "ids_wf cdb" "execute fault t1 t2 n cdb rdb d i = (out, d')"
  shows "search_db_wf d' \<and>
    (\<forall>k. k \<noteq> i \<longrightarrow> get_search_for_worker d' k = get_search_for_worker d k \<and> result_rows d' k = result_rows d k) \<and>
    (case get_search_for_worker d i of
       None \<Rightarrow> out = Missing \<and> d' = d
     | Some s \<Rightarrow>
         if se_status s = COMPLETED \<or> se_status s = FAILED then out = Skipped \<and> d' = d
         else if out = Raised
         then d' = d \<and> (fault AtStart \<or> fault AtRecover \<and> (\<exists>p. p \<noteq> AtStart \<and> p \<noteq> AtRecover \<and> fault p))
         else (out = Recovered \<longrightarrow> (\<exists>p. p \<noteq> AtStart \<and> p \<noteq> AtRecover \<and> fault p)) \<and>
           ((\<forall>p. p \<noteq> AtRecover \<longrightarrow> \<not> fault p) \<longrightarrow>
             out = (case get_latest_owned rdb (se_user s) of None \<Rightarrow> NoProfile | Some _ \<Rightarrow> Completed)) \<and>
           (\<exists>s'. get_search_for_worker d' i = Some s' \<and> se_status s' = (if out = Completed then COMPLETED else FAILED) \<and>
              (out \<noteq> Completed \<longrightarrow> results d' = results d) \<and>
              (\<forall>fault' t1' t2' cdb' rdb'. execute fault' t1' t2' n cdb' rdb' d' i = (Skipped, d'))))"
proof (cases "get_search_for_worker d i")
  case None
  then show ?thesis using assms execute_effect[OF assms] by (auto simp: execute_def)
next
  case (Some s)
  note eff = execute_effect[OF assms]
  show ?thesis
  proof (cases "se_status s = COMPLETED \<or> se_status s = FAILED")
    case True
    then show ?thesis using assms(3) Some eff by (auto simp: execute_def)
  next
    case False
    note why = execute_faulty[OF assms(3) Some]
    show ?thesis
    proof (cases "out = Raised")
      case True
      then have "d' = d" using execute_cases[OF assms(3) Some] False by auto
      then show ?thesis using True False Some eff why(1) by simp
    next
      case out: False
      obtain s' where s': "get_search_for_worker d' i = Some s'"
          "se_status s' = (if out = Completed then COMPLETED else FAILED)" "out \<noteq> Completed \<longrightarrow> results d' = results d"
        using execute_target[OF assms(3) Some _ _ out] False by force
      moreover have "execute fault' t1' t2' n cdb' rdb' d' i = (Skipped, d')" for fault' t1' t2' cdb' rdb'
        using s'(1,2) by (simp add: execute_def split: if_splits)
      ultimately show ?thesis using eff False Some out why(2,3) by simp
    qed
  qed
qed

text \<open>The hypotheses hold of a queued search with no profile: it fails.\<close>

definition queued_db :: search_db where
  "queued_db = create_search empty_search_db (queued_search 1 7
     \<lparr>ar_query = Some ''backend engineer'', ar_location = None, ar_remote_type = None, ar_job_type = None,
      ar_experience_min = None, ar_experience_max = None, ar_limit = 2\<rparr>)"

lemma queued_db_reachable: "search_reachable queued_db"
proof -
  let ?q = "\<lparr>ar_query = Some ''backend engineer'', ar_location = None, ar_remote_type = None, ar_job_type = None,
      ar_experience_min = None, ar_experience_max = None, ar_limit = 2\<rparr>"
  have "search_step empty_search_db queued_db"
    by (rule search_step.start[of 1 _ ?q "[]" 7 True])
      (simp_all add: empty_search_db_def request_valid_def within_length_def nonneg_opt_def start_search_def queued_db_def Let_def)
  then show ?thesis using search_reachable.intros by blast
qed

lemma queued_db_run:
  "execute (\<lambda>p. False) 5 6 10 sample_db sample_resumes queued_db 1 =
     (Completed, snd (execute (\<lambda>p. False) 5 6 10 sample_db sample_resumes queued_db 1))"
  by (simp add: execute_def run_search_def queued_db_def get_search_for_worker_def create_search_def
      empty_search_db_def queued_search_def started_def get_latest_owned_def sample_resumes_def sample_profile_def
      stage_images_def Let_def)

theorem search_states_reachable_witness:
  "se_status (hd (searches queued_db)) \<in> {QUEUED, COMPLETED, FAILED}"
  using search_states_reachable[OF queued_db_reachable, of "hd (searches queued_db)"]
  by (simp add: queued_db_def create_search_def empty_search_db_def del: upt.simps)

lemma sample_db_ids: "ids_wf sample_db"
  by (simp add: ids_wf_def sample_db_def)

theorem execute_finishes_once_witness:
  "\<exists>d'. execute (\<lambda>p. False) 5 6 10 sample_db sample_resumes queued_db 1 = (Completed, d') \<and> search_db_wf d'"
proof -
  have "search_db_wf queued_db" using search_reachable_inv[OF queued_db_reachable] by (simp add: search_inv_def)
  from execute_finishes_once[OF this sample_db_ids queued_db_run] show ?thesis using queued_db_run by blast
qed

lemma enumerate_snd: "m \<in> set (enumerate k xs) \<Longrightarrow> snd m \<in> set xs"
  by (metis imageI list.set_map map_snd_enumerate)

text \<open>The best matches are a prefix of a descending list, so nothing outside beats them.\<close>

lemma sorted_take_dominates:
  assumes "sorted_wrt R xs" "x \<in> set (take k xs)" "y \<in> set xs" "y \<notin> set (take k xs)"
  shows "R x y"
proof -
  have "y \<in> set (drop k xs)" using assms(3,4) set_append[of "take k xs" "drop k xs"] by auto
  moreover have "sorted_wrt R (take k xs @ drop k xs)" using assms(1) by simp
  ultimately show ?thesis using assms(2) unfolding sorted_wrt_append by blast
qed

lemma rank_matches_desc: "sorted_wrt (\<lambda>a b. ms_overall (snd b) \<le> ms_overall (snd a)) (rank_matches ms)"
proof -
  have "sorted_wrt (\<lambda>a b. match_key a \<le> match_key b) (rank_matches ms)"
    using rank_matches_sorted[of ms] by (simp add: sorted_map)
  then show ?thesis by (rule sorted_wrt_mono_rel[rotated]) (auto simp: match_key_def less_eq_prod_def)
qed

text \<open>C16: the results of a completed run. They are the best eligible openings by score, in
  descending order and each once, as many as requested and available; every stored score is
  the score of its opening for this candidate, and no eligible opening left out scores
  higher than one that is listed.\<close>

theorem completed_results_best:
  assumes "search_db_wf d" "ids_wf cdb" "execute fault t1 t2 n cdb rdb d i = (Completed, d')"
    and "get_search_for_worker d i = Some s" "get_latest_owned rdb (se_user s) = Some p"
    and "eligible = filter (is_eligible (search_candidate s p)) (fst (canonical_search cdb (execution_query n s)))"
    and "score = (\<lambda>j. ms_overall (score_job t1 (search_candidate s p) j))"
  shows "length (result_rows d' i) = min (se_limit s) (length eligible) \<and>
    distinct (map sr_job_id (result_rows d' i)) \<and> sorted_wrt (\<lambda>a b. sr_match b \<le> sr_match a) (result_rows d' i) \<and>
    (\<forall>r \<in> set (result_rows d' i). \<exists>j \<in> set eligible. sr_job_id r = jr_id j \<and> sr_match r = score j) \<and>
    (\<forall>j \<in> set eligible. jr_id j \<in> sr_job_id ` set (result_rows d' i) \<or>
       (\<forall>r \<in> set (result_rows d' i). score j \<le> sr_match r))"
proof -
  let ?c = "search_candidate s p"
  let ?ms = "map (\<lambda>j. (j, score_job t1 ?c j)) eligible"
  let ?top = "take (se_limit s) (rank_matches ?ms)"
  have st: "se_status s \<noteq> COMPLETED" "se_status s \<noteq> FAILED" using assms(3,4) by (auto simp: execute_def)
  have id: "se_id s = i" using get_search_for_workerD[OF assms(4)] by simp
  have top: "top_matches t1 n cdb s p = ?top" by (simp add: top_matches_def assms(6) Let_def)
  have rows: "result_rows d' i = new_rows t1 n cdb s p"
    using execute_cases[OF assms(3,4) st] assms(5) new_rows_result_rows[of d s] id by auto
  have el: "(j, m) \<in> set (rank_matches ?ms) \<longleftrightarrow> j \<in> set eligible \<and> m = score_job t1 ?c j" for j m by auto
  have mem: "\<exists>j. (j, score_job t1 ?c j) \<in> set ?top \<and> j \<in> set eligible \<and> sr_job_id r = jr_id j \<and> sr_match r = score j"
    if "r \<in> set (result_rows d' i)" for r
  proof -
    have "r \<in> result_of s ` set (enumerate 1 ?top)" using that by (simp only: rows new_rows_def top set_map)
    then obtain x where x: "r = result_of s x" "x \<in> set (enumerate 1 ?top)" by (rule imageE)
    obtain k j m where kjm: "x = (k, j, m)" by (rule prod_cases3)
    have "r = result_of s (k, j, m)" "(j, m) \<in> set ?top" using x enumerate_snd[OF x(2)] by (simp_all add: kjm)
    moreover have "j \<in> set eligible \<and> m = score_job t1 ?c j" using el calculation(2) by (meson in_set_takeD)
    ultimately show ?thesis by (auto simp: assms(7))
  qed
  have len: "length (result_rows d' i) = min (se_limit s) (length eligible)"
    by (simp add: rows new_rows_def top rank_matches_def)
  have dist: "distinct (map sr_job_id (result_rows d' i))"
    using top_matches_distinct[OF assms(2)] by (simp add: rows new_rows_maps(2))
  have "sorted_wrt (\<lambda>a b. ms_overall (snd b) \<le> ms_overall (snd a)) ?top"
    using sorted_wrt_take[OF rank_matches_desc] .
  then have "sorted_wrt (\<lambda>a b. b \<le> a) (map sr_match (result_rows d' i))"
    by (simp add: rows new_rows_maps(3) top sorted_wrt_map)
  then have desc: "sorted_wrt (\<lambda>a b. sr_match b \<le> sr_match a) (result_rows d' i)" by (simp add: sorted_wrt_map)
  have best: "score j \<le> sr_match r"
    if j: "j \<in> set eligible" "jr_id j \<notin> sr_job_id ` set (result_rows d' i)" and r: "r \<in> set (result_rows d' i)" for j r
  proof -
    obtain j' where j': "(j', score_job t1 ?c j') \<in> set ?top" "sr_match r = score j'" using mem[OF r] by blast
    have "jr_id ` fst ` set ?top = sr_job_id ` set (result_rows d' i)"
      unfolding rows using arg_cong[OF new_rows_maps(2)[of t1 n cdb s p], of set] by (simp add: top image_comp)
    then have "(j, score_job t1 ?c j) \<notin> set ?top" using j(2) by force
    then have "ms_overall (snd (j, score_job t1 ?c j)) \<le> ms_overall (snd (j', score_job t1 ?c j'))"
      using sorted_take_dominates[OF rank_matches_desc j'(1)] el j(1) by blast
    then show ?thesis by (simp add: j'(2) assms(7))
  qed
  show ?thesis using len dist desc mem best by blast
qed

theorem completed_results_best_witness:
  "\<exists>d'. execute (\<lambda>p. False) 5 6 10 sample_db sample_resumes queued_db 1 = (Completed, d') \<and>
     length (result_rows d' 1) \<le> 2"
proof -
  let ?s = "hd (searches queued_db)"
  have "search_db_wf queued_db" using search_reachable_inv[OF queued_db_reachable] by (simp add: search_inv_def)
  moreover have "get_search_for_worker queued_db 1 = Some ?s" "get_latest_owned sample_resumes (se_user ?s) = Some sample_profile"
    "se_limit ?s = 2"
    by (simp_all add: queued_db_def create_search_def empty_search_db_def get_search_for_worker_def queued_search_def
        get_latest_owned_def sample_resumes_def sample_profile_def)
  ultimately have "length (result_rows (snd (execute (\<lambda>p. False) 5 6 10 sample_db sample_resumes queued_db 1)) 1) \<le> 2"
    using completed_results_best[OF _ sample_db_ids queued_db_run _ _ refl refl] by simp
  then show ?thesis using queued_db_run by blast
qed

text \<open>Results are read by their owner only. For anyone else a search answers exactly like
  one that does not exist; the owner gets a conflict until it is completed; and then the
  pages hold every result once, in rank order.\<close>

theorem results_owner_scoped:
  assumes "0 < per"
  shows "(get_search d i user = None \<longrightarrow> get_search_results cdb d user i page per = Inl search_not_found \<and>
      get_search_progress d user i = Inl search_not_found) \<and>
    (get_search_results cdb d user i page per = Inr (s, items, n) \<longrightarrow>
      se_user s = user \<and> se_id s = i \<and> se_status s = COMPLETED \<and> n = length (filter (\<lambda>r. sr_search_id r = i) (results d)) \<and>
      items = concat (map (item_of cdb) (fst (get_results d i page per)))) \<and>
    concat (map (\<lambda>k. fst (get_results d i (Suc k) per)) [0..<page_count (length (result_rows d i)) per]) = result_rows d i"
proof -
  have "get_search_results cdb d user i page per = Inr (s, items, n) \<Longrightarrow>
      se_user s = user \<and> se_id s = i \<and> se_status s = COMPLETED \<and> n = length (filter (\<lambda>r. sr_search_id r = i) (results d)) \<and>
      items = concat (map (item_of cdb) (fst (get_results d i page per)))"
    using get_searchD[of d i user]
    by (auto simp: get_search_results_def get_results_def Let_def split: option.splits if_splits prod.splits)
  then show ?thesis using search_pages.pages_cover[OF assms, of d i]
    by (auto simp: get_search_results_def get_search_progress_def)
qed

theorem results_owner_scoped_witness:
  "get_search_results sample_db queued_db 8 1 1 10 = Inl search_not_found"
proof -
  have "get_search queued_db 1 8 = None"
    by (simp add: get_search_def queued_db_def create_search_def empty_search_db_def queued_search_def)
  then show ?thesis using results_owner_scoped[where per = 10 and d = queued_db and i = 1 and user = 8 and cdb = sample_db and page = 1] by simp
qed

end
