(* ===== verification/ResumeFiles.thy ===== *)
theory ResumeFiles
  imports ResumeModel Errors
begin

text \<open>
  Validation of an uploaded resume before anything is stored
  (\<open>src/app/resumes/validation.py\<close>). The file's bytes are a list of characters and its
  SHA-256 a parameter. Filenames are Latin-1, on which NFKC is the identity for the ASCII
  part; the Unicode category \<open>C*\<close> is the control range and the soft hyphen.
  \<open>PurePath.suffix\<close> and \<open>suffixes\<close> are the library's (\<open>rfind\<close> and \<open>lstrip\<close> of dots).
\<close>

record validated_upload =
  vu_filename :: string
  vu_content_type :: string
  vu_size :: nat
  vu_sha256 :: string
  vu_content :: string

definition is_control :: "char \<Rightarrow> bool" where
  "is_control c \<longleftrightarrow> char_code c < 32 \<or> (127 \<le> char_code c \<and> char_code c < 160) \<or> char_code c = 173"

definition pdf_content_type :: string where "pdf_content_type = ''application/pdf''"

definition pdf_header :: string where "pdf_header = ''%PDF-''"

definition dangerous_inner_suffixes :: "string list" where
  "dangerous_inner_suffixes =
     [''.bat'', ''.cmd'', ''.com'', ''.exe'', ''.html'', ''.htm'', ''.js'', ''.msi'', ''.ps1'', ''.scr'', ''.svg'']"

text \<open>\<open>PurePath(name).suffixes\<close> of a name without a slash, and \<open>suffix\<close>: the part from the
  last dot, which is neither the first nor the last character.\<close>

definition path_suffixes :: "string \<Rightarrow> string list" where
  "path_suffixes name =
     (if name = [] \<or> last name = CHR ''.'' then []
      else map (\<lambda>p. CHR ''.'' # p) (tl (split_on (CHR ''.'') (dropWhile (\<lambda>c. c = CHR ''.'') name))))"

definition path_suffix :: "string \<Rightarrow> string" where
  "path_suffix name =
     (let tail = rev (takeWhile (\<lambda>c. c \<noteq> CHR ''.'') (rev name)) in
      if tail \<noteq> [] \<and> Suc (length tail) < length name then CHR ''.'' # tail else [])"

definition invalid_filename :: app_error where
  "invalid_filename = app_error_of ''RESUME_FILENAME_INVALID'' ''The resume filename is invalid.'' 422"

definition base_name :: "string \<Rightarrow> string" where
  "base_name s = strip (last (split_on (CHR ''/'') (map (\<lambda>c. if c = CHR 0x5C then CHR ''/'' else c) s)))"

definition normalize_filename :: "string option \<Rightarrow> app_error + string" where
  "normalize_filename filename =
     (case filename of
        None \<Rightarrow> Inl invalid_filename
      | Some f \<Rightarrow>
          let normalized = strip f; base = base_name normalized in
          if normalized = [] \<or> list_ex is_control normalized then Inl invalid_filename
          else if base = [] \<or> 255 < length base then Inl invalid_filename
          else if lower (path_suffix base) \<noteq> ''.pdf'' then
            Inl (app_error_of ''RESUME_EXTENSION_UNSUPPORTED'' ''The resume filename must use the .pdf extension.'' 415)
          else if list_ex (\<lambda>s. lower s \<in> set dangerous_inner_suffixes) (butlast (path_suffixes base)) then
            Inl (app_error_of ''RESUME_FILENAME_UNSAFE'' ''The resume filename is not permitted.'' 422)
          else Inr base)"

definition normalize_content_type :: "string option \<Rightarrow> string" where
  "normalize_content_type content_type =
     (case content_type of None \<Rightarrow> [] | Some s \<Rightarrow> lower (strip (hd (split_on (CHR '';'') s))))"

definition validate_resume_upload ::
  "(string \<Rightarrow> string) \<Rightarrow> nat \<Rightarrow> string option \<Rightarrow> string option \<Rightarrow> string \<Rightarrow> app_error + validated_upload" where
  "validate_resume_upload sha256 max_size filename content_type content =
     (case normalize_filename filename of
        Inl e \<Rightarrow> Inl e
      | Inr name \<Rightarrow>
          if normalize_content_type content_type \<noteq> pdf_content_type then
            Inl (app_error_of ''RESUME_CONTENT_TYPE_UNSUPPORTED'' ''Only PDF resume files are supported.'' 415)
          else if content = [] then
            Inl (app_error_of ''RESUME_FILE_EMPTY'' ''The uploaded resume is empty.'' 422)
          else if max_size < length content then
            Inl (app_error_of ''RESUME_FILE_TOO_LARGE'' ''The uploaded resume exceeds the allowed size.'' 413)
          else if \<not> prefix pdf_header content then
            Inl (app_error_of ''RESUME_FILE_INVALID'' ''The uploaded file is not a valid PDF resume.'' 422)
          else Inr \<lparr>vu_filename = name, vu_content_type = pdf_content_type, vu_size = length content,
                 vu_sha256 = sha256 content, vu_content = content\<rparr>)"

section \<open>Facts\<close>

lemma base_name_chars:
  assumes "c \<in> set (base_name s)"
  shows "c \<noteq> CHR ''/'' \<and> c \<noteq> CHR 0x5C \<and> c \<in> set s"
proof -
  let ?t = "map (\<lambda>c. if c = CHR 0x5C then CHR ''/'' else c) s"
  have p: "last (split_on (CHR ''/'') ?t) \<in> set (split_on (CHR ''/'') ?t)" by simp
  have "c \<in> set (last (split_on (CHR ''/'') ?t))" using assms set_strip unfolding base_name_def by blast
  then have "c \<noteq> CHR ''/''" "c \<in> set ?t" using split_on_no_sep[OF p] split_on_chars[OF p] by auto
  then show ?thesis by (auto split: if_splits)
qed

lemma normalize_filenameD:
  assumes "normalize_filename f = Inr name"
  shows "\<exists>s. f = Some s \<and> name = base_name (strip s) \<and> name \<noteq> [] \<and> length name \<le> 255 \<and> strip name = name \<and>
    (\<forall>c \<in> set name. c \<noteq> CHR ''/'' \<and> c \<noteq> CHR 0x5C \<and> \<not> is_control c) \<and> lower (path_suffix name) = ''.pdf'' \<and>
    (\<forall>s \<in> set (butlast (path_suffixes name)). lower s \<notin> set dangerous_inner_suffixes)"
proof -
  obtain s where s: "f = Some s" using assms by (auto simp: normalize_filename_def split: option.splits)
  have n: "name = base_name (strip s)" "\<not> list_ex is_control (strip s)" "name \<noteq> []" "length name \<le> 255"
      "lower (path_suffix name) = ''.pdf''"
      "\<not> list_ex (\<lambda>s. lower s \<in> set dangerous_inner_suffixes) (butlast (path_suffixes name))"
    using assms unfolding normalize_filename_def s option.case Let_def by (auto split: if_split_asm)
  have "strip name = name" by (simp add: n(1) base_name_def)
  moreover have "c \<noteq> CHR ''/'' \<and> c \<noteq> CHR 0x5C \<and> \<not> is_control c" if "c \<in> set name" for c
    using base_name_chars[of c "strip s"] that n(1,2) by (auto simp: list_ex_iff)
  ultimately show ?thesis using s n by (auto simp: list_ex_iff)
qed

section \<open>Properties\<close>

text \<open>A validated upload is exactly the received bytes with computed metadata: a non-empty
  PDF within the size limit, its own length and digest, and a display name that is one
  trimmed path component of at most 255 printable characters ending in .pdf and hiding no
  executable suffix; the accepted name only depends on the last component of what the
  client sent.\<close>

theorem validated_upload_safe:
  assumes "validate_resume_upload sha256 max_size filename content_type content = Inr u"
  shows "vu_content u = content \<and> vu_size u = length content \<and> vu_sha256 u = sha256 content \<and>
    0 < vu_size u \<and> vu_size u \<le> max_size \<and> prefix ''%PDF-'' content \<and> vu_content_type u = ''application/pdf'' \<and>
    vu_filename u \<noteq> [] \<and> length (vu_filename u) \<le> 255 \<and> strip (vu_filename u) = vu_filename u \<and>
    (\<forall>c \<in> set (vu_filename u). c \<noteq> CHR ''/'' \<and> c \<noteq> CHR 0x5C \<and> \<not> is_control c) \<and>
    lower (path_suffix (vu_filename u)) = ''.pdf'' \<and>
    (\<forall>s \<in> set (butlast (path_suffixes (vu_filename u))). lower s \<notin> set dangerous_inner_suffixes)"
proof -
  obtain name where n: "normalize_filename filename = Inr name"
    using assms by (auto simp: validate_resume_upload_def split: sum.splits)
  have u: "content \<noteq> []" "length content \<le> max_size" "prefix pdf_header content"
      "u = \<lparr>vu_filename = name, vu_content_type = pdf_content_type, vu_size = length content,
         vu_sha256 = sha256 content, vu_content = content\<rparr>"
    using assms unfolding validate_resume_upload_def n sum.case by (auto split: if_split_asm)
  show ?thesis using normalize_filenameD[OF n] u by (auto simp: pdf_header_def pdf_content_type_def)
qed

theorem validated_upload_safe_witness:
  "\<exists>u. validate_resume_upload (\<lambda>s. ''d'') 10 (Some ''C:/docs/cv.PDF'') (Some ''application/pdf; x=1'') ''%PDF-1'' = Inr u \<and>
     vu_filename u = ''cv.PDF'' \<and> vu_size u = 6"
proof -
  have v: "validate_resume_upload (\<lambda>s. ''d'') 10 (Some ''C:/docs/cv.PDF'') (Some ''application/pdf; x=1'') ''%PDF-1'' =
      Inr \<lparr>vu_filename = ''cv.PDF'', vu_content_type = ''application/pdf'', vu_size = 6, vu_sha256 = ''d'',
        vu_content = ''%PDF-1''\<rparr>" by code_simp
  then show ?thesis using validated_upload_safe[OF v] by simp
qed

end
