(* ===== verification/ResumeStorage.thy ===== *)
theory ResumeStorage
  imports IpNet Url Errors
begin

text \<open>
  The private object store of resumes (\<open>src/app/resumes/storage.py\<close>): the ownership-scoped
  object keys, the Supabase adapter's URL and how it reads the answers of the HTTP client.
  A UUID is a number below \<open>2 ^ 128\<close>, printed in its usual hyphenated form.
\<close>

definition uuid_str :: "nat \<Rightarrow> string" where
  "uuid_str n =
     (let h = map digit_char (fixed_digits 16 32 n) in
      take 8 h @ ''-'' @ take 4 (drop 8 h) @ ''-'' @ take 4 (drop 12 h) @ ''-'' @ take 4 (drop 16 h) @ ''-'' @ drop 20 h)"

definition build_resume_object_key :: "nat \<Rightarrow> nat \<Rightarrow> string" where
  "build_resume_object_key owner resume_id = uuid_str owner @ ''/'' @ uuid_str resume_id @ ''.pdf''"

section \<open>\<open>SupabaseResumeStorage\<close>\<close>

record storage_config =
  sc_url :: string
  sc_secret :: string
  sc_bucket :: string

definition new_storage :: "string \<Rightarrow> string \<Rightarrow> string \<Rightarrow> string + storage_config" where
  "new_storage url secret bucket =
     (if strip url = [] then Inl ''Supabase URL is required''
      else if secret = [] then Inl ''Supabase secret key is required''
      else if strip bucket = [] then Inl ''Resume storage bucket is required''
      else Inr \<lparr>sc_url = rstrip_slash url, sc_secret = secret, sc_bucket = bucket\<rparr>)"

definition quote_all :: "string \<Rightarrow> string" where
  "quote_all s = concat (map (\<lambda>c. if always_safe c then [c]
     else [CHR ''%'', upper_hex (char_code c div 16), upper_hex (char_code c mod 16)]) s)"

definition object_url :: "storage_config \<Rightarrow> string \<Rightarrow> string" where
  "object_url sc key =
     sc_url sc @ ''/storage/v1/object/'' @ quote_all (sc_bucket sc) @ ''/'' @
     join ''/'' (map quote_all (split_on (CHR ''/'') key))"

definition authorization_headers :: "storage_config \<Rightarrow> (string, string) dict" where
  "authorization_headers sc = [(''apikey'', sc_secret sc), (''Authorization'', ''Bearer '' @ sc_secret sc)]"

datatype http_answer = RequestError | Answer nat

definition http_success :: "nat \<Rightarrow> bool" where
  "http_success status \<longleftrightarrow> 200 \<le> status \<and> status < 300"

text \<open>Whether \<open>upload\<close> and \<open>delete\<close> return, or raise \<open>ResumeStorageError\<close>.\<close>

definition upload_returns :: "http_answer \<Rightarrow> bool" where
  "upload_returns a = (case a of RequestError \<Rightarrow> False | Answer status \<Rightarrow> http_success status)"

definition delete_returns :: "http_answer \<Rightarrow> bool" where
  "delete_returns a = (case a of RequestError \<Rightarrow> False | Answer status \<Rightarrow> status = 404 \<or> http_success status)"

definition upload_headers :: "storage_config \<Rightarrow> string \<Rightarrow> (string, string) dict" where
  "upload_headers sc content_type =
     dset ''x-upsert'' ''false'' (dset ''Content-Type'' content_type (authorization_headers sc))"

section \<open>Facts\<close>

lemma hex_chars_safe: "c \<in> set (map digit_char (fixed_digits 16 32 n)) \<Longrightarrow> always_safe c \<and> c \<noteq> CHR ''-'' \<and> c \<noteq> CHR ''/''"
proof -
  assume "c \<in> set (map digit_char (fixed_digits 16 32 n))"
  then obtain d where d: "c = digit_char d" "d < 16" using fixed_digits_less[of 16 _ 32 n] by auto
  have "\<forall>d \<in> set [0..<16]. always_safe (digit_char d) \<and> digit_char d \<noteq> CHR ''-'' \<and> digit_char d \<noteq> CHR ''/''"
    by code_simp
  then show ?thesis using d by simp
qed

lemma uuid_str_chars: "c \<in> set (uuid_str n) \<Longrightarrow> always_safe c \<and> c \<noteq> CHR ''/''"
proof -
  assume c: "c \<in> set (uuid_str n)"
  let ?h = "map digit_char (fixed_digits 16 32 n)"
  have "c \<in> set ?h \<or> c = CHR ''-''"
    using c unfolding uuid_str_def Let_def by (auto dest!: in_set_takeD in_set_dropD)
  moreover have "always_safe (CHR ''-'')" by code_simp
  ultimately show ?thesis using hex_chars_safe[of c n] by auto
qed

lemma uuid_str_hex: "filter (\<lambda>c. c \<noteq> CHR ''-'') (uuid_str n) = map digit_char (fixed_digits 16 32 n)"
proof -
  let ?h = "map digit_char (fixed_digits 16 32 n)"
  have f: "filter (\<lambda>c. c \<noteq> CHR ''-'') (take k (drop l ?h)) = take k (drop l ?h)" for k l
    by (rule filter_True) (use hex_chars_safe in \<open>blast dest: in_set_takeD in_set_dropD\<close>)
  have "take 8 ?h @ take 4 (drop 8 ?h) @ take 4 (drop 12 ?h) @ take 4 (drop 16 ?h) @ drop 20 ?h = ?h"
    using take_add[of 16 4 ?h] take_add[of 12 4 ?h] take_add[of 8 4 ?h] append_take_drop_id[of 20 ?h] by simp
  then show ?thesis using f[of 8 0] f[of 4 8] f[of 4 12] f[of 4 16] f[of 12 20] unfolding uuid_str_def Let_def by simp
qed

lemma uuid_str_inj: "\<lbrakk>m < 2 ^ 128; n < 2 ^ 128; uuid_str m = uuid_str n\<rbrakk> \<Longrightarrow> m = n"
proof -
  assume b: "m < 2 ^ 128" "n < 2 ^ 128" and e: "uuid_str m = uuid_str n"
  have "map digit_char (fixed_digits 16 32 m) = map digit_char (fixed_digits 16 32 n)"
    using e by (metis uuid_str_hex)
  moreover have "map (the \<circ> hex_value \<circ> digit_char) (fixed_digits 16 32 k) = fixed_digits 16 32 k" for k
    by (rule map_idI) (use fixed_digits_less[of 16 _ 32 k] in simp)
  ultimately have "fixed_digits 16 32 m = fixed_digits 16 32 n" by (metis list.map_comp)
  moreover have "undigits 16 (fixed_digits 16 32 k) = k" if "k < 2 ^ 128" for k
    using undigits_fixed_digits[of 16 k 32] that by simp
  ultimately show ?thesis using b by metis
qed

lemma object_key_split: "split_on (CHR ''/'') (build_resume_object_key w r) = [uuid_str w, uuid_str r @ ''.pdf'']"
proof -
  have "CHR ''/'' \<notin> set (uuid_str k)" for k using uuid_str_chars by blast
  then have "split_on (CHR ''/'') (uuid_str w @ CHR ''/'' # (uuid_str r @ ''.pdf'')) = [uuid_str w] @ [uuid_str r @ ''.pdf'']"
    unfolding split_on_append_sep by (intro arg_cong2[where f = append] split_on_sep_free) auto
  then show ?thesis by (simp add: build_resume_object_key_def)
qed

lemma quote_all_safe: "list_all always_safe s \<Longrightarrow> quote_all s = s"
  by (induction s) (simp_all add: quote_all_def)

lemma build_resume_object_key_inj:
  assumes "w < 2 ^ 128" "w' < 2 ^ 128" "r < 2 ^ 128" "r' < 2 ^ 128"
    and "build_resume_object_key w r = build_resume_object_key w' r'"
  shows "w = w' \<and> r = r'"
proof -
  have "[uuid_str w, uuid_str r @ ''.pdf''] = [uuid_str w', uuid_str r' @ ''.pdf'']"
    using assms(5) object_key_split by metis
  then show ?thesis using uuid_str_inj assms(1-4) by simp
qed

section \<open>Properties\<close>

text \<open>An object key is determined by its owner and resume: no two pairs share one, the
  first path component of its request URL is the owner, quoting leaves the generated key
  alone, and the adapter treats an absent object as deleted but never as uploaded.\<close>

theorem object_keys_owner_scoped:
  assumes "owner < 2 ^ 128" "owner' < 2 ^ 128" "i < 2 ^ 128" "i' < 2 ^ 128"
  shows "(build_resume_object_key owner i = build_resume_object_key owner' i' \<longleftrightarrow> owner = owner' \<and> i = i') \<and>
    split_on (CHR ''/'') (build_resume_object_key owner i) = [uuid_str owner, uuid_str i @ ''.pdf''] \<and>
    object_url sc (build_resume_object_key owner i) =
      sc_url sc @ ''/storage/v1/object/'' @ quote_all (sc_bucket sc) @ ''/'' @ build_resume_object_key owner i \<and>
    delete_returns (Answer 404) \<and> \<not> upload_returns (Answer 404) \<and> \<not> upload_returns RequestError \<and> \<not> delete_returns RequestError"
proof -
  have "list_all always_safe (uuid_str k)" for k using uuid_str_chars by (auto simp: list_all_iff)
  moreover have "list_all always_safe ''.pdf''" by code_simp
  ultimately have "quote_all (uuid_str owner) = uuid_str owner" "quote_all (uuid_str i @ ''.pdf'') = uuid_str i @ ''.pdf''"
    by (simp_all add: quote_all_safe)
  then have "join ''/'' (map quote_all (split_on (CHR ''/'') (build_resume_object_key owner i))) = build_resume_object_key owner i"
    unfolding object_key_split by (simp add: build_resume_object_key_def)
  then show ?thesis using build_resume_object_key_inj[OF assms]
    by (auto simp: object_key_split object_url_def delete_returns_def upload_returns_def http_success_def)
qed

theorem object_keys_owner_scoped_witness:
  "build_resume_object_key 1 2 \<noteq> build_resume_object_key 2 1"
  using object_keys_owner_scoped[of 1 2 2 1] by simp

end
