(* ===== verification/ResumeStore.thy ===== *)
theory ResumeStore
  imports ResumeFiles ResumeStorage
begin

text \<open>
  The resume service (\<open>src/app/resumes/service.py\<close>): uploads, replacements, deletions and
  the reconciliation of cleanup intents over two systems, the database and the object
  store. A world is the committed database and the keys of the stored objects. Every call
  that can fail has its outcome as an argument: an upload can be refused or lose its
  answer after storing, a deletion can lose its answer too, a commit can find a stale row or be
  rejected, and the best-effort clearing of an intent can fail. A commit of rows that break
  a constraint is always rejected.
\<close>

datatype store_outcome = Stored | Refused | StoredLate
datatype delete_outcome = Removed | NotRemoved | RemovedLate
datatype commit_outcome = Commits | Stale | Rejects
datatype parse_outcome = ParsedAs parsed_resume | ParseRejected app_error | ParseCrashed
datatype service_error = App app_error | DbFailure

record faults =
  ft_reserve :: bool
  ft_store :: store_outcome
  ft_commit :: commit_outcome
  ft_delete :: delete_outcome
  ft_clear :: bool

record resume_world =
  rw_db :: resume_db
  rw_objects :: "string list"

record resume_settings =
  st_bucket :: string
  st_parser_version :: string

section \<open>The two systems\<close>

definition store_object :: "store_outcome \<Rightarrow> string \<Rightarrow> string list \<Rightarrow> bool \<times> string list" where
  "store_object res k objs =
     (case res of
        Stored \<Rightarrow> if k \<in> set objs then (False, objs) else (True, k # objs)
      | Refused \<Rightarrow> (False, objs)
      | StoredLate \<Rightarrow> (False, List.insert k objs))"

definition delete_object :: "delete_outcome \<Rightarrow> string \<Rightarrow> string list \<Rightarrow> bool \<times> string list" where
  "delete_object res k objs =
     (case res of
        Removed \<Rightarrow> (True, removeAll k objs)
      | NotRemoved \<Rightarrow> (False, objs)
      | RemovedLate \<Rightarrow> (False, removeAll k objs))"

definition try_commit :: "commit_outcome \<Rightarrow> resume_db \<Rightarrow> commit_outcome" where
  "try_commit res d = (if res = Commits \<and> \<not> resume_db_wf d then Rejects else res)"

definition next_cleanup_id :: "resume_db \<Rightarrow> nat" where
  "next_cleanup_id d = Suc (fold max (map cl_id (cleanups d)) 0)"

definition cleanup_record :: "resume_settings \<Rightarrow> resume_db \<Rightarrow> nat \<Rightarrow> string \<Rightarrow> int \<Rightarrow> cleanup" where
  "cleanup_record st d owner k available_at =
     \<lparr>cl_id = next_cleanup_id d, cl_owner = owner, cl_bucket = st_bucket st, cl_key = k,
      cl_available_at = available_at, cl_attempts = 0, cl_error = None\<rparr>"

definition add_cleanup :: "cleanup \<Rightarrow> resume_db \<Rightarrow> resume_db" where
  "add_cleanup c d = d\<lparr>cleanups := cleanups d @ [c]\<rparr>"

definition remove_cleanup :: "string \<Rightarrow> resume_db \<Rightarrow> resume_db" where
  "remove_cleanup k d = d\<lparr>cleanups := filter (\<lambda>c. cl_key c \<noteq> k) (cleanups d)\<rparr>"

definition add_resume :: "resume \<Rightarrow> resume_db \<Rightarrow> resume_db" where
  "add_resume r d = d\<lparr>resumes := resumes d @ [r]\<rparr>"

definition add_profile :: "candidate_profile \<Rightarrow> resume_db \<Rightarrow> resume_db" where
  "add_profile p d = d\<lparr>profiles := profiles d @ [p]\<rparr>"

definition put_resume :: "resume \<Rightarrow> resume_db \<Rightarrow> resume_db" where
  "put_resume r d = d\<lparr>resumes := map (\<lambda>x. if re_id x = re_id r then r else x) (resumes d)\<rparr>"

definition reserve_us :: int where "reserve_us = 900000000"

definition reserve_cleanup ::
  "resume_settings \<Rightarrow> bool \<Rightarrow> int \<Rightarrow> nat \<Rightarrow> string \<Rightarrow> resume_db \<Rightarrow> resume_db option" where
  "reserve_cleanup st fails now owner k d =
     (let d' = add_cleanup (cleanup_record st d owner k (now + reserve_us)) d in
      if fails \<or> \<not> resume_db_wf d' then None else Some d')"

definition clear_cleanup_best_effort :: "bool \<Rightarrow> string \<Rightarrow> resume_db \<Rightarrow> resume_db" where
  "clear_cleanup_best_effort fails k d = (if fails then d else remove_cleanup k d)"

definition compensate_with_journal :: "faults \<Rightarrow> string \<Rightarrow> resume_world \<Rightarrow> resume_world" where
  "compensate_with_journal ft k w =
     (case delete_object (ft_delete ft) k (rw_objects w) of
        (False, objs) \<Rightarrow> w\<lparr>rw_objects := objs\<rparr>
      | (True, objs) \<Rightarrow> w\<lparr>rw_objects := objs, rw_db := clear_cleanup_best_effort (ft_clear ft) k (rw_db w)\<rparr>)"

section \<open>Rows\<close>

definition opt_json :: "string option \<Rightarrow> json" where
  "opt_json v = (case v of None \<Rightarrow> JNull | Some s \<Rightarrow> JStr s)"

definition employment_json :: "employment_entry \<Rightarrow> json" where
  "employment_json e = JObj [(''company'', opt_json (ee_company e)), (''title'', opt_json (ee_title e)),
     (''location'', opt_json (ee_location e)), (''start_date'', opt_json (ee_start e)),
     (''end_date'', opt_json (ee_end e)), (''description'', opt_json (ee_description e))]"

definition education_json :: "education_entry \<Rightarrow> json" where
  "education_json e = JObj [(''institution'', opt_json (ed_institution e)), (''qualification'', opt_json (ed_qualification e)),
     (''field_of_study'', opt_json (ed_field e)), (''start_date'', opt_json (ed_start e)), (''end_date'', opt_json (ed_end e))]"

definition new_resume ::
  "resume_settings \<Rightarrow> resume_status \<Rightarrow> string option \<Rightarrow> nat \<Rightarrow> nat \<Rightarrow> validated_upload \<Rightarrow> int \<Rightarrow> resume" where
  "new_resume st status parse_error owner i u now =
     \<lparr>re_id = i, re_owner = owner, re_filename = vu_filename u, re_bucket = st_bucket st,
      re_key = build_resume_object_key owner i, re_content_type = vu_content_type u, re_size = vu_size u,
      re_sha256 = vu_sha256 u, re_status = status, re_parser_version = Some (st_parser_version st),
      re_parse_error = parse_error, re_version = 1, re_deleted_at = None, re_created_at = now\<rparr>"

definition new_profile :: "nat \<Rightarrow> nat \<Rightarrow> parsed_resume \<Rightarrow> int \<Rightarrow> candidate_profile" where
  "new_profile owner i p now =
     \<lparr>cp_resume_id = i, cp_owner = owner, cp_full_name = pr_full_name p, cp_email = pr_email p,
      cp_phone = pr_phone p, cp_location = pr_location p, cp_current_title = pr_current_title p,
      cp_summary = pr_summary p, cp_years = pr_years p, cp_extracted_text = Some (pr_extracted_text p),
      cp_skills = pr_skills p, cp_employment = map employment_json (pr_employment p),
      cp_education = map education_json (pr_education p), cp_certifications = pr_certifications p,
      cp_languages = pr_languages p, cp_raw_output = pr_raw_output p, cp_updated_at = now\<rparr>"

definition retired :: "int \<Rightarrow> resume \<Rightarrow> resume" where
  "retired now r = r\<lparr>re_status := DELETED, re_deleted_at := Some now, re_version := Suc (re_version r)\<rparr>"

definition storage_unavailable :: "string \<Rightarrow> service_error" where
  "storage_unavailable message = App (infrastructure_error ''RESUME_STORAGE_UNAVAILABLE'' message)"

definition parser_unavailable :: service_error where
  "parser_unavailable = App (infrastructure_error ''RESUME_PARSER_UNAVAILABLE'' ''Resume parsing is temporarily unavailable.'')"

definition concurrent_change :: service_error where
  "concurrent_change = App (conflict_error ''CONFLICT'' ''The resume changed during this request. Retry with the latest state.'')"

definition resume_not_found :: service_error where
  "resume_not_found = App (not_found_error ''NOT_FOUND'' ''The requested resource was not found.'')"

section \<open>Operations\<close>

text \<open>The reservation and the storing of the object, shared by \<open>upload\<close> and \<open>replace\<close>.\<close>

definition reserve_and_store ::
  "resume_settings \<Rightarrow> faults \<Rightarrow> int \<Rightarrow> nat \<Rightarrow> string \<Rightarrow> string \<Rightarrow> resume_world \<Rightarrow> service_error option \<times> resume_world" where
  "reserve_and_store st ft now owner k message w =
     (case reserve_cleanup st (ft_reserve ft) now owner k (rw_db w) of
        None \<Rightarrow> (Some DbFailure, w)
      | Some d \<Rightarrow>
          (case store_object (ft_store ft) k (rw_objects w) of
             (True, objs) \<Rightarrow> (None, \<lparr>rw_db = d, rw_objects = objs\<rparr>)
           | (False, objs) \<Rightarrow>
               (Some (storage_unavailable message),
                \<lparr>rw_db = clear_cleanup_best_effort (ft_clear ft) k d, rw_objects = objs\<rparr>)))"

text \<open>Committing \<open>d\<close>, or rolling back and compensating for the object stored under \<open>k\<close>.\<close>

definition commit_or_compensate ::
  "faults \<Rightarrow> string \<Rightarrow> service_error \<Rightarrow> resume_db \<Rightarrow> resume_world \<Rightarrow> service_error option \<times> resume_world" where
  "commit_or_compensate ft k stale_error d w =
     (case try_commit (ft_commit ft) d of
        Commits \<Rightarrow> (None, w\<lparr>rw_db := d\<rparr>)
      | Stale \<Rightarrow> (Some stale_error, compensate_with_journal ft k w)
      | Rejects \<Rightarrow> (Some DbFailure, compensate_with_journal ft k w))"

definition finish_upload ::
  "resume_settings \<Rightarrow> faults \<Rightarrow> int \<Rightarrow> nat \<Rightarrow> nat \<Rightarrow> validated_upload \<Rightarrow> parse_outcome \<Rightarrow> resume_world \<Rightarrow>
     (service_error + resume) \<times> resume_world" where
  "finish_upload st ft now owner i u res w =
     (let k = build_resume_object_key owner i in
      case res of
        ParseCrashed \<Rightarrow> (Inl parser_unavailable, compensate_with_journal ft k w)
      | ParseRejected e \<Rightarrow>
          let r = new_resume st PARSE_FAILED (Some (ae_code e)) owner i u now in
          (case commit_or_compensate ft k DbFailure (remove_cleanup k (add_resume r (rw_db w))) w of
             (None, w') \<Rightarrow> (Inl (App e), w')
           | (Some err, w') \<Rightarrow> (Inl err, w'))
      | ParsedAs p \<Rightarrow>
          let r = new_resume st PARSED None owner i u now in
          (case commit_or_compensate ft k DbFailure
                  (remove_cleanup k (add_profile (new_profile owner i p now) (add_resume r (rw_db w)))) w of
             (None, w') \<Rightarrow> (Inr r, w')
           | (Some err, w') \<Rightarrow> (Inl err, w')))"

definition upload ::
  "resume_settings \<Rightarrow> faults \<Rightarrow> int \<Rightarrow> nat \<Rightarrow> nat \<Rightarrow> validated_upload \<Rightarrow> parse_outcome \<Rightarrow> resume_world \<Rightarrow>
     (service_error + resume) \<times> resume_world" where
  "upload st ft now owner i u res w =
     (case reserve_and_store st ft now owner (build_resume_object_key owner i) ''The resume could not be stored.'' w of
        (Some e, w') \<Rightarrow> (Inl e, w')
      | (None, w') \<Rightarrow> finish_upload st ft now owner i u res w')"

definition replaced_db ::
  "resume_settings \<Rightarrow> int \<Rightarrow> nat \<Rightarrow> nat \<Rightarrow> resume \<Rightarrow> validated_upload \<Rightarrow> parsed_resume \<Rightarrow> resume_db \<Rightarrow> resume_db" where
  "replaced_db st now owner j current u p d =
     remove_cleanup (build_resume_object_key owner j)
       (add_cleanup (cleanup_record st d owner (re_key current) now)
         (put_resume (retired now current)
           (add_profile (new_profile owner j p now) (add_resume (new_resume st PARSED None owner j u now) d))))"

definition finish_replace ::
  "resume_settings \<Rightarrow> faults \<Rightarrow> int \<Rightarrow> nat \<Rightarrow> nat \<Rightarrow> resume \<Rightarrow> validated_upload \<Rightarrow> parse_outcome \<Rightarrow> resume_world \<Rightarrow>
     (service_error + resume) \<times> resume_world" where
  "finish_replace st ft now owner j current u res w =
     (let k = build_resume_object_key owner j in
      case res of
        ParseRejected e \<Rightarrow> (Inl (App e), compensate_with_journal ft k w)
      | ParseCrashed \<Rightarrow> (Inl parser_unavailable, compensate_with_journal ft k w)
      | ParsedAs p \<Rightarrow>
          (case commit_or_compensate ft k concurrent_change (replaced_db st now owner j current u p (rw_db w)) w of
             (Some e, w') \<Rightarrow> (Inl e, w')
           | (None, w') \<Rightarrow>
               (case delete_object (ft_delete ft) (re_key current) (rw_objects w') of
                  (False, objs) \<Rightarrow>
                    (Inl (storage_unavailable ''The replaced resume storage cleanup could not be completed.''),
                     w'\<lparr>rw_objects := objs\<rparr>)
                | (True, objs) \<Rightarrow>
                    (Inr (new_resume st PARSED None owner j u now),
                     w'\<lparr>rw_objects := objs, rw_db := clear_cleanup_best_effort (ft_clear ft) (re_key current) (rw_db w')\<rparr>))))"

definition replace_resume ::
  "resume_settings \<Rightarrow> faults \<Rightarrow> int \<Rightarrow> nat \<Rightarrow> nat \<Rightarrow> nat \<Rightarrow> validated_upload \<Rightarrow> parse_outcome \<Rightarrow> resume_world \<Rightarrow>
     (service_error + resume) \<times> resume_world" where
  "replace_resume st ft now owner i j u res w =
     (case get_owned (rw_db w) i owner False of
        None \<Rightarrow> (Inl resume_not_found, w)
      | Some current \<Rightarrow>
          (case reserve_and_store st ft now owner (build_resume_object_key owner j)
                  ''The replacement resume could not be stored.'' w of
             (Some e, w') \<Rightarrow> (Inl e, w')
           | (None, w') \<Rightarrow> finish_replace st ft now owner j current u res w'))"

definition remove_object :: "faults \<Rightarrow> resume \<Rightarrow> resume_world \<Rightarrow> (service_error + resume) \<times> resume_world" where
  "remove_object ft r w =
     (case delete_object (ft_delete ft) (re_key r) (rw_objects w) of
        (False, objs) \<Rightarrow>
          (Inl (storage_unavailable ''The resume storage cleanup could not be completed.''), w\<lparr>rw_objects := objs\<rparr>)
      | (True, objs) \<Rightarrow>
          (Inr r, w\<lparr>rw_objects := objs, rw_db := clear_cleanup_best_effort (ft_clear ft) (re_key r) (rw_db w)\<rparr>))"

definition delete_resume ::
  "resume_settings \<Rightarrow> faults \<Rightarrow> int \<Rightarrow> nat \<Rightarrow> nat \<Rightarrow> resume_world \<Rightarrow> (service_error + resume) \<times> resume_world" where
  "delete_resume st ft now owner i w =
     (case get_owned (rw_db w) i owner True of
        None \<Rightarrow> (Inl resume_not_found, w)
      | Some r \<Rightarrow>
          let added = add_cleanup (cleanup_record st (rw_db w) owner (re_key r) now) in
          if re_status r \<noteq> DELETED then
            let d = added (put_resume (retired now r) (rw_db w)) in
            (case try_commit (ft_commit ft) d of
               Commits \<Rightarrow> remove_object ft (retired now r) (w\<lparr>rw_db := d\<rparr>)
             | Stale \<Rightarrow> (Inl concurrent_change, w)
             | Rejects \<Rightarrow> (Inl DbFailure, w))
          else if get_by_object_key (rw_db w) (re_key r) = None then
            (if try_commit (ft_commit ft) (added (rw_db w)) = Commits
             then remove_object ft r (w\<lparr>rw_db := added (rw_db w)\<rparr>)
             else (Inl DbFailure, w))
          else remove_object ft r w)"

text \<open>\<open>reconcile_storage_cleanups\<close>: one deletion outcome per due intent, then one commit.\<close>

definition failed_attempt :: "string \<Rightarrow> cleanup \<Rightarrow> cleanup" where
  "failed_attempt k c =
     (if cl_key c = k then c\<lparr>cl_attempts := Suc (cl_attempts c), cl_error := Some ''RESUME_STORAGE_UNAVAILABLE''\<rparr> else c)"

fun reconcile_each ::
  "(string \<Rightarrow> delete_outcome) \<Rightarrow> cleanup list \<Rightarrow> resume_world \<times> nat \<times> nat \<Rightarrow> resume_world \<times> nat \<times> nat" where
  "reconcile_each res [] acc = acc"
| "reconcile_each res (c # cs) (w, removed, failed) =
     (case delete_object (res (cl_key c)) (cl_key c) (rw_objects w) of
        (False, objs) \<Rightarrow>
          reconcile_each res cs
            (w\<lparr>rw_objects := objs, rw_db := (rw_db w)\<lparr>cleanups := map (failed_attempt (cl_key c)) (cleanups (rw_db w))\<rparr>\<rparr>,
             removed, Suc failed)
      | (True, objs) \<Rightarrow>
          reconcile_each res cs
            (w\<lparr>rw_objects := objs, rw_db := remove_cleanup (cl_key c) (rw_db w)\<rparr>, Suc removed, failed))"

definition reconcile_storage_cleanups ::
  "(string \<Rightarrow> delete_outcome) \<Rightarrow> bool \<Rightarrow> int \<Rightarrow> nat \<Rightarrow> resume_world \<Rightarrow> (nat \<times> nat) option \<times> resume_world" where
  "reconcile_storage_cleanups res commit_fails now limit w =
     (let (w', removed, failed) = reconcile_each res (list_due_for_update (rw_db w) now limit) (w, 0, 0) in
      if commit_fails then (None, w\<lparr>rw_objects := rw_objects w'\<rparr>) else (Some (removed, failed), w'))"

definition get_candidate_profile :: "nat \<Rightarrow> nat \<Rightarrow> resume_world \<Rightarrow> service_error + candidate_profile" where
  "get_candidate_profile i owner w =
     (case get_owned (rw_db w) i owner False of
        None \<Rightarrow> Inl resume_not_found
      | Some _ \<Rightarrow>
          (case get_owned_by_resume_id (rw_db w) i owner of None \<Rightarrow> Inl resume_not_found | Some p \<Rightarrow> Inr p))"

end
