(* ===== verification/ResumeSafety.thy ===== *)
theory ResumeSafety
  imports ResumeStore
begin

text \<open>
  The consistency of the two systems behind the resume service: no stored object is left
  without a resume or a cleanup intent, save those of uploads whose answer was lost, and no
  active resume loses its object.
\<close>

definition intent_keys :: "resume_db \<Rightarrow> string set" where
  "intent_keys d = cl_key ` set (cleanups d)"

definition active_keys :: "resume_db \<Rightarrow> string set" where
  "active_keys d = {re_key r | r. r \<in> set (resumes d) \<and> re_status r \<noteq> DELETED}"

text \<open>The stored objects nothing refers to. An upload can leave one when the store keeps the object but
  the client loses its answer; \<open>L\<close> below is the set of the keys this happened to.\<close>

definition orphans :: "resume_world \<Rightarrow> string set" where
  "orphans w = set (rw_objects w) - active_keys (rw_db w) - intent_keys (rw_db w)"

definition no_dangling :: "resume_world \<Rightarrow> bool" where
  "no_dangling w \<longleftrightarrow> active_keys (rw_db w) \<subseteq> set (rw_objects w) - intent_keys (rw_db w)"

definition world_inv :: "string set \<Rightarrow> resume_world \<Rightarrow> bool" where
  "world_inv L w \<longleftrightarrow> resume_db_wf (rw_db w) \<and> orphans w \<subseteq> L \<and> no_dangling w"

definition lost_answer :: "faults \<Rightarrow> nat \<Rightarrow> nat \<Rightarrow> string set" where
  "lost_answer ft owner i = (if ft_store ft = StoredLate then {build_resume_object_key owner i} else {})"

definition fresh_resume :: "resume_world \<Rightarrow> nat \<Rightarrow> nat \<Rightarrow> bool" where
  "fresh_resume w owner i \<longleftrightarrow> i \<notin> re_id ` set (resumes (rw_db w)) \<and>
     build_resume_object_key owner i \<notin> set (rw_objects w) \<union> intent_keys (rw_db w) \<union> re_key ` set (resumes (rw_db w))"

lemma cleanup_db_sel [simp]:
  "resumes (remove_cleanup k d) = resumes d" "profiles (remove_cleanup k d) = profiles d"
  "resumes (add_cleanup c d) = resumes d" "profiles (add_cleanup c d) = profiles d"
  "intent_keys (remove_cleanup k d) = intent_keys d - {k}" "intent_keys (add_cleanup c d) = insert (cl_key c) (intent_keys d)"
  "active_keys (remove_cleanup k d) = active_keys d" "active_keys (add_cleanup c d) = active_keys d"
  by (auto simp: remove_cleanup_def add_cleanup_def intent_keys_def active_keys_def)

lemma resume_db_sel [simp]:
  "cleanups (add_resume r d) = cleanups d" "cleanups (add_profile p d) = cleanups d" "cleanups (put_resume r d) = cleanups d"
  "intent_keys (add_resume r d) = intent_keys d" "intent_keys (add_profile p d) = intent_keys d"
  "intent_keys (put_resume r d) = intent_keys d" "active_keys (add_profile p d) = active_keys d"
  "active_keys (add_resume r d) = (if re_status r = DELETED then {} else {re_key r}) \<union> active_keys d"
  by (auto simp: add_resume_def add_profile_def put_resume_def intent_keys_def active_keys_def)

lemma cleanup_record_key [simp]: "cl_key (cleanup_record st d owner k t) = k"
  by (simp add: cleanup_record_def)

lemma new_resume_sel [simp]:
  "re_id (new_resume st s e owner i u t) = i" "re_owner (new_resume st s e owner i u t) = owner"
  "re_key (new_resume st s e owner i u t) = build_resume_object_key owner i"
  "re_status (new_resume st s e owner i u t) = s"
  by (simp_all add: new_resume_def)

lemma retired_sel [simp]: "re_id (retired t r) = re_id r" "re_key (retired t r) = re_key r"
  "re_owner (retired t r) = re_owner r" "re_status (retired t r) = DELETED"
  by (simp_all add: retired_def)

lemma remove_cleanup_wf: "resume_db_wf d \<Longrightarrow> resume_db_wf (remove_cleanup k d)"
  by (simp add: resume_db_wf_def remove_cleanup_def distinct_map_filter)

text \<open>Retiring one row takes exactly its key out of the active keys.\<close>

lemma active_keys_retired:
  assumes "resume_db_wf d" "r \<in> set (resumes d)"
  shows "active_keys (put_resume (retired t r) d) = active_keys d - {re_key r}"
proof -
  have ids: "inj_on re_id (set (resumes d))" and keys: "inj_on re_key (set (resumes d))"
    using assms(1) by (simp_all add: resume_db_wf_def distinct_map)
  show ?thesis
  proof (intro subset_antisym subsetI)
    fix k assume "k \<in> active_keys (put_resume (retired t r) d)"
    then obtain x where x: "x \<in> set (resumes d)" "re_id x \<noteq> re_id r" "re_status x \<noteq> DELETED" "k = re_key x"
      by (auto simp: active_keys_def put_resume_def split: if_splits)
    then have "re_key x \<noteq> re_key r" using keys assms(2) by (metis inj_onD)
    then show "k \<in> active_keys d - {re_key r}" using x by (auto simp: active_keys_def)
  next
    fix k assume "k \<in> active_keys d - {re_key r}"
    then obtain x where x: "x \<in> set (resumes d)" "re_status x \<noteq> DELETED" "k = re_key x" "re_key x \<noteq> re_key r"
      by (auto simp: active_keys_def)
    then have "re_id x \<noteq> re_id r" using ids assms(2) by (metis inj_onD)
    then show "k \<in> active_keys (put_resume (retired t r) d)" using x by (force simp: active_keys_def put_resume_def)
  qed
qed

section \<open>The journal\<close>

lemma delete_object_cases:
  "delete_object res k objs = (b, objs') \<Longrightarrow> objs' = removeAll k objs \<or> objs' = objs \<and> \<not> b"
  by (auto simp: delete_object_def split: delete_outcome.splits)

text \<open>An object with an intent may be deleted, and once it is gone its intent may be cleared.\<close>

lemma settle_inv:
  assumes "world_inv L w" "k \<in> intent_keys (rw_db w)" "delete_object res k (rw_objects w) = (b, objs)"
  shows "world_inv L (w\<lparr>rw_objects := objs\<rparr>)"
    "b \<Longrightarrow> world_inv L (w\<lparr>rw_objects := objs, rw_db := remove_cleanup k (rw_db w)\<rparr>)"
proof -
  have k: "k \<notin> active_keys (rw_db w)" using assms(1,2) by (auto simp: world_inv_def no_dangling_def)
  show "world_inv L (w\<lparr>rw_objects := objs\<rparr>)"
    using assms(1,2) k delete_object_cases[OF assms(3)] by (auto simp: world_inv_def orphans_def no_dangling_def)
  show "world_inv L (w\<lparr>rw_objects := objs, rw_db := remove_cleanup k (rw_db w)\<rparr>)" if b
    using assms(1) k delete_object_cases[OF assms(3)] that
    by (auto simp: world_inv_def orphans_def no_dangling_def remove_cleanup_wf)
qed

lemma clear_settled_inv:
  assumes "world_inv L w" "k \<in> intent_keys (rw_db w)" "delete_object res k (rw_objects w) = (True, objs)"
  shows "world_inv L (w\<lparr>rw_objects := objs, rw_db := clear_cleanup_best_effort fails k (rw_db w)\<rparr>)"
  using settle_inv[OF assms] by (cases fails) (simp_all add: clear_cleanup_best_effort_def)

lemma compensate_inv:
  assumes "world_inv L w" "k \<in> intent_keys (rw_db w)"
  shows "world_inv L (compensate_with_journal ft k w)"
  using settle_inv(1)[OF assms] clear_settled_inv[OF assms]
  by (auto simp: compensate_with_journal_def split: prod.split bool.split)

lemma reserve_cleanupD:
  "reserve_cleanup st fails t owner k d = Some d' \<Longrightarrow> resume_db_wf d' \<and> resumes d' = resumes d \<and>
    active_keys d' = active_keys d \<and> intent_keys d' = insert k (intent_keys d)"
  by (auto simp: reserve_cleanup_def Let_def split: if_splits)

lemma reserve_and_store_inv:
  assumes "world_inv L w" "fresh_resume w owner i"
    and "reserve_and_store st ft t owner (build_resume_object_key owner i) message w = (e, w')"
  shows "world_inv (L \<union> lost_answer ft owner i) w' \<and> (e = None \<longrightarrow> build_resume_object_key owner i \<in> intent_keys (rw_db w') \<inter> set (rw_objects w') \<and>
    resumes (rw_db w') = resumes (rw_db w))"
proof -
  let ?k = "build_resume_object_key owner i"
  have k: "?k \<notin> set (rw_objects w)" "?k \<notin> active_keys (rw_db w)"
    using assms(2) by (auto simp: fresh_resume_def active_keys_def)
  show ?thesis
  proof (cases "reserve_cleanup st (ft_reserve ft) t owner ?k (rw_db w)")
    case None
    then show ?thesis using assms(1,3) by (auto simp: reserve_and_store_def world_inv_def)
  next
    case (Some d)
    note d = reserve_cleanupD[OF Some]
    show ?thesis
    proof (cases "ft_store ft")
      case Stored
      then show ?thesis using assms(1,3) d k Some
        by (auto simp: reserve_and_store_def store_object_def world_inv_def orphans_def no_dangling_def)
    next
      case Refused
      then have "w' = \<lparr>rw_db = clear_cleanup_best_effort (ft_clear ft) ?k d, rw_objects = rw_objects w\<rparr>" "e \<noteq> None"
        using assms(3) Some by (auto simp: reserve_and_store_def store_object_def)
      then show ?thesis using assms(1) d k
        by (auto simp: clear_cleanup_best_effort_def world_inv_def orphans_def no_dangling_def remove_cleanup_wf)
    next
      case StoredLate
      then have "w' = \<lparr>rw_db = clear_cleanup_best_effort (ft_clear ft) ?k d, rw_objects = List.insert ?k (rw_objects w)\<rparr>" "e \<noteq> None"
        using assms(3) Some by (auto simp: reserve_and_store_def store_object_def)
      then show ?thesis using assms(1) d k StoredLate
        by (auto simp: clear_cleanup_best_effort_def lost_answer_def world_inv_def orphans_def no_dangling_def remove_cleanup_wf)
    qed
  qed
qed

section \<open>Every operation keeps the two systems consistent\<close>

text \<open>A commit that consumes the intent of an object must leave the object active.\<close>

lemma commit_or_compensate_inv:
  assumes "world_inv L w" "k \<in> intent_keys (rw_db w)" "commit_or_compensate ft k err d w = (e, w')"
    and "resume_db_wf d \<Longrightarrow> world_inv L (w\<lparr>rw_db := d\<rparr>)"
  shows "world_inv L w'" "e = None \<Longrightarrow> w' = w\<lparr>rw_db := d\<rparr>"
  using assms compensate_inv[OF assms(1,2)]
  by (auto simp: commit_or_compensate_def try_commit_def split: commit_outcome.splits if_splits)

lemma new_active_inv:
  assumes "world_inv L w" "k \<in> intent_keys (rw_db w) \<inter> set (rw_objects w)" "resume_db_wf d"
    and "active_keys d = insert k (active_keys (rw_db w))" "intent_keys d = intent_keys (rw_db w) - {k}"
  shows "world_inv L (w\<lparr>rw_db := d\<rparr>)"
  using assms by (auto simp: world_inv_def orphans_def no_dangling_def)

lemma finish_upload_inv:
  assumes "world_inv L w" "build_resume_object_key owner i \<in> intent_keys (rw_db w) \<inter> set (rw_objects w)"
    and "finish_upload st ft t owner i u res w = (r, w')"
  shows "world_inv L w'"
proof (cases res)
  case ParseCrashed
  then show ?thesis using assms compensate_inv by (auto simp: finish_upload_def)
next
  case (ParseRejected e)
  let ?d = "remove_cleanup (build_resume_object_key owner i)
    (add_resume (new_resume st PARSE_FAILED (Some (ae_code e)) owner i u t) (rw_db w))"
  obtain x w2 where c: "commit_or_compensate ft (build_resume_object_key owner i) DbFailure ?d w = (x, w2)" by fastforce
  have "world_inv L w2" using commit_or_compensate_inv(1)[OF assms(1) _ c] new_active_inv[OF assms(1,2)] assms(2) by simp
  then show ?thesis using assms(3) ParseRejected c by (auto simp: finish_upload_def Let_def split: option.splits)
next
  case (ParsedAs p)
  let ?d = "remove_cleanup (build_resume_object_key owner i) (add_profile (new_profile owner i p t)
    (add_resume (new_resume st PARSED None owner i u t) (rw_db w)))"
  obtain x w2 where c: "commit_or_compensate ft (build_resume_object_key owner i) DbFailure ?d w = (x, w2)" by fastforce
  have "world_inv L w2" using commit_or_compensate_inv(1)[OF assms(1) _ c] new_active_inv[OF assms(1,2)] assms(2) by simp
  then show ?thesis using assms(3) ParsedAs c by (auto simp: finish_upload_def Let_def split: option.splits)
qed

lemma upload_inv:
  assumes "world_inv L w" "fresh_resume w owner i" "upload st ft t owner i u res w = (r, w')"
  shows "world_inv (L \<union> lost_answer ft owner i) w'"
proof -
  obtain e w2 where s: "reserve_and_store st ft t owner (build_resume_object_key owner i) ''The resume could not be stored.'' w = (e, w2)"
    by fastforce
  note inv = reserve_and_store_inv[OF assms(1,2) s]
  show ?thesis
  proof (cases e)
    case None
    then have "finish_upload st ft t owner i u res w2 = (r, w')" using assms(3) s by (simp add: upload_def)
    then show ?thesis using finish_upload_inv inv None by blast
  next
    case (Some a)
    then show ?thesis using assms(3) s inv by (simp add: upload_def)
  qed
qed

lemma get_owned_active:
  "get_owned d i owner False = Some r \<Longrightarrow> r \<in> set (resumes d) \<and> re_key r \<in> active_keys d"
  using get_ownedD[of d i owner False r] by (auto simp: active_keys_def)

lemma replaced_inv:
  assumes "world_inv L w" "k = build_resume_object_key owner j" "k \<in> intent_keys (rw_db w) \<inter> set (rw_objects w)"
    and "c \<in> set (resumes (rw_db w))" "re_key c \<in> active_keys (rw_db w)" "j \<notin> re_id ` set (resumes (rw_db w))"
    and "resume_db_wf (replaced_db st t owner j c u p (rw_db w))"
  shows "world_inv L (w\<lparr>rw_db := replaced_db st t owner j c u p (rw_db w)\<rparr>) \<and>
    re_key c \<in> intent_keys (replaced_db st t owner j c u p (rw_db w))"
proof -
  let ?d1 = "add_profile (new_profile owner j p t) (add_resume (new_resume st PARSED None owner j u t) (rw_db w))"
  have wf: "resume_db_wf (rw_db w)" and nd: "active_keys (rw_db w) \<subseteq> set (rw_objects w) - intent_keys (rw_db w)"
    using assms(1) by (simp_all add: world_inv_def no_dangling_def)
  have ck: "re_key c \<noteq> k" using nd assms(3,5) by auto
  have j: "j \<noteq> re_id c" using assms(4,6) by auto
  have "put_resume (retired t c) ?d1 = add_profile (new_profile owner j p t)
      (add_resume (new_resume st PARSED None owner j u t) (put_resume (retired t c) (rw_db w)))"
    using j by (simp add: put_resume_def add_profile_def add_resume_def)
  then have "active_keys (replaced_db st t owner j c u p (rw_db w)) = insert k (active_keys (rw_db w) - {re_key c})"
    using active_keys_retired[OF wf assms(4)] by (simp add: replaced_db_def assms(2))
  moreover have "intent_keys (replaced_db st t owner j c u p (rw_db w)) = insert (re_key c) (intent_keys (rw_db w)) - {k}"
    by (simp add: replaced_db_def assms(2))
  ultimately show ?thesis
    using assms(1,3,5,7) ck nd by (auto simp: world_inv_def orphans_def no_dangling_def)
qed

lemma finish_replace_inv:
  assumes "world_inv L w" "build_resume_object_key owner j \<in> intent_keys (rw_db w) \<inter> set (rw_objects w)"
    and "c \<in> set (resumes (rw_db w))" "re_key c \<in> active_keys (rw_db w)" "j \<notin> re_id ` set (resumes (rw_db w))"
    and "finish_replace st ft t owner j c u res w = (r, w')"
  shows "world_inv L w'"
proof (cases "\<exists>p. res = ParsedAs p")
  case False
  then show ?thesis using assms compensate_inv by (cases res) (auto simp: finish_replace_def)
next
  case True
  then obtain p where res: "res = ParsedAs p" by blast
  let ?k = "build_resume_object_key owner j"
  let ?d = "replaced_db st t owner j c u p (rw_db w)"
  obtain e w2 where cm: "commit_or_compensate ft ?k concurrent_change ?d w = (e, w2)" by fastforce
  note rep = replaced_inv[OF assms(1) refl assms(2-5), of st t u p]
  have ki: "?k \<in> intent_keys (rw_db w)" using assms(2) by simp
  have inv2: "world_inv L w2" by (rule commit_or_compensate_inv(1)[OF assms(1) ki cm]) (use rep in blast)
  show ?thesis
  proof (cases e)
    case (Some a)
    then show ?thesis using inv2 assms(6) cm res by (simp add: finish_replace_def Let_def)
  next
    case None
    have w2: "w2 = w\<lparr>rw_db := ?d\<rparr>" using commit_or_compensate_inv(2)[OF assms(1) ki cm] rep None by blast
    then have "resume_db_wf ?d" using inv2 by (simp add: world_inv_def)
    then have key: "re_key c \<in> intent_keys (rw_db w2)" using rep w2 by simp
    obtain b objs where d: "delete_object (ft_delete ft) (re_key c) (rw_objects w2) = (b, objs)" by fastforce
    show ?thesis
      using assms(6) cm None res d settle_inv[OF inv2 key d] clear_settled_inv[OF inv2 key] d
      by (cases b) (auto simp: finish_replace_def Let_def)
  qed
qed

lemma replace_resume_inv:
  assumes "world_inv L w" "fresh_resume w owner j"
    and "replace_resume st ft t owner i j u res w = (r, w')"
  shows "world_inv (L \<union> lost_answer ft owner j) w'"
proof (cases "get_owned (rw_db w) i owner False")
  case None
  then show ?thesis using assms by (auto simp: replace_resume_def world_inv_def)
next
  case (Some c)
  obtain e w2 where s: "reserve_and_store st ft t owner (build_resume_object_key owner j) ''The replacement resume could not be stored.'' w = (e, w2)"
    by fastforce
  note inv = reserve_and_store_inv[OF assms(1,2) s]
  show ?thesis
  proof (cases e)
    case (Some a)
    then show ?thesis using assms(3) s inv \<open>get_owned _ _ _ _ = _\<close> by (simp add: replace_resume_def)
  next
    case None
    then have f: "finish_replace st ft t owner j c u res w2 = (r, w')" using assms(3) s Some by (simp add: replace_resume_def)
    have rs: "resumes (rw_db w2) = resumes (rw_db w)" using inv None by simp
    have "active_keys (rw_db w2) = active_keys (rw_db w)" by (simp add: active_keys_def rs)
    then show ?thesis
      using finish_replace_inv[OF _ _ _ _ _ f] inv None get_owned_active[OF Some] assms(2) rs by (simp add: fresh_resume_def)
  qed
qed

lemma remove_object_inv:
  assumes "world_inv L w" "re_key x \<in> intent_keys (rw_db w)" "remove_object ft x w = (r, w')"
  shows "world_inv L w'"
proof -
  obtain b objs where d: "delete_object (ft_delete ft) (re_key x) (rw_objects w) = (b, objs)" by fastforce
  show ?thesis
    using assms(3) d settle_inv[OF assms(1,2) d] clear_settled_inv[OF assms(1,2)] d
    by (cases b) (auto simp: remove_object_def)
qed

lemma delete_resume_inv:
  assumes "world_inv L w" "delete_resume st ft t owner i w = (r, w')"
  shows "world_inv L w'"
proof (cases "get_owned (rw_db w) i owner True")
  case None
  then show ?thesis using assms by (simp add: delete_resume_def)
next
  case (Some x)
  have x: "x \<in> set (resumes (rw_db w))" using get_ownedD[OF Some] by simp
  let ?c = "cleanup_record st (rw_db w) owner (re_key x) t"
  let ?d1 = "add_cleanup ?c (put_resume (retired t x) (rw_db w))"
  let ?d2 = "add_cleanup ?c (rw_db w)"
  have wf: "resume_db_wf (rw_db w)" using assms(1) by (simp add: world_inv_def)
  show ?thesis
  proof (cases "re_status x = DELETED")
    case False
    then have ak: "re_key x \<in> active_keys (rw_db w)" using x by (auto simp: active_keys_def)
    have inv1: "world_inv L (w\<lparr>rw_db := ?d1\<rparr>)" if "resume_db_wf ?d1"
      using assms(1) that active_keys_retired[OF wf x] by (auto simp: world_inv_def orphans_def no_dangling_def)
    show ?thesis
    proof (cases "try_commit (ft_commit ft) ?d1")
      case Commits
      then have w1: "world_inv L (w\<lparr>rw_db := ?d1\<rparr>)" by (intro inv1) (auto simp: try_commit_def split: if_splits)
      have "remove_object ft (retired t x) (w\<lparr>rw_db := ?d1\<rparr>) = (r, w')"
        using assms(2) Some False Commits by (simp add: delete_resume_def Let_def)
      then show ?thesis by (rule remove_object_inv[OF w1, rotated]) simp
    qed (use assms Some False in \<open>auto simp: delete_resume_def Let_def\<close>)
  next
    case True
    then have nk: "re_key x \<notin> active_keys (rw_db w)"
      using x wf by (auto simp: active_keys_def resume_db_wf_def distinct_map dest: inj_onD)
    show ?thesis
    proof (cases "get_by_object_key (rw_db w) (re_key x)")
      case None
      show ?thesis
      proof (cases "try_commit (ft_commit ft) ?d2 = Commits")
        case c: True
        then have "resume_db_wf ?d2" by (auto simp: try_commit_def split: if_splits)
        then have w1: "world_inv L (w\<lparr>rw_db := ?d2\<rparr>)"
          using assms(1) nk by (auto simp: world_inv_def orphans_def no_dangling_def)
        have "remove_object ft x (w\<lparr>rw_db := ?d2\<rparr>) = (r, w')"
          using assms(2) Some True None c by (simp add: delete_resume_def Let_def)
        then show ?thesis by (rule remove_object_inv[OF w1, rotated]) simp
      qed (use assms Some True None in \<open>auto simp: delete_resume_def Let_def\<close>)
    next
      case (Some c)
      then have "c \<in> set (cleanups (rw_db w)) \<and> cl_key c = re_key x" by (auto simp: get_by_object_key_def find_Some_iff)
      then have "re_key x \<in> intent_keys (rw_db w)" unfolding intent_keys_def by (metis imageI)
      moreover have "remove_object ft x w = (r, w')"
        using assms(2) \<open>get_owned _ _ _ _ = _\<close> True Some by (simp add: delete_resume_def Let_def)
      ultimately show ?thesis using remove_object_inv assms(1) by blast
    qed
  qed
qed

section \<open>Reconciliation\<close>

lemma failed_attempt_key [simp]: "cl_key (failed_attempt k c) = cl_key c"
  by (simp add: failed_attempt_def)

lemma failed_attempts_inv:
  "world_inv L w \<Longrightarrow> world_inv L (w\<lparr>rw_db := (rw_db w)\<lparr>cleanups := map (failed_attempt k) (cleanups (rw_db w))\<rparr>\<rparr>)"
proof -
  have keys: "map cl_key (map (failed_attempt k) cs) = map cl_key cs" for cs by simp
  assume "world_inv L w"
  then show ?thesis
    unfolding world_inv_def orphans_def no_dangling_def resume_db_wf_def active_keys_def intent_keys_def
    by (simp add: image_image comp_def)
qed

lemma reconcile_each_inv:
  assumes "world_inv L w" "distinct (map cl_key cs)" "cl_key ` set cs \<subseteq> intent_keys (rw_db w)"
    and "reconcile_each res cs (w, a, b) = (w', a', b')"
  shows "world_inv L w' \<and> active_keys (rw_db w') = active_keys (rw_db w) \<and>
    set (rw_objects w') \<subseteq> set (rw_objects w) \<and> set (rw_objects w) - cl_key ` set cs \<subseteq> set (rw_objects w') \<and>
    a' + b' = a + b + length cs \<and> resumes (rw_db w') = resumes (rw_db w) \<and>
    ((\<forall>k. res k = Removed) \<longrightarrow> intent_keys (rw_db w') = intent_keys (rw_db w) - cl_key ` set cs \<and>
       set (rw_objects w') = set (rw_objects w) - cl_key ` set cs)"
  using assms
proof (induction cs arbitrary: w a b)
  case (Cons c cs)
  let ?k = "cl_key c"
  obtain ok objs where d: "delete_object (res ?k) ?k (rw_objects w) = (ok, objs)" by fastforce
  have k: "?k \<in> intent_keys (rw_db w)" using Cons.prems(3) by simp
  note settle = settle_inv[OF Cons.prems(1) k d]
  have objs: "set objs \<subseteq> set (rw_objects w)" "set (rw_objects w) - {?k} \<subseteq> set objs"
    using delete_object_cases[OF d] by auto
  show ?case
  proof (cases ok)
    case True
    let ?w = "w\<lparr>rw_objects := objs, rw_db := remove_cleanup ?k (rw_db w)\<rparr>"
    have "reconcile_each res cs (?w, Suc a, b) = (w', a', b')" using Cons.prems(4) d True by simp
    moreover have "cl_key ` set cs \<subseteq> intent_keys (rw_db ?w)"
      using Cons.prems(2,3) by (simp add: subset_insert_iff) blast
    ultimately have ih: "world_inv L w' \<and> active_keys (rw_db w') = active_keys (rw_db ?w) \<and>
      set (rw_objects w') \<subseteq> set (rw_objects ?w) \<and> set (rw_objects ?w) - cl_key ` set cs \<subseteq> set (rw_objects w') \<and>
      a' + b' = Suc a + b + length cs \<and> resumes (rw_db w') = resumes (rw_db ?w) \<and>
      ((\<forall>k. res k = Removed) \<longrightarrow> intent_keys (rw_db w') = intent_keys (rw_db ?w) - cl_key ` set cs \<and>
         set (rw_objects w') = set (rw_objects ?w) - cl_key ` set cs)"
      using Cons.IH[OF settle(2)[OF True]] Cons.prems(2) by simp
    have "set objs = set (rw_objects w) - {?k}" using d True by (auto simp: delete_object_def split: delete_outcome.splits)
    then show ?thesis using ih objs by auto
  next
    case False
    let ?w0 = "w\<lparr>rw_objects := objs\<rparr>"
    let ?w = "w\<lparr>rw_objects := objs, rw_db := (rw_db w)\<lparr>cleanups := map (failed_attempt ?k) (cleanups (rw_db w))\<rparr>\<rparr>"
    have inv: "world_inv L ?w" using failed_attempts_inv[OF settle(1), of ?k] by simp
    have sel: "active_keys (rw_db ?w) = active_keys (rw_db w)" "intent_keys (rw_db ?w) = intent_keys (rw_db w)"
      by (simp_all add: active_keys_def intent_keys_def image_image)
    have "res ?k \<noteq> Removed" using d False by (auto simp: delete_object_def)
    then have nr: "\<not> (\<forall>k. res k = Removed)" by blast
    have "reconcile_each res cs (?w, a, Suc b) = (w', a', b')" using Cons.prems(4) d False by simp
    then have "world_inv L w' \<and> active_keys (rw_db w') = active_keys (rw_db ?w) \<and>
      set (rw_objects w') \<subseteq> set (rw_objects ?w) \<and> set (rw_objects ?w) - cl_key ` set cs \<subseteq> set (rw_objects w') \<and>
      a' + b' = a + Suc b + length cs \<and> resumes (rw_db w') = resumes (rw_db ?w)"
      using Cons.IH[OF inv] Cons.prems(2,3) sel by simp
    then show ?thesis using objs sel nr by auto
  qed
qed simp

lemma list_due_keys:
  assumes "resume_db_wf d"
  shows "distinct (map cl_key (list_due_for_update d now n))" "cl_key ` set (list_due_for_update d now n) \<subseteq> intent_keys d"
proof -
  let ?due = "filter (\<lambda>c. cl_available_at c \<le> now) (cleanups d)"
  let ?xs = "sort_key (\<lambda>c. (cl_available_at c, cl_id c)) ?due"
  have "distinct (map cl_key ?due)" using assms by (simp add: resume_db_wf_def distinct_map_filter)
  moreover have "mset (map cl_key ?xs) = mset (map cl_key ?due)" by (simp only: mset_map mset_sort)
  ultimately have "distinct (map cl_key ?xs)" using mset_eq_imp_distinct_iff by blast
  then show "distinct (map cl_key (list_due_for_update d now n))"
    by (simp add: list_due_for_update_def distinct_take flip: take_map)
  show "cl_key ` set (list_due_for_update d now n) \<subseteq> intent_keys d"
    unfolding list_due_for_update_def intent_keys_def
    by (rule image_mono, rule order_trans[OF set_take_subset]) simp
qed

lemma reconcile_inv:
  assumes "world_inv L w" "reconcile_storage_cleanups res fails now n w = (r, w')"
  shows "world_inv L w'"
proof -
  obtain w2 a b where e: "reconcile_each res (list_due_for_update (rw_db w) now n) (w, 0, 0) = (w2, a, b)"
    by (rule prod_cases3)
  have wf: "resume_db_wf (rw_db w)" using assms(1) by (simp add: world_inv_def)
  note each = reconcile_each_inv[OF assms(1) list_due_keys[OF wf] e]
  have inv: "world_inv L w2" "set (rw_objects w2) \<subseteq> set (rw_objects w)" using each by simp_all
  have "set (rw_objects w) - cl_key ` set (list_due_for_update (rw_db w) now n) \<subseteq> set (rw_objects w2)" using each by simp
  then have kept: "set (rw_objects w) - intent_keys (rw_db w) \<subseteq> set (rw_objects w2)"
    using list_due_keys(2)[OF wf, of now n] by auto
  then have "world_inv L (w\<lparr>rw_objects := rw_objects w2\<rparr>)"
    using assms(1) inv(2) kept by (auto simp: world_inv_def orphans_def no_dangling_def)
  then show ?thesis using assms(2) e inv(1) by (auto simp: reconcile_storage_cleanups_def split: if_splits)
qed

section \<open>Reachable worlds\<close>

definition empty_world :: resume_world where
  "empty_world = \<lparr>rw_db = \<lparr>resumes = [], profiles = [], cleanups = []\<rparr>, rw_objects = []\<rparr>"

text \<open>One request or one run of the reconciliation, with any of its calls failing, and the keys of the
  uploads whose answer it lost.\<close>

inductive resume_step :: "resume_settings \<Rightarrow> resume_world \<Rightarrow> string set \<Rightarrow> resume_world \<Rightarrow> bool" for st where
  upload: "\<lbrakk>fresh_resume w owner i; upload st ft t owner i u res w = (r, w')\<rbrakk> \<Longrightarrow> resume_step st w (lost_answer ft owner i) w'"
| replace: "\<lbrakk>fresh_resume w owner j; replace_resume st ft t owner i j u res w = (r, w')\<rbrakk> \<Longrightarrow>
    resume_step st w (lost_answer ft owner j) w'"
| delete: "delete_resume st ft t owner i w = (r, w') \<Longrightarrow> resume_step st w {} w'"
| reconcile: "reconcile_storage_cleanups outs fails t n w = (c, w') \<Longrightarrow> resume_step st w {} w'"

inductive resume_reachable :: "resume_settings \<Rightarrow> resume_world \<Rightarrow> string set \<Rightarrow> bool" for st where
  init: "resume_reachable st empty_world {}"
| step: "\<lbrakk>resume_reachable st w L; resume_step st w K w'\<rbrakk> \<Longrightarrow> resume_reachable st w' (L \<union> K)"

lemma resume_step_inv: "\<lbrakk>resume_step st w K w'; world_inv L w\<rbrakk> \<Longrightarrow> world_inv (L \<union> K) w'"
  by (cases rule: resume_step.cases) (auto dest: upload_inv replace_resume_inv delete_resume_inv reconcile_inv)

lemma resume_reachable_inv: "resume_reachable st w L \<Longrightarrow> world_inv L w"
proof (induction rule: resume_reachable.induct)
  case init
  then show ?case
    by (simp add: world_inv_def empty_world_def resume_db_wf_def orphans_def no_dangling_def active_keys_def)
qed (rule resume_step_inv)

lemma reachable_wf: "resume_reachable st w L \<Longrightarrow> resume_db_wf (rw_db w)"
  using resume_reachable_inv by (auto simp: world_inv_def)

section \<open>Rows of other owners\<close>

definition foreign_rows :: "nat \<Rightarrow> resume_world \<Rightarrow> resume list \<times> candidate_profile list" where
  "foreign_rows owner w =
     (filter (\<lambda>r. re_owner r \<noteq> owner) (resumes (rw_db w)), filter (\<lambda>p. cp_owner p \<noteq> owner) (profiles (rw_db w)))"

lemma compensate_rows [simp]:
  "resumes (rw_db (compensate_with_journal ft k w)) = resumes (rw_db w)"
  "profiles (rw_db (compensate_with_journal ft k w)) = profiles (rw_db w)"
  by (auto simp: compensate_with_journal_def clear_cleanup_best_effort_def split: prod.split bool.split)

lemma reserve_and_store_rows:
  "reserve_and_store st ft t owner k m w = (e, w') \<Longrightarrow> resumes (rw_db w') = resumes (rw_db w) \<and> profiles (rw_db w') = profiles (rw_db w)"
  by (auto simp: reserve_and_store_def reserve_cleanup_def clear_cleanup_best_effort_def Let_def
      split: option.splits prod.splits bool.splits if_splits)

lemma remove_object_rows:
  "remove_object ft x w = (r, w') \<Longrightarrow> resumes (rw_db w') = resumes (rw_db w) \<and> profiles (rw_db w') = profiles (rw_db w)"
  by (auto simp: remove_object_def clear_cleanup_best_effort_def split: prod.splits bool.splits if_splits)

lemma commit_or_compensate_rows:
  "commit_or_compensate ft k err d w = (e, w') \<Longrightarrow>
     rw_db w' = d \<or> resumes (rw_db w') = resumes (rw_db w) \<and> profiles (rw_db w') = profiles (rw_db w)"
  by (auto simp: commit_or_compensate_def split: commit_outcome.splits)

lemma foreign_rows_cong:
  "\<lbrakk>resumes (rw_db w') = resumes (rw_db w); profiles (rw_db w') = profiles (rw_db w)\<rbrakk> \<Longrightarrow> foreign_rows owner w' = foreign_rows owner w"
  by (simp add: foreign_rows_def)

lemma put_retired_foreign:
  assumes "distinct (map re_id (resumes d))" "r \<in> set (resumes d)" "re_owner r = owner"
  shows "filter (\<lambda>x. re_owner x \<noteq> owner) (resumes (put_resume (retired t r) d)) = filter (\<lambda>x. re_owner x \<noteq> owner) (resumes d)"
proof -
  have "filter (\<lambda>x. re_owner x \<noteq> owner) (map (\<lambda>x. if re_id x = re_id r then retired t r else x) xs) =
      filter (\<lambda>x. re_owner x \<noteq> owner) xs" if "set xs \<subseteq> set (resumes d)" for xs
    using that
  proof (induction xs)
    case (Cons x xs)
    have "re_id x = re_id r \<Longrightarrow> x = r" using assms(1,2) Cons.prems by (auto simp: distinct_map dest: inj_onD)
    then show ?case using Cons assms(3) by auto
  qed simp
  then show ?thesis by (simp add: put_resume_def)
qed

lemma finish_upload_foreign:
  assumes "finish_upload st ft t owner i u res w = (r, w')"
  shows "foreign_rows owner w' = foreign_rows owner w"
proof -
  have c: "foreign_rows owner w2 = foreign_rows owner w"
    if "commit_or_compensate ft k err d w = (e, w2)" "resumes d = resumes (rw_db w) @ [x]" "re_owner x = owner"
      "\<exists>ps. profiles d = profiles (rw_db w) @ ps \<and> (\<forall>p \<in> set ps. cp_owner p = owner)" for k err d e w2 x
    using commit_or_compensate_rows[OF that(1)] that(2-4) by (auto simp: foreign_rows_def filter_empty_conv)
  have p: "\<exists>ps. ps1 = ps1 @ ps \<and> (\<forall>p \<in> set ps. cp_owner p = owner)"
    "\<exists>ps. ps1 @ [new_profile owner i q t] = ps1 @ ps \<and> (\<forall>p \<in> set ps. cp_owner p = owner)" for ps1 q
    by (simp_all add: new_profile_def)
  show ?thesis
  proof (cases res)
    case ParseCrashed
    then show ?thesis using assms by (auto simp: finish_upload_def intro: foreign_rows_cong)
  next
    case (ParseRejected e)
    then show ?thesis using assms p(1)
      by (auto simp: finish_upload_def Let_def add_resume_def split: prod.splits option.splits intro!: c)
  next
    case (ParsedAs q)
    then show ?thesis using assms p(2)
      by (auto simp: finish_upload_def Let_def add_resume_def add_profile_def split: prod.splits option.splits intro!: c)
  qed
qed

lemma replaced_db_foreign:
  assumes "resume_db_wf d" "c \<in> set (resumes d)" "re_owner c = owner" "j \<notin> re_id ` set (resumes d)"
  shows "filter (\<lambda>x. re_owner x \<noteq> owner) (resumes (replaced_db st t owner j c u p d)) = filter (\<lambda>x. re_owner x \<noteq> owner) (resumes d)"
    "filter (\<lambda>x. cp_owner x \<noteq> owner) (profiles (replaced_db st t owner j c u p d)) = filter (\<lambda>x. cp_owner x \<noteq> owner) (profiles d)"
proof -
  let ?d = "add_profile (new_profile owner j p t) (add_resume (new_resume st PARSED None owner j u t) d)"
  have "distinct (map re_id (resumes ?d))" using assms(1,4) by (simp add: add_profile_def add_resume_def resume_db_wf_def)
  then have "filter (\<lambda>x. re_owner x \<noteq> owner) (resumes (put_resume (retired t c) ?d)) = filter (\<lambda>x. re_owner x \<noteq> owner) (resumes ?d)"
    by (rule put_retired_foreign) (use assms(2,3) in \<open>simp_all add: add_profile_def add_resume_def\<close>)
  then show "filter (\<lambda>x. re_owner x \<noteq> owner) (resumes (replaced_db st t owner j c u p d)) = filter (\<lambda>x. re_owner x \<noteq> owner) (resumes d)"
    by (simp add: replaced_db_def) (simp add: add_profile_def add_resume_def)
  show "filter (\<lambda>x. cp_owner x \<noteq> owner) (profiles (replaced_db st t owner j c u p d)) = filter (\<lambda>x. cp_owner x \<noteq> owner) (profiles d)"
    by (simp add: replaced_db_def) (simp add: put_resume_def add_profile_def add_resume_def new_profile_def)
qed

lemma finish_replace_foreign:
  assumes "finish_replace st ft t owner j c u res w = (r, w')" "resume_db_wf (rw_db w)"
    and "c \<in> set (resumes (rw_db w))" "re_owner c = owner" "j \<notin> re_id ` set (resumes (rw_db w))"
  shows "foreign_rows owner w' = foreign_rows owner w"
proof (cases "\<exists>p. res = ParsedAs p")
  case False
  then show ?thesis using assms(1) by (cases res) (auto simp: finish_replace_def intro: foreign_rows_cong)
next
  case True
  then obtain p where p: "res = ParsedAs p" by blast
  let ?d = "replaced_db st t owner j c u p (rw_db w)"
  obtain e w2 where cm: "commit_or_compensate ft (build_resume_object_key owner j) concurrent_change ?d w = (e, w2)" by fastforce
  have "foreign_rows owner w2 = foreign_rows owner w"
    using commit_or_compensate_rows[OF cm] replaced_db_foreign[OF assms(2-5), of st t u p] by (auto simp: foreign_rows_def)
  moreover have "resumes (rw_db w') = resumes (rw_db w2) \<and> profiles (rw_db w') = profiles (rw_db w2)"
    using assms(1) cm p
    by (auto simp: finish_replace_def clear_cleanup_best_effort_def Let_def split: option.splits prod.splits bool.splits if_splits)
  ultimately show ?thesis using foreign_rows_cong by metis
qed

lemma upload_foreign:
  assumes "upload st ft t owner i u res w = (r, w')"
  shows "foreign_rows owner w' = foreign_rows owner w"
proof -
  obtain e w2 where s: "reserve_and_store st ft t owner (build_resume_object_key owner i) ''The resume could not be stored.'' w = (e, w2)"
    by fastforce
  have w2: "foreign_rows owner w2 = foreign_rows owner w" by (rule foreign_rows_cong) (use reserve_and_store_rows[OF s] in simp_all)
  show ?thesis
    by (cases e) (use assms s w2 finish_upload_foreign[of st ft t owner i u res w2 r w'] in \<open>auto simp: upload_def\<close>)
qed

lemma replace_foreign:
  assumes "resume_db_wf (rw_db w)" "fresh_resume w owner j" "replace_resume st ft t owner i j u res w = (r, w')"
  shows "foreign_rows owner w' = foreign_rows owner w"
proof (cases "get_owned (rw_db w) i owner False")
  case None
  then show ?thesis using assms by (simp add: replace_resume_def)
next
  case (Some c)
  obtain e w2 where s: "reserve_and_store st ft t owner (build_resume_object_key owner j) ''The replacement resume could not be stored.'' w = (e, w2)"
    by fastforce
  note rows = reserve_and_store_rows[OF s]
  have w2: "foreign_rows owner w2 = foreign_rows owner w" by (rule foreign_rows_cong) (use rows in simp_all)
  show ?thesis
  proof (cases e)
    case None
    then have f: "finish_replace st ft t owner j c u res w2 = (r, w')" using assms(3) s Some by (simp add: replace_resume_def)
    have "resume_db_wf (rw_db w2)"
      using s None by (auto simp: reserve_and_store_def dest!: reserve_cleanupD split: option.splits prod.splits bool.splits)
    then show ?thesis
      using finish_replace_foreign[OF f] get_ownedD[OF Some] assms(2) rows w2 by (simp add: fresh_resume_def)
  qed (use assms(3) s Some w2 in \<open>auto simp: replace_resume_def\<close>)
qed

lemma delete_foreign:
  assumes "resume_db_wf (rw_db w)" "delete_resume st ft t owner i w = (r, w')"
  shows "foreign_rows owner w' = foreign_rows owner w"
proof (cases "get_owned (rw_db w) i owner True")
  case None
  then show ?thesis using assms by (simp add: delete_resume_def)
next
  case (Some x)
  have x: "x \<in> set (resumes (rw_db w))" "re_owner x = owner" using get_ownedD[OF Some] by simp_all
  have ids: "distinct (map re_id (resumes (rw_db w)))" using assms(1) by (simp add: resume_db_wf_def)
  have put: "foreign_rows owner (w\<lparr>rw_db := add_cleanup c (put_resume (retired t x) (rw_db w))\<rparr>) = foreign_rows owner w" for c
    using put_retired_foreign[OF ids x] by (simp add: foreign_rows_def) (simp add: put_resume_def)
  have add: "foreign_rows owner (w\<lparr>rw_db := add_cleanup c (rw_db w)\<rparr>) = foreign_rows owner w" for c
    by (simp add: foreign_rows_def)
  have rm: "foreign_rows owner w' = foreign_rows owner w2" if "remove_object ft y w2 = (r, w')" for y w2
    by (rule foreign_rows_cong) (use remove_object_rows[OF that] in simp_all)
  show ?thesis
    using assms(2) Some put add rm
    by (auto simp: delete_resume_def Let_def split: commit_outcome.splits if_splits)
qed

section \<open>Properties\<close>

text \<open>C2: in every state the service can reach through uploads, replacements, deletions and
  reconciliations, with any of their calls failing, the database constraints hold, every
  active resume has its object and no intent to delete it, and every stored object belongs
  to an active resume, to a recorded cleanup intent, or to an upload whose answer was lost after the
  store had kept the object; without such a lost answer nothing is ever left behind. A commit
  is acknowledged or has no effect.\<close>

theorem resume_worlds_consistent:
  assumes "resume_reachable st w lost"
  shows "resume_db_wf (rw_db w) \<and>
    (\<forall>k \<in> set (rw_objects w). (\<exists>r \<in> set (resumes (rw_db w)). re_status r \<noteq> DELETED \<and> re_key r = k) \<or>
       (\<exists>c \<in> set (cleanups (rw_db w)). cl_key c = k) \<or> k \<in> lost) \<and>
    (\<forall>r \<in> set (resumes (rw_db w)). re_status r \<noteq> DELETED \<longrightarrow>
       re_key r \<in> set (rw_objects w) \<and> (\<forall>c \<in> set (cleanups (rw_db w)). cl_key c \<noteq> re_key r))"
proof -
  have inv: "resume_db_wf (rw_db w)" "orphans w \<subseteq> lost"
      "active_keys (rw_db w) \<subseteq> set (rw_objects w) - intent_keys (rw_db w)"
    using resume_reachable_inv[OF assms] by (simp_all add: world_inv_def no_dangling_def)
  then have "k \<in> active_keys (rw_db w) \<union> intent_keys (rw_db w) \<union> lost" if "k \<in> set (rw_objects w)" for k
    using that by (auto simp: orphans_def)
  then show ?thesis using inv(1,3) by (fastforce simp: active_keys_def intent_keys_def)
qed

text \<open>C19: reconciliation converges. In a reachable state, once every intent is due, one run
  whose deletions succeed and whose limit covers them leaves no intent behind; the store then holds
  the objects of the active resumes and, of the uploads whose answer was lost, those whose
  intent was already gone, which it does not touch. It reports what it removed.\<close>

theorem reconciliation_converges:
  assumes "resume_reachable st w lost" "\<forall>c \<in> set (cleanups (rw_db w)). cl_available_at c \<le> now"
    and "length (cleanups (rw_db w)) \<le> limit" "\<forall>k. res k = Removed"
    and "reconcile_storage_cleanups res False now limit w = (c, w')"
  shows "cleanups (rw_db w') = [] \<and> resumes (rw_db w') = resumes (rw_db w) \<and>
    set (rw_objects w') = {re_key r | r. r \<in> set (resumes (rw_db w)) \<and> re_status r \<noteq> DELETED} \<union> orphans w \<and>
    orphans w \<subseteq> lost \<and> c = Some (length (cleanups (rw_db w)), 0)"
proof -
  have inv: "world_inv lost w" by (rule resume_reachable_inv[OF assms(1)])
  then have wf: "resume_db_wf (rw_db w)" by (simp add: world_inv_def)
  let ?due = "list_due_for_update (rw_db w) now limit"
  obtain w2 a b where e: "reconcile_each res ?due (w, 0, 0) = (w2, a, b)" by (rule prod_cases3)
  have f: "filter (\<lambda>c. cl_available_at c \<le> now) (cleanups (rw_db w)) = cleanups (rw_db w)" using assms(2) by simp
  have due: "length ?due = length (cleanups (rw_db w))" "set ?due = set (cleanups (rw_db w))"
    unfolding list_due_for_update_def f using assms(3) by simp_all
  have no_failure: "b' = b0" if "reconcile_each res cs (v, a0, b0) = (v', a', b')" for cs v v' a0 b0 a' b'
    using that assms(4) by (induction cs arbitrary: v a0) (auto simp: delete_object_def)
  have w2: "w' = w2" "c = Some (a, b)" using assms(5) e by (simp_all add: reconcile_storage_cleanups_def)
  have b: "b = 0" using no_failure[OF e] by simp
  note each = reconcile_each_inv[OF inv list_due_keys[OF wf] e]
  have keys: "cl_key ` set ?due = intent_keys (rw_db w)" by (simp add: due intent_keys_def)
  have "intent_keys (rw_db w2) = {}" "set (rw_objects w2) = set (rw_objects w) - intent_keys (rw_db w)"
    using each assms(4) keys by simp_all
  moreover have "set (rw_objects w) - intent_keys (rw_db w) = active_keys (rw_db w) \<union> orphans w" "orphans w \<subseteq> lost"
    using inv by (auto simp: world_inv_def orphans_def no_dangling_def)
  moreover have "a = length (cleanups (rw_db w))" "resumes (rw_db w2) = resumes (rw_db w)" using each due(1) b by simp_all
  ultimately show ?thesis using b w2 by (simp add: intent_keys_def active_keys_def)
qed

text \<open>An owner's request never changes another owner's resumes or profiles, never returns
  a resume of another owner, and an unknown or foreign identifier answers "not found"
  without any effect.\<close>

theorem resume_requests_owner_scoped:
  assumes "resume_db_wf (rw_db w)" "fresh_resume w owner j"
  shows "foreign_rows owner (snd (upload st ft t owner j u res w)) = foreign_rows owner w \<and>
    foreign_rows owner (snd (replace_resume st ft t owner i j u res w)) = foreign_rows owner w \<and>
    foreign_rows owner (snd (delete_resume st ft t owner i w)) = foreign_rows owner w \<and>
    ((\<forall>r \<in> set (resumes (rw_db w)). re_id r = i \<longrightarrow> re_owner r \<noteq> owner) \<longrightarrow>
       replace_resume st ft t owner i j u res w = (Inl resume_not_found, w) \<and>
       delete_resume st ft t owner i w = (Inl resume_not_found, w) \<and>
       get_candidate_profile i owner w = Inl resume_not_found)"
proof -
  have "get_owned (rw_db w) i owner b = None" if "\<forall>r \<in> set (resumes (rw_db w)). re_id r = i \<longrightarrow> re_owner r \<noteq> owner" for b
    using that by (auto simp: get_owned_def find_None_iff)
  then show ?thesis
    using upload_foreign[OF prod.collapse[symmetric]] replace_foreign[OF assms prod.collapse[symmetric]]
      delete_foreign[OF assms(1) prod.collapse[symmetric]]
    by (simp add: replace_resume_def delete_resume_def get_candidate_profile_def)
qed

lemma retired_failed_invalid:
  assumes "resume_checks r" "re_status r = PARSE_FAILED" "r \<in> set (resumes d)"
  shows "\<not> resume_db_wf (put_resume (retired t r) d)"
proof -
  have "\<not> resume_checks (retired t r)" using assms(1,2) by (auto simp: resume_checks_def retired_def)
  moreover have "retired t r \<in> set (resumes (put_resume (retired t r) d))" using assms(3) by (force simp: put_resume_def)
  ultimately show ?thesis by (auto simp: resume_db_wf_def list_all_iff)
qed

lemma try_commit_invalid: "\<not> resume_db_wf d \<Longrightarrow> try_commit res d \<noteq> Commits"
  by (simp add: try_commit_def)

lemma wf_of_wider:
  "resume_db_wf (add_cleanup c d) \<Longrightarrow> resume_db_wf d"
  "resume_db_wf (remove_cleanup k d) \<Longrightarrow> list_all resume_checks (resumes d)"
  by (auto simp: resume_db_wf_def add_cleanup_def remove_cleanup_def)

text \<open>C27: a resume whose parsing failed can never be deleted or replaced. Both operations mark it
  deleted but keep its error code, which the table constraint on the error state forbids,
  so the commit is rejected: a deletion fails and changes nothing, whatever else happens,
  and a replacement never succeeds.\<close>

theorem parse_failed_resume_stuck:
  assumes "resume_db_wf (rw_db w)" "r \<in> set (resumes (rw_db w))" "re_status r = PARSE_FAILED"
  shows "delete_resume st ft t (re_owner r) (re_id r) w \<in> {(Inl concurrent_change, w), (Inl DbFailure, w)} \<and>
    (\<forall>x. fst (replace_resume st ft t (re_owner r) (re_id r) j u res w) \<noteq> Inr x)"
proof -
  have rc: "resume_checks r" using assms(1,2) by (simp add: resume_db_wf_def list_all_iff)
  have inj: "inj_on re_id (set (resumes (rw_db w)))" using assms(1) by (simp add: resume_db_wf_def distinct_map)
  have own: "get_owned (rw_db w) (re_id r) (re_owner r) b = Some r" for b
  proof (cases "get_owned (rw_db w) (re_id r) (re_owner r) b")
    case None
    then show ?thesis using assms(2,3) by (auto simp: get_owned_def find_None_iff)
  next
    case (Some x)
    then show ?thesis using get_ownedD[OF Some] inj assms(2) by (auto dest: inj_onD)
  qed
  have "\<not> resume_db_wf (add_cleanup c (put_resume (retired t r) (rw_db w)))" for c
    using retired_failed_invalid[OF rc assms(3,2)] wf_of_wider(1) by blast
  then have del: "delete_resume st ft t (re_owner r) (re_id r) w \<in> {(Inl concurrent_change, w), (Inl DbFailure, w)}"
    using try_commit_invalid by (auto simp: delete_resume_def own assms(3) Let_def split: commit_outcome.splits)
  have rep: "\<not> resume_db_wf (replaced_db st t (re_owner r) j r u p d)" if d: "r \<in> set (resumes d)" for p d
  proof
    assume "resume_db_wf (replaced_db st t (re_owner r) j r u p d)"
    then have "list_all resume_checks (resumes (replaced_db st t (re_owner r) j r u p d))" by (simp add: resume_db_wf_def)
    moreover have "retired t r \<in> set (resumes (replaced_db st t (re_owner r) j r u p d))"
      using d by (force simp: replaced_db_def put_resume_def add_profile_def add_resume_def)
    moreover have "\<not> resume_checks (retired t r)" using rc assms(3) by (auto simp: resume_checks_def retired_def)
    ultimately show False by (auto simp: list_all_iff)
  qed
  have "fst (finish_replace st ft t (re_owner r) j r u res w2) \<noteq> Inr x" if "r \<in> set (resumes (rw_db w2))" for w2 x
    using try_commit_invalid[OF rep[OF that]]
    by (cases res) (auto simp: finish_replace_def commit_or_compensate_def Let_def split: commit_outcome.splits)
  then have "fst (replace_resume st ft t (re_owner r) (re_id r) j u res w) \<noteq> Inr x" for x
    using reserve_and_store_rows[of st ft t "re_owner r"] assms(2)
    by (auto simp: replace_resume_def own split: prod.splits option.splits)
  then show ?thesis using del by blast
qed

section \<open>Concrete runs\<close>

definition sample_settings :: resume_settings where
  "sample_settings = \<lparr>st_bucket = ''resumes'', st_parser_version = ''v1''\<rparr>"

definition no_faults :: faults where
  "no_faults = \<lparr>ft_reserve = False, ft_store = Stored, ft_commit = Commits, ft_delete = Removed, ft_clear = False\<rparr>"

definition sample_upload :: validated_upload where
  "sample_upload = \<lparr>vu_filename = ''cv.pdf'', vu_content_type = ''application/pdf'', vu_size = 6,
     vu_sha256 = replicate 64 (CHR ''a''), vu_content = ''%PDF-1''\<rparr>"

definition sample_parsed :: parsed_resume where
  "sample_parsed = \<lparr>pr_full_name = None, pr_email = None, pr_phone = None, pr_location = None,
     pr_current_title = Some ''Backend Engineer'', pr_summary = None, pr_years = Some 2, pr_extracted_text = ''text'',
     pr_skills = [''Python''], pr_employment = [], pr_education = [], pr_certifications = [], pr_languages = [],
     pr_raw_output = []\<rparr>"

definition uploaded_world :: resume_world where
  "uploaded_world = snd (upload sample_settings no_faults 0 7 1 sample_upload (ParsedAs sample_parsed) empty_world)"

definition half_deleted_world :: resume_world where
  "half_deleted_world =
     snd (delete_resume sample_settings (no_faults\<lparr>ft_delete := NotRemoved\<rparr>) 10 7 1 uploaded_world)"

definition failed_world :: resume_world where
  "failed_world = snd (upload sample_settings no_faults 0 7 1 sample_upload
     (ParseRejected (app_error_of ''RESUME_PDF_INVALID'' ''The resume PDF could not be parsed.'' 422)) empty_world)"

lemma fresh_empty: "fresh_resume empty_world owner i"
  by (simp add: fresh_resume_def empty_world_def intent_keys_def)

lemma concrete_reachable:
  "resume_reachable sample_settings uploaded_world {}" "resume_reachable sample_settings half_deleted_world {}"
  "resume_reachable sample_settings failed_world {}"
proof -
  have kept: "lost_answer no_faults owner i = {}" for owner i by (simp add: lost_answer_def no_faults_def)
  have first: "resume_reachable sample_settings (snd (upload sample_settings no_faults 0 7 1 sample_upload res empty_world)) {}" for res
    using resume_reachable.step[OF resume_reachable.init resume_step.upload[OF fresh_empty prod.collapse[symmetric]], of sample_settings no_faults]
    by (simp add: kept)
  show up: "resume_reachable sample_settings uploaded_world {}" unfolding uploaded_world_def by (rule first)
  show "resume_reachable sample_settings half_deleted_world {}"
    unfolding half_deleted_world_def using resume_reachable.step[OF up resume_step.delete[OF prod.collapse[symmetric]]] by simp
  show "resume_reachable sample_settings failed_world {}" unfolding failed_world_def by (rule first)
qed

lemma half_deleted_rows:
  "length (cleanups (rw_db half_deleted_world)) = 1 \<and> length (rw_objects half_deleted_world) = 1 \<and>
   list_all (\<lambda>c. cl_available_at c \<le> 100) (cleanups (rw_db half_deleted_world))"
  by code_simp

lemma failed_rows: "map re_status (resumes (rw_db failed_world)) = [PARSE_FAILED] \<and>
    map re_id (resumes (rw_db failed_world)) = [1] \<and> map re_owner (resumes (rw_db failed_world)) = [7]"
  by code_simp

theorem resume_worlds_consistent_witness:
  "\<exists>k. rw_objects half_deleted_world = [k] \<and> (\<exists>c \<in> set (cleanups (rw_db half_deleted_world)). True)"
proof -
  obtain k where k: "rw_objects half_deleted_world = [k]" using half_deleted_rows by (cases "rw_objects half_deleted_world") auto
  have "map re_status (resumes (rw_db half_deleted_world)) = [DELETED]" by code_simp
  then have "\<forall>r \<in> set (resumes (rw_db half_deleted_world)). re_status r = DELETED" by (cases "resumes (rw_db half_deleted_world)") auto
  then show ?thesis using resume_worlds_consistent[OF concrete_reachable(2)] k by auto
qed

theorem reconciliation_converges_witness:
  "rw_objects (snd (reconcile_storage_cleanups (\<lambda>k. Removed) False 100 5 half_deleted_world)) = []"
proof -
  have "map re_status (resumes (rw_db half_deleted_world)) = [DELETED]" by code_simp
  then have d: "\<forall>r \<in> set (resumes (rw_db half_deleted_world)). re_status r = DELETED"
    by (cases "resumes (rw_db half_deleted_world)") auto
  have "set (rw_objects (snd (reconcile_storage_cleanups (\<lambda>k. Removed) False 100 5 half_deleted_world))) = {}"
    using reconciliation_converges[OF concrete_reachable(2) _ _ _ prod.collapse[symmetric], where now = 100 and limit = 5 and res = "\<lambda>k. Removed"]
      half_deleted_rows d by (auto simp: list_all_iff)
  then show ?thesis by simp
qed

theorem resume_requests_owner_scoped_witness:
  "delete_resume sample_settings no_faults 10 8 1 uploaded_world = (Inl resume_not_found, uploaded_world)"
proof -
  have "map re_owner (resumes (rw_db uploaded_world)) = [7]" by code_simp
  then have "\<forall>r \<in> set (resumes (rw_db uploaded_world)). re_owner r \<noteq> 8" by (cases "resumes (rw_db uploaded_world)") auto
  moreover have "fresh_resume uploaded_world 8 2" unfolding fresh_resume_def by code_simp
  ultimately show ?thesis
    using resume_requests_owner_scoped[OF reachable_wf[OF concrete_reachable(1)]] by blast
qed

theorem parse_failed_resume_stuck_witness:
  "\<exists>e. delete_resume sample_settings no_faults 10 7 1 failed_world = (Inl e, failed_world)"
proof -
  obtain r where r: "resumes (rw_db failed_world) = [r]" "re_status r = PARSE_FAILED" "re_id r = 1" "re_owner r = 7"
    using failed_rows by (cases "resumes (rw_db failed_world)") auto
  have "resume_db_wf (rw_db failed_world)" by (rule reachable_wf[OF concrete_reachable(3)])
  from conjunct1[OF parse_failed_resume_stuck[OF this _ r(2), of sample_settings no_faults 10 0 sample_upload ParseCrashed]]
  show ?thesis using r by auto
qed

text \<open>The lost answer: the store keeps the object, the client sees a failure and clears the intent, and
  the object is neither referenced nor scheduled for deletion.\<close>

definition lost_world :: resume_world where
  "lost_world = snd (upload sample_settings (no_faults\<lparr>ft_store := StoredLate\<rparr>) 0 7 1 sample_upload (ParsedAs sample_parsed) empty_world)"

lemma lost_answer_orphans:
  "resume_reachable sample_settings lost_world {build_resume_object_key 7 1}"
  "orphans lost_world = {build_resume_object_key 7 1}"
proof -
  have "lost_answer (no_faults\<lparr>ft_store := StoredLate\<rparr>) 7 1 = {build_resume_object_key 7 1}" by (simp add: lost_answer_def)
  then show "resume_reachable sample_settings lost_world {build_resume_object_key 7 1}"
    unfolding lost_world_def
    using resume_reachable.step[OF resume_reachable.init resume_step.upload[OF fresh_empty prod.collapse[symmetric]],
        of sample_settings "no_faults\<lparr>ft_store := StoredLate\<rparr>" 0 7 1] by simp
  have "rw_objects lost_world = [build_resume_object_key 7 1]" "resumes (rw_db lost_world) = []" "cleanups (rw_db lost_world) = []"
    by code_simp+
  then show "orphans lost_world = {build_resume_object_key 7 1}"
    by (simp add: orphans_def active_keys_def intent_keys_def)
qed

text \<open>A deletion keeps the parsed profile, and the profile of a deleted resume remains the
  owner's latest one, on which recommendations and searches rest.\<close>

lemma deleted_profile_stays_latest:
  "let w = snd (delete_resume sample_settings no_faults 10 7 1 uploaded_world) in
   map re_status (resumes (rw_db w)) = [DELETED] \<and> map_option cp_resume_id (get_latest_owned (rw_db w) 7) = Some 1"
  by code_simp

end
