(* ===== verification/ResumeParse.thy ===== *)
theory ResumeParse
  imports ResumeStore
begin

text \<open>
  The deterministic resume parser and its execution boundary (\<open>src/app/resumes/parser.py\<close>,
  \<open>src/app/resumes/execution.py\<close>). The PDF library is a parameter: what reading the bytes
  yields, a failure or pages, each with its text, no text, or a failure. A parse ends with
  a parsed resume, an expected rejection or an unexpected exception.
\<close>

datatype pdf_page = PageText "string option" | PageBroken
datatype pdf_read = PdfBroken | PdfPages "pdf_page list"
datatype parse_result = Parsed parsed_resume | Rejected app_error | Crashed

definition invalid_pdf :: app_error where
  "invalid_pdf = app_error_of ''RESUME_PDF_INVALID'' ''The resume PDF could not be parsed.'' 422"

definition text_limit_exceeded :: app_error where
  "text_limit_exceeded = app_error_of ''RESUME_TEXT_LIMIT_EXCEEDED'' ''The extracted resume text exceeds the allowed size.'' 422"

section \<open>Text extraction\<close>

fun extract_parts :: "nat \<Rightarrow> pdf_page list \<Rightarrow> string list \<Rightarrow> nat \<Rightarrow> app_error + string list" where
  "extract_parts limit [] parts n = Inr parts"
| "extract_parts limit (PageBroken # ps) parts n = Inl invalid_pdf"
| "extract_parts limit (PageText t # ps) parts n =
     (let page_text = strip (opt_text t) in
      if page_text = [] then extract_parts limit ps parts n
      else
        let projected = n + (if parts = [] then 0 else 1) + length page_text in
        if limit < projected then Inl text_limit_exceeded
        else extract_parts limit ps (parts @ [page_text]) projected)"

definition newline_text :: string where "newline_text = [CHR 0x0A]"

section \<open>Heuristics\<close>

definition skill_keywords :: "(string, string) dict" where
  "skill_keywords =
     [(''python'', ''Python''), (''react'', ''React''), (''devops'', ''DevOps''), (''sql'', ''SQL''), (''aws'', ''AWS''),
      (''azure'', ''Azure''), (''gcp'', ''GCP''), (''docker'', ''Docker''), (''kubernetes'', ''Kubernetes''),
      (''javascript'', ''JavaScript''), (''typescript'', ''TypeScript''), (''java'', ''Java''), (''c++'', ''C++''),
      (''c#'', ''C#''), (''ruby'', ''Ruby''), (''go'', ''Go''), (''rust'', ''Rust''), (''php'', ''PHP''),
      (''html'', ''HTML''), (''css'', ''CSS''), (''node'', ''Node.js''), (''django'', ''Django''),
      (''flask'', ''Flask''), (''spring'', ''Spring''), (''linux'', ''Linux''), (''sre'', ''SRE''),
      (''cloud'', ''Cloud Computing'')]"

definition keyword_skills :: "string \<Rightarrow> string list" where
  "keyword_skills text_lower = map snd (filter (\<lambda>(kw, _). contains_sub kw text_lower) skill_keywords)"

definition mentions :: "string \<Rightarrow> string list \<Rightarrow> string list \<Rightarrow> bool" where
  "mentions text_lower phrases words \<longleftrightarrow>
     list_ex (\<lambda>p. contains_sub p text_lower) phrases \<or> list_ex (\<lambda>v. v \<in> set (split_ws text_lower)) words"

definition location_rules :: "((string list \<times> string list) \<times> string) list" where
  "location_rules =
     [(([''new york''], [''ny'']), ''New York, NY''), (([''california''], [''ca'']), ''California''),
      (([''texas''], [''tx'']), ''Texas''), (([''london''], []), ''London, UK''),
      (([''san francisco''], []), ''San Francisco, CA''), (([''seattle''], []), ''Seattle, WA''),
      (([''austin''], []), ''Austin, TX'')]"

definition title_rules :: "((string list \<times> string list) \<times> string) list" where
  "title_rules =
     [(([''devops'', ''site reliability''], []), ''DevOps Engineer''),
      (([''frontend'', ''front end''], []), ''Frontend Engineer''),
      (([''backend'', ''back end''], []), ''Backend Engineer''),
      (([''fullstack'', ''full stack''], []), ''Full Stack Engineer''),
      (([''data scientist''], []), ''Data Scientist''), (([''product manager''], []), ''Product Manager'')]"

definition years_rules :: "((string list \<times> string list) \<times> rat) list" where
  "years_rules = [(([''senior'', ''staff'', ''principal''], []), 6), (([''lead'', ''manager'', ''director''], []), 10)]"

definition pick_rule :: "string \<Rightarrow> ((string list \<times> string list) \<times> 'a) list \<Rightarrow> 'a \<Rightarrow> 'a" where
  "pick_rule text_lower rules z =
     (case find (\<lambda>((ps, ws), _). mentions text_lower ps ws) rules of Some (_, v) \<Rightarrow> v | None \<Rightarrow> z)"

definition profile_of_text :: "string \<Rightarrow> nat \<Rightarrow> parsed_resume" where
  "profile_of_text extracted n =
     (let t = lower extracted in
      \<lparr>pr_full_name = None, pr_email = None, pr_phone = None,
       pr_location = Some (pick_rule t location_rules ''Remote''),
       pr_current_title = Some (pick_rule t title_rules ''Software Engineer''), pr_summary = None,
       pr_years = Some (pick_rule t years_rules 2), pr_extracted_text = extracted,
       pr_skills = take 10 (keyword_skills t), pr_employment = [], pr_education = [], pr_certifications = [],
       pr_languages = [], pr_raw_output = [(''page_count'', JNum (of_nat n))]\<rparr>)"

definition character_limit :: "nat \<Rightarrow> nat" where
  "character_limit configured = min configured max_extracted_text_characters"

definition parse_resume :: "(string \<Rightarrow> pdf_read) \<Rightarrow> nat \<Rightarrow> nat \<Rightarrow> string \<Rightarrow> parse_result" where
  "parse_resume read max_pages max_characters content =
     (case read content of
        PdfBroken \<Rightarrow> Rejected invalid_pdf
      | PdfPages pages \<Rightarrow>
          if pages = [] then Rejected (app_error_of ''RESUME_PDF_EMPTY'' ''The resume PDF contains no pages.'' 422)
          else if max_pages < length pages then
            Rejected (app_error_of ''RESUME_PAGE_LIMIT_EXCEEDED'' ''The resume PDF exceeds the allowed page count.'' 422)
          else
            case extract_parts (character_limit max_characters) pages [] 0 of
              Inl e \<Rightarrow> Rejected e
            | Inr parts \<Rightarrow>
                let extracted = strip (join newline_text parts) in
                if extracted = [] then
                  Rejected (app_error_of ''RESUME_TEXT_NOT_FOUND'' ''No readable text could be extracted from the resume PDF.'' 422)
                else case validate_parsed (profile_of_text extracted (length pages)) of
                       Some p \<Rightarrow> Parsed p | None \<Rightarrow> Crashed)"

text \<open>What the executors hand to the service.\<close>

definition inline_parse :: "parse_result \<Rightarrow> parse_outcome" where
  "inline_parse r = (case r of Parsed p \<Rightarrow> ParsedAs p | Rejected e \<Rightarrow> ParseRejected e | Crashed \<Rightarrow> ParseCrashed)"

definition bounded_parse :: "bool \<Rightarrow> parse_result \<Rightarrow> parse_outcome" where
  "bounded_parse timed_out r = (if timed_out then ParseCrashed else inline_parse r)"

section \<open>The bounded pool\<close>

text \<open>
  \<open>BoundedThreadResumeParseExecutor\<close>: a semaphore of permits and the worker threads that
  run. A caller that gives up on its worker (a timeout or a cancellation) detaches it and
  defers the release; the permit comes back when the thread has really stopped.
\<close>

record parse_pool =
  pl_permits :: nat
  pl_attached :: "nat list"
  pl_detached :: "nat list"

definition new_pool :: "nat \<Rightarrow> parse_pool" where
  "new_pool max_concurrency = \<lparr>pl_permits = max_concurrency, pl_attached = [], pl_detached = []\<rparr>"

inductive pool_step :: "parse_pool \<Rightarrow> parse_pool \<Rightarrow> bool" where
  acquire: "\<lbrakk>0 < pl_permits p; k \<notin> set (pl_attached p) \<union> set (pl_detached p)\<rbrakk> \<Longrightarrow>
    pool_step p (p\<lparr>pl_permits := pl_permits p - 1, pl_attached := k # pl_attached p\<rparr>)"
| finish: "k \<in> set (pl_attached p) \<Longrightarrow>
    pool_step p (p\<lparr>pl_permits := Suc (pl_permits p), pl_attached := remove1 k (pl_attached p)\<rparr>)"
| give_up: "k \<in> set (pl_attached p) \<Longrightarrow>
    pool_step p (p\<lparr>pl_attached := remove1 k (pl_attached p), pl_detached := k # pl_detached p\<rparr>)"
| stopped: "k \<in> set (pl_detached p) \<Longrightarrow>
    pool_step p (p\<lparr>pl_permits := Suc (pl_permits p), pl_detached := remove1 k (pl_detached p)\<rparr>)"

inductive pool_reachable :: "nat \<Rightarrow> parse_pool \<Rightarrow> bool" for n where
  start: "pool_reachable n (new_pool n)"
| step: "\<lbrakk>pool_reachable n p; pool_step p p'\<rbrakk> \<Longrightarrow> pool_reachable n p'"

definition pool_inv :: "nat \<Rightarrow> parse_pool \<Rightarrow> bool" where
  "pool_inv n p \<longleftrightarrow> pl_permits p + length (pl_attached p) + length (pl_detached p) = n \<and>
     distinct (pl_attached p @ pl_detached p)"

lemma pool_step_inv: "\<lbrakk>pool_step p p'; pool_inv n p\<rbrakk> \<Longrightarrow> pool_inv n p'"
proof (induction rule: pool_step.induct)
  case (finish k p)
  then have "0 < length (pl_attached p)" by (cases "pl_attached p") auto
  then show ?case using finish by (auto simp: pool_inv_def length_remove1 dest: notin_set_remove1)
next
  case (give_up k p)
  then have "0 < length (pl_attached p)" by (cases "pl_attached p") auto
  then show ?case using give_up by (auto simp: pool_inv_def length_remove1 dest: notin_set_remove1)
next
  case (stopped k p)
  then have "0 < length (pl_detached p)" by (cases "pl_detached p") auto
  then show ?case using stopped by (auto simp: pool_inv_def length_remove1 dest: notin_set_remove1)
qed (auto simp: pool_inv_def)

lemma pool_reachable_inv: "pool_reachable n p \<Longrightarrow> pool_inv n p"
proof (induction rule: pool_reachable.induct)
  case start
  then show ?case by (simp add: pool_inv_def new_pool_def)
qed (rule pool_step_inv)

section \<open>Facts\<close>

lemma length_join_snoc:
  "length (join newline_text (xs @ [y])) = length (join newline_text xs) + (if xs = [] then 0 else 1) + length y"
proof (cases "xs = []")
  case False
  then show ?thesis
  proof (induction xs rule: list_nonempty_induct)
    case (cons x xs)
    then show ?case by (cases xs) (simp_all add: newline_text_def)
  qed (simp add: newline_text_def)
qed simp

lemma extract_parts_sound:
  assumes "extract_parts limit ps parts n = Inr qs" "n = length (join newline_text parts)" "n \<le> limit"
    and "\<forall>q \<in> set parts. q \<noteq> [] \<and> strip q = q"
  shows "length (join newline_text qs) \<le> limit \<and> (\<forall>q \<in> set qs. q \<noteq> [] \<and> strip q = q) \<and> prefix parts qs \<and>
    (\<forall>p \<in> set ps. p \<noteq> PageBroken)"
  using assms
proof (induction limit ps parts n rule: extract_parts.induct)
  case (3 limit t ps parts n)
  let ?p = "strip (opt_text t)"
  show ?case
  proof (cases "?p = []")
    case True
    then have e: "extract_parts limit ps parts n = Inr qs" using 3(3) by simp
    show ?thesis using 3(1)[OF refl True e 3(4-6)] by simp
  next
    case False
    let ?n = "n + (if parts = [] then 0 else 1) + length ?p"
    have len: "?n = length (join newline_text (parts @ [?p]))"
      using 3(4) length_join_snoc[of parts ?p] by simp
    have n: "\<not> limit < ?n" "extract_parts limit ps (parts @ [?p]) ?n = Inr qs"
      using 3(3) False by (auto simp: Let_def split: if_splits)
    have "length (join newline_text qs) \<le> limit \<and> (\<forall>q \<in> set qs. q \<noteq> [] \<and> strip q = q) \<and> prefix (parts @ [?p]) qs \<and>
        (\<forall>p \<in> set ps. p \<noteq> PageBroken)"
      by (rule 3(2)[OF refl False refl n(1) n(2) len]) (use n(1) 3(6) False in auto)
    then show ?thesis by (auto dest: append_prefixD)
  qed
qed auto

lemma pick_rule_cases: "pick_rule t rules z \<in> insert z (snd ` set rules)"
proof (cases "find (\<lambda>((ps, ws), _). mentions t ps ws) rules")
  case (Some x)
  then have "x \<in> set rules" unfolding find_Some_iff by (elim exE conjE) (simp add: nth_mem)
  moreover obtain r v where "x = (r, v)" by fastforce
  ultimately show ?thesis using Some by (force simp: pick_rule_def)
qed (simp add: pick_rule_def)

definition skill_names :: "string list" where "skill_names = map snd skill_keywords"

lemma skill_names_ok: "distinct (map lower skill_names) \<and> list_all (\<lambda>s. constrained 200 s = Some s) skill_names"
  by code_simp

lemma text_rules_ok:
  "list_all (\<lambda>s. constrained 200 s = Some s) (''Remote'' # map snd location_rules)"
  "list_all (\<lambda>s. constrained 200 s = Some s) (''Software Engineer'' # map snd title_rules)"
  by code_simp+

lemma picked_text_ok:
  "opt_constrained 200 (Some (pick_rule t location_rules ''Remote'')) = Some (Some (pick_rule t location_rules ''Remote''))"
  "opt_constrained 200 (Some (pick_rule t title_rules ''Software Engineer'')) = Some (Some (pick_rule t title_rules ''Software Engineer''))"
  using text_rules_ok pick_rule_cases[of t location_rules "''Remote''"] pick_rule_cases[of t title_rules "''Software Engineer''"]
  by (auto simp: opt_constrained_def list_all_iff simp del: list.map)

lemma picked_years: "pick_rule t years_rules 2 \<in> {2, 6, 10}"
  using pick_rule_cases[of t years_rules 2] by (auto simp: years_rules_def)

lemma keyword_skills_sub: "set (take k (keyword_skills t)) \<subseteq> set skill_names"
  "distinct (map lower (take k (keyword_skills t)))"
proof -
  have f: "keyword_skills t = map snd (filter (\<lambda>(kw, _). contains_sub kw t) skill_keywords)" by (simp add: keyword_skills_def)
  have "set (keyword_skills t) \<subseteq> set skill_names" unfolding f skill_names_def by auto
  then show "set (take k (keyword_skills t)) \<subseteq> set skill_names" using set_take_subset by (rule subset_trans[rotated])
  have "distinct (map (lower \<circ> snd) skill_keywords)" using skill_names_ok by (simp add: skill_names_def)
  then have "distinct (map (lower \<circ> snd) (filter P skill_keywords))" for P by (rule distinct_map_filter)
  then show "distinct (map lower (take k (keyword_skills t)))" unfolding f by (simp add: take_map[symmetric] distinct_take)
qed

lemma keyword_skills_valid: "list_constrained 500 (take 10 (keyword_skills t)) = Some (take 10 (keyword_skills t))"
proof -
  let ?ss = "take 10 (keyword_skills t)"
  have c: "constrained 200 s = Some s" if "s \<in> set ?ss" for s
    using keyword_skills_sub(1)[of 10 t] skill_names_ok that by (auto simp: list_all_iff)
  then have "\<forall>s \<in> set ?ss. s \<noteq> [] \<and> strip s = s" using constrainedD by metis
  then have n: "normalize_string_list ?ss = ?ss" by (rule normalize_string_list_fixed[OF keyword_skills_sub(2)])
  have m: "map (constrained 200) ?ss = map Some ?ss" using c by (intro map_cong) auto
  have "those (map Some xs) = Some xs" for xs :: "string list" by (induction xs) auto
  then show ?thesis unfolding list_constrained_def n Let_def m by simp
qed

lemma profile_of_text_valid:
  assumes "strip x = x" "x \<noteq> []" "length x \<le> max_extracted_text_characters"
  shows "validate_parsed (profile_of_text x n) = Some (profile_of_text x n)"
proof -
  have "constrained max_extracted_text_characters x = Some x" using assms by (simp add: constrained_def)
  moreover have "list_constrained k [] = Some []" for k
    by (simp add: list_constrained_def normalize_string_list_def)
  moreover have "years_valid (Some (pick_rule t years_rules 2))" for t
    using picked_years[of t] by (auto simp: years_valid_def)
  ultimately show ?thesis
    by (simp add: validate_parsed_def profile_of_text_def picked_text_ok keyword_skills_valid entries_valid_def
        opt_constrained_def[of _ None] Let_def)
qed

lemma profile_of_text_facts:
  "pr_extracted_text (profile_of_text x n) = x"
  "pr_raw_output (profile_of_text x n) = [(''page_count'', JNum (of_nat n))]"
  "length (pr_skills (profile_of_text x n)) \<le> 10" "distinct (pr_skills (profile_of_text x n))"
  "set (pr_skills (profile_of_text x n)) \<subseteq> snd ` set skill_keywords"
  "pr_years (profile_of_text x n) \<in> {Some 2, Some 6, Some 10}"
proof -
  have "set (take 10 (keyword_skills t)) \<subseteq> snd ` set skill_keywords" "distinct (take 10 (keyword_skills t))" for t
    using keyword_skills_sub[of 10 t] by (simp_all add: skill_names_def distinct_map)
  then show "set (pr_skills (profile_of_text x n)) \<subseteq> snd ` set skill_keywords" "distinct (pr_skills (profile_of_text x n))"
    by (simp_all add: profile_of_text_def Let_def)
  show "pr_years (profile_of_text x n) \<in> {Some 2, Some 6, Some 10}"
    using picked_years[of "lower x"] by (simp add: profile_of_text_def Let_def)
qed (simp_all add: profile_of_text_def Let_def)

section \<open>Properties\<close>

text \<open>C24: what a successful parse guarantees. The document had between one and the allowed number
  of pages and each could be read; the text is non-empty, trimmed, and within both the
  configured and the schema's limit; the skills are at most ten distinct names of the
  keyword table; the years are 2, 6 or 10; the page count is recorded; and a parse of a readable
  document always ends in a result or an expected rejection, never in a crash of the schema.\<close>

theorem parsed_resume_bounded:
  assumes "read content = PdfPages pages"
  shows "parse_resume read max_pages max_chars content \<noteq> Crashed \<and>
    (\<forall>p. parse_resume read max_pages max_chars content = Parsed p \<longrightarrow>
       1 \<le> length pages \<and> length pages \<le> max_pages \<and> (\<forall>q \<in> set pages. q \<noteq> PageBroken) \<and>
       pr_extracted_text p \<noteq> [] \<and> strip (pr_extracted_text p) = pr_extracted_text p \<and>
       length (pr_extracted_text p) \<le> min max_chars 200000 \<and> length (pr_skills p) \<le> 10 \<and>
       distinct (pr_skills p) \<and> set (pr_skills p) \<subseteq> snd ` set skill_keywords \<and>
       pr_years p \<in> {Some 2, Some 6, Some 10} \<and> pr_raw_output p = [(''page_count'', JNum (of_nat (length pages)))])"
proof -
  have ok: "parse_resume read max_pages max_chars content \<noteq> Crashed \<and>
      (\<forall>p. parse_resume read max_pages max_chars content = Parsed p \<longrightarrow>
        1 \<le> length pages \<and> length pages \<le> max_pages \<and> (\<forall>q \<in> set pages. q \<noteq> PageBroken) \<and>
        (\<exists>x. p = profile_of_text x (length pages) \<and> strip x = x \<and> x \<noteq> [] \<and> length x \<le> min max_chars 200000))"
  proof (cases "extract_parts (character_limit max_chars) pages [] 0")
    case (Inl e)
    then show ?thesis by (simp add: parse_resume_def assms)
  next
    case (Inr parts)
    let ?x = "strip (join newline_text parts)"
    note sound = extract_parts_sound[OF Inr]
    have len: "length ?x \<le> min max_chars max_extracted_text_characters" and read: "\<forall>q \<in> set pages. q \<noteq> PageBroken"
      using sound length_strip[of "join newline_text parts"] by (simp_all add: character_limit_def)
    then have "validate_parsed (profile_of_text ?x n) = Some (profile_of_text ?x n)" if "?x \<noteq> []" for n
      using that by (intro profile_of_text_valid) simp_all
    then show ?thesis using len read
      by (auto simp: parse_resume_def assms Inr Let_def Suc_le_eq max_extracted_text_characters_def)
  qed
  show ?thesis
  proof (intro conjI[OF conjunct1[OF ok]] allI impI)
    fix p assume "parse_resume read max_pages max_chars content = Parsed p"
    then obtain x where "1 \<le> length pages \<and> length pages \<le> max_pages \<and> (\<forall>q \<in> set pages. q \<noteq> PageBroken)"
        and p: "p = profile_of_text x (length pages)" and x: "strip x = x \<and> x \<noteq> [] \<and> length x \<le> min max_chars 200000"
      using ok by blast
    then show "1 \<le> length pages \<and> length pages \<le> max_pages \<and> (\<forall>q \<in> set pages. q \<noteq> PageBroken) \<and>
       pr_extracted_text p \<noteq> [] \<and> strip (pr_extracted_text p) = pr_extracted_text p \<and>
       length (pr_extracted_text p) \<le> min max_chars 200000 \<and> length (pr_skills p) \<le> 10 \<and>
       distinct (pr_skills p) \<and> set (pr_skills p) \<subseteq> snd ` set skill_keywords \<and>
       pr_years p \<in> {Some 2, Some 6, Some 10} \<and> pr_raw_output p = [(''page_count'', JNum (of_nat (length pages)))]"
      by (simp only: p profile_of_text_facts) simp
  qed
qed

definition sample_pages :: "string \<Rightarrow> pdf_read" where
  "sample_pages content = PdfPages [PageText None, PageText (Some ''Senior Python engineer'')]"

theorem parsed_resume_bounded_witness:
  "sample_pages ''x'' = PdfPages [PageText None, PageText (Some ''Senior Python engineer'')] \<and>
   parse_resume sample_pages 5 100 ''x'' \<noteq> Crashed \<and>
   (\<exists>p. parse_resume sample_pages 5 100 ''x'' = Parsed p \<and> pr_skills p = [''Python''] \<and> pr_years p = Some 6)"
proof -
  have r: "sample_pages ''x'' = PdfPages [PageText None, PageText (Some ''Senior Python engineer'')]"
    by (simp add: sample_pages_def)
  have "(case parse_resume sample_pages 5 100 ''x'' of Parsed p \<Rightarrow> pr_skills p = [''Python''] \<and> pr_years p = Some 6 | _ \<Rightarrow> False)"
    by code_simp
  then have "\<exists>p. parse_resume sample_pages 5 100 ''x'' = Parsed p \<and> pr_skills p = [''Python''] \<and> pr_years p = Some 6"
    by (auto split: parse_result.splits)
  then show ?thesis using parsed_resume_bounded[where read = sample_pages and content = "''x''" and max_pages = 5 and max_chars = 100, OF r] r by blast
qed

text \<open>No more parser threads run at once than the pool allows, counting the ones whose
  callers have given up; every thread runs once; and no permit is lost: when nothing runs,
  all of them are back.\<close>

theorem parse_pool_bounded:
  assumes "pool_reachable n p"
  shows "length (pl_attached p) + length (pl_detached p) \<le> n \<and> distinct (pl_attached p @ pl_detached p) \<and>
    (pl_attached p = [] \<and> pl_detached p = [] \<longrightarrow> pl_permits p = n) \<and>
    (pl_permits p = 0 \<longleftrightarrow> length (pl_attached p) + length (pl_detached p) = n)"
  using pool_reachable_inv[OF assms] by (auto simp: pool_inv_def)

theorem parse_pool_bounded_witness:
  "\<exists>p. pool_reachable 1 p \<and> pl_detached p = [5] \<and> pl_permits p = 0"
proof -
  have "pool_reachable 1 \<lparr>pl_permits = 0, pl_attached = [5], pl_detached = []\<rparr>"
    using pool_reachable.step[OF pool_reachable.start pool_step.acquire[of "new_pool 1" 5]] by (simp add: new_pool_def)
  from pool_reachable.step[OF this pool_step.give_up[of 5]]
  have r: "pool_reachable 1 \<lparr>pl_permits = 0, pl_attached = [], pl_detached = [5]\<rparr>" by simp
  then show ?thesis using parse_pool_bounded[OF r] by auto
qed

end
