(* ===== verification/QueueLocks.thy ===== *)
theory QueueLocks
  imports Prelude
begin

text \<open>
  Redis as the queue code uses it, and the expiring collection leases
  (\<open>src/app/queue/locks.py\<close>). The server is a dictionary of values with an optional expiry
  in milliseconds; a key whose expiry has passed is absent. \<open>SET NX\<close> and the release script
  are atomic in Redis, so each is one step. \<open>secrets.token_urlsafe\<close> is the argument
  \<open>token\<close>. The contract the collection task relies on is the locale \<open>exclusive_lease\<close>.
\<close>

section \<open>Redis\<close>

type_synonym redis = "(string, string \<times> int option) dict"

definition redis_live :: "int \<Rightarrow> string \<times> int option \<Rightarrow> bool" where
  "redis_live now v = (case snd v of None \<Rightarrow> True | Some expires \<Rightarrow> now \<le> expires)"

definition redis_get :: "redis \<Rightarrow> string \<Rightarrow> int \<Rightarrow> string option" where
  "redis_get r k now = (case dget r k of None \<Rightarrow> None | Some v \<Rightarrow> if redis_live now v then Some (fst v) else None)"

definition redis_set :: "redis \<Rightarrow> string \<Rightarrow> string \<Rightarrow> redis" where
  "redis_set r k v = dset k (v, None) r"

definition redis_set_nx :: "redis \<Rightarrow> string \<Rightarrow> string \<Rightarrow> int \<Rightarrow> int \<Rightarrow> bool \<times> redis" where
  "redis_set_nx r k v ttl_ms now =
     (if redis_get r k now \<noteq> None then (False, r) else (True, dset k (v, Some (now + ttl_ms)) r))"

definition release_script :: "redis \<Rightarrow> string \<Rightarrow> string \<Rightarrow> int \<Rightarrow> bool \<times> redis" where
  "release_script r k token now =
     (if redis_get r k now = Some token then (True, ddel k r) else (False, r))"

section \<open>Leases\<close>

record lease =
  le_key :: string
  le_token :: string
  le_released :: bool

record lock_settings =
  ls_ttl_seconds :: int
  ls_namespace :: string

definition lock_key :: "lock_settings \<Rightarrow> string \<Rightarrow> string" where
  "lock_key s key = ls_namespace s @ '':collection-lock:'' @ key"

definition acquire_lease :: "lock_settings \<Rightarrow> redis \<Rightarrow> string \<Rightarrow> string \<Rightarrow> int \<Rightarrow> lease option \<times> redis" where
  "acquire_lease s r key token now =
     (case redis_set_nx r (lock_key s key) token (ls_ttl_seconds s * 1000) now of
        (False, r') \<Rightarrow> (None, r')
      | (True, r') \<Rightarrow> (Some \<lparr>le_key = lock_key s key, le_token = token, le_released = False\<rparr>, r'))"

definition release_lease :: "redis \<Rightarrow> lease \<Rightarrow> int \<Rightarrow> bool \<times> lease \<times> redis" where
  "release_lease r l now =
     (if le_released l then (False, l, r)
      else case release_script r (le_key l) (le_token l) now of
        (released, r') \<Rightarrow> (released, l\<lparr>le_released := True\<rparr>, r'))"

section \<open>The contract\<close>

text \<open>
  Acquiring succeeds exactly when no live holder exists and then installs the caller for the
  time to live; releasing removes the holder only for the token that holds; nothing else
  changes a key's holder but the passing of its time.
\<close>

datatype ('k, 't) lease_op = AcquireOp 'k 't int | ReleaseOp 'k 't int

fun lease_time :: "('k, 't) lease_op \<Rightarrow> int" where
  "lease_time (AcquireOp _ _ n) = n"
| "lease_time (ReleaseOp _ _ n) = n"

fun lease_step ::
  "('s \<Rightarrow> 'k \<Rightarrow> 't \<Rightarrow> int \<Rightarrow> bool \<times> 's) \<Rightarrow> ('s \<Rightarrow> 'k \<Rightarrow> 't \<Rightarrow> int \<Rightarrow> bool \<times> 's) \<Rightarrow> 's \<Rightarrow> ('k, 't) lease_op \<Rightarrow> bool \<times> 's" where
  "lease_step acq rel s (AcquireOp k t n) = acq s k t n"
| "lease_step acq rel s (ReleaseOp k t n) = rel s k t n"

fun lease_run ::
  "('s \<Rightarrow> 'k \<Rightarrow> 't \<Rightarrow> int \<Rightarrow> bool \<times> 's) \<Rightarrow> ('s \<Rightarrow> 'k \<Rightarrow> 't \<Rightarrow> int \<Rightarrow> bool \<times> 's) \<Rightarrow> 's \<Rightarrow> ('k, 't) lease_op list \<Rightarrow> bool list \<times> 's" where
  "lease_run acq rel s [] = ([], s)"
| "lease_run acq rel s (p # ps) =
     (let (b, s1) = lease_step acq rel s p; (bs, s2) = lease_run acq rel s1 ps in (b # bs, s2))"

locale exclusive_lease =
  fixes acquire :: "'s \<Rightarrow> 'k \<Rightarrow> 't \<Rightarrow> int \<Rightarrow> bool \<times> 's"
    and release :: "'s \<Rightarrow> 'k \<Rightarrow> 't \<Rightarrow> int \<Rightarrow> bool \<times> 's"
    and holder :: "'s \<Rightarrow> 'k \<Rightarrow> int \<Rightarrow> 't option"
    and ttl :: int
  assumes acquire_iff: "fst (acquire s k t now) \<longleftrightarrow> holder s k now = None"
    and acquire_holder: "holder s k now = None \<Longrightarrow> now \<le> u \<Longrightarrow>
      holder (snd (acquire s k t now)) k' u = (if k' = k then (if u \<le> now + ttl then Some t else None) else holder s k' u)"
    and acquire_refused: "holder s k now \<noteq> None \<Longrightarrow> snd (acquire s k t now) = s"
    and release_iff: "fst (release s k t now) \<longleftrightarrow> holder s k now = Some t"
    and release_holder: "now \<le> u \<Longrightarrow> holder (snd (release s k t now)) k' u =
      (if k' = k \<and> holder s k now = Some t then None else holder s k' u)"
begin

lemma acquire_excludes:
  assumes "fst (acquire s k t a)" "a \<le> u" "u \<le> a + ttl"
  shows "holder (snd (acquire s k t a)) k u = Some t"
  using assms acquire_iff acquire_holder by simp

lemma held_through:
  assumes "\<forall>u. b \<le> u \<and> u \<le> e \<longrightarrow> holder s k u = Some t"
    and "\<forall>p \<in> set ops. b \<le> lease_time p \<and> lease_time p \<le> e" "sorted (map lease_time ops)"
    and "\<forall>p \<in> set ops. \<forall>u. p \<noteq> ReleaseOp k t u" "\<forall>p \<in> set ops. lease_time p \<le> c" "b \<le> c"
  shows "\<forall>u. c \<le> u \<and> u \<le> e \<longrightarrow> holder (snd (lease_run acquire release s ops)) k u = Some t"
  using assms
proof (induction ops arbitrary: s b)
  case (Cons p ops)
  let ?s = "snd (lease_step acquire release s p)" and ?n = "lease_time p"
  have held: "holder s k ?n = Some t" using Cons.prems(1,2) by simp
  have "\<forall>u. ?n \<le> u \<and> u \<le> e \<longrightarrow> holder ?s k u = Some t"
  proof (cases p)
    case (AcquireOp k' t' n)
    then show ?thesis
      using held Cons.prems(1,2) acquire_refused[of s k' n t'] acquire_holder[of s k' n _ t' k]
      by (cases "holder s k' n") (auto split: if_splits)
  next
    case (ReleaseOp k' t' n)
    then have "\<not> (k = k' \<and> holder s k' n = Some t')" using held Cons.prems(4) by auto
    then show ?thesis using ReleaseOp Cons.prems(1,2) release_holder[of n _ s k' t' k] by auto
  qed
  then show ?case using Cons.IH[of ?n ?s] Cons.prems by (simp add: split_beta)
qed auto

text \<open>No second worker gets a lease that is live and has not been given back.\<close>

lemma exclusion:
  assumes "fst (acquire s k t a)" "sorted (map lease_time (AcquireOp k t a # mid @ [AcquireOp k t' b]))"
    and "b \<le> a + ttl" "\<forall>p \<in> set mid. \<forall>u. p \<noteq> ReleaseOp k t u"
  shows "\<not> fst (acquire (snd (lease_run acquire release (snd (acquire s k t a)) mid)) k t' b)"
proof -
  have "\<forall>u. a \<le> u \<and> u \<le> a + ttl \<longrightarrow> holder (snd (acquire s k t a)) k u = Some t"
    using acquire_excludes assms(1) by blast
  then have "\<forall>u. b \<le> u \<and> u \<le> a + ttl \<longrightarrow>
      holder (snd (lease_run acquire release (snd (acquire s k t a)) mid)) k u = Some t"
    by (rule held_through) (use assms in \<open>auto simp: sorted_append\<close>)
  then have "holder (snd (lease_run acquire release (snd (acquire s k t a)) mid)) k b = Some t"
    using assms(3) by blast
  then show ?thesis using acquire_iff by simp
qed

end

section \<open>The Redis leases keep the contract\<close>

definition redis_acquire :: "lock_settings \<Rightarrow> redis \<Rightarrow> string \<Rightarrow> string \<Rightarrow> int \<Rightarrow> bool \<times> redis" where
  "redis_acquire cfg r k t now = (case acquire_lease cfg r k t now of (l, r') \<Rightarrow> (l \<noteq> None, r'))"

definition redis_release :: "lock_settings \<Rightarrow> redis \<Rightarrow> string \<Rightarrow> string \<Rightarrow> int \<Rightarrow> bool \<times> redis" where
  "redis_release cfg r k t now =
     (case release_lease r \<lparr>le_key = lock_key cfg k, le_token = t, le_released = False\<rparr> now of (b, _, r') \<Rightarrow> (b, r'))"

lemma redis_get_dset [simp]:
  "redis_get (dset k v r) k' now = (if k' = k then (if redis_live now v then Some (fst v) else None) else redis_get r k' now)"
  by (simp add: redis_get_def dict_simps)

lemma redis_get_ddel [simp]: "redis_get (ddel k r) k' now = (if k' = k then None else redis_get r k' now)"
  by (simp add: redis_get_def dict_simps)

lemma redis_get_expired: "\<lbrakk>redis_get r k now = None; now \<le> u\<rbrakk> \<Longrightarrow> redis_get r k u = None"
  by (auto simp: redis_get_def redis_live_def split: option.splits if_splits)

lemma lock_key_inj [simp]: "lock_key cfg a = lock_key cfg b \<longleftrightarrow> a = b"
  by (simp add: lock_key_def)

interpretation redis_lease: exclusive_lease "redis_acquire cfg" "redis_release cfg"
  "\<lambda>r k now. redis_get r (lock_key cfg k) now" "ls_ttl_seconds cfg * 1000" for cfg
  by unfold_locales
     (auto simp: redis_acquire_def redis_release_def acquire_lease_def release_lease_def redis_set_nx_def
        release_script_def redis_live_def split: option.splits if_splits)

section \<open>Properties\<close>

text \<open>C7: collection of one target never overlaps while a lease lives: once a worker got the
  lease of a key, every later attempt on the key within the time to live is refused,
  whatever other workers acquire or release in between, as long as the owner itself does
  not give the lease back. In particular a slow worker whose lease expired and was taken
  over cannot free its successor's lease.\<close>

theorem lease_mutual_exclusion:
  assumes "fst (redis_acquire cfg r k t a)"
    and "sorted (map lease_time (AcquireOp k t a # mid @ [AcquireOp k t' b]))"
    and "b \<le> a + ls_ttl_seconds cfg * 1000" "\<forall>p \<in> set mid. \<forall>u. p \<noteq> ReleaseOp k t u"
  shows "\<not> fst (redis_acquire cfg
    (snd (lease_run (redis_acquire cfg) (redis_release cfg) (snd (redis_acquire cfg r k t a)) mid)) k t' b)"
  using assms by (rule redis_lease.exclusion)

definition sample_locks :: lock_settings where
  "sample_locks = \<lparr>ls_ttl_seconds = 900, ls_namespace = ''hireandtech''\<rparr>"

theorem lease_mutual_exclusion_witness:
  "\<not> fst (redis_acquire sample_locks (snd (lease_run (redis_acquire sample_locks) (redis_release sample_locks)
     (snd (redis_acquire sample_locks [] ''k'' ''t1'' 0)) [ReleaseOp ''k'' ''t2'' 10, AcquireOp ''k'' ''t3'' 20])) ''k'' ''t4'' 30)"
proof -
  have "fst (redis_acquire sample_locks [] ''k'' ''t1'' 0)" by code_simp
  then show ?thesis by (rule lease_mutual_exclusion) (simp_all add: sample_locks_def)
qed

end
