(* ===== verification/LeaseSpec.thy ===== *)
theory LeaseSpec
  imports QueueLocks
begin

text \<open>
  The abstract specification of the collection leases: a table that keeps, for every target
  key, the owner and the last instant of its lease. Any two providers of the contract
  \<open>exclusive_lease\<close> with the same time to live answer alike (locale \<open>lease_refinement\<close>); with
  the Redis leases of \<open>src/app/queue/locks.py\<close> on one side and the table on the other this is
  the refinement.
\<close>

section \<open>The table\<close>

type_synonym lease_table = "string \<rightharpoonup> string \<times> int"

definition table_holder :: "lease_table \<Rightarrow> string \<Rightarrow> int \<Rightarrow> string option" where
  "table_holder m k now = (case m k of None \<Rightarrow> None | Some (t, until) \<Rightarrow> if now \<le> until then Some t else None)"

definition table_acquire :: "int \<Rightarrow> lease_table \<Rightarrow> string \<Rightarrow> string \<Rightarrow> int \<Rightarrow> bool \<times> lease_table" where
  "table_acquire ttl m k t now =
     (if table_holder m k now = None then (True, m(k \<mapsto> (t, now + ttl))) else (False, m))"

definition table_release :: "lease_table \<Rightarrow> string \<Rightarrow> string \<Rightarrow> int \<Rightarrow> bool \<times> lease_table" where
  "table_release m k t now = (if table_holder m k now = Some t then (True, m(k := None)) else (False, m))"

interpretation table_lease: exclusive_lease "table_acquire ttl" table_release table_holder ttl for ttl
  by unfold_locales (auto simp: table_acquire_def table_release_def table_holder_def split: option.splits if_splits)

section \<open>Two providers of the contract\<close>

locale lease_refinement =
  impl: exclusive_lease acquire release holder ttl + spec: exclusive_lease acquire' release' holder' ttl
  for acquire :: "'s \<Rightarrow> 'k \<Rightarrow> 't \<Rightarrow> int \<Rightarrow> bool \<times> 's" and release :: "'s \<Rightarrow> 'k \<Rightarrow> 't \<Rightarrow> int \<Rightarrow> bool \<times> 's"
    and holder :: "'s \<Rightarrow> 'k \<Rightarrow> int \<Rightarrow> 't option" and ttl :: int
    and acquire' :: "'a \<Rightarrow> 'k \<Rightarrow> 't \<Rightarrow> int \<Rightarrow> bool \<times> 'a" and release' :: "'a \<Rightarrow> 'k \<Rightarrow> 't \<Rightarrow> int \<Rightarrow> bool \<times> 'a"
    and holder' :: "'a \<Rightarrow> 'k \<Rightarrow> int \<Rightarrow> 't option"
begin

definition agree :: "int \<Rightarrow> 's \<Rightarrow> 'a \<Rightarrow> bool" where
  "agree n s m \<longleftrightarrow> (\<forall>k u. n \<le> u \<longrightarrow> holder s k u = holder' m k u)"

lemma step_agrees:
  assumes "agree n s m" "n \<le> lease_time p"
  shows "fst (lease_step acquire release s p) = fst (lease_step acquire' release' m p) \<and>
    agree (lease_time p) (snd (lease_step acquire release s p)) (snd (lease_step acquire' release' m p))"
proof (cases p)
  case (AcquireOp k t a)
  then show ?thesis
    using assms impl.acquire_iff[of s k t a] spec.acquire_iff[of m k t a] impl.acquire_refused[of s k a t]
      spec.acquire_refused[of m k a t] impl.acquire_holder[of s k a _ t] spec.acquire_holder[of m k a _ t]
    by (cases "holder s k a") (auto simp: agree_def)
next
  case (ReleaseOp k t a)
  then show ?thesis
    using assms impl.release_iff[of s k t a] spec.release_iff[of m k t a] impl.release_holder[of a _ s k t]
      spec.release_holder[of a _ m k t]
    by (auto simp: agree_def)
qed

lemma run_agrees:
  assumes "agree n s m" "sorted (map lease_time ops)" "\<forall>p \<in> set ops. n \<le> lease_time p" "n \<le> e" "\<forall>p \<in> set ops. lease_time p \<le> e"
  shows "fst (lease_run acquire release s ops) = fst (lease_run acquire' release' m ops) \<and>
    agree e (snd (lease_run acquire release s ops)) (snd (lease_run acquire' release' m ops))"
  using assms
proof (induction ops arbitrary: n s m)
  case (Cons p ops)
  note step = step_agrees[OF Cons.prems(1), of p]
  have "n \<le> lease_time p" using Cons.prems by simp
  then show ?case
    using Cons.IH[of "lease_time p" "snd (lease_step acquire release s p)" "snd (lease_step acquire' release' m p)"] Cons.prems step
    by (simp add: split_beta)
qed (auto simp: agree_def)

end

interpretation redis_refines: lease_refinement "redis_acquire cfg" "redis_release cfg"
  "\<lambda>r k now. redis_get r (lock_key cfg k) now" "ls_ttl_seconds cfg * 1000"
  "table_acquire (ls_ttl_seconds cfg * 1000)" table_release table_holder for cfg
  by unfold_locales

section \<open>Properties\<close>

text \<open>C32: the Redis leases refine the abstract lease table. Whatever the workers acquire and
  release, in the order of their clocks, every call answers as the table does, and afterwards
  every key has the same owner at every later instant, if that was so at the start.\<close>

theorem leases_refine_table:
  assumes "\<forall>k u. n \<le> u \<longrightarrow> redis_get r (lock_key cfg k) u = table_holder m k u"
    and "sorted (map lease_time ops)" "\<forall>p \<in> set ops. n \<le> lease_time p \<and> lease_time p \<le> e" "n \<le> e"
    and "lease_run (redis_acquire cfg) (redis_release cfg) r ops = (answers, r')"
    and "lease_run (table_acquire (ls_ttl_seconds cfg * 1000)) table_release m ops = (answers', m')"
  shows "answers = answers' \<and> (\<forall>k u. e \<le> u \<longrightarrow> redis_get r' (lock_key cfg k) u = table_holder m' k u)"
  using redis_refines.run_agrees[where n = n and cfg = cfg and s = r and m = m and ops = ops and e = e] assms by (simp add: redis_refines.agree_def)

theorem leases_refine_table_witness:
  "fst (lease_run (redis_acquire sample_locks) (redis_release sample_locks) [] [AcquireOp ''k'' ''a'' 0, AcquireOp ''k'' ''b'' 5, ReleaseOp ''k'' ''a'' 9]) =
   [True, False, True]"
proof -
  let ?ops = "[AcquireOp ''k'' ''a'' 0, AcquireOp ''k'' ''b'' 5, ReleaseOp ''k'' ''a'' 9] :: (string, string) lease_op list"
  obtain answers r' where r: "lease_run (redis_acquire sample_locks) (redis_release sample_locks) [] ?ops = (answers, r')"
    by (metis prod.exhaust)
  obtain m' where m: "lease_run (table_acquire (ls_ttl_seconds sample_locks * 1000)) table_release Map.empty ?ops = ([True, False, True], m')"
    by (simp add: table_acquire_def table_release_def table_holder_def sample_locks_def)
  have "\<forall>k u. 0 \<le> u \<longrightarrow> redis_get [] (lock_key sample_locks k) u = table_holder Map.empty k u"
    by (simp add: redis_get_def dget_def table_holder_def)
  from leases_refine_table[OF this _ _ _ r m, of 9] show ?thesis unfolding r by simp
qed

end
