(* ===== verification/Auth.thy ===== *)
theory Auth
  imports Errors
begin

text \<open>
  Authentication and local authorization (\<open>src/app/auth/\<close>, \<open>src/app/domain/profiles.py\<close>,
  \<open>src/app/repositories/profiles.py\<close>). PyJWT is a parameter: reading an unverified header,
  building a key from its JWK, and decoding a token under one key, algorithm, audience and
  issuer. The JWKS document a fetch returns is a parameter of the fetch's time. The two
  regions the verifier guards by its lock are separate steps, so requests interleave
  between them. Clock readings are rationals.
\<close>

section \<open>UUID text\<close>

text \<open>\<open>s.replace(p, '')\<close>.\<close>

function remove_text :: "string \<Rightarrow> string \<Rightarrow> string" where
  "remove_text p s = (if p = [] then s
     else if prefix p s then remove_text p (drop (length p) s)
     else case s of [] \<Rightarrow> [] | c # s' \<Rightarrow> c # remove_text p s')"
  by auto
termination by (relation "measure (length \<circ> snd)") (auto simp: prefix_def)

declare remove_text.simps [simp del]

definition strip_chars :: "string \<Rightarrow> string \<Rightarrow> string" where
  "strip_chars cs s = rev (dropWhile (\<lambda>c. c \<in> set cs) (rev (dropWhile (\<lambda>c. c \<in> set cs) s)))"

text \<open>Digits of \<open>int(s, 16)\<close>: single underscores may stand between digits.\<close>

fun hex_digits :: "bool \<Rightarrow> string \<Rightarrow> nat list option" where
  "hex_digits after_digit [] = (if after_digit then Some [] else None)"
| "hex_digits after_digit (c # s) =
     (if c = CHR ''_'' then (if after_digit then hex_digits False s else None)
      else case hex_value c of None \<Rightarrow> None | Some d \<Rightarrow> map_option ((#) d) (hex_digits True s))"

definition parse_int16 :: "string \<Rightarrow> int option" where
  "parse_int16 s =
     (let t = strip s;
          neg = (t \<noteq> [] \<and> hd t = CHR ''-'');
          u = (if t \<noteq> [] \<and> (hd t = CHR ''-'' \<or> hd t = CHR ''+'') then tl t else t);
          x = (lower (take 2 u) = ''0x'');
          body = (if x then drop 2 u else u);
          body' = (if x \<and> body \<noteq> [] \<and> hd body = CHR ''_'' then tl body else body)
      in map_option (\<lambda>ds. if neg then - int (undigits 16 ds) else int (undigits 16 ds)) (hex_digits False body'))"

definition parse_uuid :: "string \<Rightarrow> nat option" where
  "parse_uuid s =
     (let hex = remove_text ''-'' (strip_chars ''{}'' (remove_text ''uuid:'' (remove_text ''urn:'' s))) in
      if length hex \<noteq> 32 then None
      else case parse_int16 hex of
        None \<Rightarrow> None
      | Some i \<Rightarrow> if 0 \<le> i \<and> i < 2 ^ 128 then Some (nat i) else None)"

section \<open>The key cache\<close>

definition allowed_algorithms :: "string list" where
  "allowed_algorithms = [''ES256'', ''RS256'']"

datatype auth_error = InvalidAccessToken | JwksUnavailable | UnhandledTypeError

record 'k jwt_library =
  jl_header :: "string \<Rightarrow> (string, json) dict option"
  jl_decode :: "string \<Rightarrow> 'k \<Rightarrow> string \<Rightarrow> string \<Rightarrow> string \<Rightarrow> (string, json) dict option"
  jl_key :: "(string, json) dict \<Rightarrow> 'k option"
  jl_algorithm :: "'k \<Rightarrow> string"

record verifier_settings =
  vs_supabase_url :: "string option"
  vs_audience :: string
  vs_ttl :: rat
  vs_cooldown :: rat

record 'k jwks_cache =
  jc_keys :: "(string, 'k) dict"
  jc_fetched_at :: "rat option"
  jc_last_unknown :: "rat option"

definition empty_cache :: "'k jwks_cache" where
  "empty_cache = \<lparr>jc_keys = [], jc_fetched_at = None, jc_last_unknown = None\<rparr>"

definition jwt_issuer :: "verifier_settings \<Rightarrow> string option" where
  "jwt_issuer vs = map_option (\<lambda>u. u @ ''/auth/v1'') (vs_supabase_url vs)"

definition jwks_url :: "verifier_settings \<Rightarrow> string option" where
  "jwks_url vs = map_option (\<lambda>i. i @ ''/.well-known/jwks.json'') (jwt_issuer vs)"

definition parse_key :: "'k jwt_library \<Rightarrow> json \<Rightarrow> (string \<times> 'k) option" where
  "parse_key lib raw = (case raw of
      JObj o' \<Rightarrow> (case dget o' ''kid'' of
          Some (JStr kid) \<Rightarrow>
            if kid = [] then None
            else (case jl_key lib o' of
                None \<Rightarrow> None
              | Some k \<Rightarrow> if jl_algorithm lib k \<in> set allowed_algorithms then Some (kid, k) else None)
        | _ \<Rightarrow> None)
    | _ \<Rightarrow> None)"

definition parse_keys :: "'k jwt_library \<Rightarrow> (string, json) dict \<Rightarrow> (string, 'k) dict option" where
  "parse_keys lib document = (case dget document ''keys'' of
      Some (JList raw_keys) \<Rightarrow>
        (let keys = fold (\<lambda>raw d. case parse_key lib raw of None \<Rightarrow> d | Some (kid, k) \<Rightarrow> dset kid k d) raw_keys [] in
         if keys = [] then None else Some keys)
    | _ \<Rightarrow> None)"

text \<open>\<open>fetch\<close> at the time it starts; \<open>later\<close> is the clock when it returned.\<close>

type_synonym fetcher = "rat \<Rightarrow> (string, json) dict option"

definition fetch_keys :: "'k jwt_library \<Rightarrow> fetcher \<Rightarrow> rat \<Rightarrow> rat \<Rightarrow> 'k jwks_cache \<Rightarrow> auth_error option \<times> 'k jwks_cache" where
  "fetch_keys lib fetch now later c =
     (case Option.bind (fetch now) (parse_keys lib) of
        None \<Rightarrow> (Some JwksUnavailable, c)
      | Some keys \<Rightarrow> (None, c\<lparr>jc_keys := keys, jc_fetched_at := Some later\<rparr>))"

definition needs_fetch :: "verifier_settings \<Rightarrow> rat \<Rightarrow> 'k jwks_cache \<Rightarrow> bool" where
  "needs_fetch vs now c \<longleftrightarrow> jc_keys c = [] \<or>
     (case jc_fetched_at c of None \<Rightarrow> True | Some t \<Rightarrow> vs_ttl vs \<le> now - t)"

definition get_cached_keys ::
  "verifier_settings \<Rightarrow> 'k jwt_library \<Rightarrow> fetcher \<Rightarrow> rat \<Rightarrow> rat \<Rightarrow> 'k jwks_cache \<Rightarrow>
   (auth_error + (string, 'k) dict \<times> rat) \<times> 'k jwks_cache" where
  "get_cached_keys vs lib fetch now later c =
     (case (if needs_fetch vs now c then fetch_keys lib fetch now later c else (None, c)) of
        (Some e, c') \<Rightarrow> (Inl e, c')
      | (None, c') \<Rightarrow>
          (case jc_fetched_at c' of
             None \<Rightarrow> (Inl JwksUnavailable, c')
           | Some t \<Rightarrow> (Inr (jc_keys c', t), c')))"

definition may_refresh :: "verifier_settings \<Rightarrow> rat \<Rightarrow> rat \<Rightarrow> 'k jwks_cache \<Rightarrow> bool" where
  "may_refresh vs observed now c \<longleftrightarrow> jc_fetched_at c = Some observed \<and>
     \<not> (case jc_last_unknown c of None \<Rightarrow> False | Some t \<Rightarrow> now - t < vs_cooldown vs)"

definition refresh_for_unknown_key ::
  "verifier_settings \<Rightarrow> 'k jwt_library \<Rightarrow> fetcher \<Rightarrow> rat \<Rightarrow> rat \<Rightarrow> rat \<Rightarrow> 'k jwks_cache \<Rightarrow>
   (auth_error + (string, 'k) dict) \<times> 'k jwks_cache" where
  "refresh_for_unknown_key vs lib fetch observed now later c =
     (if may_refresh vs observed now c then
        (case fetch_keys lib fetch now later (c\<lparr>jc_last_unknown := Some now\<rparr>) of
           (Some e, c') \<Rightarrow> (Inl e, c')
         | (None, c') \<Rightarrow> (Inr (jc_keys c'), c'))
      else (Inr (jc_keys c), c))"

section \<open>Verification\<close>

record claims =
  vc_subject :: nat
  vc_email :: "string option"
  vc_session :: "string option"
  vc_role :: "string option"

definition json_str :: "json option \<Rightarrow> string option" where
  "json_str v = (case v of Some (JStr s) \<Rightarrow> Some s | _ \<Rightarrow> None)"

text \<open>The header's algorithm and key identifier. Testing an unhashable algorithm (a list or an
  object) for membership raises a \<open>TypeError\<close> nobody handles.\<close>

definition token_header :: "'k jwt_library \<Rightarrow> string \<Rightarrow> auth_error + string \<times> string" where
  "token_header lib token = (case jl_header lib token of
      None \<Rightarrow> Inl InvalidAccessToken
    | Some h \<Rightarrow> (case dget h ''alg'' of
          Some (JList _) \<Rightarrow> Inl UnhandledTypeError
        | Some (JObj _) \<Rightarrow> Inl UnhandledTypeError
        | Some (JStr alg) \<Rightarrow>
            (case dget h ''kid'' of
               Some (JStr kid) \<Rightarrow>
                 if alg \<notin> set allowed_algorithms \<or> kid = [] then Inl InvalidAccessToken else Inr (alg, kid)
             | _ \<Rightarrow> Inl InvalidAccessToken)
        | _ \<Rightarrow> Inl InvalidAccessToken))"

definition claims_of :: "(string, json) dict \<Rightarrow> claims option" where
  "claims_of raw = (case json_str (dget raw ''sub'') of
      None \<Rightarrow> None
    | Some s \<Rightarrow> map_option (\<lambda>u. \<lparr>vc_subject = u, vc_email = json_str (dget raw ''email''),
        vc_session = json_str (dget raw ''session_id''), vc_role = json_str (dget raw ''role'')\<rparr>) (parse_uuid s))"

text \<open>The two lock regions of one verification, then the checks that need no lock.\<close>

definition find_signing_key ::
  "verifier_settings \<Rightarrow> 'k jwt_library \<Rightarrow> fetcher \<Rightarrow> rat \<times> rat \<Rightarrow> rat \<times> rat \<Rightarrow> string \<Rightarrow> 'k jwks_cache \<Rightarrow>
   (auth_error + 'k option) \<times> 'k jwks_cache" where
  "find_signing_key vs lib fetch first second kid c =
     (case get_cached_keys vs lib fetch (fst first) (snd first) c of
        (Inl e, c1) \<Rightarrow> (Inl e, c1)
      | (Inr (keys, t), c1) \<Rightarrow>
          (case dget keys kid of
             Some k \<Rightarrow> (Inr (Some k), c1)
           | None \<Rightarrow>
               (case refresh_for_unknown_key vs lib fetch t (fst second) (snd second) c1 of
                  (Inl e, c2) \<Rightarrow> (Inl e, c2)
                | (Inr keys2, c2) \<Rightarrow> (Inr (dget keys2 kid), c2))))"

definition check_token ::
  "verifier_settings \<Rightarrow> 'k jwt_library \<Rightarrow> string \<Rightarrow> string \<Rightarrow> 'k option \<Rightarrow> auth_error + claims" where
  "check_token vs lib token alg signing_key = (case (signing_key, jwt_issuer vs) of
      (Some k, Some issuer) \<Rightarrow>
        if jl_algorithm lib k \<noteq> alg then Inl InvalidAccessToken
        else (case Option.bind (jl_decode lib token k alg (vs_audience vs) issuer) claims_of of
          None \<Rightarrow> Inl InvalidAccessToken
        | Some cl \<Rightarrow> Inr cl)
    | _ \<Rightarrow> Inl InvalidAccessToken)"

definition verify_token ::
  "verifier_settings \<Rightarrow> 'k jwt_library \<Rightarrow> fetcher \<Rightarrow> rat \<times> rat \<Rightarrow> rat \<times> rat \<Rightarrow> string \<Rightarrow> 'k jwks_cache \<Rightarrow>
   (auth_error + claims) \<times> 'k jwks_cache" where
  "verify_token vs lib fetch first second token c =
     (if vs_supabase_url vs = None then (Inl JwksUnavailable, c)
      else case token_header lib token of
        Inl e \<Rightarrow> (Inl e, c)
      | Inr (alg, kid) \<Rightarrow>
          (case find_signing_key vs lib fetch first second kid c of
             (Inl e, c') \<Rightarrow> (Inl e, c')
           | (Inr k, c') \<Rightarrow> (check_token vs lib token alg k, c')))"

section \<open>Profiles and dependencies\<close>

datatype profile_role = EMPLOYEE | ADMIN

record profile =
  pf_id :: nat
  pf_auth_user :: nat
  pf_email :: string
  pf_role :: profile_role
  pf_active :: bool
  pf_created_at :: int

definition normalize_email :: "string \<Rightarrow> string option" where
  "normalize_email v = (let n = lower (strip v) in if n = [] \<or> length n > 320 then None else Some n)"

definition get_by_auth_user :: "profile list \<Rightarrow> nat \<Rightarrow> profile option" where
  "get_by_auth_user ps u = List.find (\<lambda>p. pf_auth_user p = u) ps"

definition unauthenticated :: app_error where
  "unauthenticated = (app_error_of ''UNAUTHENTICATED'' ''Authentication required.'' 401)
     \<lparr>ae_headers := Some [(''WWW-Authenticate'', ''Bearer'')]\<rparr>"

definition authentication_unavailable :: app_error where
  "authentication_unavailable = app_error_of ''AUTHENTICATION_UNAVAILABLE'' ''Authentication is temporarily unavailable.'' 503"

definition forbidden :: app_error where
  "forbidden = app_error_of ''FORBIDDEN'' ''Access is not permitted.'' 403"

record credentials =
  cd_scheme :: string
  cd_token :: string

definition auth_exception :: "auth_error \<Rightarrow> py_exception" where
  "auth_exception e = (case e of
      InvalidAccessToken \<Rightarrow> Application unauthenticated
    | JwksUnavailable \<Rightarrow> Application authentication_unavailable
    | UnhandledTypeError \<Rightarrow> Unexpected ''TypeError'')"

definition get_verified_claims ::
  "(string \<Rightarrow> 'c \<Rightarrow> (auth_error + claims) \<times> 'c) option \<Rightarrow> credentials option \<Rightarrow> 'c \<Rightarrow> (py_exception + claims) \<times> 'c" where
  "get_verified_claims verifier credentials_opt c = (case verifier of
      None \<Rightarrow> (Inl (Application authentication_unavailable), c)
    | Some verify \<Rightarrow>
        (case credentials_opt of
           None \<Rightarrow> (Inl (Application unauthenticated), c)
         | Some cd \<Rightarrow>
             if lower (cd_scheme cd) \<noteq> ''bearer'' then (Inl (Application unauthenticated), c)
             else (case verify (cd_token cd) c of
                 (Inl e, c') \<Rightarrow> (Inl (auth_exception e), c')
               | (Inr cl, c') \<Rightarrow> (Inr cl, c'))))"

definition current_profile :: "profile list \<Rightarrow> claims \<Rightarrow> py_exception + profile" where
  "current_profile ps cl = (case get_by_auth_user ps (vc_subject cl) of
      None \<Rightarrow> Inl (Application forbidden)
    | Some p \<Rightarrow> if pf_active p then Inr p else Inl (Application forbidden))"

definition require_admin :: "profile \<Rightarrow> py_exception + profile" where
  "require_admin p = (if pf_role p = ADMIN then Inr p else Inl (Application forbidden))"

text \<open>The dependency chain of an endpoint, without and with the administrator check.\<close>

definition authorize ::
  "bool \<Rightarrow> (string \<Rightarrow> 'c \<Rightarrow> (auth_error + claims) \<times> 'c) option \<Rightarrow> profile list \<Rightarrow> credentials option \<Rightarrow> 'c \<Rightarrow>
   (py_exception + profile) \<times> 'c" where
  "authorize admin_only verifier ps credentials_opt c =
     (case get_verified_claims verifier credentials_opt c of
        (Inl e, c') \<Rightarrow> (Inl e, c')
      | (Inr cl, c') \<Rightarrow>
          (case current_profile ps cl of
             Inl e \<Rightarrow> (Inl e, c')
           | Inr p \<Rightarrow> (if admin_only then require_admin p else Inr p, c')))"

section \<open>Lemmas\<close>

definition cache_wf :: "'k jwt_library \<Rightarrow> 'k jwks_cache \<Rightarrow> bool" where
  "cache_wf lib c \<longleftrightarrow> (\<forall>(kid, k) \<in> set (jc_keys c). kid \<noteq> [] \<and> jl_algorithm lib k \<in> set allowed_algorithms)"

lemma parse_key_ok: "parse_key lib raw = Some (kid, k) \<Longrightarrow> kid \<noteq> [] \<and> jl_algorithm lib k \<in> set allowed_algorithms"
  by (auto simp: parse_key_def split: json.splits option.splits if_splits)

lemma parse_keys_ok: "parse_keys lib doc = Some keys \<Longrightarrow> keys \<noteq> [] \<and>
   (\<forall>(kid, k) \<in> set keys. kid \<noteq> [] \<and> jl_algorithm lib k \<in> set allowed_algorithms)"
proof -
  define P where "P e \<longleftrightarrow> (case e of (kid :: string, k) \<Rightarrow> kid \<noteq> [] \<and> jl_algorithm lib k \<in> set allowed_algorithms)" for e
  define put where put: "put = (\<lambda>raw d. case parse_key lib raw of None \<Rightarrow> d | Some (kid, k) \<Rightarrow> dset kid k d)"
  have step: "\<forall>e \<in> set (put raw d). P e" if "\<forall>e \<in> set d. P e" for raw d
  proof (cases "parse_key lib raw")
    case None
    then show ?thesis using that by (simp add: put)
  next
    case (Some p)
    obtain kid k where p: "p = (kid, k)" by fastforce
    have "P (kid, k)" using parse_key_ok[of lib raw kid k] Some p by (simp add: P_def)
    then show ?thesis using that set_dset[of _ kid k d] Some p by (auto simp: put)
  qed
  have all: "\<forall>e \<in> set (fold put raws d). P e" if "\<forall>e \<in> set d. P e" for raws d
    using that
  proof (induction raws arbitrary: d)
    case (Cons raw raws)
    show ?case using Cons.IH[OF step[OF Cons.prems, of raw]] by simp
  qed simp
  assume "parse_keys lib doc = Some keys"
  then obtain raws where "keys = fold put raws []" "keys \<noteq> []"
    unfolding put by (auto simp: parse_keys_def Let_def split: option.splits json.splits if_splits)
  then show ?thesis using all[of "[]" raws] by (auto simp: P_def)
qed

lemma fetch_keys_wf:
  "\<lbrakk>cache_wf lib c; fetch_keys lib fetch now later c = (e, c')\<rbrakk> \<Longrightarrow> cache_wf lib c' \<and> (e = None \<longrightarrow> jc_keys c' \<noteq> [] \<and> jc_fetched_at c' = Some later) \<and>
     (e \<noteq> None \<longrightarrow> c' = c) \<and> jc_last_unknown c' = jc_last_unknown c"
  by (cases "fetch now") (auto simp: fetch_keys_def cache_wf_def dest!: parse_keys_ok split: option.splits)

lemma cached_keys_wf:
  assumes "cache_wf lib c" "get_cached_keys vs lib fetch now later c = (r, c')"
  shows "cache_wf lib c' \<and> (\<forall>keys t. r = Inr (keys, t) \<longrightarrow> keys = jc_keys c' \<and> jc_fetched_at c' = Some t)"
proof (cases "needs_fetch vs now c")
  case True
  obtain e c1 where f: "fetch_keys lib fetch now later c = (e, c1)" by fastforce
  then show ?thesis using fetch_keys_wf[OF assms(1) f] assms(2) True
    by (auto simp: get_cached_keys_def split: option.splits)
next
  case False
  then show ?thesis using assms by (auto simp: get_cached_keys_def split: option.splits)
qed

lemma cache_wf_unknown [simp]: "cache_wf lib (c\<lparr>jc_last_unknown := t\<rparr>) = cache_wf lib c"
  by (simp add: cache_wf_def)

lemma refresh_wf:
  assumes "cache_wf lib c" "refresh_for_unknown_key vs lib fetch obs now later c = (r, c')"
  shows "cache_wf lib c' \<and> (\<forall>keys. r = Inr keys \<longrightarrow> keys = jc_keys c')"
proof (cases "may_refresh vs obs now c")
  case True
  obtain e c1 where f: "fetch_keys lib fetch now later (c\<lparr>jc_last_unknown := Some now\<rparr>) = (e, c1)" by fastforce
  then show ?thesis using fetch_keys_wf[OF _ f] assms True
    by (auto simp: refresh_for_unknown_key_def split: option.splits)
next
  case False
  then show ?thesis using assms by (auto simp: refresh_for_unknown_key_def)
qed

lemma signing_key_cached:
  assumes "cache_wf lib c" "find_signing_key vs lib fetch f s kid c = (r, c')"
  shows "cache_wf lib c' \<and> (\<forall>k. r = Inr (Some k) \<longrightarrow> dget (jc_keys c') kid = Some k)"
proof -
  obtain r1 c1 where g: "get_cached_keys vs lib fetch (fst f) (snd f) c = (r1, c1)" by fastforce
  note w1 = cached_keys_wf[OF assms(1) g]
  show ?thesis
  proof (cases r1)
    case (Inl e)
    then show ?thesis using assms(2) g w1 by (auto simp: find_signing_key_def)
  next
    case (Inr p)
    obtain keys t where p: "p = (keys, t)" by fastforce
    show ?thesis
    proof (cases "dget keys kid")
      case (Some k)
      then show ?thesis using assms(2) g w1 Inr p by (auto simp: find_signing_key_def)
    next
      case None
      obtain r2 c2 where u: "refresh_for_unknown_key vs lib fetch t (fst s) (snd s) c1 = (r2, c2)" by fastforce
      have "cache_wf lib c1" using w1 by simp
      from refresh_wf[OF this u] show ?thesis using assms(2) g Inr p None u
        by (auto simp: find_signing_key_def split: sum.splits)
    qed
  qed
qed

definition proven :: "verifier_settings \<Rightarrow> 'k jwt_library \<Rightarrow> 'k jwks_cache \<Rightarrow> string \<Rightarrow> claims \<Rightarrow> bool" where
  "proven vs lib c token cl \<longleftrightarrow> (\<exists>alg kid k issuer raw. token_header lib token = Inr (alg, kid) \<and> alg \<in> set allowed_algorithms \<and>
     dget (jc_keys c) kid = Some k \<and> jl_algorithm lib k = alg \<and> jwt_issuer vs = Some issuer \<and>
     jl_decode lib token k alg (vs_audience vs) issuer = Some raw \<and> claims_of raw = Some cl)"

lemma token_header_ok: "token_header lib token = Inr (alg, kid) \<Longrightarrow> alg \<in> set allowed_algorithms"
  by (auto simp: token_header_def split: option.splits json.splits if_splits)

lemma verify_proves:
  assumes "cache_wf lib c" "verify_token vs lib fetch f s token c = (r, c')"
  shows "cache_wf lib c' \<and> (\<forall>cl. r = Inr cl \<longrightarrow> proven vs lib c' token cl)"
proof (cases "vs_supabase_url vs = None")
  case True
  then show ?thesis using assms by (auto simp: verify_token_def)
next
  case url: False
  show ?thesis
  proof (cases "token_header lib token")
    case (Inl e)
    then show ?thesis using assms url by (auto simp: verify_token_def)
  next
    case (Inr h)
    obtain alg kid where h: "h = (alg, kid)" by fastforce
    obtain rk c1 where k: "find_signing_key vs lib fetch f s kid c = (rk, c1)" by fastforce
    note w = signing_key_cached[OF assms(1) k]
    show ?thesis
    proof (cases rk)
      case (Inl e)
      then show ?thesis using assms(2) url Inr h k w \<open>token_header lib token = Inr h\<close> by (auto simp: verify_token_def)
    next
      case (Inr ko)
      have "r = check_token vs lib token alg ko" "c' = c1"
        using assms(2) url h k Inr \<open>token_header lib token = Inr h\<close> by (auto simp: verify_token_def)
      then show ?thesis using w Inr token_header_ok[of lib token alg kid] h \<open>token_header lib token = Inr h\<close>
        by (auto simp: check_token_def proven_def bind_eq_Some_conv split: option.splits if_splits)
    qed
  qed
qed

lemma get_by_auth_user_SomeD: "get_by_auth_user ps u = Some p \<Longrightarrow> p \<in> set ps \<and> pf_auth_user p = u"
  by (auto simp: get_by_auth_user_def find_Some_iff)

section \<open>Interleaved lock regions\<close>

datatype cache_event = Lookup rat rat | UnknownKey rat rat rat

fun event_times :: "cache_event \<Rightarrow> rat \<times> rat" where
  "event_times (Lookup now later) = (now, later)"
| "event_times (UnknownKey obs now later) = (now, later)"

fun cache_event_step ::
  "verifier_settings \<Rightarrow> 'k jwt_library \<Rightarrow> fetcher \<Rightarrow> cache_event \<Rightarrow> 'k jwks_cache \<Rightarrow> nat \<times> 'k jwks_cache" where
  "cache_event_step vs lib fetch (Lookup now later) c =
     (if needs_fetch vs now c then 1 else 0, snd (get_cached_keys vs lib fetch now later c))"
| "cache_event_step vs lib fetch (UnknownKey obs now later) c =
     (if may_refresh vs obs now c then 1 else 0, snd (refresh_for_unknown_key vs lib fetch obs now later c))"

fun fetches_made :: "verifier_settings \<Rightarrow> 'k jwt_library \<Rightarrow> fetcher \<Rightarrow> cache_event list \<Rightarrow> 'k jwks_cache \<Rightarrow> nat" where
  "fetches_made vs lib fetch [] c = 0"
| "fetches_made vs lib fetch (e # es) c =
     (case cache_event_step vs lib fetch e c of (n, c') \<Rightarrow> n + fetches_made vs lib fetch es c')"

definition fresh_until :: "verifier_settings \<Rightarrow> rat \<Rightarrow> 'k jwks_cache \<Rightarrow> bool" where
  "fresh_until vs e c \<longleftrightarrow> jc_keys c \<noteq> [] \<and> (\<exists>t. jc_fetched_at c = Some t \<and> e \<le> t + vs_ttl vs)"

lemma fresh_no_fetch: "\<lbrakk>fresh_until vs e c; now < e\<rbrakk> \<Longrightarrow> \<not> needs_fetch vs now c"
  by (auto simp: fresh_until_def needs_fetch_def)

lemma fetch_keeps_fresh:
  assumes "fresh_until vs e c" "e \<le> later + vs_ttl vs" "fetch_keys lib fetch now later c = (r, c')"
  shows "fresh_until vs e c' \<and> jc_last_unknown c' = jc_last_unknown c"
  using assms by (cases "fetch now") (auto simp: fetch_keys_def fresh_until_def dest!: parse_keys_ok split: option.splits)

lemma unknown_refresh:
  assumes "fresh_until vs e c" "e \<le> later + vs_ttl vs" "may_refresh vs obs now c"
  shows "fresh_until vs e (snd (refresh_for_unknown_key vs lib fetch obs now later c)) \<and>
    jc_last_unknown (snd (refresh_for_unknown_key vs lib fetch obs now later c)) = Some now"
proof -
  obtain r c' where f: "fetch_keys lib fetch now later (c\<lparr>jc_last_unknown := Some now\<rparr>) = (r, c')" by fastforce
  have "fresh_until vs e (c\<lparr>jc_last_unknown := Some now\<rparr>)" using assms(1) by (simp add: fresh_until_def)
  from fetch_keeps_fresh[OF this assms(2) f] show ?thesis using f assms(3)
    by (cases r) (auto simp: refresh_for_unknown_key_def)
qed

lemma few_fetches:
  assumes "fresh_until vs (a + vs_cooldown vs) c" "vs_cooldown vs \<le> vs_ttl vs"
    and "\<forall>e \<in> set es. a \<le> fst (event_times e) \<and> fst (event_times e) < a + vs_cooldown vs \<and> fst (event_times e) \<le> snd (event_times e)"
  shows "fetches_made vs lib fetch es c \<le> (case jc_last_unknown c of None \<Rightarrow> 1 | Some t \<Rightarrow> if a \<le> t then 0 else 1)"
  using assms
proof (induction es arbitrary: c)
  case (Cons e es)
  show ?case
  proof (cases e)
    case (Lookup now later)
    then have n: "\<not> needs_fetch vs now c" using fresh_no_fetch Cons.prems(1,3) by fastforce
    then have "snd (get_cached_keys vs lib fetch now later c) = c"
      by (auto simp: get_cached_keys_def split: option.splits)
    then show ?thesis using Cons.IH[OF Cons.prems(1,2)] Cons.prems(3) Lookup n by simp
  next
    case (UnknownKey obs now later)
    have t: "a \<le> now" "now < a + vs_cooldown vs" "now \<le> later" using Cons.prems(3) UnknownKey by auto
    show ?thesis
    proof (cases "may_refresh vs obs now c")
      case False
      then have "cache_event_step vs lib fetch e c = (0, c)" using UnknownKey by (simp add: refresh_for_unknown_key_def)
      then show ?thesis using Cons.IH[OF Cons.prems(1,2)] Cons.prems(3) by simp
    next
      case True
      let ?c = "snd (refresh_for_unknown_key vs lib fetch obs now later c)"
      have u: "fresh_until vs (a + vs_cooldown vs) ?c" "jc_last_unknown ?c = Some now"
        using unknown_refresh[OF Cons.prems(1) _ True, of later lib fetch] t Cons.prems(2) by auto
      have "fetches_made vs lib fetch es ?c \<le> 0" using Cons.IH[OF u(1) Cons.prems(2)] Cons.prems(3) u(2) t by auto
      moreover have "\<not> (case jc_last_unknown c of None \<Rightarrow> False | Some x \<Rightarrow> a \<le> x)"
        using True t by (auto simp: may_refresh_def split: option.splits)
      ultimately show ?thesis using UnknownKey True by (auto split: option.splits)
    qed
  qed
qed (auto split: option.splits)

lemma authorize_cases:
  assumes "authorize admin_only (Some verify) ps cred c = (Inr p, c')"
  obtains cd cl where "cred = Some cd" "lower (cd_scheme cd) = ''bearer''" "verify (cd_token cd) c = (Inr cl, c')"
    "get_by_auth_user ps (vc_subject cl) = Some p" "pf_active p" "admin_only \<longrightarrow> pf_role p = ADMIN"
  using assms
  by (auto simp: authorize_def get_verified_claims_def current_profile_def require_admin_def
      split: option.splits sum.splits prod.splits if_splits)

text \<open>Every refusal is one of the three fixed errors, the unhandled algorithm type apart.\<close>

lemma authorize_failures:
  assumes "authorize admin_only verifier ps cred c = (Inl e, c')"
  shows "e = Application unauthenticated \<or> e = Application forbidden \<or> e = Application authentication_unavailable \<or>
    e = Unexpected ''TypeError''"
  using assms
  by (auto simp: authorize_def get_verified_claims_def current_profile_def require_admin_def auth_exception_def
      split: option.splits sum.splits prod.splits if_splits auth_error.splits)

text \<open>A header whose algorithm is a list is answered as an internal error, not as a bad token.\<close>

lemma list_algorithm_unhandled:
  assumes "jl_header lib token = Some h" "dget h ''alg'' = Some (JList xs)" "vs_supabase_url vs \<noteq> None"
  shows "fst (verify_token vs lib fetch f s token c) = Inl UnhandledTypeError"
  using assms by (simp add: verify_token_def token_header_def)

section \<open>Properties\<close>

text \<open>C4: an endpoint's dependencies yield a profile only for a bearer token whose signature was
  checked with a key of the project's JWKS document, under the one algorithm both the token
  and the key name and which is one of the two allowed, for the configured audience and
  issuer; the profile is the active local one of the token's subject, and for an
  administrator endpoint its local role is administrator, whatever role the token claims.\<close>

theorem access_requires_verified_identity:
  assumes "cache_wf lib c" "authorize admin_only (Some (verify_token vs lib fetch first second)) ps cred c = (Inr p, c')"
  shows "\<exists>cd cl. cred = Some cd \<and> lower (cd_scheme cd) = ''bearer'' \<and> proven vs lib c' (cd_token cd) cl \<and>
    p \<in> set ps \<and> pf_auth_user p = vc_subject cl \<and> pf_active p \<and> (admin_only \<longrightarrow> pf_role p = ADMIN)"
  using assms(2)
proof (cases rule: authorize_cases)
  case (1 cd cl)
  then show ?thesis using verify_proves[OF assms(1) 1(3)] get_by_auth_user_SomeD[OF 1(4)] by blast
qed

definition sample_subject :: string where
  "sample_subject = ''00000000-0000-0000-0000-00000000000a''"

definition sample_jwt :: "string jwt_library" where
  "sample_jwt = \<lparr>jl_header = (\<lambda>t. Some [(''alg'', JStr ''RS256''), (''kid'', JStr ''k1'')]),
     jl_decode = (\<lambda>t k alg aud iss. if k = ''key'' \<and> iss = ''https://p.co/auth/v1'' then Some [(''sub'', JStr sample_subject)] else None),
     jl_key = (\<lambda>o'. Some ''key''), jl_algorithm = (\<lambda>k. ''RS256'')\<rparr>"

definition sample_verifier :: verifier_settings where
  "sample_verifier = \<lparr>vs_supabase_url = Some ''https://p.co'', vs_audience = ''authenticated'', vs_ttl = 600, vs_cooldown = 60\<rparr>"

definition sample_jwks :: fetcher where
  "sample_jwks t = Some [(''keys'', JList [JObj [(''kid'', JStr ''k1'')]])]"

definition sample_admin :: profile where
  "sample_admin = \<lparr>pf_id = 1, pf_auth_user = 10, pf_email = ''a@b.c'', pf_role = ADMIN, pf_active = True, pf_created_at = 0\<rparr>"

definition sample_credentials :: credentials where
  "sample_credentials = \<lparr>cd_scheme = ''Bearer'', cd_token = ''t''\<rparr>"

lemma sample_authorized:
  "fst (authorize True (Some (verify_token sample_verifier sample_jwt sample_jwks (0, 1) (2, 3))) [sample_admin]
     (Some sample_credentials) empty_cache) = Inr sample_admin"
  by code_simp

theorem access_requires_verified_identity_witness:
  "\<exists>c' cl. proven sample_verifier sample_jwt c' ''t'' cl \<and> vc_subject cl = 10"
proof -
  let ?run = "authorize True (Some (verify_token sample_verifier sample_jwt sample_jwks (0, 1) (2, 3))) [sample_admin]
     (Some sample_credentials) empty_cache"
  have wf: "cache_wf sample_jwt empty_cache" by (simp add: cache_wf_def empty_cache_def)
  have run: "?run = (Inr sample_admin, snd ?run)" using sample_authorized by (metis prod.collapse)
  show ?thesis using access_requires_verified_identity[OF wf run]
    by (auto simp: sample_credentials_def sample_admin_def)
qed

text \<open>Unknown key identifiers cannot be used to flood the identity provider. While the cached
  keys are fresh, the lock regions of any number of concurrent verifications, in any
  interleaving within one cooldown period, fetch the JWKS document at most once, and not at
  all if a refresh for an unknown key was made in the period already.\<close>

theorem key_refresh_bounded:
  assumes "fresh_until vs (a + vs_cooldown vs) c" "vs_cooldown vs \<le> vs_ttl vs"
    and "\<forall>e \<in> set es. a \<le> fst (event_times e) \<and> fst (event_times e) < a + vs_cooldown vs \<and> fst (event_times e) \<le> snd (event_times e)"
  shows "fetches_made vs lib fetch es c \<le> 1 \<and>
    ((\<exists>t. jc_last_unknown c = Some t \<and> a \<le> t) \<longrightarrow> fetches_made vs lib fetch es c = 0)"
  using few_fetches[OF assms, of lib fetch] by (auto split: option.splits if_splits)

theorem key_refresh_bounded_witness:
  "fetches_made sample_verifier sample_jwt sample_jwks [UnknownKey 0 5 6, Lookup 7 8, UnknownKey 6 9 10, UnknownKey 6 50 51]
     \<lparr>jc_keys = [(''k1'', ''key'')], jc_fetched_at = Some 0, jc_last_unknown = None\<rparr> \<le> 1"
  using key_refresh_bounded[of sample_verifier 0 "\<lparr>jc_keys = [(''k1'', ''key'')], jc_fetched_at = Some 0, jc_last_unknown = None\<rparr>"
      "[UnknownKey 0 5 6, Lookup 7 8, UnknownKey 6 9 10, UnknownKey 6 50 51]" sample_jwt sample_jwks]
  by (simp add: fresh_until_def sample_verifier_def)

end
