(* ===== verification/GlobalJobs.thy ===== *)
theory GlobalJobs
  imports Ingestion JobSearch
begin

text \<open>
  The legacy read model: the table \<open>global_jobs\<close> of \<open>src/app/domain/jobs.py\<close> and its
  repository \<open>src/app/repositories/jobs.py\<close>. A flush that violates a check constraint, a
  column length or the integer range is an error value and leaves the table as it was
  (the caller runs it in a savepoint). The store is an \<open>identity_store\<close> and its search a
  \<open>paged_read\<close>.
\<close>

record global_job =
  gj_id :: nat
  gj_source :: string
  gj_external_id :: string
  gj_title :: string
  gj_normalized_title :: string
  gj_role_family :: string
  gj_company :: "string option"
  gj_location :: "string option"
  gj_url :: "string option"
  gj_description :: "string option"
  gj_salary_text :: "string option"
  gj_employment_type :: "string option"
  gj_remote :: "bool option"
  gj_skills :: "string list"
  gj_posted_at :: "int option"
  gj_experience_min :: "int option"
  gj_experience_max :: "int option"
  gj_experience_text :: "string option"
  gj_first_seen_at :: int
  gj_last_seen_at :: int
  gj_scraped_at :: int
  gj_is_active :: bool
  gj_content_hash :: "string option"

record global_db =
  gd_rows :: "global_job list"
  gd_next :: nat

definition short_opt :: "nat \<Rightarrow> string option \<Rightarrow> bool" where
  "short_opt n v = (case v of None \<Rightarrow> True | Some s \<Rightarrow> length s \<le> n)"

definition int4_opt :: "int option \<Rightarrow> bool" where
  "int4_opt v = (case v of None \<Rightarrow> True | Some i \<Rightarrow> - (2 ^ 31) \<le> i \<and> i < 2 ^ 31)"

definition global_columns_ok :: "global_job \<Rightarrow> bool" where
  "global_columns_ok j \<longleftrightarrow>
     length (gj_source j) \<le> 32 \<and> length (gj_external_id j) \<le> 512 \<and> length (gj_title j) \<le> 500 \<and>
     length (gj_normalized_title j) \<le> 500 \<and> length (gj_role_family j) \<le> 64 \<and>
     short_opt 500 (gj_company j) \<and> short_opt 500 (gj_location j) \<and> short_opt 2048 (gj_url j) \<and>
     short_opt 500 (gj_salary_text j) \<and> short_opt 100 (gj_employment_type j) \<and>
     short_opt 500 (gj_experience_text j) \<and> short_opt 128 (gj_content_hash j) \<and>
     int4_opt (gj_experience_min j) \<and> int4_opt (gj_experience_max j)"

definition global_checks :: "global_job \<Rightarrow> bool" where
  "global_checks j \<longleftrightarrow> nonneg_opt (gj_experience_min j) \<and> nonneg_opt (gj_experience_max j) \<and>
     ordered_opt (gj_experience_min j) (gj_experience_max j)"

datatype global_error = GlobalCheckViolation | GlobalDataError

definition flush_error :: "global_job \<Rightarrow> global_error option" where
  "flush_error j = (if \<not> global_columns_ok j then Some GlobalDataError
     else if \<not> global_checks j then Some GlobalCheckViolation else None)"

section \<open>Repository\<close>

definition global_key :: "global_job \<Rightarrow> string \<times> string" where
  "global_key j = (gj_source j, gj_external_id j)"

definition global_listed :: "string \<Rightarrow> string list \<Rightarrow> global_job \<Rightarrow> bool" where
  "global_listed src ids j \<longleftrightarrow> gj_source j = src \<and> gj_external_id j \<in> set ids"

definition get_existing :: "global_db \<Rightarrow> string \<Rightarrow> string list \<Rightarrow> (string, global_job) dict" where
  "get_existing d src external_ids =
     (let ids = uniq external_ids in
      if ids = [] then []
      else fold (\<lambda>j acc. dset (gj_external_id j) j acc) (filter (global_listed src ids) (gd_rows d)) [])"

definition global_touch_seen :: "global_db \<Rightarrow> string \<Rightarrow> string list \<Rightarrow> int \<Rightarrow> nat \<times> global_db" where
  "global_touch_seen d src external_ids seen_at =
     (let ids = uniq external_ids in
      if ids = [] then (0, d)
      else (length (filter (global_listed src ids) (gd_rows d)),
            d\<lparr>gd_rows := update_where (global_listed src ids)
               (\<lambda>j. j\<lparr>gj_last_seen_at := seen_at, gj_is_active := True\<rparr>) (gd_rows d)\<rparr>))"

definition new_global :: "nat \<Rightarrow> normalized_job \<Rightarrow> int \<Rightarrow> global_job" where
  "new_global i j now =
     \<lparr>gj_id = i, gj_source = nj_source j, gj_external_id = nj_external_id j, gj_title = nj_title j,
      gj_normalized_title = nj_normalized_title j, gj_role_family = nj_role_family j,
      gj_company = nj_company j, gj_location = nj_location j, gj_url = nj_url j,
      gj_description = nj_description j, gj_salary_text = nj_salary_text j,
      gj_employment_type = nj_employment_type j, gj_remote = nj_remote j, gj_skills = nj_skills j,
      gj_posted_at = nj_posted_at j, gj_experience_min = nj_experience_min j,
      gj_experience_max = nj_experience_max j, gj_experience_text = nj_experience_text j,
      gj_first_seen_at = now, gj_last_seen_at = now, gj_scraped_at = now, gj_is_active = True,
      gj_content_hash = Some (nj_content_hash j)\<rparr>"

text \<open>\<open>_merge_values\<close>: texts prefer the incoming one that is not blank, the other optional
  fields keep the old value when the listing has none, field by field.\<close>

definition merge_values :: "global_job \<Rightarrow> normalized_job \<Rightarrow> int \<Rightarrow> global_job" where
  "merge_values e j now = e\<lparr>
     gj_source := nj_source j, gj_external_id := nj_external_id j, gj_title := nj_title j,
     gj_normalized_title := nj_normalized_title j, gj_role_family := nj_role_family j,
     gj_company := prefer_text (nj_company j) (gj_company e),
     gj_location := prefer_text (nj_location j) (gj_location e),
     gj_url := prefer_text (nj_url j) (gj_url e),
     gj_description := prefer_text (nj_description j) (gj_description e),
     gj_salary_text := prefer_text (nj_salary_text j) (gj_salary_text e),
     gj_employment_type := prefer_text (nj_employment_type j) (gj_employment_type e),
     gj_remote := or_else (nj_remote j) (gj_remote e),
     gj_skills := (if nj_skills j = [] then gj_skills e else nj_skills j),
     gj_posted_at := or_else (nj_posted_at j) (gj_posted_at e),
     gj_experience_min := or_else (nj_experience_min j) (gj_experience_min e),
     gj_experience_max := or_else (nj_experience_max j) (gj_experience_max e),
     gj_experience_text := prefer_text (nj_experience_text j) (gj_experience_text e),
     gj_scraped_at := now, gj_last_seen_at := now, gj_is_active := True,
     gj_content_hash := Some (nj_content_hash j)\<rparr>"

datatype upsert_status = INSERTED | UPSERT_UPDATED | SKIPPED

definition find_global :: "global_db \<Rightarrow> string \<times> string \<Rightarrow> global_job option" where
  "find_global d k = List.find (\<lambda>j. global_key j = k) (gd_rows d)"

definition upsert_with_outcome ::
  "global_db \<Rightarrow> normalized_job \<Rightarrow> int \<Rightarrow> global_error + (upsert_status \<times> global_job) \<times> global_db" where
  "upsert_with_outcome d j now =
     (case find_global d (job_key j) of
        None \<Rightarrow>
          (let g = new_global (gd_next d) j now in
           case flush_error g of
             Some e \<Rightarrow> Inl e
           | None \<Rightarrow> Inr ((INSERTED, g), d\<lparr>gd_rows := gd_rows d @ [g], gd_next := Suc (gd_next d)\<rparr>))
      | Some e \<Rightarrow>
          (let g = merge_values e j now;
               st = (if gj_content_hash e = Some (nj_content_hash j) then SKIPPED else UPSERT_UPDATED) in
           case flush_error g of
             Some x \<Rightarrow> Inl x
           | None \<Rightarrow> Inr ((st, g), d\<lparr>gd_rows := update_where (\<lambda>r. gj_id r = gj_id e) (\<lambda>_. g) (gd_rows d)\<rparr>)))"

section \<open>Reads\<close>

definition global_matches :: "job_query \<Rightarrow> global_job \<Rightarrow> bool" where
  "global_matches q j \<longleftrightarrow> gj_is_active j \<and>
     (truthy (q_text q) \<longrightarrow> ilike (Some (gj_title j)) (contains_pattern (q_text q)) \<or>
        ilike (gj_company j) (contains_pattern (q_text q)) \<or>
        ilike (gj_description j) (contains_pattern (q_text q))) \<and>
     (truthy (q_role q) \<longrightarrow> Some (gj_role_family j) = q_role q) \<and>
     (q_roles q \<noteq> [] \<longrightarrow> gj_role_family j \<in> set (q_roles q)) \<and>
     (truthy (q_location q) \<longrightarrow> ilike (gj_location j) (contains_pattern (q_location q))) \<and>
     (q_remote q \<noteq> None \<longrightarrow> gj_remote j = q_remote q) \<and>
     (truthy (q_employment q) \<longrightarrow> ilike (gj_employment_type j) (opt_text (q_employment q)))"

definition global_order :: "global_job \<Rightarrow> (int \<times> int) \<times> int \<times> nat" where
  "global_order j = (posted_key (gj_posted_at j), - gj_last_seen_at j, gj_id j)"

definition global_rows :: "global_db \<Rightarrow> job_query \<Rightarrow> global_job list" where
  "global_rows d q = sort_key global_order (filter (global_matches q) (gd_rows d))"

definition global_search :: "global_db \<Rightarrow> job_query \<Rightarrow> global_job list \<times> nat" where
  "global_search d q =
     (take (q_page_size q) (drop ((q_page q - 1) * q_page_size q) (global_rows d q)),
      length (filter (global_matches q) (gd_rows d)))"

definition global_by_id :: "global_db \<Rightarrow> nat \<Rightarrow> global_job option" where
  "global_by_id d i = List.find (\<lambda>j. gj_id j = i) (gd_rows d)"

record job_stats =
  st_total :: nat
  st_active :: nat
  st_recent :: nat
  st_by_source :: "(string, nat) dict"
  st_by_role :: "(string, nat) dict"

text \<open>\<open>GROUP BY\<close>: the number of rows of every value that occurs.\<close>

definition group_counts :: "('a \<Rightarrow> string) \<Rightarrow> 'a list \<Rightarrow> (string, nat) dict" where
  "group_counts f xs = map (\<lambda>k. (k, length (filter (\<lambda>x. f x = k) xs))) (uniq (map f xs))"

definition global_stats :: "global_db \<Rightarrow> int \<Rightarrow> job_stats" where
  "global_stats d now =
     \<lparr>st_total = length (gd_rows d), st_active = length (filter gj_is_active (gd_rows d)),
      st_recent = length (filter (\<lambda>j. now - day_us \<le> gj_first_seen_at j) (gd_rows d)),
      st_by_source = group_counts gj_source (gd_rows d), st_by_role = group_counts gj_role_family (gd_rows d)\<rparr>"

section \<open>Lemmas\<close>

definition global_wf :: "global_db \<Rightarrow> bool" where
  "global_wf d \<longleftrightarrow> distinct (map global_key (gd_rows d)) \<and> distinct (map gj_id (gd_rows d)) \<and>
     (\<forall>j \<in> set (gd_rows d). gj_id j < gd_next d \<and> global_checks j \<and> global_columns_ok j)"

lemma flush_error_None: "flush_error j = None \<longleftrightarrow> global_columns_ok j \<and> global_checks j"
  by (simp add: flush_error_def)

lemma find_globalD: "find_global d k = Some j \<Longrightarrow> j \<in> set (gd_rows d) \<and> global_key j = k"
  by (auto simp: find_global_def find_Some_iff)

lemma find_global_None: "find_global d k = None \<longleftrightarrow> k \<notin> set (map global_key (gd_rows d))"
  by (auto simp: find_global_def find_None_iff)

lemma merge_values_id [simp]: "gj_id (merge_values e j now) = gj_id e"
  by (simp add: merge_values_def)

lemma merge_values_key [simp]: "global_key (merge_values e j now) = job_key j"
  by (simp add: merge_values_def global_key_def job_key_def)

lemma new_global_simps [simp]: "gj_id (new_global i j now) = i" "global_key (new_global i j now) = job_key j"
  by (simp_all add: new_global_def global_key_def job_key_def)

lemma replace_by_id:
  assumes "distinct (map gj_id rows)" "e \<in> set rows" "gj_id g = gj_id e" "global_key g = global_key e"
  shows "map gj_id (update_where (\<lambda>r. gj_id r = gj_id e) (\<lambda>_. g) rows) = map gj_id rows"
    and "map global_key (update_where (\<lambda>r. gj_id r = gj_id e) (\<lambda>_. g) rows) = map global_key rows"
    and "set (update_where (\<lambda>r. gj_id r = gj_id e) (\<lambda>_. g) rows) \<subseteq> insert g (set rows)"
proof -
  have "r = e" if "r \<in> set rows" "gj_id r = gj_id e" for r
    using assms(1,2) that by (auto simp: distinct_map inj_on_def)
  then show "map global_key (update_where (\<lambda>r. gj_id r = gj_id e) (\<lambda>_. g) rows) = map global_key rows"
    using assms(4) by (auto simp: update_where_def)
  show "map gj_id (update_where (\<lambda>r. gj_id r = gj_id e) (\<lambda>_. g) rows) = map gj_id rows"
    using assms(3) by (auto simp: update_where_def)
qed (auto simp: update_where_def)

lemma upsert_cases:
  assumes "upsert_with_outcome d j now = Inr ((st, g), d')"
  obtains (insert) "find_global d (job_key j) = None" "st = INSERTED" "g = new_global (gd_next d) j now"
      "flush_error g = None" "d' = d\<lparr>gd_rows := gd_rows d @ [g], gd_next := Suc (gd_next d)\<rparr>"
  | (merge) e where "find_global d (job_key j) = Some e" "g = merge_values e j now" "flush_error g = None"
      "st = (if gj_content_hash e = Some (nj_content_hash j) then SKIPPED else UPSERT_UPDATED)"
      "d' = d\<lparr>gd_rows := update_where (\<lambda>r. gj_id r = gj_id e) (\<lambda>_. g) (gd_rows d)\<rparr>"
  using assms by (cases "find_global d (job_key j)")
    (auto simp: upsert_with_outcome_def Let_def split: option.splits)

lemma upsert_wf:
  assumes wf: "global_wf d" and up: "upsert_with_outcome d j now = Inr ((st, g), d')"
  shows "global_wf d' \<and> set (map global_key (gd_rows d')) = insert (job_key j) (set (map global_key (gd_rows d)))"
  using up
proof (cases rule: upsert_cases)
  case insert
  then have "gj_id r \<noteq> gd_next d" if "r \<in> set (gd_rows d)" for r using wf that by (auto simp: global_wf_def)
  then show ?thesis using insert wf
    by (force simp: global_wf_def flush_error_None find_global_None)
next
  case (merge e)
  have e: "e \<in> set (gd_rows d)" "global_key e = job_key j" using find_globalD[OF merge(1)] by auto
  have d: "distinct (map gj_id (gd_rows d))" using wf by (simp add: global_wf_def)
  note r = replace_by_id[OF d e(1), of g]
  have "job_key j \<in> set (map global_key (gd_rows d))" using e by (metis image_eqI set_map)
  then show ?thesis using r merge(2,3,5) e wf
    by (auto simp: global_wf_def flush_error_None insert_absorb)
qed

definition global_put :: "int \<Rightarrow> global_db \<Rightarrow> normalized_job \<Rightarrow> global_error + global_db" where
  "global_put now d j = (case upsert_with_outcome d j now of Inl e \<Rightarrow> Inl e | Inr (_, d') \<Rightarrow> Inr d')"

interpretation global: identity_store "global_put now" job_key "\<lambda>d. map global_key (gd_rows d)" global_wf for now
proof (unfold_locales, goal_cases)
  case (1 d)
  then show ?case by (simp add: global_wf_def)
next
  case (2 d j d')
  then show ?case using upsert_wf by (fastforce simp: global_put_def split: sum.splits prod.splits)
next
  case (3 d j d')
  then show ?case using upsert_wf by (fastforce simp: global_put_def split: sum.splits prod.splits)
qed

lemma global_search_pages:
  "global_search d (q\<lparr>q_page := p, q_page_size := s\<rparr>) = (page_of p s (global_rows d q), length (global_rows d q))"
proof -
  have "global_matches (q\<lparr>q_page := p, q_page_size := s\<rparr>) = global_matches q"
    by (intro ext) (simp add: global_matches_def)
  then show ?thesis by (simp add: global_search_def global_rows_def page_of_def)
qed

interpretation global_pages: paged_read "\<lambda>p s. global_search d (q\<lparr>q_page := p, q_page_size := s\<rparr>)" "global_rows d q" for d q
  by unfold_locales (simp add: global_search_pages)

lemma seen_again [simp]:
  "global_checks (j\<lparr>gj_last_seen_at := t, gj_is_active := True\<rparr>) = global_checks j"
  "global_columns_ok (j\<lparr>gj_last_seen_at := t, gj_is_active := True\<rparr>) = global_columns_ok j"
  "global_key (j\<lparr>gj_last_seen_at := t, gj_is_active := True\<rparr>) = global_key j"
  by (simp_all add: global_checks_def global_columns_ok_def global_key_def)

lemma global_touch_wf:
  "global_wf d \<Longrightarrow> global_wf (snd (global_touch_seen d src ids t)) \<and>
     map global_key (gd_rows (snd (global_touch_seen d src ids t))) = map global_key (gd_rows d)"
proof -
  assume wf: "global_wf d"
  let ?u = "update_where (global_listed src (uniq ids)) (\<lambda>j. j\<lparr>gj_last_seen_at := t, gj_is_active := True\<rparr>) (gd_rows d)"
  have "map global_key ?u = map global_key (gd_rows d)" "map gj_id ?u = map gj_id (gd_rows d)"
    by (auto simp: update_where_def)
  moreover have "\<forall>j \<in> set ?u. gj_id j < gd_next d \<and> global_checks j \<and> global_columns_ok j"
    using wf by (auto simp: update_where_def global_wf_def)
  ultimately show ?thesis using wf by (simp add: global_touch_seen_def global_wf_def Let_def)
qed

text \<open>
  A listing that gives only a minimum above the stored maximum cannot be merged: the merge
  keeps the old maximum, the row would violate the ordering constraint, and the flush fails.
\<close>

lemma stale_maximum_rejected:
  assumes "find_global d (job_key j) = Some e" "gj_experience_max e = Some m" "nj_experience_max j = None"
    and "nj_experience_min j = Some n" "m < n"
  shows "\<exists>x. upsert_with_outcome d j now = Inl x"
proof -
  have "\<not> global_checks (merge_values e j now)"
    using assms(2-) by (simp add: global_checks_def merge_values_def)
  then have "flush_error (merge_values e j now) \<noteq> None" by (simp add: flush_error_None)
  then show ?thesis using assms(1) by (auto simp: upsert_with_outcome_def Let_def)
qed

end
