(* ===== verification/Scheduler.thy ===== *)
theory Scheduler
  imports QueueLocks ResumeModel Normalization
begin

text \<open>
  Collection targets (\<open>src/app/jobs/targets.py\<close>) and the scheduler that turns active
  profiles into queued collections (\<open>src/app/queue/scheduler/collection.py\<close>), with the
  queue health probe (\<open>src/app/queue/health.py\<close>). The hash of a target and ARQ's
  \<open>enqueue_job\<close> are parameters: the queue answers with a new job, with nothing because the
  job identifier is already known, or with an exception.
\<close>

section \<open>Targets\<close>

record target =
  tg_source :: job_source
  tg_query :: string
  tg_location :: "string option"
  tg_enabled :: bool
  tg_max_jobs :: int

definition strip_text :: "string \<Rightarrow> string option" where
  "strip_text v = (let normalized = collapse_ws v in if normalized = [] then None else Some normalized)"

text \<open>The pydantic model: a \<open>ValidationError\<close> is \<open>None\<close>.\<close>

definition make_target :: "job_source \<Rightarrow> string \<Rightarrow> string option \<Rightarrow> bool \<Rightarrow> int \<Rightarrow> target option" where
  "make_target src query location enabled max_jobs =
     (if length query < 1 \<or> length query > 200 \<or>
         (case location of None \<Rightarrow> False | Some l \<Rightarrow> length l > 200) \<or> max_jobs < 1 \<or> max_jobs > 1000 then None
      else case strip_text query of
        None \<Rightarrow> None
      | Some q \<Rightarrow>
          (case location of
             None \<Rightarrow> Some \<lparr>tg_source = src, tg_query = q, tg_location = None, tg_enabled = enabled, tg_max_jobs = max_jobs\<rparr>
           | Some l \<Rightarrow> map_option (\<lambda>l'. \<lparr>tg_source = src, tg_query = q, tg_location = Some l',
                 tg_enabled = enabled, tg_max_jobs = max_jobs\<rparr>) (strip_text l)))"

definition target_text :: "target \<Rightarrow> string" where
  "target_text t = source_str (tg_source t) @ [CHR 0x00] @ lower (tg_query t) @ [CHR 0x00] @ lower (opt_text (tg_location t))"

definition identity_of :: "(string \<Rightarrow> string) \<Rightarrow> target \<Rightarrow> string" where
  "identity_of sha256 t = take 24 (sha256 (target_text t))"

definition default_role_queries :: "string list" where
  "default_role_queries = [''Software Engineer'', ''Backend Engineer'', ''Frontend Engineer'', ''Full Stack Engineer'',
     ''DevOps Engineer'', ''Site Reliability Engineer'', ''Platform Engineer'', ''Cloud Engineer'', ''Data Engineer'',
     ''Data Scientist'', ''Machine Learning Engineer'', ''QA Automation Engineer'', ''Security Engineer'']"

definition default_collection_targets :: "target option list" where
  "default_collection_targets = map (\<lambda>q. make_target DICE q (Some ''United States'') True 100) default_role_queries"

section \<open>Choosing targets\<close>

record schedule_settings =
  sc_enabled :: bool
  sc_targets :: "target list"
  sc_interval_minutes :: "job_source \<Rightarrow> int"
  sc_namespace :: string
  sc_glassdoor_batch :: int
  sc_max_jobs_per_target :: int

text \<open>\<open>setdefault\<close>: the first target of an identity stays.\<close>

definition setdefault :: "'k \<Rightarrow> 'v \<Rightarrow> ('k, 'v) dict \<Rightarrow> ('k, 'v) dict" where
  "setdefault k v d = (if dget d k = None then dset k v d else d)"

definition first_targets :: "(string \<Rightarrow> string) \<Rightarrow> target list \<Rightarrow> (string, target) dict \<Rightarrow> (string, target) dict" where
  "first_targets sha ts d = fold (\<lambda>t acc. if tg_enabled t then setdefault (identity_of sha t) t acc else acc) ts d"

definition enabled_targets :: "(string \<Rightarrow> string) \<Rightarrow> schedule_settings \<Rightarrow> target list" where
  "enabled_targets sha cfg = map snd (first_targets sha (sc_targets cfg) [])"

definition query_sources :: "job_source list" where
  "query_sources = [DICE, LINKEDIN, GLASSDOOR, HIRINGCAFE]"

definition united_states :: string where "united_states = ''United States''"

definition profile_queries :: "candidate_profile \<Rightarrow> string list" where
  "profile_queries p =
     (if truthy (cp_current_title p) then [opt_text (cp_current_title p)] else []) @
     (let top_skills = join '' '' (take 3 (cp_skills p)) in
      if cp_skills p \<noteq> [] \<and> top_skills \<noteq> [] then [top_skills] else [])"

definition profile_location :: "candidate_profile \<Rightarrow> string" where
  "profile_location p = (if truthy (cp_location p) then opt_text (cp_location p) else united_states)"

definition profile_targets :: "candidate_profile \<Rightarrow> target option list" where
  "profile_targets p = concat (map (\<lambda>q. map (\<lambda>src. make_target src q (Some (profile_location p)) True 100) query_sources)
     (profile_queries p))"

definition active_profiles :: "resume list \<Rightarrow> candidate_profile list \<Rightarrow> candidate_profile list" where
  "active_profiles rs ps = filter (\<lambda>p. list_ex (\<lambda>r. re_id r = cp_resume_id p \<and> re_deleted_at r = None \<and> re_status r = PARSED) rs) ps"

text \<open>Without a database the configured targets are used. A profile text that is not a valid
  target raises out of the scheduler: the result is \<open>None\<close>.\<close>

definition dynamic_targets ::
  "(string \<Rightarrow> string) \<Rightarrow> schedule_settings \<Rightarrow> (resume list \<times> candidate_profile list) option \<Rightarrow> target list option" where
  "dynamic_targets sha cfg database = (case database of
      None \<Rightarrow> Some (enabled_targets sha cfg)
    | Some (rs, ps) \<Rightarrow> those (concat (map profile_targets (active_profiles rs ps))))"

definition fallback_targets :: "target list" where
  "fallback_targets = map (\<lambda>src. \<lparr>tg_source = src, tg_query = ''software engineer'', tg_location = Some united_states,
     tg_enabled = True, tg_max_jobs = 100\<rparr>) query_sources"

definition chosen_targets :: "(string \<Rightarrow> string) \<Rightarrow> schedule_settings \<Rightarrow> target list \<Rightarrow> target list" where
  "chosen_targets sha cfg dynamic =
     (let unique = first_targets sha dynamic [] in
      map snd (if unique \<noteq> [] then unique
        else if enabled_targets sha cfg \<noteq> []
        then fold (\<lambda>t acc. setdefault (identity_of sha t) t acc) (enabled_targets sha cfg) []
        else fold (\<lambda>t acc. setdefault (identity_of sha t) t acc) fallback_targets []))"

definition add_group :: "target \<Rightarrow> (job_source, target list) dict \<Rightarrow> (job_source, target list) dict" where
  "add_group t grouped = (let ts = (case dget grouped (tg_source t) of None \<Rightarrow> [] | Some ts \<Rightarrow> ts) in
     dset (tg_source t) (if length ts < 100 then ts @ [t] else ts) grouped)"

definition group_targets :: "target list \<Rightarrow> (job_source, target list) dict" where
  "group_targets ts = fold add_group ts []"

section \<open>Rotation\<close>

text \<open>The stored cursor. Text that is no integer raises inside the \<open>try\<close> and restarts at 0
  without moving the cursor; so does a Redis failure (\<open>redis_ok\<close> false).\<close>

definition parse_int :: "string \<Rightarrow> int option" where
  "parse_int s = (let t = strip s; neg = (t \<noteq> [] \<and> hd t = CHR ''-'');
       body = (if t \<noteq> [] \<and> (hd t = CHR ''-'' \<or> hd t = CHR ''+'') then tl t else t) in
     if body = [] \<or> \<not> list_all is_digit body then None
     else Some (if neg then - int (nat_of_digits body) else int (nat_of_digits body)))"

definition slice_from :: "'a list \<Rightarrow> nat \<Rightarrow> nat \<Rightarrow> 'a list" where
  "slice_from ts start n = map (\<lambda>i. ts ! ((start + i) mod length ts)) [0..<n]"

definition offset_key :: "string \<Rightarrow> string \<Rightarrow> string" where
  "offset_key namespace source_name = namespace @ '':query_offset:'' @ source_name"

definition rotate_queries ::
  "bool \<Rightarrow> redis \<Rightarrow> string \<Rightarrow> target list \<Rightarrow> nat \<Rightarrow> string \<Rightarrow> int \<Rightarrow> target list \<times> redis" where
  "rotate_queries redis_ok r source_name targets batch_size namespace now =
     (if targets = [] \<or> length targets \<le> batch_size then (targets, r)
      else
        let key = offset_key namespace source_name;
            start = (if \<not> redis_ok then None else
              case redis_get r key now of
                None \<Rightarrow> Some 0
              | Some v \<Rightarrow> map_option (\<lambda>i. nat (i mod int (length targets))) (parse_int v))
        in case start of
             None \<Rightarrow> (slice_from targets 0 batch_size, r)
           | Some s \<Rightarrow> (slice_from targets s batch_size,
                        redis_set r key (nat_str ((s + batch_size) mod length targets))))"

section \<open>Scheduling\<close>

record queue_job =
  qj_source :: string
  qj_query :: string
  qj_location :: "string option"
  qj_max_jobs :: int
  qj_id :: string

datatype enqueue_answer = Enqueued | AlreadyQueued | EnqueueFailed

type_synonym 'q enqueuer = "'q \<Rightarrow> queue_job \<Rightarrow> enqueue_answer \<times> 'q"

record schedule_counts =
  sn_enqueued :: nat
  sn_failed :: nat
  sn_unavailable :: nat

definition job_of_target :: "(string \<Rightarrow> string) \<Rightarrow> schedule_settings \<Rightarrow> int \<Rightarrow> target \<Rightarrow> queue_job" where
  "job_of_target sha cfg window t =
     \<lparr>qj_source = source_str (tg_source t), qj_query = tg_query t, qj_location = tg_location t,
      qj_max_jobs = min (tg_max_jobs t) (sc_max_jobs_per_target cfg),
      qj_id = ''collection:'' @ identity_of sha t @ '':'' @ int_str window\<rparr>"

fun enqueue_targets ::
  "'q enqueuer \<Rightarrow> (target \<Rightarrow> queue_job) \<Rightarrow> target list \<Rightarrow> 'q \<Rightarrow> schedule_counts \<Rightarrow> 'q \<times> schedule_counts" where
  "enqueue_targets enq job [] q c = (q, c)"
| "enqueue_targets enq job (t # ts) q c =
     (case enq q (job t) of (a, q') \<Rightarrow>
        enqueue_targets enq job ts q' (case a of
            Enqueued \<Rightarrow> c\<lparr>sn_enqueued := sn_enqueued c + 1\<rparr>
          | AlreadyQueued \<Rightarrow> c
          | EnqueueFailed \<Rightarrow> c\<lparr>sn_failed := sn_failed c + 1\<rparr>))"

definition due_key :: "schedule_settings \<Rightarrow> job_source \<Rightarrow> string" where
  "due_key cfg src = sc_namespace cfg @ '':scheduler:'' @ source_str src"

text \<open>One source. \<open>now\<close> is in milliseconds, as Redis counts; the window is in seconds.\<close>

definition schedule_source ::
  "(string \<Rightarrow> string) \<Rightarrow> schedule_settings \<Rightarrow> (job_source \<Rightarrow> bool) \<Rightarrow> 'q enqueuer \<Rightarrow> bool \<Rightarrow> int \<Rightarrow>
   job_source \<times> target list \<Rightarrow> redis \<times> 'q \<times> schedule_counts \<Rightarrow> redis \<times> 'q \<times> schedule_counts" where
  "schedule_source sha cfg registered enq redis_ok now st w = (case (st, w) of ((src, ts), (r, q, c)) \<Rightarrow>
     (if \<not> registered src then (r, q, c\<lparr>sn_unavailable := sn_unavailable c + length ts\<rparr>)
      else
        let interval = sc_interval_minutes cfg src * 60 in
        (case redis_set_nx r (due_key cfg src) (iso_instant (now * 1000)) (interval * 1000) now of
           (False, r1) \<Rightarrow> (r1, q, c)
         | (True, r1) \<Rightarrow>
             let (active, r2) = (if src = GLASSDOOR \<and> sc_glassdoor_batch cfg > 0
                   then rotate_queries redis_ok r1 (source_str src) ts (nat (sc_glassdoor_batch cfg)) (sc_namespace cfg) now
                   else (ts, r1));
                 window = now div 1000 div interval;
                 (q', c') = enqueue_targets enq (job_of_target sha cfg window) active q c
             in (r2, q', c'))))"

definition schedule_due_collections ::
  "(string \<Rightarrow> string) \<Rightarrow> schedule_settings \<Rightarrow> (job_source \<Rightarrow> bool) \<Rightarrow> 'q enqueuer \<Rightarrow> bool \<Rightarrow> int \<Rightarrow>
   (resume list \<times> candidate_profile list) option \<Rightarrow> redis \<Rightarrow> 'q \<Rightarrow> ((string \<times> schedule_counts) \<times> redis \<times> 'q) option" where
  "schedule_due_collections sha cfg registered enq redis_ok now database r q =
     (let zero = \<lparr>sn_enqueued = 0, sn_failed = 0, sn_unavailable = 0\<rparr> in
      if \<not> sc_enabled cfg then Some ((''disabled'', zero), r, q)
      else case dynamic_targets sha cfg database of
        None \<Rightarrow> None
      | Some dynamic \<Rightarrow>
          (case fold (schedule_source sha cfg registered enq redis_ok now)
                  (group_targets (chosen_targets sha cfg dynamic)) (r, q, zero) of
             (r', q', c) \<Rightarrow> Some ((''completed'', c), r', q')))"

section \<open>Queue health\<close>

datatype health_state = Healthy | Unavailable | Unknown

record queue_health =
  qh_redis :: health_state
  qh_worker :: health_state
  qh_reason :: "string option"

text \<open>The probe's answer: \<open>None\<close> when connecting, the ping or the read raises or times out.\<close>

definition check_queue_health :: "bool \<Rightarrow> string option option \<Rightarrow> queue_health" where
  "check_queue_health configured probe =
     (if \<not> configured then \<lparr>qh_redis = Unknown, qh_worker = Unknown, qh_reason = Some ''Redis is not configured''\<rparr>
      else case probe of
        None \<Rightarrow> \<lparr>qh_redis = Unavailable, qh_worker = Unknown, qh_reason = Some ''Redis probe failed''\<rparr>
      | Some None \<Rightarrow> \<lparr>qh_redis = Healthy, qh_worker = Unknown, qh_reason = Some ''No ARQ worker heartbeat was found''\<rparr>
      | Some (Some _) \<Rightarrow> \<lparr>qh_redis = Healthy, qh_worker = Healthy, qh_reason = None\<rparr>)"

section \<open>Lemmas on rotation\<close>

lemma nat_str_parse: "parse_int (nat_str n) = Some (int n)"
proof -
  have d: "list_all is_digit (nat_str n)" using nat_str_digits by (auto simp: list_all_iff)
  have c: "\<not> is_space c \<and> c \<noteq> CHR ''-'' \<and> c \<noteq> CHR ''+''" if "is_digit c" for c
    using that by (auto simp: is_digit_def is_space_def char_code_def Let_def)
  have "hd (nat_str n) \<in> set (nat_str n)" "last (nat_str n) \<in> set (nat_str n)" by simp_all
  then have h: "is_digit (hd (nat_str n))" "is_digit (last (nat_str n))" using d by (auto simp: list_all_iff)
  then have "strip (nat_str n) = nat_str n" using c by (intro strip_fixed) auto
  then show ?thesis using d c[OF h(1)] by (simp add: parse_int_def Let_def)
qed

definition cursor :: "redis \<Rightarrow> string \<Rightarrow> int \<Rightarrow> nat \<Rightarrow> nat option" where
  "cursor r key now n = (case redis_get r key now of None \<Rightarrow> Some 0
     | Some v \<Rightarrow> map_option (\<lambda>i. nat (i mod int n)) (parse_int v))"

lemma rotate_step:
  assumes "ts \<noteq> []" "b < length ts" "cursor r (offset_key ns src) now (length ts) = Some s"
  shows "rotate_queries True r src ts b ns now =
    (slice_from ts s b, redis_set r (offset_key ns src) (nat_str ((s + b) mod length ts)))"
  using assms by (simp add: rotate_queries_def cursor_def Let_def)

lemma cursor_after:
  "n \<noteq> 0 \<Longrightarrow> cursor (redis_set r key (nat_str (c mod n))) key now n = Some (c mod n)"
  by (simp add: cursor_def redis_set_def redis_live_def nat_str_parse)

fun rotate_run :: "nat \<Rightarrow> redis \<Rightarrow> string \<Rightarrow> target list \<Rightarrow> nat \<Rightarrow> string \<Rightarrow> int \<Rightarrow> target list list" where
  "rotate_run 0 r src ts b ns now = []"
| "rotate_run (Suc k) r src ts b ns now =
     (case rotate_queries True r src ts b ns now of (sel, r') \<Rightarrow> sel # rotate_run k r' src ts b ns now)"

lemma rotate_run_slices:
  assumes "ts \<noteq> []" "b < length ts" "cursor r (offset_key ns src) now (length ts) = Some s"
  shows "rotate_run k r src ts b ns now = map (\<lambda>i. slice_from ts (s + i * b) b) [0..<k]"
  using assms(3)
proof (induction k arbitrary: r s)
  case (Suc k)
  let ?r = "redis_set r (offset_key ns src) (nat_str ((s + b) mod length ts))"
  have "cursor ?r (offset_key ns src) now (length ts) = Some ((s + b) mod length ts)"
    using cursor_after assms(1) by simp
  then have "rotate_run k ?r src ts b ns now = map (\<lambda>i. slice_from ts ((s + b) mod length ts + i * b) b) [0..<k]"
    by (rule Suc.IH)
  also have "\<dots> = map (\<lambda>i. slice_from ts (s + Suc i * b) b) [0..<k]"
  proof (rule map_cong)
    fix i
    have "((s + b) mod length ts + i * b + j) mod length ts = (s + Suc i * b + j) mod length ts" for j
    proof -
      have "((s + b) mod length ts + (i * b + j)) mod length ts = ((s + b) + (i * b + j)) mod length ts"
        by (rule mod_add_left_eq)
      then show ?thesis by (simp add: algebra_simps)
    qed
    then show "slice_from ts ((s + b) mod length ts + i * b) b = slice_from ts (s + Suc i * b) b"
      by (simp only: slice_from_def)
  qed simp
  finally show ?case using rotate_step[OF assms(1,2) Suc.prems]
    by (simp add: map_upt_Suc del: upt_Suc)
qed simp

lemma slices_concat: "concat (map (\<lambda>i. slice_from ts (s + i * b) b) [0..<k]) = slice_from ts s (k * b)"
proof (induction k)
  case (Suc k)
  have "[0..<Suc k * b] = [0..<k * b] @ map (\<lambda>j. k * b + j) [0..<b]"
    using upt_add_eq_append[of 0 "k * b" b] map_add_upt[of "k * b" b] by (simp add: add.commute)
  then show ?case using Suc by (simp add: slice_from_def add.assoc o_def)
qed (simp add: slice_from_def)

lemma slice_covers: "\<lbrakk>ts \<noteq> []; length ts \<le> n\<rbrakk> \<Longrightarrow> set (slice_from ts s n) = set ts"
proof
  assume n: "length ts \<le> n" and ne: "ts \<noteq> []"
  show "set ts \<subseteq> set (slice_from ts s n)"
  proof
    fix x assume "x \<in> set ts"
    then obtain i where i: "i < length ts" "x = ts ! i" by (auto simp: in_set_conv_nth)
    let ?j = "(i + (length ts - s mod length ts)) mod length ts"
    have l: "length ts \<noteq> 0" using i by auto
    have "(s + ?j) mod length ts = (s mod length ts + (i + (length ts - s mod length ts))) mod length ts"
      by (simp add: mod_simps)
    also have "s mod length ts + (i + (length ts - s mod length ts)) = i + length ts"
      using mod_less_divisor[of "length ts" s] l by arith
    finally have "(s + ?j) mod length ts = i" using i by simp
    moreover have "?j < n" using n l by (meson mod_less_divisor order_less_le_trans neq0_conv)
    ultimately show "x \<in> set (slice_from ts s n)" using i by (force simp: slice_from_def)
  qed
  show "set (slice_from ts s n) \<subseteq> set ts"
    using ne by (auto simp: slice_from_def)
qed

lemma slice_positions_distinct:
  fixes n :: nat
  assumes "b \<le> n" "x < b" "y < b" "(s + x) mod n = (s + y) mod n"
  shows "x = y"
proof -
  have "n dvd (s + max x y - (s + min x y))"
    using assms(4) by (subst mod_eq_dvd_iff_nat[symmetric]) (auto simp: max_def min_def)
  moreover have "s + max x y - (s + min x y) < n" using assms(1-3) by (auto simp: max_def min_def)
  ultimately have "s + max x y - (s + min x y) = 0" using nat_dvd_not_less by blast
  then show ?thesis by (auto simp: max_def min_def split: if_splits)
qed

section \<open>Lemmas on scheduling\<close>

text \<open>The queue with a record of what was submitted to it.\<close>

definition recording :: "'q enqueuer \<Rightarrow> ('q \<times> queue_job list) enqueuer" where
  "recording enq w j = (case enq (fst w) j of (a, q') \<Rightarrow> (a, (q', snd w @ [j])))"

lemma enqueue_recorded: "snd (fst (enqueue_targets (recording enq) job ts w c)) = snd w @ map job ts"
  by (induction "recording enq" job ts w c rule: enqueue_targets.induct)
     (auto simp: recording_def split: prod.splits)

lemma mset_positions:
  "\<lbrakk>distinct ps; set ps \<subseteq> {..<length ts}\<rbrakk> \<Longrightarrow> mset (map ((!) ts) ps) \<subseteq># mset ts"
proof -
  assume a: "distinct ps" "set ps \<subseteq> {..<length ts}"
  have "mset ts = image_mset ((!) ts) (mset_set {..<length ts})"
    by (metis map_nth mset_map mset_upt lessThan_atLeast0)
  moreover have "mset ps = mset_set (set ps)" using a(1) by (simp add: mset_set_set)
  ultimately show ?thesis using a(2) by (simp add: image_mset_subseteq_mono subset_imp_msubset_mset_set)
qed

lemma slice_mset: "\<lbrakk>b \<le> length ts; ts \<noteq> []\<rbrakk> \<Longrightarrow> mset (slice_from ts s b) \<subseteq># mset ts"
proof -
  assume a: "b \<le> length ts" "ts \<noteq> []"
  let ?ps = "map (\<lambda>i. (s + i) mod length ts) [0..<b]"
  have "distinct ?ps" using slice_positions_distinct[OF a(1)]
    by (auto simp: distinct_map inj_on_def)
  moreover have "set ?ps \<subseteq> {..<length ts}" using a(2) by auto
  ultimately have "mset (map ((!) ts) ?ps) \<subseteq># mset ts" by (rule mset_positions)
  then show ?thesis by (simp add: slice_from_def o_def)
qed

lemma rotate_mset: "mset (fst (rotate_queries ok r src ts b ns now)) \<subseteq># mset ts"
  using slice_mset[of b ts] by (auto simp: rotate_queries_def Let_def split: option.splits)

lemma keys_differ [simp]: "due_key cfg src \<noteq> offset_key (sc_namespace cfg) n" "offset_key (sc_namespace cfg) n \<noteq> due_key cfg src"
  by (simp_all add: due_key_def offset_key_def)

lemma due_key_inj [simp]: "due_key cfg a = due_key cfg b \<longleftrightarrow> a = b"
  by (cases a; cases b) (simp_all add: due_key_def)

lemma rotate_due: "redis_get (snd (rotate_queries ok r n ts b (sc_namespace cfg) now)) (due_key cfg src) u = redis_get r (due_key cfg src) u"
  by (auto simp: rotate_queries_def redis_set_def Let_def split: option.splits)

definition submitted :: "(string \<Rightarrow> string) \<Rightarrow> schedule_settings \<Rightarrow> int \<Rightarrow> target \<Rightarrow> queue_job" where
  "submitted sha cfg now t = job_of_target sha cfg (now div 1000 div (sc_interval_minutes cfg (tg_source t) * 60)) t"

lemma job_of_target_cong:
  "\<forall>t \<in> set ts. tg_source t = src \<Longrightarrow>
   map (job_of_target sha cfg (now div 1000 div (sc_interval_minutes cfg src * 60))) ts = map (submitted sha cfg now) ts"
  by (simp add: submitted_def)

lemma mset_sources: "\<lbrakk>mset act \<subseteq># mset ts; \<forall>t \<in> set ts. P t\<rbrakk> \<Longrightarrow> \<forall>t \<in> set act. P t"
  by (meson mset_subset_eqD set_mset_mset in_multiset_in_set)

lemma schedule_source_log:
  assumes "schedule_source sha cfg reg (recording enq) ok now (src, ts) (r, w, c) = (r', w', c')"
    and "\<forall>t \<in> set ts. tg_source t = src"
  obtains act where "mset act \<subseteq># mset ts" "snd w' = snd w @ map (submitted sha cfg now) act"
    "act \<noteq> [] \<Longrightarrow> reg src \<and> redis_get r (due_key cfg src) now = None \<and>
       (\<forall>u. now \<le> u \<and> u \<le> now + sc_interval_minutes cfg src * 60 * 1000 \<longrightarrow> redis_get r' (due_key cfg src) u \<noteq> None)"
    "\<And>src' u. src' \<noteq> src \<Longrightarrow> redis_get r' (due_key cfg src') u = redis_get r (due_key cfg src') u"
proof (cases "reg src \<and> redis_get r (due_key cfg src) now = None")
  case False
  then have "w' = w" "r' = r" using assms(1)
    by (auto simp: schedule_source_def redis_set_nx_def Let_def split: if_splits)
  then show thesis using that[of "[]"] by simp
next
  case True
  let ?i = "sc_interval_minutes cfg src * 60"
  define r1 where "r1 = dset (due_key cfg src) (iso_instant (now * 1000), Some (now + ?i * 1000)) r"
  have nx: "redis_set_nx r (due_key cfg src) (iso_instant (now * 1000)) (?i * 1000) now = (True, r1)"
    using True by (simp add: redis_set_nx_def r1_def)
  define sel where "sel = (if src = GLASSDOOR \<and> sc_glassdoor_batch cfg > 0
     then rotate_queries ok r1 (source_str src) ts (nat (sc_glassdoor_batch cfg)) (sc_namespace cfg) now else (ts, r1))"
  have sub: "mset (fst sel) \<subseteq># mset ts" by (simp add: sel_def rotate_mset)
  have due: "redis_get (snd sel) (due_key cfg s') u = redis_get r1 (due_key cfg s') u" for s' u
    by (simp add: sel_def rotate_due)
  have "schedule_source sha cfg reg (recording enq) ok now (src, ts) (r, w, c) =
      (snd sel, enqueue_targets (recording enq) (job_of_target sha cfg (now div 1000 div ?i)) (fst sel) w c)"
    using True unfolding schedule_source_def prod.case Let_def nx bool.case sel_def by (simp add: split_beta)
  then have e: "enqueue_targets (recording enq) (job_of_target sha cfg (now div 1000 div ?i)) (fst sel) w c = (w', c')"
    and r: "r' = snd sel" using assms(1) by auto
  have w: "snd w' = snd w @ map (job_of_target sha cfg (now div 1000 div ?i)) (fst sel)"
    using enqueue_recorded[of enq "job_of_target sha cfg (now div 1000 div ?i)" "fst sel" w c] unfolding e by simp
  show thesis
  proof (rule that[OF sub])
    show "snd w' = snd w @ map (submitted sha cfg now) (fst sel)"
      using w job_of_target_cong mset_sources[OF sub assms(2)] by metis
  qed (use True r due in \<open>auto simp: redis_live_def r1_def\<close>)
qed

lemma schedule_fold_log:
  assumes "fold (schedule_source sha cfg reg (recording enq) ok now) gs (r, w, c) = (r', w', c')"
    and "\<forall>(src, ts) \<in> set gs. \<forall>t \<in> set ts. tg_source t = src" "distinct (map fst gs)"
  shows "\<exists>act. mset act \<subseteq># mset (concat (map snd gs)) \<and> snd w' = snd w @ map (submitted sha cfg now) act \<and>
    (\<forall>t \<in> set act. reg (tg_source t) \<and> redis_get r (due_key cfg (tg_source t)) now = None \<and>
       (\<forall>u. now \<le> u \<and> u \<le> now + sc_interval_minutes cfg (tg_source t) * 60 * 1000 \<longrightarrow>
          redis_get r' (due_key cfg (tg_source t)) u \<noteq> None)) \<and>
    (\<forall>src u. src \<notin> fst ` set gs \<longrightarrow> redis_get r' (due_key cfg src) u = redis_get r (due_key cfg src) u)"
  using assms
proof (induction gs arbitrary: r w c)
  case Nil
  then show ?case by (intro exI[of _ "[]"]) simp
next
  case (Cons g gs)
  obtain src ts where g: "g = (src, ts)" by fastforce
  obtain r1 w1 c1 where st: "schedule_source sha cfg reg (recording enq) ok now (src, ts) (r, w, c) = (r1, w1, c1)"
    by (metis prod_cases3)
  have src: "\<forall>t \<in> set ts. tg_source t = src" using Cons.prems(2) g by simp
  obtain act1 where a1: "mset act1 \<subseteq># mset ts" "snd w1 = snd w @ map (submitted sha cfg now) act1"
    "act1 \<noteq> [] \<Longrightarrow> reg src \<and> redis_get r (due_key cfg src) now = None \<and>
       (\<forall>u. now \<le> u \<and> u \<le> now + sc_interval_minutes cfg src * 60 * 1000 \<longrightarrow> redis_get r1 (due_key cfg src) u \<noteq> None)"
    "\<And>src' u. src' \<noteq> src \<Longrightarrow> redis_get r1 (due_key cfg src') u = redis_get r (due_key cfg src') u"
    using schedule_source_log[OF st src] by blast
  obtain act2 where a2: "mset act2 \<subseteq># mset (concat (map snd gs))" "snd w' = snd w1 @ map (submitted sha cfg now) act2"
    "\<forall>t \<in> set act2. reg (tg_source t) \<and> redis_get r1 (due_key cfg (tg_source t)) now = None \<and>
       (\<forall>u. now \<le> u \<and> u \<le> now + sc_interval_minutes cfg (tg_source t) * 60 * 1000 \<longrightarrow>
          redis_get r' (due_key cfg (tg_source t)) u \<noteq> None)"
    "\<forall>src u. src \<notin> fst ` set gs \<longrightarrow> redis_get r' (due_key cfg src) u = redis_get r1 (due_key cfg src) u"
    using Cons.IH[of r1 w1 c1] Cons.prems st g by auto
  have fresh: "src \<notin> fst ` set gs" using Cons.prems(3) g by simp
  have t1: "\<forall>t \<in> set act1. tg_source t = src" using mset_sources[OF a1(1) src] .
  have t2: "tg_source t \<noteq> src" if "t \<in> set act2" for t
  proof -
    have "t \<in> set (concat (map snd gs))" using mset_sources[OF a2(1)] that by blast
    then obtain s' ts' where "(s', ts') \<in> set gs" "t \<in> set ts'" by auto
    then show ?thesis using Cons.prems(2) fresh by force
  qed
  show ?case
  proof (intro exI[of _ "act1 @ act2"] conjI ballI allI impI)
    show "mset (act1 @ act2) \<subseteq># mset (concat (map snd (g # gs)))"
      using a1(1) a2(1) g by (simp add: subset_mset.add_mono)
    show "snd w' = snd w @ map (submitted sha cfg now) (act1 @ act2)" using a1(2) a2(2) by simp
  next
    fix t assume "t \<in> set (act1 @ act2)"
    then consider (one) "t \<in> set act1" | (two) "t \<in> set act2" by auto
    then have "reg (tg_source t) \<and> redis_get r (due_key cfg (tg_source t)) now = None"
    proof cases
      case one
      then have "act1 \<noteq> []" by auto
      then show ?thesis using a1(3) t1 one by simp
    next
      case two
      then show ?thesis using a2(3) a1(4)[OF t2[OF two]] by metis
    qed
    then show "reg (tg_source t)" "redis_get r (due_key cfg (tg_source t)) now = None" by simp_all
  next
    fix t u assume t: "t \<in> set (act1 @ act2)" and u: "now \<le> u \<and> u \<le> now + sc_interval_minutes cfg (tg_source t) * 60 * 1000"
    show "redis_get r' (due_key cfg (tg_source t)) u \<noteq> None"
    proof (cases "t \<in> set act1")
      case True
      then show ?thesis using a1(3) a2(4) t1 fresh u by (metis empty_iff empty_set)
    next
      case False
      then show ?thesis using a2(3) t u by auto
    qed
  next
    fix s' u assume "s' \<notin> fst ` set (g # gs)"
    then show "redis_get r' (due_key cfg s') u = redis_get r (due_key cfg s') u" using a1(4) a2(4) g by simp
  qed
qed

lemma dict_wf_setdefault [wf_intros]: "dict_wf d \<Longrightarrow> dict_wf (setdefault k v d)"
  by (simp add: setdefault_def dict_wf_dset)

definition keyed :: "(string \<Rightarrow> string) \<Rightarrow> (string, target) dict \<Rightarrow> bool" where
  "keyed sha d \<longleftrightarrow> dict_wf d \<and> (\<forall>(k, t) \<in> set d. k = identity_of sha t)"

lemma keyed_setdefault: "keyed sha d \<Longrightarrow> keyed sha (setdefault (identity_of sha t) t d)"
  using set_dset[of _ "identity_of sha t" t d] by (fastforce simp: keyed_def setdefault_def wf_intros)

lemma keyed_fold: "keyed sha d \<Longrightarrow> keyed sha (fold (\<lambda>t acc. if P t then setdefault (identity_of sha t) t acc else acc) ts d)"
  by (induction ts arbitrary: d) (simp_all add: keyed_setdefault)

lemma keyed_first_targets: "keyed sha (first_targets sha ts [])"
  unfolding first_targets_def by (rule keyed_fold) (simp add: keyed_def dict_wf_Nil)

lemma keyed_distinct: "keyed sha d \<Longrightarrow> distinct (map (identity_of sha) (map snd d))"
proof -
  assume k: "keyed sha d"
  then have "map (identity_of sha) (map snd d) = map fst d" by (auto simp: keyed_def)
  then show ?thesis using k unfolding keyed_def dict_wf_def by (simp only:)
qed

lemma chosen_distinct: "distinct (map (identity_of sha) (chosen_targets sha cfg dyn))"
proof -
  have k: "keyed sha (fold (\<lambda>t acc. setdefault (identity_of sha t) t acc) ts [])" for ts
    using keyed_fold[of sha "[]" "\<lambda>_. True" ts] by (simp add: keyed_def dict_wf_Nil)
  show ?thesis unfolding chosen_targets_def Let_def
    using keyed_distinct[OF keyed_first_targets] keyed_distinct[OF k] by (simp split: if_split)
qed

lemma group_targets_get:
  "dget (group_targets ts) src = (let g = take 100 (filter (\<lambda>t. tg_source t = src) ts) in if g = [] then None else Some g)"
proof (induction ts rule: rev_induct)
  case (snoc t ts)
  have "group_targets (ts @ [t]) = add_group t (group_targets ts)" by (simp add: group_targets_def)
  then show ?case using snoc
    by (auto simp: add_group_def Let_def dict_simps not_less split: option.splits if_splits)
qed (simp add: group_targets_def dict_simps)

lemma group_targets_wf: "dict_wf (group_targets ts)"
proof (induction ts rule: rev_induct)
  case (snoc t ts)
  then show ?case by (simp add: group_targets_def add_group_def Let_def wf_intros)
qed (simp add: group_targets_def dict_wf_Nil)

lemma group_targets_in: "(src, g) \<in> set (group_targets ts) \<Longrightarrow> g = take 100 (filter (\<lambda>t. tg_source t = src) ts)"
  using dget_in_set[OF group_targets_wf, of src g ts] by (auto simp: group_targets_get Let_def split: if_splits)

lemma grouped_sources: "\<forall>(src, g) \<in> set (group_targets ts). \<forall>t \<in> set g. tg_source t = src"
  using group_targets_in by (fastforce dest: in_set_takeD)

lemma filter_grouped:
  assumes "distinct (map fst gs)" "\<forall>(src, g) \<in> set gs. \<forall>t \<in> set g. tg_source t = src"
  shows "filter (\<lambda>t. tg_source t = src) (concat (map snd gs)) = (case map_of gs src of None \<Rightarrow> [] | Some g \<Rightarrow> g)"
  using assms
proof (induction gs)
  case (Cons g gs)
  obtain s ts where g: "g = (s, ts)" by fastforce
  have *: "filter (\<lambda>t. tg_source t = src) ts = (if s = src then ts else [])"
    using Cons.prems(2) g by (auto simp: filter_empty_conv filter_id_conv)
  have "map_of gs src = None" if "s = src" using Cons.prems(1) g that by (auto simp: map_of_eq_None_iff)
  then show ?case using Cons * g by (auto split: option.splits)
qed simp

lemma grouped_mset: "mset (concat (map snd (group_targets ts))) \<subseteq># mset ts"
proof (rule mset_subset_eqI)
  fix t :: target
  let ?c = "concat (map snd (group_targets ts))"
  have f: "filter (\<lambda>x. tg_source x = tg_source t) ?c =
      (case dget (group_targets ts) (tg_source t) of None \<Rightarrow> [] | Some g \<Rightarrow> g)"
    using filter_grouped[of "group_targets ts" "tg_source t"] group_targets_wf[of ts] grouped_sources
    by (simp add: dget_def dict_wf_def)
  have "count (mset ?c) t = count (mset (filter (\<lambda>x. tg_source x = tg_source t) ?c)) t" by simp
  also have "\<dots> = count (mset (take 100 (filter (\<lambda>x. tg_source x = tg_source t) ts))) t"
    unfolding f by (simp add: group_targets_get Let_def)
  also have "\<dots> \<le> count (mset (filter (\<lambda>x. tg_source x = tg_source t) ts)) t"
    by (metis append_take_drop_id count_union le_add1 mset_append)
  also have "\<dots> = count (mset ts) t" by simp
  finally show "count (mset ?c) t \<le> count (mset ts) t" .
qed

lemma grouped_at_most: "length (filter (\<lambda>t. tg_source t = src) (concat (map snd (group_targets ts)))) \<le> 100"
proof -
  have "filter (\<lambda>t. tg_source t = src) (concat (map snd (group_targets ts))) =
      (case dget (group_targets ts) src of None \<Rightarrow> [] | Some g \<Rightarrow> g)"
    using filter_grouped[of "group_targets ts" src] group_targets_wf[of ts] grouped_sources
    by (simp add: dget_def dict_wf_def)
  then show ?thesis by (simp add: group_targets_get Let_def)
qed

lemma schedule_log:
  assumes "schedule_due_collections sha cfg reg (recording enq) ok now database r w = Some (res, r', w')"
  shows "\<exists>dyn act. (sc_enabled cfg \<longrightarrow> dynamic_targets sha cfg database = Some dyn) \<and>
    mset act \<subseteq># mset (concat (map snd (group_targets (chosen_targets sha cfg dyn)))) \<and>
    snd w' = snd w @ map (submitted sha cfg now) act \<and>
    (\<forall>t \<in> set act. reg (tg_source t) \<and> redis_get r (due_key cfg (tg_source t)) now = None \<and>
       (\<forall>u. now \<le> u \<and> u \<le> now + sc_interval_minutes cfg (tg_source t) * 60 * 1000 \<longrightarrow>
          redis_get r' (due_key cfg (tg_source t)) u \<noteq> None))"
proof (cases "sc_enabled cfg")
  case False
  then have "w' = w" using assms by (simp add: schedule_due_collections_def Let_def)
  then show ?thesis using False by (intro exI[of _ undefined] exI[of _ "[]"]) simp
next
  case True
  let ?z = "\<lparr>sn_enqueued = 0, sn_failed = 0, sn_unavailable = 0\<rparr>"
  obtain dyn where dyn: "dynamic_targets sha cfg database = Some dyn"
    using assms True by (auto simp: schedule_due_collections_def Let_def split: option.splits)
  let ?gs = "group_targets (chosen_targets sha cfg dyn)"
  obtain c' where f: "fold (schedule_source sha cfg reg (recording enq) ok now) ?gs (r, w, ?z) = (r', w', c')"
    using assms True dyn
    by (cases "fold (schedule_source sha cfg reg (recording enq) ok now) ?gs (r, w, ?z)")
       (auto simp: schedule_due_collections_def Let_def)
  show ?thesis using schedule_fold_log[OF f grouped_sources] group_targets_wf dyn unfolding dict_wf_def by blast
qed

lemma source_str_inj [simp]: "source_str a = source_str b \<longleftrightarrow> a = b"
  by (cases a; cases b) simp_all

lemma submitted_source [simp]: "qj_source (submitted sha cfg now t) = source_str (tg_source t)"
  by (simp add: submitted_def job_of_target_def)

lemma submitted_id_inj:
  assumes "\<forall>x. 24 \<le> length (sha x)" "qj_id (submitted sha cfg now t) = qj_id (submitted sha cfg now t')"
  shows "identity_of sha t = identity_of sha t'"
  using assms by (simp add: submitted_def job_of_target_def identity_of_def append_eq_append_conv)

lemma distinct_submset: "\<lbrakk>mset xs \<subseteq># mset ys; distinct (map f ys)\<rbrakk> \<Longrightarrow> distinct (map f xs)"
proof -
  assume a: "mset xs \<subseteq># mset ys" "distinct (map f ys)"
  then obtain zs where "mset ys = mset (xs @ zs)" by (metis mset_append ex_mset subset_mset.add_diff_inverse)
  then have "mset (map f ys) = mset (map f (xs @ zs))" by (metis mset_map)
  then have "distinct (map f (xs @ zs))" using a(2) mset_eq_imp_distinct_iff by blast
  then show ?thesis by simp
qed

text \<open>A stored text that is no integer is neither used nor replaced: every run takes the first batch.\<close>

lemma rotate_run_stuck:
  assumes "ts \<noteq> []" "b < length ts" "redis_get r (offset_key ns src) now = Some v" "parse_int v = None"
  shows "rotate_run k r src ts b ns now = replicate k (take b ts)"
proof -
  have "slice_from ts 0 b = take b ts"
    by (rule nth_equalityI) (use assms(2) in \<open>simp_all add: slice_from_def\<close>)
  then have "rotate_queries True r src ts b ns now = (take b ts, r)"
    using assms by (simp add: rotate_queries_def Let_def)
  then show ?thesis by (induction k) simp_all
qed

section \<open>Properties\<close>

text \<open>C14: the rotating selection starves no query. When no cursor is stored, or any text that
  reads as an integer, every target has been selected after enough runs that the batches
  together reach the number of targets; the rotation itself only stores such texts. Each run
  selects exactly one batch without repeating a target. Only a text no run wrote, one that
  is no integer, stops the rotation: it is never replaced and every run selects the first batch.\<close>

theorem rotation_covers_targets:
  assumes "ts \<noteq> []" "b < length ts" "length ts \<le> k * b"
  shows "(\<forall>sel \<in> set (rotate_run k r src ts b ns now). length sel = b \<and> mset sel \<subseteq># mset ts) \<and>
    (case redis_get r (offset_key ns src) now of
       Some v \<Rightarrow> if parse_int v = None then rotate_run k r src ts b ns now = replicate k (take b ts)
                else set (concat (rotate_run k r src ts b ns now)) = set ts
     | None \<Rightarrow> set (concat (rotate_run k r src ts b ns now)) = set ts) \<and>
    (\<forall>sel r'. rotate_queries True r src ts b ns now = (sel, r') \<longrightarrow> r' \<noteq> r \<longrightarrow>
       (\<exists>i v. r' = redis_set r (offset_key ns src) v \<and> parse_int v = Some i))"
proof -
  have moves: "\<exists>i v. r' = redis_set r (offset_key ns src) v \<and> parse_int v = Some i"
    if "rotate_queries True r src ts b ns now = (sel, r')" "r' \<noteq> r" for sel r'
    using that assms(1,2) by (auto simp: rotate_queries_def Let_def split: option.splits) (use nat_str_parse in blast)+
  show ?thesis
  proof (cases "cursor r (offset_key ns src) now (length ts)")
    case None
    then obtain v where v: "redis_get r (offset_key ns src) now = Some v" "parse_int v = None"
      by (auto simp: cursor_def split: option.splits)
    have run: "rotate_run k r src ts b ns now = replicate k (take b ts)" by (rule rotate_run_stuck[OF assms(1,2) v])
    have "mset (take b ts) \<subseteq># mset ts" by (metis append_take_drop_id mset_append mset_subset_eq_add_left)
    then show ?thesis using run v moves assms(2) by auto
  next
    case (Some s)
    have run: "rotate_run k r src ts b ns now = map (\<lambda>i. slice_from ts (s + i * b) b) [0..<k]"
      using rotate_run_slices[OF assms(1,2) Some] .
    then have "concat (rotate_run k r src ts b ns now) = slice_from ts s (k * b)"
      by (simp only: slices_concat)
    then have all: "set (concat (rotate_run k r src ts b ns now)) = set ts"
      using slice_covers[OF assms(1,3)] by (simp only:)
    have sel: "\<forall>sel \<in> set (rotate_run k r src ts b ns now). length sel = b \<and> mset sel \<subseteq># mset ts"
      unfolding run using slice_mset[of b ts] assms(1,2) by (auto simp: slice_from_def)
    have "v = None \<or> (\<exists>x. v = Some x \<and> parse_int x \<noteq> None)" if "v = redis_get r (offset_key ns src) now" for v
      using Some that by (auto simp: cursor_def split: option.splits)
    then show ?thesis using all sel moves by (auto split: option.split)
  qed
qed

definition sample_target :: "job_source \<Rightarrow> string \<Rightarrow> target" where
  "sample_target src q = \<lparr>tg_source = src, tg_query = q, tg_location = None, tg_enabled = True, tg_max_jobs = 500\<rparr>"

theorem rotation_covers_targets_witness:
  "set (concat (rotate_run 2 [(''hireandtech:query_offset:glassdoor'', (''7'', None))] ''glassdoor''
     (map (sample_target GLASSDOOR) [''a'', ''b'', ''c'']) 2 ''hireandtech'' 0)) =
   set (map (sample_target GLASSDOOR) [''a'', ''b'', ''c''])"
proof -
  have "redis_get [(''hireandtech:query_offset:glassdoor'', (''7'', None))] (offset_key ''hireandtech'' ''glassdoor'') 0 = Some ''7''"
    "parse_int ''7'' = Some 7" by code_simp+
  then show ?thesis
    using rotation_covers_targets[where ts = "map (sample_target GLASSDOOR) [''a'', ''b'', ''c'']" and b = 2 and k = 2
        and r = "[(''hireandtech:query_offset:glassdoor'', (''7'', None))]" and src = "''glassdoor''" and ns = "''hireandtech''" and now = 0]
    by simp
qed

text \<open>One run of the scheduler submits at most 100 collections per source and never the
  same job identifier twice; every submission is a chosen target of a registered source,
  with the number of jobs capped by the configuration. The digest is any function with at
  least 24 characters.\<close>

theorem schedule_submissions_bounded:
  assumes "schedule_due_collections sha cfg reg (recording enq) ok now database r (q, []) = Some (res, r', (q', submissions))"
    and "\<forall>x. 24 \<le> length (sha x)"
  shows "distinct (map qj_id submissions) \<and>
    (\<forall>src. length (filter (\<lambda>j. qj_source j = source_str src) submissions) \<le> 100) \<and>
    (\<forall>j \<in> set submissions. qj_max_jobs j \<le> sc_max_jobs_per_target cfg \<and>
       (\<exists>dyn. \<exists>t \<in> set (chosen_targets sha cfg dyn). (sc_enabled cfg \<longrightarrow> dynamic_targets sha cfg database = Some dyn) \<and>
          reg (tg_source t) \<and> j = submitted sha cfg now t))"
proof -
  obtain dyn act where dyn: "sc_enabled cfg \<longrightarrow> dynamic_targets sha cfg database = Some dyn"
    and sub: "mset act \<subseteq># mset (concat (map snd (group_targets (chosen_targets sha cfg dyn))))"
    and log: "submissions = map (submitted sha cfg now) act" and reg: "\<forall>t \<in> set act. reg (tg_source t)"
    using schedule_log[OF assms(1)] by auto
  have all: "mset act \<subseteq># mset (chosen_targets sha cfg dyn)"
    using sub grouped_mset subset_mset.trans by blast
  have "distinct (map (identity_of sha) act)" using distinct_submset[OF all chosen_distinct] .
  then have "inj_on (identity_of sha) (set act)" "distinct act" by (simp_all only: distinct_map)
  then have "distinct (map (\<lambda>t. qj_id (submitted sha cfg now t)) act)"
    unfolding distinct_map by (auto intro!: inj_onI dest!: submitted_id_inj[OF assms(2)] dest: inj_onD)
  then have ids: "distinct (map qj_id submissions)" using log by (simp add: o_def)
  have "length (filter (\<lambda>t. tg_source t = src) act) \<le> 100" for src
  proof -
    have "filter_mset (\<lambda>t. tg_source t = src) (mset act) \<subseteq>#
        filter_mset (\<lambda>t. tg_source t = src) (mset (concat (map snd (group_targets (chosen_targets sha cfg dyn)))))"
      using sub by (rule multiset_filter_mono)
    then have "length (filter (\<lambda>t. tg_source t = src) act) \<le>
        length (filter (\<lambda>t. tg_source t = src) (concat (map snd (group_targets (chosen_targets sha cfg dyn)))))"
      by (metis mset_filter size_mset size_mset_mono)
    then show ?thesis using grouped_at_most le_trans by blast
  qed
  then have "\<forall>src. length (filter (\<lambda>j. qj_source j = source_str src) submissions) \<le> 100"
    using log by (simp add: filter_map o_def)
  moreover have t: "\<forall>t \<in> set act. t \<in> set (chosen_targets sha cfg dyn)" using mset_sources[OF all] by blast
  moreover have "\<forall>j \<in> set submissions. qj_max_jobs j \<le> sc_max_jobs_per_target cfg"
    using log by (auto simp: submitted_def job_of_target_def)
  moreover have "\<exists>dyn. \<exists>t \<in> set (chosen_targets sha cfg dyn). (sc_enabled cfg \<longrightarrow> dynamic_targets sha cfg database = Some dyn) \<and>
          reg (tg_source t) \<and> j = submitted sha cfg now t" if "j \<in> set submissions" for j
    using that log dyn reg t by (intro exI[of _ dyn]) auto
  ultimately show ?thesis using ids by simp
qed

definition sample_schedule :: schedule_settings where
  "sample_schedule = \<lparr>sc_enabled = True, sc_targets = [sample_target DICE ''qa'', sample_target DICE ''QA'',
     sample_target LINKEDIN ''qa''], sc_interval_minutes = (\<lambda>_. 30), sc_namespace = ''hireandtech'',
     sc_glassdoor_batch = 6, sc_max_jobs_per_target = 100\<rparr>"

definition padded_text :: "string \<Rightarrow> string" where
  "padded_text s = filter (\<lambda>c. c \<noteq> CHR 0x00) s @ replicate 24 (CHR ''x'')"

definition always_new :: "unit enqueuer" where
  "always_new q j = (Enqueued, q)"

definition sample_run :: "int \<Rightarrow> redis \<Rightarrow> ((string \<times> schedule_counts) \<times> redis \<times> (unit \<times> queue_job list)) option" where
  "sample_run now r = schedule_due_collections padded_text sample_schedule (\<lambda>_. True) (recording always_new) True now None r ((), [])"

lemma sample_run_first: "map_option (\<lambda>(res, r, (u, js)). map qj_id js) (sample_run 3600000 []) =
   Some [''collection:diceqaxxxxxxxxxxxxxxxxxx:2'', ''collection:linkedinqaxxxxxxxxxxxxxx:2'']"
  by code_simp

theorem schedule_submissions_bounded_witness:
  "\<exists>res r u js. sample_run 3600000 [] = Some (res, r, (u, js)) \<and> length js = 2 \<and> distinct (map qj_id js)"
proof -
  obtain res r u js where run: "sample_run 3600000 [] = Some (res, r, (u, js))"
    and ids: "map qj_id js = [''collection:diceqaxxxxxxxxxxxxxxxxxx:2'', ''collection:linkedinqaxxxxxxxxxxxxxx:2'']"
    using sample_run_first by auto
  have "distinct (map qj_id js)"
    using schedule_submissions_bounded[OF run[unfolded sample_run_def]] by (simp add: padded_text_def)
  moreover have "length js = 2" using arg_cong[OF ids, of length] by simp
  ultimately show ?thesis using run by blast
qed

text \<open>A source is collected at most once per interval: if one run submitted a collection of a
  source, a later run submits one for it only after the interval configured for it has
  passed, however the profiles and the targets change in between.\<close>

theorem schedule_cadence:
  assumes "schedule_due_collections sha cfg reg (recording enq) ok now database r (q, []) = Some (res, r1, (q1, first))"
    and "schedule_due_collections sha cfg reg' (recording enq) ok' now' database' r1 (q1, []) = Some (res', r2, (q2, second))"
    and "j \<in> set first" "j' \<in> set second" "qj_source j = source_str src" "qj_source j' = source_str src" "now \<le> now'"
  shows "now + sc_interval_minutes cfg src * 60 * 1000 < now'"
proof -
  obtain act where a: "first = map (submitted sha cfg now) act"
    "\<forall>t \<in> set act. \<forall>u. now \<le> u \<and> u \<le> now + sc_interval_minutes cfg (tg_source t) * 60 * 1000 \<longrightarrow>
        redis_get r1 (due_key cfg (tg_source t)) u \<noteq> None"
    using schedule_log[OF assms(1)] by auto
  obtain act' where b: "second = map (submitted sha cfg now') act'"
    "\<forall>t \<in> set act'. redis_get r1 (due_key cfg (tg_source t)) now' = None"
    using schedule_log[OF assms(2)] by auto
  obtain t where t: "t \<in> set act" "tg_source t = src" using a(1) assms(3,5) by auto
  obtain t' where t': "t' \<in> set act'" "tg_source t' = src" using b(1) assms(4,6) by auto
  have "redis_get r1 (due_key cfg src) now' = None" using b(2) t' by auto
  then have "\<not> (now \<le> now' \<and> now' \<le> now + sc_interval_minutes cfg src * 60 * 1000)"
    using a(2)[rule_format, OF t(1), of now'] t(2) by auto
  then show ?thesis using assms(7) by linarith
qed

lemma sample_run_second:
  "map_option (\<lambda>(res, r, (u, js)). map_option (\<lambda>(res', r', (u', js')). (map qj_source js, map qj_source js')) (sample_run 5401000 r))
     (sample_run 3600000 []) = Some (Some ([''dice'', ''linkedin''], [''dice'', ''linkedin'']))"
  by code_simp

theorem schedule_cadence_witness: "(3600000 :: int) + sc_interval_minutes sample_schedule DICE * 60 * 1000 < 5401000"
proof -
  obtain res r u js res' r' u' js' where run: "sample_run 3600000 [] = Some (res, r, (u, js))"
    "sample_run 5401000 r = Some (res', r', (u', js'))"
    and s: "map qj_source js = [''dice'', ''linkedin'']" "map qj_source js' = [''dice'', ''linkedin'']"
    using sample_run_second by auto
  have j: "hd js \<in> set js" "qj_source (hd js) = source_str DICE" "hd js' \<in> set js'" "qj_source (hd js') = source_str DICE"
    using s by (cases js; simp; cases js'; simp)+
  have run2: "schedule_due_collections padded_text sample_schedule (\<lambda>_. True) (recording always_new) True 5401000 None r (u, []) =
      Some (res', r', (u', js'))"
    using run(2) by (simp add: sample_run_def)
  show ?thesis
    by (rule schedule_cadence[OF run(1)[unfolded sample_run_def] run2 j(1,3,2,4)]) simp
qed

end
