(* ===== verification/Collection.thy ===== *)
theory Collection
  imports GlobalJobs Scheduler
begin

text \<open>
  The collection coordinator (\<open>src/app/jobs/collection.py\<close>), the collector registry and the
  collection errors (\<open>src/app/jobs/sources/registry.py\<close>, \<open>src/app/jobs/errors.py\<close>), and the
  queued task that runs one target under its lease (\<open>src/app/queue/tasks/scrape.py\<close>,
  \<open>src/app/queue/tasks/freshness.py\<close>).

  A source adapter is a parameter: what it answers or raises. One reading of the clock
  stands for the readings a run makes. Every row is written in a savepoint, so a failing
  row leaves the tables as they were; the surrounding transaction is discarded when the
  adapter raises.
\<close>

section \<open>Collectors\<close>

datatype collect_error =
    SourceUnavailable
  | PermanentError
  | TemporaryError int
  | OtherError string

datatype collector =
    TwoStage "target \<Rightarrow> collect_error + discovered_job list"
      "target \<Rightarrow> discovered_job list \<Rightarrow> collect_error + raw_job list"
  | OneStage "target \<Rightarrow> collect_error + raw_job list"
  | Unsupported

type_synonym registry = "(job_source, collector) dict"

definition register_collector :: "registry \<Rightarrow> job_source \<Rightarrow> collector \<Rightarrow> registry option" where
  "register_collector reg src c = (if dget reg src \<noteq> None then None else Some (dset src c reg))"

definition resolve_collector :: "registry \<Rightarrow> job_source \<Rightarrow> collect_error + collector" where
  "resolve_collector reg src = (case dget reg src of None \<Rightarrow> Inl SourceUnavailable | Some c \<Rightarrow> Inr c)"

definition is_registered :: "registry \<Rightarrow> job_source \<Rightarrow> bool" where
  "is_registered reg src \<longleftrightarrow> dget reg src \<noteq> None"

definition build_registry :: "collector \<Rightarrow> collector \<Rightarrow> collector \<Rightarrow> collector \<Rightarrow> registry option" where
  "build_registry dice linkedin glassdoor hiringcafe =
     Option.bind (register_collector [] DICE dice) (\<lambda>r1.
     Option.bind (register_collector r1 LINKEDIN linkedin) (\<lambda>r2.
     Option.bind (register_collector r2 GLASSDOOR glassdoor) (\<lambda>r3.
     register_collector r3 HIRINGCAFE hiringcafe)))"

section \<open>The coordinator\<close>

record collection_result =
  cr_discovered :: nat
  cr_normalized :: nat
  cr_inserted :: nat
  cr_updated :: nat
  cr_skipped :: nat
  cr_failed :: nat
  cr_canonical_failed :: nat
  cr_details_fetched :: nat
  cr_details_skipped :: nat

definition zero_result :: collection_result where
  "zero_result = \<lparr>cr_discovered = 0, cr_normalized = 0, cr_inserted = 0, cr_updated = 0, cr_skipped = 0,
     cr_failed = 0, cr_canonical_failed = 0, cr_details_fetched = 0, cr_details_skipped = 0\<rparr>"

text \<open>The two models of a job: the legacy table and the canonical graph.\<close>

type_synonym job_tables = "global_db \<times> db"

record digests =
  dg_content :: "(string, json) dict \<Rightarrow> string"
  dg_text :: "string \<Rightarrow> string"

fun count_upsert :: "upsert_status \<Rightarrow> collection_result \<Rightarrow> collection_result" where
  "count_upsert INSERTED r = r\<lparr>cr_inserted := cr_inserted r + 1\<rparr>"
| "count_upsert UPSERT_UPDATED r = r\<lparr>cr_updated := cr_updated r + 1\<rparr>"
| "count_upsert SKIPPED r = r\<lparr>cr_skipped := cr_skipped r + 1\<rparr>"

definition persist_job ::
  "digests \<Rightarrow> int \<Rightarrow> target \<Rightarrow> raw_job \<Rightarrow> collection_result \<times> job_tables \<Rightarrow> collection_result \<times> job_tables" where
  "persist_job dg now tgt raw st = (case st of (r, (g, d)) \<Rightarrow>
     (if rj_source raw \<noteq> source_str (tg_source tgt) then (r\<lparr>cr_failed := cr_failed r + 1\<rparr>, (g, d))
      else case normalize_job (dg_content dg) raw of
        Inl _ \<Rightarrow> (r\<lparr>cr_failed := cr_failed r + 1\<rparr>, (g, d))
      | Inr j \<Rightarrow>
          let r1 = r\<lparr>cr_normalized := cr_normalized r + 1\<rparr> in
          (case upsert_with_outcome g j now of
             Inl _ \<Rightarrow> (r1\<lparr>cr_failed := cr_failed r1 + 1\<rparr>, (g, d))
           | Inr ((outcome, _), g') \<Rightarrow>
               let r2 = count_upsert outcome r1 in
               (case ingest (dg_text dg) d j now of
                  Inl _ \<Rightarrow> (r2\<lparr>cr_canonical_failed := cr_canonical_failed r2 + 1\<rparr>, (g', d))
                | Inr (_, d') \<Rightarrow> (r2, (g', d'))))))"

definition persist_raw_jobs ::
  "digests \<Rightarrow> int \<Rightarrow> target \<Rightarrow> raw_job list \<Rightarrow> job_tables \<Rightarrow> collection_result \<times> job_tables" where
  "persist_raw_jobs dg now tgt raws w =
     (case fold (persist_job dg now tgt) raws (zero_result, w) of
        (r, w') \<Rightarrow> (r\<lparr>cr_discovered := length raws, cr_details_fetched := length raws\<rparr>, w'))"

definition complete_core_details :: "global_job \<Rightarrow> bool" where
  "complete_core_details j \<longleftrightarrow> has_text (gj_company j) \<and> has_text (gj_location j) \<and> has_text (gj_url j) \<and>
     has_text (gj_description j) \<and> has_text (gj_employment_type j) \<and> gj_posted_at j \<noteq> None"

definition unique_candidates :: "discovered_job list \<Rightarrow> discovered_job list" where
  "unique_candidates cs = map snd (fold (\<lambda>c d. dset (dj_external_id c) c d) cs [])"

definition refresh_window :: int where "refresh_window = 6 * 3600 * 1000000"

definition is_recent :: "(string, global_job) dict \<Rightarrow> (string, bool) dict \<Rightarrow> int \<Rightarrow> string \<Rightarrow> bool" where
  "is_recent existing fetched now i = (case dget existing i of
      None \<Rightarrow> False
    | Some g \<Rightarrow> now - refresh_window \<le> gj_scraped_at g \<and>
        (complete_core_details g \<or> (case dget fetched i of None \<Rightarrow> False | Some b \<Rightarrow> b)))"

definition touch_recent :: "int \<Rightarrow> string \<Rightarrow> string list \<Rightarrow> job_tables \<Rightarrow> job_tables" where
  "touch_recent now src ids w = (case w of (g, d) \<Rightarrow>
     if ids = [] then (g, d)
     else (snd (global_touch_seen g src ids now), snd (touch_seen d src ids now)))"

definition run_collector ::
  "digests \<Rightarrow> int \<Rightarrow> collector \<Rightarrow> target \<Rightarrow> job_tables \<Rightarrow> collect_error + (collection_result \<times> job_tables)" where
  "run_collector dg now c tgt w = (case c of
      Unsupported \<Rightarrow> Inl (OtherError ''TypeError'')
    | OneStage collect \<Rightarrow>
        (case collect tgt of Inl e \<Rightarrow> Inl e | Inr raws \<Rightarrow> Inr (persist_raw_jobs dg now tgt raws w))
    | TwoStage discover fetch_details \<Rightarrow>
        (case discover tgt of
           Inl e \<Rightarrow> Inl e
         | Inr cs \<Rightarrow>
             let src = source_str (tg_source tgt);
                 candidates = unique_candidates cs;
                 ids = map dj_external_id candidates;
                 existing = get_existing (fst w) src ids;
                 fetched = detail_fetched (snd w) src ids;
                 recent_ids = filter (is_recent existing fetched now) ids;
                 w1 = touch_recent now src recent_ids w;
                 detail_candidates = filter (\<lambda>x. dj_external_id x \<notin> set recent_ids) candidates
             in (case fetch_details tgt detail_candidates of
                   Inl e \<Rightarrow> Inl e
                 | Inr raws \<Rightarrow>
                     (case persist_raw_jobs dg now tgt raws w1 of
                        (r, w2) \<Rightarrow> Inr (r\<lparr>cr_discovered := length candidates, cr_details_fetched := length raws,
                                       cr_details_skipped := length recent_ids\<rparr>, w2)))))"

section \<open>The queued task\<close>

datatype collection_status = Success | Partial | Failed | SkippedLocked | StatusUnavailable

record task_result =
  tr_status :: collection_status
  tr_lock_acquired :: bool
  tr_counts :: collection_result

datatype task_outcome = Finished task_result | RetryAfter int | Raised collect_error

text \<open>
  One execution at \<open>now\<close> (milliseconds), ending at \<open>later\<close>. The lease is released on every
  path after it was acquired, whatever the run does; \<open>release_ok\<close> says whether Redis
  answers then.
\<close>

definition run_job_collection ::
  "digests \<Rightarrow> registry \<Rightarrow> lock_settings \<Rightarrow> string \<Rightarrow> bool \<Rightarrow> int \<Rightarrow> int \<Rightarrow> job_source option \<Rightarrow> string \<Rightarrow> string option \<Rightarrow> int \<Rightarrow>
   redis \<times> job_tables \<Rightarrow> task_outcome \<times> (redis \<times> job_tables)" where
  "run_job_collection dg reg locks token release_ok now later src query location max_jobs w = (case w of (r, tabs) \<Rightarrow>
     (case Option.bind src (\<lambda>s. make_target s query location True max_jobs) of
        None \<Rightarrow> (Finished \<lparr>tr_status = Failed, tr_lock_acquired = False, tr_counts = zero_result\<rparr>, (r, tabs))
      | Some tgt \<Rightarrow>
          (case resolve_collector reg (tg_source tgt) of
             Inl _ \<Rightarrow> (Finished \<lparr>tr_status = StatusUnavailable, tr_lock_acquired = False, tr_counts = zero_result\<rparr>, (r, tabs))
           | Inr c \<Rightarrow>
               (case acquire_lease locks r (identity_of (dg_text dg) tgt) token now of
                  (None, r1) \<Rightarrow> (Finished \<lparr>tr_status = SkippedLocked, tr_lock_acquired = False, tr_counts = zero_result\<rparr>, (r1, tabs))
                | (Some lease, r1) \<Rightarrow>
                    let (out, tabs') = (case run_collector dg (now * 1000) c tgt tabs of
                          Inl (TemporaryError secs) \<Rightarrow> (RetryAfter secs, tabs)
                        | Inl PermanentError \<Rightarrow> (Finished \<lparr>tr_status = Failed, tr_lock_acquired = True, tr_counts = zero_result\<rparr>, tabs)
                        | Inl e \<Rightarrow> (Raised e, tabs)
                        | Inr (res, tabs1) \<Rightarrow> (Finished \<lparr>tr_status =
                              (if cr_failed res > 0 \<or> cr_canonical_failed res > 0 then Partial else Success),
                              tr_lock_acquired = True, tr_counts = res\<rparr>, tabs1));
                        r2 = (if release_ok then snd (snd (release_lease r1 lease later)) else r1)
                    in (out, (r2, tabs'))))))"

text \<open>The freshness task: one transaction per source; a failing source is skipped.\<close>

definition all_sources :: "job_source list" where
  "all_sources = [DICE, LINKEDIN, GLASSDOOR, HIRINGCAFE]"

definition deactivate_stale_jobs ::
  "int \<Rightarrow> int \<Rightarrow> (job_source \<Rightarrow> bool) \<Rightarrow> int \<Rightarrow> db \<Rightarrow> (string, nat) dict \<times> db" where
  "deactivate_stale_jobs stale_hours safety_hours fails now d =
     fold (\<lambda>src (counts, d1).
        if fails src then (counts, d1)
        else (case deactivate_stale_sources d1 (source_str src) (now - stale_hours * 3600 * 1000000)
                     (now - safety_hours * 3600 * 1000000) of
                (n, d2) \<Rightarrow> (dset (source_str src) n counts, d2)))
       all_sources ([], d)"

section \<open>Lemmas on persistence\<close>

definition handled :: "collection_result \<Rightarrow> nat" where
  "handled r = cr_inserted r + cr_updated r + cr_skipped r"

definition raw_key :: "digests \<Rightarrow> raw_job \<Rightarrow> (string \<times> string) option" where
  "raw_key dg raw = (case normalize_job (dg_content dg) raw of Inl _ \<Rightarrow> None | Inr j \<Rightarrow> Some (job_key j))"

definition global_keys :: "global_db \<Rightarrow> (string \<times> string) set" where
  "global_keys g = set (map global_key (gd_rows g))"

definition canonical_keys :: "db \<Rightarrow> (string \<times> string) set" where
  "canonical_keys d = identity ` set (sources d)"

text \<open>What holds of the counters and of both tables after the rows \<open>done\<close>, started from \<open>(g0, d0)\<close>.\<close>

definition persisted :: "digests \<Rightarrow> job_tables \<Rightarrow> raw_job list \<Rightarrow> collection_result \<times> job_tables \<Rightarrow> bool" where
  "persisted dg w0 rows st \<longleftrightarrow> (case (w0, st) of ((g0, d0), (r, (g, d))) \<Rightarrow>
     global_wf g \<and> db_wf d \<and>
     handled r + cr_failed r = length rows \<and>
     handled r \<le> cr_normalized r \<and> cr_normalized r \<le> length rows \<and>
     cr_canonical_failed r \<le> handled r \<and>
     length (gd_rows g) = length (gd_rows g0) + cr_inserted r \<and>
     global_keys g0 \<subseteq> global_keys g \<and> canonical_keys d0 \<subseteq> canonical_keys d \<and>
     global_keys g \<subseteq> global_keys g0 \<union> {k. Some k \<in> raw_key dg ` set rows} \<and>
     canonical_keys d \<subseteq> canonical_keys d0 \<union> {k. Some k \<in> raw_key dg ` set rows} \<and>
     (cr_failed r = 0 \<longrightarrow> (\<forall>raw \<in> set rows. \<exists>k. raw_key dg raw = Some k \<and> k \<in> global_keys g \<and>
        (cr_canonical_failed r = 0 \<longrightarrow> k \<in> canonical_keys d))))"

lemma upsert_length:
  assumes "upsert_with_outcome g j now = Inr ((st, x), g')"
  shows "length (gd_rows g') = length (gd_rows g) + (if st = INSERTED then 1 else 0)"
  using assms by (cases rule: upsert_cases) (auto simp: update_where_def)

lemma upsert_keys:
  assumes "global_wf g" "upsert_with_outcome g j now = Inr ((st, x), g')"
  shows "global_wf g' \<and> global_keys g' = insert (job_key j) (global_keys g)"
  using upsert_wf[OF assms] by (simp add: global_keys_def)

lemma ingest_keys:
  assumes "db_wf d" "ingest digest d j now = Inr (res, d')"
  shows "db_wf d' \<and> canonical_keys d' = insert (job_key j) (canonical_keys d)"
  using ingest_wf[OF assms] by (simp add: canonical_keys_def job_key_def)

lemma count_upsert_simps [simp]:
  "handled (count_upsert st r) = handled r + 1" "cr_failed (count_upsert st r) = cr_failed r"
  "cr_normalized (count_upsert st r) = cr_normalized r" "cr_canonical_failed (count_upsert st r) = cr_canonical_failed r"
  "cr_inserted (count_upsert st r) = cr_inserted r + (if st = INSERTED then 1 else 0)"
  by (cases st; simp add: handled_def)+

lemma handled_simps [simp]:
  "handled (r\<lparr>cr_failed := n\<rparr>) = handled r" "handled (r\<lparr>cr_normalized := n\<rparr>) = handled r"
  "handled (r\<lparr>cr_canonical_failed := n\<rparr>) = handled r" "handled (r\<lparr>cr_discovered := n\<rparr>) = handled r"
  "handled (r\<lparr>cr_details_fetched := n\<rparr>) = handled r"
  by (simp_all add: handled_def)

lemma persist_job_step:
  assumes "persisted dg w0 rows st"
  shows "persisted dg w0 (rows @ [raw]) (persist_job dg now tgt raw st)"
proof -
  obtain g0 d0 r g d where w0: "w0 = (g0, d0)" and st: "st = (r, (g, d))" by (metis prod.exhaust)
  have wf: "global_wf g" "db_wf d" using assms by (simp_all add: persisted_def w0 st)
  show ?thesis
  proof (cases "rj_source raw \<noteq> source_str (tg_source tgt)")
    case True
    then show ?thesis using assms by (auto simp: persisted_def persist_job_def w0 st)
  next
    case src: False
    show ?thesis
    proof (cases "normalize_job (dg_content dg) raw")
      case (Inl e)
      then show ?thesis using assms src by (auto simp: persisted_def persist_job_def w0 st)
    next
      case n: (Inr j)
      then have k: "raw_key dg raw = Some (job_key j)" by (simp add: raw_key_def)
      show ?thesis
      proof (cases "upsert_with_outcome g j now")
        case (Inl e)
        then show ?thesis using assms src n by (auto simp: persisted_def persist_job_def w0 st Let_def)
      next
        case (Inr p)
        then obtain o1 x g' where u: "upsert_with_outcome g j now = Inr ((o1, x), g')" by (metis prod.exhaust)
        note gk = upsert_keys[OF wf(1) u] upsert_length[OF u]
        show ?thesis
        proof (cases "ingest (dg_text dg) d j now")
          case (Inl e)
          then show ?thesis using assms src n u k gk
            by (auto simp: persisted_def persist_job_def w0 st Let_def simp del: split_paired_Ex)
        next
          case (Inr q)
          then obtain res d' where i: "ingest (dg_text dg) d j now = Inr (res, d')" by (metis prod.exhaust)
          note dk = ingest_keys[OF wf(2) i]
          have "persist_job dg now tgt raw st = (count_upsert o1 (r\<lparr>cr_normalized := cr_normalized r + 1\<rparr>), (g', d'))"
            using src n u i by (simp add: persist_job_def st Let_def)
          then show ?thesis using assms k gk dk by (auto simp: persisted_def w0 st simp del: split_paired_Ex)
        qed
      qed
    qed
  qed
qed

lemma persist_fold: "persisted dg w0 rows st \<Longrightarrow> persisted dg w0 (rows @ raws) (fold (persist_job dg now tgt) raws st)"
proof (induction raws arbitrary: rows st)
  case (Cons raw raws)
  show ?case using Cons.IH[OF persist_job_step[OF Cons.prems, of raw now tgt]] by simp
qed simp

lemma persist_raw_jobs_persisted:
  assumes "global_wf g" "db_wf d"
  shows "persisted dg (g, d) raws (persist_raw_jobs dg now tgt raws (g, d))"
proof -
  have "persisted dg (g, d) [] (zero_result, (g, d))"
    using assms by (simp add: persisted_def zero_result_def handled_def)
  from persist_fold[OF this, of raws now tgt]
  have "persisted dg (g, d) raws (fold (persist_job dg now tgt) raws (zero_result, (g, d)))" by simp
  then show ?thesis
    by (cases "fold (persist_job dg now tgt) raws (zero_result, (g, d))")
       (simp add: persist_raw_jobs_def persisted_def split: prod.splits)
qed

section \<open>Lemmas on runs\<close>

lemma keyed_candidates:
  "\<forall>kc \<in> set d0. fst kc = dj_external_id (snd kc) \<Longrightarrow>
   \<forall>kc \<in> set (fold (\<lambda>c d. dset (dj_external_id c) c d) cs d0). fst kc = dj_external_id (snd kc)"
proof (induction cs arbitrary: d0)
  case (Cons c cs)
  have "\<forall>kc \<in> set (dset (dj_external_id c) c d0). fst kc = dj_external_id (snd kc)"
    using Cons.prems set_dset[of _ "dj_external_id c" c d0] by fastforce
  from Cons.IH[OF this] show ?case by simp
qed simp

lemma fold_candidates_wf: "dict_wf d0 \<Longrightarrow> dict_wf (fold (\<lambda>c d. dset (dj_external_id c) c d) cs d0)"
  by (induction cs arbitrary: d0) (simp_all add: wf_intros)

lemma fold_candidates_keys: "fst ` set (fold (\<lambda>c d. dset (dj_external_id c) c d) cs d0) = fst ` set d0 \<union> dj_external_id ` set cs"
  by (induction cs arbitrary: d0) (auto simp: fst_set_dset)

lemma unique_candidates_ids:
  "distinct (map dj_external_id (unique_candidates cs))"
  "set (map dj_external_id (unique_candidates cs)) = dj_external_id ` set cs"
proof -
  let ?d = "fold (\<lambda>c d. dset (dj_external_id c) c d) cs []"
  have m: "map dj_external_id (map snd ?d) = map fst ?d"
    using keyed_candidates[of "[]" cs] by auto
  show "distinct (map dj_external_id (unique_candidates cs))"
    unfolding unique_candidates_def m using fold_candidates_wf[OF dict_wf_Nil] by (simp add: dict_wf_def)
  show "set (map dj_external_id (unique_candidates cs)) = dj_external_id ` set cs"
    unfolding unique_candidates_def m using fold_candidates_keys[of cs "[]"] by simp
qed

lemma split_by_ids:
  "set (filter P (map f u)) \<union> f ` set (filter (\<lambda>x. f x \<notin> set (filter P (map f u))) u) = f ` set u"
  "set (filter P (map f u)) \<inter> f ` set (filter (\<lambda>x. f x \<notin> set (filter P (map f u))) u) = {}"
  "length (filter P (map f u)) + length (filter (\<lambda>x. f x \<notin> set (filter P (map f u))) u) = length u"
proof -
  have f: "filter (\<lambda>x. f x \<notin> set (filter P (map f u))) u = filter (\<lambda>x. \<not> P (f x)) u"
    by (rule filter_cong) auto
  show "set (filter P (map f u)) \<union> f ` set (filter (\<lambda>x. f x \<notin> set (filter P (map f u))) u) = f ` set u"
    unfolding f by auto
  show "length (filter P (map f u)) + length (filter (\<lambda>x. f x \<notin> set (filter P (map f u))) u) = length u"
    unfolding f using sum_length_filter_compl[of "\<lambda>x. P (f x)" u] by (simp add: filter_map o_def)
qed auto

section \<open>What is recent\<close>

text \<open>
  A listing counts as recent when the legacy table scraped it within the last six hours and either
  its core details are all there or the canonical graph holds a detail payload of it, not just
  the stub of the data migration.
\<close>

definition fresh_listing :: "job_tables \<Rightarrow> string \<Rightarrow> int \<Rightarrow> string \<Rightarrow> bool" where
  "fresh_listing w src now i \<longleftrightarrow> (\<exists>g \<in> set (gd_rows (fst w)). gj_source g = src \<and> gj_external_id g = i \<and>
     now \<le> gj_scraped_at g + 6 * 60 * 60 * 1000000 \<and>
     (gj_posted_at g \<noteq> None \<and>
        (\<forall>v \<in> {gj_company g, gj_location g, gj_url g, gj_description g, gj_employment_type g}. strip (opt_text v) \<noteq> []) \<or>
      (\<exists>r \<in> set (sources (snd w)). js_source r = src \<and> js_source_job_id r = i \<and> js_raw_data r \<noteq> [] \<and>
         ''legacy_global_job_id'' \<notin> fst ` set (js_raw_data r))))"

lemma dget_fold_dset:
  "dget (fold (\<lambda>x acc. dset (k x) (v x) acc) xs d) i =
     (case filter (\<lambda>x. k x = i) xs of [] \<Rightarrow> dget d i | ys \<Rightarrow> Some (v (last ys)))"
  by (induction xs arbitrary: d) (auto simp: dict_simps split: list.splits)

lemma dget_fold_dset_key:
  assumes "\<And>x y. \<lbrakk>x \<in> set xs; y \<in> set xs; k x = i; k y = i\<rbrakk> \<Longrightarrow> x = y"
  shows "dget (fold (\<lambda>x acc. dset (k x) (v x) acc) xs []) i = Some b \<longleftrightarrow> (\<exists>x \<in> set xs. k x = i \<and> v x = b)"
proof (cases "filter (\<lambda>x. k x = i) xs")
  case Nil
  then have "\<forall>x \<in> set xs. k x \<noteq> i" by (simp add: filter_empty_conv)
  then show ?thesis using Nil by (auto simp: dget_fold_dset dict_simps)
next
  case (Cons y ys)
  have "last (y # ys) \<in> set (filter (\<lambda>x. k x = i) xs)" unfolding Cons by (rule last_in_set) simp
  then have l: "last (y # ys) \<in> set xs" "k (last (y # ys)) = i" by simp_all
  have "dget (fold (\<lambda>x acc. dset (k x) (v x) acc) xs []) i = Some (v (last (y # ys)))"
    unfolding dget_fold_dset Cons by simp
  moreover have "x = last (y # ys)" if "x \<in> set xs" "k x = i" for x by (rule assms[OF that(1) l(1) that(2) l(2)])
  ultimately show ?thesis using l by (metis option.inject)
qed

lemma get_existing_iff:
  assumes "global_wf g" "i \<in> set ids"
  shows "dget (get_existing g src ids) i = Some x \<longleftrightarrow> x \<in> set (gd_rows g) \<and> gj_source x = src \<and> gj_external_id x = i"
proof -
  have inj: "inj_on global_key (set (gd_rows g))" using assms(1) by (simp add: global_wf_def distinct_map)
  have ne: "uniq ids \<noteq> []" using assms(2) by (metis empty_iff empty_set set_uniq)
  have "get_existing g src ids = fold (\<lambda>j acc. dset (gj_external_id j) j acc) (filter (global_listed src (uniq ids)) (gd_rows g)) []"
    using ne by (simp add: get_existing_def Let_def)
  moreover have "dget (fold (\<lambda>j acc. dset (gj_external_id j) j acc) (filter (global_listed src (uniq ids)) (gd_rows g)) []) i = Some x \<longleftrightarrow>
      (\<exists>j \<in> set (filter (global_listed src (uniq ids)) (gd_rows g)). gj_external_id j = i \<and> j = x)"
    by (rule dget_fold_dset_key) (auto simp: global_listed_def global_key_def intro!: inj_onD[OF inj])
  ultimately show ?thesis using assms(2) by (auto simp: global_listed_def)
qed

lemma detail_fetched_iff:
  assumes "db_wf d" "i \<in> set ids"
  shows "dget (detail_fetched d src ids) i = Some True \<longleftrightarrow> (\<exists>r \<in> set (sources d). js_source r = src \<and> js_source_job_id r = i \<and>
    js_raw_data r \<noteq> [] \<and> ''legacy_global_job_id'' \<notin> fst ` set (js_raw_data r))"
proof -
  have inj: "inj_on identity (set (sources d))" using assms(1) by (simp add: db_wf_def ids_wf_def distinct_map)
  have ne: "uniq ids \<noteq> []" using assms(2) by (metis empty_iff empty_set set_uniq)
  let ?v = "\<lambda>r. js_raw_data r \<noteq> [] \<and> dget (js_raw_data r) ''legacy_global_job_id'' = None"
  have "detail_fetched d src ids = fold (\<lambda>r m. dset (js_source_job_id r) (?v r) m) (filter (touched src (uniq ids)) (sources d)) []"
    using ne by (simp add: detail_fetched_def detail_fetched_by_source_id_def)
  moreover have "dget (fold (\<lambda>r m. dset (js_source_job_id r) (?v r) m) (filter (touched src (uniq ids)) (sources d)) []) i = Some True \<longleftrightarrow>
      (\<exists>r \<in> set (filter (touched src (uniq ids)) (sources d)). js_source_job_id r = i \<and> ?v r = True)"
    by (rule dget_fold_dset_key) (auto simp: touched_def identity_def intro!: inj_onD[OF inj])
  ultimately show ?thesis using assms(2) by (auto simp: touched_def dget_None_iff)
qed

lemma is_recent_iff:
  assumes "global_wf (fst w)" "db_wf (snd w)" "i \<in> set ids"
  shows "is_recent (get_existing (fst w) src ids) (detail_fetched (snd w) src ids) now i \<longleftrightarrow> fresh_listing w src now i"
proof -
  have b: "(case b of None \<Rightarrow> False | Some x \<Rightarrow> x) \<longleftrightarrow> b = Some True" for b :: "bool option" by (cases b) auto
  have e: "now - refresh_window \<le> t \<longleftrightarrow> now \<le> t + 6 * 60 * 60 * 1000000" for t by (simp add: refresh_window_def) linarith
  have "is_recent (get_existing (fst w) src ids) (detail_fetched (snd w) src ids) now i \<longleftrightarrow>
      (\<exists>g. dget (get_existing (fst w) src ids) i = Some g \<and> now \<le> gj_scraped_at g + 6 * 60 * 60 * 1000000 \<and>
         (complete_core_details g \<or> dget (detail_fetched (snd w) src ids) i = Some True))"
    by (simp add: is_recent_def b e split: option.split)
  then show ?thesis
    unfolding get_existing_iff[OF assms(1,3)] detail_fetched_iff[OF assms(2,3)] fresh_listing_def complete_core_details_def has_text_def
    by auto
qed

lemma touch_recent_wf:
  "\<lbrakk>global_wf g; db_wf d; touch_recent now src ids (g, d) = (g', d')\<rbrakk> \<Longrightarrow> global_wf g' \<and> db_wf d'"
  using global_touch_wf[of g src ids now] touch_wf[of d src "uniq ids" now]
  by (auto simp: touch_recent_def touch_seen_def split: if_splits)

lemma run_tables_wf:
  assumes "global_wf g" "db_wf d" "run_collector dg now c tgt (g, d) = Inr (res, (g', d'))"
  shows "global_wf g' \<and> db_wf d'"
proof -
  have p: "global_wf (fst w2) \<and> db_wf (snd w2)"
    if "global_wf (fst w) \<and> db_wf (snd w)" "persist_raw_jobs dg now tgt raws w = (r, w2)" for raws w w2 r
    using persist_raw_jobs_persisted[of "fst w" "snd w" dg raws now tgt] that
    by (cases w2) (simp add: persisted_def)
  show ?thesis
  proof (cases c)
    case (OneStage collect)
    then obtain raws where "persist_raw_jobs dg now tgt raws (g, d) = (res, (g', d'))"
      using assms(3) by (auto simp: run_collector_def split: sum.splits)
    from p[OF _ this] show ?thesis using assms(1,2) by simp
  next
    case (TwoStage discover fetch)
    obtain recent r raws where "persist_raw_jobs dg now tgt raws (touch_recent now (source_str (tg_source tgt)) recent (g, d)) = (r, (g', d'))"
      using assms(3) TwoStage by (auto simp: run_collector_def Let_def split: sum.splits prod.splits)
    from p[OF _ this] show ?thesis using touch_recent_wf[OF assms(1,2)] by (metis prod.collapse fst_conv snd_conv)
  qed (use assms(3) in \<open>simp add: run_collector_def\<close>)
qed

text \<open>The last listing with each identifier is the candidate.\<close>

lemma unique_candidates_last:
  assumes "c \<in> set (unique_candidates cs)"
  shows "c = last (filter (\<lambda>x. dj_external_id x = dj_external_id c) cs) \<and> c \<in> set cs"
proof -
  let ?d = "fold (\<lambda>c d. dset (dj_external_id c) c d) cs []"
  obtain i where i: "(i, c) \<in> set ?d" using assms by (auto simp: unique_candidates_def)
  then have k: "i = dj_external_id c" using keyed_candidates[of "[]" cs] by auto
  have "dget ?d i = Some c" using i dget_in_set[OF fold_candidates_wf[OF dict_wf_Nil]] by blast
  then obtain y ys where f: "filter (\<lambda>x. dj_external_id x = i) cs = y # ys" "c = last (y # ys)"
    by (auto simp: dget_fold_dset dict_simps split: list.splits)
  have "last (y # ys) \<in> set (filter (\<lambda>x. dj_external_id x = i) cs)" unfolding f(1) by (rule last_in_set) simp
  then show ?thesis using f k by auto
qed

lemma discovery_partition:
  assumes "discover tgt = Inr cs" "global_wf (fst w)" "db_wf (snd w)"
  shows "\<exists>recent details. distinct recent \<and> distinct (map dj_external_id details) \<and>
    (\<forall>i. i \<in> set recent \<longleftrightarrow> i \<in> dj_external_id ` set cs \<and> fresh_listing w (source_str (tg_source tgt)) now i) \<and>
    (\<forall>i. i \<in> dj_external_id ` set details \<longleftrightarrow> i \<in> dj_external_id ` set cs \<and> \<not> fresh_listing w (source_str (tg_source tgt)) now i) \<and>
    (\<forall>c \<in> set details. c = last (filter (\<lambda>x. dj_external_id x = dj_external_id c) cs)) \<and>
    run_collector dg now (TwoStage discover fetch_details) tgt w =
      (case fetch_details tgt details of
         Inl e \<Rightarrow> Inl e
       | Inr raws \<Rightarrow>
           (case persist_raw_jobs dg now tgt raws (touch_recent now (source_str (tg_source tgt)) recent w) of
              (r, w2) \<Rightarrow> Inr (r\<lparr>cr_discovered := length recent + length details, cr_details_fetched := length raws,
                             cr_details_skipped := length recent\<rparr>, w2)))"
proof -
  let ?src = "source_str (tg_source tgt)" and ?u = "unique_candidates cs"
  let ?ids = "map dj_external_id ?u"
  let ?P = "is_recent (get_existing (fst w) ?src ?ids) (detail_fetched (snd w) ?src ?ids) now"
  let ?recent = "filter ?P ?ids"
  let ?details = "filter (\<lambda>x. dj_external_id x \<notin> set ?recent) ?u"
  note ids = unique_candidates_ids[of cs]
  have P: "?P i \<longleftrightarrow> fresh_listing w ?src now i" if "i \<in> dj_external_id ` set cs" for i
    by (rule is_recent_iff[OF assms(2,3)]) (use that ids(2) in blast)
  have recent: "i \<in> set ?recent \<longleftrightarrow> i \<in> dj_external_id ` set cs \<and> fresh_listing w ?src now i" for i
    unfolding set_filter using ids(2) P by blast
  have len: "length ?recent + length ?details = length ?u" by (rule split_by_ids(3))
  have run: "run_collector dg now (TwoStage discover fetch_details) tgt w =
      (case fetch_details tgt ?details of
         Inl e \<Rightarrow> Inl e
       | Inr raws \<Rightarrow>
           (case persist_raw_jobs dg now tgt raws (touch_recent now ?src ?recent w) of
              (r, w2) \<Rightarrow> Inr (r\<lparr>cr_discovered := length ?recent + length ?details, cr_details_fetched := length raws,
                             cr_details_skipped := length ?recent\<rparr>, w2)))"
    unfolding len run_collector_def collector.case assms(1) sum.case Let_def by (rule refl)
  show ?thesis
  proof (intro exI conjI allI)
    show "distinct ?recent" using ids(1) by simp
    show "distinct (map dj_external_id ?details)" using ids(1) by (simp add: distinct_map_filter)
    show "i \<in> set ?recent \<longleftrightarrow> i \<in> dj_external_id ` set cs \<and> fresh_listing w ?src now i" for i by (rule recent)
    have "dj_external_id ` set ?details = dj_external_id ` set ?u - set ?recent" by auto
    then show "i \<in> dj_external_id ` set ?details \<longleftrightarrow> i \<in> dj_external_id ` set cs \<and> \<not> fresh_listing w ?src now i" for i
      using recent ids(2) by (metis Diff_iff set_map)
    show "\<forall>c \<in> set ?details. c = last (filter (\<lambda>x. dj_external_id x = dj_external_id c) cs)"
      using unique_candidates_last by auto
  qed (rule run)
qed

lemma touch_recent_keys:
  assumes "touch_recent now src ids (g, d) = (g', d')"
  shows "global_keys g' = global_keys g \<and> canonical_keys d' = canonical_keys d"
proof -
  have "map global_key (gd_rows (snd (global_touch_seen g src ids now))) = map global_key (gd_rows g)"
    by (auto simp: global_touch_seen_def update_where_def global_key_def Let_def)
  moreover have "map identity (sources (snd (touch_seen d src ids now))) = map identity (sources d)"
    by (auto simp: touch_seen_def touch_sources_seen_def update_where_def identity_def Let_def)
  then have "identity ` set (sources (snd (touch_seen d src ids now))) = identity ` set (sources d)"
    by (metis set_map)
  ultimately show ?thesis using assms
    by (auto simp: touch_recent_def global_keys_def canonical_keys_def simp del: set_map split: if_splits)
qed

section \<open>Properties\<close>

text \<open>C8: the statistics of a collection are truthful and the dual write is complete. Every fetched
  row is counted once as inserted, updated, skipped or failed; the legacy table grew by
  exactly the inserted rows; both tables stay well formed, lose nothing and gain only the
  listings fetched; and when nothing failed every fetched listing is in the legacy table
  and, when no canonical write failed either, in the canonical graph.\<close>

theorem collection_counts_truthful:
  assumes "global_wf g" "db_wf d" "persist_raw_jobs dg now tgt raws (g, d) = (r, (g', d'))"
  shows "global_wf g' \<and> db_wf d' \<and> cr_inserted r + cr_updated r + cr_skipped r + cr_failed r = length raws \<and>
    cr_canonical_failed r \<le> cr_inserted r + cr_updated r + cr_skipped r \<and> cr_normalized r \<le> cr_discovered r \<and>
    length (gd_rows g') = length (gd_rows g) + cr_inserted r \<and>
    global_keys g \<subseteq> global_keys g' \<and> global_keys g' \<subseteq> global_keys g \<union> {k. Some k \<in> raw_key dg ` set raws} \<and>
    canonical_keys d \<subseteq> canonical_keys d' \<and> canonical_keys d' \<subseteq> canonical_keys d \<union> {k. Some k \<in> raw_key dg ` set raws} \<and>
    (cr_failed r = 0 \<longrightarrow> (\<forall>raw \<in> set raws. \<exists>k. raw_key dg raw = Some k \<and> k \<in> global_keys g' \<and>
        (cr_canonical_failed r = 0 \<longrightarrow> k \<in> canonical_keys d')))"
proof -
  have "cr_discovered r = length raws" using assms(3) by (auto simp: persist_raw_jobs_def split: prod.splits)
  then show ?thesis using persist_raw_jobs_persisted[OF assms(1,2), of dg raws now tgt] unfolding assms(3)
    by (auto simp: persisted_def handled_def)
qed

definition sample_digests :: digests where
  "sample_digests = \<lparr>dg_content = (\<lambda>_. ''content''), dg_text = padded_text\<rparr>"

definition empty_global :: global_db where
  "empty_global = \<lparr>gd_rows = [], gd_next = 0\<rparr>"

lemma empty_global_wf: "global_wf empty_global"
  by (simp add: global_wf_def empty_global_def)

theorem collection_counts_truthful_witness:
  "case persist_raw_jobs sample_digests 0 (sample_target DICE ''qa'') [sample_raw, sample_raw\<lparr>rj_source := ''dice''\<rparr>] (empty_global, empty_db) of
     (r, (g, d)) \<Rightarrow> global_wf g \<and> db_wf d \<and> cr_inserted r + cr_updated r + cr_skipped r + cr_failed r = 2"
proof -
  obtain r g d where p: "persist_raw_jobs sample_digests 0 (sample_target DICE ''qa'') [sample_raw, sample_raw\<lparr>rj_source := ''dice''\<rparr>] (empty_global, empty_db) = (r, (g, d))"
    by (metis prod.exhaust)
  show ?thesis using collection_counts_truthful[OF empty_global_wf empty_db_wf p] p by simp
qed

text \<open>C17: discovery splits the candidates. Of the distinct discovered identifiers exactly those
  that the legacy table scraped within the last six hours, with all core details there or a
  detail payload in the canonical graph, are only marked as seen; all the others, and no one
  else, go to the detail stage, each once and in its last version. The run's result is what the detail
  stage then yields, and if that stage raises nothing is written.\<close>

theorem discovery_partitions_candidates:
  assumes "discover tgt = Inr cs" "global_wf (fst w)" "db_wf (snd w)"
  shows "\<exists>recent details. distinct recent \<and> distinct (map dj_external_id details) \<and>
    (\<forall>i. i \<in> set recent \<longleftrightarrow> i \<in> dj_external_id ` set cs \<and> fresh_listing w (source_str (tg_source tgt)) now i) \<and>
    (\<forall>i. i \<in> dj_external_id ` set details \<longleftrightarrow> i \<in> dj_external_id ` set cs \<and> \<not> fresh_listing w (source_str (tg_source tgt)) now i) \<and>
    (\<forall>c \<in> set details. c = last (filter (\<lambda>x. dj_external_id x = dj_external_id c) cs)) \<and>
    run_collector dg now (TwoStage discover fetch_details) tgt w =
      (case fetch_details tgt details of
         Inl e \<Rightarrow> Inl e
       | Inr raws \<Rightarrow>
           (case persist_raw_jobs dg now tgt raws (touch_recent now (source_str (tg_source tgt)) recent w) of
              (r, w2) \<Rightarrow> Inr (r\<lparr>cr_discovered := length recent + length details, cr_details_fetched := length raws,
                             cr_details_skipped := length recent\<rparr>, w2)))"
  using assms by (rule discovery_partition)

definition sample_discovery :: "target \<Rightarrow> collect_error + discovered_job list" where
  "sample_discovery t = Inr [\<lparr>dj_source = ''dice'', dj_external_id = ''a'', dj_title = ''t'', dj_url = None\<rparr>]"

definition blocked_details :: "target \<Rightarrow> discovered_job list \<Rightarrow> collect_error + raw_job list" where
  "blocked_details t ds = Inl (TemporaryError (int (length ds)))"

theorem discovery_partitions_candidates_witness:
  "run_collector sample_digests 0 (TwoStage sample_discovery blocked_details) (sample_target DICE ''qa'') (empty_global, empty_db) =
     Inl (TemporaryError 1)"
proof -
  note ex = discovery_partitions_candidates[where discover = sample_discovery and fetch_details = blocked_details
      and dg = sample_digests and now = 0 and w = "(empty_global, empty_db)",
      OF sample_discovery_def[of "sample_target DICE ''qa''"]]
  have "\<not> fresh_listing (empty_global, empty_db) s t i" for s t i by (simp add: fresh_listing_def empty_global_def)
  with ex empty_global_wf empty_db_wf show ?thesis
  proof (simp, elim exE conjE, goal_cases)
    case (1 recent details)
    then have "set (map dj_external_id details) = {''a''}" "distinct (map dj_external_id details)" by auto
    then have "length details = 1" by (metis distinct_card length_map card_1_singleton_iff One_nat_def)
    then show ?case using 1 by (simp add: blocked_details_def)
  qed
qed

text \<open>C18: the queued task respects its lease and its transaction. When another worker holds a
  live lease of the target the task changes no table and reports so; when it ran, the lease
  is given back on every path, errors included, if Redis answers within the time to live;
  and when the adapter raises, nothing it wrote survives. A temporary failure asks for a
  retry after the delay it names.\<close>

theorem collection_task_contract:
  assumes "make_target s query location True max_jobs = Some tgt" "dget reg s = Some c" "now \<le> later"
    and "run_job_collection dg reg locks token ok now later (Some s) query location max_jobs (r, tabs) = (out, (r', tabs'))"
  shows "if redis_get r (lock_key locks (identity_of (dg_text dg) tgt)) now \<noteq> None
    then r' = r \<and> tabs' = tabs \<and> (\<exists>t. out = Finished t \<and> tr_status t = SkippedLocked \<and> \<not> tr_lock_acquired t)
    else (ok \<and> later \<le> now + ls_ttl_seconds locks * 1000 \<longrightarrow>
            (\<forall>u. redis_get r' (lock_key locks (identity_of (dg_text dg) tgt)) u = None)) \<and>
      (case run_collector dg (now * 1000) c tgt tabs of
         Inl e \<Rightarrow> tabs' = tabs \<and> (\<forall>n. e = TemporaryError n \<longrightarrow> out = RetryAfter n) \<and>
                  (e = PermanentError \<longrightarrow> (\<exists>t. out = Finished t \<and> tr_status t = Failed))
       | Inr (res, tabs1) \<Rightarrow> tabs' = tabs1 \<and> (\<exists>t. out = Finished t \<and> tr_counts t = res \<and>
                  (tr_status t = Success \<longleftrightarrow> cr_failed res = 0 \<and> cr_canonical_failed res = 0)))"
proof -
  have src: "tg_source tgt = s" using assms(1) by (auto simp: make_target_def Let_def split: if_splits option.splits)
  let ?k = "lock_key locks (identity_of (dg_text dg) tgt)"
  show ?thesis
  proof (cases "redis_get r ?k now = None")
    case False
    then show ?thesis using assms src
      by (auto simp: run_job_collection_def resolve_collector_def acquire_lease_def redis_set_nx_def)
  next
    case True
    let ?r1 = "dset ?k (token, Some (now + ls_ttl_seconds locks * 1000)) r"
    let ?lease = "\<lparr>le_key = ?k, le_token = token, le_released = False\<rparr>"
    have acq: "acquire_lease locks r (identity_of (dg_text dg) tgt) token now = (Some ?lease, ?r1)"
      using True by (simp add: acquire_lease_def redis_set_nx_def)
    have freed: "redis_get (snd (snd (release_lease ?r1 ?lease later))) ?k u = None" if "later \<le> now + ls_ttl_seconds locks * 1000" for u
      using that by (simp add: release_lease_def release_script_def redis_live_def)
    have r': "r' = (if ok then snd (snd (release_lease ?r1 ?lease later)) else ?r1)"
      using assms(2,4) assms(1) src acq
      by (auto simp: run_job_collection_def resolve_collector_def Let_def split: sum.splits collect_error.splits prod.splits)
    show ?thesis
    proof (cases "run_collector dg (now * 1000) c tgt tabs")
      case (Inl e)
      then show ?thesis using assms(1,2,4) src acq True freed r'
        by (cases e) (auto simp: run_job_collection_def resolve_collector_def Let_def)
    next
      case (Inr p)
      then show ?thesis using assms(1,2,4) src acq True freed r'
        by (cases p) (auto simp: run_job_collection_def resolve_collector_def Let_def)
    qed
  qed
qed

theorem collection_task_contract_witness:
  "fst (run_job_collection sample_digests [(DICE, OneStage (\<lambda>_. Inl (TemporaryError 45)))] sample_locks ''tok'' True 0 1000
     (Some DICE) ''qa'' None 100 ([], (empty_global, empty_db))) = RetryAfter 45"
proof -
  let ?run = "run_job_collection sample_digests [(DICE, OneStage (\<lambda>_. Inl (TemporaryError 45)))] sample_locks ''tok'' True 0 1000
     (Some DICE) ''qa'' None 100 ([], (empty_global, empty_db))"
  obtain out r' tabs' where run: "?run = (out, (r', tabs'))" by (metis prod.exhaust)
  have "make_target DICE ''qa'' None True 100 = Some \<lparr>tg_source = DICE, tg_query = ''qa'', tg_location = None, tg_enabled = True, tg_max_jobs = 100\<rparr>"
    by code_simp
  from collection_task_contract[OF this _ _ run] show ?thesis unfolding run
    by (simp add: dict_simps redis_get_def run_collector_def)
qed

end
