(* ===== verification/PyJson.thy ===== *)
theory PyJson
  imports JobModel
begin

text \<open>
  JSON documents as the collectors read them: Python's values (integers and binary64
  floats apart), \<open>str\<close> and \<open>repr\<close> of them, \<open>float\<close> of a decimal numeral, and the decoder of
  the \<open>json\<close> module. Objects are insertion-ordered dictionaries without duplicate keys. A
  character outside Latin-1, which an escape can denote, is read as a question mark; the
  recursion limit and the 4300-digit limit of CPython are not modelled. The decoder takes
  fuel, of which twice the length of the text is enough (\<open>parse_enough\<close>).
\<close>

section \<open>Floats\<close>

datatype pyfloat = Finite bool rat | Infinite bool | NotANumber

definition pow2 :: "int \<Rightarrow> rat" where
  "pow2 e = (if 0 \<le> e then 2 ^ nat e else 1 / 2 ^ nat (- e))"

definition pow10 :: "int \<Rightarrow> rat" where
  "pow10 e = (if 0 \<le> e then 10 ^ nat e else 1 / 10 ^ nat (- e))"

definition round_half_even :: "rat \<Rightarrow> int" where
  "round_half_even x = (let f = \<lfloor>x\<rfloor>; d = x - of_int f in
     if d < 1 / 2 then f else if d > 1 / 2 then f + 1 else if even f then f else f + 1)"

definition radix_size :: "nat \<Rightarrow> int \<Rightarrow> int" where
  "radix_size b i = int (length (digits b (nat i)))"

text \<open>The binary64 value nearest to a non-negative rational, ties to even; \<open>None\<close> on overflow.\<close>

definition read_magnitude :: "rat \<Rightarrow> rat option" where
  "read_magnitude x = (if x \<le> 0 then Some 0 else
     (case quotient_of x of (p, q) \<Rightarrow>
       let e0 = radix_size 2 p - radix_size 2 q;
           e = max (- 1074) (if x < pow2 e0 then e0 - 53 else e0 - 52);
           v = of_int (round_half_even (x / pow2 e)) * pow2 e
       in if v \<ge> pow2 1024 then None else Some v))"

definition decimal_exponent :: "rat \<Rightarrow> int" where
  "decimal_exponent x = (case quotient_of x of (p, q) \<Rightarrow>
     let k = radix_size 10 p - radix_size 10 q in if x < pow10 k then k - 1 else k)"

text \<open>The shortest decimal that reads back as the positive float \<open>x\<close>, the nearest of those:
  a whole number and the power of ten it counts.\<close>

definition shortest_at :: "rat \<Rightarrow> nat \<Rightarrow> (int \<times> int) option" where
  "shortest_at x n = (let s = decimal_exponent x - int n + 1; lo = \<lfloor>x / pow10 s\<rfloor>;
     near = round_half_even (x / pow10 s); far = (if near = lo then lo + 1 else lo);
     ok = (\<lambda>d. read_magnitude (of_int d * pow10 s) = Some x)
     in if ok near then Some (near, s) else if ok far then Some (far, s) else None)"

definition shortest_decimal :: "rat \<Rightarrow> int \<times> int" where
  "shortest_decimal x = (case first_some (shortest_at x) [1..<17] of
      Some r \<Rightarrow> r
    | None \<Rightarrow> (let s = decimal_exponent x - 16 in (round_half_even (x / pow10 s), s)))"

definition magnitude_str :: "rat \<Rightarrow> string" where
  "magnitude_str x = (if x = 0 then ''0.0'' else
     (case shortest_decimal x of (d, s) \<Rightarrow>
       let all = nat_str (nat d); point = int (length all) + s;
           ds = rev (dropWhile (\<lambda>c. c = CHR ''0'') (rev all)); n = int (length ds)
       in if point \<le> - 4 \<or> 16 < point then
            (let e = point - 1; es = nat_str (nat \<bar>e\<bar>) in
             take 1 ds @ (if n > 1 then CHR ''.'' # drop 1 ds else []) @ ''e'' @ (if e < 0 then ''-'' else ''+'') @
             (if length es < 2 then CHR ''0'' # es else es))
          else if point \<le> 0 then ''0.'' @ replicate (nat (- point)) (CHR ''0'') @ ds
          else if n \<le> point then ds @ replicate (nat (point - n)) (CHR ''0'') @ ''.0''
          else take (nat point) ds @ CHR ''.'' # drop (nat point) ds))"

fun float_str :: "pyfloat \<Rightarrow> string" where
  "float_str (Finite neg x) = (if neg then ''-'' else []) @ magnitude_str x"
| "float_str (Infinite neg) = (if neg then ''-inf'' else ''inf'')"
| "float_str NotANumber = ''nan''"

text \<open>\<open>float(text)\<close> of a numeral with the exact value \<open>x\<close>.\<close>

definition read_float :: "bool \<Rightarrow> rat \<Rightarrow> pyfloat" where
  "read_float neg x = (case read_magnitude x of None \<Rightarrow> Infinite neg | Some v \<Rightarrow> Finite neg v)"

text \<open>\<open>Decimal(str(f))\<close>, for finite floats.\<close>

fun float_decimal :: "pyfloat \<Rightarrow> rat option" where
  "float_decimal (Finite neg x) = Some (if x = 0 then 0
     else case shortest_decimal x of (d, s) \<Rightarrow> (if neg then - 1 else 1) * of_int d * pow10 s)"
| "float_decimal _ = None"

section \<open>Values\<close>

datatype jval = VNull | VBool bool | VInt int | VFloat pyfloat | VStr string | VList "jval list"
  | VDict "(string \<times> jval) list"

definition is_number :: "jval \<Rightarrow> bool" where
  "is_number v \<longleftrightarrow> (case v of VInt _ \<Rightarrow> True | VFloat _ \<Rightarrow> True | VBool _ \<Rightarrow> True | _ \<Rightarrow> False)"

fun truthy_val :: "jval \<Rightarrow> bool" where
  "truthy_val VNull = False"
| "truthy_val (VBool b) = b"
| "truthy_val (VInt i) = (i \<noteq> 0)"
| "truthy_val (VFloat f) = (case f of Finite _ x \<Rightarrow> x \<noteq> 0 | _ \<Rightarrow> True)"
| "truthy_val (VStr s) = (s \<noteq> [])"
| "truthy_val (VList xs) = (xs \<noteq> [])"
| "truthy_val (VDict d) = (d \<noteq> [])"

definition hex_escape :: "char \<Rightarrow> string" where
  "hex_escape c = [CHR 0x5C, CHR ''x''] @ [digit_char (char_code c div 16), digit_char (char_code c mod 16)]"

definition repr_char :: "char \<Rightarrow> char \<Rightarrow> string" where
  "repr_char quote c = (let n = char_code c in
     if c = quote \<or> n = 92 then [CHR 0x5C, c]
     else if n = 9 then [CHR 0x5C, CHR ''t''] else if n = 10 then [CHR 0x5C, CHR ''n''] else if n = 13 then [CHR 0x5C, CHR ''r'']
     else if n < 32 \<or> (127 \<le> n \<and> n \<le> 160) \<or> n = 173 then hex_escape c else [c])"

definition repr_str :: "string \<Rightarrow> string" where
  "repr_str s = (let quote = (if CHR 0x27 \<in> set s \<and> CHR 0x22 \<notin> set s then CHR 0x22 else CHR 0x27)
     in quote # concat (map (repr_char quote) s) @ [quote])"

fun py_repr :: "jval \<Rightarrow> string" and reprs :: "jval list \<Rightarrow> string list"
  and repr_items :: "(string \<times> jval) list \<Rightarrow> string list" where
  "py_repr VNull = ''None''"
| "py_repr (VBool b) = (if b then ''True'' else ''False'')"
| "py_repr (VInt i) = int_str i"
| "py_repr (VFloat f) = float_str f"
| "py_repr (VStr s) = repr_str s"
| "py_repr (VList xs) = ''['' @ join '', '' (reprs xs) @ '']''"
| "py_repr (VDict d) = ''{'' @ join '', '' (repr_items d) @ ''}''"
| "reprs [] = []"
| "reprs (x # xs) = py_repr x # reprs xs"
| "repr_items [] = []"
| "repr_items ((k, v) # d) = (repr_str k @ '': '' @ py_repr v) # repr_items d"

definition py_str :: "jval \<Rightarrow> string" where
  "py_str v = (case v of VStr s \<Rightarrow> s | _ \<Rightarrow> py_repr v)"

text \<open>\<open>mapping.get(key)\<close>: an absent key gives \<open>None\<close>.\<close>

definition jget :: "(string \<times> jval) list \<Rightarrow> string \<Rightarrow> jval" where
  "jget d k = (case dget d k of None \<Rightarrow> VNull | Some v \<Rightarrow> v)"

text \<open>\<open>a or b\<close>.\<close>

definition val_or :: "jval \<Rightarrow> jval \<Rightarrow> jval" where
  "val_or a b = (if truthy_val a then a else b)"

text \<open>The value as a JSON column keeps it.\<close>

fun to_json :: "jval \<Rightarrow> json" and to_jsons :: "jval list \<Rightarrow> json list"
  and to_items :: "(string \<times> jval) list \<Rightarrow> (string \<times> json) list" where
  "to_json VNull = JNull"
| "to_json (VBool b) = JBool b"
| "to_json (VInt i) = JNum (of_int i)"
| "to_json (VFloat f) = (case f of Finite neg x \<Rightarrow> JNum (if neg then - x else x) | _ \<Rightarrow> JStr (float_str f))"
| "to_json (VStr s) = JStr s"
| "to_json (VList xs) = JList (to_jsons xs)"
| "to_json (VDict d) = JObj (to_items d)"
| "to_jsons [] = []"
| "to_jsons (x # xs) = to_json x # to_jsons xs"
| "to_items [] = []"
| "to_items ((k, v) # d) = (k, to_json v) # to_items d"

section \<open>The decoder\<close>

definition json_ws :: "char \<Rightarrow> bool" where
  "json_ws c \<longleftrightarrow> char_code c \<in> {32, 9, 10, 13}"

definition skip_ws :: "string \<Rightarrow> string" where
  "skip_ws s = dropWhile json_ws s"

definition hex4 :: "string \<Rightarrow> nat option" where
  "hex4 s = (if length s < 4 then None else map_option (undigits 16) (those (map hex_value (take 4 s))))"

definition code_point_char :: "nat \<Rightarrow> char" where
  "code_point_char n = (if n < 256 then char_of n else CHR ''?'')"

definition simple_escape :: "char \<Rightarrow> char option" where
  "simple_escape e = map_of [(CHR 0x22, CHR 0x22), (CHR 0x5C, CHR 0x5C), (CHR ''/'', CHR ''/''), (CHR ''b'', CHR 0x08),
     (CHR ''f'', CHR 0x0C), (CHR ''n'', CHR 0x0A), (CHR ''r'', CHR 0x0D), (CHR ''t'', CHR 0x09)] e"

text \<open>How many characters after \<open>\u\<close> an escape takes: a surrogate pair is one character.\<close>

definition unicode_escape :: "string \<Rightarrow> (char \<times> nat) option" where
  "unicode_escape s = (case hex4 s of
      None \<Rightarrow> None
    | Some n \<Rightarrow>
        if 0xD800 \<le> n \<and> n \<le> 0xDBFF \<and> take 2 (drop 4 s) = [CHR 0x5C, CHR ''u''] then
          (case hex4 (drop 6 s) of
             Some m \<Rightarrow> if 0xDC00 \<le> m \<and> m \<le> 0xDFFF then Some (code_point_char (0x10000 + (n - 0xD800) * 1024 + (m - 0xDC00)), 10)
                       else Some (code_point_char n, 4)
           | None \<Rightarrow> None)
        else Some (code_point_char n, 4))"

text \<open>The text after an opening quote: the string and what follows its closing quote.\<close>

fun scan_string :: "string \<Rightarrow> (string \<times> string) option" where
  "scan_string [] = None"
| "scan_string (c # s) =
     (if c = CHR 0x22 then Some ([], s)
      else if c = CHR 0x5C then
        (case s of
           [] \<Rightarrow> None
         | e # s' \<Rightarrow>
             if e = CHR ''u'' then
               (case unicode_escape s' of
                  None \<Rightarrow> None
                | Some (d, n) \<Rightarrow> map_option (apfst ((#) d)) (scan_string (drop n s')))
             else (case simple_escape e of
                 None \<Rightarrow> None
               | Some d \<Rightarrow> map_option (apfst ((#) d)) (scan_string s')))
      else if char_code c < 32 then None
      else map_option (apfst ((#) c)) (scan_string s))"

definition scan_fraction :: "string \<Rightarrow> string \<times> string" where
  "scan_fraction s = (case s of
      c # r \<Rightarrow> if c = CHR ''.'' \<and> takeWhile is_digit r \<noteq> [] then (takeWhile is_digit r, dropWhile is_digit r) else ([], s)
    | [] \<Rightarrow> ([], s))"

definition scan_exponent :: "string \<Rightarrow> int option \<times> string" where
  "scan_exponent s = (case s of
      c # r \<Rightarrow>
        if c = CHR ''e'' \<or> c = CHR ''E'' then
          (let neg = (r \<noteq> [] \<and> hd r = CHR ''-''); t = (if r \<noteq> [] \<and> (hd r = CHR ''-'' \<or> hd r = CHR ''+'') then tl r else r);
               ds = takeWhile is_digit t
           in if ds = [] then (None, s)
              else (Some (if neg then - int (nat_of_digits ds) else int (nat_of_digits ds)), dropWhile is_digit t))
        else (None, s)
    | [] \<Rightarrow> (None, s))"

definition scan_unsigned :: "bool \<Rightarrow> string \<Rightarrow> (jval \<times> string) option" where
  "scan_unsigned neg s = (let all = takeWhile is_digit s; ds = (if all \<noteq> [] \<and> hd all = CHR ''0'' then take 1 all else all);
       (fs, r1) = scan_fraction (drop (length ds) s); (ex, r2) = scan_exponent r1
     in if ds = [] then None
        else if fs = [] \<and> ex = None then Some (VInt (if neg then - int (nat_of_digits ds) else int (nat_of_digits ds)), r2)
        else Some (VFloat (read_float neg (of_nat (nat_of_digits (ds @ fs)) *
               pow10 ((case ex of None \<Rightarrow> 0 | Some e \<Rightarrow> e) - int (length fs)))), r2))"

definition constants :: "(string \<times> jval) list" where
  "constants = [(''null'', VNull), (''true'', VBool True), (''false'', VBool False), (''NaN'', VFloat NotANumber),
     (''Infinity'', VFloat (Infinite False)), (''-Infinity'', VFloat (Infinite True))]"

definition scan_scalar :: "string \<Rightarrow> (jval \<times> string) option" where
  "scan_scalar s = (case first_some (\<lambda>(t, v). if prefix t s then Some (v, drop (length t) s) else None) constants of
      Some r \<Rightarrow> Some r
    | None \<Rightarrow> (case s of
          [] \<Rightarrow> None
        | c # r \<Rightarrow> if c = CHR 0x22 then map_option (apfst VStr) (scan_string r)
            else if c = CHR ''-'' then scan_unsigned True r else scan_unsigned False s))"

datatype json_fail = BadJson | NoFuel

type_synonym 'a scan = "json_fail + 'a \<times> string"

text \<open>\<open>parse_items\<close> and \<open>parse_members\<close> continue a list or an object that has at least one more
  entry.\<close>

fun parse_value :: "nat \<Rightarrow> string \<Rightarrow> jval scan"
  and parse_items :: "nat \<Rightarrow> jval list \<Rightarrow> string \<Rightarrow> jval scan"
  and parse_members :: "nat \<Rightarrow> (string, jval) dict \<Rightarrow> string \<Rightarrow> jval scan" where
  "parse_value 0 s = Inl NoFuel"
| "parse_value (Suc n) s = (case s of
      [] \<Rightarrow> Inl BadJson
    | c # r \<Rightarrow>
        if c = CHR ''{'' then
          (let t = skip_ws r in if t \<noteq> [] \<and> hd t = CHR ''}'' then Inr (VDict [], tl t) else parse_members n [] t)
        else if c = CHR ''['' then
          (let t = skip_ws r in if t \<noteq> [] \<and> hd t = CHR '']'' then Inr (VList [], tl t) else parse_items n [] t)
        else (case scan_scalar s of None \<Rightarrow> Inl BadJson | Some p \<Rightarrow> Inr p))"
| "parse_items 0 acc s = Inl NoFuel"
| "parse_items (Suc n) acc s = (case parse_value n s of
      Inl e \<Rightarrow> Inl e
    | Inr (v, r) \<Rightarrow> (case skip_ws r of
          [] \<Rightarrow> Inl BadJson
        | c # t \<Rightarrow> if c = CHR '']'' then Inr (VList (acc @ [v]), t)
            else if c = CHR '','' then parse_items n (acc @ [v]) (skip_ws t) else Inl BadJson))"
| "parse_members 0 acc s = Inl NoFuel"
| "parse_members (Suc n) acc s = (case s of
      [] \<Rightarrow> Inl BadJson
    | q # s' \<Rightarrow> if q \<noteq> CHR 0x22 then Inl BadJson else
        (case scan_string s' of
           None \<Rightarrow> Inl BadJson
         | Some (k, r) \<Rightarrow> (case skip_ws r of
               [] \<Rightarrow> Inl BadJson
             | c # t \<Rightarrow> if c \<noteq> CHR '':'' then Inl BadJson else
                 (case parse_value n (skip_ws t) of
                    Inl e \<Rightarrow> Inl e
                  | Inr (v, u) \<Rightarrow> (case skip_ws u of
                        [] \<Rightarrow> Inl BadJson
                      | d # w \<Rightarrow> if d = CHR ''}'' then Inr (VDict (dset k v acc), w)
                          else if d = CHR '','' then parse_members n (dset k v acc) (skip_ws w) else Inl BadJson)))))"

text \<open>\<open>raw_decode\<close> at the start of a text, and \<open>json.loads\<close>.\<close>

definition raw_decode :: "string \<Rightarrow> (jval \<times> string) option" where
  "raw_decode s = (case parse_value (2 * length s + 1) s of Inl _ \<Rightarrow> None | Inr p \<Rightarrow> Some p)"

definition json_loads :: "string \<Rightarrow> jval option" where
  "json_loads s = (case raw_decode (skip_ws s) of
      None \<Rightarrow> None
    | Some (v, r) \<Rightarrow> if skip_ws r = [] then Some v else None)"

section \<open>Lemmas\<close>

lemma length_skip_ws: "length (skip_ws s) \<le> length s"
  by (simp add: skip_ws_def length_dropWhile_le)

lemma suffix_skip_ws: "suffix (skip_ws s) s"
  by (simp add: skip_ws_def suffix_dropWhile)

lemma suffix_tl: "suffix (tl s) s"
  by (cases s) (auto simp: suffix_def)

lemmas suffix_steps = suffix_skip_ws suffix_tl suffix_drop suffix_dropWhile

definition shorter :: "string \<Rightarrow> string \<Rightarrow> bool" where
  "shorter r s \<longleftrightarrow> suffix r s \<and> length r < length s"

lemma shorter_Cons: "suffix r s \<Longrightarrow> shorter r (c # s)"
  by (auto simp: shorter_def suffix_def)

lemma shorter_within: "shorter r s \<Longrightarrow> suffix s t \<Longrightarrow> shorter r t"
  unfolding shorter_def using suffix_length_le suffix_order.trans by fastforce

lemma within_shorter: "suffix r s \<Longrightarrow> shorter s t \<Longrightarrow> shorter r t"
  unfolding shorter_def using suffix_length_le suffix_order.trans by fastforce

lemma shorter_suffix: "shorter r s \<Longrightarrow> suffix r s"
  by (simp add: shorter_def)

lemma scan_string_shorter: "scan_string s = Some (v, r) \<Longrightarrow> shorter r s"
proof (induction s arbitrary: v r rule: scan_string.induct)
  case (2 c s)
  consider "c = CHR 0x22" | e s' d n where "c = CHR 0x5C" "s = e # s'" "e = CHR ''u''" "unicode_escape s' = Some (d, n)"
    | e s' d where "c = CHR 0x5C" "s = e # s'" "e \<noteq> CHR ''u''" "simple_escape e = Some d"
    | "c \<noteq> CHR 0x22" "c \<noteq> CHR 0x5C" "\<not> char_code c < 32"
    using "2.prems" by (auto split: if_splits list.splits option.splits prod.splits)
  then show ?case
  proof cases
    case 1
    then show ?thesis using "2.prems" by (simp add: shorter_Cons)
  next
    case 2
    then obtain v' where "scan_string (drop n s') = Some (v', r)" using "2.prems" by auto
    then have "suffix r s'" using "2.IH"(1)[OF _ _ 2(2,3,4) refl] 2 shorter_suffix suffix_drop suffix_order.trans by fastforce
    then show ?thesis using 2(2) by (simp add: shorter_Cons suffix_ConsI)
  next
    case 3
    then obtain v' where "scan_string s' = Some (v', r)" using "2.prems" by auto
    then have "suffix r s'" using "2.IH"(2)[OF _ _ 3(2,3,4)] 3 shorter_suffix by fastforce
    then show ?thesis using 3(2) by (simp add: shorter_Cons suffix_ConsI)
  next
    case 4
    then obtain v' where "scan_string s = Some (v', r)" using "2.prems" by auto
    then show ?thesis using "2.IH"(3) 4 shorter_suffix shorter_Cons by blast
  qed
qed simp

lemma scan_fraction_suffix: "suffix (snd (scan_fraction s)) s"
  by (auto simp: scan_fraction_def suffix_dropWhile suffix_ConsI split: list.splits)

lemma scan_exponent_suffix: "suffix (snd (scan_exponent s)) s"
proof (cases s)
  case (Cons c r)
  have "suffix (dropWhile is_digit t) r" if "t = r \<or> t = tl r" for t
    using that suffix_dropWhile suffix_tl suffix_order.trans by blast
  then show ?thesis using Cons by (auto simp: scan_exponent_def Let_def intro: suffix_ConsI)
qed (simp add: scan_exponent_def)

lemma scan_unsigned_shorter: "scan_unsigned neg s = Some (v, r) \<Longrightarrow> shorter r s"
proof -
  assume a: "scan_unsigned neg s = Some (v, r)"
  define ds where "ds = (let all = takeWhile is_digit s in if all \<noteq> [] \<and> hd all = CHR ''0'' then take 1 all else all)"
  define r1 where "r1 = snd (scan_fraction (drop (length ds) s))"
  have ne: "ds \<noteq> []" and r: "r = snd (scan_exponent r1)"
    using a by (auto simp: scan_unsigned_def ds_def r1_def Let_def split: prod.splits if_splits)
  have "suffix r (drop (length ds) s)"
    unfolding r r1_def using scan_fraction_suffix scan_exponent_suffix suffix_order.trans by blast
  moreover have "shorter (drop (length ds) s) s"
    using ne by (cases s) (auto simp: shorter_def ds_def suffix_drop)
  ultimately show "shorter r s" by (rule within_shorter)
qed

lemma scan_scalar_shorter: "scan_scalar s = Some (v, r) \<Longrightarrow> shorter r s"
proof -
  assume a: "scan_scalar s = Some (v, r)"
  have literal: "shorter (drop (length t) s) s" if "(t, w) \<in> set constants" "prefix t s" for t w
    using that by (cases s) (auto simp: shorter_def constants_def suffix_drop prefix_def)
  show "shorter r s"
  proof (cases "first_some (\<lambda>(t, v). if prefix t s then Some (v, drop (length t) s) else None) constants")
    case (Some p)
    then obtain t w where "(t, w) \<in> set constants" "prefix t s" "p = (w, drop (length t) s)"
      using first_someD by (fastforce split: if_splits)
    then show ?thesis using a Some literal[of t w] by (simp add: scan_scalar_def)
  next
    case None
    then obtain c u where s: "s = c # u" using a by (cases s) (auto simp: scan_scalar_def)
    consider w where "scan_string u = Some (w, r)" | "scan_unsigned True u = Some (v, r)" | "scan_unsigned False s = Some (v, r)"
      using a None s by (auto simp: scan_scalar_def split: if_splits)
    then show ?thesis
      using scan_string_shorter scan_unsigned_shorter shorter_suffix shorter_Cons s by cases blast+
  qed
qed

lemma parse_shorter:
  "parse_value n s = Inr (v, r) \<Longrightarrow> shorter r s"
  "parse_items n xs s = Inr (v, r) \<Longrightarrow> shorter r s"
  "parse_members n d s = Inr (v, r) \<Longrightarrow> shorter r s"
proof (induction n s and n xs s and n d s arbitrary: v r and v r and v r rule: parse_value_parse_items_parse_members.induct)
  case (2 n s)
  obtain c t where s: "s = c # t" using "2.prems" by (cases s) auto
  consider "c = CHR ''{'' \<or> c = CHR ''[''" "skip_ws t \<noteq> []" "r = tl (skip_ws t)"
    | "c = CHR ''{''" "parse_members n [] (skip_ws t) = Inr (v, r)" "\<not> (skip_ws t \<noteq> [] \<and> hd (skip_ws t) = CHR ''}'')"
    | "c = CHR ''[''" "parse_items n [] (skip_ws t) = Inr (v, r)" "\<not> (skip_ws t \<noteq> [] \<and> hd (skip_ws t) = CHR '']'')"
    | "scan_scalar s = Some (v, r)"
    using "2.prems" s by (auto simp: Let_def split: if_splits option.splits)
  then show ?case
  proof cases
    case 1
    then show ?thesis using s suffix_tl suffix_skip_ws suffix_order.trans shorter_Cons by metis
  next
    case 2
    then show ?thesis using "2.IH"(1)[OF s 2(1) refl 2(3,2)] s shorter_suffix suffix_skip_ws suffix_order.trans shorter_Cons by metis
  next
    case 3
    then show ?thesis using "2.IH"(2)[OF s _ 3(1) refl 3(3,2)] s shorter_suffix suffix_skip_ws suffix_order.trans shorter_Cons by fastforce
  next
    case 4
    then show ?thesis by (rule scan_scalar_shorter)
  qed
next
  case (4 n acc s)
  obtain w t where v: "parse_value n s = Inr (w, t)" using "4.prems" by (auto split: sum.splits)
  obtain c u where c: "skip_ws t = c # u" using "4.prems" v by (auto split: list.splits)
  have u: "shorter u s"
    using "4.IH"(1)[OF v] c suffix_skip_ws[of t] by (metis shorter_def suffix_ConsD suffix_order.trans within_shorter)
  show ?case
  proof (cases "c = CHR '']''")
    case True
    then show ?thesis using "4.prems" v c u by simp
  next
    case False
    then have "parse_items n (acc @ [w]) (skip_ws u) = Inr (v, r)" "c = CHR '',''" using "4.prems" v c by (auto split: if_splits)
    then show ?thesis using "4.IH"(2)[OF v refl c] False u suffix_skip_ws shorter_suffix within_shorter suffix_order.trans by metis
  qed
next
  case (6 n acc s)
  obtain s' where s: "s = CHR 0x22 # s'" using "6.prems" by (auto split: list.splits if_splits)
  obtain k t where k: "scan_string s' = Some (k, t)" using "6.prems" s by (auto split: option.splits)
  obtain u where u: "skip_ws t = CHR '':'' # u" using "6.prems" s k by (auto split: list.splits if_splits)
  obtain w x where w: "parse_value n (skip_ws u) = Inr (w, x)" using "6.prems" s k u by (auto split: sum.splits)
  obtain c y where c: "skip_ws x = c # y" using "6.prems" s k u w by (auto split: list.splits)
  have "suffix u s'"
    using scan_string_shorter[OF k] suffix_skip_ws[of t] u by (metis shorter_suffix suffix_ConsD suffix_order.trans)
  moreover have "suffix y u"
    using "6.IH"(1)[OF s _ k refl u _ w] suffix_skip_ws c by (metis shorter_suffix suffix_ConsD suffix_order.trans)
  ultimately have y: "shorter y s" using s shorter_Cons suffix_order.trans by metis
  show ?case
  proof (cases "c = CHR ''}''")
    case True
    then show ?thesis using "6.prems" s k u w c y by simp
  next
    case False
    then have "parse_members n (dset k w acc) (skip_ws y) = Inr (v, r)" "c = CHR '',''" using "6.prems" s k u w c by (auto split: if_splits)
    then show ?thesis
      using "6.IH"(2)[OF s _ k refl u _ w refl c False] y suffix_skip_ws shorter_suffix within_shorter suffix_order.trans by metis
  qed
qed simp_all

lemmas parse_induct = parse_value_parse_items_parse_members.induct

lemma parse_enough:
  "2 * length s < n \<Longrightarrow> parse_value n s \<noteq> Inl NoFuel"
  "2 * length s + 1 < n \<Longrightarrow> parse_items n xs s \<noteq> Inl NoFuel"
  "2 * length s + 1 < n \<Longrightarrow> parse_members n d s \<noteq> Inl NoFuel"
proof (induction n s and n xs s and n d s rule: parse_induct)
  case (2 n s)
  show ?case
  proof (cases s)
    case (Cons c t)
    have m: "2 * length (skip_ws t) + 1 < n" using "2.prems" Cons length_skip_ws[of t] by simp
    have "parse_members n [] (skip_ws t) \<noteq> Inl NoFuel" if "c = CHR ''{''" "\<not> (skip_ws t \<noteq> [] \<and> hd (skip_ws t) = CHR ''}'')"
      using "2.IH"(1)[OF Cons that(1) refl that(2) m] .
    moreover have "parse_items n [] (skip_ws t) \<noteq> Inl NoFuel"
      if "c \<noteq> CHR ''{''" "c = CHR ''[''" "\<not> (skip_ws t \<noteq> [] \<and> hd (skip_ws t) = CHR '']'')"
      using "2.IH"(2)[OF Cons that(1,2) refl that(3) m] .
    ultimately show ?thesis using Cons by (auto simp: Let_def split: option.splits)
  qed simp
next
  case (4 n acc s)
  have v: "parse_value n s \<noteq> Inl NoFuel" using "4.IH"(1) "4.prems" by simp
  show ?case
  proof (cases "parse_value n s")
    case (Inr p)
    then obtain w t where p: "parse_value n s = Inr (w, t)" by (cases p) simp
    show ?thesis
    proof (cases "skip_ws t")
      case (Cons c u)
      have "2 * length (skip_ws u) + 1 < n"
        using "4.prems" parse_shorter(1)[OF p] length_skip_ws[of t] length_skip_ws[of u] Cons unfolding shorter_def by simp
      then have "c \<noteq> CHR '']'' \<Longrightarrow> c = CHR '','' \<Longrightarrow> parse_items n (acc @ [w]) (skip_ws u) \<noteq> Inl NoFuel"
        using "4.IH"(2)[OF p refl Cons] by simp
      then show ?thesis using p Cons by simp
    qed (simp add: p)
  qed (use v in auto)
next
  case (6 n acc s)
  show ?case
  proof (cases "\<exists>s' k t u. s = CHR 0x22 # s' \<and> scan_string s' = Some (k, t) \<and> skip_ws t = CHR '':'' # u")
    case False
    then show ?thesis by (auto split: list.splits option.splits)
  next
    case True
    then obtain s' k t u where s: "s = CHR 0x22 # s'" "scan_string s' = Some (k, t)" "skip_ws t = CHR '':'' # u" by blast
    have u: "2 * length (skip_ws u) + 1 < n"
      using "6.prems" scan_string_shorter[OF s(2)] length_skip_ws[of t] length_skip_ws[of u] s unfolding shorter_def by simp
    have v: "parse_value n (skip_ws u) \<noteq> Inl NoFuel"
      using "6.IH"(1)[OF s(1) _ s(2) refl s(3)] u by simp
    show ?thesis
    proof (cases "parse_value n (skip_ws u)")
      case (Inr p)
      then obtain w x where p: "parse_value n (skip_ws u) = Inr (w, x)" by (cases p) simp
      show ?thesis
      proof (cases "skip_ws x")
        case (Cons c y)
        have "2 * length (skip_ws y) + 1 < n"
          using u parse_shorter(1)[OF p] length_skip_ws[of x] length_skip_ws[of y] Cons unfolding shorter_def by simp
        then have "c \<noteq> CHR ''}'' \<Longrightarrow> c = CHR '','' \<Longrightarrow> parse_members n (dset k w acc) (skip_ws y) \<noteq> Inl NoFuel"
          using "6.IH"(2)[OF s(1) _ s(2) refl s(3) _ p refl Cons] by simp
        then show ?thesis using s p Cons by simp
      qed (simp add: s p)
    qed (use v s in auto)
  qed
qed simp_all

lemma parse_more_fuel:
  "parse_value n s \<noteq> Inl NoFuel \<Longrightarrow> parse_value (Suc n) s = parse_value n s"
  "parse_items n xs s \<noteq> Inl NoFuel \<Longrightarrow> parse_items (Suc n) xs s = parse_items n xs s"
  "parse_members n d s \<noteq> Inl NoFuel \<Longrightarrow> parse_members (Suc n) d s = parse_members n d s"
proof (induction n s and n xs s and n d s rule: parse_induct)
  case (2 n s)
  show ?case
  proof (cases s)
    case (Cons c t)
    have "parse_members (Suc n) [] (skip_ws t) = parse_members n [] (skip_ws t)"
      if "c = CHR ''{''" "\<not> (skip_ws t \<noteq> [] \<and> hd (skip_ws t) = CHR ''}'')"
      using "2.IH"(1)[OF Cons that(1) refl that(2)] "2.prems" Cons that by simp
    moreover have "parse_items (Suc n) [] (skip_ws t) = parse_items n [] (skip_ws t)"
      if "c \<noteq> CHR ''{''" "c = CHR ''[''" "\<not> (skip_ws t \<noteq> [] \<and> hd (skip_ws t) = CHR '']'')"
      using "2.IH"(2)[OF Cons that(1,2) refl that(3)] "2.prems" Cons that by simp
    ultimately show ?thesis
      unfolding parse_value.simps(2)[of "Suc n" s] parse_value.simps(2)[of n s] unfolding Cons list.case Let_def
      by (auto simp del: parse_members.simps parse_items.simps)
  qed simp
next
  case (4 n acc s)
  have v: "parse_value (Suc n) s = parse_value n s" using "4.IH"(1) "4.prems"
    by (cases "parse_value n s = Inl NoFuel") (auto simp del: parse_value.simps)
  show ?case
  proof (cases "parse_value n s")
    case (Inr p)
    then obtain w t where p: "parse_value n s = Inr (w, t)" by (cases p) simp
    show ?thesis
    proof (cases "skip_ws t")
      case (Cons c u)
      have "c \<noteq> CHR '']'' \<Longrightarrow> c = CHR '','' \<Longrightarrow> parse_items (Suc n) (acc @ [w]) (skip_ws u) = parse_items n (acc @ [w]) (skip_ws u)"
        using "4.IH"(2)[OF p refl Cons] "4.prems" p Cons by simp
      then show ?thesis
        unfolding parse_items.simps(2)[of "Suc n" acc s] parse_items.simps(2)[of n acc s] v p
        by (simp add: Cons del: parse_items.simps)
    qed (simp add: v p del: parse_value.simps)
  qed (simp add: v del: parse_value.simps)
next
  case (6 n acc s)
  show ?case
  proof (cases "\<exists>s' k t u. s = CHR 0x22 # s' \<and> scan_string s' = Some (k, t) \<and> skip_ws t = CHR '':'' # u")
    case False
    then show ?thesis by (auto split: list.splits option.splits simp del: parse_value.simps)
  next
    case True
    then obtain s' k t u where s: "s = CHR 0x22 # s'" "scan_string s' = Some (k, t)" "skip_ws t = CHR '':'' # u" by blast
    have v: "parse_value (Suc n) (skip_ws u) = parse_value n (skip_ws u)"
      using "6.IH"(1)[OF s(1) _ s(2) refl s(3)] "6.prems" s
      by (cases "parse_value n (skip_ws u) = Inl NoFuel") (auto simp del: parse_value.simps)
    show ?thesis
    proof (cases "parse_value n (skip_ws u)")
      case (Inr p)
      then obtain w x where p: "parse_value n (skip_ws u) = Inr (w, x)" by (cases p) simp
      show ?thesis
      proof (cases "skip_ws x")
        case (Cons c y)
        have "c \<noteq> CHR ''}'' \<Longrightarrow> c = CHR '','' \<Longrightarrow>
            parse_members (Suc n) (dset k w acc) (skip_ws y) = parse_members n (dset k w acc) (skip_ws y)"
          using "6.IH"(2)[OF s(1) _ s(2) refl s(3) _ p refl Cons] "6.prems" s p Cons by simp
        then show ?thesis
          unfolding parse_members.simps(2)[of "Suc n" acc s] parse_members.simps(2)[of n acc s]
          by (simp add: s v p Cons del: parse_members.simps parse_value.simps)
      qed (simp add: s v p del: parse_value.simps)
    qed (simp add: s v del: parse_value.simps)
  qed
qed simp_all

text \<open>Objects of a decoded value have no duplicate keys, at any depth.\<close>

fun jval_wf :: "jval \<Rightarrow> bool" where
  "jval_wf (VList xs) = (\<forall>x \<in> set xs. jval_wf x)"
| "jval_wf (VDict d) = (dict_wf d \<and> (\<forall>(k, x) \<in> set d. jval_wf x))"
| "jval_wf _ = True"

lemma scalar_wf: "scan_scalar s = Some (v, r) \<Longrightarrow> jval_wf v"
proof -
  have lits: "\<forall>(t, w) \<in> set constants. jval_wf w" by (simp add: constants_def)
  have num: "scan_unsigned neg u = Some (v, r) \<Longrightarrow> jval_wf v" for neg u
    by (auto simp: scan_unsigned_def Let_def split: prod.splits if_splits)
  assume "scan_scalar s = Some (v, r)"
  then show ?thesis
    using lits num by (fastforce simp: scan_scalar_def dest!: first_someD split: option.splits list.splits if_splits)
qed

lemma parse_wf:
  "parse_value n s = Inr (v, r) \<Longrightarrow> jval_wf v"
  "parse_items n xs s = Inr (v, r) \<Longrightarrow> \<forall>x \<in> set xs. jval_wf x \<Longrightarrow> jval_wf v"
  "parse_members n d s = Inr (v, r) \<Longrightarrow> dict_wf d \<Longrightarrow> \<forall>(k, x) \<in> set d. jval_wf x \<Longrightarrow> jval_wf v"
proof (induction n s and n xs s and n d s arbitrary: v r and v r and v r rule: parse_induct)
  case (2 n s)
  then obtain c t where s: "s = c # t" by (cases s) auto
  consider "v = VDict []" | "v = VList []" | "scan_scalar s = Some (v, r)"
    | "c = CHR ''{''" "\<not> (skip_ws t \<noteq> [] \<and> hd (skip_ws t) = CHR ''}'')" "parse_members n [] (skip_ws t) = Inr (v, r)"
    | "c \<noteq> CHR ''{''" "c = CHR ''[''" "\<not> (skip_ws t \<noteq> [] \<and> hd (skip_ws t) = CHR '']'')" "parse_items n [] (skip_ws t) = Inr (v, r)"
    using "2.prems" s by (auto simp: Let_def split: if_splits option.splits)
  then show ?case
    by cases (use "2.IH"(1)[OF s _ refl] "2.IH"(2)[OF s _ _ refl] scalar_wf in \<open>auto simp: dict_wf_def\<close>)
next
  case (4 n acc s)
  obtain w t where v: "parse_value n s = Inr (w, t)" using "4.prems" by (auto split: sum.splits)
  obtain c u where c: "skip_ws t = c # u" using "4.prems" v by (auto split: list.splits)
  have w: "jval_wf w" using "4.IH"(1)[OF v] .
  show ?case
  proof (cases "c = CHR '']''")
    case True
    then show ?thesis using "4.prems" v c w by auto
  next
    case False
    then have "parse_items n (acc @ [w]) (skip_ws u) = Inr (v, r)" "c = CHR '',''" using "4.prems" v c by (auto split: if_splits)
    then show ?thesis using "4.IH"(2)[OF v refl c False] "4.prems"(2) w by auto
  qed
next
  case (6 n acc s)
  obtain s' where s: "s = CHR 0x22 # s'" using "6.prems" by (auto split: list.splits if_splits)
  obtain k t where k: "scan_string s' = Some (k, t)" using "6.prems" s by (auto split: option.splits)
  obtain u where u: "skip_ws t = CHR '':'' # u" using "6.prems" s k by (auto split: list.splits if_splits)
  obtain w x where w: "parse_value n (skip_ws u) = Inr (w, x)" using "6.prems" s k u by (auto split: sum.splits)
  obtain c y where c: "skip_ws x = c # y" using "6.prems" s k u w by (auto split: list.splits)
  have "jval_wf w" using "6.IH"(1)[OF s _ k refl u _ w] by simp
  then have acc: "dict_wf (dset k w acc)" "\<forall>(k, x) \<in> set (dset k w acc). jval_wf x"
    using "6.prems"(2,3) by (auto simp: dict_wf_dset dest!: set_dset)
  show ?case
  proof (cases "c = CHR ''}''")
    case True
    then show ?thesis using "6.prems"(1) s k u w c acc by auto
  next
    case False
    then have "parse_members n (dset k w acc) (skip_ws y) = Inr (v, r)" "c = CHR '',''" using "6.prems" s k u w c by (auto split: if_splits)
    then show ?thesis using "6.IH"(2)[OF s _ k refl u _ w refl c False] acc by simp
  qed
qed simp_all

text \<open>Decoding ends: more fuel than the decoder takes changes nothing, and what it decodes has no
  duplicate keys and leaves a proper end of the text.\<close>

lemma decode_total:
  "parse_value (2 * length s + 1 + k) s = parse_value (2 * length s + 1) s"
  "parse_value (2 * length s + 1) s \<noteq> Inl NoFuel"
proof -
  show "parse_value (2 * length s + 1) s \<noteq> Inl NoFuel" by (rule parse_enough) simp
  show "parse_value (2 * length s + 1 + k) s = parse_value (2 * length s + 1) s"
  proof (induction k)
    case (Suc k)
    have "parse_value (2 * length s + 1 + k) s \<noteq> Inl NoFuel" by (rule parse_enough) simp
    then show ?case using Suc parse_more_fuel(1) by simp
  qed simp
qed

lemma raw_decode_sound: "raw_decode s = Some (v, r) \<Longrightarrow> jval_wf v \<and> shorter r s"
  unfolding raw_decode_def
  by (cases "parse_value (2 * length s + 1) s") (auto dest: parse_wf(1) parse_shorter(1) simp del: parse_value.simps)

lemma json_loads_wf: "json_loads s = Some v \<Longrightarrow> jval_wf v"
  unfolding json_loads_def using raw_decode_sound by (auto split: option.splits if_splits)

end
