(* ===== verification/Html.thy ===== *)
theory Html
  imports Regex
begin

text \<open>
  Text out of HTML by regular expressions, as the source adapters do it: \<open>re.split\<close>,
  \<open>re.sub\<close>, the tag pattern and the pattern of an element with a class. \<open>tag_free\<close> says that
  a text has no tag left.
\<close>

section \<open>Splitting and replacing\<close>

text \<open>\<open>re.split\<close> and \<open>re.sub\<close> with a fixed replacement, for patterns that match no empty text.\<close>

fun pieces :: "string \<Rightarrow> hit list \<Rightarrow> string list" where
  "pieces s [] = [s]"
| "pieces s (h # hs) = take (length s - length (hit_text h) - length (hit_tail h)) s # pieces (hit_tail h) hs"

definition re_split :: "rx \<Rightarrow> string \<Rightarrow> string list" where
  "re_split r s = pieces s (finditer r s)"

definition re_sub :: "rx \<Rightarrow> string \<Rightarrow> string \<Rightarrow> string" where
  "re_sub r replacement s = join replacement (re_split r s)"

definition any_char :: rx where "any_char = RSet (\<lambda>_. True)"
definition not_char :: "char \<Rightarrow> rx" where "not_char c = RSet (\<lambda>d. d \<noteq> c)"

definition quote_mark :: rx where "quote_mark = RSet (\<lambda>c. c = CHR 0x22 \<or> c = CHR 0x27)"
definition not_quote :: rx where "not_quote = RSet (\<lambda>c. c \<noteq> CHR 0x22 \<and> c \<noteq> CHR 0x27)"

definition tag_rx :: rx where
  "tag_rx = rseq [rchar (CHR ''<''), rplus (not_char (CHR ''>'')), rchar (CHR ''>'')]"

text \<open>\<open>" ".join(tag_pattern.sub(" ", s).split())\<close>\<close>

definition text_of :: "string \<Rightarrow> string" where
  "text_of s = collapse_ws (re_sub tag_rx '' '' s)"

text \<open>\<open><tag[^>]*class="[^"]*cls[^"]*"[^>]*>(.*?)</tag>\<close>, ignoring case.\<close>

definition class_block :: "string \<Rightarrow> string \<Rightarrow> rx" where
  "class_block tag cls = rseq [rlit_ci (CHR ''<'' # tag), RStar (not_char (CHR ''>'')), rlit_ci (''class='' @ [CHR 0x22]),
     RStar (not_char (CHR 0x22)), rlit_ci cls, RStar (not_char (CHR 0x22)), rchar (CHR 0x22), RStar (not_char (CHR ''>'')),
     rchar (CHR ''>''), RGroup ''1'' (RLazy any_char), rlit_ci (''</'' @ tag @ ''>'')]"

definition group1 :: "hit option \<Rightarrow> string option" where
  "group1 h = (case h of None \<Rightarrow> None | Some h \<Rightarrow> grp h ''1'')"

definition block_text :: "string \<Rightarrow> string \<Rightarrow> string \<Rightarrow> string option" where
  "block_text tag cls body = group1 (re_search (class_block tag cls) body)"

section \<open>Texts without tags\<close>

fun tag_free :: "string \<Rightarrow> bool" where
  "tag_free [] = True"
| "tag_free (c # s) = ((c = CHR ''<'' \<longrightarrow> s = [] \<or> hd s = CHR ''>'' \<or> CHR ''>'' \<notin> set s) \<and> tag_free s)"

lemma star_not_char:
  "\<lbrakk>\<forall>x \<in> set u. x \<noteq> c; ahead st = u @ t; length u \<le> n\<rbrakk> \<Longrightarrow>
   st\<lparr>prior := rev u @ prior st, ahead := t\<rparr> \<in> set (star_matches (matches (not_char c)) n st)"
proof (induction u arbitrary: st n)
  case Nil
  then show ?case by (cases n) simp_all
next
  case (Cons x u)
  obtain m where n: "n = Suc m" using Cons.prems by (cases n) auto
  let ?st = "st\<lparr>prior := x # prior st, ahead := u @ t\<rparr>"
  have "matches (not_char c) st = [?st]" using Cons.prems by (simp add: not_char_def)
  moreover have "?st\<lparr>prior := rev u @ prior ?st, ahead := t\<rparr> \<in> set (star_matches (matches (not_char c)) m ?st)"
    by (rule Cons.IH) (use Cons.prems n in auto)
  ultimately show ?case using Cons.prems n by simp
qed

lemma tag_matches:
  assumes "s = CHR ''<'' # d # u @ CHR ''>'' # t" "d \<noteq> CHR ''>''" "CHR ''>'' \<notin> set u"
  shows "match_at tag_rx b s \<noteq> None"
proof -
  let ?st = "\<lparr>prior = d # CHR ''<'' # b, ahead = u @ CHR ''>'' # t, groups = []\<rparr>"
  let ?st' = "?st\<lparr>prior := rev u @ prior ?st, ahead := CHR ''>'' # t\<rparr>"
  have st': "?st' \<in> set (star_matches (matches (not_char (CHR ''>''))) (length (ahead ?st)) ?st)"
    by (rule star_not_char) (use assms in \<open>simp_all, blast\<close>)
  have first: "matches (rchar (CHR ''<'')) \<lparr>prior = b, ahead = s, groups = []\<rparr> =
      [\<lparr>prior = CHR ''<'' # b, ahead = d # u @ CHR ''>'' # t, groups = []\<rparr>]"
    using assms by (simp add: rchar_def)
  have second: "matches (not_char (CHR ''>'')) \<lparr>prior = CHR ''<'' # b, ahead = d # u @ CHR ''>'' # t, groups = []\<rparr> = [?st]"
    using assms by (simp add: not_char_def)
  have "matches tag_rx \<lparr>prior = b, ahead = s, groups = []\<rparr> =
      concat (map (matches (rchar (CHR ''>''))) (star_matches (matches (not_char (CHR ''>''))) (length (ahead ?st)) ?st))"
    by (simp add: tag_rx_def rplus_def first second del: star_matches.simps)
  moreover have "matches (rchar (CHR ''>'')) ?st' \<noteq> []" by (simp add: rchar_def)
  ultimately have "matches tag_rx \<lparr>prior = b, ahead = s, groups = []\<rparr> \<noteq> []"
    using st' by (simp del: star_matches.simps) blast
  then show ?thesis by (auto simp: match_at_def Let_def split: list.splits)
qed

lemma no_tag_here:
  assumes "match_at tag_rx b (CHR ''<'' # s) = None"
  shows "s = [] \<or> hd s = CHR ''>'' \<or> CHR ''>'' \<notin> set s"
proof (rule ccontr)
  assume a: "\<not> ?thesis"
  then obtain d s' where s: "s = d # s'" "d \<noteq> CHR ''>''" by (cases s) auto
  then have "CHR ''>'' \<in> set s'" using a by auto
  then obtain u t where "s' = u @ CHR ''>'' # t" "CHR ''>'' \<notin> set u" by (auto dest: split_list_first)
  then show False using tag_matches[of "CHR ''<'' # s" d u t b] s assms by simp
qed

lemma pieces_ne [simp]: "pieces s hs \<noteq> []"
  by (cases hs) simp_all

lemma pieces_Cons:
  assumes "\<forall>h \<in> set hs. length (hit_text h) + length (hit_tail h) \<le> length s"
  shows "join sep (pieces (c # s) hs) = c # join sep (pieces s hs)"
proof (cases hs)
  case (Cons h hs')
  have le: "length (hit_text h) + length (hit_tail h) \<le> length s" using assms Cons by simp
  have "Suc (length s) - length (hit_text h) - length (hit_tail h) = Suc (length s - length (hit_text h) - length (hit_tail h))"
    using le by simp
  then show ?thesis using Cons by (cases "pieces (hit_tail h) hs'") simp_all
qed simp

text \<open>What is left when the tags are replaced by blanks: no tag, and a \<open>>\<close> only where one was.\<close>

lemma replaced_hits:
  "length s < n \<Longrightarrow> r = tag_rx \<Longrightarrow> (let out = join '' '' (pieces s (hits_from n r b s)) in
     tag_free out \<and> (CHR ''>'' \<in> set out \<longrightarrow> CHR ''>'' \<in> set s) \<and> (s = [] \<longrightarrow> out = []) \<and>
     (s \<noteq> [] \<and> hd s = CHR ''>'' \<longrightarrow> out \<noteq> [] \<and> hd out = CHR ''>''))"
proof (induction n r b s rule: hits_from.induct)
  case (2 n r b s)
  show ?case
  proof (cases "match_at r b s")
    case None
    show ?thesis
    proof (cases s)
      case Nil
      then show ?thesis using None by simp
    next
      case (Cons c s')
      define hs where "hs = hits_from n r (c # b) s'"
      define out where "out = join '' '' (pieces s' hs)"
      have len: "\<forall>h \<in> set hs. length (hit_text h) + length (hit_tail h) \<le> length s'"
        unfolding hs_def using hits_from_sound by fastforce
      have out: "join '' '' (pieces s (hits_from (Suc n) r b s)) = c # out"
        using None Cons pieces_Cons[OF len] by (simp add: hs_def out_def)
      have ih: "tag_free out" "CHR ''>'' \<in> set out \<longrightarrow> CHR ''>'' \<in> set s'" "s' = [] \<longrightarrow> out = []"
        "s' \<noteq> [] \<and> hd s' = CHR ''>'' \<longrightarrow> out \<noteq> [] \<and> hd out = CHR ''>''"
        using "2.IH"(1)[OF None Cons] "2.prems" Cons by (auto simp: Let_def hs_def out_def)
      have "c = CHR ''<'' \<Longrightarrow> out = [] \<or> hd out = CHR ''>'' \<or> CHR ''>'' \<notin> set out"
        using no_tag_here[of b s'] None Cons "2.prems"(2) ih by auto
      then show ?thesis unfolding out Let_def using ih Cons by auto
    qed
  next
    case (Some h)
    have h: "s = hit_text h @ hit_tail h" and l: "rx_lang r (hit_text h)" using match_at_sound[OF Some] by simp_all
    then have opens: "\<exists>u. hit_text h = CHR ''<'' # u"
      using "2.prems"(2) by (auto simp: tag_rx_def rplus_def rchar_def)
    define hs where "hs = hits_from n r (rev (hit_text h) @ b) (hit_tail h)"
    define out where "out = join '' '' (pieces (hit_tail h) hs)"
    have ih: "tag_free out" "CHR ''>'' \<in> set out \<longrightarrow> CHR ''>'' \<in> set (hit_tail h)"
      using "2.IH"(2)[OF Some] "2.prems" h opens by (auto simp: Let_def hs_def out_def)
    have "join '' '' (pieces s (hits_from (Suc n) r b s)) = CHR '' '' # out"
      using Some opens h by (cases "pieces (hit_tail h) hs") (auto simp: hs_def out_def)
    then show ?thesis using ih h opens by (auto simp: Let_def)
  qed
qed simp

lemma re_sub_tag_free: "tag_free (re_sub tag_rx '' '' s)"
  using replaced_hits[of s "Suc (length s)" tag_rx "[]"]
  by (simp add: re_sub_def re_split_def finditer_def Let_def del: hits_from.simps)

lemma collapse_ws_Cons:
  "collapse_ws (x # xs) = (if is_space x then collapse_ws xs
     else if xs = [] \<or> is_space (hd xs) then x # (if collapse_ws xs = [] then [] else CHR '' '' # collapse_ws xs)
     else x # collapse_ws xs)"
proof -
  obtain p ps where p: "split_by is_space xs = p # ps" by (cases "split_by is_space xs") auto
  have empty_iff: "p = [] \<longleftrightarrow> xs = [] \<or> is_space (hd xs)"
    using p by (cases xs) (auto split: if_splits list.splits)
  have "join '' '' (q # qs) = q @ (if qs = [] then [] else CHR '' '' # join '' '' qs)" for q qs
    by (cases qs) auto
  moreover have "join '' '' qs = [] \<Longrightarrow> \<forall>q \<in> set qs. q \<noteq> [] \<Longrightarrow> qs = []" for qs
    by (cases qs; cases "tl qs") auto
  ultimately show ?thesis
    using p empty_iff by (auto simp: collapse_ws_def split_ws_def)
qed

lemma set_collapse_ws: "c \<in> set (collapse_ws s) \<Longrightarrow> c = CHR '' '' \<or> c \<in> set s"
proof (induction s)
  case (Cons x s)
  then show ?case by (auto simp: collapse_ws_Cons split: if_splits)
qed (simp add: collapse_ws_def split_ws_def)

lemma collapse_tag_free: "tag_free s \<Longrightarrow> tag_free (collapse_ws s)"
proof (induction s)
  case (Cons x s)
  have gt: "\<not> is_space (CHR ''>'')" by (simp add: is_space_def char_code_def)
  have "collapse_ws s \<noteq> [] \<and> hd (collapse_ws s) = CHR ''>''" if "s \<noteq> []" "hd s = CHR ''>''"
    using that gt by (cases s) (auto simp: collapse_ws_Cons)
  then show ?case using Cons gt set_collapse_ws[of "CHR ''>''" s]
    by (auto simp: collapse_ws_Cons)
qed (simp add: collapse_ws_def split_ws_def)

lemma text_of_tag_free: "tag_free (text_of s)"
  unfolding text_of_def by (intro collapse_tag_free re_sub_tag_free)

lemma group1_search:
  assumes "group1 (re_search r s) = Some x"
  shows "captures r ''1'' x"
  using assms re_search_sound(3) by (auto simp: group1_def split: option.splits)

end
