(* ===== verification/Adapters.thy ===== *)
theory Adapters
  imports Collection PyJson Html
begin

text \<open>
  What the source adapters under \<open>src/app/jobs/sources\<close> share: the HTTP client they call, the
  page loop of a discovery and the detail loop. The client is
  a parameter that answers the \<open>n\<close>-th request of a run, so a repeated request may be answered
  differently; which statuses \<open>raise_for_status\<close> accepts is a parameter too. Delays and logging
  are left out. The laws of both loops are proved in the locales \<open>paged_source\<close> and
  \<open>detail_source\<close>, which the adapters interpret.
\<close>

section \<open>HTTP\<close>

record http_reply =
  hr_status :: int
  hr_retry_after :: "string option"
  hr_text :: string

text \<open>\<open>TimedOut\<close> stands for httpx's timeouts and network errors; \<open>CurlError m\<close> for an error of the
  curl bindings, \<open>m\<close> when its class is defined in a module named after curl.\<close>

datatype http_answer = Replied http_reply | TimedOut | CurlError bool | ClientRaised string

type_synonym http_client = "nat \<Rightarrow> string \<Rightarrow> http_answer"

datatype page_error = Collect collect_error | HttpStatus int

fun page_failure :: "page_error \<Rightarrow> collect_error" where
  "page_failure (Collect e) = e"
| "page_failure (HttpStatus s) = OtherError ''HTTPStatusError''"

definition transient_status :: "int \<Rightarrow> bool" where
  "transient_status s \<longleftrightarrow> s \<in> {408, 425, 502, 503, 504}"

text \<open>\<open>retry_after_seconds\<close> of a temporary error raised without one.\<close>

definition default_retry :: int where "default_retry = 30"

text \<open>One request by an adapter that translates httpx's errors and then checks the status.\<close>

definition simple_get ::
  "http_client \<Rightarrow> (http_reply \<Rightarrow> page_error option) \<Rightarrow> nat \<Rightarrow> string \<Rightarrow> (page_error + http_reply) \<times> nat" where
  "simple_get client check n url = ((case client n url of
      TimedOut \<Rightarrow> Inl (Collect (TemporaryError default_retry))
    | CurlError _ \<Rightarrow> Inl (Collect (OtherError ''RequestsError''))
    | ClientRaised e \<Rightarrow> Inl (Collect (OtherError e))
    | Replied r \<Rightarrow> (case check r of Some e \<Rightarrow> Inl e | None \<Rightarrow> Inr r)), n + 1)"

lemma simple_get_cost: "simple_get client check n url = (r, n') \<Longrightarrow> n' = n + 1"
  by (simp add: simple_get_def)

section \<open>The page loop\<close>

text \<open>One page of candidates: the new ones are appended until the limit is reached. The flag
  set of the code holds exactly the keys collected so far.\<close>

fun add_page :: "('a \<Rightarrow> string) \<Rightarrow> int \<Rightarrow> 'a list \<Rightarrow> 'a list \<Rightarrow> 'a list" where
  "add_page key limit [] c = c"
| "add_page key limit (x # xs) c =
     (if key x \<in> set (map key c) then add_page key limit xs c
      else if int (length c) + 1 \<ge> limit then c @ [x]
      else add_page key limit xs (c @ [x]))"

text \<open>
  \<open>short\<close> is the page size below which a page is the last one, if the adapter has that rule.
  The result is the error that ended the run, what was collected till then, and the
  number of requests.
\<close>

fun discover_loop ::
  "('a \<Rightarrow> string) \<Rightarrow> int \<Rightarrow> nat option \<Rightarrow> (nat \<Rightarrow> nat \<Rightarrow> (page_error + 'a list) \<times> nat) \<Rightarrow> nat list \<Rightarrow> 'a list \<Rightarrow> nat \<Rightarrow>
   page_error option \<times> 'a list \<times> nat" where
  "discover_loop key limit short fetch [] c n = (None, c, n)"
| "discover_loop key limit short fetch (p # ps) c n =
     (if int (length c) \<ge> limit then (None, c, n)
      else (case fetch p n of
          (Inl e, n') \<Rightarrow> (Some e, c, n')
        | (Inr xs, n') \<Rightarrow>
            let c' = add_page key limit xs c in
            if xs = [] \<or> length c' = length c \<or> (case short of None \<Rightarrow> False | Some k \<Rightarrow> length xs < k)
            then (None, c', n')
            else discover_loop key limit short fetch ps c' n'))"

lemma add_page_extends:
  "\<exists>added. add_page key limit xs c = c @ added \<and> set added \<subseteq> set xs \<and>
     (distinct (map key c) \<longrightarrow> distinct (map key (c @ added))) \<and>
     (int (length c) < limit \<longrightarrow> int (length (c @ added)) \<le> limit) \<and>
     (int (length (c @ added)) < limit \<longrightarrow> key ` set xs \<subseteq> key ` set (c @ added))"
proof (induction key limit xs c rule: add_page.induct)
  case (2 key limit x xs c)
  consider "key x \<in> set (map key c)" | "key x \<notin> set (map key c)" "int (length c) + 1 \<ge> limit"
    | "key x \<notin> set (map key c)" "\<not> int (length c) + 1 \<ge> limit" by blast
  then show ?case
  proof cases
    case 1
    then show ?thesis using "2.IH"(1)[OF 1] by auto
  next
    case 2
    then show ?thesis by (intro exI[of _ "[x]"]) auto
  next
    case 3
    obtain added where "add_page key limit xs (c @ [x]) = (c @ [x]) @ added" "set added \<subseteq> set xs"
      "distinct (map key (c @ [x])) \<longrightarrow> distinct (map key ((c @ [x]) @ added))"
      "int (length (c @ [x])) < limit \<longrightarrow> int (length ((c @ [x]) @ added)) \<le> limit"
      "int (length ((c @ [x]) @ added)) < limit \<longrightarrow> key ` set xs \<subseteq> key ` set ((c @ [x]) @ added)"
      using "2.IH"(2)[OF 3] by blast
    then show ?thesis using 3 by (intro exI[of _ "x # added"]) auto
  qed
qed simp

text \<open>An entry of some page the client was given, and an error one of the pages ended with.\<close>

definition listed :: "(nat \<Rightarrow> nat \<Rightarrow> (page_error + 'a list) \<times> nat) \<Rightarrow> nat list \<Rightarrow> 'a \<Rightarrow> bool" where
  "listed fetch ps x \<longleftrightarrow> (\<exists>p m xs m'. p \<in> set ps \<and> fetch p m = (Inr xs, m') \<and> x \<in> set xs)"

definition failed_page :: "(nat \<Rightarrow> nat \<Rightarrow> (page_error + 'a list) \<times> nat) \<Rightarrow> nat list \<Rightarrow> page_error \<Rightarrow> bool" where
  "failed_page fetch ps e \<longleftrightarrow> (\<exists>p m m'. p \<in> set ps \<and> fetch p m = (Inl e, m'))"

lemma listed_Cons: "fetch p n = (Inr xs, m) \<Longrightarrow> x \<in> set xs \<Longrightarrow> listed fetch (p # ps) x" "listed fetch ps x \<Longrightarrow> listed fetch (p # ps) x"
  unfolding listed_def by (metis list.set_intros(1)) (metis list.set_intros(2))

lemma failed_page_Cons: "fetch p n = (Inl e, m) \<Longrightarrow> failed_page fetch (p # ps) e" "failed_page fetch ps e \<Longrightarrow> failed_page fetch (p # ps) e"
  unfolding failed_page_def by (metis list.set_intros(1)) (metis list.set_intros(2))

locale paged_source =
  fixes key :: "'a \<Rightarrow> string" and fetch :: "nat \<Rightarrow> nat \<Rightarrow> (page_error + 'a list) \<times> nat" and cost :: nat
  assumes fetch_cost: "fetch p n = (r, n') \<Longrightarrow> n \<le> n' \<and> n' \<le> n + cost"
begin

text \<open>What was collected: a growing list without duplicates, at most the limit, every entry from a
  page that was fetched; the number of requests is bounded by the pages.\<close>

lemma discovery:
  assumes "discover_loop key limit short fetch ps c n = (e, c', n')"
    and "distinct (map key c)" "int (length c) \<le> limit"
  shows "distinct (map key c') \<and> int (length c') \<le> limit \<and> prefix c c' \<and> n \<le> n' \<and> n' \<le> n + cost * length ps \<and>
    (\<forall>x \<in> set c'. x \<in> set c \<or> listed fetch ps x) \<and> (\<forall>err. e = Some err \<longrightarrow> failed_page fetch ps err)"
  using assms
proof (induction ps arbitrary: c n)
  case (Cons p ps)
  show ?case
  proof (cases "int (length c) \<ge> limit")
    case True
    then show ?thesis using Cons.prems by auto
  next
    case False
    obtain r m where f: "fetch p n = (r, m)" by (cases "fetch p n")
    have cost: "n \<le> m" "m \<le> n + cost" using fetch_cost[OF f] by auto
    show ?thesis
    proof (cases r)
      case (Inl err)
      then show ?thesis using Cons.prems False f cost failed_page_Cons(1)[where fetch = fetch] by auto
    next
      case (Inr xs)
      obtain added where a: "add_page key limit xs c = c @ added" "set added \<subseteq> set xs"
        "distinct (map key (c @ added))" "int (length (c @ added)) \<le> limit"
        using add_page_extends[of key limit xs c] Cons.prems(2) False by auto
      let ?last = "xs = [] \<or> added = [] \<or> (case short of None \<Rightarrow> False | Some k \<Rightarrow> length xs < k)"
      show ?thesis
      proof (cases ?last)
        case True
        then have "(e, c', n') = (None, c @ added, m)"
          using Cons.prems(1) False f Inr a(1) by (auto simp: Let_def)
        then show ?thesis using a(2-4) f Inr cost listed_Cons(1)[where fetch = fetch] by (auto simp: subset_iff)
      next
        case nl: False
        then have rec: "discover_loop key limit short fetch ps (c @ added) m = (e, c', n')"
          using Cons.prems(1) False f Inr a(1) by (auto simp: Let_def)
        note ih = Cons.IH[OF rec a(3,4)]
        have "prefix c c'" using ih by (meson prefix_order.trans prefixI)
        moreover have "n \<le> n'" "n' \<le> n + cost * length (p # ps)" using ih cost by auto
        moreover have "\<forall>x \<in> set c'. x \<in> set c \<or> listed fetch (p # ps) x"
          using ih a(2) listed_Cons[where fetch = fetch] f Inr by fastforce
        moreover have "\<forall>err. e = Some err \<longrightarrow> failed_page fetch (p # ps) err"
          using ih failed_page_Cons(2)[where fetch = fetch] by blast
        ultimately show ?thesis using ih by blast
      qed
    qed
  qed
qed simp

end

section \<open>The detail loop\<close>

fun fetch_each ::
  "(discovered_job \<Rightarrow> nat \<Rightarrow> (page_error + http_reply) \<times> nat) \<Rightarrow> (discovered_job \<Rightarrow> string \<Rightarrow> collect_error + raw_job option) \<Rightarrow>
   discovered_job list \<Rightarrow> nat \<Rightarrow> (collect_error + raw_job list) \<times> nat" where
  "fetch_each fetch parse [] n = (Inr [], n)"
| "fetch_each fetch parse (c # cs) n = (case fetch c n of
      (Inl (HttpStatus s), n') \<Rightarrow>
        if s = 404 \<or> s = 410 then fetch_each fetch parse cs n' else (Inl (page_failure (HttpStatus s)), n')
    | (Inl (Collect e), n') \<Rightarrow> (Inl e, n')
    | (Inr r, n') \<Rightarrow> (case parse c (hr_text r) of
          Inl e \<Rightarrow> (Inl e, n')
        | Inr None \<Rightarrow> fetch_each fetch parse cs n'
        | Inr (Some job) \<Rightarrow> (case fetch_each fetch parse cs n' of
              (Inl e, m) \<Rightarrow> (Inl e, m)
            | (Inr found, m) \<Rightarrow> (Inr (job # found), m))))"

locale detail_source =
  fixes src :: string and fetch :: "discovered_job \<Rightarrow> nat \<Rightarrow> (page_error + http_reply) \<times> nat"
    and parse :: "discovered_job \<Rightarrow> string \<Rightarrow> collect_error + raw_job option" and good :: "raw_job \<Rightarrow> bool"
  assumes parse_keeps: "parse c body = Inr (Some job) \<Longrightarrow>
      rj_source job = src \<and> rj_external_id job = dj_external_id c \<and> good job"
    and fetch_once: "fetch c n = (r, n') \<Longrightarrow> n' = n + 1"
begin

text \<open>A listing that is gone or cannot be read is left out; the others keep the order and the
  identity of their candidates, each fetched once.\<close>

lemma details:
  assumes "fetch_each fetch parse cs n = (res, n')"
  shows "n' \<le> n + length cs \<and> (case res of Inl _ \<Rightarrow> True | Inr found \<Rightarrow> n' = n + length cs \<and>
    subseq (map rj_external_id found) (map dj_external_id cs) \<and> (\<forall>j \<in> set found. rj_source j = src \<and> good j))"
  using assms
proof (induction cs arbitrary: n res n')
  case (Cons c cs)
  obtain r m where f: "fetch c n = (r, m)" by (cases "fetch c n")
  have m: "m = n + 1" using fetch_once[OF f] .
  show ?case
  proof (cases r)
    case (Inl e)
    show ?thesis
    proof (cases "\<exists>s. e = HttpStatus s \<and> (s = 404 \<or> s = 410)")
      case True
      then have "fetch_each fetch parse cs m = (res, n')" using Cons.prems f Inl by auto
      from Cons.IH[OF this] show ?thesis using m by (auto split: sum.splits)
    next
      case False
      then have "\<exists>err. res = Inl err \<and> n' = m" using Cons.prems f Inl by (cases e) (auto split: if_splits)
      then show ?thesis using m by auto
    qed
  next
    case (Inr reply)
    show ?thesis
    proof (cases "parse c (hr_text reply)")
      case (Inl e)
      then show ?thesis using Cons.prems f Inr m by auto
    next
      case p: (Inr o')
      obtain res' m' where rest: "fetch_each fetch parse cs m = (res', m')" by (cases "fetch_each fetch parse cs m")
      note ih = Cons.IH[OF rest]
      show ?thesis
      proof (cases o')
        case None
        then show ?thesis using Cons.prems f Inr p ih m rest by (auto split: sum.splits)
      next
        case (Some job)
        note keeps = parse_keeps[OF p[unfolded Some]]
        show ?thesis using Cons.prems f Inr p ih m rest Some keeps by (cases res') auto
      qed
    qed
  qed
qed simp

end

section \<open>Keeping the first of each identity\<close>

fun first_of_each :: "('a \<Rightarrow> string) \<Rightarrow> string list \<Rightarrow> 'a list \<Rightarrow> 'a list" where
  "first_of_each key seen [] = []"
| "first_of_each key seen (x # xs) =
     (if key x \<in> set seen then first_of_each key seen xs else x # first_of_each key (key x # seen) xs)"

lemma first_of_each_sound:
  "set (first_of_each key seen xs) \<subseteq> set xs \<and> distinct (map key (first_of_each key seen xs)) \<and>
   key ` set (first_of_each key seen xs) = key ` set xs - set seen"
  by (induction key seen xs rule: first_of_each.induct) auto

section \<open>Fields derived from text\<close>

definition remote_of :: "remote_type option \<Rightarrow> bool option" where
  "remote_of t = (case t of Some REMOTE \<Rightarrow> Some True | Some _ \<Rightarrow> Some False | None \<Rightarrow> None)"

definition with_salary :: "salary option \<Rightarrow> raw_job \<Rightarrow> raw_job" where
  "with_salary sal j = j\<lparr>rj_salary_text := map_option sal_text sal, rj_salary_min := map_option sal_min sal,
     rj_salary_max := map_option sal_max sal, rj_salary_currency := map_option sal_currency sal,
     rj_salary_period := Option.bind sal sal_period\<rparr>"

definition with_experience :: "experience option \<Rightarrow> raw_job \<Rightarrow> raw_job" where
  "with_experience e j = j\<lparr>rj_experience_min := map_option int (Option.bind e exp_min),
     rj_experience_max := map_option int (Option.bind e exp_max), rj_experience_text := map_option exp_text e\<rparr>"

text \<open>A listing of which only identity and title are known.\<close>

definition bare_job :: "string \<Rightarrow> string \<Rightarrow> string \<Rightarrow> raw_job" where
  "bare_job src i title = \<lparr>rj_source = src, rj_external_id = i, rj_title = title, rj_company = None, rj_location = None,
     rj_url = None, rj_description = None, rj_salary_text = None, rj_salary_min = None, rj_salary_max = None,
     rj_salary_currency = None, rj_salary_period = None, rj_employment_type = None, rj_remote = None,
     rj_remote_type = None, rj_posted_at = None, rj_source_updated_at = None, rj_skills = [], rj_experience_min = None,
     rj_experience_max = None, rj_experience_text = None, rj_raw_data = []\<rparr>"

lemma derived_fields [simp]:
  "rj_source (with_salary sal j) = rj_source j" "rj_source (with_experience e j) = rj_source j"
  "rj_external_id (with_salary sal j) = rj_external_id j" "rj_external_id (with_experience e j) = rj_external_id j"
  "rj_title (with_salary sal j) = rj_title j" "rj_title (with_experience e j) = rj_title j"
  "rj_description (with_salary sal j) = rj_description j" "rj_description (with_experience e j) = rj_description j"
  by (simp_all add: with_salary_def with_experience_def)

lemma bare_job_fields [simp]:
  "rj_source (bare_job src i title) = src" "rj_external_id (bare_job src i title) = i" "rj_title (bare_job src i title) = title"
  by (simp_all add: bare_job_def)

definition digits_id :: "string \<Rightarrow> bool" where
  "digits_id i \<longleftrightarrow> i \<noteq> [] \<and> list_all is_digit i"

lemma digits_lang: "rx_lang (rplus rdigit) x \<Longrightarrow> digits_id x"
  using all_in_star[OF all_in_basic(2)[of is_digit is_digit]]
  by (auto simp: rplus_def rdigit_def digits_id_def all_in_def)

section \<open>An adapter under the coordinator\<close>

lemma source_text: "lower (strip (source_str src)) = source_str src"
proof -
  have "lower (strip ''dice'') = ''dice''" "lower (strip ''linkedin'') = ''linkedin''"
    "lower (strip ''glassdoor'') = ''glassdoor''" "lower (strip ''hiringcafe'') = ''hiringcafe''" by code_simp+
  then show ?thesis by (cases src) simp_all
qed

text \<open>
  What the coordinator needs of a two-stage adapter: candidates of its own source without
  duplicates, at most as many as the target asks for, and details that belong to the
  candidates passed in.
\<close>

locale source_adapter =
  fixes src :: job_source and discover :: "target \<Rightarrow> collect_error + discovered_job list"
    and fetch_details :: "target \<Rightarrow> discovered_job list \<Rightarrow> collect_error + raw_job list"
    and valid_id :: "string \<Rightarrow> bool"
  assumes discovers: "discover t = Inr cs \<Longrightarrow> 1 \<le> tg_max_jobs t \<Longrightarrow> tg_source t = src \<and> int (length cs) \<le> tg_max_jobs t \<and>
      distinct (map dj_external_id cs) \<and> (\<forall>c \<in> set cs. valid_id (dj_external_id c))"
    and details: "fetch_details t cs = Inr raws \<Longrightarrow> subseq (map rj_external_id raws) (map dj_external_id cs) \<and>
      (\<forall>j \<in> set raws. rj_source j = source_str src)"
begin

text \<open>A run discovers at most what the target asks for, accounts for every candidate, keeps both
  tables well formed, and adds only identities of its source that it discovered.\<close>

lemma run_adds_only:
  assumes "global_wf g" "db_wf d" "1 \<le> tg_max_jobs t"
    and "run_collector dg now (TwoStage discover fetch_details) t (g, d) = Inr (res, (g', d'))"
  shows "global_wf g' \<and> db_wf d' \<and> int (cr_discovered res) \<le> tg_max_jobs t \<and>
    cr_details_fetched res + cr_details_skipped res \<le> cr_discovered res \<and>
    (\<forall>k \<in> (global_keys g' - global_keys g) \<union> (canonical_keys d' - canonical_keys d).
       \<exists>i. valid_id i \<and> k = (source_str src, strip i))"
proof -
  obtain cs where cs: "discover t = Inr cs" using assms(4) by (auto simp: run_collector_def split: sum.splits)
  note found = discovers[OF cs assms(3)]
  obtain recent ds where part: "distinct recent" "distinct (map dj_external_id ds)"
      "\<forall>i. i \<in> set recent \<longleftrightarrow> i \<in> dj_external_id ` set cs \<and> fresh_listing (g, d) (source_str (tg_source t)) now i"
      "\<forall>i. i \<in> dj_external_id ` set ds \<longleftrightarrow> i \<in> dj_external_id ` set cs \<and> \<not> fresh_listing (g, d) (source_str (tg_source t)) now i"
    and run: "run_collector dg now (TwoStage discover fetch_details) t (g, d) = (case fetch_details t ds of
         Inl e \<Rightarrow> Inl e
       | Inr raws \<Rightarrow> (case persist_raw_jobs dg now t raws (touch_recent now (source_str (tg_source t)) recent (g, d)) of
              (r, w2) \<Rightarrow> Inr (r\<lparr>cr_discovered := length recent + length ds, cr_details_fetched := length raws,
                             cr_details_skipped := length recent\<rparr>, w2)))"
    using discovery_partition[where discover = discover and tgt = t and w = "(g, d)", unfolded fst_conv snd_conv,
        OF cs assms(1,2), of now dg fetch_details] by blast
  obtain raws where raws: "fetch_details t ds = Inr raws" using run assms(4) by (auto split: sum.splits)
  obtain g1 d1 where w1: "touch_recent now (source_str (tg_source t)) recent (g, d) = (g1, d1)" by (metis prod.exhaust)
  note keys1 = touch_recent_keys[OF w1] note wf1 = touch_recent_wf[OF assms(1,2) w1]
  obtain r where r: "persist_raw_jobs dg now t raws (g1, d1) = (r, (g', d'))"
    and res: "res = r\<lparr>cr_discovered := length recent + length ds, cr_details_fetched := length raws, cr_details_skipped := length recent\<rparr>"
    using run assms(4) raws w1 by (auto split: prod.splits)
  note p = persist_raw_jobs_persisted[of g1 d1 dg raws now t, unfolded r persisted_def prod.case]
  note det = details[OF raws]
  have len: "length raws \<le> length ds" using det by (metis length_map list_emb_length)
  have split: "set recent \<inter> dj_external_id ` set ds = {}" "set recent \<union> dj_external_id ` set ds = dj_external_id ` set cs"
    using part(3,4) by blast+
  have total: "length recent + length ds = length cs"
    using part(1,2) split found by (metis card_Un_disjoint distinct_card finite_set length_map list.set_map)
  have key: "\<exists>i. valid_id i \<and> k = (source_str src, strip i)" if k: "Some k \<in> raw_key dg ` set raws" for k
  proof -
    obtain raw where raw: "raw \<in> set raws" "raw_key dg raw = Some k" using k by auto
    then have "k = (lower (strip (rj_source raw)), strip (rj_external_id raw))"
      by (auto simp: raw_key_def job_key_def normalize_job_def Let_def split: sum.splits if_splits option.splits prod.splits)
    moreover have "rj_external_id raw \<in> dj_external_id ` set ds"
      using list_emb_set[of "(=)" "map rj_external_id raws" "map dj_external_id ds" "rj_external_id raw"] det raw(1) by auto
    then have "valid_id (rj_external_id raw)" using found part(4) by auto
    ultimately show ?thesis using det raw(1) source_text by auto
  qed
  show ?thesis using p wf1 keys1 key res len total found by auto
qed

end

end
