(* ===== verification/UrlJoin.thy ===== *)
theory UrlJoin
  imports Url
begin

text \<open>
  \<open>urlparse\<close>'s parameters of the last path segment, and \<open>urljoin\<close> with a base URL that has a
  host and no path, as the source adapters use it.
\<close>

definition uses_params :: "string list" where
  "uses_params = [[], ''ftp'', ''hdl'', ''prospero'', ''http'', ''imap'', ''https'', ''shttp'', ''rtsp'', ''rtsps'', ''rtspu'',
     ''sip'', ''sips'', ''mms'', ''sftp'', ''tel'']"

text \<open>\<open>urlparse(url).path\<close>: the parameters of the last segment are split off.\<close>

definition split_params :: "string \<Rightarrow> string" where
  "split_params path = (let seg = after_last (CHR ''/'') path in
     take (length path - length seg) path @ before_char (CHR '';'') seg)"

definition params_of :: "string \<Rightarrow> string" where
  "params_of path = after_char (CHR '';'') (after_last (CHR ''/'') path)"

text \<open>What \<open>urlsplit\<close> finds behind the first hash sign.\<close>

definition fragment_of :: "string \<Rightarrow> string" where
  "fragment_of url = after_char (CHR ''#'') (filter (\<lambda>c. \<not> unsafe_byte c) (dropWhile c0_or_space url))"

definition urlunparse :: "string \<Rightarrow> string \<Rightarrow> string \<Rightarrow> string \<Rightarrow> string \<Rightarrow> string \<Rightarrow> string" where
  "urlunparse scheme host path params query fragment =
     urlunsplit \<lparr>u_scheme = scheme, u_netloc = host, u_path = (if params \<noteq> [] then path @ '';'' @ params else path), u_query = query\<rparr> @
     (if fragment \<noteq> [] then ''#'' @ fragment else [])"

fun resolve_dots :: "string list \<Rightarrow> string list \<Rightarrow> string list" where
  "resolve_dots acc [] = acc"
| "resolve_dots acc (seg # segs) = (if seg = ''..'' then resolve_dots (butlast acc) segs
     else if seg = ''.'' then resolve_dots acc segs else resolve_dots (acc @ [seg]) segs)"

definition merged_path :: "string \<Rightarrow> string" where
  "merged_path path = (let parts = split_on (CHR ''/'') path;
       segs = (if prefix ''/'' path then parts else [] # filter (\<lambda>p. p \<noteq> []) (butlast parts) @ [last parts]);
       resolved = resolve_dots [] segs @ (if last segs = ''.'' \<or> last segs = ''..'' then [[]] else []);
       joined = join ''/'' resolved
     in if joined = [] then ''/'' else joined)"

text \<open>\<open>urljoin(scheme://host, url)\<close>; \<open>None\<close> is the \<open>ValueError\<close> of \<open>urlparse\<close>.\<close>

definition urljoin_host :: "string \<Rightarrow> string \<Rightarrow> string \<Rightarrow> string option" where
  "urljoin_host scheme host url =
     (if url = [] then Some (scheme @ ''://'' @ host)
      else map_option (\<lambda>p. let sch = (if u_scheme p = [] then scheme else u_scheme p);
          split = sch \<in> set uses_params \<and> CHR '';'' \<in> set (u_path p);
          path = (if split then split_params (u_path p) else u_path p);
          params = (if split then params_of (u_path p) else []); frag = fragment_of url
        in if sch \<noteq> scheme then url
           else if u_netloc p \<noteq> [] then urlunparse sch (u_netloc p) path params (u_query p) frag
           else if path = [] \<and> params = [] then urlunparse sch host [] [] (u_query p) frag
           else urlunparse sch host (merged_path path) params (u_query p) frag)
        (urlsplit url))"

end
