(* ===== verification/LinkedIn.thy ===== *)
theory LinkedIn
  imports Adapters UrlJoin
begin

text \<open>
  The LinkedIn adapter (\<open>src/app/jobs/sources/linkedin/collector.py\<close>): its requests, the
  reading of search and detail pages by regular expressions, and the two stages the
  coordinator runs. \<open>urlparse\<close> may raise \<open>ValueError\<close>, which ends the discovery.
\<close>

section \<open>Requests\<close>

definition linkedin_search_url :: string where
  "linkedin_search_url = ''https://www.linkedin.com/jobs-guest/jobs/api/seeMoreJobPostings/search''"

definition linkedin_detail_url :: string where
  "linkedin_detail_url = ''https://www.linkedin.com/jobs-guest/jobs/api/jobPosting''"

definition linkedin_status :: "(int \<Rightarrow> bool) \<Rightarrow> http_reply \<Rightarrow> page_error option" where
  "linkedin_status accepts r = (let s = hr_status r in
     if s = 429 then Some (Collect (TemporaryError 60))
     else if s = 403 \<or> s = 999 then Some (Collect (TemporaryError 300))
     else if transient_status s then Some (Collect (TemporaryError default_retry))
     else if accepts s then None else Some (HttpStatus s))"

definition linkedin_search_request :: "target \<Rightarrow> nat \<Rightarrow> string" where
  "linkedin_search_request t start = linkedin_search_url @ ''?'' @ urlencode
     ([(''keywords'', tg_query t), (''start'', nat_str start), (''position'', ''1''), (''pageNum'', ''0'')] @
      (case tg_location t of None \<Rightarrow> [] | Some l \<Rightarrow> if l = [] then [] else [(''location'', l)]))"

definition linkedin_detail_request :: "string \<Rightarrow> string" where
  "linkedin_detail_request i = linkedin_detail_url @ ''/'' @ i"

section \<open>Search pages\<close>

text \<open>\<open>urlparse(url).path\<close>.\<close>

definition parsed_path :: "string \<Rightarrow> string option" where
  "parsed_path url = map_option (\<lambda>p. if u_scheme p \<in> set uses_params then split_params (u_path p) else u_path p) (urlsplit url)"

definition linkedin_absolute :: "string \<Rightarrow> string" where
  "linkedin_absolute url = (if prefix ''/'' url then ''https://www.linkedin.com'' @ url
     else if prefix ''http'' url then url else ''https://www.linkedin.com/'' @ url)"

definition item_rx :: rx where
  "item_rx = rseq [rlit_ci ''<li'', RStar (not_char (CHR ''>'')), rchar (CHR ''>'')]"

definition link_rx :: rx where
  "link_rx = rseq [rlit_ci ''<a'', rplus (not_char (CHR ''>'')), rlit_ci ''href='', quote_mark,
     RGroup ''1'' (rseq [RStar not_quote, rlit_ci ''/jobs/view/'', RStar not_quote]), quote_mark]"

definition urn_rx :: rx where
  "urn_rx = rseq [rlit_ci ''data-entity-urn='', quote_mark, rlit_ci ''urn:li:jobPosting:'', RGroup ''1'' (rplus rdigit), quote_mark]"

definition path_id_rx :: rx where
  "path_id_rx = rseq [RSet (\<lambda>c. c = CHR ''-'' \<or> c = CHR ''/''), RGroup ''1'' (rplus rdigit), ropt (rchar (CHR ''/'')), REnd]"

definition card_title_rx :: rx where
  "card_title_rx = rseq [rlit_ci ''<h3'', RStar (not_char (CHR ''>'')), rlit_ci ''base-search-card__title'',
     RStar (not_char (CHR ''>'')), rchar (CHR ''>''), RGroup ''1'' (RLazy any_char), rlit_ci ''</h3>'']"

definition anchor_title_rx :: rx where
  "anchor_title_rx = rseq [rlit_ci ''<a'', rplus (not_char (CHR ''>'')), rlit_ci ''href='', quote_mark, RStar not_quote,
     quote_mark, RStar (not_char (CHR ''>'')), rchar (CHR ''>''), RGroup ''1'' (RLazy any_char), rlit_ci ''</a>'']"

definition card_id :: "string \<Rightarrow> string \<Rightarrow> string option" where
  "card_id chunk path = (case group1 (re_search urn_rx chunk) of
      Some i \<Rightarrow> Some i
    | None \<Rightarrow> group1 (re_search path_id_rx path))"

definition card_title :: "string \<Rightarrow> string" where
  "card_title chunk = text_of (case group1 (re_search card_title_rx chunk) of
      Some t \<Rightarrow> t
    | None \<Rightarrow> (case group1 (re_search anchor_title_rx chunk) of Some t \<Rightarrow> t | None \<Rightarrow> ''LinkedIn Job''))"

text \<open>One list item: a job, nothing, or the \<open>ValueError\<close> of its link.\<close>

definition parse_card :: "string \<Rightarrow> discovered_job option option" where
  "parse_card chunk = (if \<not> contains_sub ''/jobs/view/'' chunk then Some None
     else (case group1 (re_search link_rx chunk) of
         None \<Rightarrow> Some None
       | Some raw_url \<Rightarrow> (case parsed_path raw_url of
             None \<Rightarrow> None
           | Some path \<Rightarrow> Some (map_option (\<lambda>i. \<lparr>dj_source = ''linkedin'', dj_external_id = i, dj_title = card_title chunk,
                 dj_url = Some (linkedin_absolute path)\<rparr>) (card_id chunk path)))))"

definition linkedin_search_page :: "string \<Rightarrow> discovered_job list option" where
  "linkedin_search_page body = map_option (\<lambda>js. first_of_each dj_external_id [] (concat (map (\<lambda>j. case j of None \<Rightarrow> [] | Some x \<Rightarrow> [x]) js)))
     (those (map parse_card (re_split item_rx body)))"

section \<open>Detail pages\<close>

definition criteria_rx :: "string \<Rightarrow> string \<Rightarrow> rx" where
  "criteria_rx tag cls = rseq [rlit_ci (CHR ''<'' # tag), RStar (not_char (CHR ''>'')), rlit_ci cls,
     RStar (not_char (CHR ''>'')), rchar (CHR ''>''), RGroup ''1'' (RLazy any_char), rlit_ci (''</'' @ tag @ ''>'')]"

definition criterion :: "string \<Rightarrow> (string \<times> string) option" where
  "criterion inner = (case (group1 (re_search (criteria_rx ''h3'' ''description__job-criteria-subheader'') inner),
        group1 (re_search (criteria_rx ''span'' ''description__job-criteria-text'') inner)) of
      (Some h, Some v) \<Rightarrow> Some (lower (text_of h), text_of v)
    | _ \<Rightarrow> None)"

definition criteria_of :: "string \<Rightarrow> (string, string) dict" where
  "criteria_of body = fold (\<lambda>h d. case Option.bind (grp h ''1'') criterion of None \<Rightarrow> d | Some (k, v) \<Rightarrow> dset k v d)
     (finditer (class_block ''li'' ''description__job-criteria-item'') body) []"

definition linkedin_company :: "string \<Rightarrow> string" where
  "linkedin_company body = (case block_text ''a'' ''topcard__org-name-link'' body of
      Some c \<Rightarrow> strip c
    | None \<Rightarrow> (case block_text ''span'' ''topcard__flavor'' body of Some c \<Rightarrow> strip c | None \<Rightarrow> []))"

definition linkedin_location :: "string \<Rightarrow> string" where
  "linkedin_location body = (case block_text ''span'' ''topcard__flavor topcard__flavor--bullet'' body of
      Some l \<Rightarrow> strip l
    | None \<Rightarrow> [])"

definition linkedin_description :: "string \<Rightarrow> string" where
  "linkedin_description body = (case block_text ''div'' ''show-more-less-html__markup'' body of
      Some d \<Rightarrow> text_of d
    | None \<Rightarrow> (case block_text ''div'' ''description__text'' body of Some d \<Rightarrow> text_of d | None \<Rightarrow> []))"

definition linkedin_job :: "string \<Rightarrow> string \<Rightarrow> string option \<Rightarrow> raw_job option" where
  "linkedin_job body expected_id job_url = (case block_text ''h2'' ''top-card-layout__title'' body of
      None \<Rightarrow> None
    | Some raw_title \<Rightarrow>
        let title = strip raw_title; location = linkedin_location body; description = linkedin_description body;
            criteria = criteria_of body;
            raw_emp = strip (case dget criteria ''employment type'' of None \<Rightarrow> [] | Some e \<Rightarrow> e);
            texts = title @ [CHR 0x0A] @ description;
            remote_type = normalize_remote_type (location @ [CHR 0x0A] @ texts) None
        in Some (with_salary (parse_salary description) (with_experience (extract_experience texts)
            ((bare_job ''linkedin'' expected_id title)\<lparr>rj_company := Some (linkedin_company body), rj_location := Some location,
               rj_url := job_url, rj_description := Some description,
               rj_employment_type := (if raw_emp \<noteq> [] then Some raw_emp
                  else map_option employment_str (normalize_employment_type description)),
               rj_remote := remote_of remote_type, rj_remote_type := remote_type,
               rj_skills := extract_skills_from_text texts,
               rj_raw_data := [(''criteria'', JObj (map (\<lambda>(k, v). (k, JStr v)) criteria))]\<rparr>))))"

section \<open>The two stages\<close>

definition linkedin_page :: "http_client \<Rightarrow> (int \<Rightarrow> bool) \<Rightarrow> target \<Rightarrow> nat \<Rightarrow> nat \<Rightarrow> (page_error + discovered_job list) \<times> nat" where
  "linkedin_page client accepts t page n =
     (case simple_get client (linkedin_status accepts) n (linkedin_search_request t (page * 25)) of
        (Inl e, n') \<Rightarrow> (Inl e, n')
      | (Inr r, n') \<Rightarrow> (case linkedin_search_page (hr_text r) of
            None \<Rightarrow> (Inl (Collect (OtherError ''ValueError'')), n')
          | Some found \<Rightarrow> (Inr found, n')))"

definition linkedin_discover :: "http_client \<Rightarrow> (int \<Rightarrow> bool) \<Rightarrow> target \<Rightarrow> collect_error + discovered_job list" where
  "linkedin_discover client accepts t = (if tg_source t \<noteq> LINKEDIN then Inl (OtherError ''ValueError'')
     else (case discover_loop dj_external_id (tg_max_jobs t) (Some 25) (linkedin_page client accepts t) [0..<5] [] 0 of
         (Some e, _, _) \<Rightarrow> Inl (page_failure e)
       | (None, found, _) \<Rightarrow> Inr found))"

definition linkedin_detail :: "http_client \<Rightarrow> (int \<Rightarrow> bool) \<Rightarrow> discovered_job \<Rightarrow> nat \<Rightarrow> (page_error + http_reply) \<times> nat" where
  "linkedin_detail client accepts c n =
     simple_get client (linkedin_status accepts) n (linkedin_detail_request (dj_external_id c))"

definition linkedin_parse_detail :: "discovered_job \<Rightarrow> string \<Rightarrow> collect_error + raw_job option" where
  "linkedin_parse_detail c body = Inr (linkedin_job body (dj_external_id c) (dj_url c))"

definition linkedin_details ::
  "http_client \<Rightarrow> (int \<Rightarrow> bool) \<Rightarrow> target \<Rightarrow> discovered_job list \<Rightarrow> collect_error + raw_job list" where
  "linkedin_details client accepts t cs = (if tg_source t \<noteq> LINKEDIN then Inl (OtherError ''ValueError'')
     else fst (fetch_each (linkedin_detail client accepts) linkedin_parse_detail cs 0))"

definition linkedin_collector :: "http_client \<Rightarrow> (int \<Rightarrow> bool) \<Rightarrow> collector" where
  "linkedin_collector client accepts = TwoStage (linkedin_discover client accepts) (linkedin_details client accepts)"

section \<open>Lemmas\<close>

lemma card_id_digits: "card_id chunk path = Some i \<Longrightarrow> digits_id i"
proof -
  have "rx_groups urn_rx = [(''1'', rplus rdigit)]" "rx_groups path_id_rx = [(''1'', rplus rdigit)]"
    by (simp_all add: urn_rx_def path_id_rx_def quote_mark_def rchar_ci_def rchar_def ropt_def rplus_def rdigit_def)
  then have "captures urn_rx ''1'' i \<Longrightarrow> digits_id i" "captures path_id_rx ''1'' i \<Longrightarrow> digits_id i"
    by (auto simp: captures_def dest: digits_lang)
  then show "card_id chunk path = Some i \<Longrightarrow> digits_id i"
    by (auto simp: card_id_def dest: group1_search split: option.splits)
qed

lemma card_title_clean: "tag_free (card_title chunk) \<and> strip (card_title chunk) = card_title chunk"
  unfolding card_title_def by (metis text_of_def text_of_tag_free collapse_ws_strip)

definition linkedin_candidate :: "discovered_job \<Rightarrow> bool" where
  "linkedin_candidate c \<longleftrightarrow> dj_source c = ''linkedin'' \<and> digits_id (dj_external_id c) \<and>
     tag_free (dj_title c) \<and> strip (dj_title c) = dj_title c \<and> (\<exists>u. dj_url c = Some u \<and> prefix ''http'' u)"

lemma linkedin_absolute_http: "prefix ''http'' (linkedin_absolute u)"
  by (simp add: linkedin_absolute_def)

lemma parse_card_sound: "parse_card chunk = Some (Some c) \<Longrightarrow> linkedin_candidate c"
  using card_id_digits card_title_clean linkedin_absolute_http
  by (auto simp: parse_card_def linkedin_candidate_def split: if_splits option.splits)

lemma search_page_sound:
  assumes "linkedin_search_page body = Some cs"
  shows "\<forall>c \<in> set cs. linkedin_candidate c"
proof -
  obtain js where js: "those (map parse_card (re_split item_rx body)) = Some js"
    and cs: "cs = first_of_each dj_external_id [] (concat (map (\<lambda>j. case j of None \<Rightarrow> [] | Some x \<Rightarrow> [x]) js))"
    using assms by (auto simp: linkedin_search_page_def)
  have "\<forall>j \<in> set js. \<exists>chunk. parse_card chunk = Some j"
    using those_eq_SomeD[OF js] by (metis (no_types, lifting) image_eqI imageE list.set_map)
  then have "\<forall>c \<in> set (concat (map (\<lambda>j. case j of None \<Rightarrow> [] | Some x \<Rightarrow> [x]) js)). linkedin_candidate c"
    using parse_card_sound by (fastforce split: option.splits)
  then show ?thesis using first_of_each_sound[of dj_external_id "[]"] unfolding cs by blast
qed

definition plain_description :: "raw_job \<Rightarrow> bool" where
  "plain_description j \<longleftrightarrow> (\<exists>d. rj_description j = Some d \<and> tag_free d \<and> strip d = d)"

lemma linkedin_description_plain:
  "tag_free (linkedin_description body) \<and> strip (linkedin_description body) = linkedin_description body"
proof -
  have "tag_free (text_of s) \<and> strip (text_of s) = text_of s" for s
    by (metis text_of_def text_of_tag_free collapse_ws_strip)
  moreover have "strip [] = []" by (simp add: strip_def lstrip_def rstrip_def)
  ultimately show ?thesis by (auto simp: linkedin_description_def split: option.splits)
qed

lemma linkedin_job_sound:
  "linkedin_job body i u = Some j \<Longrightarrow> rj_source j = ''linkedin'' \<and> rj_external_id j = i \<and> plain_description j"
  using linkedin_description_plain[of body]
  by (auto simp: linkedin_job_def Let_def plain_description_def split: option.splits)

lemma linkedin_page_body:
  "linkedin_page client accepts t p m = (Inr cs, m') \<Longrightarrow> \<exists>body. linkedin_search_page body = Some cs"
  by (cases "simple_get client (linkedin_status accepts) m (linkedin_search_request t (p * 25))")
     (auto simp: linkedin_page_def split: sum.splits option.splits)

interpretation linkedin_pages: paged_source dj_external_id "linkedin_page client accepts t" 1 for client accepts t
  by unfold_locales (auto simp: linkedin_page_def dest!: simple_get_cost split: prod.splits sum.splits option.splits)

interpretation linkedin_items: detail_source "''linkedin''" "linkedin_detail client accepts" linkedin_parse_detail plain_description
  for client accepts
  by unfold_locales (auto simp: linkedin_parse_detail_def linkedin_detail_def dest: linkedin_job_sound simple_get_cost)

lemma linkedin_discover_sound:
  assumes "linkedin_discover client accepts t = Inr cs" "1 \<le> tg_max_jobs t"
  shows "tg_source t = LINKEDIN \<and> int (length cs) \<le> tg_max_jobs t \<and> distinct (map dj_external_id cs) \<and>
    (\<forall>c \<in> set cs. linkedin_candidate c)"
proof -
  obtain n where l: "discover_loop dj_external_id (tg_max_jobs t) (Some 25) (linkedin_page client accepts t) [0..<5] [] 0 = (None, cs, n)"
    and src: "tg_source t = LINKEDIN"
    using assms(1) by (auto simp: linkedin_discover_def split: if_splits option.splits prod.splits)
  have "linkedin_candidate c" if "listed (linkedin_page client accepts t) ps c" for ps c
    using that search_page_sound linkedin_page_body unfolding listed_def by blast
  then show ?thesis using linkedin_pages.discovery[OF l] assms(2) src by auto
qed

interpretation linkedin: source_adapter LINKEDIN "linkedin_discover client accepts" "linkedin_details client accepts" digits_id
  for client accepts
proof unfold_locales
  fix t cs raws
  show "linkedin_discover client accepts t = Inr cs \<Longrightarrow> 1 \<le> tg_max_jobs t \<Longrightarrow> tg_source t = LINKEDIN \<and>
      int (length cs) \<le> tg_max_jobs t \<and> distinct (map dj_external_id cs) \<and> (\<forall>c \<in> set cs. digits_id (dj_external_id c))"
    using linkedin_discover_sound by (fastforce simp: linkedin_candidate_def)
  show "linkedin_details client accepts t cs = Inr raws \<Longrightarrow> subseq (map rj_external_id raws) (map dj_external_id cs) \<and>
      (\<forall>j \<in> set raws. rj_source j = source_str LINKEDIN)"
    using linkedin_items.details[of client accepts cs 0]
    by (cases "fetch_each (linkedin_detail client accepts) linkedin_parse_detail cs 0")
       (auto simp: linkedin_details_def split: if_splits)
qed

section \<open>Properties\<close>

text \<open>A LinkedIn discovery yields at most the requested number of candidates, without
  duplicates and all from pages it was given: with a numeric identifier, a title without
  markup and an absolute link. It fails only with the failure of a page. The details fetched
  keep order and identity of the candidates passed in and have a description without markup.\<close>

theorem linkedin_stages_sound:
  assumes "1 \<le> tg_max_jobs t"
  shows "(case linkedin_discover client accepts t of
      Inl e \<Rightarrow> tg_source t \<noteq> LINKEDIN \<or>
        (\<exists>pe. e = page_failure pe \<and> failed_page (linkedin_page client accepts t) [0..<5] pe)
    | Inr cs \<Rightarrow> int (length cs) \<le> tg_max_jobs t \<and> distinct (map dj_external_id cs) \<and>
        (\<forall>c \<in> set cs. linkedin_candidate c \<and> listed (linkedin_page client accepts t) [0..<5] c)) \<and>
    (case linkedin_details client accepts t wanted of
      Inl _ \<Rightarrow> True
    | Inr raws \<Rightarrow> subseq (map rj_external_id raws) (map dj_external_id wanted) \<and>
        (\<forall>j \<in> set raws. rj_source j = ''linkedin'' \<and> plain_description j))"
proof (rule conjI)
  obtain e cs n where l: "discover_loop dj_external_id (tg_max_jobs t) (Some 25) (linkedin_page client accepts t) [0..<5] [] 0 = (e, cs, n)"
    by (metis prod.exhaust)
  note loop = linkedin_pages.discovery[OF l]
  show "case linkedin_discover client accepts t of
      Inl e \<Rightarrow> tg_source t \<noteq> LINKEDIN \<or>
        (\<exists>pe. e = page_failure pe \<and> failed_page (linkedin_page client accepts t) [0..<5] pe)
    | Inr cs \<Rightarrow> int (length cs) \<le> tg_max_jobs t \<and> distinct (map dj_external_id cs) \<and>
        (\<forall>c \<in> set cs. linkedin_candidate c \<and> listed (linkedin_page client accepts t) [0..<5] c)"
  proof (cases "linkedin_discover client accepts t")
    case (Inl err)
    then show ?thesis using loop l assms by (auto simp: linkedin_discover_def split: if_splits option.splits)
  next
    case (Inr found)
    then have "found = cs" using l by (auto simp: linkedin_discover_def split: if_splits option.splits)
    then show ?thesis using linkedin_discover_sound[OF Inr assms] loop Inr assms by auto
  qed
  show "case linkedin_details client accepts t wanted of Inl _ \<Rightarrow> True
    | Inr raws \<Rightarrow> subseq (map rj_external_id raws) (map dj_external_id wanted) \<and>
        (\<forall>j \<in> set raws. rj_source j = ''linkedin'' \<and> plain_description j)"
    using linkedin_items.details[of client accepts wanted 0]
    by (cases "fetch_each (linkedin_detail client accepts) linkedin_parse_detail wanted 0")
       (auto simp: linkedin_details_def split: sum.splits)
qed

definition sample_card :: string where
  "sample_card = ''<li><a href='' @ [CHR 0x22] @ ''/jobs/view/x-12'' @ [CHR 0x22] @ ''>Q<b>a</b></a>''"

definition one_page :: "string \<Rightarrow> http_client" where
  "one_page body n url = Replied \<lparr>hr_status = 200, hr_retry_after = None, hr_text = body\<rparr>"

lemma sample_discovery_run:
  "linkedin_discover (one_page sample_card) (\<lambda>s. s = 200) (sample_target LINKEDIN ''qa'') =
     Inr [\<lparr>dj_source = ''linkedin'', dj_external_id = ''12'', dj_title = ''Q a'',
           dj_url = Some ''https://www.linkedin.com/jobs/view/x-12''\<rparr>]"
  by code_simp

theorem linkedin_stages_sound_witness:
  "linkedin_candidate \<lparr>dj_source = ''linkedin'', dj_external_id = ''12'', dj_title = ''Q a'',
     dj_url = Some ''https://www.linkedin.com/jobs/view/x-12''\<rparr>"
proof -
  have "1 \<le> tg_max_jobs (sample_target LINKEDIN ''qa'')" by code_simp
  from linkedin_stages_sound[OF this, of "one_page sample_card" "\<lambda>s. s = 200" "[]"] show ?thesis
    unfolding sample_discovery_run by simp
qed

end
