(* ===== verification/Glassdoor.thy ===== *)
theory Glassdoor
  imports Adapters
begin

text \<open>
  The Glassdoor adapter (\<open>src/app/jobs/sources/glassdoor/collector.py\<close>): requests retried up to
  five times, challenge pages recognised by markers, listings read from the pushed chunks of
  a search page, and a cache of the listings already parsed that answers the detail stage.
  \<open>now\<close> is the clock reading in microseconds; a listing older than the calendar raises
  \<open>OverflowError\<close>.
\<close>

section \<open>Requests\<close>

definition challenge_markers :: "string list" where
  "challenge_markers = [''cf-browser-verification'', ''cf_chl_'', ''cf-chl-'', ''challenge-platform'',
     ''challenges.cloudflare.com'', ''cf-turnstile'', ''just a moment...'', ''attention required! | cloudflare'',
     ''datadome'', ''geo.captcha-delivery.com'', ''px-captcha'', ''_pxhd'', ''perimeterx'', ''g-recaptcha'', ''h-captcha'',
     ''hcaptcha.com'', ''are you a robot'', ''verify you are human'', ''unusual traffic from your computer network'',
     ''access to this page has been denied'', ''help us protect glassdoor'', ''security check to access'',
     ''<title>just a moment'', ''<title>security | glassdoor'', ''<title>attention required'']"

definition challenged :: "http_reply \<Rightarrow> bool" where
  "challenged r = (let body = hr_text r; scan_head = lower (take 5000 body) in
     hr_status r \<in> {403, 407, 429, 999} \<or> list_ex (\<lambda>m. contains_sub m scan_head) challenge_markers \<or>
     (hr_status r = 200 \<and> length (strip body) < 512 \<and> (contains_sub ''<html'' scan_head \<or> contains_sub ''<!doctype'' scan_head) \<and>
      \<not> contains_sub ''jobview'' body))"

definition glassdoor_status :: "(int \<Rightarrow> bool) \<Rightarrow> http_reply \<Rightarrow> page_error option" where
  "glassdoor_status accepts r = (let s = hr_status r in
     if challenged r then Some (Collect (TemporaryError (if s = 429 then 60 else 300)))
     else if transient_status s then Some (Collect (TemporaryError default_retry))
     else if accepts s then None else Some (HttpStatus s))"

definition is_us :: "string \<Rightarrow> bool" where
  "is_us l \<longleftrightarrow> lower l \<in> {''united states'', ''usa'', ''us''}"

definition glassdoor_request :: "target \<Rightarrow> nat \<Rightarrow> string" where
  "glassdoor_request t page = ''https://www.glassdoor.com/Job/jobs.htm?'' @ urlencode
     ([(''sc.keyword'', tg_query t), (''p'', nat_str page)] @
      (case tg_location t of
         None \<Rightarrow> []
       | Some l \<Rightarrow> if l \<noteq> [] \<and> lower l \<noteq> ''remote'' \<and> \<not> is_us l
           then [(''locT'', ''C''), (''locId'', ''0''), (''locKeyword'', strip l)] else []))"

text \<open>The attempts of one page; the argument \<open>last\<close> is the failure remembered so far.\<close>

fun page_attempts ::
  "http_client \<Rightarrow> (http_reply \<Rightarrow> page_error option) \<Rightarrow> string \<Rightarrow> nat \<Rightarrow> page_error \<Rightarrow> nat \<Rightarrow> (page_error + http_reply) \<times> nat" where
  "page_attempts client check url 0 last_failure n = (Inl last_failure, n)"
| "page_attempts client check url (Suc k) last_failure n = (case client n url of
      TimedOut \<Rightarrow> page_attempts client check url k (Collect (TemporaryError default_retry)) (n + 1)
    | CurlError in_curl \<Rightarrow> page_attempts client check url k
        (Collect (if in_curl then TemporaryError default_retry else OtherError ''RequestsError'')) (n + 1)
    | ClientRaised e \<Rightarrow> (Inl (Collect (OtherError e)), n + 1)
    | Replied r \<Rightarrow> (case check r of
          None \<Rightarrow> (Inr r, n + 1)
        | Some (Collect e) \<Rightarrow> page_attempts client check url k (Collect e) (n + 1)
        | Some (HttpStatus s) \<Rightarrow> (Inl (HttpStatus s), n + 1)))"

definition glassdoor_fetch ::
  "http_client \<Rightarrow> (int \<Rightarrow> bool) \<Rightarrow> target \<Rightarrow> nat \<Rightarrow> nat \<Rightarrow> (page_error + http_reply) \<times> nat" where
  "glassdoor_fetch client accepts t page n =
     page_attempts client (glassdoor_status accepts) (glassdoor_request t page) 5 (Collect (TemporaryError default_retry)) n"

section \<open>Search pages\<close>

text \<open>\<open>s.replace(old, new)\<close> and \<open>s.split(sep)\<close> for non-empty \<open>old\<close> and \<open>sep\<close>; \<open>k\<close> characters of the
  current occurrence are still to be skipped.\<close>

fun replace_text :: "string \<Rightarrow> string \<Rightarrow> nat \<Rightarrow> string \<Rightarrow> string" where
  "replace_text old new k [] = []"
| "replace_text old new k (c # s) =
     (if k > 0 then replace_text old new (k - 1) s
      else if prefix old (c # s) then new @ replace_text old new (length old - 1) s
      else c # replace_text old new 0 s)"

fun split_text :: "string \<Rightarrow> nat \<Rightarrow> string \<Rightarrow> string list" where
  "split_text sep k [] = [[]]"
| "split_text sep k (c # s) =
     (if k > 0 then split_text sep (k - 1) s
      else if prefix sep (c # s) then [] # split_text sep (length sep - 1) s
      else (case split_text sep 0 s of [] \<Rightarrow> [[c]] | p # ps \<Rightarrow> (c # p) # ps))"

definition chunk_rx :: rx where
  "chunk_rx = rseq [rlit ''self.__next_f.push([1,'', rspaces, rchar (CHR 0x22), RGroup ''1'' (RLazy (not_char (CHR 0x0A))),
     rlit (CHR 0x22 # '']'' @ '')'')]"

definition unicode_rx :: rx where
  "unicode_rx = rseq [rlit [CHR 0x5C, CHR ''u''], RGroup ''1'' (rtimes 4 (RSet (\<lambda>c. hex_value c \<noteq> None)))]"

fun weave :: "string list \<Rightarrow> string list \<Rightarrow> string" where
  "weave (p # ps) (r # rs) = p @ r @ weave ps rs"
| "weave ps _ = concat ps"

definition unescape_unicode :: "string \<Rightarrow> string" where
  "unescape_unicode s = (let hs = finditer unicode_rx s in weave (pieces s hs)
     (map (\<lambda>h. case Option.bind (grp h ''1'') hex4 of None \<Rightarrow> hit_text h | Some n \<Rightarrow> [code_point_char n]) hs))"

definition unescape :: "string \<Rightarrow> string" where
  "unescape raw = replace_text [CHR 0x5C, CHR ''t''] [CHR 0x09] 0 (replace_text [CHR 0x5C, CHR ''n''] [CHR 0x0A] 0
     (replace_text [CHR 0x5C, CHR 0x5C] [CHR 0x5C] 0 (replace_text [CHR 0x5C, CHR 0x22] [CHR 0x22] 0 (unescape_unicode raw))))"

definition quoted :: "string \<Rightarrow> string" where
  "quoted k = CHR 0x22 # k @ [CHR 0x22]"

definition text_field :: "string \<Rightarrow> string \<Rightarrow> string option" where
  "text_field k p = group1 (re_search (rseq [rlit (quoted k @ '':''), rspaces, rchar (CHR 0x22),
     RGroup ''1'' (rplus (not_char (CHR 0x22))), rchar (CHR 0x22)]) p)"

definition number_field :: "string \<Rightarrow> string \<Rightarrow> string option" where
  "number_field k p = group1 (re_search (rseq [rlit (quoted k @ '':''), rspaces, RGroup ''1'' (rplus rdigit)]) p)"

definition fragments_rx :: rx where
  "fragments_rx = rseq [rlit (quoted ''descriptionFragmentsText'' @ '':''), rspaces,
     RGroup ''1'' (rseq [rchar (CHR ''[''), RStar (not_char (CHR '']'')), rchar (CHR '']'')])]"

definition listing_id :: "string \<Rightarrow> string \<Rightarrow> string option" where
  "listing_id link p = (case group1 (re_search (rseq [rlit ''jl='', RGroup ''1'' (rplus rdigit)]) link) of
      Some i \<Rightarrow> Some i
    | None \<Rightarrow> number_field ''listingId'' p)"

definition glassdoor_description :: "string \<Rightarrow> string \<Rightarrow> string \<Rightarrow> string \<Rightarrow> string" where
  "glassdoor_description title employer loc p = (let default =
       title @ '' opportunity at '' @ employer @ '' in '' @ (if loc = [] then ''USA'' else loc) @ ''.'' in
     case Option.bind (group1 (re_search fragments_rx p)) json_loads of
       Some (VList frags) \<Rightarrow>
         if frags = [] then default
         else strip (join '' '' (map (\<lambda>f. strip (re_sub tag_rx '' '' (py_str f))) (filter truthy_val frags)))
     | _ \<Rightarrow> default)"

definition earliest_instant :: int where
  "earliest_instant = - 62135596800000000"

definition remote_words :: "string \<Rightarrow> bool option" where
  "remote_words s = (if contains_sub ''remote'' s \<or> contains_sub ''work from home'' s then Some True
     else if contains_sub ''onsite'' s \<or> contains_sub ''hybrid'' s then Some False else None)"

definition with_listed_salary :: "nat option \<Rightarrow> nat option \<Rightarrow> string \<Rightarrow> raw_job \<Rightarrow> raw_job" where
  "with_listed_salary smin smax desc j = (let pos = (\<lambda>v. case v of Some n \<Rightarrow> if n > 0 then Some n else None | None \<Rightarrow> None);
       lo = pos smin; hi = pos smax;
       listed = j\<lparr>rj_salary_min := map_option of_nat lo, rj_salary_max := map_option of_nat hi,
         rj_salary_currency := (if lo \<noteq> None \<or> hi \<noteq> None then Some ''USD'' else None), rj_salary_period := None,
         rj_salary_text := None\<rparr>
     in case (lo, hi) of
          (Some a, Some b) \<Rightarrow> listed\<lparr>rj_salary_text := Some (''$'' @ nat_str a @ '' - $'' @ nat_str b),
            rj_salary_period := (if a \<ge> 20000 then Some ''year'' else if a \<le> 300 then Some ''hour'' else None)\<rparr>
        | _ \<Rightarrow> (case parse_salary desc of None \<Rightarrow> listed | Some s \<Rightarrow> with_salary (Some s) listed))"

definition opt_number :: "nat option \<Rightarrow> json" where
  "opt_number v = (case v of None \<Rightarrow> JNull | Some n \<Rightarrow> JNum (of_nat n))"

record listing_head =
  lh_title :: string
  lh_employer :: string
  lh_link :: string
  lh_id :: string

text \<open>What identifies one part of a page; without it the part is skipped.\<close>

definition listing_head_of :: "string \<Rightarrow> listing_head option" where
  "listing_head_of p =
     (case (text_field ''jobTitleText'' p, text_field ''employerNameFromSearch'' p, text_field ''seoJobLink'' p) of
        (Some title, Some employer, Some link) \<Rightarrow>
          map_option (\<lambda>i. \<lparr>lh_title = strip title, lh_employer = strip employer, lh_link = strip link, lh_id = i\<rparr>)
            (listing_id (strip link) p)
      | _ \<Rightarrow> None)"

definition parse_listing :: "int \<Rightarrow> listing_head \<Rightarrow> string \<Rightarrow> collect_error + discovered_job \<times> raw_job" where
  "parse_listing now h p = (let title = lh_title h; employer = lh_employer h; link = lh_link h;
       clean_link = (if prefix ''/'' link then ''https://www.glassdoor.com'' @ link else link);
       loc = (case text_field ''locationName'' p of None \<Rightarrow> [] | Some l \<Rightarrow> strip l);
       smin = map_option nat_of_digits (number_field ''p10'' p); smax = map_option nat_of_digits (number_field ''p90'' p);
       desc = glassdoor_description title employer loc p;
       posted = map_option (\<lambda>a. now - int (nat_of_digits a) * day_us) (number_field ''ageInDays'' p);
       remote = remote_words (lower (title @ '' '' @ loc @ '' '' @ desc))
     in if (case posted of None \<Rightarrow> False | Some i \<Rightarrow> i < earliest_instant) then Inl (OtherError ''OverflowError'')
        else Inr (\<lparr>dj_source = ''glassdoor'', dj_external_id = lh_id h, dj_title = title, dj_url = Some clean_link\<rparr>,
          with_listed_salary smin smax desc (with_experience (extract_experience (title @ [CHR 0x0A] @ desc))
            ((bare_job ''glassdoor'' (lh_id h) title)\<lparr>rj_company := Some employer, rj_location := Some loc,
               rj_url := Some clean_link, rj_description := Some desc,
               rj_employment_type := map_option employment_str (normalize_employment_type desc),
               rj_remote := remote, rj_remote_type := normalize_remote_type (loc @ [CHR 0x0A] @ desc) remote,
               rj_posted_at := map_option (\<lambda>i. Aware i 0) posted, rj_skills := extract_skills_from_text desc,
               rj_raw_data := [(''title'', JStr title), (''company'', JStr employer), (''url'', JStr clean_link),
                 (''salary_min'', opt_number smin), (''salary_max'', opt_number smax),
                 (''salary_currency'', JStr ''USD'')]\<rparr>))))"

fun parse_listings :: "int \<Rightarrow> string list \<Rightarrow> string list \<Rightarrow> collect_error + (discovered_job \<times> raw_job) list" where
  "parse_listings now seen [] = Inr []"
| "parse_listings now seen (p # ps) = (case listing_head_of p of
      None \<Rightarrow> parse_listings now seen ps
    | Some h \<Rightarrow>
        if lh_id h \<in> set seen then parse_listings now seen ps
        else (case parse_listing now h p of
            Inl e \<Rightarrow> Inl e
          | Inr item \<Rightarrow> (case parse_listings now (lh_id h # seen) ps of Inl e \<Rightarrow> Inl e | Inr rest \<Rightarrow> Inr (item # rest))))"

definition glassdoor_search_page :: "int \<Rightarrow> string \<Rightarrow> collect_error + (discovered_job \<times> raw_job) list" where
  "glassdoor_search_page now body = (let chunks = map (\<lambda>h. case grp h ''1'' of None \<Rightarrow> [] | Some c \<Rightarrow> c) (finditer chunk_rx body) in
     if chunks = [] then Inr []
     else parse_listings now [] (tl (split_text (quoted ''jobview'' @ '':'') 0 (unescape (concat chunks)))))"

section \<open>The two stages\<close>

definition glassdoor_page ::
  "http_client \<Rightarrow> (int \<Rightarrow> bool) \<Rightarrow> int \<Rightarrow> target \<Rightarrow> nat \<Rightarrow> nat \<Rightarrow> (page_error + (discovered_job \<times> raw_job) list) \<times> nat" where
  "glassdoor_page client accepts now t page n = (case glassdoor_fetch client accepts t page n of
      (Inl e, n') \<Rightarrow> (Inl e, n')
    | (Inr r, n') \<Rightarrow> (case glassdoor_search_page now (hr_text r) of Inl e \<Rightarrow> (Inl (Collect e), n') | Inr xs \<Rightarrow> (Inr xs, n')))"

text \<open>\<open>self._cache[d_job.external_job_id] = r_job\<close>.\<close>

definition remember :: "discovered_job \<times> raw_job \<Rightarrow> (string, raw_job) dict \<Rightarrow> (string, raw_job) dict" where
  "remember x cache = dset (dj_external_id (fst x)) (snd x) cache"

text \<open>A discovery and the cache it leaves, which keeps the listings of a run that failed later.\<close>

definition glassdoor_discover ::
  "http_client \<Rightarrow> (int \<Rightarrow> bool) \<Rightarrow> int \<Rightarrow> target \<Rightarrow> (string, raw_job) dict \<Rightarrow>
   (collect_error + discovered_job list) \<times> (string, raw_job) dict" where
  "glassdoor_discover client accepts now t cache = (if tg_source t \<noteq> GLASSDOOR then (Inl (OtherError ''ValueError''), cache)
     else (case discover_loop (dj_external_id \<circ> fst) (tg_max_jobs t) None (glassdoor_page client accepts now t) [1..<6] [] 0 of
         (e, found, _) \<Rightarrow> ((case e of Some err \<Rightarrow> Inl (page_failure err) | None \<Rightarrow> Inr (map fst found)),
           fold remember found cache)))"

definition glassdoor_details ::
  "(string, raw_job) dict \<Rightarrow> target \<Rightarrow> discovered_job list \<Rightarrow> collect_error + raw_job list" where
  "glassdoor_details cache t cs = (if tg_source t \<noteq> GLASSDOOR then Inl (OtherError ''ValueError'')
     else Inr (concat (map (\<lambda>c. case dget cache (dj_external_id c) of None \<Rightarrow> [] | Some j \<Rightarrow> [j]) cs)))"

definition glassdoor_collector :: "http_client \<Rightarrow> (int \<Rightarrow> bool) \<Rightarrow> int \<Rightarrow> (string, raw_job) dict \<Rightarrow> collector" where
  "glassdoor_collector client accepts now cache = TwoStage (\<lambda>t. fst (glassdoor_discover client accepts now t cache))
     (\<lambda>t. glassdoor_details (snd (glassdoor_discover client accepts now t cache)) t)"

section \<open>Lemmas\<close>

lemma page_attempts_cost: "page_attempts client check url k e n = (r, n') \<Longrightarrow> n \<le> n' \<and> n' \<le> n + k"
proof (induction client check url k e n rule: page_attempts.induct)
  case (2 client check url k e n)
  show ?case
  proof (cases "client n url")
    case (Replied reply)
    show ?thesis
    proof (cases "check reply")
      case (Some pe)
      then show ?thesis using "2.IH" "2.prems" Replied by (cases pe) fastforce+
    qed (use "2.prems" Replied in auto)
  next
    case TimedOut
    then show ?thesis using "2.IH" "2.prems" by fastforce
  next
    case (CurlError m)
    then show ?thesis using "2.IH" "2.prems" by fastforce
  qed (use "2.prems" in auto)
qed simp

lemma listing_id_digits: "listing_id link p = Some i \<Longrightarrow> digits_id i"
proof -
  have groups: "rx_groups (rseq [rlit ''jl='', RGroup ''1'' (rplus rdigit)]) = [(''1'', rplus rdigit)]"
    "rx_groups (rseq [rlit (quoted ''listingId'' @ '':''), rspaces, RGroup ''1'' (rplus rdigit)]) = [(''1'', rplus rdigit)]"
    by (simp_all add: quoted_def rchar_def rspaces_def rplus_def rdigit_def)
  show "listing_id link p = Some i \<Longrightarrow> digits_id i"
    using groups by (auto simp: listing_id_def number_field_def captures_def dest!: group1_search dest: digits_lang split: option.splits)
qed

definition glassdoor_item :: "discovered_job \<times> raw_job \<Rightarrow> bool" where
  "glassdoor_item x \<longleftrightarrow> dj_source (fst x) = ''glassdoor'' \<and> rj_source (snd x) = ''glassdoor'' \<and>
     rj_external_id (snd x) = dj_external_id (fst x) \<and> digits_id (dj_external_id (fst x))"

lemma with_listed_salary_fields [simp]:
  "rj_source (with_listed_salary a b d j) = rj_source j" "rj_external_id (with_listed_salary a b d j) = rj_external_id j"
  by (auto simp: with_listed_salary_def Let_def split: option.splits)

lemma listing_head_digits: "listing_head_of p = Some h \<Longrightarrow> digits_id (lh_id h)"
  using listing_id_digits by (auto simp: listing_head_of_def split: option.splits)

lemma parse_listing_item: "parse_listing now h p = Inr x \<Longrightarrow> digits_id (lh_id h) \<Longrightarrow> glassdoor_item x \<and> dj_external_id (fst x) = lh_id h"
  by (auto simp: parse_listing_def glassdoor_item_def Let_def split: if_splits option.splits)

lemma parse_listings_items:
  "parse_listings now seen ps = Inr xs \<Longrightarrow> \<forall>x \<in> set xs. glassdoor_item x"
proof (induction now seen ps arbitrary: xs rule: parse_listings.induct)
  case (2 now seen p ps)
  show ?case
  proof (cases "listing_head_of p")
    case None
    then show ?thesis using 2 by simp
  next
    case (Some h)
    show ?thesis
    proof (cases "lh_id h \<in> set seen")
      case True
      then show ?thesis using 2 Some by simp
    next
      case False
      then obtain x rest where x: "parse_listing now h p = Inr x" "parse_listings now (lh_id h # seen) ps = Inr rest" "xs = x # rest"
        using "2.prems" Some by (auto split: sum.splits)
      then show ?thesis using "2.IH"(3)[OF Some False] parse_listing_item[OF x(1)] listing_head_digits[OF Some] by auto
    qed
  qed
qed simp

lemma glassdoor_page_items:
  "glassdoor_page client accepts now t p m = (Inr xs, m') \<Longrightarrow> \<forall>x \<in> set xs. glassdoor_item x"
  using parse_listings_items
  by (cases "glassdoor_fetch client accepts t p m")
     (fastforce simp: glassdoor_page_def glassdoor_search_page_def Let_def split: sum.splits if_splits)

interpretation glassdoor_pages: paged_source "dj_external_id \<circ> fst" "glassdoor_page client accepts now t" 5 for client accepts now t
proof unfold_locales
  fix p n r n'
  assume a: "glassdoor_page client accepts now t p n = (r, n')"
  obtain r0 m where f: "glassdoor_fetch client accepts t p n = (r0, m)" by (metis prod.exhaust)
  then have "n' = m" using a by (auto simp: glassdoor_page_def split: sum.splits)
  then show "n \<le> n' \<and> n' \<le> n + 5" using f page_attempts_cost by (auto simp: glassdoor_fetch_def)
qed

text \<open>The cache files every listing under its own identifier, and a discovery keeps that.\<close>

definition cache_ok :: "(string, raw_job) dict \<Rightarrow> bool" where
  "cache_ok cache \<longleftrightarrow> (\<forall>k j. dget cache k = Some j \<longrightarrow> rj_external_id j = k \<and> rj_source j = ''glassdoor'')"

lemma remember_get: "dget (remember x cache) k = (if k = dj_external_id (fst x) then Some (snd x) else dget cache k)"
  by (simp add: remember_def dict_simps)

lemma fold_cache_ok: "\<lbrakk>\<forall>x \<in> set found. glassdoor_item x; cache_ok cache\<rbrakk> \<Longrightarrow> cache_ok (fold remember found cache)"
proof (induction found arbitrary: cache)
  case (Cons x found)
  have "cache_ok (remember x cache)"
    using Cons.prems by (auto simp: cache_ok_def glassdoor_item_def remember_get)
  then show ?case using Cons by simp
qed simp

lemma fold_cache_other: "k \<notin> (dj_external_id \<circ> fst) ` set found \<Longrightarrow> dget (fold remember found cache) k = dget cache k"
  by (induction found arbitrary: cache) (auto simp: remember_get)

lemma fold_cache_get:
  "\<lbrakk>x \<in> set found; distinct (map (dj_external_id \<circ> fst) found)\<rbrakk> \<Longrightarrow>
   dget (fold remember found cache) (dj_external_id (fst x)) = Some (snd x)"
proof (induction found arbitrary: cache)
  case (Cons y found)
  show ?case
  proof (cases "x \<in> set found")
    case True
    then show ?thesis using Cons by simp
  next
    case False
    then have "x = y" using Cons.prems by simp
    then show ?thesis using Cons.prems by (simp add: fold_cache_other remember_get)
  qed
qed simp

lemma glassdoor_discover_cases:
  assumes "glassdoor_discover client accepts now t cache = (res, cache')" "1 \<le> tg_max_jobs t"
  obtains "tg_source t \<noteq> GLASSDOOR" "res = Inl (OtherError ''ValueError'')" "cache' = cache"
  | e found n where "tg_source t = GLASSDOOR"
    "discover_loop (dj_external_id \<circ> fst) (tg_max_jobs t) None (glassdoor_page client accepts now t) [1..<6] [] 0 = (e, found, n)"
    "res = (case e of Some err \<Rightarrow> Inl (page_failure err) | None \<Rightarrow> Inr (map fst found))"
    "cache' = fold remember found cache"
    "distinct (map (dj_external_id \<circ> fst) found)" "int (length found) \<le> tg_max_jobs t" "n \<le> 25"
    "\<forall>x \<in> set found. glassdoor_item x" "\<forall>err. e = Some err \<longrightarrow> failed_page (glassdoor_page client accepts now t) [1..<6] err"
proof (cases "tg_source t = GLASSDOOR")
  case True
  obtain e found n where l: "discover_loop (dj_external_id \<circ> fst) (tg_max_jobs t) None (glassdoor_page client accepts now t) [1..<6] [] 0 = (e, found, n)"
    by (metis prod.exhaust)
  note loop = glassdoor_pages.discovery[OF l]
  have "glassdoor_item x" if "x \<in> set found" for x
    using loop that glassdoor_page_items assms(2) by (fastforce simp: listed_def)
  then show ?thesis using True l loop assms that(2)[of e found n] by (auto simp: glassdoor_discover_def)
next
  case False
  then show ?thesis using assms that(1) by (simp add: glassdoor_discover_def)
qed

lemma glassdoor_discover_sound:
  assumes "glassdoor_discover client accepts now t cache = (Inr cs, cache')" "1 \<le> tg_max_jobs t"
  shows "tg_source t = GLASSDOOR \<and> int (length cs) \<le> tg_max_jobs t \<and> distinct (map dj_external_id cs) \<and>
    (\<forall>c \<in> set cs. dj_source c = ''glassdoor'' \<and> digits_id (dj_external_id c))"
  using assms(1) by (rule glassdoor_discover_cases[OF _ assms(2)])
    (auto simp: glassdoor_item_def comp_def split: option.splits)

text \<open>Afterwards the cache answers for every candidate with the listing parsed from its page.\<close>

lemma glassdoor_discover_caches:
  assumes "glassdoor_discover client accepts now t cache = (Inr cs, cache')" "1 \<le> tg_max_jobs t" "c \<in> set cs"
  shows "\<exists>j. dget cache' (dj_external_id c) = Some j \<and> rj_external_id j = dj_external_id c \<and> rj_source j = ''glassdoor''"
  using assms(1)
proof (rule glassdoor_discover_cases[OF _ assms(2)])
  fix e found n
  assume l: "Inr cs = (case e of Some err \<Rightarrow> Inl (page_failure err) | None \<Rightarrow> Inr (map fst found))"
    "cache' = fold remember found cache" "distinct (map (dj_external_id \<circ> fst) found)" "\<forall>x \<in> set found. glassdoor_item x"
  then obtain x where x: "x \<in> set found" "c = fst x" using assms(3) by (auto split: option.splits)
  then show ?thesis using fold_cache_get[OF x(1) l(3)] l by (auto simp: glassdoor_item_def)
qed simp_all

lemma glassdoor_discover_cache_ok:
  assumes "cache_ok cache" "glassdoor_discover client accepts now t cache = (res, cache')"
  shows "cache_ok cache'"
proof (cases "1 \<le> tg_max_jobs t")
  case True
  show ?thesis
    using assms(2) by (rule glassdoor_discover_cases[OF _ True]) (use assms fold_cache_ok in auto)
next
  case False
  then have "discover_loop (dj_external_id \<circ> fst) (tg_max_jobs t) None (glassdoor_page client accepts now t) [1..<6] [] 0 = (None, [], 0)"
    by (simp add: upt_rec)
  then show ?thesis using assms by (auto simp: glassdoor_discover_def split: if_splits)
qed

text \<open>The cached listings of the candidates passed in, in their order.\<close>

lemma cached_listings:
  assumes "\<And>c. c \<in> set cs \<Longrightarrow> \<forall>j. dget cache (dj_external_id c) = Some j \<longrightarrow> rj_external_id j = dj_external_id c"
  shows "subseq (map rj_external_id (concat (map (\<lambda>c. case dget cache (dj_external_id c) of None \<Rightarrow> [] | Some j \<Rightarrow> [j]) cs)))
    (map dj_external_id cs)"
  using assms
proof (induction cs)
  case (Cons c cs)
  then show ?case by (cases "dget cache (dj_external_id c)") auto
qed simp

section \<open>A collector with its cache\<close>

locale glassdoor_instance =
  fixes client :: http_client and accepts :: "int \<Rightarrow> bool" and now :: int and cache :: "(string, raw_job) dict"
  assumes cache: "cache_ok cache"

sublocale glassdoor_instance \<subseteq> stages: source_adapter GLASSDOOR "\<lambda>t. fst (glassdoor_discover client accepts now t cache)"
  "\<lambda>t. glassdoor_details (snd (glassdoor_discover client accepts now t cache)) t" digits_id
proof unfold_locales
  fix t cs raws
  obtain res cache' where d: "glassdoor_discover client accepts now t cache = (res, cache')" by (metis prod.exhaust)
  show "fst (glassdoor_discover client accepts now t cache) = Inr cs \<Longrightarrow> 1 \<le> tg_max_jobs t \<Longrightarrow> tg_source t = GLASSDOOR \<and>
      int (length cs) \<le> tg_max_jobs t \<and> distinct (map dj_external_id cs) \<and> (\<forall>c \<in> set cs. digits_id (dj_external_id c))"
    using glassdoor_discover_sound[where client = client and accepts = accepts and now = now and t = t and cache = cache] d
    by auto
  have ok: "cache_ok cache'" using glassdoor_discover_cache_ok[OF cache d] .
  then have listings: "subseq (map rj_external_id (concat (map (\<lambda>c. case dget cache' (dj_external_id c) of None \<Rightarrow> [] | Some j \<Rightarrow> [j]) cs)))
      (map dj_external_id cs)" by (intro cached_listings) (auto simp: cache_ok_def)
  show "glassdoor_details (snd (glassdoor_discover client accepts now t cache)) t cs = Inr raws \<Longrightarrow>
      subseq (map rj_external_id raws) (map dj_external_id cs) \<and> (\<forall>j \<in> set raws. rj_source j = source_str GLASSDOOR)"
    using listings ok d by (auto simp: glassdoor_details_def cache_ok_def split: if_splits option.splits)
qed

context glassdoor_instance
begin

lemmas run_adds_only = stages.run_adds_only

end

lemma cache_ok_empty: "cache_ok []"
  by (simp add: cache_ok_def dget_def)

interpretation glassdoor: glassdoor_instance client accepts now "[]" for client accepts now
  by unfold_locales (rule cache_ok_empty)

section \<open>Properties\<close>

text \<open>C31: from a well-formed cache a Glassdoor discovery leaves a well-formed cache; it yields at
  most the requested number of candidates, without duplicates and with numeric identifiers, or
  fails with the failure of a page. After it the detail stage answers every candidate asked
  for, in order, from the cache.\<close>

theorem glassdoor_stages_sound:
  assumes "1 \<le> tg_max_jobs t" "cache_ok cache" "glassdoor_discover client accepts now t cache = (res, cache')"
  shows "cache_ok cache' \<and> (case res of
      Inl e \<Rightarrow> tg_source t \<noteq> GLASSDOOR \<or>
        (\<exists>pe. e = page_failure pe \<and> failed_page (glassdoor_page client accepts now t) [1..<6] pe)
    | Inr cs \<Rightarrow> int (length cs) \<le> tg_max_jobs t \<and> distinct (map dj_external_id cs) \<and>
        (\<forall>c \<in> set cs. dj_source c = ''glassdoor'' \<and> digits_id (dj_external_id c)) \<and>
        (\<forall>wanted. set wanted \<subseteq> set cs \<longrightarrow> (\<exists>raws. glassdoor_details cache' t wanted = Inr raws \<and>
           map rj_external_id raws = map dj_external_id wanted \<and> (\<forall>j \<in> set raws. rj_source j = ''glassdoor''))))"
proof (intro conjI)
  show "cache_ok cache'" using glassdoor_discover_cache_ok assms(2,3) .
  show "case res of
      Inl e \<Rightarrow> tg_source t \<noteq> GLASSDOOR \<or>
        (\<exists>pe. e = page_failure pe \<and> failed_page (glassdoor_page client accepts now t) [1..<6] pe)
    | Inr cs \<Rightarrow> int (length cs) \<le> tg_max_jobs t \<and> distinct (map dj_external_id cs) \<and>
        (\<forall>c \<in> set cs. dj_source c = ''glassdoor'' \<and> digits_id (dj_external_id c)) \<and>
        (\<forall>wanted. set wanted \<subseteq> set cs \<longrightarrow> (\<exists>raws. glassdoor_details cache' t wanted = Inr raws \<and>
           map rj_external_id raws = map dj_external_id wanted \<and> (\<forall>j \<in> set raws. rj_source j = ''glassdoor'')))"
  proof (cases res)
    case (Inl e)
    show ?thesis using assms(3) by (rule glassdoor_discover_cases[OF _ assms(1)]) (auto simp: Inl split: option.splits)
  next
    case (Inr cs)
    note d = assms(3)[unfolded Inr]
    note sound = glassdoor_discover_sound[OF d assms(1)]
    have "glassdoor_details cache' t wanted = Inr (map (\<lambda>c. the (dget cache' (dj_external_id c))) wanted) \<and>
        (\<forall>c \<in> set wanted. rj_external_id (the (dget cache' (dj_external_id c))) = dj_external_id c \<and>
           rj_source (the (dget cache' (dj_external_id c))) = ''glassdoor'')" if "set wanted \<subseteq> set cs" for wanted
      using that sound
    proof (induction wanted)
      case (Cons c wanted)
      then show ?case using glassdoor_discover_caches[OF d assms(1), of c] by (auto simp: glassdoor_details_def)
    qed (simp add: glassdoor_details_def)
    then show ?thesis unfolding Inr using sound by fastforce
  qed
qed

lemma silent_discovery_run:
  "glassdoor_discover (\<lambda>n url. TimedOut) (\<lambda>s. s = 200) 0 (sample_target GLASSDOOR ''qa'') [] = (Inl (TemporaryError 30), [])"
  by code_simp

theorem glassdoor_stages_sound_witness:
  "\<exists>pe. TemporaryError 30 = page_failure pe \<and>
     failed_page (glassdoor_page (\<lambda>n url. TimedOut) (\<lambda>s. s = 200) 0 (sample_target GLASSDOOR ''qa'')) [1..<6] pe"
proof -
  have "1 \<le> tg_max_jobs (sample_target GLASSDOOR ''qa'')" "tg_source (sample_target GLASSDOOR ''qa'') = GLASSDOOR" by code_simp+
  then show ?thesis using glassdoor_stages_sound[OF _ cache_ok_empty silent_discovery_run] by simp
qed

end
