(* ===== verification/PyDate.thy ===== *)
theory PyDate
  imports JobModel
begin

text \<open>
  \<open>datetime.fromisoformat\<close> of Python 3.12: calendar and week dates, with or without
  separators, any one character before the time, a fraction of any length cut to
  microseconds, and an offset of less than a day. \<open>None\<close> is the \<open>ValueError\<close>. What follows
  the seconds is read as leniently as CPython does, which ignores an incomplete remainder
  before an offset.
\<close>

section \<open>Days\<close>

definition day_number :: "int \<Rightarrow> int \<Rightarrow> int \<Rightarrow> int" where
  "day_number y m d = (let y' = (if m \<le> 2 then y - 1 else y); era = y' div 400; yoe = y' mod 400;
       doy = (153 * (if m > 2 then m - 3 else m + 9) + 2) div 5 + d - 1;
       doe = yoe * 365 + yoe div 4 - yoe div 100 + doy
     in era * 146097 + doe - 719468)"

definition leap_year :: "int \<Rightarrow> bool" where
  "leap_year y \<longleftrightarrow> y mod 4 = 0 \<and> (y mod 100 \<noteq> 0 \<or> y mod 400 = 0)"

definition days_in_month :: "int \<Rightarrow> int \<Rightarrow> int" where
  "days_in_month y m = (if m = 2 then (if leap_year y then 29 else 28) else if m \<in> {4, 6, 9, 11} then 30 else 31)"

text \<open>The first and the last day of the calendar, 0001-01-01 and 9999-12-31.\<close>

definition first_day :: int where "first_day = - 719162"
definition last_day :: int where "last_day = 2932896"

definition calendar_day :: "int \<Rightarrow> int \<Rightarrow> int \<Rightarrow> int option" where
  "calendar_day y m d = (if 1 \<le> y \<and> y \<le> 9999 \<and> 1 \<le> m \<and> m \<le> 12 \<and> 1 \<le> d \<and> d \<le> days_in_month y m
     then Some (day_number y m d) else None)"

text \<open>Day \<open>d\<close> (1 is Monday) of week \<open>w\<close> of an ISO year.\<close>

definition week_day :: "int \<Rightarrow> int \<Rightarrow> int \<Rightarrow> int option" where
  "week_day y w d = (let jan1 = day_number y 1 1; fw = (jan1 + 3) mod 7;
       weeks = (if fw = 3 \<or> (fw = 2 \<and> leap_year y) then 53 else 52);
       n = jan1 - fw + (if fw > 3 then 7 else 0) + (w - 1) * 7 + d - 1
     in if 1 \<le> y \<and> 1 \<le> w \<and> w \<le> weeks \<and> 1 \<le> d \<and> d \<le> 7 \<and> first_day \<le> n \<and> n \<le> last_day then Some n else None)"

section \<open>Fields\<close>

definition char_at :: "string \<Rightarrow> nat \<Rightarrow> char" where
  "char_at s i = (if i < length s then s ! i else CHR 0x00)"

definition starts :: "char \<Rightarrow> string \<Rightarrow> bool" where
  "starts c s \<longleftrightarrow> s \<noteq> [] \<and> hd s = c"

definition take_number :: "nat \<Rightarrow> string \<Rightarrow> (int \<times> string) option" where
  "take_number n s = (if n \<le> length s \<and> list_all is_digit (take n s)
     then Some (int (nat_of_digits (take n s)), drop n s) else None)"

text \<open>Where the date ends.\<close>

definition separator_index :: "string \<Rightarrow> nat option" where
  "separator_index s = (let n = length s in
     if n = 7 then Some 7
     else if char_at s 4 = CHR ''-'' then
       (if char_at s 5 = CHR ''W'' then
          (if n > 8 \<and> char_at s 8 = CHR ''-'' then
             (if n = 9 then None else if n > 10 \<and> is_digit (char_at s 10) then Some 8 else Some 10)
           else Some 8)
        else Some 10)
     else if char_at s 4 = CHR ''W'' then
       (let i = 7 + length (takeWhile is_digit (drop 7 s)) in
        Some (if i < 9 then i else if even i then 7 else 8))
     else Some 8)"

definition dash :: "bool \<Rightarrow> string \<Rightarrow> string option" where
  "dash expected s = (if expected then (if starts (CHR ''-'') s then Some (tl s) else None) else Some s)"

definition date_part :: "string \<Rightarrow> nat \<Rightarrow> int option" where
  "date_part s n = Option.bind (take_number 4 s) (\<lambda>(y, r0). let sep = starts (CHR ''-'') r0; r = (if sep then tl r0 else r0) in
     if starts (CHR ''W'') r then
       Option.bind (take_number 2 (tl r)) (\<lambda>(w, r2).
         if length s - length r2 < n
         then Option.bind (Option.bind (dash sep r2) (take_number 1)) (\<lambda>(d, _). week_day y w d)
         else week_day y w 1)
     else Option.bind (take_number 2 r) (\<lambda>(m, r2).
       Option.bind (Option.bind (dash sep r2) (take_number 2)) (\<lambda>(d, _). calendar_day y m d)))"

text \<open>\<open>HH[:MM[:SS[.ffffff]]]\<close>: the fields, the microseconds, and whether something is left over.\<close>

definition fraction_part :: "int list \<Rightarrow> string \<Rightarrow> (int list \<times> int \<times> bool) option" where
  "fraction_part got s = (let k = min 6 (length s) in
     map_option (\<lambda>(v, r). let rest = dropWhile is_digit r in (got, v * 10 ^ (6 - k), rest \<noteq> [] \<and> hd rest \<noteq> CHR 0x00))
       (take_number k s))"

fun clock_part :: "nat \<Rightarrow> bool \<Rightarrow> string \<Rightarrow> int list \<Rightarrow> (int list \<times> int \<times> bool) option" where
  "clock_part 0 sep s got = fraction_part got s"
| "clock_part (Suc k) sep s got = (case take_number 2 s of
      None \<Rightarrow> None
    | Some (v, r) \<Rightarrow> (let got' = got @ [v]; sep' = (if got = [] then starts (CHR '':'') r else sep) in
        case r of
          [] \<Rightarrow> Some (got', 0, False)
        | [c] \<Rightarrow> Some (got', 0, c \<noteq> CHR 0x00)
        | c # r' \<Rightarrow> if sep' \<and> c = CHR '':'' then clock_part k sep' r' got'
            else if c = CHR ''.'' \<or> c = CHR '','' then fraction_part got' r'
            else if \<not> sep' then clock_part k sep' r got'
            else None))"

definition field :: "int list \<Rightarrow> nat \<Rightarrow> int" where
  "field fs i = (if i < length fs then fs ! i else 0)"

definition clock_us :: "int list \<Rightarrow> int \<Rightarrow> int" where
  "clock_us fs us = ((field fs 0 * 60 + field fs 1) * 60 + field fs 2) * 1000000 + us"

definition zone_start :: "char \<Rightarrow> bool" where
  "zone_start c \<longleftrightarrow> c \<in> set ''+-Z''"

definition zone_part :: "string \<Rightarrow> int option" where
  "zone_part z = (if starts (CHR ''Z'') z then (if starts (CHR 0x00) (tl z) \<or> tl z = [] then Some 0 else None)
     else (case clock_part 3 True (tl z) [] of
         Some (fs, us, False) \<Rightarrow> Some ((if starts (CHR ''-'') z then - 1 else 1) * clock_us fs us)
       | _ \<Rightarrow> None))"

text \<open>The microseconds since midnight and the offset, if any.\<close>

definition time_part :: "string \<Rightarrow> (int \<times> int option) option" where
  "time_part s = (let z = dropWhile (\<lambda>c. \<not> zone_start c) s in
     case clock_part 3 True (takeWhile (\<lambda>c. \<not> zone_start c) s) [] of
       None \<Rightarrow> None
     | Some (fs, us, leftover) \<Rightarrow>
         if field fs 0 \<ge> 24 \<or> field fs 1 \<ge> 60 \<or> field fs 2 \<ge> 60 then None
         else if z = [] then (if leftover then None else Some (clock_us fs us, None))
         else (case zone_part z of
             None \<Rightarrow> None
           | Some off \<Rightarrow> if \<bar>off\<bar> < day_us then Some (clock_us fs us, Some off) else None))"

definition fromisoformat :: "string \<Rightarrow> py_datetime option" where
  "fromisoformat s = (if length s < 7 then None
     else Option.bind (separator_index s) (\<lambda>n. Option.bind (date_part s n) (\<lambda>day.
       if length s \<le> n then Some (Naive (day * day_us))
       else map_option (\<lambda>(us, off). case off of None \<Rightarrow> Naive (day * day_us + us) | Some d \<Rightarrow> Aware (day * day_us + us) d)
         (time_part (drop (n + 1) s)))))"

definition in_calendar :: "int \<Rightarrow> bool" where
  "in_calendar t \<longleftrightarrow> first_day * day_us \<le> t \<and> t < (last_day + 1) * day_us"

section \<open>Lemmas\<close>

lemma day_number_flat:
  "day_number y m d = (let y' = (if m \<le> 2 then y - 1 else y); q = y' div 4 in
     365 * y' + (q - q div 25) + q div 100 + (153 * (if m > 2 then m - 3 else m + 9) + 2) div 5 + d - 719469)"
proof -
  have parts: "z div 400 * 146097 + (z mod 400) * 365 + (z mod 400) div 4 - (z mod 400) div 100 =
      365 * z + (z div 4 - z div 4 div 25) + z div 4 div 100" for z :: int
  proof -
    define e r where "e = z div 400" and "r = z mod 400"
    have z: "z = r + 4 * (100 * e)" by (simp add: e_def r_def)
    have q: "z div 4 = 100 * e + r div 4" unfolding z by simp
    have "0 \<le> r" "r < 400" by (simp_all add: r_def)
    then have "0 \<le> r div 4" "r div 4 < 100" by auto
    then have h: "z div 4 div 100 = e" unfolding q by simp
    have "(100 * e + r div 4) div 25 = (r div 4 + (4 * e) * 25) div 25" by (simp add: algebra_simps)
    also have "\<dots> = 4 * e + r div 4 div 25" by simp
    also have "r div 4 div 25 = r div 100" using zdiv_zmult2_eq[of 25 r 4] by simp
    finally have t: "z div 4 div 25 = 4 * e + r div 100" unfolding q .
    have "z div 400 * 146097 + (z mod 400) * 365 + (z mod 400) div 4 - (z mod 400) div 100 =
        e * 146097 + r * 365 + r div 4 - r div 100" by (simp add: e_def r_def)
    also have "\<dots> = 365 * z + (z div 4 - z div 4 div 25) + z div 4 div 100"
      unfolding h t unfolding q using z by linarith
    finally show ?thesis .
  qed
  define z where "z = (if m \<le> 2 then y - 1 else y)"
  define t where "t = (153 * (if m > 2 then m - 3 else m + 9) + 2) div 5"
  have "day_number y m d = (z div 400 * 146097 + (z mod 400) * 365 + (z mod 400) div 4 - (z mod 400) div 100) + t + d - 719469"
    unfolding day_number_def Let_def z_def[symmetric] t_def[symmetric] by (simp only: algebra_simps)
  then show ?thesis unfolding parts Let_def z_def[symmetric] t_def[symmetric] by (simp only: algebra_simps)
qed

lemma calendar_day_range:
  assumes "calendar_day y m d = Some n"
  shows "first_day \<le> n \<and> n \<le> last_day"
proof -
  define y' where "y' = (if m \<le> 2 then y - 1 else y)"
  define doy where "doy = (153 * (if m > 2 then m - 3 else m + 9) + 2) div 5 + d"
  have r: "1 \<le> y" "y \<le> 9999" "1 \<le> m" "m \<le> 12" "1 \<le> d" "d \<le> days_in_month y m" and n: "n = day_number y m d"
    using assms by (auto simp: calendar_day_def split: if_splits)
  have d31: "d \<le> 31" using r by (auto simp: days_in_month_def split: if_splits)
  have feb: "m = 2 \<longrightarrow> d \<le> 29" using r by (auto simp: days_in_month_def split: if_splits)
  have doy: "1 \<le> doy" "m > 2 \<longrightarrow> doy \<le> 306" "m \<le> 2 \<longrightarrow> 307 \<le> doy \<and> doy \<le> 366"
  proof -
    show "1 \<le> doy" using r by (auto simp: doy_def)
    have "153 * (m - 3) + 2 \<le> 1379" using r by simp
    then have "(153 * (m - 3) + 2) div 5 \<le> 275" using zdiv_mono1[of _ 1379 5] by simp
    moreover have "m = 12 \<or> m \<le> 11" using r by auto
    ultimately show "m > 2 \<longrightarrow> doy \<le> 306" using d31 by (auto simp: doy_def)
    have "m = 1 \<or> m = 2" if "m \<le> 2" using r that by auto
    then show "m \<le> 2 \<longrightarrow> 307 \<le> doy \<and> doy \<le> 366" using r d31 feb by (auto simp: doy_def)
  qed
  have n': "n = 365 * y' + (y' div 4 - y' div 4 div 25) + y' div 4 div 100 + doy - 719469"
    by (simp add: n day_number_flat y'_def doy_def Let_def)
  have y': "0 \<le> y'" "y' \<le> 9999" "m \<le> 2 \<longrightarrow> y' \<le> 9998" "m > 2 \<longrightarrow> 1 \<le> y'" using r by (auto simp: y'_def)
  define q where "q = y' div 4"
  have q: "0 \<le> q" "q \<le> 2499" using y' by (auto simp: q_def)
  have "q = 25 * (q div 25) + q mod 25" "0 \<le> q mod 25" "q mod 25 \<le> 24" "0 \<le> q div 25" "q div 25 \<le> 99" using q by auto
  then have "0 \<le> q - q div 25" "q - q div 25 \<le> 2400" "0 \<le> q div 100" "q div 100 \<le> 24" using q by auto
  then show ?thesis using doy y' n' unfolding q_def[symmetric] first_day_def last_day_def by linarith
qed

lemma week_day_range: "week_day y w d = Some n \<Longrightarrow> first_day \<le> n \<and> n \<le> last_day"
  by (auto simp: week_day_def Let_def split: if_splits)

lemma date_part_range:
  assumes "date_part s n = Some day"
  shows "first_day \<le> day \<and> day \<le> last_day"
proof -
  have "(\<exists>y m d. calendar_day y m d = Some day) \<or> (\<exists>y w d. week_day y w d = Some day)"
    using assms unfolding date_part_def Let_def bind_eq_Some_conv by (auto split: if_splits simp: bind_eq_Some_conv)
  then show ?thesis using calendar_day_range week_day_range by blast
qed

lemma nat_of_digits_less: "list_all is_digit s \<Longrightarrow> nat_of_digits s < 10 ^ length s"
proof (induction s rule: rev_induct)
  case (snoc c s)
  then have "char_code c - 48 < 10" "nat_of_digits s + 1 \<le> 10 ^ length s" by (auto simp: is_digit_def)
  then have "nat_of_digits s * 10 + (char_code c - 48) < 10 ^ length s * 10" by linarith
  then show ?case by (simp add: nat_of_digits_def undigits_snoc)
qed (simp add: nat_of_digits_def undigits_def)

lemma take_number_range: "take_number k s = Some (v, r) \<Longrightarrow> 0 \<le> v \<and> v < 10 ^ k"
  using nat_of_digits_less[of "take k s"]
  by (auto simp: take_number_def min_def split: if_splits)


lemma fraction_part_range:
  assumes "fraction_part got s = Some (fs, us, l)"
  shows "fs = got \<and> 0 \<le> us \<and> us < 1000000"
proof -
  let ?k = "min 6 (length s)"
  obtain v r where v: "take_number ?k s = Some (v, r)" "us = v * 10 ^ (6 - ?k)" "fs = got"
    using assms by (auto simp: fraction_part_def Let_def)
  have "v * 10 ^ (6 - ?k) < 10 ^ ?k * 10 ^ (6 - ?k)" using take_number_range[OF v(1)] by simp
  also have "\<dots> = (10 ^ 6 :: int)" by (simp flip: power_add)
  finally show ?thesis using v take_number_range[OF v(1)] by simp
qed

lemma clock_part_range:
  "\<lbrakk>clock_part k sep s got = Some (fs, us, l); \<forall>x \<in> set got. 0 \<le> x\<rbrakk> \<Longrightarrow> (\<forall>x \<in> set fs. 0 \<le> x) \<and> 0 \<le> us \<and> us < 1000000"
proof (induction k sep s got rule: clock_part.induct)
  case (1 sep s got)
  then show ?case using fraction_part_range by fastforce
next
  case (2 k sep s got)
  obtain v r where v: "take_number 2 s = Some (v, r)" using "2.prems" by (auto split: option.splits)
  have nn: "\<forall>x \<in> set (got @ [v]). 0 \<le> x" using "2.prems" take_number_range[OF v] by auto
  show ?case
    using "2.prems" "2.IH"[OF v refl refl refl] nn v
    by (auto simp: Let_def dest!: fraction_part_range split: list.splits if_splits)
qed

lemma clock_us_range:
  assumes "clock_part k sep s [] = Some (fs, us, l)" "field fs 0 < 24" "field fs 1 < 60" "field fs 2 < 60"
  shows "0 \<le> clock_us fs us \<and> clock_us fs us < day_us"
proof -
  have "0 \<le> field fs i" for i using clock_part_range[OF assms(1)] by (auto simp: field_def)
  then show ?thesis using clock_part_range[OF assms(1)] assms(2-4) by (simp add: clock_us_def day_us_def)
qed

lemma time_part_range: "time_part s = Some (us, z) \<Longrightarrow> 0 \<le> us \<and> us < day_us"
  using clock_us_range by (fastforce simp: time_part_def Let_def split: option.splits prod.splits if_splits)

text \<open>A text read gives a time of day within the calendar.\<close>

lemma fromisoformat_range:
  "fromisoformat s = Some dt \<Longrightarrow> in_calendar (case dt of Naive t \<Rightarrow> t | Aware t _ \<Rightarrow> t)"
proof -
  assume "fromisoformat s = Some dt"
  then obtain n day where d: "date_part s n = Some day"
    and dt: "(case dt of Naive t \<Rightarrow> t | Aware t _ \<Rightarrow> t) = day * day_us \<or>
      (\<exists>us z. time_part (drop (n + 1) s) = Some (us, z) \<and> (case dt of Naive t \<Rightarrow> t | Aware t _ \<Rightarrow> t) = day * day_us + us)"
    by (auto simp: fromisoformat_def bind_eq_Some_conv split: if_splits option.splits)
  then obtain us where "(case dt of Naive t \<Rightarrow> t | Aware t _ \<Rightarrow> t) = day * day_us + us" "0 \<le> us" "us < day_us"
    using time_part_range by (auto simp: day_us_def)
  then show ?thesis using date_part_range[OF d] by (simp add: in_calendar_def day_us_def)
qed

end
