(* ===== verification/Config.thy ===== *)
theory Config
  imports Url Errors QueueLocks
begin

text \<open>
  The configuration boundary (\<open>src/app/core/config.py\<close>), the database URL rules
  (\<open>src/app/db/urls.py\<close>) and the early limit on upload bodies
  (\<open>src/app/core/body_limit.py\<close>). \<open>Settings\<close> after the environment was parsed into typed
  values is a record; \<open>validate_settings\<close> is the pydantic validation of it. SQLAlchemy's
  \<open>make_url\<close> is a parameter. Optional text that a validator turns into nothing is
  \<open>None\<close> of the result type.
\<close>

section \<open>Parts of a network location\<close>

definition user_info :: "string \<Rightarrow> string option" where
  "user_info netloc = (if CHR ''@'' \<in> set netloc
     then Some (take (length netloc - length (after_last (CHR ''@'') netloc) - 1) netloc) else None)"

definition url_username :: "string \<Rightarrow> string option" where
  "url_username netloc = map_option (before_char (CHR '':'')) (user_info netloc)"

definition url_password :: "string \<Rightarrow> string option" where
  "url_password netloc = (case user_info netloc of None \<Rightarrow> None
     | Some u \<Rightarrow> if CHR '':'' \<in> set u then Some (after_char (CHR '':'') u) else None)"

definition host_port :: "string \<Rightarrow> string \<times> string" where
  "host_port netloc = (let h = after_last (CHR ''@'') netloc in
     if CHR ''['' \<in> set h then
       (let b = after_char (CHR ''['') h in (before_char (CHR '']'') b, after_char (CHR '':'') (after_char (CHR '']'') b)))
     else (before_char (CHR '':'') h, after_char (CHR '':'') h))"

definition url_hostname :: "string \<Rightarrow> string option" where
  "url_hostname netloc = (let h = fst (host_port netloc) in
     if h = [] then None
     else Some (lower (before_char (CHR ''%'') h) @ dropWhile (\<lambda>c. c \<noteq> CHR ''%'') h))"

text \<open>\<open>parsed.port\<close> raises or not.\<close>

definition port_ok :: "string \<Rightarrow> bool" where
  "port_ok netloc = (let p = snd (host_port netloc) in
     p = [] \<or> (list_all is_digit p \<and> nat_of_digits p \<le> 65535))"

definition has_fragment :: "string \<Rightarrow> bool" where
  "has_fragment url = (let u = snd (split_netloc (snd (split_scheme (filter (\<lambda>c. \<not> unsafe_byte c) (dropWhile c0_or_space url)))))
     in after_char (CHR ''#'') u \<noteq> [])"

definition truthy_text :: "string option \<Rightarrow> bool" where
  "truthy_text v \<longleftrightarrow> (case v of None \<Rightarrow> False | Some s \<Rightarrow> s \<noteq> [])"

section \<open>Field validators\<close>

definition is_origin :: "string list \<Rightarrow> string \<Rightarrow> bool" where
  "is_origin schemes v = (case urlsplit v of
      None \<Rightarrow> False
    | Some p \<Rightarrow> u_scheme p \<in> set schemes \<and> u_netloc p \<noteq> [] \<and> u_path p = [] \<and> u_query p = [] \<and> \<not> has_fragment v \<and>
        \<not> truthy_text (url_username (u_netloc p)) \<and> \<not> truthy_text (url_password (u_netloc p)) \<and> port_ok (u_netloc p))"

definition validate_supabase_url :: "string option \<Rightarrow> string option option" where
  "validate_supabase_url v = (case v of
      None \<Rightarrow> Some None
    | Some u \<Rightarrow> let n = rstrip_slash u in if is_origin [''https''] n then Some (Some n) else None)"

definition normalize_secret :: "string option \<Rightarrow> string option option" where
  "normalize_secret v = (case v of
      None \<Rightarrow> Some None
    | Some s \<Rightarrow> if s = [] then Some None else if strip s = [] then None else Some (Some s))"

definition validate_redis_url :: "string option \<Rightarrow> string option option" where
  "validate_redis_url v = (case v of
      None \<Rightarrow> Some None
    | Some raw \<Rightarrow>
        if raw = [] then Some None
        else (case urlsplit raw of
            None \<Rightarrow> None
          | Some p \<Rightarrow>
              if u_scheme p \<notin> {''redis'', ''rediss''} \<or> \<not> truthy_text (url_hostname (u_netloc p)) \<or> has_fragment raw \<or>
                 \<not> port_ok (u_netloc p) then None else Some (Some raw)))"

definition validate_proxy_url :: "string option \<Rightarrow> string option option" where
  "validate_proxy_url v = (case v of
      None \<Rightarrow> Some None
    | Some raw \<Rightarrow>
        if raw = [] then Some None
        else (case urlsplit raw of
            None \<Rightarrow> None
          | Some p \<Rightarrow>
              if u_scheme p \<notin> {''http'', ''https'', ''socks5'', ''socks5h''} \<or> \<not> truthy_text (url_hostname (u_netloc p))
              then None else Some (Some raw)))"

definition validate_api_prefix :: "string \<Rightarrow> bool" where
  "validate_api_prefix v \<longleftrightarrow> prefix ''/'' v \<and> \<not> suffix ''/'' v"

definition deliberate_list :: "string list \<Rightarrow> bool" where
  "deliberate_list vs \<longleftrightarrow> vs \<noteq> [] \<and> list_all (\<lambda>v. strip v \<noteq> []) vs \<and> list_all (\<lambda>v. CHR ''*'' \<notin> set v) vs"

definition validate_origins :: "string list \<Rightarrow> bool" where
  "validate_origins vs \<longleftrightarrow> list_all (is_origin [''http'', ''https'']) vs"

text \<open>Configured networks keep an IPv4-mapped prefix as it is: \<open>ip_network\<close>, not \<open>normalize_network\<close>.\<close>

definition configured_networks :: "string list \<Rightarrow> network list option" where
  "configured_networks vs = those (map ip_network vs)"

section \<open>Database URLs\<close>

record sa_url =
  sa_driver :: string
  sa_host :: "string option"
  sa_username :: "string option"
  sa_database :: "string option"
  sa_has_query :: bool
  sa_port :: "int option"

definition parse_database_url :: "(string \<Rightarrow> sa_url option) \<Rightarrow> string \<Rightarrow> sa_url option" where
  "parse_database_url make_url v = (case make_url v of
      None \<Rightarrow> None
    | Some u \<Rightarrow>
        if sa_driver u \<notin> {''postgres'', ''postgresql'', ''postgresql+asyncpg''} \<or> \<not> truthy_text (sa_host u) \<or>
           \<not> truthy_text (sa_username u) \<or> \<not> truthy_text (sa_database u) \<or> sa_has_query u \<or> CHR ''#'' \<in> set v \<or>
           list_ex is_space v \<or> (case sa_port u of None \<Rightarrow> False | Some p \<Rightarrow> \<not> (1 \<le> p \<and> p \<le> 65535))
        then None
        else if sa_port u = Some 6543 \<and> (case sa_host u of None \<Rightarrow> False
               | Some h \<Rightarrow> suffix ''.supabase.co'' h \<or> suffix ''.supabase.com'' h)
        then None
        else Some (u\<lparr>sa_driver := ''postgresql+asyncpg''\<rparr>))"

section \<open>Settings\<close>

datatype environment = Local | Test | Staging | Production

datatype ssl_mode = SslDisable | VerifyFull

record settings =
  se_environment :: environment
  se_api_prefix :: string
  se_allowed_hosts :: "string list"
  se_cors_origins :: "string list"
  se_trusted_proxies :: "string list"
  se_allowlist_enabled :: bool
  se_allowlist_fail_closed :: bool
  se_bypass :: "string list"
  se_rate_fail_closed :: bool
  se_database_url :: "string option"
  se_migration_url :: "string option"
  se_ssl_mode :: ssl_mode
  se_supabase_url :: "string option"
  se_supabase_secret :: "string option"
  se_redis_url :: "string option"
  se_proxy_url :: "string option"
  se_lock_ttl :: int
  se_task_timeout :: int
  se_bucket :: string
  se_namespace :: string
  se_texts :: "(string, string) dict"
  se_numbers :: "(string, rat) dict"

text \<open>The bounds declared on the numeric fields: name, smallest, largest.\<close>

definition numeric_bounds :: "(string \<times> rat \<times> rat) list" where
  "numeric_bounds = [
     (''resume_max_size_bytes'', 1024, 26214400), (''resume_max_pages'', 1, 100),
     (''resume_max_extracted_characters'', 1000, 1000000), (''resume_max_concurrent_parses'', 1, 16),
     (''rate_limit_window_seconds'', 1, 3600), (''rate_limit_auth_requests'', 1, 10000),
     (''rate_limit_admin_security_requests'', 1, 10000), (''rate_limit_resume_write_requests'', 1, 10000),
     (''rate_limit_max_keys'', 100, 1000000), (''database_pool_size'', 1, 50), (''database_max_overflow'', 0, 50),
     (''dice_collection_interval_minutes'', 1, 1440), (''linkedin_collection_interval_minutes'', 1, 1440),
     (''glassdoor_collection_interval_minutes'', 1, 1440), (''hiringcafe_collection_interval_minutes'', 1, 1440),
     (''glassdoor_collection_batch_size'', 1, 50), (''job_collection_max_jobs_per_target'', 1, 1000),
     (''job_collection_max_tries'', 1, 10), (''job_stale_after_hours'', 1, 720), (''job_stale_safety_hours'', 1, 168),
     (''search_candidate_limit'', 100, 10000), (''search_default_page_size'', 1, 100), (''search_max_page_size'', 1, 500)]"

text \<open>Timeouts are positive and at most the bound.\<close>

definition positive_bounds :: "(string \<times> rat) list" where
  "positive_bounds = [(''resume_parse_timeout_seconds'', 60), (''database_pool_timeout_seconds'', 60),
     (''database_connect_timeout_seconds'', 60), (''database_statement_timeout_seconds'', 300),
     (''redis_connect_timeout_seconds'', 30)]"

text \<open>Names with their greatest length; none may be empty.\<close>

definition text_bounds :: "(string \<times> nat) list" where
  "text_bounds = [(''resume_parser_version'', 64), (''job_collection_queue_name'', 100), (''job_search_queue_name'', 100)]"

definition texts_ok :: "settings \<Rightarrow> bool" where
  "texts_ok s \<longleftrightarrow> list_all (\<lambda>(k, b). case dget (se_texts s) k of None \<Rightarrow> False | Some v \<Rightarrow> v \<noteq> [] \<and> length v \<le> b) text_bounds"

definition number_of :: "settings \<Rightarrow> string \<Rightarrow> rat option" where
  "number_of s k = dget (se_numbers s) k"

definition numbers_ok :: "settings \<Rightarrow> bool" where
  "numbers_ok s \<longleftrightarrow>
     list_all (\<lambda>(k, a, b). case number_of s k of None \<Rightarrow> False | Some x \<Rightarrow> a \<le> x \<and> x \<le> b) numeric_bounds \<and>
     list_all (\<lambda>(k, b). case number_of s k of None \<Rightarrow> False | Some x \<Rightarrow> 0 < x \<and> x \<le> b) positive_bounds \<and>
     60 \<le> se_lock_ttl s \<and> se_lock_ttl s \<le> 7200 \<and> 30 \<le> se_task_timeout s \<and> se_task_timeout s \<le> 3600"

definition bucket_char :: "char \<Rightarrow> bool" where
  "bucket_char c \<longleftrightarrow> is_digit c \<or> is_lower c \<or> c = CHR ''_'' \<or> c = CHR ''-''"

definition bucket_ok :: "string \<Rightarrow> bool" where
  "bucket_ok s \<longleftrightarrow> s \<noteq> [] \<and> length s \<le> 63 \<and> list_all bucket_char s \<and>
     hd s \<notin> set ''_-'' \<and> last s \<notin> set ''_-''"

definition namespace_ok :: "string \<Rightarrow> bool" where
  "namespace_ok s \<longleftrightarrow> s \<noteq> [] \<and> length s \<le> 100 \<and> list_all (\<lambda>c. is_alnum c \<or> c \<in> set '':_-'') s"

definition loopback_hosts :: "string list" where
  "loopback_hosts = [''localhost'', ''127.0.0.1'', ''::1'']"

definition database_tls_ok :: "(string \<Rightarrow> sa_url option) \<Rightarrow> settings \<Rightarrow> bool" where
  "database_tls_ok make_url s \<longleftrightarrow>
     (se_ssl_mode s = SslDisable \<longrightarrow>
        se_environment s \<in> {Local, Test} \<and>
        list_all (\<lambda>v. case v of None \<Rightarrow> True
          | Some url \<Rightarrow> (case parse_database_url make_url url of None \<Rightarrow> False
              | Some u \<Rightarrow> (case sa_host u of None \<Rightarrow> False | Some h \<Rightarrow> h \<in> set loopback_hosts)))
          [se_database_url s, se_migration_url s])"

definition is_deployed :: "environment \<Rightarrow> bool" where
  "is_deployed e \<longleftrightarrow> e = Staging \<or> e = Production"

definition deployment_ok :: "settings \<Rightarrow> bool" where
  "deployment_ok s \<longleftrightarrow> se_task_timeout s < se_lock_ttl s \<and>
     (is_deployed (se_environment s) \<longrightarrow>
        se_database_url s \<noteq> None \<and> se_supabase_url s \<noteq> None \<and> se_supabase_secret s \<noteq> None \<and>
        se_allowlist_fail_closed s \<and> se_rate_fail_closed s \<and>
        se_allowed_hosts s \<noteq> [''localhost'', ''127.0.0.1''] \<and>
        se_cors_origins s \<noteq> [''http://localhost:3000''])"

text \<open>The checks that do not look at the normalised fields.\<close>

definition static_ok :: "(string \<Rightarrow> sa_url option) \<Rightarrow> settings \<Rightarrow> bool" where
  "static_ok make_url s \<longleftrightarrow> numbers_ok s \<and> texts_ok s \<and> bucket_ok (se_bucket s) \<and> namespace_ok (se_namespace s) \<and>
     configured_networks (se_trusted_proxies s) \<noteq> None \<and> configured_networks (se_bypass s) \<noteq> None \<and>
     list_all (\<lambda>v. case v of None \<Rightarrow> True | Some u \<Rightarrow> parse_database_url make_url u \<noteq> None)
       [se_database_url s, se_migration_url s] \<and>
     validate_api_prefix (se_api_prefix s) \<and> deliberate_list (se_allowed_hosts s) \<and>
     deliberate_list (se_cors_origins s) \<and> validate_origins (se_cors_origins s)"

text \<open>All validators: the settings with the normalised fields, or \<open>None\<close> for a \<open>ValidationError\<close>.\<close>

definition validate_settings :: "(string \<Rightarrow> sa_url option) \<Rightarrow> settings \<Rightarrow> settings option" where
  "validate_settings make_url s =
     (case (validate_supabase_url (se_supabase_url s), normalize_secret (se_supabase_secret s),
            validate_redis_url (se_redis_url s), validate_proxy_url (se_proxy_url s)) of
        (Some supabase, Some secret, Some redis, Some proxy) \<Rightarrow>
          let s' = s\<lparr>se_supabase_url := supabase, se_supabase_secret := secret, se_redis_url := redis, se_proxy_url := proxy\<rparr> in
          if static_ok make_url s' \<and>
             database_tls_ok make_url s' \<and> deployment_ok s'
          then Some s' else None
      | _ \<Rightarrow> None)"

section \<open>Upload bodies\<close>

definition multipart_overhead :: nat where "multipart_overhead = 64 * 1024"

definition body_limited :: "string \<Rightarrow> string \<Rightarrow> string \<Rightarrow> bool" where
  "body_limited api_prefix meth path \<longleftrightarrow> meth = ''POST'' \<and>
     (path = api_prefix @ ''/resumes'' \<or>
      (prefix (api_prefix @ ''/resumes/'') path \<and> suffix ''/replace'' path))"

datatype asgi_message = RequestBody string | OtherMessage

definition body_too_large :: app_error where
  "body_too_large = app_error_of ''RESUME_FILE_TOO_LARGE'' ''The uploaded resume exceeds the allowed size.'' 413"

text \<open>What the application is given of the message stream, and whether the limit was passed.\<close>

fun limited_receive :: "nat \<Rightarrow> nat \<Rightarrow> asgi_message list \<Rightarrow> asgi_message list \<times> bool" where
  "limited_receive maximum received [] = ([], False)"
| "limited_receive maximum received (OtherMessage # ms) =
     (case limited_receive maximum received ms of (out, over) \<Rightarrow> (OtherMessage # out, over))"
| "limited_receive maximum received (RequestBody b # ms) =
     (if received + length b > maximum then ([], True)
      else case limited_receive maximum (received + length b) ms of (out, over) \<Rightarrow> (RequestBody b # out, over))"

text \<open>\<open>int(header)\<close>: spaces around, a sign and single underscores between digits are accepted,
  more than 4300 digits are not.\<close>

fun dec_digits :: "bool \<Rightarrow> string \<Rightarrow> string option" where
  "dec_digits after_digit [] = (if after_digit then Some [] else None)"
| "dec_digits after_digit (c # s) =
     (if c = CHR ''_'' then (if after_digit then dec_digits False s else None)
      else if is_digit c then map_option ((#) c) (dec_digits True s) else None)"

definition parse_length :: "string \<Rightarrow> int option" where
  "parse_length s = (let t = strip s; neg = (t \<noteq> [] \<and> hd t = CHR ''-'');
       body = (if t \<noteq> [] \<and> (hd t = CHR ''-'' \<or> hd t = CHR ''+'') then tl t else t) in
     (case dec_digits False body of
        None \<Rightarrow> None
      | Some ds \<Rightarrow> if length ds > 4300 then None
          else Some (if neg then - int (nat_of_digits ds) else int (nat_of_digits ds))))"

datatype body_outcome = BodyRejected | BodyPassed "asgi_message list" bool

text \<open>
  The middleware on a request: \<open>reads n\<close> says how many messages the application asks for
  before it answers; it is stopped with 413 as soon as the limit is passed.
\<close>

definition limit_body ::
  "string \<Rightarrow> nat \<Rightarrow> string \<Rightarrow> string \<Rightarrow> string option \<Rightarrow> nat \<Rightarrow> asgi_message list \<Rightarrow> body_outcome" where
  "limit_body api_prefix max_size meth path content_length reads messages =
     (if \<not> body_limited api_prefix meth path then BodyPassed (take reads messages) False
      else
        let maximum = max_size + multipart_overhead;
            declared = (case content_length of None \<Rightarrow> None | Some h \<Rightarrow> parse_length h)
        in if (case declared of None \<Rightarrow> False | Some n \<Rightarrow> n > int maximum) then BodyRejected
           else (case limited_receive maximum 0 (take reads messages) of (out, over) \<Rightarrow> BodyPassed out over))"

section \<open>Lemmas\<close>

definition body_bytes :: "asgi_message list \<Rightarrow> nat" where
  "body_bytes ms = sum_list (map (\<lambda>m. case m of RequestBody b \<Rightarrow> length b | OtherMessage \<Rightarrow> 0) ms)"

lemma limited_receive_bound:
  "limited_receive maximum received ms = (out, over) \<Longrightarrow> received \<le> maximum \<Longrightarrow>
   received + body_bytes out \<le> maximum \<and> prefix out ms \<and> (over \<longleftrightarrow> received + body_bytes ms > maximum) \<and> (\<not> over \<longrightarrow> out = ms)"
proof (induction maximum received ms arbitrary: out over rule: limited_receive.induct)
  case (2 maximum received ms)
  then show ?case by (auto simp: body_bytes_def split: prod.splits)
next
  case (3 maximum received b ms)
  show ?case
  proof (cases "received + length b > maximum")
    case True
    then show ?thesis using 3 by (auto simp: body_bytes_def)
  next
    case False
    then show ?thesis using 3 by (auto simp: body_bytes_def split: prod.splits)
  qed
qed (simp add: body_bytes_def)

lemma rstrip_slash_idem [simp]: "rstrip_slash (rstrip_slash s) = rstrip_slash s"
  by (simp add: rstrip_slash_def dropWhile_idem)

lemma database_url_accepted:
  "parse_database_url make_url url = Some u \<Longrightarrow> sa_driver u = ''postgresql+asyncpg'' \<and> \<not> sa_has_query u"
  by (auto simp: parse_database_url_def split: option.splits if_splits)

lemma supabase_idem: "validate_supabase_url v = Some w \<Longrightarrow> validate_supabase_url w = Some w"
  by (auto simp: validate_supabase_url_def Let_def split: option.splits if_splits)

lemma secret_idem: "normalize_secret v = Some w \<Longrightarrow> normalize_secret w = Some w"
  by (auto simp: normalize_secret_def split: option.splits if_splits)

lemma redis_url_idem: "validate_redis_url v = Some w \<Longrightarrow> validate_redis_url w = Some w"
  by (auto simp: validate_redis_url_def split: option.splits if_splits)

lemma proxy_idem: "validate_proxy_url v = Some w \<Longrightarrow> validate_proxy_url w = Some w"
  by (auto simp: validate_proxy_url_def split: option.splits if_splits)

lemma static_ok_update [simp]:
  "static_ok m (s\<lparr>se_supabase_url := a, se_supabase_secret := b, se_redis_url := c, se_proxy_url := d\<rparr>) = static_ok m s"
  by (simp add: static_ok_def numbers_ok_def texts_ok_def number_of_def)

lemma validated_cases:
  assumes "validate_settings make_url s = Some s'"
  obtains a b c d where "validate_supabase_url (se_supabase_url s) = Some a" "normalize_secret (se_supabase_secret s) = Some b"
    "validate_redis_url (se_redis_url s) = Some c" "validate_proxy_url (se_proxy_url s) = Some d"
    "s' = s\<lparr>se_supabase_url := a, se_supabase_secret := b, se_redis_url := c, se_proxy_url := d\<rparr>"
    "static_ok make_url s'" "database_tls_ok make_url s'" "deployment_ok s'"
  using assms by (auto simp: validate_settings_def Let_def simp del: static_ok_update split: option.splits if_splits)

text \<open>
  A configured IPv4-mapped network never contains a client address: the resolver collapses
  mapped addresses to IPv4, the configured network stays IPv6.
\<close>

lemma mapped_bypass_never_matches:
  assumes "ip_network v = Some (Net6 w z p)" "96 \<le> p" "p \<le> 128" "ipv4_mapped w \<noteq> None" "normalize_ip s = Some a"
  shows "\<not> in_network a (Net6 w z p)"
proof
  assume m: "in_network a (Net6 w z p)"
  then obtain x y where a: "a = V6 x y" "x AND netmask p = w" by (cases a) auto
  obtain b where "w = map_ipv4 b" using assms(4) ipv4_mapped_iff by auto
  then obtain c where "x = map_ipv4 c" using netmask_hi_zero_iff[OF assms(2,3)] a(2) by blast
  then show False using normalize_ip_canonical[of s x y] assms(5) a(1) by simp
qed

section \<open>Properties\<close>

definition settings_locks :: "settings \<Rightarrow> lock_settings" where
  "settings_locks s = \<lparr>ls_ttl_seconds = se_lock_ttl s, ls_namespace = se_namespace s\<rparr>"

lemma validated_idempotent:
  assumes "validate_settings make_url s = Some s'"
  shows "validate_settings make_url s' = Some s'"
  using assms
proof (rule validated_cases, goal_cases)
  case (1 a b c d)
  then show ?case
    using supabase_idem[OF 1(1)] secret_idem[OF 1(2)] redis_url_idem[OF 1(3)] proxy_idem[OF 1(4)]
    by (simp add: validate_settings_def Let_def)
qed

text \<open>C23: settings that pass validation are fixed by it, keep a collection lease longer than
  the task that holds it may run, and turn TLS off only for loopback databases of local and
  test environments; in staging and production they have a database reached with verified
  TLS, a Supabase https origin and secret, both security controls failing closed, and a
  deliberate list of hosts without wildcards. So while a collection task may still run, no
  other worker gets its lease.\<close>

theorem deployed_settings_hardened:
  assumes "validate_settings make_url s = Some s'"
  shows "validate_settings make_url s' = Some s' \<and>
    (se_ssl_mode s' = SslDisable \<longrightarrow> \<not> is_deployed (se_environment s') \<and>
      (\<forall>url. se_database_url s' = Some url \<longrightarrow> (\<exists>u h. parse_database_url make_url url = Some u \<and> sa_host u = Some h \<and> h \<in> set loopback_hosts))) \<and>
    (is_deployed (se_environment s') \<longrightarrow>
      se_ssl_mode s' = VerifyFull \<and> se_allowlist_fail_closed s' \<and> se_rate_fail_closed s' \<and>
      (\<exists>url u. se_database_url s' = Some url \<and> parse_database_url make_url url = Some u \<and>
        sa_driver u = ''postgresql+asyncpg'' \<and> \<not> sa_has_query u) \<and>
      (\<exists>org. se_supabase_url s' = Some org \<and> is_origin [''https''] org) \<and>
      (\<exists>k. se_supabase_secret s' = Some k \<and> strip k \<noteq> []) \<and>
      (\<forall>h \<in> set (se_allowed_hosts s'). strip h \<noteq> [] \<and> CHR ''*'' \<notin> set h)) \<and>
    (fst (redis_acquire (settings_locks s') r k t a) \<and> b \<le> a + se_task_timeout s' * 1000 \<and>
      sorted (map lease_time (AcquireOp k t a # mid @ [AcquireOp k t' b])) \<and> (\<forall>p \<in> set mid. \<forall>u. p \<noteq> ReleaseOp k t u) \<longrightarrow>
      \<not> fst (redis_acquire (settings_locks s')
        (snd (lease_run (redis_acquire (settings_locks s')) (redis_release (settings_locks s'))
          (snd (redis_acquire (settings_locks s') r k t a)) mid)) k t' b))"
  using assms
proof (rule validated_cases, goal_cases)
  case (1 x y z w)
  have tls: "se_ssl_mode s' = SslDisable \<Longrightarrow> \<not> is_deployed (se_environment s')"
    using 1(7) by (auto simp: database_tls_ok_def is_deployed_def)
  have loop: "se_ssl_mode s' = SslDisable \<Longrightarrow> se_database_url s' = Some url \<Longrightarrow>
      \<exists>u h. parse_database_url make_url url = Some u \<and> sa_host u = Some h \<and> h \<in> set loopback_hosts" for url
    using 1(7) by (auto simp: database_tls_ok_def split: option.splits)
  have lease: "fst (redis_acquire (settings_locks s') r k t a) \<Longrightarrow> b \<le> a + se_task_timeout s' * 1000 \<Longrightarrow>
      sorted (map lease_time (AcquireOp k t a # mid @ [AcquireOp k t' b])) \<Longrightarrow> \<forall>p \<in> set mid. \<forall>u. p \<noteq> ReleaseOp k t u \<Longrightarrow>
      \<not> fst (redis_acquire (settings_locks s')
        (snd (lease_run (redis_acquire (settings_locks s')) (redis_release (settings_locks s'))
          (snd (redis_acquire (settings_locks s') r k t a)) mid)) k t' b)"
    using 1(8) by (intro redis_lease.exclusion) (auto simp: settings_locks_def deployment_ok_def)
  have database: "is_deployed (se_environment s') \<Longrightarrow> \<exists>url u. se_database_url s' = Some url \<and>
      parse_database_url make_url url = Some u \<and> sa_driver u = ''postgresql+asyncpg'' \<and> \<not> sa_has_query u"
    using 1(6,8) database_url_accepted by (fastforce simp: static_ok_def deployment_ok_def)
  have supabase: "is_deployed (se_environment s') \<Longrightarrow> \<exists>org. se_supabase_url s' = Some org \<and> is_origin [''https''] org"
    using 1(1,5,8) by (auto simp: deployment_ok_def validate_supabase_url_def Let_def split: option.splits if_splits)
  have secret: "is_deployed (se_environment s') \<Longrightarrow> \<exists>k. se_supabase_secret s' = Some k \<and> strip k \<noteq> []"
    using 1(2,5,8) by (auto simp: deployment_ok_def normalize_secret_def split: option.splits if_splits)
  have hosts: "\<forall>h \<in> set (se_allowed_hosts s'). strip h \<noteq> [] \<and> CHR ''*'' \<notin> set h"
    using 1(6) by (auto simp: static_ok_def deliberate_list_def list_all_iff)
  have closed: "is_deployed (se_environment s') \<Longrightarrow> se_allowlist_fail_closed s' \<and> se_rate_fail_closed s'"
    using 1(8) by (simp add: deployment_ok_def)
  have mode: "is_deployed (se_environment s') \<Longrightarrow> se_ssl_mode s' = VerifyFull"
    using tls by (cases "se_ssl_mode s'") auto
  show ?case
    using validated_idempotent[OF assms] tls loop mode closed database supabase secret hosts lease by blast
qed

definition sample_url :: "string \<Rightarrow> sa_url option" where
  "sample_url v = (if v = ''postgresql://app:pw@db.example.com/jobs''
     then Some \<lparr>sa_driver = ''postgresql'', sa_host = Some ''db.example.com'', sa_username = Some ''app'',
       sa_database = Some ''jobs'', sa_has_query = False, sa_port = None\<rparr> else None)"

definition sample_settings :: settings where
  "sample_settings = \<lparr>se_environment = Production, se_api_prefix = ''/api/v1'', se_allowed_hosts = [''api.example.com''],
     se_cors_origins = [''https://example.com''], se_trusted_proxies = [''10.0.0.0/8''], se_allowlist_enabled = True,
     se_allowlist_fail_closed = True, se_bypass = [], se_rate_fail_closed = True,
     se_database_url = Some ''postgresql://app:pw@db.example.com/jobs'', se_migration_url = None, se_ssl_mode = VerifyFull,
     se_supabase_url = Some ''https://p.supabase.co/'', se_supabase_secret = Some ''key'',
     se_redis_url = Some ''redis://cache:6379/0'', se_proxy_url = Some [], se_lock_ttl = 900, se_task_timeout = 600,
     se_bucket = ''resumes'', se_namespace = ''hireandtech'',
     se_texts = [(''resume_parser_version'', ''deterministic-v1''), (''job_collection_queue_name'', ''hireandtech:jobs''),
       (''job_search_queue_name'', ''hireandtech:search'')],
     se_numbers = map (\<lambda>(k, a, b). (k, a)) numeric_bounds @ positive_bounds\<rparr>"

lemma sample_settings_valid:
  "validate_settings sample_url sample_settings = Some (sample_settings
     \<lparr>se_supabase_url := Some ''https://p.supabase.co'', se_proxy_url := None\<rparr>)"
  by code_simp

theorem deployed_settings_hardened_witness:
  "\<exists>s'. validate_settings sample_url sample_settings = Some s' \<and> is_deployed (se_environment s') \<and>
     se_ssl_mode s' = VerifyFull \<and> se_rate_fail_closed s' \<and> se_allowlist_fail_closed s'"
  using deployed_settings_hardened[OF sample_settings_valid] sample_settings_valid
  by (simp add: sample_settings_def is_deployed_def)

text \<open>An upload or replacement never hands its handler more body bytes than the largest
  resume and the form around it take, whatever length the client declared and however the
  body is split: the handler gets the messages it asks for unchanged while they fit, and a
  request that sends more is answered 413. A request is refused without reading it only when
  its declared length is too large, and requests of other routes are not touched.\<close>

theorem upload_body_bounded:
  "case limit_body api_prefix max_size meth path len reads ms of
     BodyRejected \<Rightarrow> body_limited api_prefix meth path \<and>
       (\<exists>h n. len = Some h \<and> parse_length h = Some n \<and> n > int (max_size + multipart_overhead))
   | BodyPassed given over \<Rightarrow>
       (if body_limited api_prefix meth path then
          prefix given (take reads ms) \<and> body_bytes given \<le> max_size + multipart_overhead \<and>
          over = (body_bytes (take reads ms) > max_size + multipart_overhead) \<and> (over \<or> given = take reads ms)
        else \<not> over \<and> given = take reads ms)"
proof (cases "body_limited api_prefix meth path")
  case True
  obtain out over where r: "limited_receive (max_size + multipart_overhead) 0 (take reads ms) = (out, over)"
    by (cases "limited_receive (max_size + multipart_overhead) 0 (take reads ms)")
  show ?thesis using True r limited_receive_bound[OF r]
    by (auto simp: limit_body_def Let_def split: option.splits)
qed (simp add: limit_body_def)

end
