(* ===== verification/Dice.thy ===== *)
theory Dice
  imports Adapters UrlJoin PyDate Config
begin

text \<open>
  The Dice adapter (\<open>src/app/jobs/sources/dice/collector.py\<close>): its requests, the four ways a
  search page is read, the conversion of a JSON mapping into a listing, and the two stages. An
  exception a listing raises ends the run, as nothing in the adapter catches it. A structured
  salary of NaN or Infinity is treated as absent; everything else follows the code.
\<close>

section \<open>Requests\<close>

definition dice_search_url :: string where "dice_search_url = ''https://www.dice.com/jobs''"
definition dice_detail_url :: string where "dice_detail_url = ''https://www.dice.com/job-detail''"

definition dice_retry_after :: "string option \<Rightarrow> int" where
  "dice_retry_after h = (case h of None \<Rightarrow> 60 | Some v \<Rightarrow> if v = [] then 60 else (case parse_length v of None \<Rightarrow> 60 | Some n \<Rightarrow> n))"

definition dice_status :: "(int \<Rightarrow> bool) \<Rightarrow> http_reply \<Rightarrow> page_error option" where
  "dice_status accepts r = (let s = hr_status r in
     if s = 429 then Some (Collect (TemporaryError (dice_retry_after (hr_retry_after r))))
     else if s = 403 then Some (Collect (TemporaryError 300))
     else if transient_status s then Some (Collect (TemporaryError default_retry))
     else if accepts s then None else Some (HttpStatus s))"

definition dice_search_request :: "target \<Rightarrow> nat \<Rightarrow> string" where
  "dice_search_request t page = dice_search_url @ ''?'' @ urlencode
     ([(''q'', tg_query t), (''page'', nat_str page), (''pageSize'', ''20''), (''filters.postedDate'', ''SEVEN'')] @
      (case tg_location t of
         None \<Rightarrow> []
       | Some l \<Rightarrow> if l = [] then [] else if lower l \<noteq> ''remote'' then [(''location'', l)]
           else [(''filters.workplaceTypes'', ''Remote'')]))"

definition dice_detail_request :: "string \<Rightarrow> string" where
  "dice_detail_request i = dice_detail_url @ ''/'' @ i"

section \<open>Patterns\<close>

definition job_id_char :: "char \<Rightarrow> bool" where
  "job_id_char c \<longleftrightarrow> is_alnum c \<or> c = CHR ''_'' \<or> c = CHR ''-''"

definition job_id_rx :: rx where
  "job_id_rx = rseq [rlit_ci ''/job-detail/'', RGroup ''1'' (rplus (RSet job_id_char))]"

definition rhex :: rx where "rhex = RSet (\<lambda>c. hex_value c \<noteq> None)"

definition guid_rx :: rx where
  "guid_rx = rseq [rlit_ci ''/job-detail/'', RGroup ''1'' (rseq [rtimes 8 rhex, rchar (CHR ''-''), rtimes 4 rhex, rchar (CHR ''-''),
     rtimes 4 rhex, rchar (CHR ''-''), rtimes 4 rhex, rchar (CHR ''-''), rtimes 12 rhex])]"

definition flight_rx :: rx where
  "flight_rx = rseq [rlit ''self.__next_f.push('', RGroup ''1'' (rseq [rchar (CHR ''[''), RLazy any_char, rchar (CHR '']'')]),
     rchar (CHR '')''), rspaces, ropt (rchar (CHR '';'')), rspaces, rlit ''</script>'']"

definition script_rx :: "rx \<Rightarrow> rx" where
  "script_rx kind = rseq [rlit_ci ''<script'', rplus (not_char (CHR ''>'')), rlit_ci ''type='', quote_mark, rlit_ci ''application/'',
     kind, quote_mark, RStar (not_char (CHR ''>'')), rchar (CHR ''>''), RGroup ''1'' (RLazy any_char), rlit_ci ''</script>'']"

definition any_json_rx :: rx where "any_json_rx = script_rx (RAlt (rlit_ci ''ld+json'') (rlit_ci ''json''))"
definition linked_data_rx :: rx where "linked_data_rx = script_rx (rlit_ci ''ld+json'')"

definition job_link_rx :: rx where
  "job_link_rx = rseq [rlit_ci ''<a'', rplus (not_char (CHR ''>'')), rlit_ci ''href='', quote_mark,
     RGroup ''url'' (rseq [RStar not_quote, rlit_ci ''/job-detail/'', rplus not_quote]), quote_mark,
     RStar (not_char (CHR ''>'')), rchar (CHR ''>''), RGroup ''title'' (RLazy any_char), rlit_ci ''</a>'']"

definition extract_job_id :: "string \<Rightarrow> string option" where
  "extract_job_id url = group1 (re_search job_id_rx url)"

definition dice_absolute :: "string option \<Rightarrow> collect_error + string option" where
  "dice_absolute url = (case url of
      None \<Rightarrow> Inr None
    | Some u \<Rightarrow> if u = [] then Inr None else (case urljoin_host ''https'' ''www.dice.com'' u of
          None \<Rightarrow> Inl (OtherError ''ValueError'')
        | Some a \<Rightarrow> Inr (Some a)))"

section \<open>Fields of a mapping\<close>

type_synonym mapping = "(string \<times> jval) list"

fun first_text :: "mapping \<Rightarrow> string list \<Rightarrow> string option" where
  "first_text d [] = None"
| "first_text d (k # ks) = (let v = jget d k in
     if (case v of VStr s \<Rightarrow> collapse_ws s \<noteq> [] | _ \<Rightarrow> False) then Some (collapse_ws (py_str v))
     else if is_number v then Some (py_str v)
     else first_text d ks)"

text \<open>A text that is not blank.\<close>

definition solid_text :: "jval \<Rightarrow> string option" where
  "solid_text v = (case v of VStr s \<Rightarrow> if strip s \<noteq> [] then Some s else None | _ \<Rightarrow> None)"

definition solid_in :: "jval \<Rightarrow> string \<Rightarrow> string option" where
  "solid_in v k = (case v of VDict m \<Rightarrow> solid_text (jget m k) | _ \<Rightarrow> None)"

definition dice_external_id :: "mapping \<Rightarrow> string option \<Rightarrow> string option" where
  "dice_external_id d url = (case first_text d [''guid'', ''id'', ''jobId'', ''jobID'', ''externalId'', ''external_job_id''] of
      Some i \<Rightarrow> Some i
    | None \<Rightarrow> (case solid_in (jget d ''identifier'') ''value'' of
          Some i \<Rightarrow> Some (strip i)
        | None \<Rightarrow> Option.bind url extract_job_id))"

definition extract_company :: "mapping \<Rightarrow> string option" where
  "extract_company d = (case solid_in (jget d ''hiringOrganization'') ''name'' of
      Some n \<Rightarrow> Some (collapse_ws n)
    | None \<Rightarrow> (case solid_in (jget d ''company'') ''name'' of
          Some n \<Rightarrow> Some (collapse_ws n)
        | None \<Rightarrow> first_text d [''companyName'', ''company'', ''employerName'']))"

definition some_text :: "string \<Rightarrow> string option" where
  "some_text s = (if s = [] then None else Some s)"

definition location_from_mapping :: "mapping \<Rightarrow> string option" where
  "location_from_mapping l = (case jget l ''address'' of
      VDict a \<Rightarrow> some_text (join '', '' (map strip (List.map_filter (\<lambda>k. solid_text (jget a k))
        [''addressLocality'', ''addressRegion'', ''addressCountry''])))
    | _ \<Rightarrow> None)"

definition extract_location :: "mapping \<Rightarrow> string option" where
  "extract_location d = (case first_text d [''location'', ''formattedLocation''] of
      Some l \<Rightarrow> Some l
    | None \<Rightarrow> (case jget d ''jobLocation'' of
          VList ls \<Rightarrow> some_text (join '' | '' (List.map_filter (\<lambda>l. case l of VDict m \<Rightarrow> location_from_mapping m | _ \<Rightarrow> None) ls))
        | VDict m \<Rightarrow> location_from_mapping m
        | _ \<Rightarrow> None))"

section \<open>Salary\<close>

definition format_number :: "jval \<Rightarrow> string" where
  "format_number v = (case v of
      VFloat (Finite neg x) \<Rightarrow> if x = of_int \<lfloor>x\<rfloor> then int_str (if neg then - \<lfloor>x\<rfloor> else \<lfloor>x\<rfloor>) else py_str v
    | _ \<Rightarrow> py_str v)"

definition salary_source :: "mapping \<Rightarrow> mapping" where
  "salary_source b = (case jget b ''value'' of VDict m \<Rightarrow> m | _ \<Rightarrow> b)"

definition salary_amount :: "mapping \<Rightarrow> string option" where
  "salary_amount m = (let lo = jget m ''minValue''; hi = jget m ''maxValue''; exact = jget m ''value'' in
     if is_number lo \<and> is_number hi then Some (format_number lo @ '' - '' @ format_number hi)
     else if is_number lo then Some (format_number lo @ ''+'')
     else if is_number hi then Some (''Up to '' @ format_number hi)
     else if is_number exact then Some (format_number exact)
     else None)"

definition extract_salary :: "mapping \<Rightarrow> string option" where
  "extract_salary d = (case first_text d [''salary'', ''salaryText''] of
      Some s \<Rightarrow> Some s
    | None \<Rightarrow> (case jget d ''baseSalary'' of
          VDict b \<Rightarrow> map_option (\<lambda>amount. join '' ''
            ((case solid_text (jget b ''currency'') of Some c \<Rightarrow> [strip c] | None \<Rightarrow> []) @ [amount] @
             (case solid_text (jget (salary_source b) ''unitText'') of Some u \<Rightarrow> [''per '' @ lower (strip u)] | None \<Rightarrow> [])))
            (salary_amount (salary_source b))
        | _ \<Rightarrow> None))"

text \<open>\<open>Decimal(str(v))\<close> of a number; a Boolean passes the type check and raises.\<close>

definition number_decimal :: "jval \<Rightarrow> collect_error + rat option" where
  "number_decimal v = (case v of
      VInt i \<Rightarrow> Inr (Some (of_int i))
    | VFloat f \<Rightarrow> Inr (float_decimal f)
    | VBool _ \<Rightarrow> Inl (OtherError ''InvalidOperation'')
    | _ \<Rightarrow> Inr None)"

definition or_exact :: "collect_error + rat option \<Rightarrow> jval \<Rightarrow> collect_error + rat option" where
  "or_exact r exact = (case r of Inr None \<Rightarrow> number_decimal exact | _ \<Rightarrow> r)"

definition period_of_unit :: "jval \<Rightarrow> string option" where
  "period_of_unit v = (case v of
      VStr u \<Rightarrow> (let p = lower (strip u) in Some
        (if p \<in> {''year'', ''annual'', ''annually'', ''yr''} then ''year''
         else if p \<in> {''hour'', ''hourly'', ''hr''} then ''hour''
         else if p \<in> {''month'', ''monthly'', ''mo''} then ''month'' else p))
    | _ \<Rightarrow> None)"

definition structured_salary :: "mapping \<Rightarrow> collect_error + (raw_job \<Rightarrow> raw_job) option" where
  "structured_salary d = (case jget d ''baseSalary'' of
      VDict b \<Rightarrow> (let m = salary_source b; exact = jget m ''value''; cur = jget b ''currency'' in
        case number_decimal (jget m ''minValue'') of Inl e \<Rightarrow> Inl e | Inr lo \<Rightarrow>
        (case number_decimal (jget m ''maxValue'') of Inl e \<Rightarrow> Inl e | Inr hi \<Rightarrow>
        (case or_exact (Inr lo) exact of Inl e \<Rightarrow> Inl e | Inr lo' \<Rightarrow>
        (case or_exact (Inr hi) exact of Inl e \<Rightarrow> Inl e | Inr hi' \<Rightarrow>
          Inr (if lo' = None \<and> hi' = None then None else Some (\<lambda>j. j\<lparr>rj_salary_min := lo', rj_salary_max := hi',
            rj_salary_currency := Some (if truthy_val cur then map upper_char (strip (py_str cur)) else ''USD''),
            rj_salary_period := period_of_unit (jget m ''unitText''), rj_salary_text := extract_salary d\<rparr>))))))
    | _ \<Rightarrow> Inr None)"

definition dice_salary :: "mapping \<Rightarrow> string option \<Rightarrow> raw_job \<Rightarrow> collect_error + raw_job" where
  "dice_salary d desc j = (case structured_salary d of
      Inl e \<Rightarrow> Inl e
    | Inr (Some put) \<Rightarrow> Inr (put j)
    | Inr None \<Rightarrow> Inr (case first_text d [''salary'', ''salaryText''] of
          Some direct \<Rightarrow> (with_salary (parse_salary direct) j)\<lparr>rj_salary_text := Some direct\<rparr>
        | None \<Rightarrow> (case desc of Some s \<Rightarrow> with_salary (parse_salary s) j | None \<Rightarrow> with_salary None j)))"

section \<open>Other fields\<close>

definition solid_strs :: "jval list \<Rightarrow> string list" where
  "solid_strs vs = filter (\<lambda>s. s \<noteq> []) (map (\<lambda>v. strip (py_str v)) vs)"

definition extract_employment_type :: "mapping \<Rightarrow> string option" where
  "extract_employment_type d = (case jget d ''employmentType'' of
      VStr s \<Rightarrow> some_text (collapse_ws s)
    | VList vs \<Rightarrow> some_text (join '', '' (solid_strs vs))
    | _ \<Rightarrow> None)"

definition dice_employment_type :: "mapping \<Rightarrow> string option \<Rightarrow> string option" where
  "dice_employment_type d desc = (case extract_employment_type d of
      Some t \<Rightarrow> Some t
    | None \<Rightarrow> (case desc of None \<Rightarrow> None | Some s \<Rightarrow> map_option employment_str (normalize_employment_type s)))"

definition extract_skills :: "mapping \<Rightarrow> string list" where
  "extract_skills d = (case jget d ''skills'' of
      VStr s \<Rightarrow> filter (\<lambda>s. s \<noteq> []) (map strip (split_by (\<lambda>c. c \<in> set '',|;'') s))
    | VList vs \<Rightarrow> solid_strs vs
    | _ \<Rightarrow> [])"

definition dice_skills :: "mapping \<Rightarrow> string option \<Rightarrow> string list" where
  "dice_skills d desc = merge_skills (extract_skills d) (extract_skills_from_text (opt_text desc))"

definition extract_remote :: "mapping \<Rightarrow> string option \<Rightarrow> bool option" where
  "extract_remote d loc = (case (jget d ''remote'', jget d ''isRemote'') of
      (VBool b, _) \<Rightarrow> Some b
    | (_, VBool b) \<Rightarrow> Some b
    | _ \<Rightarrow> if (case jget d ''jobLocationType'' of
              VStr w \<Rightarrow> contains_sub ''telecommute'' (lower w) \<or> contains_sub ''remote'' (lower w) | _ \<Rightarrow> False)
            \<or> contains_sub ''remote'' (lower (opt_text loc)) then Some True else None)"

definition dice_experience :: "mapping \<Rightarrow> string option \<Rightarrow> experience option" where
  "dice_experience d desc = (let required = (case jget d ''experienceRequirements'' of
        VStr s \<Rightarrow> s
      | VDict m \<Rightarrow> py_str (val_or (jget m ''monthsOfExperience'') (val_or (jget m ''name'') (VStr [])))
      | _ \<Rightarrow> [])
    in extract_experience (required @ [CHR 0x0A] @ opt_text desc))"

definition dice_timestamp :: "string \<Rightarrow> py_datetime option" where
  "dice_timestamp s = fromisoformat (concat (map (\<lambda>c. if c = CHR ''Z'' then ''+00:00'' else [c]) (strip s)))"

text \<open>A timestamp in UTC; moving it there may leave the calendar.\<close>

definition dice_datetime :: "string option \<Rightarrow> collect_error + py_datetime option" where
  "dice_datetime v = (case v of
      None \<Rightarrow> Inr None
    | Some s \<Rightarrow> (case dice_timestamp s of
          None \<Rightarrow> Inr None
        | Some (Naive t) \<Rightarrow> Inr (Some (Aware t 0))
        | Some (Aware t off) \<Rightarrow> if in_calendar (t - off) then Inr (Some (Aware (t - off) 0))
            else Inl (OtherError ''OverflowError'')))"

section \<open>A mapping as a listing\<close>

definition dice_title :: "mapping \<Rightarrow> string option" where
  "dice_title d = first_text d [''title'', ''jobTitle'', ''name'']"

definition dice_url :: "mapping \<Rightarrow> string option" where
  "dice_url d = first_text d [''url'', ''jobUrl'', ''jobDetailUrl'', ''detailsPageUrl'']"

definition posted_keys :: "string list" where
  "posted_keys = [''datePosted'', ''postedDate'', ''posted_at'', ''date'']"

definition updated_keys :: "string list" where
  "updated_keys = [''dateModified'', ''modifiedDate'', ''updated_at'']"

text \<open>The fields no exception depends on.\<close>

definition dice_plain_job :: "mapping \<Rightarrow> string \<Rightarrow> string \<Rightarrow> string option \<Rightarrow> raw_job" where
  "dice_plain_job d title i desc = (let loc = extract_location d; remote = extract_remote d loc;
       remote_type = normalize_remote_type (opt_text loc @ [CHR 0x0A] @ opt_text desc) remote
     in with_experience (dice_experience d desc) ((bare_job ''dice'' i title)\<lparr>rj_company := extract_company d,
          rj_location := loc, rj_description := desc, rj_employment_type := dice_employment_type d desc,
          rj_remote := (if remote = None \<and> remote_type = Some REMOTE then Some True else remote), rj_remote_type := remote_type,
          rj_skills := dice_skills d desc, rj_raw_data := to_items d\<rparr>))"

definition job_from_mapping :: "mapping \<Rightarrow> collect_error + raw_job option" where
  "job_from_mapping d = (case (dice_title d, dice_external_id d (dice_url d)) of
      (Some title, Some i) \<Rightarrow> if i = [] then Inr None else (let desc = first_text d [''description'', ''jobDescription''] in
        case dice_salary d desc (dice_plain_job d title i desc) of Inl e \<Rightarrow> Inl e | Inr j \<Rightarrow>
        (case dice_datetime (first_text d posted_keys) of Inl e \<Rightarrow> Inl e | Inr posted \<Rightarrow>
        (case dice_datetime (first_text d updated_keys) of Inl e \<Rightarrow> Inl e | Inr updated \<Rightarrow>
        (case dice_absolute (dice_url d) of Inl e \<Rightarrow> Inl e | Inr url \<Rightarrow>
           Inr (Some (j\<lparr>rj_posted_at := posted, rj_source_updated_at := updated, rj_url := url\<rparr>))))))
    | _ \<Rightarrow> Inr None)"

text \<open>Every mapping inside a value, outermost first.\<close>

fun walk_json :: "jval \<Rightarrow> mapping list" and walk_list :: "jval list \<Rightarrow> mapping list"
  and walk_items :: "mapping \<Rightarrow> mapping list" where
  "walk_json (VDict d) = d # walk_items d"
| "walk_json (VList vs) = walk_list vs"
| "walk_json VNull = []"
| "walk_json (VBool b) = []"
| "walk_json (VInt i) = []"
| "walk_json (VFloat f) = []"
| "walk_json (VStr s) = []"
| "walk_list [] = []"
| "walk_list (v # vs) = walk_json v @ walk_list vs"
| "walk_items [] = []"
| "walk_items ((k, v) # d) = walk_json v @ walk_items d"

definition candidate_of :: "raw_job \<Rightarrow> discovered_job" where
  "candidate_of j = \<lparr>dj_source = rj_source j, dj_external_id = rj_external_id j, dj_title = rj_title j, dj_url = rj_url j\<rparr>"

fun mapping_candidates :: "mapping list \<Rightarrow> collect_error + discovered_job list" where
  "mapping_candidates [] = Inr []"
| "mapping_candidates (d # ds) = (case job_from_mapping d of
      Inl e \<Rightarrow> Inl e
    | Inr found \<Rightarrow> (case mapping_candidates ds of
          Inl e \<Rightarrow> Inl e
        | Inr cs \<Rightarrow> Inr ((case found of None \<Rightarrow> [] | Some j \<Rightarrow> [candidate_of j]) @ cs)))"

section \<open>Search pages\<close>

definition flight_chunks :: "string \<Rightarrow> string list" where
  "flight_chunks body = List.map_filter (\<lambda>h. case Option.bind (grp h ''1'') json_loads of
      Some (VList (_ # VStr s # _)) \<Rightarrow> Some s
    | _ \<Rightarrow> None) (finditer flight_rx body)"

fun after_sub :: "string \<Rightarrow> string \<Rightarrow> string option" where
  "after_sub p s = (if prefix p s then Some (drop (length p) s) else case s of [] \<Rightarrow> None | _ # t \<Rightarrow> after_sub p t)"

definition job_list_key :: string where
  "job_list_key = CHR 0x22 # ''jobList'' @ [CHR 0x22, CHR '':'']"

definition flight_joblist :: "string \<Rightarrow> jval list option" where
  "flight_joblist body = first_some (\<lambda>chunk. case Option.bind (after_sub job_list_key chunk) raw_decode of
      Some (VDict m, _) \<Rightarrow> (case jget m ''data'' of VList items \<Rightarrow> Some items | _ \<Rightarrow> None)
    | _ \<Rightarrow> None) (flight_chunks body)"

definition flight_candidate :: "jval \<Rightarrow> discovered_job option" where
  "flight_candidate v = (case v of
      VDict m \<Rightarrow> (let guid = strip (py_str (val_or (jget m ''guid'') (val_or (jget m ''id'') (VStr [])))) in
        if guid = [] then None
        else Some \<lparr>dj_source = ''dice'', dj_external_id = guid,
          dj_title = strip (py_str (val_or (jget m ''title'') (VStr ''Dice Tech Job''))),
          dj_url = Some (strip (py_str (val_or (jget m ''detailsPageUrl'') (VStr (dice_detail_request guid)))))\<rparr>)
    | _ \<Rightarrow> None)"

definition deduplicate :: "discovered_job list \<Rightarrow> discovered_job list" where
  "deduplicate = first_of_each dj_external_id []"

definition parse_flight_chunks :: "string \<Rightarrow> discovered_job list" where
  "parse_flight_chunks body = (case flight_joblist body of
      None \<Rightarrow> []
    | Some items \<Rightarrow> deduplicate (List.map_filter flight_candidate items))"

text \<open>The mappings of the JSON scripts a pattern finds; what cannot be decoded is skipped.\<close>

definition script_mappings :: "rx \<Rightarrow> string \<Rightarrow> mapping list" where
  "script_mappings r body = concat (map (\<lambda>h. case grp h ''1'' of
      None \<Rightarrow> []
    | Some raw \<Rightarrow> if strip raw = [] then [] else (case json_loads (strip raw) of None \<Rightarrow> [] | Some v \<Rightarrow> walk_json v))
    (finditer r body))"

definition parse_json_scripts :: "string \<Rightarrow> collect_error + discovered_job list" where
  "parse_json_scripts body = (case mapping_candidates (script_mappings any_json_rx body) of
      Inl e \<Rightarrow> Inl e
    | Inr cs \<Rightarrow> Inr (deduplicate cs))"

definition parse_guid_fallback :: "string \<Rightarrow> discovered_job list" where
  "parse_guid_fallback body = map (\<lambda>g. \<lparr>dj_source = ''dice'', dj_external_id = g, dj_title = ''Dice Tech Job'',
       dj_url = Some (dice_detail_request g)\<rparr>)
     (first_of_each id [] (filter (\<lambda>g. g \<noteq> []) (map (\<lambda>h. case grp h ''1'' of None \<Rightarrow> [] | Some g \<Rightarrow> strip g) (finditer guid_rx body))))"

definition link_candidate :: "hit \<Rightarrow> collect_error + discovered_job option" where
  "link_candidate h = (case (grp h ''url'', grp h ''title'') of
      (Some url, Some raw) \<Rightarrow> (case extract_job_id url of
          None \<Rightarrow> Inr None
        | Some i \<Rightarrow> if i = [] \<or> text_of raw = [] then Inr None
            else (case dice_absolute (Some url) of
                Inl e \<Rightarrow> Inl e
              | Inr u \<Rightarrow> Inr (Some \<lparr>dj_source = ''dice'', dj_external_id = i, dj_title = text_of raw, dj_url = u\<rparr>)))
    | _ \<Rightarrow> Inr None)"

fun link_candidates :: "hit list \<Rightarrow> collect_error + discovered_job list" where
  "link_candidates [] = Inr []"
| "link_candidates (h # hs) = (case link_candidate h of
      Inl e \<Rightarrow> Inl e
    | Inr found \<Rightarrow> (case link_candidates hs of
          Inl e \<Rightarrow> Inl e
        | Inr cs \<Rightarrow> Inr ((case found of None \<Rightarrow> [] | Some c \<Rightarrow> [c]) @ cs)))"

definition parse_job_links :: "string \<Rightarrow> collect_error + discovered_job list" where
  "parse_job_links body = (case link_candidates (finditer job_link_rx body) of Inl e \<Rightarrow> Inl e | Inr cs \<Rightarrow> Inr (deduplicate cs))"

text \<open>The first way of reading the page that finds anything.\<close>

definition dice_search_page :: "string \<Rightarrow> collect_error + discovered_job list" where
  "dice_search_page body = (let flight = parse_flight_chunks body in
     if flight \<noteq> [] then Inr flight
     else (case parse_json_scripts body of
         Inl e \<Rightarrow> Inl e
       | Inr cs \<Rightarrow> if cs \<noteq> [] then Inr cs
           else (let guids = parse_guid_fallback body in if guids \<noteq> [] then Inr guids else parse_job_links body)))"

section \<open>Detail pages\<close>

definition is_job_posting_type :: "jval \<Rightarrow> bool" where
  "is_job_posting_type v = (case v of VStr s \<Rightarrow> s = ''JobPosting'' | VList vs \<Rightarrow> VStr ''JobPosting'' \<in> set vs | _ \<Rightarrow> False)"

definition align_identity :: "string \<Rightarrow> raw_job \<Rightarrow> raw_job" where
  "align_identity expected j = (if rj_external_id j = expected then j
     else j\<lparr>rj_external_id := expected,
       rj_url := (case rj_url j of Some u \<Rightarrow> if u = [] then Some (dice_detail_request expected) else Some u
                  | None \<Rightarrow> Some (dice_detail_request expected))\<rparr>)"

fun first_posting :: "string \<Rightarrow> mapping list \<Rightarrow> collect_error + raw_job option" where
  "first_posting expected [] = Inr None"
| "first_posting expected (d # ds) = (if \<not> is_job_posting_type (jget d ''@type'') then first_posting expected ds
     else (case job_from_mapping d of
         Inl e \<Rightarrow> Inl e
       | Inr None \<Rightarrow> first_posting expected ds
       | Inr (Some j) \<Rightarrow> Inr (Some (align_identity expected j))))"

definition dice_parse_detail :: "discovered_job \<Rightarrow> string \<Rightarrow> collect_error + raw_job option" where
  "dice_parse_detail c body = first_posting (dj_external_id c) (script_mappings linked_data_rx body)"

section \<open>The two stages\<close>

definition dice_page :: "http_client \<Rightarrow> (int \<Rightarrow> bool) \<Rightarrow> target \<Rightarrow> nat \<Rightarrow> nat \<Rightarrow> (page_error + discovered_job list) \<times> nat" where
  "dice_page client accepts t page n = (case simple_get client (dice_status accepts) n (dice_search_request t page) of
      (Inl e, n') \<Rightarrow> (Inl e, n')
    | (Inr r, n') \<Rightarrow> (case dice_search_page (hr_text r) of Inl e \<Rightarrow> (Inl (Collect e), n') | Inr cs \<Rightarrow> (Inr cs, n')))"

definition dice_discover :: "http_client \<Rightarrow> (int \<Rightarrow> bool) \<Rightarrow> target \<Rightarrow> collect_error + discovered_job list" where
  "dice_discover client accepts t = (if tg_source t \<noteq> DICE then Inl (OtherError ''ValueError'')
     else (case discover_loop dj_external_id (tg_max_jobs t) (Some 20) (dice_page client accepts t) [1..<6] [] 0 of
         (Some e, _, _) \<Rightarrow> Inl (page_failure e)
       | (None, found, _) \<Rightarrow> Inr found))"

definition dice_detail :: "http_client \<Rightarrow> (int \<Rightarrow> bool) \<Rightarrow> discovered_job \<Rightarrow> nat \<Rightarrow> (page_error + http_reply) \<times> nat" where
  "dice_detail client accepts c n = simple_get client (dice_status accepts) n (dice_detail_request (dj_external_id c))"

definition dice_details :: "http_client \<Rightarrow> (int \<Rightarrow> bool) \<Rightarrow> target \<Rightarrow> discovered_job list \<Rightarrow> collect_error + raw_job list" where
  "dice_details client accepts t cs = (if tg_source t \<noteq> DICE then Inl (OtherError ''ValueError'')
     else fst (fetch_each (dice_detail client accepts) dice_parse_detail cs 0))"

definition dice_collector :: "http_client \<Rightarrow> (int \<Rightarrow> bool) \<Rightarrow> collector" where
  "dice_collector client accepts = TwoStage (dice_discover client accepts) (dice_details client accepts)"

section \<open>Texts without surrounding blanks\<close>

definition trimmed :: "string \<Rightarrow> bool" where
  "trimmed s \<longleftrightarrow> s \<noteq> [] \<and> strip s = s"

lemma trimmed_strip: "strip s \<noteq> [] \<Longrightarrow> trimmed (strip s)"
  by (simp add: trimmed_def)

lemma trimmed_collapse: "collapse_ws s \<noteq> [] \<Longrightarrow> trimmed (collapse_ws s)"
  by (simp add: trimmed_def collapse_ws_strip)

lemma trimmed_solid: "s \<noteq> [] \<Longrightarrow> \<forall>c \<in> set s. \<not> is_space c \<Longrightarrow> trimmed s"
  unfolding trimmed_def using strip_fixed by simp

lemma digit_no_space: "is_digit c \<Longrightarrow> \<not> is_space c"
  by (auto simp: is_digit_def is_space_def)

lemma nat_str_no_space: "c \<in> set (nat_str n) \<Longrightarrow> \<not> is_space c"
  using nat_str_digits digit_no_space by blast

definition numeral_char :: "char \<Rightarrow> bool" where
  "numeral_char c \<longleftrightarrow> is_digit c \<or> c \<in> set ''+-.e''"

lemma numeral_no_space: "numeral_char c \<Longrightarrow> \<not> is_space c"
  by (auto simp: numeral_char_def is_space_def is_digit_def char_code_def)

lemma nat_str_numeral: "c \<in> set (nat_str n) \<Longrightarrow> numeral_char c"
  using nat_str_digits by (simp add: numeral_char_def)

lemma magnitude_str_chars: "c \<in> set (magnitude_str x) \<Longrightarrow> numeral_char c"
proof -
  have lits: "numeral_char (CHR ''0'')" "numeral_char (CHR ''.'')" "numeral_char (CHR ''e'')" "numeral_char (CHR ''-'')" "numeral_char (CHR ''+'')"
    by (simp_all add: numeral_char_def is_digit_def char_code_def)
  have parts: "c \<in> set (take i ds) \<Longrightarrow> c \<in> set ds" "c \<in> set (drop i ds) \<Longrightarrow> c \<in> set ds" for i and ds :: string
    by (auto dest: in_set_takeD in_set_dropD)
  assume "c \<in> set (magnitude_str x)"
  then have "c \<in> set ''0.e-+'' \<or> (\<exists>n. c \<in> set (nat_str n))"
    unfolding magnitude_str_def Let_def
    by (auto dest!: parts set_dropWhileD split: prod.splits if_splits)
  then show "numeral_char c" using lits nat_str_numeral by auto
qed

lemma magnitude_str_ne: "magnitude_str x \<noteq> []"
  by (auto simp: magnitude_str_def Let_def split: prod.splits)

lemma float_str_trimmed: "trimmed (float_str f)"
proof (cases f)
  case (Finite neg x)
  then show ?thesis using magnitude_str_ne[of x] magnitude_str_chars[of _ x] numeral_no_space numeral_no_space[of "CHR ''-''"]
    by (intro trimmed_solid) (auto simp: numeral_char_def)
next
  case (Infinite neg)
  have "trimmed ''inf''" "trimmed ''-inf''" by code_simp+
  then show ?thesis using Infinite by simp
next
  case NotANumber
  have "trimmed ''nan''" by code_simp
  then show ?thesis using NotANumber by simp
qed

lemma int_str_trimmed: "trimmed (int_str i)"
  using nat_str_no_space by (intro trimmed_solid) (auto simp: int_str_def is_space_def char_code_def)

lemma number_text_trimmed: "is_number v \<Longrightarrow> trimmed (py_str v)"
proof -
  have "trimmed ''True''" "trimmed ''False''" by code_simp+
  then show "is_number v \<Longrightarrow> trimmed (py_str v)"
    using float_str_trimmed int_str_trimmed by (cases v) (auto simp: is_number_def py_str_def)
qed

lemma first_text_trimmed: "first_text d ks = Some x \<Longrightarrow> trimmed x"
proof (induction d ks rule: first_text.induct)
  case (2 d k ks)
  have "py_str (VStr s) = s" for s by (simp add: py_str_def)
  then show ?case using 2 number_text_trimmed[of "jget d k"] trimmed_collapse
    by (cases "jget d k") (auto simp: Let_def split: if_splits)
qed simp

lemma extract_job_id_trimmed: "extract_job_id u = Some i \<Longrightarrow> trimmed i"
proof -
  have g: "rx_groups job_id_rx = [(''1'', rplus (RSet job_id_char))]"
    by (simp add: job_id_rx_def rchar_ci_def rplus_def)
  have "job_id_char c \<Longrightarrow> \<not> is_space c" for c
    by (auto simp: job_id_char_def is_space_def is_alnum_def is_alpha_def is_digit_def is_upper_def is_lower_def char_code_def)
  then have "rx_lang (rplus (RSet job_id_char)) i \<Longrightarrow> trimmed i"
    using all_in_star[OF all_in_basic(2)[of job_id_char job_id_char]]
    by (intro trimmed_solid) (auto simp: rplus_def all_in_def list_all_iff)
  then show "extract_job_id u = Some i \<Longrightarrow> trimmed i"
    using g by (auto simp: extract_job_id_def captures_def dest!: group1_search)
qed

lemma external_id_trimmed: "dice_external_id d u = Some i \<Longrightarrow> trimmed i"
  using first_text_trimmed extract_job_id_trimmed
  by (auto simp: dice_external_id_def solid_in_def solid_text_def bind_eq_Some_conv trimmed_def
      split: option.splits jval.splits if_splits simp del: first_text.simps)

section \<open>What a mapping turns into\<close>

definition utc_time :: "py_datetime option \<Rightarrow> bool" where
  "utc_time v \<longleftrightarrow> (case v of None \<Rightarrow> True | Some (Aware t off) \<Rightarrow> off = 0 \<and> in_calendar t | Some (Naive _) \<Rightarrow> False)"

definition dice_listing_wf :: "mapping \<Rightarrow> raw_job \<Rightarrow> bool" where
  "dice_listing_wf d j \<longleftrightarrow> rj_source j = ''dice'' \<and> dice_title d = Some (rj_title j) \<and>
     dice_external_id d (dice_url d) = Some (rj_external_id j) \<and> trimmed (rj_title j) \<and> trimmed (rj_external_id j) \<and>
     utc_time (rj_posted_at j) \<and> utc_time (rj_source_updated_at j) \<and> distinct_names (rj_skills j) \<and>
     (rj_remote_type j = Some REMOTE \<longrightarrow> rj_remote j \<noteq> None) \<and> rj_raw_data j = to_items d"

definition boolean_salary :: "mapping \<Rightarrow> bool" where
  "boolean_salary d \<longleftrightarrow> (\<exists>b x. jget d ''baseSalary'' = VDict b \<and>
     (\<exists>k \<in> {''minValue'', ''maxValue'', ''value''}. jget (salary_source b) k = VBool x))"

definition outside_calendar :: "mapping \<Rightarrow> bool" where
  "outside_calendar d \<longleftrightarrow> (\<exists>ks \<in> {posted_keys, updated_keys}. \<exists>s t off. first_text d ks = Some s \<and>
     dice_timestamp s = Some (Aware t off) \<and> \<not> in_calendar (t - off))"

lemma dice_datetime_outcome:
  "case dice_datetime v of
     Inl e \<Rightarrow> e = OtherError ''OverflowError'' \<and> (\<exists>s t off. v = Some s \<and> dice_timestamp s = Some (Aware t off) \<and> \<not> in_calendar (t - off))
   | Inr r \<Rightarrow> utc_time r"
  using fromisoformat_range
  by (fastforce simp: dice_datetime_def dice_timestamp_def utc_time_def split: option.splits py_datetime.splits)

lemma dice_absolute_outcome:
  "case dice_absolute u of Inl e \<Rightarrow> e = OtherError ''ValueError'' \<and> (\<exists>x. u = Some x \<and> urlsplit x = None) | Inr _ \<Rightarrow> True"
  by (auto simp: dice_absolute_def urljoin_host_def split: option.splits)

lemma number_decimal_fails: "number_decimal v = Inl e \<Longrightarrow> e = OtherError ''InvalidOperation'' \<and> (\<exists>x. v = VBool x)"
  by (auto simp: number_decimal_def split: jval.splits)

lemma or_exact_fails: "or_exact (Inr r) v = Inl e \<Longrightarrow> e = OtherError ''InvalidOperation'' \<and> (\<exists>x. v = VBool x)"
  using number_decimal_fails by (auto simp: or_exact_def split: option.splits)

definition keeps_listing :: "raw_job \<Rightarrow> raw_job \<Rightarrow> bool" where
  "keeps_listing j j' \<longleftrightarrow> rj_source j' = rj_source j \<and> rj_external_id j' = rj_external_id j \<and> rj_title j' = rj_title j \<and>
     rj_skills j' = rj_skills j \<and> rj_remote j' = rj_remote j \<and> rj_remote_type j' = rj_remote_type j \<and> rj_raw_data j' = rj_raw_data j"

lemma structured_salary_outcome:
  "case structured_salary d of
     Inl e \<Rightarrow> e = OtherError ''InvalidOperation'' \<and> boolean_salary d
   | Inr None \<Rightarrow> True
   | Inr (Some put) \<Rightarrow> keeps_listing j (put j)"
  by (auto simp: structured_salary_def boolean_salary_def keeps_listing_def Let_def
      dest!: number_decimal_fails or_exact_fails split: jval.splits sum.splits option.splits)

lemma dice_salary_outcome:
  "case dice_salary d desc j of
     Inl e \<Rightarrow> e = OtherError ''InvalidOperation'' \<and> boolean_salary d
   | Inr j' \<Rightarrow> keeps_listing j j'"
proof -
  have k: "keeps_listing j (with_salary s j)" "keeps_listing j (with_salary s j\<lparr>rj_salary_text := t\<rparr>)"
    "keeps_listing j ((with_salary s j)\<lparr>rj_salary_text := t\<rparr>)" for s t
    by (simp_all add: keeps_listing_def with_salary_def)
  show ?thesis using structured_salary_outcome[where d = d and j = j] k
    by (auto simp: dice_salary_def split: sum.splits option.splits)
qed

lemma dice_plain_job_fields:
  "rj_source (dice_plain_job d title i desc) = ''dice''" "rj_external_id (dice_plain_job d title i desc) = i"
  "rj_title (dice_plain_job d title i desc) = title" "distinct_names (rj_skills (dice_plain_job d title i desc))"
  "rj_remote_type (dice_plain_job d title i desc) = Some REMOTE \<longrightarrow> rj_remote (dice_plain_job d title i desc) \<noteq> None"
  "rj_raw_data (dice_plain_job d title i desc) = to_items d"
  by (auto simp: dice_plain_job_def Let_def with_experience_def dice_skills_def merge_skills_def wf_intros)

lemma dice_title_trimmed: "dice_title d = Some t \<Longrightarrow> trimmed t"
  unfolding dice_title_def by (rule first_text_trimmed)

lemma job_from_mapping_outcome:
  "case job_from_mapping d of
     Inl e \<Rightarrow> e = OtherError ''InvalidOperation'' \<and> boolean_salary d \<or> e = OtherError ''OverflowError'' \<and> outside_calendar d \<or>
       e = OtherError ''ValueError'' \<and> (\<exists>u. dice_url d = Some u \<and> urlsplit u = None)
   | Inr None \<Rightarrow> dice_title d = None \<or> dice_external_id d (dice_url d) = None
   | Inr (Some j) \<Rightarrow> dice_listing_wf d j"
proof (cases "dice_title d")
  case (Some title)
  show ?thesis
  proof (cases "dice_external_id d (dice_url d)")
    case i: (Some i)
    have "i \<noteq> []" using external_id_trimmed[OF i] by (simp add: trimmed_def)
    let ?desc = "first_text d [''description'', ''jobDescription'']"
    let ?j = "dice_plain_job d title i ?desc"
    show ?thesis
      using Some i \<open>i \<noteq> []\<close> dice_title_trimmed[OF Some] external_id_trimmed[OF i] dice_plain_job_fields[of d title i ?desc]
        dice_salary_outcome[where d = d and desc = ?desc and j = ?j] dice_datetime_outcome[of "first_text d posted_keys"]
        dice_datetime_outcome[of "first_text d updated_keys"] dice_absolute_outcome[of "dice_url d"]
      by (auto simp: job_from_mapping_def Let_def dice_listing_wf_def keeps_listing_def outside_calendar_def
          split: sum.splits simp del: first_text.simps)
  qed (use Some in \<open>simp add: job_from_mapping_def\<close>)
qed (simp add: job_from_mapping_def)

lemma walk_json_wf:
  "jval_wf v \<Longrightarrow> \<forall>d \<in> set (walk_json v). dict_wf d" "\<forall>v \<in> set vs. jval_wf v \<Longrightarrow> \<forall>d \<in> set (walk_list vs). dict_wf d"
  "\<forall>(k, v) \<in> set ms. jval_wf v \<Longrightarrow> \<forall>d \<in> set (walk_items ms). dict_wf d"
  by (induction v and vs and ms rule: walk_json_walk_list_walk_items.induct) auto

lemma script_mappings_wf: "d \<in> set (script_mappings r body) \<Longrightarrow> dict_wf d"
  using json_loads_wf walk_json_wf(1) by (fastforce simp: script_mappings_def split: option.splits if_splits)

section \<open>What a search page yields\<close>

definition dice_candidate :: "discovered_job \<Rightarrow> bool" where
  "dice_candidate c \<longleftrightarrow> dj_source c = ''dice'' \<and> trimmed (dj_external_id c) \<and> strip (dj_title c) = dj_title c"

lemma flight_candidate_sound: "flight_candidate v = Some c \<Longrightarrow> dice_candidate c"
  by (auto simp: flight_candidate_def dice_candidate_def Let_def trimmed_def split: jval.splits if_splits)

lemma mapping_candidates_sound: "mapping_candidates ds = Inr cs \<Longrightarrow> \<forall>c \<in> set cs. dice_candidate c"
proof (induction ds arbitrary: cs)
  case (Cons d ds)
  then show ?case using job_from_mapping_outcome[of d]
    by (auto simp: dice_candidate_def candidate_of_def dice_listing_wf_def trimmed_def split: sum.splits option.splits)
qed simp

lemma text_of_strip: "strip (text_of s) = text_of s"
  by (simp add: text_of_def collapse_ws_strip)

lemma link_candidates_sound: "link_candidates hs = Inr cs \<Longrightarrow> \<forall>c \<in> set cs. dice_candidate c"
proof (induction hs arbitrary: cs)
  case (Cons h hs)
  have "link_candidate h = Inr (Some c) \<Longrightarrow> dice_candidate c" for c
    using extract_job_id_trimmed text_of_strip
    by (auto simp: link_candidate_def dice_candidate_def split: option.splits sum.splits if_splits)
  then show ?case using Cons by (auto split: sum.splits option.splits)
qed simp

lemma guid_fallback_sound: "c \<in> set (parse_guid_fallback body) \<Longrightarrow> dice_candidate c"
proof -
  assume "c \<in> set (parse_guid_fallback body)"
  then obtain g where g: "g \<in> set (first_of_each id [] (filter (\<lambda>g. g \<noteq> []) (map (\<lambda>h. case grp h ''1'' of None \<Rightarrow> [] | Some g \<Rightarrow> strip g) (finditer guid_rx body))))"
    and c: "c = \<lparr>dj_source = ''dice'', dj_external_id = g, dj_title = ''Dice Tech Job'', dj_url = Some (dice_detail_request g)\<rparr>"
    by (auto simp: parse_guid_fallback_def)
  have "trimmed g"
    using g first_of_each_sound[of id "[]"] by (fastforce simp: trimmed_def split: option.splits)
  moreover have "strip ''Dice Tech Job'' = ''Dice Tech Job''" by code_simp
  ultimately show ?thesis by (simp add: c dice_candidate_def)
qed

lemma deduplicate_sub: "c \<in> set (deduplicate cs) \<Longrightarrow> c \<in> set cs"
  using first_of_each_sound[of dj_external_id "[]" cs] by (auto simp: deduplicate_def)

lemma dice_search_page_sound: "dice_search_page body = Inr cs \<Longrightarrow> \<forall>c \<in> set cs. dice_candidate c"
  using flight_candidate_sound guid_fallback_sound mapping_candidates_sound link_candidates_sound
  by (fastforce simp: dice_search_page_def parse_flight_chunks_def parse_json_scripts_def parse_job_links_def Let_def
      List.map_filter_def dest!: deduplicate_sub split: option.splits sum.splits if_splits)

lemma dice_page_body:
  "dice_page client accepts t p m = (Inr cs, m') \<Longrightarrow> \<exists>body. dice_search_page body = Inr cs"
  by (cases "simple_get client (dice_status accepts) m (dice_search_request t p)")
     (auto simp: dice_page_def split: sum.splits)

section \<open>The stages as locales\<close>

lemma align_identity_fields:
  "rj_source (align_identity i j) = rj_source j" "rj_external_id (align_identity i j) = i"
  by (auto simp: align_identity_def)

lemma first_posting_sound: "first_posting i ds = Inr (Some j) \<Longrightarrow> rj_source j = ''dice'' \<and> rj_external_id j = i"
proof (induction ds)
  case (Cons d ds)
  then show ?case using job_from_mapping_outcome[of d]
    by (auto simp: align_identity_fields dice_listing_wf_def split: if_splits sum.splits option.splits)
qed simp

interpretation dice_pages: paged_source dj_external_id "dice_page client accepts t" 1 for client accepts t
  by unfold_locales (auto simp: dice_page_def dest!: simple_get_cost split: prod.splits sum.splits)

interpretation dice_items: detail_source "''dice''" "dice_detail client accepts" dice_parse_detail "\<lambda>j. True" for client accepts
  by unfold_locales (auto simp: dice_parse_detail_def dice_detail_def dest: first_posting_sound simple_get_cost)

lemma dice_discover_sound:
  assumes "dice_discover client accepts t = Inr cs" "1 \<le> tg_max_jobs t"
  shows "tg_source t = DICE \<and> int (length cs) \<le> tg_max_jobs t \<and> distinct (map dj_external_id cs) \<and>
    (\<forall>c \<in> set cs. dice_candidate c)"
proof -
  obtain n where l: "discover_loop dj_external_id (tg_max_jobs t) (Some 20) (dice_page client accepts t) [1..<6] [] 0 = (None, cs, n)"
    and src: "tg_source t = DICE"
    using assms(1) by (auto simp: dice_discover_def split: if_splits option.splits prod.splits)
  have "dice_candidate c" if "listed (dice_page client accepts t) ps c" for ps c
    using that dice_search_page_sound dice_page_body unfolding listed_def by blast
  then show ?thesis using dice_pages.discovery[OF l] assms(2) src by auto
qed

interpretation dice: source_adapter DICE "dice_discover client accepts" "dice_details client accepts" trimmed for client accepts
proof unfold_locales
  fix t cs raws
  show "dice_discover client accepts t = Inr cs \<Longrightarrow> 1 \<le> tg_max_jobs t \<Longrightarrow> tg_source t = DICE \<and>
      int (length cs) \<le> tg_max_jobs t \<and> distinct (map dj_external_id cs) \<and> (\<forall>c \<in> set cs. trimmed (dj_external_id c))"
    using dice_discover_sound by (fastforce simp: dice_candidate_def)
  show "dice_details client accepts t cs = Inr raws \<Longrightarrow> subseq (map rj_external_id raws) (map dj_external_id cs) \<and>
      (\<forall>j \<in> set raws. rj_source j = source_str DICE)"
    using dice_items.details[of client accepts cs 0]
    by (cases "fetch_each (dice_detail client accepts) dice_parse_detail cs 0")
       (auto simp: dice_details_def split: if_splits)
qed

section \<open>Properties\<close>

text \<open>A Dice discovery yields at most the requested number of candidates, without
  duplicates and all from pages it was given, with trimmed identifiers and titles; it fails
  only with the failure of a page. The details fetched keep order and identity of the
  candidates passed in, even where a page names another identifier.\<close>

theorem dice_stages_sound:
  assumes "1 \<le> tg_max_jobs t"
  shows "(case dice_discover client accepts t of
      Inl e \<Rightarrow> tg_source t \<noteq> DICE \<or> (\<exists>pe. e = page_failure pe \<and> failed_page (dice_page client accepts t) [1..<6] pe)
    | Inr cs \<Rightarrow> int (length cs) \<le> tg_max_jobs t \<and> distinct (map dj_external_id cs) \<and>
        (\<forall>c \<in> set cs. dice_candidate c \<and> listed (dice_page client accepts t) [1..<6] c)) \<and>
    (case dice_details client accepts t wanted of
      Inl _ \<Rightarrow> True
    | Inr raws \<Rightarrow> subseq (map rj_external_id raws) (map dj_external_id wanted) \<and> (\<forall>j \<in> set raws. rj_source j = ''dice''))"
proof (rule conjI)
  obtain e cs n where l: "discover_loop dj_external_id (tg_max_jobs t) (Some 20) (dice_page client accepts t) [1..<6] [] 0 = (e, cs, n)"
    by (metis prod.exhaust)
  note loop = dice_pages.discovery[OF l]
  show "case dice_discover client accepts t of
      Inl e \<Rightarrow> tg_source t \<noteq> DICE \<or> (\<exists>pe. e = page_failure pe \<and> failed_page (dice_page client accepts t) [1..<6] pe)
    | Inr cs \<Rightarrow> int (length cs) \<le> tg_max_jobs t \<and> distinct (map dj_external_id cs) \<and>
        (\<forall>c \<in> set cs. dice_candidate c \<and> listed (dice_page client accepts t) [1..<6] c)"
  proof (cases "dice_discover client accepts t")
    case (Inl err)
    then show ?thesis using loop l assms by (auto simp: dice_discover_def split: if_splits option.splits)
  next
    case (Inr found)
    then have "found = cs" using l by (auto simp: dice_discover_def split: if_splits option.splits)
    then show ?thesis using dice_discover_sound[OF Inr assms] loop Inr assms by auto
  qed
  show "case dice_details client accepts t wanted of Inl _ \<Rightarrow> True
    | Inr raws \<Rightarrow> subseq (map rj_external_id raws) (map dj_external_id wanted) \<and> (\<forall>j \<in> set raws. rj_source j = ''dice'')"
    using dice.details[of client accepts t wanted] by (cases "dice_details client accepts t wanted") auto
qed

definition blocked_client :: http_client where
  "blocked_client n url = Replied \<lparr>hr_status = 429, hr_retry_after = Some ''90'', hr_text = []\<rparr>"

lemma blocked_discovery: "dice_discover blocked_client (\<lambda>s. s = 200) (sample_target DICE ''qa'') = Inl (TemporaryError 90)"
  by code_simp

theorem dice_stages_sound_witness:
  "\<exists>pe. TemporaryError 90 = page_failure pe \<and>
     failed_page (dice_page blocked_client (\<lambda>s. s = 200) (sample_target DICE ''qa'')) [1..<6] pe"
proof -
  have "1 \<le> tg_max_jobs (sample_target DICE ''qa'')" "tg_source (sample_target DICE ''qa'') = DICE" by code_simp+
  then show ?thesis
    using dice_stages_sound[where t = "sample_target DICE ''qa''" and client = blocked_client and accepts = "\<lambda>s. s = 200"]
    unfolding blocked_discovery by simp
qed

text \<open>C30: every mapping of a JSON script is a dictionary without repeated keys, and turning it
  into a listing has one of these outcomes: a listing with trimmed identity and title,
  times in UTC within the calendar, skills without repetition and the mapping as raw data;
  nothing, because title or identifier is missing; or an exception, which is one of three: a
  Boolean among the salary figures, a timestamp that leaves the calendar in UTC, or a link that
  does not parse.\<close>

theorem dice_listings_well_typed:
  assumes "d \<in> set (script_mappings r body)"
  shows "dict_wf d \<and> (case job_from_mapping d of
     Inl e \<Rightarrow> e = OtherError ''InvalidOperation'' \<and> boolean_salary d \<or> e = OtherError ''OverflowError'' \<and> outside_calendar d \<or>
       e = OtherError ''ValueError'' \<and> (\<exists>u. dice_url d = Some u \<and> urlsplit u = None)
   | Inr None \<Rightarrow> dice_title d = None \<or> dice_external_id d (dice_url d) = None
   | Inr (Some j) \<Rightarrow> dice_listing_wf d j)"
  using script_mappings_wf[OF assms] job_from_mapping_outcome[of d] by blast

definition boolean_salary_page :: string where
  "boolean_salary_page = (let q = (\<lambda>s. [CHR 0x22] @ s @ [CHR 0x22]) in
     ''<script type='' @ q ''application/json'' @ ''>{'' @ q ''name'' @ '':'' @ q ''A'' @ '','' @ q ''id'' @ '':1,'' @
     q ''baseSalary'' @ '':{'' @ q ''value'' @ '':true}}</script>'')"

definition boolean_salary_mapping :: mapping where
  "boolean_salary_mapping = [(''name'', VStr ''A''), (''id'', VInt 1), (''baseSalary'', VDict [(''value'', VBool True)])]"

lemma boolean_salary_script: "boolean_salary_mapping \<in> set (script_mappings any_json_rx boolean_salary_page)"
  by code_simp

lemma boolean_salary_raises: "job_from_mapping boolean_salary_mapping = Inl (OtherError ''InvalidOperation'')"
  by code_simp

theorem dice_listings_well_typed_witness: "dict_wf boolean_salary_mapping \<and> boolean_salary boolean_salary_mapping"
  using dice_listings_well_typed[OF boolean_salary_script] unfolding boolean_salary_raises by simp

end
