(* ===== verification/HiringCafe.thy ===== *)
theory HiringCafe
  imports Adapters PyDate
begin

text \<open>
  The HiringCafe adapter (\<open>src/app/jobs/sources/hiringcafe/collector.py\<close>). What the browser
  answers for a search URL is a parameter. Every exception but a block is swallowed: a hit that
  raises is left out, and a page that cannot be read gives what was collected before. The
  fields of a hit are not checked by the adapter; a listing with an identifier, title, company,
  location or link of another type than text raises in \<open>normalize_job\<close>, so it is represented by
  \<open>unreadable_listing\<close>, which no run can normalise either.
\<close>

section \<open>The browser\<close>

text \<open>\<open>Visited status body data\<close>: the status of the navigation, if there was a response, the
  text of the page, and the embedded data; \<open>None\<close> for what raised.\<close>

datatype page_visit = LaunchFailed string | NavigationFailed | Visited "int option" "string option" "string option"

definition cafe_url :: "target \<Rightarrow> string" where
  "cafe_url t = ''https://hiringcafe.com/search?q='' @ quote_plus (tg_query t) @ ''&l='' @
     quote_plus (case tg_location t of None \<Rightarrow> ''United States'' | Some l \<Rightarrow> if l = [] then ''United States'' else l)"

section \<open>One hit\<close>

text \<open>\<open>mapping.get(key, {})\<close> followed by a method of dictionaries.\<close>

definition sub_mapping :: "(string \<times> jval) list \<Rightarrow> string \<Rightarrow> (string \<times> jval) list option" where
  "sub_mapping d k = (case dget d k of None \<Rightarrow> Some [] | Some (VDict m) \<Rightarrow> Some m | Some _ \<Rightarrow> None)"

text \<open>The employment type: \<open>None\<close> is the exception of a first commitment that is no text.\<close>

definition hit_employment :: "(string \<times> jval) list \<Rightarrow> string option option" where
  "hit_employment v5 = (case jget v5 ''commitment'' of
      VList (VStr s # _) \<Rightarrow> Some (if strip s = [] then None else Some s)
    | VList (v # _) \<Rightarrow> if truthy_val v then None else Some None
    | _ \<Rightarrow> Some None)"

definition all_texts :: "jval list \<Rightarrow> string list option" where
  "all_texts vs = those (map (\<lambda>v. case v of VStr s \<Rightarrow> Some s | _ \<Rightarrow> None) vs)"

definition newline :: string where "newline = [CHR 0x0A]"

text \<open>The description: \<open>None\<close> is the \<open>TypeError\<close> of an activity that is no text.\<close>

definition hit_description :: "(string \<times> jval) list \<Rightarrow> string option option" where
  "hit_description v5 = (let reqs = jget v5 ''requirements_summary'';
       first = (if truthy_val reqs then [''Requirements:'' @ newline @ py_str reqs] else [])
     in (case jget v5 ''role_activities'' of
           VList (r # rs) \<Rightarrow> map_option (\<lambda>ts. Some (join (newline @ newline)
             (first @ [''Activities:'' @ newline @ ''- '' @ join (newline @ ''- '') ts]))) (all_texts (r # rs))
         | _ \<Rightarrow> Some (case first of [] \<Rightarrow> None | d # _ \<Rightarrow> Some d)))"

text \<open>\<open>[str(t) for t in (tools or []) if t]\<close>: a text is run through by characters, a mapping by keys.\<close>

definition hit_tools :: "(string \<times> jval) list \<Rightarrow> string list option" where
  "hit_tools v5 = (case jget v5 ''technical_tools'' of
      VList ts \<Rightarrow> Some (map py_str (filter truthy_val ts))
    | VStr s \<Rightarrow> Some (map (\<lambda>c. [c]) s)
    | VDict m \<Rightarrow> Some (filter (\<lambda>k. k \<noteq> []) (map fst m))
    | v \<Rightarrow> if truthy_val v then None else Some [])"

text \<open>\<open>datetime.fromtimestamp(ms / 1000.0, UTC)\<close>: the quotient and the scaled fraction are rounded
  to binary64, then to microseconds. The outer \<open>None\<close> is an exception.\<close>

definition instant_of_millis :: "bool \<Rightarrow> rat \<Rightarrow> int option" where
  "instant_of_millis neg ms = Option.bind (read_magnitude ms) (\<lambda>m. Option.bind (read_magnitude (m / 1000)) (\<lambda>secs.
     Option.bind (read_magnitude ((secs - of_int \<lfloor>secs\<rfloor>) * 1000000)) (\<lambda>frac.
       let us = \<lfloor>secs\<rfloor> * 1000000 + round_half_even frac; t = (if neg then - us else us)
       in if in_calendar t then Some t else None)))"

definition hit_posted :: "(string \<times> jval) list \<Rightarrow> py_datetime option option" where
  "hit_posted v5 = (let v = jget v5 ''estimated_publish_date_millis'' in
     if \<not> truthy_val v then Some None
     else map_option (\<lambda>t. Some (Aware t 0)) (case v of
         VInt i \<Rightarrow> instant_of_millis (i < 0) (of_int \<bar>i\<bar>)
       | VFloat (Finite neg x) \<Rightarrow> instant_of_millis neg x
       | VBool b \<Rightarrow> instant_of_millis False 1
       | _ \<Rightarrow> None))"

definition unreadable_listing :: raw_job where
  "unreadable_listing = bare_job ''hiringcafe'' [] []"

text \<open>A field \<open>normalize_job\<close> takes as text or as absent.\<close>

definition optional_text :: "jval \<Rightarrow> string option option" where
  "optional_text v = (case v of VStr s \<Rightarrow> Some (Some s) | _ \<Rightarrow> if truthy_val v then None else Some None)"

definition hit_job :: "jval \<Rightarrow> raw_job option" where
  "hit_job hit = (case hit of
      VDict h \<Rightarrow> (case (sub_mapping h ''job_information'', sub_mapping h ''v5_processed_job_data'') of
          (Some info, Some v5) \<Rightarrow> (let i = jget h ''id'' in
            if \<not> truthy_val i then None
            else (case (hit_employment v5, hit_description v5, hit_tools v5, hit_posted v5) of
                (Some emp, Some desc, Some tools, Some posted) \<Rightarrow> (let
                    title = val_or (val_or (jget info ''title'') (jget v5 ''core_job_title'')) (VStr ''Unknown Title'');
                    loc = jget v5 ''formatted_workplace_location'';
                    url = val_or (jget h ''apply_url'') (VStr (''https://hiringcafe.com/job/'' @ py_str i));
                    texts = py_str title @ newline @ opt_text desc;
                    remote_type = normalize_remote_type (py_str (val_or loc (VStr [])) @ newline @ texts) None
                  in Some (case (i, title, url, optional_text (jget v5 ''company_name''), optional_text loc) of
                      (VStr i', VStr title', VStr url', Some company, Some loc') \<Rightarrow>
                        with_salary (Option.bind desc parse_salary) (with_experience (extract_experience texts)
                          ((bare_job ''hiringcafe'' i' title')\<lparr>rj_company := company, rj_location := loc', rj_url := Some url',
                             rj_description := desc,
                             rj_employment_type := (case (emp, desc) of
                                 (Some e, _) \<Rightarrow> Some e
                               | (None, Some d) \<Rightarrow> map_option employment_str (normalize_employment_type d)
                               | _ \<Rightarrow> None),
                             rj_remote := remote_of remote_type, rj_remote_type := remote_type, rj_posted_at := posted,
                             rj_skills := uniq (tools @ extract_skills_from_text texts),
                             rj_raw_data := [(''next_data'', to_json hit)]\<rparr>))
                    | _ \<Rightarrow> unreadable_listing))
              | _ \<Rightarrow> None))
        | _ \<Rightarrow> None)
    | _ \<Rightarrow> None)"

section \<open>The collector\<close>

fun take_hits :: "int \<Rightarrow> jval list \<Rightarrow> raw_job list \<Rightarrow> raw_job list" where
  "take_hits limit [] got = got"
| "take_hits limit (h # hs) got = (if int (length got) \<ge> limit then got
     else (case hit_job h of None \<Rightarrow> take_hits limit hs got | Some j \<Rightarrow> take_hits limit hs (got @ [j])))"

text \<open>\<open>data.get("props", {}).get("pageProps", {}).get("ssrHits", [])\<close>; what is no list has no hit
  that is a mapping, or raises.\<close>

definition ssr_hits :: "jval \<Rightarrow> jval list" where
  "ssr_hits v = (case v of
      VDict d \<Rightarrow> (case Option.bind (sub_mapping d ''props'') (\<lambda>p. sub_mapping p ''pageProps'') of
          Some m \<Rightarrow> (case jget m ''ssrHits'' of VList hs \<Rightarrow> hs | _ \<Rightarrow> [])
        | None \<Rightarrow> [])
    | _ \<Rightarrow> [])"

definition hiringcafe_collect :: "(string \<Rightarrow> page_visit) \<Rightarrow> target \<Rightarrow> collect_error + raw_job list" where
  "hiringcafe_collect browse t = (case browse (cafe_url t) of
      LaunchFailed e \<Rightarrow> Inl (OtherError e)
    | NavigationFailed \<Rightarrow> Inr []
    | Visited status body data \<Rightarrow>
        if status = Some 403 then Inl (TemporaryError default_retry)
        else (case body of
            None \<Rightarrow> Inr []
          | Some page \<Rightarrow>
              if contains_sub ''Performance and Security by Cloudflare'' page then Inl (TemporaryError default_retry)
              else (case data of
                  None \<Rightarrow> Inr []
                | Some s \<Rightarrow> Inr (if s = [] then [] else (case json_loads s of
                      None \<Rightarrow> []
                    | Some v \<Rightarrow> take_hits (tg_max_jobs t) (ssr_hits v) [])))))"

definition hiringcafe_collector :: "(string \<Rightarrow> page_visit) \<Rightarrow> collector" where
  "hiringcafe_collector browse = OneStage (hiringcafe_collect browse)"

section \<open>Lemmas\<close>

definition cafe_listing :: "jval \<Rightarrow> raw_job \<Rightarrow> bool" where
  "cafe_listing hit j \<longleftrightarrow> j = unreadable_listing \<or>
     (\<exists>h. hit = VDict h \<and> jget h ''id'' = VStr (rj_external_id j) \<and> rj_external_id j \<noteq> [] \<and> rj_title j \<noteq> [] \<and>
        rj_source j = ''hiringcafe'' \<and> distinct (rj_skills j) \<and> rj_raw_data j = [(''next_data'', to_json hit)] \<and>
        (case rj_posted_at j of None \<Rightarrow> True | Some (Aware t z) \<Rightarrow> z = 0 \<and> in_calendar t | Some (Naive _) \<Rightarrow> False))"

lemma hit_posted_range:
  "hit_posted v5 = Some p \<Longrightarrow> (case p of None \<Rightarrow> True | Some (Aware t z) \<Rightarrow> z = 0 \<and> in_calendar t | Some (Naive _) \<Rightarrow> False)"
  by (auto simp: hit_posted_def instant_of_millis_def Let_def bind_eq_Some_conv split: if_splits jval.splits pyfloat.splits)

lemma val_or_ne: "val_or a (VStr d) = VStr x \<Longrightarrow> d \<noteq> [] \<Longrightarrow> x \<noteq> []"
  by (auto simp: val_or_def split: if_splits)

lemma hit_job_sound:
  assumes "hit_job hit = Some j"
  shows "cafe_listing hit j"
proof -
  obtain h info v5 where h: "hit = VDict h" "sub_mapping h ''job_information'' = Some info" "sub_mapping h ''v5_processed_job_data'' = Some v5"
    "truthy_val (jget h ''id'')"
    using assms by (auto simp: hit_job_def Let_def split: jval.splits option.splits if_splits)
  obtain emp desc tools posted where p: "hit_employment v5 = Some emp" "hit_description v5 = Some desc" "hit_tools v5 = Some tools"
    "hit_posted v5 = Some posted"
    using assms h by (auto simp: hit_job_def Let_def split: option.splits)
  show ?thesis
    using assms h p hit_posted_range[OF p(4)]
      val_or_ne[of "val_or (jget info ''title'') (jget v5 ''core_job_title'')" "''Unknown Title''"]
    by (auto simp: hit_job_def Let_def cafe_listing_def with_salary_def with_experience_def bare_job_def
        split: jval.splits option.splits)
qed

lemma take_hits_take: "0 \<le> limit \<Longrightarrow> int (length got) \<le> limit \<Longrightarrow>
    take_hits limit hs got = got @ take (nat limit - length got) (List.map_filter hit_job hs)"
proof (induction limit hs got rule: take_hits.induct)
  case (2 limit h hs got)
  show ?case
  proof (cases "int (length got) \<ge> limit")
    case True
    then show ?thesis using 2 by auto
  next
    case False
    then have "nat limit - length got = Suc (nat limit - Suc (length got))" by simp
    then show ?thesis using 2 False by (cases "hit_job h") (auto simp: List.map_filter_simps)
  qed
qed (simp add: List.map_filter_simps)

lemma hiringcafe_collect_jobs:
  assumes "hiringcafe_collect browse t = Inr raws" "0 \<le> tg_max_jobs t"
  shows "\<exists>hits. raws = take (nat (tg_max_jobs t)) (List.map_filter hit_job hits)"
proof -
  have "raws = [] \<or> (\<exists>hits. raws = take_hits (tg_max_jobs t) hits [])"
    using assms(1) by (auto simp: hiringcafe_collect_def split: page_visit.splits option.splits if_splits)
  then show ?thesis
  proof (elim disjE exE)
    assume "raws = []"
    then show ?thesis by (intro exI[of _ "[]"]) (simp add: List.map_filter_simps)
  next
    fix hits assume "raws = take_hits (tg_max_jobs t) hits []"
    then show ?thesis using take_hits_take[OF assms(2), of "[]" hits] assms(2) by auto
  qed
qed

lemma map_filter_sound: "j \<in> set (List.map_filter hit_job hits) \<Longrightarrow> \<exists>hit \<in> set hits. cafe_listing hit j"
  using hit_job_sound by (fastforce simp: List.map_filter_def)

text \<open>No run can normalise what stands for an ill-typed listing.\<close>

lemma unreadable_listing_fails: "raw_key dg unreadable_listing = None"
proof -
  have "strip [] = []" by (simp add: strip_def lstrip_def rstrip_def)
  then show ?thesis by (simp add: raw_key_def normalize_job_def unreadable_listing_def)
qed

section \<open>Properties\<close>

text \<open>A HiringCafe run raises only when the browser cannot start or the site blocks it (status
  403 or the challenge text, retried after 30 seconds). Otherwise it returns the first listings
  the hits of the page give, at most as many as asked for, each either unreadable or with the
  identifier of its hit, UTC times within the calendar and skills without repetition.\<close>

theorem hiringcafe_collect_sound:
  assumes "1 \<le> tg_max_jobs t"
  shows "case hiringcafe_collect browse t of
      Inl e \<Rightarrow> browse (cafe_url t) = LaunchFailed (case e of OtherError m \<Rightarrow> m | _ \<Rightarrow> []) \<or>
        e = TemporaryError 30 \<and> (\<exists>status body data. browse (cafe_url t) = Visited status body data \<and>
          (status = Some 403 \<or> (\<exists>page. body = Some page \<and> contains_sub ''Performance and Security by Cloudflare'' page)))
    | Inr raws \<Rightarrow> int (length raws) \<le> tg_max_jobs t \<and>
        (\<exists>hits. raws = take (nat (tg_max_jobs t)) (List.map_filter hit_job hits)) \<and>
        (\<forall>j \<in> set raws. \<exists>hit. cafe_listing hit j)"
proof (cases "hiringcafe_collect browse t")
  case (Inl e)
  then show ?thesis
    by (auto simp: hiringcafe_collect_def default_retry_def split: page_visit.splits option.splits if_splits)
next
  case (Inr raws)
  obtain hits where hits: "raws = take (nat (tg_max_jobs t)) (List.map_filter hit_job hits)"
    using hiringcafe_collect_jobs[OF Inr] assms by auto
  have "\<exists>hit. cafe_listing hit j" if "j \<in> set raws" for j
    using map_filter_sound[of j hits] that unfolding hits by (meson in_set_takeD)
  moreover have "int (length raws) \<le> tg_max_jobs t" using hits assms by auto
  ultimately show ?thesis using Inr hits by auto
qed

definition forbidden_page :: "string \<Rightarrow> page_visit" where
  "forbidden_page url = Visited (Some 403) None None"

theorem hiringcafe_collect_sound_witness:
  "hiringcafe_collect forbidden_page (sample_target HIRINGCAFE ''qa'') = Inl (TemporaryError 30) \<and>
   (\<exists>status body data. forbidden_page (cafe_url (sample_target HIRINGCAFE ''qa'')) = Visited status body data \<and>
      (status = Some 403 \<or> (\<exists>page. body = Some page \<and> contains_sub ''Performance and Security by Cloudflare'' page)))"
proof -
  have m: "1 \<le> tg_max_jobs (sample_target HIRINGCAFE ''qa'')" by code_simp
  have r: "hiringcafe_collect forbidden_page (sample_target HIRINGCAFE ''qa'') = Inl (TemporaryError 30)"
    by (simp add: hiringcafe_collect_def forbidden_page_def default_retry_def)
  show ?thesis using hiringcafe_collect_sound[OF m, of forbidden_page] r by (auto simp: forbidden_page_def)
qed

end
