(* ===== verification/Collectors.thy ===== *)
theory Collectors
  imports LinkedIn Glassdoor Dice HiringCafe
begin

text \<open>
  The registry the worker builds (\<open>build_collector_registry\<close> of
  \<open>src/app/jobs/sources/registry.py\<close>) with the four adapters, and what the queued task does
  to the tables with it, whatever the sites answer; and how many answers a run can depend on
  (clients that \<open>agree\<close> that far give the same run).
\<close>

text \<open>What the adapters talk to: an HTTP client per source with the statuses its
  \<open>raise_for_status\<close> accepts, the browser, the clock reading and the cache of the Glassdoor
  collector, which lives as long as the worker.\<close>

record outside_world =
  ow_client :: "job_source \<Rightarrow> http_client"
  ow_accepts :: "int \<Rightarrow> bool"
  ow_browse :: "string \<Rightarrow> page_visit"
  ow_now :: int
  ow_cache :: "(string, raw_job) dict"

definition worker_registry :: "outside_world \<Rightarrow> registry option" where
  "worker_registry w = build_registry (dice_collector (ow_client w DICE) (ow_accepts w))
     (linkedin_collector (ow_client w LINKEDIN) (ow_accepts w))
     (glassdoor_collector (ow_client w GLASSDOOR) (ow_accepts w) (ow_now w) (ow_cache w))
     (hiringcafe_collector (ow_browse w))"

fun worker_collector :: "outside_world \<Rightarrow> job_source \<Rightarrow> collector" where
  "worker_collector w DICE = dice_collector (ow_client w DICE) (ow_accepts w)"
| "worker_collector w LINKEDIN = linkedin_collector (ow_client w LINKEDIN) (ow_accepts w)"
| "worker_collector w GLASSDOOR = glassdoor_collector (ow_client w GLASSDOOR) (ow_accepts w) (ow_now w) (ow_cache w)"
| "worker_collector w HIRINGCAFE = hiringcafe_collector (ow_browse w)"

lemma worker_registry_resolves: "\<exists>reg. worker_registry w = Some reg \<and> (\<forall>s. dget reg s = Some (worker_collector w s))"
proof (intro exI conjI allI)
  show "worker_registry w = Some [(DICE, worker_collector w DICE), (LINKEDIN, worker_collector w LINKEDIN),
      (GLASSDOOR, worker_collector w GLASSDOOR), (HIRINGCAFE, worker_collector w HIRINGCAFE)]"
    by (simp add: worker_registry_def build_registry_def register_collector_def dget_def)
  show "dget [(DICE, worker_collector w DICE), (LINKEDIN, worker_collector w LINKEDIN),
      (GLASSDOOR, worker_collector w GLASSDOOR), (HIRINGCAFE, worker_collector w HIRINGCAFE)] s = Some (worker_collector w s)" for s
    by (cases s) (simp_all add: dget_def)
qed

section \<open>Identities a run may add\<close>

definition own_identity :: "job_source \<Rightarrow> string \<times> string \<Rightarrow> bool" where
  "own_identity s k \<longleftrightarrow> fst k = source_str s \<and> (s = LINKEDIN \<or> s = GLASSDOOR \<longrightarrow> digits_id (snd k))"

definition adds_only :: "job_source \<Rightarrow> job_tables \<Rightarrow> job_tables \<Rightarrow> bool" where
  "adds_only s w w' \<longleftrightarrow> (case (w, w') of ((g, d), (g', d')) \<Rightarrow> global_wf g' \<and> db_wf d' \<and>
     (\<forall>k \<in> (global_keys g' - global_keys g) \<union> (canonical_keys d' - canonical_keys d). own_identity s k))"

lemma digits_id_strip: "digits_id i \<Longrightarrow> strip i = i"
  by (rule strip_fixed) (auto simp: digits_id_def list_all_iff dest: digit_no_space)

lemma cafe_run_adds_only:
  assumes "global_wf g" "db_wf d" "1 \<le> tg_max_jobs t"
    and "run_collector dg now (OneStage (hiringcafe_collect browse)) t (g, d) = Inr (res, (g', d'))"
  shows "adds_only HIRINGCAFE (g, d) (g', d') \<and> int (cr_discovered res) \<le> tg_max_jobs t"
proof -
  obtain raws where raws: "hiringcafe_collect browse t = Inr raws" and p: "persist_raw_jobs dg now t raws (g, d) = (res, (g', d'))"
    using assms(4) by (auto simp: run_collector_def split: sum.splits)
  obtain hits where hits: "raws = take (nat (tg_max_jobs t)) (List.map_filter hit_job hits)"
    using hiringcafe_collect_jobs[OF raws] assms(3) by auto
  have own: "own_identity HIRINGCAFE k" if k: "Some k \<in> raw_key dg ` set raws" for k
  proof -
    obtain raw where raw: "raw \<in> set raws" "raw_key dg raw = Some k" using k by auto
    then obtain hit where "cafe_listing hit raw" using map_filter_sound unfolding hits by (meson in_set_takeD)
    then have "rj_source raw = ''hiringcafe''" by (auto simp: cafe_listing_def unreadable_listing_def)
    moreover have "fst k = lower (strip (rj_source raw))" using raw(2)
      by (auto simp: raw_key_def job_key_def normalize_job_def Let_def split: sum.splits if_splits option.splits prod.splits)
    ultimately show ?thesis using source_text[of HIRINGCAFE] by (simp add: own_identity_def)
  qed
  have "cr_discovered res = length raws" using p by (auto simp: persist_raw_jobs_def split: prod.splits)
  then show ?thesis using persist_raw_jobs_persisted[OF assms(1,2), of dg raws now t] own hits assms(3)
    unfolding p by (auto simp: persisted_def adds_only_def)
qed

lemma worker_run_adds_only:
  assumes "global_wf g" "db_wf d" "1 \<le> tg_max_jobs t" "cache_ok (ow_cache w)"
    and run: "run_collector dg now (worker_collector w (tg_source t)) t (g, d) = Inr (res, (g', d'))"
  shows "adds_only (tg_source t) (g, d) (g', d') \<and> int (cr_discovered res) \<le> tg_max_jobs t"
proof (cases "tg_source t")
  case DICE
  then show ?thesis using dice.run_adds_only[OF assms(1-3) run[unfolded DICE worker_collector.simps dice_collector_def]]
    by (fastforce simp: adds_only_def own_identity_def)
next
  case LINKEDIN
  then show ?thesis using linkedin.run_adds_only[OF assms(1-3) run[unfolded LINKEDIN worker_collector.simps linkedin_collector_def]]
    by (fastforce simp: adds_only_def own_identity_def digits_id_strip)
next
  case GLASSDOOR
  then show ?thesis
    using glassdoor_instance.run_adds_only[OF glassdoor_instance.intro[OF assms(4)] assms(1-3)
        run[unfolded GLASSDOOR worker_collector.simps glassdoor_collector_def]]
    by (fastforce simp: adds_only_def own_identity_def digits_id_strip)
next
  case HIRINGCAFE
  then show ?thesis using cafe_run_adds_only[OF assms(1-3) run[unfolded HIRINGCAFE worker_collector.simps hiringcafe_collector_def]] by simp
qed

lemma adds_only_refl: "\<lbrakk>global_wf g; db_wf d\<rbrakk> \<Longrightarrow> adds_only s (g, d) (g, d)"
  by (simp add: adds_only_def)

section \<open>Properties\<close>

text \<open>C29: a collection task of the worker, with its own registry and whatever the sites, the
  browser and Redis answer, keeps both job tables well formed and adds only identities of the
  source it was asked for, with numeric identifiers for LinkedIn and Glassdoor; it reports no
  more discovered listings than the target may have, and the source is never unavailable.\<close>

theorem worker_task_adds_only_own:
  assumes "global_wf g" "db_wf d" "cache_ok (ow_cache w)" "worker_registry w = Some reg"
    and run: "run_job_collection dg reg locks token ok now later (Some s) query location max_jobs (r, (g, d)) = (out, (r', tabs'))"
  shows "adds_only s (g, d) tabs' \<and>
    (\<forall>res. out = Finished res \<longrightarrow> tr_status res \<noteq> StatusUnavailable \<and> int (cr_discovered (tr_counts res)) \<le> max 0 max_jobs)"
proof -
  have reg: "dget reg src = Some (worker_collector w src)" for src
    using worker_registry_resolves[of w] assms(4) by auto
  show ?thesis
  proof (cases "make_target s query location True max_jobs")
    case None
    then show ?thesis using run adds_only_refl[OF assms(1,2)]
      by (auto simp: run_job_collection_def zero_result_def)
  next
    case (Some t)
    have t: "tg_source t = s" "tg_max_jobs t = max_jobs" "1 \<le> tg_max_jobs t"
      using Some by (auto simp: make_target_def split: if_splits option.splits)
    show ?thesis
    proof (cases "run_collector dg (now * 1000) (worker_collector w s) t (g, d)")
      case (Inl e)
      then show ?thesis using run Some reg t adds_only_refl[OF assms(1,2)]
        by (cases e) (auto simp: run_job_collection_def resolve_collector_def Let_def zero_result_def split: option.splits prod.splits)
    next
      case (Inr p)
      obtain res g' d' where p: "p = (res, (g', d'))" by (metis prod.exhaust)
      have "adds_only s (g, d) (g', d') \<and> int (cr_discovered res) \<le> max_jobs"
        using worker_run_adds_only[OF assms(1,2) t(3) assms(3)] Inr t p by auto
      then show ?thesis using run Some reg t Inr p adds_only_refl[OF assms(1,2)]
        by (auto simp: run_job_collection_def resolve_collector_def Let_def zero_result_def split: option.splits prod.splits if_splits)
    qed
  qed
qed

definition silent_world :: outside_world where
  "silent_world = \<lparr>ow_client = (\<lambda>s n url. TimedOut), ow_accepts = (\<lambda>s. s = 200), ow_browse = (\<lambda>url. NavigationFailed),
     ow_now = 0, ow_cache = []\<rparr>"

theorem worker_task_adds_only_own_witness:
  "\<exists>reg. worker_registry silent_world = Some reg \<and>
     adds_only HIRINGCAFE (empty_global, empty_db) (snd (snd (run_job_collection sample_digests reg sample_locks ''tok'' True 0 1000
       (Some HIRINGCAFE) ''qa'' None 100 ([], (empty_global, empty_db)))))"
proof -
  obtain reg where reg: "worker_registry silent_world = Some reg" using worker_registry_resolves by blast
  obtain out r' tabs' where run: "run_job_collection sample_digests reg sample_locks ''tok'' True 0 1000
       (Some HIRINGCAFE) ''qa'' None 100 ([], (empty_global, empty_db)) = (out, (r', tabs'))"
    by (metis prod.exhaust)
  have "cache_ok (ow_cache silent_world)" by (simp add: silent_world_def cache_ok_empty)
  from worker_task_adds_only_own[OF empty_global_wf empty_db_wf this reg run] show ?thesis using reg run by auto
qed

section \<open>What a run can have read\<close>

text \<open>Two clients that give the same answers to the first \<open>k\<close> requests. A stage that ends alike with
  any two such clients makes at most \<open>k\<close> requests.\<close>

definition agree :: "nat \<Rightarrow> http_client \<Rightarrow> http_client \<Rightarrow> bool" where
  "agree k client client' \<longleftrightarrow> (\<forall>n < k. client n = client' n)"

lemma agree_get: "agree k client client' \<Longrightarrow> n < k \<Longrightarrow> simple_get client check n url = simple_get client' check n url"
  by (simp add: agree_def simple_get_def)

lemma agree_attempts: "agree k client client' \<Longrightarrow> n + m \<le> k \<Longrightarrow>
    page_attempts client check url m e n = page_attempts client' check url m e n"
  by (induction m arbitrary: e n) (auto simp: agree_def split: http_answer.splits option.splits page_error.splits)

lemma discover_loop_agree:
  assumes "\<And>p n r n'. fetch p n = (r, n') \<Longrightarrow> n' \<le> n + cost"
    and "\<And>p n. n + cost \<le> k \<Longrightarrow> fetch p n = fetch' p n"
    and "n + cost * length ps \<le> k"
  shows "discover_loop key limit short fetch ps c n = discover_loop key limit short fetch' ps c n"
  using assms(3)
proof (induction ps arbitrary: c n)
  case (Cons p ps)
  obtain r m where f: "fetch p n = (r, m)" by (cases "fetch p n")
  then have f': "fetch' p n = (r, m)" using assms(2)[of n p] Cons.prems by simp
  have "m + cost * length ps \<le> k" using assms(1)[OF f] Cons.prems by simp
  then show ?case using Cons.IH[of m] f f' by (cases r) (simp_all add: Let_def)
qed simp

lemma fetch_each_agree:
  assumes "\<And>c n r n'. fetch c n = (r, n') \<Longrightarrow> n' = n + 1"
    and "\<And>c n. n < k \<Longrightarrow> fetch c n = fetch' c n" and "n + length cs \<le> k"
  shows "fetch_each fetch parse cs n = fetch_each fetch' parse cs n"
  using assms(3)
proof (induction cs arbitrary: n)
  case (Cons c cs)
  obtain r m where f: "fetch c n = (r, m)" by (cases "fetch c n")
  then have f': "fetch' c n = (r, m)" using assms(2)[of n c] Cons.prems by simp
  have "m + length cs \<le> k" using assms(1)[OF f] Cons.prems by simp
  note ih = Cons.IH[OF this]
  show ?case by (simp add: f f' ih split: sum.splits page_error.splits option.splits)
qed simp

lemma linkedin_discover_agree: "agree 5 client client' \<Longrightarrow> linkedin_discover client accepts t = linkedin_discover client' accepts t"
proof -
  assume a: "agree 5 client client'"
  have "discover_loop dj_external_id (tg_max_jobs t) (Some 25) (linkedin_page client accepts t) [0..<5] [] 0 =
      discover_loop dj_external_id (tg_max_jobs t) (Some 25) (linkedin_page client' accepts t) [0..<5] [] 0"
  proof (rule discover_loop_agree[where cost = 1 and k = 5])
    show "n' \<le> n + 1" if "linkedin_page client accepts t p n = (r, n')" for p n r n'
      using linkedin_pages.fetch_cost[OF that] by simp
  qed (simp_all add: linkedin_page_def agree_get[OF a])
  then show ?thesis by (simp add: linkedin_discover_def)
qed

lemma dice_discover_agree: "agree 5 client client' \<Longrightarrow> dice_discover client accepts t = dice_discover client' accepts t"
proof -
  assume a: "agree 5 client client'"
  have "discover_loop dj_external_id (tg_max_jobs t) (Some 20) (dice_page client accepts t) [1..<6] [] 0 =
      discover_loop dj_external_id (tg_max_jobs t) (Some 20) (dice_page client' accepts t) [1..<6] [] 0"
  proof (rule discover_loop_agree[where cost = 1 and k = 5])
    show "n' \<le> n + 1" if "dice_page client accepts t p n = (r, n')" for p n r n'
      using dice_pages.fetch_cost[OF that] by simp
  qed (simp_all add: dice_page_def agree_get[OF a])
  then show ?thesis by (simp add: dice_discover_def)
qed

lemma glassdoor_discover_agree:
  "agree 25 client client' \<Longrightarrow> glassdoor_discover client accepts now t cache = glassdoor_discover client' accepts now t cache"
proof -
  assume a: "agree 25 client client'"
  have "discover_loop (dj_external_id \<circ> fst) (tg_max_jobs t) None (glassdoor_page client accepts now t) [1..<6] [] 0 =
      discover_loop (dj_external_id \<circ> fst) (tg_max_jobs t) None (glassdoor_page client' accepts now t) [1..<6] [] 0"
  proof (rule discover_loop_agree[where cost = 5 and k = 25])
    show "n' \<le> n + 5" if "glassdoor_page client accepts now t p n = (r, n')" for p n r n'
      using glassdoor_pages.fetch_cost[OF that] by simp
  qed (simp_all add: glassdoor_page_def glassdoor_fetch_def agree_attempts[OF a])
  then show ?thesis by (simp add: glassdoor_discover_def)
qed

lemma linkedin_details_agree:
  "agree (length cs) client client' \<Longrightarrow> linkedin_details client accepts t cs = linkedin_details client' accepts t cs"
  unfolding linkedin_details_def
  by (subst fetch_each_agree[where k = "length cs" and fetch' = "linkedin_detail client' accepts"])
     (auto simp: linkedin_detail_def agree_get dest: simple_get_cost)

lemma dice_details_agree:
  "agree (length cs) client client' \<Longrightarrow> dice_details client accepts t cs = dice_details client' accepts t cs"
  unfolding dice_details_def
  by (subst fetch_each_agree[where k = "length cs" and fetch' = "dice_detail client' accepts"])
     (auto simp: dice_detail_def agree_get dest: simple_get_cost)

text \<open>A run is the same for two adapters whose stages answer alike on what they are given.\<close>

lemma run_collector_stages:
  assumes "discover t = discover' t"
    and "\<And>found cs. discover t = Inr found \<Longrightarrow> length cs \<le> length found \<Longrightarrow> fetch t cs = fetch' t cs"
  shows "run_collector dg now (TwoStage discover fetch) t w = run_collector dg now (TwoStage discover' fetch') t w"
proof (cases "discover t")
  case (Inr found)
  have "length (fold (\<lambda>c d. dset (dj_external_id c) c d) cs d) \<le> length d + length cs" for cs and d :: "(string, discovered_job) dict"
  proof (induction cs arbitrary: d)
    case (Cons c cs)
    have "length (dset (dj_external_id c) c d) \<le> Suc (length d)" by (induction d) (auto simp: dict_simps)
    then show ?case using Cons.IH[of "dset (dj_external_id c) c d"] by simp
  qed simp
  from this[of found "[]"] have "length (unique_candidates found) \<le> length found" by (simp add: unique_candidates_def)
  then have "fetch t (filter P (unique_candidates found)) = fetch' t (filter P (unique_candidates found))" for P
    by (intro assms(2)[OF Inr]) (meson length_filter_le order.trans)
  moreover have "discover' t = Inr found" using assms(1) Inr by simp
  ultimately show ?thesis unfolding run_collector_def collector.case Inr sum.case Let_def by simp
next
  case (Inl e)
  moreover have "discover' t = Inl e" using assms(1) Inl by simp
  ultimately show ?thesis by (simp add: run_collector_def)
qed

text \<open>C36: every adapter ends after a bounded number of requests, whatever it is answered. The
  discoveries of LinkedIn and Dice are the same with any two clients that give the same first
  five answers, Glassdoor's (five pages, each repeated up to five times) with the same first
  25; the detail stages of LinkedIn and Dice make at most one request per candidate, and
  HiringCafe visits one page. So a whole run of any of the four depends, per stage, on no more
  answers than 25 or the number of jobs the target may have.\<close>

theorem collection_requests_bounded:
  assumes "1 \<le> tg_max_jobs t"
  shows "(agree 5 client client' \<longrightarrow> linkedin_discover client accepts t = linkedin_discover client' accepts t \<and>
      dice_discover client accepts t = dice_discover client' accepts t) \<and>
    (agree 25 client client' \<longrightarrow> glassdoor_discover client accepts now t cache = glassdoor_discover client' accepts now t cache) \<and>
    (agree (length cs) client client' \<longrightarrow> linkedin_details client accepts t cs = linkedin_details client' accepts t cs \<and>
      dice_details client accepts t cs = dice_details client' accepts t cs) \<and>
    (browse (cafe_url t) = browse' (cafe_url t) \<longrightarrow> hiringcafe_collect browse t = hiringcafe_collect browse' t) \<and>
    (agree (max 25 (nat (tg_max_jobs t))) (ow_client w (tg_source t)) client' \<and> ow_browse w (cafe_url t) = browse' (cafe_url t) \<longrightarrow>
      run_collector dg now (worker_collector w (tg_source t)) t tabs =
      run_collector dg now (worker_collector (w\<lparr>ow_client := (ow_client w)(tg_source t := client'), ow_browse := browse'\<rparr>) (tg_source t)) t tabs)"
proof -
  let ?w' = "w\<lparr>ow_client := (ow_client w)(tg_source t := client'), ow_browse := browse'\<rparr>"
  have mono: "agree k a b \<Longrightarrow> n \<le> k \<Longrightarrow> agree n a b" for k n a b by (simp add: agree_def)
  have run: "run_collector dg now (worker_collector w (tg_source t)) t tabs = run_collector dg now (worker_collector ?w' (tg_source t)) t tabs"
    if a: "agree (max 25 (nat (tg_max_jobs t))) (ow_client w (tg_source t)) client'" and b: "ow_browse w (cafe_url t) = browse' (cafe_url t)"
  proof (cases "tg_source t")
    case DICE
    note d = dice_discover_agree[OF mono[OF a[unfolded DICE], of 5]]
    have "run_collector dg now (TwoStage (dice_discover (ow_client w DICE) (ow_accepts w)) (dice_details (ow_client w DICE) (ow_accepts w))) t tabs =
        run_collector dg now (TwoStage (dice_discover client' (ow_accepts w)) (dice_details client' (ow_accepts w))) t tabs"
    proof (rule run_collector_stages)
      show "dice_details (ow_client w DICE) (ow_accepts w) t cs = dice_details client' (ow_accepts w) t cs"
        if "dice_discover (ow_client w DICE) (ow_accepts w) t = Inr found" "length cs \<le> length found" for found cs
      proof -
        have "int (length found) \<le> tg_max_jobs t" using dice.discovers[OF that(1) assms] by blast
        then have "length cs \<le> max 25 (nat (tg_max_jobs t))" using that(2) by linarith
        then show ?thesis by (rule dice_details_agree[OF mono[OF a[unfolded DICE]]])
      qed
    qed (use d in simp)
    then show ?thesis using DICE by (simp add: dice_collector_def)
  next
    case LINKEDIN
    note d = linkedin_discover_agree[OF mono[OF a[unfolded LINKEDIN], of 5]]
    have "run_collector dg now (TwoStage (linkedin_discover (ow_client w LINKEDIN) (ow_accepts w)) (linkedin_details (ow_client w LINKEDIN) (ow_accepts w))) t tabs =
        run_collector dg now (TwoStage (linkedin_discover client' (ow_accepts w)) (linkedin_details client' (ow_accepts w))) t tabs"
    proof (rule run_collector_stages)
      show "linkedin_details (ow_client w LINKEDIN) (ow_accepts w) t cs = linkedin_details client' (ow_accepts w) t cs"
        if "linkedin_discover (ow_client w LINKEDIN) (ow_accepts w) t = Inr found" "length cs \<le> length found" for found cs
      proof -
        have "int (length found) \<le> tg_max_jobs t" using linkedin.discovers[OF that(1) assms] by blast
        then have "length cs \<le> max 25 (nat (tg_max_jobs t))" using that(2) by linarith
        then show ?thesis by (rule linkedin_details_agree[OF mono[OF a[unfolded LINKEDIN]]])
      qed
    qed (use d in simp)
    then show ?thesis using LINKEDIN by (simp add: linkedin_collector_def)
  next
    case GLASSDOOR
    then show ?thesis using glassdoor_discover_agree[OF mono[OF a, of 25]] by (simp add: glassdoor_collector_def run_collector_def)
  next
    case HIRINGCAFE
    then show ?thesis using b by (simp add: hiringcafe_collector_def run_collector_def hiringcafe_collect_def)
  qed
  show ?thesis
    using linkedin_discover_agree dice_discover_agree glassdoor_discover_agree linkedin_details_agree dice_details_agree run
    by (simp add: hiringcafe_collect_def)
qed

theorem collection_requests_bounded_witness:
  "dice_discover blocked_client (\<lambda>s. s = 200) (sample_target DICE ''qa'') =
   dice_discover (\<lambda>n. if n < 5 then blocked_client n else (\<lambda>_. TimedOut)) (\<lambda>s. s = 200) (sample_target DICE ''qa'')"
proof -
  have "tg_max_jobs (sample_target DICE ''qa'') = 500" by code_simp
  moreover have "agree 5 blocked_client (\<lambda>n. if n < 5 then blocked_client n else (\<lambda>_. TimedOut))" by (simp add: agree_def)
  ultimately show ?thesis using collection_requests_bounded[of "sample_target DICE ''qa''"] by simp
qed

end
