(* ===== verification/Admin.thy ===== *)
theory Admin
  imports Auth GlobalJobs ResumeModel Scheduler IpRules
begin

text \<open>
  The administrator console (\<open>src/app/repositories/admin.py\<close>,
  \<open>src/app/api/v1/routes/admin.py\<close>, \<open>src/app/schemas/admin.py\<close>): counts and pages over users
  and resumes, the read-only job views, and the availability report. An endpoint runs after
  the administrator check; a query parameter outside its bounds is a validation error. A
  \<open>HTTPException\<close> is \<open>Http\<close> with its status. The identifiers of rows are numbers, ordered as the
  UUIDs are.
\<close>

section \<open>\<open>AdminRepository\<close>\<close>

definition user_rows :: "profile list \<Rightarrow> string option \<Rightarrow> profile list" where
  "user_rows ps query = sort_key (\<lambda>p. (- pf_created_at p, pf_id p))
     (filter (\<lambda>p. truthy query \<longrightarrow> ilike (Some (pf_email p)) (contains_pattern query)) ps)"

definition users_page :: "profile list \<Rightarrow> string option \<Rightarrow> nat \<Rightarrow> nat \<Rightarrow> profile list \<times> nat" where
  "users_page ps query page page_size = (page_of page page_size (user_rows ps query), length (user_rows ps query))"

record user_counts =
  uc_total :: nat
  uc_admins :: nat
  uc_recent :: nat

definition count_users :: "profile list \<Rightarrow> int \<Rightarrow> user_counts" where
  "count_users ps now = \<lparr>uc_total = length ps, uc_admins = length (filter (\<lambda>p. pf_role p = ADMIN) ps),
     uc_recent = length (filter (\<lambda>p. now - 30 * day_us \<le> pf_created_at p) ps)\<rparr>"

record resume_counts =
  rc_total :: nat
  rc_active :: nat
  rc_owners :: nat
  rc_parsed :: nat

definition active_resume :: "resume \<Rightarrow> bool" where
  "active_resume r \<longleftrightarrow> re_status r \<noteq> DELETED"

definition count_resumes :: "resume_db \<Rightarrow> resume_counts" where
  "count_resumes d = \<lparr>rc_total = length (resumes d), rc_active = length (filter active_resume (resumes d)),
     rc_owners = card (re_owner ` set (filter active_resume (resumes d))), rc_parsed = length (profiles d)\<rparr>"

type_synonym resume_row = "resume \<times> profile \<times> candidate_profile option"

text \<open>The inner join with the owner and the outer join with the parsed profile.\<close>

definition joined_rows :: "profile list \<Rightarrow> resume_db \<Rightarrow> resume \<Rightarrow> resume_row list" where
  "joined_rows ps d r = concat (map (\<lambda>p.
     case filter (\<lambda>c. cp_resume_id c = re_id r) (profiles d) of
       [] \<Rightarrow> [(r, p, None)]
     | cs \<Rightarrow> map (\<lambda>c. (r, p, Some c)) cs) (filter (\<lambda>p. pf_id p = re_owner r) ps))"

definition resume_rows :: "profile list \<Rightarrow> resume_db \<Rightarrow> resume_row list" where
  "resume_rows ps d = sort_key (\<lambda>row. (- re_created_at (fst row), re_id (fst row)))
     (concat (map (joined_rows ps d) (filter active_resume (resumes d))))"

definition resumes_page :: "profile list \<Rightarrow> resume_db \<Rightarrow> nat \<Rightarrow> nat \<Rightarrow> resume_row list \<times> nat" where
  "resumes_page ps d page page_size =
     (page_of page page_size (resume_rows ps d), length (filter active_resume (resumes d)))"

text \<open>\<open>one_or_none\<close> raises when the joins give several rows.\<close>

definition admin_resume :: "profile list \<Rightarrow> resume_db \<Rightarrow> nat \<Rightarrow> py_exception + resume_row option" where
  "admin_resume ps d i = (case concat (map (joined_rows ps d) (filter (\<lambda>r. re_id r = i) (resumes d))) of
      [] \<Rightarrow> Inr None
    | [row] \<Rightarrow> Inr (Some row)
    | _ \<Rightarrow> Inl (Unexpected ''MultipleResultsFound''))"

section \<open>Answers\<close>

record page_info =
  pi_page :: nat
  pi_page_size :: nat
  pi_total :: nat
  pi_pages :: nat

definition page_info_of :: "nat \<Rightarrow> nat \<Rightarrow> nat \<Rightarrow> page_info" where
  "page_info_of page page_size n = \<lparr>pi_page = page, pi_page_size = page_size, pi_total = n,
     pi_pages = (if n = 0 then 0 else page_count n page_size)\<rparr>"

record admin_user =
  us_id :: nat
  us_email :: string
  us_is_admin :: bool
  us_is_active :: bool
  us_created_at :: int
  us_resume_count :: nat
  us_active_resume :: "nat option"
  us_parsed :: bool
  us_tracked_jobs :: "nat option"
  us_auto_searches :: "nat option"

definition admin_user_of :: "resume_db \<Rightarrow> profile \<Rightarrow> admin_user" where
  "admin_user_of d p = (let own = filter (\<lambda>r. re_owner r = pf_id p \<and> active_resume r) (resumes d) in
     \<lparr>us_id = pf_id p, us_email = pf_email p, us_is_admin = (pf_role p = ADMIN), us_is_active = pf_active p,
      us_created_at = pf_created_at p, us_resume_count = length own,
      us_active_resume = (case sort_key (\<lambda>r. - re_created_at r) own of [] \<Rightarrow> None | r # _ \<Rightarrow> Some (re_id r)),
      us_parsed = (filter (\<lambda>c. cp_owner c = pf_id p) (profiles d) \<noteq> []),
      us_tracked_jobs = None, us_auto_searches = None\<rparr>)"

record admin_resume_view =
  av_id :: nat
  av_user_id :: nat
  av_user_email :: string
  av_filename :: string
  av_uploaded_at :: int
  av_active :: bool
  av_status :: resume_status
  av_parser_version :: "string option"
  av_parsed :: bool

definition resume_view :: "resume_row \<Rightarrow> admin_resume_view" where
  "resume_view row = (case row of (r, p, c) \<Rightarrow>
     \<lparr>av_id = re_id r, av_user_id = pf_id p, av_user_email = pf_email p, av_filename = re_filename r,
      av_uploaded_at = re_created_at r, av_active = active_resume r, av_status = re_status r,
      av_parser_version = re_parser_version r, av_parsed = (c \<noteq> None)\<rparr>)"

record admin_resume_detail = admin_resume_view +
  ad_full_name :: "string option"
  ad_location :: "string option"
  ad_title :: "string option"
  ad_skills :: "string list"
  ad_experience :: "json list"
  ad_education :: "json list"

definition resume_detail_view :: "resume_row \<Rightarrow> admin_resume_detail" where
  "resume_detail_view row = (let c = snd (snd row) in admin_resume_view.extend (resume_view row)
     \<lparr>ad_full_name = Option.bind c cp_full_name, ad_location = Option.bind c cp_location,
      ad_title = Option.bind c cp_current_title,
      ad_skills = (case c of None \<Rightarrow> [] | Some x \<Rightarrow> cp_skills x),
      ad_experience = (case c of None \<Rightarrow> [] | Some x \<Rightarrow> cp_employment x),
      ad_education = (case c of None \<Rightarrow> [] | Some x \<Rightarrow> cp_education x)\<rparr>)"

record availability =
  mv_status :: string
  mv_reason :: "string option"

definition unavailable :: "string \<Rightarrow> availability" where
  "unavailable reason = \<lparr>mv_status = ''unavailable'', mv_reason = Some reason\<rparr>"

definition healthy :: availability where
  "healthy = \<lparr>mv_status = ''healthy'', mv_reason = None\<rparr>"

definition health_str :: "health_state \<Rightarrow> string" where
  "health_str h = (case h of Healthy \<Rightarrow> ''healthy'' | Unavailable \<Rightarrow> ''unavailable'' | Unknown \<Rightarrow> ''unknown'')"

section \<open>Endpoints\<close>

text \<open>What every endpoint does first: the outcome of the administrator check, then the bounds of
  the query.\<close>

definition admin_only :: "py_exception + profile \<Rightarrow> bool \<Rightarrow> (py_exception + 'a) \<Rightarrow> py_exception + 'a" where
  "admin_only auth valid answer = (case auth of
      Inl e \<Rightarrow> Inl e
    | Inr _ \<Rightarrow> if valid then answer else Inl (RequestValidation []))"

definition page_ok :: "int \<Rightarrow> int \<Rightarrow> bool" where
  "page_ok page page_size \<longleftrightarrow> 1 \<le> page \<and> 1 \<le> page_size \<and> page_size \<le> 100"

definition max_length_ok :: "nat \<Rightarrow> string option \<Rightarrow> bool" where
  "max_length_ok n s \<longleftrightarrow> (case s of None \<Rightarrow> True | Some t \<Rightarrow> length t \<le> n)"

definition http_error :: "nat \<Rightarrow> py_exception + 'a" where
  "http_error status = Inl (Http status None)"

record dashboard_answer =
  da_users :: user_counts
  da_resumes :: resume_counts
  da_audit_events :: nat
  da_jobs :: availability
  da_auto_search :: availability
  da_ai :: availability
  da_system :: "(string, availability) dict"

definition dashboard :: "py_exception + profile \<Rightarrow> profile list \<Rightarrow> resume_db \<Rightarrow> security_db \<Rightarrow> int \<Rightarrow> py_exception + dashboard_answer" where
  "dashboard auth ps d sec now = admin_only auth True (Inr
     \<lparr>da_users = count_users ps now, da_resumes = count_resumes d, da_audit_events = length (audit_events sec),
      da_jobs = unavailable ''GlobalJob is not present in the current backend.'',
      da_auto_search = unavailable ''Auto Search is not present in the current backend.'',
      da_ai = unavailable ''AI usage records are not present in the current backend.'',
      da_system = [(''api'', healthy), (''database'', healthy)]\<rparr>)"

definition list_users ::
  "py_exception + profile \<Rightarrow> profile list \<Rightarrow> resume_db \<Rightarrow> int \<Rightarrow> int \<Rightarrow> string option \<Rightarrow> py_exception + admin_user list \<times> page_info" where
  "list_users auth ps d page page_size query = admin_only auth (page_ok page page_size \<and> max_length_ok 320 query)
     (case users_page ps query (nat page) (nat page_size) of
        (rows, n) \<Rightarrow> Inr (map (admin_user_of d) rows, page_info_of (nat page) (nat page_size) n))"

definition user_detail :: "py_exception + profile \<Rightarrow> profile list \<Rightarrow> resume_db \<Rightarrow> nat \<Rightarrow> py_exception + admin_user" where
  "user_detail auth ps d i = admin_only auth True (case List.find (\<lambda>p. pf_id p = i) ps of
      None \<Rightarrow> http_error 404
    | Some p \<Rightarrow> Inr (admin_user_of d p))"

definition list_admin_resumes ::
  "py_exception + profile \<Rightarrow> profile list \<Rightarrow> resume_db \<Rightarrow> int \<Rightarrow> int \<Rightarrow> py_exception + admin_resume_view list \<times> page_info" where
  "list_admin_resumes auth ps d page page_size = admin_only auth (page_ok page page_size)
     (case resumes_page ps d (nat page) (nat page_size) of
        (rows, n) \<Rightarrow> Inr (map resume_view rows, page_info_of (nat page) (nat page_size) n))"

definition resume_detail :: "py_exception + profile \<Rightarrow> profile list \<Rightarrow> resume_db \<Rightarrow> nat \<Rightarrow> py_exception + admin_resume_detail" where
  "resume_detail auth ps d i = admin_only auth True (case admin_resume ps d i of
      Inl e \<Rightarrow> Inl e
    | Inr None \<Rightarrow> http_error 404
    | Inr (Some row) \<Rightarrow> Inr (resume_detail_view row))"

text \<open>The job views answer also without a database (\<open>None\<close>).\<close>

definition job_stats_view :: "py_exception + profile \<Rightarrow> global_db option \<Rightarrow> int \<Rightarrow> py_exception + availability \<times> job_stats option" where
  "job_stats_view auth g now = admin_only auth True (case g of
      None \<Rightarrow> Inr (unavailable ''Database is not configured'', None)
    | Some db \<Rightarrow> Inr (healthy, Some (global_stats db now)))"

definition admin_query :: "int \<Rightarrow> int \<Rightarrow> string option \<Rightarrow> string option \<Rightarrow> string option \<Rightarrow> job_query" where
  "admin_query page page_size query role location =
     \<lparr>q_text = query, q_role = role, q_location = location, q_remote = None, q_employment = None, q_source = None,
      q_roles = [], q_page = nat page, q_page_size = nat page_size\<rparr>"

definition admin_jobs ::
  "py_exception + profile \<Rightarrow> global_db option \<Rightarrow> int \<Rightarrow> int \<Rightarrow> string option \<Rightarrow> string option \<Rightarrow> string option \<Rightarrow> string option \<Rightarrow>
   py_exception + global_job list \<times> nat" where
  "admin_jobs auth g page page_size query src role location = admin_only auth
     (page_ok page page_size \<and> max_length_ok 200 query \<and> max_length_ok 32 src \<and> max_length_ok 64 role \<and> max_length_ok 200 location)
     (case g of
        None \<Rightarrow> http_error 501
      | Some db \<Rightarrow> (case global_search db (admin_query page page_size query role location) of
            (rows, n) \<Rightarrow> Inr (case src of None \<Rightarrow> rows | Some s \<Rightarrow> filter (\<lambda>j. gj_source j = s) rows, n)))"

definition admin_job_detail :: "py_exception + profile \<Rightarrow> global_db option \<Rightarrow> nat \<Rightarrow> py_exception + global_job" where
  "admin_job_detail auth g i = admin_only auth True (case g of
      None \<Rightarrow> http_error 501
    | Some db \<Rightarrow> (case global_by_id db i of None \<Rightarrow> http_error 404 | Some j \<Rightarrow> Inr j))"

definition not_implemented :: "py_exception + profile \<Rightarrow> py_exception + 'a" where
  "not_implemented auth = admin_only auth True (http_error 501)"

record status_report =
  sr_api :: availability
  sr_database :: availability
  sr_redis :: availability
  sr_workers :: availability
  sr_collection :: availability

text \<open>\<open>settings\<close> is \<open>None\<close> when the application has none, else whether collection is enabled and
  what the queue probe found.\<close>

definition system_status :: "py_exception + profile \<Rightarrow> bool \<Rightarrow> (bool \<times> queue_health) option \<Rightarrow> py_exception + status_report" where
  "system_status auth database_ok settings_opt = admin_only auth True (Inr
     \<lparr>sr_api = healthy,
      sr_database = (if database_ok then healthy else \<lparr>mv_status = ''unavailable'', mv_reason = None\<rparr>),
      sr_redis = (case settings_opt of
          None \<Rightarrow> \<lparr>mv_status = ''unknown'', mv_reason = Some ''Settings are unavailable''\<rparr>
        | Some (_, q) \<Rightarrow> \<lparr>mv_status = health_str (qh_redis q), mv_reason = qh_reason q\<rparr>),
      sr_workers = (case settings_opt of
          None \<Rightarrow> \<lparr>mv_status = ''unknown'', mv_reason = Some ''Settings are unavailable''\<rparr>
        | Some (_, q) \<Rightarrow> \<lparr>mv_status = health_str (qh_worker q), mv_reason = qh_reason q\<rparr>),
      sr_collection = (case settings_opt of
          None \<Rightarrow> \<lparr>mv_status = ''unknown'', mv_reason = Some ''Settings are unavailable''\<rparr>
        | Some (enabled, q) \<Rightarrow>
            if \<not> enabled then \<lparr>mv_status = ''disabled'', mv_reason = None\<rparr>
            else if qh_worker q = Healthy then healthy
            else \<lparr>mv_status = ''unknown'', mv_reason = Some ''No healthy worker heartbeat was found''\<rparr>)\<rparr>)"

record analytics_answer =
  an_users_over_time :: "(string, json) dict list"
  an_uploads_over_time :: "(string, json) dict list"
  an_jobs :: availability
  an_auto_search :: availability
  an_ai :: availability

definition analytics :: "py_exception + profile \<Rightarrow> py_exception + analytics_answer" where
  "analytics auth = admin_only auth True (Inr
     \<lparr>an_users_over_time = [], an_uploads_over_time = [],
      an_jobs = unavailable ''GlobalJob is not present in the current backend.'',
      an_auto_search = unavailable ''Auto Search is not present in the current backend.'',
      an_ai = unavailable ''AI usage records are not present in the current backend.''\<rparr>)"

text \<open>\<open>configurable\<close> and \<open>read_only\<close>.\<close>

definition admin_settings :: "py_exception + profile \<Rightarrow> py_exception + (string, string) dict \<times> (string, string) dict" where
  "admin_settings auth = admin_only auth True (Inr
     ([], [(''environment'', ''application configuration is deployment-managed'')]))"

section \<open>Pages\<close>

interpretation users: paged_read "users_page ps query" "user_rows ps query"
  for ps query
  by unfold_locales (simp add: users_page_def)

lemma map_insort_key: "map f (insort_key (\<lambda>x. g (f x)) x xs) = insort_key g (f x) (map f xs)"
  by (induction xs) simp_all

lemma map_sort_key: "map f (sort_key (\<lambda>x. g (f x)) xs) = sort_key g (map f xs)"
  by (induction xs) (simp_all add: map_insort_key)

lemma distinct_filter_key:
  assumes "distinct (map k xs)"
  shows "(\<exists>x \<in> set xs. k x = v \<and> filter (\<lambda>x. k x = v) xs = [x]) \<or> filter (\<lambda>x. k x = v) xs = []"
  using assms
proof (induction xs)
  case (Cons a xs)
  then show ?case
  proof (cases "k a = v")
    case True
    then have "filter (\<lambda>x. k x = v) xs = []" using Cons.prems by (auto simp: filter_empty_conv image_iff)
    then show ?thesis using True by simp
  qed auto
qed simp

definition owners_known :: "profile list \<Rightarrow> resume_db \<Rightarrow> bool" where
  "owners_known ps d \<longleftrightarrow> distinct (map pf_id ps) \<and> list_all (\<lambda>r. list_ex (\<lambda>p. pf_id p = re_owner r) ps) (resumes d)"

lemma joined_single:
  assumes "owners_known ps d" "resume_db_wf d" "r \<in> set (resumes d)"
  obtains p c where "joined_rows ps d r = [(r, p, c)]" "p \<in> set ps" "pf_id p = re_owner r"
    "set_option c = {x \<in> set (profiles d). cp_resume_id x = re_id r}"
proof -
  have "distinct (map pf_id ps)" "\<exists>p \<in> set ps. pf_id p = re_owner r"
    using assms(1,3) by (auto simp: owners_known_def list_all_iff list_ex_iff)
  then obtain p where p: "p \<in> set ps" "pf_id p = re_owner r" "filter (\<lambda>p. pf_id p = re_owner r) ps = [p]"
    using distinct_filter_key[of pf_id ps "re_owner r"] by (auto simp: filter_empty_conv)
  have "distinct (map cp_resume_id (profiles d))" using assms(2) by (simp add: resume_db_wf_def)
  from distinct_filter_key[OF this, of "re_id r"] show ?thesis
  proof
    assume "\<exists>c \<in> set (profiles d). cp_resume_id c = re_id r \<and> filter (\<lambda>c. cp_resume_id c = re_id r) (profiles d) = [c]"
    then obtain c where c: "filter (\<lambda>c. cp_resume_id c = re_id r) (profiles d) = [c]" by blast
    then have "{x \<in> set (profiles d). cp_resume_id x = re_id r} = {c}" by (metis set_filter list.set(1,2))
    then show ?thesis using that[of p "Some c"] p c by (simp add: joined_rows_def)
  next
    assume c: "filter (\<lambda>c. cp_resume_id c = re_id r) (profiles d) = []"
    then have "{x \<in> set (profiles d). cp_resume_id x = re_id r} = {}" by (metis set_filter list.set(1))
    then show ?thesis using that[of p None] p c by (simp add: joined_rows_def)
  qed
qed

lemma joined_rows_fst:
  assumes "owners_known ps d" "resume_db_wf d" "set rs \<subseteq> set (resumes d)"
  shows "map fst (concat (map (joined_rows ps d) rs)) = rs"
  using assms(3)
proof (induction rs)
  case (Cons r rs)
  then have "r \<in> set (resumes d)" by simp
  then obtain p c where "joined_rows ps d r = [(r, p, c)]" by (rule joined_single[OF assms(1,2)])
  then show ?case using Cons by simp
qed simp

lemma resume_rows_fst:
  assumes "owners_known ps d" "resume_db_wf d"
  shows "map fst (resume_rows ps d) = sort_key (\<lambda>r. (- re_created_at r, re_id r)) (filter active_resume (resumes d))"
  by (simp only: resume_rows_def map_sort_key[of fst "\<lambda>r. (- re_created_at r, re_id r)"]
    joined_rows_fst[OF assms] filter_is_subset)

lemma resumes_paged:
  assumes "owners_known ps d" "resume_db_wf d"
  shows "paged_read (resumes_page ps d) (resume_rows ps d)"
proof
  have "length (resume_rows ps d) = length (filter active_resume (resumes d))"
    using resume_rows_fst[OF assms] by (metis length_map length_sort)
  then show "resumes_page ps d p s = (page_of p s (resume_rows ps d), length (resume_rows ps d))" if "0 < p" for p s
    by (simp add: resumes_page_def)
qed

lemma resume_rows_member:
  assumes "owners_known ps d" "resume_db_wf d" "(r, p, c) \<in> set (resume_rows ps d)"
  shows "p \<in> set ps" "pf_id p = re_owner r" "set_option c = {x \<in> set (profiles d). cp_resume_id x = re_id r}"
proof -
  obtain r' where r': "r' \<in> set (resumes d)" "(r, p, c) \<in> set (joined_rows ps d r')"
    using assms(3) by (auto simp: resume_rows_def)
  obtain p' c' where "joined_rows ps d r' = [(r', p', c')]" "p' \<in> set ps" "pf_id p' = re_owner r'"
    "set_option c' = {x \<in> set (profiles d). cp_resume_id x = re_id r'}"
    by (rule joined_single[OF assms(1,2) r'(1)])
  then show "p \<in> set ps" "pf_id p = re_owner r" "set_option c = {x \<in> set (profiles d). cp_resume_id x = re_id r}"
    using r'(2) by simp_all
qed


lemma admin_resume_total:
  assumes "owners_known ps d" "resume_db_wf d"
  shows "(\<exists>r p c. admin_resume ps d i = Inr (Some (r, p, c)) \<and> r \<in> set (resumes d) \<and> re_id r = i) \<or>
    admin_resume ps d i = Inr None \<and> (\<forall>r \<in> set (resumes d). re_id r \<noteq> i)"
proof -
  have "distinct (map re_id (resumes d))" using assms(2) by (simp add: resume_db_wf_def)
  from distinct_filter_key[OF this, of i] show ?thesis
  proof
    assume "\<exists>r \<in> set (resumes d). re_id r = i \<and> filter (\<lambda>r. re_id r = i) (resumes d) = [r]"
    then obtain r where r: "r \<in> set (resumes d)" "re_id r = i" "filter (\<lambda>r. re_id r = i) (resumes d) = [r]" by blast
    obtain p c where "joined_rows ps d r = [(r, p, c)]" by (rule joined_single[OF assms r(1)])
    then show ?thesis using r by (simp add: admin_resume_def)
  next
    assume "filter (\<lambda>r. re_id r = i) (resumes d) = []"
    then show ?thesis by (simp add: admin_resume_def filter_empty_conv)
  qed
qed

lemma count_resumes_bounds: "rc_owners (count_resumes d) \<le> rc_active (count_resumes d)"
  "rc_active (count_resumes d) \<le> rc_total (count_resumes d)"
proof -
  show "rc_owners (count_resumes d) \<le> rc_active (count_resumes d)"
    using card_image_le[of "set (filter active_resume (resumes d))" re_owner]
      card_length[of "filter active_resume (resumes d)"] by (simp add: count_resumes_def)
qed (simp add: count_resumes_def)

section \<open>Properties\<close>

text \<open>C39: when every resume has a known owner, an administrator who reads all pages of the resume
  list sees every undeleted resume exactly once, newest first, under its own owner and with its
  parsed profile when there is one; total and page count announce this; the detail of every
  resume can be read; anybody else gets the error of the administrator check and nothing more.\<close>

theorem admin_pages_complete:
  fixes ps :: "profile list" and s :: nat
  assumes known: "owners_known ps d" and wf: "resume_db_wf d" and s: "1 \<le> s" "s \<le> 100"
  defines "active \<equiv> sort_key (\<lambda>r. (- re_created_at r, re_id r)) (filter active_resume (resumes d))"
  defines "pages \<equiv> [0..<page_count (length active) s]"
  defines "rows \<equiv> concat (map (\<lambda>k. fst (resumes_page ps d (Suc k) s)) pages)"
  shows "map fst rows = active \<and> distinct (map re_id active) \<and> set active = {r \<in> set (resumes d). re_status r \<noteq> DELETED} \<and>
    (\<forall>(r, p, c) \<in> set rows. p \<in> set ps \<and> pf_id p = re_owner r \<and> set_option c = {x \<in> set (profiles d). cp_resume_id x = re_id r}) \<and>
    (\<forall>a k. 0 < k \<longrightarrow> list_admin_resumes (Inr a) ps d (int k) (int s) =
       Inr (map resume_view (page_of k s rows), page_info_of k s (length active))) \<and>
    (\<forall>a. \<forall>r \<in> set (resumes d). \<exists>v. resume_detail (Inr a) ps d (re_id r) = Inr v \<and> av_id v = re_id r) \<and>
    (\<forall>e k i. list_admin_resumes (Inl e) ps d k (int s) = Inl e \<and> resume_detail (Inl e) ps d i = Inl e)"
proof -
  have active: "map fst (resume_rows ps d) = active" using resume_rows_fst[OF known wf] by (simp add: active_def)
  then have n: "length (resume_rows ps d) = length active" by (metis length_map)
  have rows: "rows = resume_rows ps d"
    using paged_read.pages_cover[OF resumes_paged[OF known wf], of s] s n by (simp add: rows_def pages_def)
  have "distinct (map re_id active)"
    using wf by (simp add: active_def resume_db_wf_def distinct_map inj_on_def)
  moreover have "set active = {r \<in> set (resumes d). re_status r \<noteq> DELETED}" by (auto simp: active_def active_resume_def)
  moreover have "\<exists>v. resume_detail (Inr a) ps d (re_id r) = Inr v \<and> av_id v = re_id r" if "r \<in> set (resumes d)" for a r
    using admin_resume_total[OF known wf, of "re_id r"] that
    by (auto simp: resume_detail_def admin_only_def resume_detail_view_def resume_view_def admin_resume_view.defs)
  moreover have "\<forall>(r, p, c) \<in> set rows. p \<in> set ps \<and> pf_id p = re_owner r \<and>
      set_option c = {x \<in> set (profiles d). cp_resume_id x = re_id r}"
  proof
    fix row assume row: "row \<in> set rows"
    obtain r p c where split: "row = (r, p, c)" by (cases row)
    show "case row of (r, p, c) \<Rightarrow> p \<in> set ps \<and> pf_id p = re_owner r \<and>
        set_option c = {x \<in> set (profiles d). cp_resume_id x = re_id r}"
      using resume_rows_member[OF known wf row[unfolded rows split]] split by simp
  qed
  moreover have "list_admin_resumes (Inr a) ps d (int k) (int s) =
      Inr (map resume_view (page_of k s rows), page_info_of k s (length active))" if "0 < k" for a k
    using that s rows by (simp add: list_admin_resumes_def admin_only_def page_ok_def resumes_page_def active_def)
  moreover have "list_admin_resumes (Inl e) ps d k (int s) = Inl e \<and> resume_detail (Inl e) ps d i = Inl e" for e k i
    by (simp add: list_admin_resumes_def resume_detail_def admin_only_def)
  ultimately show ?thesis using active rows by blast
qed

definition console_resume :: "nat \<Rightarrow> int \<Rightarrow> resume_status \<Rightarrow> resume" where
  "console_resume i t st = \<lparr>re_id = i, re_owner = 7, re_filename = ''cv.pdf'', re_bucket = ''b'', re_key = [char_of i],
     re_content_type = ''application/pdf'', re_size = 10, re_sha256 = replicate 64 CHR ''a'', re_status = st,
     re_parser_version = None, re_parse_error = None, re_version = 1,
     re_deleted_at = (if st = DELETED then Some 0 else None), re_created_at = t\<rparr>"

definition console_owner :: profile where
  "console_owner = \<lparr>pf_id = 7, pf_auth_user = 1, pf_email = ''o@x.io'', pf_role = EMPLOYEE, pf_active = True, pf_created_at = 0\<rparr>"

definition console_resumes :: resume_db where
  "console_resumes = \<lparr>resumes = [console_resume 1 5 PARSED, console_resume 2 6 DELETED, console_resume 3 9 PARSED],
     profiles = [], cleanups = []\<rparr>"

theorem admin_pages_complete_witness:
  "map (re_id \<circ> fst) (concat (map (\<lambda>k. fst (resumes_page [console_owner] console_resumes (Suc k) 1)) [0..<2])) = [3, 1]"
proof -
  have wf: "owners_known [console_owner] console_resumes" "resume_db_wf console_resumes" by code_simp+
  let ?active = "sort_key (\<lambda>r. (- re_created_at r, re_id r)) (filter active_resume (resumes console_resumes))"
  have active: "map re_id ?active = [3, 1]" by code_simp
  have "length ?active = 2" using arg_cong[OF active, of length] by (simp del: length_sort)
  then show ?thesis
    using conjunct1[OF admin_pages_complete[OF wf, of 1]] active
    by (simp add: page_count_def flip: map_map del: length_sort)
qed

end
