(* ===== verification/Api.thy ===== *)
theory Api
  imports Admin Recommend SearchRun ResumeSafety
begin

text \<open>
  The endpoints of version 1 (\<open>src/app/api/v1/routes/auth.py\<close>, \<open>resumes.py\<close>, \<open>jobs.py\<close>,
  \<open>search.py\<close>, \<open>security.py\<close>, with \<open>src/app/resumes/dependencies.py\<close> and the answers of
  \<open>src/app/schemas\<close>) over the services of the other theories. An endpoint resolves its
  dependencies, the caller first, then checks the declared bounds of its parameters, then calls
  one service. What one request finds in its environment (clock, new identifiers, outcomes of
  the storage, the parser, the queue and the commits) is the record \<open>api_env\<close>. Rows carry no
  \<open>updated_at\<close>, so the answers leave it out.
\<close>

record service_wiring =
  sw_http_client :: bool
  sw_executor :: bool
  sw_supabase_url :: "string option"
  sw_supabase_secret :: "string option"
  sw_redis :: bool

record api_env =
  en_now :: int
  en_clock :: "nat \<Rightarrow> int"
  en_id :: nat
  en_event :: nat
  en_storage :: resume_settings
  en_max_upload :: nat
  en_sha256 :: "string \<Rightarrow> string"
  en_faults :: faults
  en_parse :: "validated_upload \<Rightarrow> parse_outcome"
  en_wiring :: service_wiring
  en_enqueued :: bool
  en_commit :: bool
  en_allow :: allowlist_settings
  en_ip :: "ip option"
  en_agent :: "string option"

record api_state =
  as_users :: "profile list"
  as_jobs :: db
  as_world :: resume_world
  as_searches :: search_db
  as_queue :: "nat list"
  as_security :: security_db

section \<open>Dependencies and errors\<close>

definition resume_storage_down :: py_exception where
  "resume_storage_down = Application (app_error_of ''RESUME_STORAGE_UNAVAILABLE'' ''Resume storage is temporarily unavailable.'' 503)"

definition get_resume_parse_executor :: "service_wiring \<Rightarrow> py_exception option" where
  "get_resume_parse_executor sw = (if sw_executor sw then None
     else Some (Application (app_error_of ''RESUME_PARSER_UNAVAILABLE'' ''Resume parsing is temporarily unavailable.'' 503)))"

definition get_http_client :: "service_wiring \<Rightarrow> py_exception option" where
  "get_http_client sw = (if sw_http_client sw then None else Some resume_storage_down)"

text \<open>\<open>None\<close> when the service can be composed.\<close>

definition get_resume_service :: "service_wiring \<Rightarrow> py_exception option" where
  "get_resume_service sw = (case get_http_client sw of
      Some e \<Rightarrow> Some e
    | None \<Rightarrow> (case get_resume_parse_executor sw of
        Some e \<Rightarrow> Some e
      | None \<Rightarrow> if sw_supabase_url sw = None \<or> sw_supabase_secret sw = None then Some resume_storage_down else None))"

definition get_search_service :: "service_wiring \<Rightarrow> py_exception option" where
  "get_search_service sw = (if sw_redis sw then None else Some (Unexpected ''RuntimeError''))"

fun service_exception :: "service_error \<Rightarrow> py_exception" where
  "service_exception (App e) = Application e"
| "service_exception DbFailure = Database ''SQLAlchemyError''"

fun rule_exception :: "rule_error \<Rightarrow> py_exception" where
  "rule_exception (Rejected e) = Application e"
| "rule_exception InvalidNetwork = Unexpected ''ValueError''"

text \<open>The caller, the other dependencies, the bounds, then the body.\<close>

definition endpoint ::
  "py_exception + profile \<Rightarrow> py_exception option \<Rightarrow> bool \<Rightarrow> (profile \<Rightarrow> (py_exception + 'a) \<times> 's) \<Rightarrow> 's \<Rightarrow>
   (py_exception + 'a) \<times> 's" where
  "endpoint auth deps valid body st = (case auth of
      Inl e \<Rightarrow> (Inl e, st)
    | Inr p \<Rightarrow> (case deps of
        Some e \<Rightarrow> (Inl e, st)
      | None \<Rightarrow> if valid then body p else (Inl (RequestValidation []), st)))"

definition offset_ok :: "int \<Rightarrow> int \<Rightarrow> bool" where
  "offset_ok offset limit \<longleftrightarrow> 0 \<le> offset \<and> 1 \<le> limit \<and> limit \<le> 100"

section \<open>Answers\<close>

record profile_view =
  pv_id :: nat
  pv_auth_user :: nat
  pv_email :: string
  pv_role :: profile_role
  pv_active :: bool

definition profile_response :: "profile \<Rightarrow> profile_view" where
  "profile_response p = \<lparr>pv_id = pf_id p, pv_auth_user = pf_auth_user p, pv_email = pf_email p,
     pv_role = pf_role p, pv_active = pf_active p\<rparr>"

record resume_out =
  ro_id :: nat
  ro_filename :: string
  ro_content_type :: string
  ro_size :: nat
  ro_status :: resume_status
  ro_parser_version :: "string option"
  ro_parse_error :: "string option"
  ro_created_at :: int

definition resume_response :: "resume \<Rightarrow> resume_out" where
  "resume_response r = \<lparr>ro_id = re_id r, ro_filename = re_filename r, ro_content_type = re_content_type r,
     ro_size = re_size r, ro_status = re_status r, ro_parser_version = re_parser_version r,
     ro_parse_error = re_parse_error r, ro_created_at = re_created_at r\<rparr>"

record candidate_out =
  co_resume_id :: nat
  co_full_name :: "string option"
  co_email :: "string option"
  co_phone :: "string option"
  co_location :: "string option"
  co_current_title :: "string option"
  co_summary :: "string option"
  co_years :: "rat option"
  co_skills :: "string list"
  co_employment :: "json list"
  co_education :: "json list"
  co_certifications :: "string list"
  co_languages :: "string list"

definition candidate_profile_response :: "candidate_profile \<Rightarrow> candidate_out" where
  "candidate_profile_response p = \<lparr>co_resume_id = cp_resume_id p, co_full_name = cp_full_name p, co_email = cp_email p,
     co_phone = cp_phone p, co_location = cp_location p, co_current_title = cp_current_title p,
     co_summary = cp_summary p, co_years = cp_years p, co_skills = cp_skills p, co_employment = cp_employment p,
     co_education = cp_education p, co_certifications = cp_certifications p, co_languages = cp_languages p\<rparr>"

record offset_page =
  op_total :: nat
  op_offset :: nat
  op_limit :: nat

text \<open>A job of a page: its fields and, in recommendations, its scores by name.\<close>

record job_out =
  jo_job :: job_read
  jo_scores :: "(string, rat) dict"

definition job_response :: "job_read \<Rightarrow> (string, rat) dict option \<Rightarrow> job_out" where
  "job_response j scores = \<lparr>jo_job = j, jo_scores = (case scores of None \<Rightarrow> [] | Some s \<Rightarrow> s)\<rparr>"

record search_progress_out =
  po_id :: nat
  po_status :: search_status
  po_stage :: string
  po_progress :: nat
  po_error :: "string option"

text \<open>An audit event without its metadata.\<close>

record audit_out =
  ao_id :: nat
  ao_actor :: "nat option"
  ao_type :: audit_type
  ao_request_ip :: "string option"
  ao_user_agent :: "string option"
  ao_resource_type :: "string option"
  ao_resource_id :: "nat option"
  ao_created_at :: int

definition audit_response :: "audit_event \<Rightarrow> audit_out" where
  "audit_response e = \<lparr>ao_id = au_id e, ao_actor = au_actor e, ao_type = au_type e, ao_request_ip = au_request_ip e,
     ao_user_agent = au_user_agent e, ao_resource_type = au_resource_type e, ao_resource_id = au_resource_id e,
     ao_created_at = au_created_at e\<rparr>"

datatype api_answer =
    ProfileAnswer profile_view
  | ResumeAnswer resume_out
  | ResumePageAnswer "resume_out list" offset_page
  | CandidateAnswer candidate_out
  | ReplacedAnswer resume_out
  | DeletedAnswer nat
  | JobPageAnswer "job_out list" page_info
  | SearchStarted nat search_status
  | ProgressAnswer search_progress_out
  | ResultsAnswer nat search_status "result_item list" page_info
  | IpAnswer "string option" bool
  | RulePageAnswer "ip_rule list" offset_page
  | RuleAnswer ip_rule
  | NoContent
  | AuditPageAnswer "audit_out list" offset_page

section \<open>The caller and the resumes\<close>

definition get_me :: "py_exception + profile \<Rightarrow> api_state \<Rightarrow> (py_exception + api_answer) \<times> api_state" where
  "get_me auth st = endpoint auth None True (\<lambda>p. (Inr (ProfileAnswer (profile_response p)), st)) st"

record uploaded_file =
  uf_filename :: "string option"
  uf_content_type :: "string option"
  uf_content :: string

definition read_upload :: "api_env \<Rightarrow> uploaded_file \<Rightarrow> app_error + validated_upload" where
  "read_upload en f = validate_resume_upload (en_sha256 en) (en_max_upload en) (uf_filename f) (uf_content_type f)
     (take (Suc (en_max_upload en)) (uf_content f))"

text \<open>The answer of a resume operation and the state with the world it leaves.\<close>

definition with_world ::
  "api_state \<Rightarrow> ('a \<Rightarrow> api_answer) \<Rightarrow> (service_error + 'a) \<times> resume_world \<Rightarrow> (py_exception + api_answer) \<times> api_state" where
  "with_world st f out = (case out of
      (Inl e, w) \<Rightarrow> (Inl (service_exception e), st\<lparr>as_world := w\<rparr>)
    | (Inr x, w) \<Rightarrow> (Inr (f x), st\<lparr>as_world := w\<rparr>))"

definition upload_resume ::
  "api_env \<Rightarrow> uploaded_file \<Rightarrow> py_exception + profile \<Rightarrow> api_state \<Rightarrow> (py_exception + api_answer) \<times> api_state" where
  "upload_resume en f auth st = endpoint auth (get_resume_service (en_wiring en)) True (\<lambda>p.
     case read_upload en f of
       Inl e \<Rightarrow> (Inl (Application e), st)
     | Inr u \<Rightarrow> with_world st (\<lambda>r. ResumeAnswer (resume_response r))
         (upload (en_storage en) (en_faults en) (en_now en) (pf_id p) (en_id en) u (en_parse en u) (as_world st))) st"

definition list_resumes ::
  "api_env \<Rightarrow> int \<Rightarrow> int \<Rightarrow> py_exception + profile \<Rightarrow> api_state \<Rightarrow> (py_exception + api_answer) \<times> api_state" where
  "list_resumes en offset limit auth st = endpoint auth (get_resume_service (en_wiring en)) (offset_ok offset limit) (\<lambda>p.
     case list_owned_page (rw_db (as_world st)) (pf_id p) (nat offset) (nat limit) of
       (items, n) \<Rightarrow> (Inr (ResumePageAnswer (map resume_response items)
          \<lparr>op_total = n, op_offset = nat offset, op_limit = nat limit\<rparr>), st)) st"

definition read_candidate_profile ::
  "api_env \<Rightarrow> nat \<Rightarrow> py_exception + profile \<Rightarrow> api_state \<Rightarrow> (py_exception + api_answer) \<times> api_state" where
  "read_candidate_profile en i auth st = endpoint auth (get_resume_service (en_wiring en)) True (\<lambda>p.
     case get_candidate_profile i (pf_id p) (as_world st) of
       Inl e \<Rightarrow> (Inl (service_exception e), st)
     | Inr c \<Rightarrow> (Inr (CandidateAnswer (candidate_profile_response c)), st)) st"

definition replace_with_upload ::
  "api_env \<Rightarrow> nat \<Rightarrow> uploaded_file \<Rightarrow> py_exception + profile \<Rightarrow> api_state \<Rightarrow> (py_exception + api_answer) \<times> api_state" where
  "replace_with_upload en i f auth st = endpoint auth (get_resume_service (en_wiring en)) True (\<lambda>p.
     case read_upload en f of
       Inl e \<Rightarrow> (Inl (Application e), st)
     | Inr u \<Rightarrow> with_world st (\<lambda>r. ReplacedAnswer (resume_response r))
         (replace_resume (en_storage en) (en_faults en) (en_now en) (pf_id p) i (en_id en) u (en_parse en u) (as_world st))) st"

definition delete_one_resume ::
  "api_env \<Rightarrow> nat \<Rightarrow> py_exception + profile \<Rightarrow> api_state \<Rightarrow> (py_exception + api_answer) \<times> api_state" where
  "delete_one_resume en i auth st = endpoint auth (get_resume_service (en_wiring en)) True (\<lambda>p.
     with_world st (\<lambda>r. DeletedAnswer (re_id r))
       (delete_resume (en_storage en) (en_faults en) (en_now en) (pf_id p) i (as_world st))) st"

section \<open>Jobs\<close>

record job_params =
  jp_query :: "string option"
  jp_role :: "string option"
  jp_location :: "string option"
  jp_remote :: "bool option"
  jp_employment :: "string option"
  jp_source :: "string option"

definition job_params_ok :: "job_params \<Rightarrow> bool" where
  "job_params_ok q \<longleftrightarrow> max_length_ok 200 (jp_query q) \<and> max_length_ok 64 (jp_role q) \<and> max_length_ok 200 (jp_location q) \<and>
     max_length_ok 100 (jp_employment q) \<and> max_length_ok 100 (jp_source q)"

definition job_query_of :: "job_params \<Rightarrow> nat \<Rightarrow> nat \<Rightarrow> job_query" where
  "job_query_of q page page_size = \<lparr>q_text = jp_query q, q_role = jp_role q, q_location = jp_location q,
     q_remote = jp_remote q, q_employment = jp_employment q, q_source = jp_source q, q_roles = [],
     q_page = page, q_page_size = page_size\<rparr>"

definition search_jobs ::
  "job_params \<Rightarrow> int \<Rightarrow> int \<Rightarrow> py_exception + profile \<Rightarrow> api_state \<Rightarrow> (py_exception + api_answer) \<times> api_state" where
  "search_jobs q page page_size auth st = endpoint auth None (job_params_ok q \<and> page_ok page page_size) (\<lambda>_.
     case canonical_search (as_jobs st) (job_query_of q (nat page) (nat page_size)) of
       (rows, n) \<Rightarrow> (Inr (JobPageAnswer (map (\<lambda>j. job_response j None) rows) (page_info_of (nat page) (nat page_size) n)), st)) st"

definition recommended_jobs ::
  "api_env \<Rightarrow> int \<Rightarrow> int \<Rightarrow> py_exception + profile \<Rightarrow> api_state \<Rightarrow> (py_exception + api_answer) \<times> api_state" where
  "recommended_jobs en page page_size auth st = endpoint auth None (page_ok page page_size) (\<lambda>p.
     case get_recommendations (en_clock en) (as_jobs st) (rw_db (as_world st)) (pf_id p) (nat page) (nat page_size) of
       (rows, n) \<Rightarrow> (Inr (JobPageAnswer (map (\<lambda>(j, s). job_response j (Some s)) rows)
          (page_info_of (nat page) (nat page_size) n)), st)) st"

section \<open>Searches\<close>

definition post_search ::
  "api_env \<Rightarrow> search_request \<Rightarrow> py_exception + profile \<Rightarrow> api_state \<Rightarrow> (py_exception + api_answer) \<times> api_state" where
  "post_search en q auth st = endpoint auth (get_search_service (en_wiring en)) (request_valid q) (\<lambda>p.
     case start_search (as_searches st) (as_queue st) (en_id en) (pf_id p) q (en_enqueued en) of
       (res, d, queue) \<Rightarrow> (case res of
            Inl e \<Rightarrow> Inl (Application e)
          | Inr s \<Rightarrow> Inr (SearchStarted (se_id s) (se_status s)), st\<lparr>as_searches := d, as_queue := queue\<rparr>)) st"

definition search_progress ::
  "api_env \<Rightarrow> nat \<Rightarrow> py_exception + profile \<Rightarrow> api_state \<Rightarrow> (py_exception + api_answer) \<times> api_state" where
  "search_progress en i auth st = endpoint auth (get_search_service (en_wiring en)) True (\<lambda>p.
     (case get_search_progress (as_searches st) (pf_id p) i of
        Inl e \<Rightarrow> Inl (Application e)
      | Inr s \<Rightarrow> Inr (ProgressAnswer \<lparr>po_id = se_id s, po_status = se_status s, po_stage = se_stage s,
          po_progress = se_progress s, po_error = se_error s\<rparr>), st)) st"

definition search_results ::
  "api_env \<Rightarrow> nat \<Rightarrow> int \<Rightarrow> int \<Rightarrow> py_exception + profile \<Rightarrow> api_state \<Rightarrow> (py_exception + api_answer) \<times> api_state" where
  "search_results en i page page_size auth st = endpoint auth (get_search_service (en_wiring en)) (page_ok page page_size) (\<lambda>p.
     (case get_search_results (as_jobs st) (as_searches st) (pf_id p) i (nat page) (nat page_size) of
        Inl e \<Rightarrow> Inl (Application e)
      | Inr (s, items, n) \<Rightarrow> Inr (ResultsAnswer (se_id s) (se_status s) items (page_info_of (nat page) (nat page_size) n)), st)) st"

section \<open>Security administration\<close>

definition current_ip :: "api_env \<Rightarrow> py_exception + profile \<Rightarrow> api_state \<Rightarrow> (py_exception + api_answer) \<times> api_state" where
  "current_ip en auth st = endpoint auth None True (\<lambda>_.
     (Inr (IpAnswer (map_option ip_str (en_ip en))
        (case en_ip en of None \<Rightarrow> False | Some a \<Rightarrow> address_in_networks a (al_bypass (en_allow en)))), st)) st"

definition list_ip_rules ::
  "int \<Rightarrow> int \<Rightarrow> py_exception + profile \<Rightarrow> api_state \<Rightarrow> (py_exception + api_answer) \<times> api_state" where
  "list_ip_rules offset limit auth st = endpoint auth None (offset_ok offset limit) (\<lambda>_.
     case rule_page (as_security st) (nat offset) (nat limit) of
       (items, n) \<Rightarrow> (Inr (RulePageAnswer items \<lparr>op_total = n, op_offset = nat offset, op_limit = nat limit\<rparr>), st)) st"

definition list_audit_events ::
  "int \<Rightarrow> int \<Rightarrow> py_exception + profile \<Rightarrow> api_state \<Rightarrow> (py_exception + api_answer) \<times> api_state" where
  "list_audit_events offset limit auth st = endpoint auth None (offset_ok offset limit) (\<lambda>_.
     case audit_page (as_security st) (nat offset) (nat limit) of
       (items, n) \<Rightarrow> (Inr (AuditPageAnswer (map audit_response items)
          \<lparr>op_total = n, op_offset = nat offset, op_limit = nat limit\<rparr>), st)) st"

definition with_security ::
  "api_state \<Rightarrow> ('a \<Rightarrow> api_answer) \<Rightarrow> 'a rule_result \<times> security_db \<Rightarrow> (py_exception + api_answer) \<times> api_state" where
  "with_security st f out = (case out of
      (Inl e, d) \<Rightarrow> (Inl (rule_exception e), st\<lparr>as_security := d\<rparr>)
    | (Inr x, d) \<Rightarrow> (Inr (f x), st\<lparr>as_security := d\<rparr>))"

definition request_audit_context :: "api_env \<Rightarrow> profile \<Rightarrow> audit_ctx" where
  "request_audit_context en p = audit_context (Some (pf_id p)) (en_ip en) (en_agent en)"

definition post_ip_rule ::
  "api_env \<Rightarrow> string \<Rightarrow> string \<Rightarrow> string option \<Rightarrow> bool \<Rightarrow> py_exception + profile \<Rightarrow> api_state \<Rightarrow>
   (py_exception + api_answer) \<times> api_state" where
  "post_ip_rule en cidr label description enabled auth st =
     endpoint auth None (rule_create_body cidr label description \<noteq> None) (\<lambda>p.
       with_security st RuleAnswer (create_rule (en_id en) (en_event en) (en_now en) (en_commit en) (pf_id p)
         (request_audit_context en p) (the (rule_create_body cidr label description)) label description enabled
         (as_security st))) st"

definition flat :: "'a option option \<Rightarrow> 'a option" where
  "flat v = (case v of None \<Rightarrow> None | Some w \<Rightarrow> w)"

definition patch_ip_rule ::
  "api_env \<Rightarrow> nat \<Rightarrow> string option option \<Rightarrow> string option option \<Rightarrow> string option option \<Rightarrow> bool option option \<Rightarrow>
   py_exception + profile \<Rightarrow> api_state \<Rightarrow> (py_exception + api_answer) \<times> api_state" where
  "patch_ip_rule en i cidr label description enabled auth st =
     endpoint auth None (rule_update_body cidr label description enabled \<noteq> None) (\<lambda>p.
       with_security st RuleAnswer (update_rule (en_allow en) (en_event en) (en_now en) (en_commit en)
         (request_audit_context en p) i (the (rule_update_body cidr label description enabled)) (flat label)
         description (flat enabled) (en_ip en) (as_security st))) st"

definition remove_ip_rule ::
  "api_env \<Rightarrow> nat \<Rightarrow> py_exception + profile \<Rightarrow> api_state \<Rightarrow> (py_exception + api_answer) \<times> api_state" where
  "remove_ip_rule en i auth st = endpoint auth None True (\<lambda>p.
     with_security st (\<lambda>_. NoContent) (delete_rule (en_allow en) (en_event en) (en_now en)
       (request_audit_context en p) i (en_ip en) (as_security st))) st"

section \<open>Requests\<close>

datatype api_request =
    GetMe
  | UploadResume uploaded_file
  | ListResumes int int
  | ReadCandidate nat
  | ReplaceResume nat uploaded_file
  | DeleteResume nat
  | SearchJobs job_params int int
  | RecommendedJobs int int
  | StartSearch search_request
  | SearchProgress nat
  | SearchResults nat int int
  | CurrentIp
  | ListRules int int
  | CreateRule string string "string option" bool
  | UpdateRule nat "string option option" "string option option" "string option option" "bool option option"
  | DeleteRule nat
  | ListAudit int int

fun needs_admin :: "api_request \<Rightarrow> bool" where
  "needs_admin CurrentIp = True"
| "needs_admin (ListRules offset limit) = True"
| "needs_admin (CreateRule cidr label description enabled) = True"
| "needs_admin (UpdateRule i cidr label description enabled) = True"
| "needs_admin (DeleteRule i) = True"
| "needs_admin (ListAudit offset limit) = True"
| "needs_admin _ = False"

fun serve :: "api_env \<Rightarrow> py_exception + profile \<Rightarrow> api_request \<Rightarrow> api_state \<Rightarrow> (py_exception + api_answer) \<times> api_state" where
  "serve en auth GetMe st = get_me auth st"
| "serve en auth (UploadResume f) st = upload_resume en f auth st"
| "serve en auth (ListResumes offset limit) st = list_resumes en offset limit auth st"
| "serve en auth (ReadCandidate i) st = read_candidate_profile en i auth st"
| "serve en auth (ReplaceResume i f) st = replace_with_upload en i f auth st"
| "serve en auth (DeleteResume i) st = delete_one_resume en i auth st"
| "serve en auth (SearchJobs q page page_size) st = search_jobs q page page_size auth st"
| "serve en auth (RecommendedJobs page page_size) st = recommended_jobs en page page_size auth st"
| "serve en auth (StartSearch q) st = post_search en q auth st"
| "serve en auth (SearchProgress i) st = search_progress en i auth st"
| "serve en auth (SearchResults i page page_size) st = search_results en i page page_size auth st"
| "serve en auth CurrentIp st = current_ip en auth st"
| "serve en auth (ListRules offset limit) st = list_ip_rules offset limit auth st"
| "serve en auth (CreateRule cidr label description enabled) st = post_ip_rule en cidr label description enabled auth st"
| "serve en auth (UpdateRule i cidr label description enabled) st = patch_ip_rule en i cidr label description enabled auth st"
| "serve en auth (DeleteRule i) st = remove_ip_rule en i auth st"
| "serve en auth (ListAudit offset limit) st = list_audit_events offset limit auth st"

text \<open>A request with its bearer credentials, through the authentication dependencies.\<close>

definition handle_request ::
  "api_env \<Rightarrow> (string \<Rightarrow> 'c \<Rightarrow> (auth_error + claims) \<times> 'c) option \<Rightarrow> credentials option \<Rightarrow> api_request \<Rightarrow>
   api_state \<times> 'c \<Rightarrow> (py_exception + api_answer) \<times> api_state \<times> 'c" where
  "handle_request en verifier cred rq sc = (case sc of (st, c) \<Rightarrow>
     (case authorize (needs_admin rq) verifier (as_users st) cred c of
        (auth, c') \<Rightarrow> (case serve en auth rq st of (answer, st') \<Rightarrow> (answer, st', c'))))"

section \<open>Isolation of the callers\<close>

text \<open>The private rows a caller may see: its resumes and parsed profiles, its searches and their
  results.\<close>

definition own_view :: "nat \<Rightarrow> api_state \<Rightarrow> resume list \<times> candidate_profile list \<times> job_search list \<times> search_result list" where
  "own_view u st = (let w = rw_db (as_world st); d = as_searches st in
     (filter (\<lambda>r. re_owner r = u) (resumes w), filter (\<lambda>c. cp_owner c = u) (profiles w),
      filter (\<lambda>s. se_user s = u) (searches d),
      filter (\<lambda>r. list_ex (\<lambda>s. se_id s = sr_search_id r \<and> se_user s = u) (searches d)) (results d)))"

fun read_only :: "api_request \<Rightarrow> bool" where
  "read_only (UploadResume f) = False"
| "read_only (ReplaceResume i f) = False"
| "read_only (DeleteResume i) = False"
| "read_only (StartSearch q) = False"
| "read_only (CreateRule cidr label description enabled) = False"
| "read_only (UpdateRule i cidr label description enabled) = False"
| "read_only (DeleteRule i) = False"
| "read_only _ = True"

lemma endpoint_error [simp]: "endpoint (Inl e) deps valid body st = (Inl e, st)"
  by (simp add: endpoint_def)

lemma endpoint_cases:
  assumes "P (Inl (RequestValidation []), st)" "\<And>e. P (Inl e, st)" "\<And>p. auth = Inr p \<Longrightarrow> P (body p)"
  shows "P (endpoint auth deps valid body st)"
  using assms by (auto simp: endpoint_def split: sum.split option.split)

lemmas endpoint_defs = get_me_def upload_resume_def list_resumes_def read_candidate_profile_def replace_with_upload_def
  delete_one_resume_def search_jobs_def recommended_jobs_def post_search_def search_progress_def search_results_def
  current_ip_def list_ip_rules_def list_audit_events_def post_ip_rule_def patch_ip_rule_def remove_ip_rule_def

lemma serve_error [simp]: "serve en (Inl e) rq st = (Inl e, st)"
  by (cases rq) (simp_all add: endpoint_defs)

lemma endpoint_reads:
  "(\<And>p. auth = Inr p \<Longrightarrow> snd (body p) = st) \<Longrightarrow> snd (endpoint auth deps valid body st) = st"
  by (rule endpoint_cases) simp_all

lemma serve_read_only: "read_only rq \<Longrightarrow> snd (serve en auth rq st) = st"
  by (cases rq) (auto simp: endpoint_defs split: sum.split prod.split intro!: endpoint_reads)

lemma filter_foreign:
  assumes "u \<noteq> v"
  shows "filter (\<lambda>x. f x = u) xs = filter (\<lambda>x. f x = u) (filter (\<lambda>x. f x \<noteq> v) xs)"
proof -
  have "(\<lambda>x. f x = u) = (\<lambda>x. f x \<noteq> v \<and> f x = u)" using assms by auto
  then show ?thesis by (simp add: filter_filter)
qed

lemma filter_foreign_cong:
  "filter (\<lambda>x. f x \<noteq> v) xs = filter (\<lambda>x. f x \<noteq> v) ys \<Longrightarrow> u \<noteq> v \<Longrightarrow> filter (\<lambda>x. f x = u) xs = filter (\<lambda>x. f x = u) ys"
  by (metis filter_foreign)

lemma with_world_sel [simp]:
  "as_searches (snd (with_world st f out)) = as_searches st" "as_world (snd (with_world st f out)) = snd out"
  "as_users (snd (with_world st f out)) = as_users st" "as_jobs (snd (with_world st f out)) = as_jobs st"
  "as_security (snd (with_world st f out)) = as_security st"
  by (simp_all add: with_world_def split: prod.split sum.split)

lemma with_security_sel [simp]:
  "as_searches (snd (with_security st f out)) = as_searches st" "as_world (snd (with_security st f out)) = as_world st"
  "as_users (snd (with_security st f out)) = as_users st" "as_jobs (snd (with_security st f out)) = as_jobs st"
  by (simp_all add: with_security_def split: prod.split sum.split)

lemma own_view_world:
  assumes "foreign_rows v w = foreign_rows v (as_world st)" "u \<noteq> v" "as_world st' = w" "as_searches st' = as_searches st"
  shows "own_view u st' = own_view u st"
proof -
  have "filter (\<lambda>r. re_owner r = u) (resumes (rw_db w)) = filter (\<lambda>r. re_owner r = u) (resumes (rw_db (as_world st)))"
    by (rule filter_foreign_cong[OF _ assms(2)]) (use assms(1) in \<open>simp add: foreign_rows_def\<close>)
  moreover have "filter (\<lambda>c. cp_owner c = u) (profiles (rw_db w)) = filter (\<lambda>c. cp_owner c = u) (profiles (rw_db (as_world st)))"
    by (rule filter_foreign_cong[OF _ assms(2)]) (use assms(1) in \<open>simp add: foreign_rows_def\<close>)
  ultimately show ?thesis using assms(3,4) by (simp add: own_view_def Let_def)
qed

lemma put_search_new: "se_id s \<notin> se_id ` set (searches d) \<Longrightarrow> se_id s' = se_id s \<Longrightarrow>
  searches (put_search (create_search d s) s') = searches d @ [s']"
  by (auto simp: put_search_def create_search_def intro!: map_idI) (metis image_eqI)

lemma start_search_rows:
  assumes "i \<notin> se_id ` set (searches d)"
  shows "\<exists>s. se_user s = user \<and> searches (fst (snd (start_search d queue i user q ok))) = searches d @ [s] \<and>
    results (fst (snd (start_search d queue i user q ok))) = results d"
proof -
  have i: "se_id (queued_search i user q) \<notin> se_id ` set (searches d)" using assms by (simp add: queued_search_def)
  show ?thesis
  proof (cases ok)
    case True
    then show ?thesis by (auto simp: start_search_def Let_def create_search_def queued_search_def)
  next
    case False
    have "se_id (queued_search i user q\<lparr>se_status := x, se_stage := y, se_error := z\<rparr>) = se_id (queued_search i user q)" for x y z
      by simp
    from put_search_new[OF i this] show ?thesis using False
      by (auto simp: start_search_def Let_def queued_search_def create_search_def)
  qed
qed


lemma own_view_searches:
  assumes "searches (as_searches st') = searches (as_searches st) @ [s]" "results (as_searches st') = results (as_searches st)"
    "se_user s \<noteq> u" "as_world st' = as_world st"
  shows "own_view u st' = own_view u st"
  using assms by (simp add: own_view_def Let_def)

lemma endpoint_keeps:
  "own_view u (snd (body p)) = own_view u st \<Longrightarrow> own_view u (snd (endpoint (Inr p) deps valid body st)) = own_view u st"
  by (simp add: endpoint_def split: option.split)

lemma own_view_with_world:
  "foreign_rows v (snd out) = foreign_rows v (as_world st) \<Longrightarrow> u \<noteq> v \<Longrightarrow> own_view u (snd (with_world st f out)) = own_view u st"
  by (rule own_view_world[where v = v and w = "snd out"]) simp_all

lemma own_view_with_security: "own_view u (snd (with_security st f out)) = own_view u st"
  by (simp add: own_view_def)

lemma serve_isolates:
  assumes "resume_db_wf (rw_db (as_world st))" "fresh_resume (as_world st) (pf_id p) (en_id en)"
    and "en_id en \<notin> se_id ` set (searches (as_searches st))" "u \<noteq> pf_id p"
  shows "own_view u (snd (serve en (Inr p) rq st)) = own_view u st"
proof (cases "read_only rq")
  case False
  then show ?thesis
  proof (cases rq)
    case (UploadResume f)
    show ?thesis unfolding UploadResume serve.simps upload_resume_def
      by (rule endpoint_keeps, cases "read_upload en f")
        (simp_all add: own_view_with_world[OF upload_foreign[OF prod.collapse[symmetric]] assms(4)])
  next
    case (ReplaceResume i f)
    show ?thesis unfolding ReplaceResume serve.simps replace_with_upload_def
      by (rule endpoint_keeps, cases "read_upload en f")
        (simp_all add: own_view_with_world[OF replace_foreign[OF assms(1,2) prod.collapse[symmetric]] assms(4)])
  next
    case (DeleteResume i)
    show ?thesis unfolding DeleteResume serve.simps delete_one_resume_def
      by (rule endpoint_keeps, rule own_view_with_world[OF delete_foreign[OF assms(1) prod.collapse[symmetric]] assms(4)])
  next
    case (StartSearch q)
    obtain res d queue where run: "start_search (as_searches st) (as_queue st) (en_id en) (pf_id p) q (en_enqueued en) = (res, d, queue)"
      by (rule prod_cases3)
    obtain s where s: "se_user s = pf_id p" "searches d = searches (as_searches st) @ [s]" "results d = results (as_searches st)"
      using start_search_rows[OF assms(3), of "pf_id p" "as_queue st" q "en_enqueued en"] run by auto
    have "own_view u (st\<lparr>as_searches := d, as_queue := queue\<rparr>) = own_view u st"
      by (rule own_view_searches[of _ _ s]) (use s assms(4) in simp_all)
    then show ?thesis unfolding StartSearch serve.simps post_search_def by (intro endpoint_keeps) (simp add: run)
  qed (simp_all add: post_ip_rule_def patch_ip_rule_def remove_ip_rule_def endpoint_keeps own_view_with_security)
qed (simp add: serve_read_only)


lemma find_filter: "find P (filter Q xs) = find (\<lambda>x. Q x \<and> P x) xs"
  by (induction xs) auto

text \<open>What a caller reads depends on its own rows only.\<close>

lemma get_owned_own:
  "get_owned d i u b = find (\<lambda>r. re_id r = i \<and> (b \<or> re_status r \<noteq> DELETED)) (filter (\<lambda>r. re_owner r = u) (resumes d))"
  by (simp add: get_owned_def find_filter conj_left_commute)

lemma profile_own:
  "get_owned_by_resume_id d i u = find (\<lambda>c. cp_resume_id c = i) (filter (\<lambda>c. cp_owner c = u) (profiles d))"
  by (simp add: get_owned_by_resume_id_def find_filter conj_commute)

lemma owned_rows_own:
  "owned_rows d u = sort_key (\<lambda>r. (- re_created_at r, - int (re_id r))) (filter (\<lambda>r. re_status r \<noteq> DELETED) (filter (\<lambda>r. re_owner r = u) (resumes d)))"
  by (simp add: owned_rows_def conj_commute)

lemma get_search_own: "get_search d i u = find (\<lambda>s. se_id s = i) (filter (\<lambda>s. se_user s = u) (searches d))"
  by (simp add: get_search_def find_filter conj_commute)

definition visible_results :: "search_db \<Rightarrow> nat \<Rightarrow> search_result list" where
  "visible_results d u = filter (\<lambda>r. list_ex (\<lambda>s. se_id s = sr_search_id r \<and> se_user s = u) (searches d)) (results d)"

lemma results_own:
  assumes "get_search d i u = Some s"
  shows "filter (\<lambda>r. sr_search_id r = i) (results d) = filter (\<lambda>r. sr_search_id r = i) (visible_results d u)"
  using get_searchD[OF assms] by (auto simp: visible_results_def list_ex_iff intro!: filter_cong)

definition results_page :: "search_result list \<Rightarrow> nat \<Rightarrow> nat \<Rightarrow> search_result list \<times> nat" where
  "results_page rs page page_size =
     (if rs = [] then ([], 0) else (take page_size (drop ((page - 1) * page_size) (sort_key sr_rank rs)), length rs))"

lemma get_results_own:
  "get_search d i u = Some s \<Longrightarrow>
   get_results d i page page_size = results_page (filter (\<lambda>r. sr_search_id r = i) (visible_results d u)) page page_size"
  by (simp add: get_results_def results_page_def result_rows_def Let_def flip: results_own)

lemma get_search_results_own:
  assumes "get_search d i u = get_search d2 i u" "visible_results d u = visible_results d2 u"
  shows "get_search_results cdb d u i page page_size = get_search_results cdb d2 u i page page_size"
proof (cases "get_search d i u")
  case None
  then show ?thesis using assms(1) by (simp add: get_search_results_def)
next
  case (Some s)
  then have "get_results d i page page_size = get_results d2 i page page_size"
    using assms get_results_own[of d i u s] get_results_own[of d2 i u s] by simp
  moreover have "get_search d2 i u = Some s" using assms(1) Some by simp
  ultimately show ?thesis using Some by (simp add: get_search_results_def)
qed

lemma own_view_iff:
  "own_view u st = own_view u st2 \<longleftrightarrow>
     filter (\<lambda>r. re_owner r = u) (resumes (rw_db (as_world st))) = filter (\<lambda>r. re_owner r = u) (resumes (rw_db (as_world st2))) \<and>
     filter (\<lambda>c. cp_owner c = u) (profiles (rw_db (as_world st))) = filter (\<lambda>c. cp_owner c = u) (profiles (rw_db (as_world st2))) \<and>
     filter (\<lambda>s. se_user s = u) (searches (as_searches st)) = filter (\<lambda>s. se_user s = u) (searches (as_searches st2)) \<and>
     visible_results (as_searches st) u = visible_results (as_searches st2) u"
  by (simp add: own_view_def visible_results_def Let_def)

lemma endpoint_answer:
  "fst (body p) = fst (body2 p) \<Longrightarrow> fst (endpoint (Inr p) deps valid body st) = fst (endpoint (Inr p) deps valid body2 st2)"
  by (simp add: endpoint_def split: option.split)

lemma serve_reads_own:
  assumes "own_view (pf_id p) st = own_view (pf_id p) st2" "as_jobs st = as_jobs st2" "read_only rq" "\<not> needs_admin rq"
  shows "fst (serve en (Inr p) rq st) = fst (serve en (Inr p) rq st2)"
proof -
  note view = assms(1)[unfolded own_view_iff]
  have searches: "get_search (as_searches st) i (pf_id p) = get_search (as_searches st2) i (pf_id p)" for i
    using view by (simp add: get_search_own)
  have owned: "get_owned (rw_db (as_world st)) i (pf_id p) b = get_owned (rw_db (as_world st2)) i (pf_id p) b" for i b
    using view by (simp add: get_owned_own)
  have profile: "get_owned_by_resume_id (rw_db (as_world st)) i (pf_id p) = get_owned_by_resume_id (rw_db (as_world st2)) i (pf_id p)" for i
    using view by (simp add: profile_own)
  have candidate: "get_candidate_profile i (pf_id p) (as_world st) = get_candidate_profile i (pf_id p) (as_world st2)" for i
    unfolding get_candidate_profile_def owned profile by (rule refl)
  have listed: "list_owned_page (rw_db (as_world st)) (pf_id p) o' l = list_owned_page (rw_db (as_world st2)) (pf_id p) o' l" for o' l
    using view by (simp add: list_owned_page_def owned_rows_own)
  have recommended: "get_recommendations clock d (rw_db (as_world st)) (pf_id p) = get_recommendations clock d (rw_db (as_world st2)) (pf_id p)" for clock d
    using view by (simp add: get_recommendations_def get_latest_owned_def fun_eq_iff)
  have results: "get_search_results cdb (as_searches st) (pf_id p) i = get_search_results cdb (as_searches st2) (pf_id p) i" for cdb i
    using get_search_results_own[OF searches] view by (simp add: fun_eq_iff)
  have progress: "get_search_progress (as_searches st) (pf_id p) i = get_search_progress (as_searches st2) (pf_id p) i" for i
    using searches by (simp add: get_search_progress_def)
  show ?thesis using assms(2-4)
    by (cases rq) (auto simp: endpoint_defs candidate listed recommended results progress intro!: endpoint_answer split: sum.split prod.split)
qed


lemma endpoint_sel:
  "as_users (snd (body p)) = as_users st \<Longrightarrow> as_users (snd (endpoint (Inr p) deps valid body st)) = as_users st"
  "as_jobs (snd (body p)) = as_jobs st \<Longrightarrow> as_jobs (snd (endpoint (Inr p) deps valid body st)) = as_jobs st"
  "as_security (snd (body p)) = as_security st \<Longrightarrow> as_security (snd (endpoint (Inr p) deps valid body st)) = as_security st"
  by (simp_all add: endpoint_def split: option.split)

lemma serve_public:
  "as_users (snd (serve en auth rq st)) = as_users st"
  "as_jobs (snd (serve en auth rq st)) = as_jobs st"
  "\<not> needs_admin rq \<Longrightarrow> as_security (snd (serve en auth rq st)) = as_security st"
proof -
  have "as_users (snd (serve en auth rq st)) = as_users st \<and> as_jobs (snd (serve en auth rq st)) = as_jobs st \<and>
      (\<not> needs_admin rq \<longrightarrow> as_security (snd (serve en auth rq st)) = as_security st)"
  proof (cases "read_only rq")
    case True
    then show ?thesis by (simp add: serve_read_only)
  next
    case False
    then show ?thesis
      by (cases auth; cases rq) (auto simp: endpoint_defs intro!: endpoint_sel split: sum.split prod.split)
  qed
  then show "as_users (snd (serve en auth rq st)) = as_users st" "as_jobs (snd (serve en auth rq st)) = as_jobs st"
    "\<not> needs_admin rq \<Longrightarrow> as_security (snd (serve en auth rq st)) = as_security st" by blast+
qed

section \<open>Properties\<close>

text \<open>C40: a request without an authorised caller is answered with the error of the authentication and
  changes nothing. The request of an authorised caller never changes what another caller sees,
  whatever fails on the way, and never the profiles or the job pool, and only an administrator
  endpoint changes the security tables; and what a reading endpoint answers is a function of
  the caller's own rows and of the shared job pool alone.\<close>

theorem api_requests_isolated:
  fixes st :: api_state and en :: api_env
  assumes fresh: "resume_db_wf (rw_db (as_world st))" "\<And>p. auth = Inr p \<Longrightarrow> fresh_resume (as_world st) (pf_id p) (en_id en)"
    "en_id en \<notin> se_id ` set (searches (as_searches st))"
  assumes run: "handle_request en verifier cred rq (st, c) = (answer, st', c')"
  assumes auth: "authorize (needs_admin rq) verifier (as_users st) cred c = (auth, c')"
  shows "(\<forall>e. auth = Inl e \<longrightarrow> answer = Inl e \<and> st' = st) \<and>
    as_users st' = as_users st \<and> as_jobs st' = as_jobs st \<and> (\<not> needs_admin rq \<longrightarrow> as_security st' = as_security st) \<and>
    (\<forall>p. auth = Inr p \<longrightarrow>
      (\<forall>u. u \<noteq> pf_id p \<longrightarrow> own_view u st' = own_view u st) \<and>
      (\<forall>st2. as_users st2 = as_users st \<and> as_jobs st2 = as_jobs st \<and> own_view (pf_id p) st2 = own_view (pf_id p) st \<and>
         read_only rq \<and> \<not> needs_admin rq \<longrightarrow> fst (handle_request en verifier cred rq (st2, c)) = answer))"
proof -
  have serve: "serve en auth rq st = (answer, st')"
    using run auth by (simp add: handle_request_def split: prod.splits)
  then have st': "st' = snd (serve en auth rq st)" and answer: "answer = fst (serve en auth rq st)" by simp_all
  have "fst (handle_request en verifier cred rq (st2, c)) = answer"
    if "auth = Inr p" "as_users st2 = as_users st" "as_jobs st2 = as_jobs st" "own_view (pf_id p) st2 = own_view (pf_id p) st"
      "read_only rq" "\<not> needs_admin rq" for p st2
    using auth that serve_reads_own[of p st2 st rq en] answer by (simp add: handle_request_def case_prod_beta)
  moreover have "own_view u st' = own_view u st" if "auth = Inr p" "u \<noteq> pf_id p" for u p
    using serve_isolates[OF fresh(1) fresh(2)[OF that(1)] fresh(3) that(2), of rq] that(1) st' by simp
  ultimately show ?thesis using serve serve_public[where en = en and auth = auth and rq = rq and st = st] st' by auto
qed


definition two_users :: api_state where
  "two_users = \<lparr>as_users = [\<lparr>pf_id = 8, pf_auth_user = 10, pf_email = ''e@x.io'', pf_role = EMPLOYEE, pf_active = True,
     pf_created_at = 0\<rparr>], as_jobs = empty_db, as_world = uploaded_world, as_searches = empty_search_db, as_queue = [],
     as_security = \<lparr>ip_rules = [], audit_events = []\<rparr>\<rparr>"

definition any_env :: api_env where
  "any_env = \<lparr>en_now = 10, en_clock = (\<lambda>_. 10), en_id = 2, en_event = 1, en_storage = sample_settings, en_max_upload = 100,
     en_sha256 = (\<lambda>_. replicate 64 CHR ''b''), en_faults = no_faults, en_parse = (\<lambda>_. ParseCrashed),
     en_wiring = \<lparr>sw_http_client = True, sw_executor = True, sw_supabase_url = Some ''https://p.co'',
       sw_supabase_secret = Some ''k'', sw_redis = True\<rparr>,
     en_enqueued = True, en_commit = True, en_allow = \<lparr>al_enabled = False, al_fail_closed = True, al_bypass = []\<rparr>,
     en_ip = None, en_agent = None\<rparr>"

definition trusting :: "string \<Rightarrow> unit \<Rightarrow> (auth_error + claims) \<times> unit" where
  "trusting token u = (Inr \<lparr>vc_subject = 10, vc_email = None, vc_session = None, vc_role = None\<rparr>, u)"

theorem api_requests_isolated_witness:
  "own_view 7 (fst (snd (handle_request any_env (Some trusting) (Some sample_credentials) (DeleteResume 1) (two_users, ()))))
     = own_view 7 two_users"
proof -
  let ?p = "hd (as_users two_users)"
  have p: "authorize False (Some trusting) (as_users two_users) (Some sample_credentials) () = (Inr ?p, ())" "pf_id ?p = 8"
    by code_simp+
  obtain a st' where run: "handle_request any_env (Some trusting) (Some sample_credentials) (DeleteResume 1) (two_users, ()) = (a, st', ())"
    by (metis prod.collapse old.unit.exhaust)
  have "resume_db_wf (rw_db (as_world two_users))" using reachable_wf[OF concrete_reachable(1)] by (simp add: two_users_def)
  moreover have "fresh_resume (as_world two_users) (pf_id ?p) (en_id any_env)"
    unfolding fresh_resume_def p(2) by code_simp
  ultimately have "own_view 7 st' = own_view 7 two_users"
    using api_requests_isolated[OF _ _ _ run, of "Inr ?p"] p by (simp add: two_users_def empty_search_db_def)
  then show ?thesis using run by simp
qed

end
