(* ===== verification/App.thy ===== *)
theory App
  imports Api IpGate Config
begin

text \<open>
  The application (\<open>src/app/main.py\<close>, with \<open>src/app/api/root.py\<close> and
  \<open>src/app/api/v1/routes/health.py\<close>): one HTTP request through everything \<open>create_app\<close> stacks in
  front of the endpoints, outermost first: the request context, the upload limit, the security
  middleware, the trusted hosts, CORS, the exception handlers and the router. The limit, the
  gate, the handlers and the endpoints are those of the other theories. What the framework does
  of its own (trusted hosts, CORS, matching a route and parsing its parameters, writing an
  answer) is the record \<open>framework\<close>. An unexpected exception leaves every middleware and is
  answered by the framework's outermost layer with the registered handler.
\<close>

record app_config =
  ap_security :: security_settings
  ap_resume_max :: nat
  ap_environment :: environment
  ap_name :: string
  ap_version :: string

text \<open>\<open>de_reads\<close>: how many messages of the body the application asks for; \<open>de_fresh\<close>: the
  identifier drawn for the request; \<open>de_probe\<close>: the outcome of the database probe, \<open>None\<close>
  without a pool.\<close>

record delivery =
  de_arrival :: arrival
  de_fresh :: string
  de_messages :: "asgi_message list"
  de_reads :: nat
  de_probe :: "bool option"

datatype target = Endpoint "credentials option" api_request | Root | Health | Readiness

datatype app_answer = EndpointAnswer api_answer | RootAnswer string string "string option" string | HealthAnswer string string string

record framework =
  fw_host_ok :: "http_request \<Rightarrow> bool"
  fw_host_error :: response
  fw_preflight :: "http_request \<Rightarrow> response option"
  fw_cors_headers :: "http_request \<Rightarrow> response \<Rightarrow> response"
  fw_route :: "http_request \<Rightarrow> asgi_message list \<Rightarrow> py_exception + target"
  fw_render :: "app_answer \<Rightarrow> response"

section \<open>Public endpoints\<close>

definition docs_url :: "app_config \<Rightarrow> string option" where
  "docs_url ap = (if ap_environment ap \<in> {Local, Test} then Some ''/docs'' else None)"

definition get_root :: "app_config \<Rightarrow> app_answer" where
  "get_root ap = RootAnswer (ap_name ap) ''running'' (docs_url ap) (ss_prefix (ap_security ap) @ ''/health'')"

definition health :: "app_config \<Rightarrow> app_answer" where
  "health ap = HealthAnswer ''ok'' ''hireandtech-api'' (ap_version ap)"

definition database_unavailable :: py_exception where
  "database_unavailable = Application (app_error_of ''DATABASE_UNAVAILABLE'' ''The service is temporarily unavailable.'' 503)"

definition readiness :: "app_config \<Rightarrow> bool option \<Rightarrow> py_exception + app_answer" where
  "readiness ap probe = (case probe of
      None \<Rightarrow> Inl database_unavailable
    | Some reachable \<Rightarrow> if reachable then Inr (health ap) else Inl database_unavailable)"

section \<open>The stack\<close>

definition run_target ::
  "app_config \<Rightarrow> (string \<Rightarrow> 'c \<Rightarrow> (auth_error + claims) \<times> 'c) option \<Rightarrow> api_env \<Rightarrow> bool option \<Rightarrow> target \<Rightarrow> api_state \<times> 'c \<Rightarrow>
   (py_exception + app_answer) \<times> api_state \<times> 'c" where
  "run_target ap verifier en probe t w = (case t of
      Endpoint cred rq \<Rightarrow> (case handle_request en verifier cred rq w of (a, w') \<Rightarrow> (map_sum id EndpointAnswer a, w'))
    | Root \<Rightarrow> (Inr (get_root ap), w)
    | Health \<Rightarrow> (Inr (health ap), w)
    | Readiness \<Rightarrow> (readiness ap probe, w))"

datatype flow = Responded response | Raised py_exception

text \<open>The exception handlers around the router; only an unexpected exception goes further.\<close>

fun caught :: "framework \<Rightarrow> string \<Rightarrow> py_exception + app_answer \<Rightarrow> flow" where
  "caught fw rid (Inr a) = Responded (fw_render fw a)"
| "caught fw rid (Inl (Unexpected e)) = Raised (Unexpected e)"
| "caught fw rid (Inl e) = Responded (handle_exception rid e)"

fun with_cors :: "framework \<Rightarrow> http_request \<Rightarrow> flow \<Rightarrow> flow" where
  "with_cors fw rq (Responded r) = Responded (fw_cors_headers fw rq r)"
| "with_cors fw rq (Raised e) = Raised e"

definition request_env :: "app_config \<Rightarrow> http_request \<Rightarrow> ip option \<Rightarrow> api_env \<Rightarrow> api_env" where
  "request_env ap rq client en = en\<lparr>en_ip := client, en_agent := request_header ''user-agent'' rq,
     en_allow := ss_allow (ap_security ap), en_max_upload := ap_resume_max ap\<rparr>"

definition too_large :: "string \<Rightarrow> flow" where
  "too_large rid = Responded (handle_exception rid (Application body_too_large))"

text \<open>Trusted hosts, CORS, router: \<open>given\<close> is what the upload limit lets through of the body.\<close>

definition inner_app ::
  "app_config \<Rightarrow> framework \<Rightarrow> (string \<Rightarrow> 'c \<Rightarrow> (auth_error + claims) \<times> 'c) option \<Rightarrow> api_env \<Rightarrow> bool option \<Rightarrow> string \<Rightarrow>
   http_request \<Rightarrow> asgi_message list \<Rightarrow> bool \<Rightarrow> api_state \<times> 'c \<Rightarrow> flow \<times> api_state \<times> 'c" where
  "inner_app ap fw verifier en probe rid rq given over w =
     (if \<not> fw_host_ok fw rq then (Responded (fw_host_error fw), w)
      else case fw_preflight fw rq of
          Some r \<Rightarrow> (Responded r, w)
        | None \<Rightarrow>
            if over then (too_large rid, w)
            else case fw_route fw rq given of
                Inl e \<Rightarrow> (with_cors fw rq (caught fw rid (Inl e)), w)
              | Inr t \<Rightarrow> (case run_target ap verifier en probe t w of (a, w') \<Rightarrow> (with_cors fw rq (caught fw rid a), w')))"

definition upload_limit :: "app_config \<Rightarrow> delivery \<Rightarrow> body_outcome" where
  "upload_limit ap de = (let rq = ar_request (de_arrival de) in
     limit_body (ss_prefix (ap_security ap)) (ap_resume_max ap) (hq_method rq) (hq_path rq)
       (request_header ''content-length'' rq) (de_reads de) (de_messages de))"

definition app_stack ::
  "app_config \<Rightarrow> framework \<Rightarrow> 's store_op \<Rightarrow> (string \<Rightarrow> 'c \<Rightarrow> (auth_error + claims) \<times> 'c) option \<Rightarrow> api_env \<Rightarrow> delivery \<Rightarrow> string \<Rightarrow>
   api_state \<times> 's \<times> 'c \<Rightarrow> flow \<times> api_state \<times> 's \<times> 'c" where
  "app_stack ap fw store verifier en de rid w = (case w of (st, lm, c) \<Rightarrow>
     (let ar = (de_arrival de)\<lparr>ar_request_id := Some rid\<rparr>; rq = ar_request ar in
      case upload_limit ap de of
        BodyRejected \<Rightarrow> (too_large rid, w)
      | BodyPassed given over \<Rightarrow>
          (case gate (ap_security ap) store ar (as_security st, lm) of (v, sdb, lm') \<Rightarrow>
             (let st' = st\<lparr>as_security := sdb\<rparr> in
              case v of
                Answered r \<Rightarrow> (Responded r, st', lm', c)
              | Forwarded client \<Rightarrow>
                  (case inner_app ap fw verifier (request_env ap rq client en) (de_probe de) rid rq given over (st', c) of
                     (f, st2, c2) \<Rightarrow> (f, st2, lm', c2))
              | Passed \<Rightarrow> (Raised (Unexpected ''not an HTTP request''), st', lm', c)))))"

text \<open>The request context around the stack, and the framework's last resort.\<close>

definition answer_request ::
  "app_config \<Rightarrow> framework \<Rightarrow> 's store_op \<Rightarrow> (string \<Rightarrow> 'c \<Rightarrow> (auth_error + claims) \<times> 'c) option \<Rightarrow> api_env \<Rightarrow> delivery \<Rightarrow>
   api_state \<times> 's \<times> 'c \<Rightarrow> response \<times> api_state \<times> 's \<times> 'c" where
  "answer_request ap fw store verifier en de w =
     (let rid = choose_request_id (de_fresh de) (request_header ''x-request-id'' (ar_request (de_arrival de))) in
      case app_stack ap fw store verifier en de rid w of (f, w') \<Rightarrow>
        (case f of Responded r \<Rightarrow> r\<lparr>rs_headers := with_request_id rid (rs_headers r)\<rparr> | Raised e \<Rightarrow> handle_exception rid e, w'))"

section \<open>What stands between a request and the data\<close>

text \<open>Everything but the audit trail.\<close>

definition protected :: "api_state \<Rightarrow> profile list \<times> db \<times> resume_world \<times> search_db \<times> nat list \<times> ip_rule list" where
  "protected st = (as_users st, as_jobs st, as_world st, as_searches st, as_queue st, ip_rules (as_security st))"

definition admitted :: "security_settings \<Rightarrow> arrival \<Rightarrow> security_db \<Rightarrow> bool" where
  "admitted ss ar db \<longleftrightarrow> (let ip = resolve_request_ip ss (ar_request ar) in
     \<not> al_enabled (ss_allow ss) \<or> excluded_request ss (ar_request ar) \<or> bypassed (ss_allow ss) ip \<or>
     (case ip of None \<Rightarrow> False | Some a \<Rightarrow> admits (ip_rules db) a) \<or>
     \<not> al_fail_closed (ss_allow ss) \<and> allowlist_query (ar_faults ar) db ip = None)"

lemma allowlist_stage_facts:
  "allowlist_stage ss ar db = (res, db') \<Longrightarrow> ip_rules db' = ip_rules db \<and> (res = None \<longrightarrow> admitted ss ar db)"
  by (auto simp: allowlist_stage_def Let_def admitted_def enforce_allowlist_def allowlist_query_def rules_match_def admits_def
        list_ex_iff split: if_splits option.splits bool.splits)

lemma gate_facts:
  assumes "gate ss store ar (db, lm) = (v, sdb, lm')"
  shows "ip_rules sdb = ip_rules db" and "v = Forwarded ip \<Longrightarrow> admitted ss ar db"
proof -
  obtain res db' where stage: "allowlist_stage ss ar db = (res, db')" by fastforce
  show "ip_rules sdb = ip_rules db" using assms allowlist_stage_facts[OF stage] stage
    by (auto simp: gate_def Let_def split: if_splits option.splits prod.splits)
  show "admitted ss ar db" if "v = Forwarded ip" using assms allowlist_stage_facts[OF stage] stage that
    by (auto simp: gate_def Let_def answer_error_def split: if_splits option.splits prod.splits)
qed

lemma admitted_request_id [simp]: "admitted ss (ar\<lparr>ar_request_id := i\<rparr>) db = admitted ss ar db"
  by (simp add: admitted_def)

lemma inner_app_changes:
  assumes "inner_app ap fw verifier en probe rid rq given over (st, c) = (f, st', c')" "st' \<noteq> st"
  obtains cred q p where "fw_host_ok fw rq" "fw_preflight fw rq = None" "\<not> over" "fw_route fw rq given = Inr (Endpoint cred q)"
    "fst (authorize (needs_admin q) verifier (as_users st) cred c) = Inr p" "st' = snd (serve en (Inr p) q st)" "\<not> read_only q"
proof -
  have guards: "fw_host_ok fw rq" "fw_preflight fw rq = None" "\<not> over"
    using assms by (auto simp: inner_app_def split: if_splits option.splits)
  then obtain cred q where q: "fw_route fw rq given = Inr (Endpoint cred q)"
    "st' = fst (snd (handle_request en verifier cred q (st, c)))"
    using assms by (auto simp: inner_app_def run_target_def split: sum.splits target.splits prod.splits)
  obtain auth c2 where auth: "authorize (needs_admin q) verifier (as_users st) cred c = (auth, c2)" by fastforce
  have st': "st' = snd (serve en auth q st)" using q(2) auth by (simp add: handle_request_def case_prod_beta)
  then obtain p where p: "auth = Inr p" using assms(2) by (cases auth) simp_all
  show thesis
    by (rule that[OF guards q(1), of p]) (use auth st' p assms(2) serve_read_only[of q en auth st] in auto)
qed

lemma request_env_id [simp]: "en_id (request_env ap rq client en) = en_id en"
  by (simp add: request_env_def)

lemma own_view_security [simp]: "own_view u (st\<lparr>as_security := x\<rparr>) = own_view u st"
  by (simp add: own_view_def)

lemma upload_limit_given:
  assumes "upload_limit ap de = BodyPassed given over"
    "body_limited (ss_prefix (ap_security ap)) (hq_method (ar_request (de_arrival de))) (hq_path (ar_request (de_arrival de)))"
  shows "body_bytes given \<le> ap_resume_max ap + multipart_overhead"
  using assms upload_body_bounded[where api_prefix = "ss_prefix (ap_security ap)" and max_size = "ap_resume_max ap"
    and meth = "hq_method (ar_request (de_arrival de))" and path = "hq_path (ar_request (de_arrival de))"
    and len = "request_header ''content-length'' (ar_request (de_arrival de))" and reads = "de_reads de" and ms = "de_messages de"]
  by (simp add: upload_limit_def Let_def)

lemma lower_request_id_text: "lower ''x-request-id'' = ''x-request-id''"
  by code_simp

lemma answer_request_id:
  "\<exists>h \<in> set (rs_headers (fst (answer_request ap fw store verifier en de w))). lower (fst h) = ''x-request-id''"
proof -
  let ?named = "\<lambda>r. \<exists>h \<in> set (rs_headers r). lower (fst h) = ''x-request-id''"
  have "?named (handle_exception rid e)" for rid e
    using handle_exception_id_header[of rid e] lower_request_id_name by force
  moreover have "?named (r\<lparr>rs_headers := with_request_id rid (rs_headers r)\<rparr>)" for rid r
    using lower_request_id_text by (auto simp: with_request_id_def list_ex_iff)
  ultimately show ?thesis by (auto simp: answer_request_def Let_def split: prod.split flow.split)
qed

text \<open>The gate, the upload limit and the inner application behind a change of the data.\<close>

lemma answer_request_changes:
  assumes run: "answer_request ap fw store verifier en de (st, lm, c) = (r, st', lm', c')"
    and change: "protected st' \<noteq> protected st"
  obtains given cred q p client sdb where "upload_limit ap de = BodyPassed given False"
    "admitted (ap_security ap) (de_arrival de) (as_security st)" "ip_rules sdb = ip_rules (as_security st)"
    "fw_host_ok fw (ar_request (de_arrival de))" "fw_preflight fw (ar_request (de_arrival de)) = None"
    "fw_route fw (ar_request (de_arrival de)) given = Inr (Endpoint cred q)" "\<not> read_only q"
    "fst (authorize (needs_admin q) verifier (as_users st) cred c) = Inr p"
    "st' = snd (serve (request_env ap (ar_request (de_arrival de)) client en) (Inr p) q (st\<lparr>as_security := sdb\<rparr>))"
proof -
  let ?rid = "choose_request_id (de_fresh de) (request_header ''x-request-id'' (ar_request (de_arrival de)))"
  let ?ar = "(de_arrival de)\<lparr>ar_request_id := Some ?rid\<rparr>" and ?rq = "ar_request (de_arrival de)"
  obtain f where stack: "app_stack ap fw store verifier en de ?rid (st, lm, c) = (f, st', lm', c')"
    using run by (auto simp: answer_request_def Let_def split: prod.splits)
  then obtain given over where limit: "upload_limit ap de = BodyPassed given over"
    using change by (cases "upload_limit ap de") (auto simp: app_stack_def Let_def)
  obtain v sdb lm1 where gate: "gate (ap_security ap) store ?ar (as_security st, lm) = (v, sdb, lm1)" by (metis prod_cases3)
  note rules = gate_facts(1)[OF gate]
  have same: "protected (st\<lparr>as_security := sdb\<rparr>) = protected st" using rules by (simp add: protected_def)
  obtain client where v: "v = Forwarded client"
    using stack limit gate change same by (cases v) (auto simp: app_stack_def Let_def)
  have inner: "inner_app ap fw verifier (request_env ap ?rq client en) (de_probe de) ?rid ?rq given over
      (st\<lparr>as_security := sdb\<rparr>, c) = (f, st', c')"
    using stack limit gate v by (auto simp: app_stack_def Let_def split: prod.splits)
  have "st' \<noteq> st\<lparr>as_security := sdb\<rparr>" using change same by auto
  then show thesis
    by (rule inner_app_changes[OF inner])
      (rule that[of given sdb _ _ _ client], use limit gate_facts(2)[OF gate v] rules in simp_all)
qed

section \<open>Properties\<close>

text \<open>C5: from the socket to the tables. Every answer carries a correlation header. Nothing but
  the audit trail is changed by a request unless its address is admitted, its host trusted, its
  body within the upload limit and its route an endpoint that writes, called with credentials
  that belong to an active profile, an administrator's for the security endpoints. Then neither
  the profiles nor the job pool change, the address rules only for an administrator, and no other
  profile sees a difference in its own rows.\<close>

theorem request_passes_every_guard:
  assumes "answer_request ap fw store (Some verify) en de (st, lm, c) = (r, st', lm', c')"
  shows "(\<exists>h \<in> set (rs_headers r). lower (fst h) = ''x-request-id'') \<and>
    (protected st' \<noteq> protected st \<longrightarrow>
      admitted (ap_security ap) (de_arrival de) (as_security st) \<and>
      fw_host_ok fw (ar_request (de_arrival de)) \<and>
      (\<exists>given cred q cl p c2. upload_limit ap de = BodyPassed given False \<and>
        (body_limited (ss_prefix (ap_security ap)) (hq_method (ar_request (de_arrival de))) (hq_path (ar_request (de_arrival de)))
          \<longrightarrow> body_bytes given \<le> ap_resume_max ap + multipart_overhead) \<and>
        fw_route fw (ar_request (de_arrival de)) given = Inr (Endpoint (Some cred) q) \<and> \<not> read_only q \<and>
        verify (cd_token cred) c = (Inr cl, c2) \<and> get_by_auth_user (as_users st) (vc_subject cl) = Some p \<and> pf_active p \<and>
        (needs_admin q \<longrightarrow> pf_role p = ADMIN) \<and>
        as_users st' = as_users st \<and> as_jobs st' = as_jobs st \<and>
        (pf_role p \<noteq> ADMIN \<longrightarrow> ip_rules (as_security st') = ip_rules (as_security st)) \<and>
        (resume_db_wf (rw_db (as_world st)) \<and> fresh_resume (as_world st) (pf_id p) (en_id en) \<and>
           en_id en \<notin> se_id ` set (searches (as_searches st)) \<longrightarrow>
         (\<forall>u. u \<noteq> pf_id p \<longrightarrow> own_view u st' = own_view u st))))"
proof (intro conjI impI)
  show "\<exists>h \<in> set (rs_headers r). lower (fst h) = ''x-request-id''"
    using answer_request_id[of ap fw store "Some verify" en de "(st, lm, c)"] assms by simp
  assume "protected st' \<noteq> protected st"
  then obtain given cred q p client sdb where facts: "upload_limit ap de = BodyPassed given False"
    "admitted (ap_security ap) (de_arrival de) (as_security st)" "ip_rules sdb = ip_rules (as_security st)"
    "fw_host_ok fw (ar_request (de_arrival de))"
    "fw_route fw (ar_request (de_arrival de)) given = Inr (Endpoint cred q)" "\<not> read_only q"
    and auth: "fst (authorize (needs_admin q) (Some verify) (as_users st) cred c) = Inr p"
    and st': "st' = snd (serve (request_env ap (ar_request (de_arrival de)) client en) (Inr p) q (st\<lparr>as_security := sdb\<rparr>))"
    by (rule answer_request_changes[OF assms])
  show "admitted (ap_security ap) (de_arrival de) (as_security st)" "fw_host_ok fw (ar_request (de_arrival de))"
    by (rule facts)+
  obtain cd cl c2 where who: "cred = Some cd" "verify (cd_token cd) c = (Inr cl, c2)"
    "get_by_auth_user (as_users st) (vc_subject cl) = Some p" "pf_active p" "needs_admin q \<longrightarrow> pf_role p = ADMIN"
    by (rule authorize_cases[of "needs_admin q" verify "as_users st" cred c p "snd (authorize (needs_admin q) (Some verify) (as_users st) cred c)"])
      (use auth in \<open>simp add: prod_eq_iff\<close>)
  let ?st = "st\<lparr>as_security := sdb\<rparr>"
  have public: "as_users st' = as_users st" "as_jobs st' = as_jobs st" "\<not> needs_admin q \<Longrightarrow> as_security st' = sdb"
    using serve_public[where st = ?st and rq = q] st' by simp_all
  have "own_view u st' = own_view u st" if "resume_db_wf (rw_db (as_world st))" "fresh_resume (as_world st) (pf_id p) (en_id en)"
      "en_id en \<notin> se_id ` set (searches (as_searches st))" "u \<noteq> pf_id p" for u
    using serve_isolates[of ?st p "request_env ap (ar_request (de_arrival de)) client en" u q] that st' by simp
  then show "\<exists>given cred q cl p c2. upload_limit ap de = BodyPassed given False \<and>
      (body_limited (ss_prefix (ap_security ap)) (hq_method (ar_request (de_arrival de))) (hq_path (ar_request (de_arrival de)))
        \<longrightarrow> body_bytes given \<le> ap_resume_max ap + multipart_overhead) \<and>
      fw_route fw (ar_request (de_arrival de)) given = Inr (Endpoint (Some cred) q) \<and> \<not> read_only q \<and>
      verify (cd_token cred) c = (Inr cl, c2) \<and> get_by_auth_user (as_users st) (vc_subject cl) = Some p \<and> pf_active p \<and>
      (needs_admin q \<longrightarrow> pf_role p = ADMIN) \<and>
      as_users st' = as_users st \<and> as_jobs st' = as_jobs st \<and>
      (pf_role p \<noteq> ADMIN \<longrightarrow> ip_rules (as_security st') = ip_rules (as_security st)) \<and>
      (resume_db_wf (rw_db (as_world st)) \<and> fresh_resume (as_world st) (pf_id p) (en_id en) \<and>
         en_id en \<notin> se_id ` set (searches (as_searches st)) \<longrightarrow>
       (\<forall>u. u \<noteq> pf_id p \<longrightarrow> own_view u st' = own_view u st))"
    using facts who public upload_limit_given[OF facts(1)]
    by (intro exI[of _ given] exI[of _ cd] exI[of _ q] exI[of _ cl] exI[of _ p] exI[of _ c2]) auto
qed

definition sample_framework :: framework where
  "sample_framework = \<lparr>fw_host_ok = (\<lambda>_. True), fw_host_error = \<lparr>rs_status = 400, rs_content = [], rs_headers = []\<rparr>,
     fw_preflight = (\<lambda>_. None), fw_cors_headers = (\<lambda>_ r. r),
     fw_route = (\<lambda>_ _. Inr (Endpoint (Some sample_credentials) (StartSearch \<lparr>ar_query = None, ar_location = None, ar_remote_type = None,
        ar_job_type = None, ar_experience_min = None, ar_experience_max = None, ar_limit = 10\<rparr>))),
     fw_render = (\<lambda>_. \<lparr>rs_status = 202, rs_content = [], rs_headers = []\<rparr>)\<rparr>"

definition sample_config :: app_config where
  "sample_config = \<lparr>ap_security = sample_security, ap_resume_max = 1024, ap_environment = Test, ap_name = ''api'', ap_version = ''1''\<rparr>"

definition sample_delivery :: delivery where
  "sample_delivery = \<lparr>de_arrival = sample_arrival ''10.0.0.7'' 0, de_fresh = ''f1'', de_messages = [], de_reads = 1, de_probe = Some True\<rparr>"

definition listed_users :: api_state where
  "listed_users = two_users\<lparr>as_security := sample_rules\<rparr>"

definition sample_answer :: "response \<times> api_state \<times> bounded_store \<times> unit" where
  "sample_answer = answer_request sample_config sample_framework bounded_op (Some trusting) any_env sample_delivery (listed_users, new_store 5, ())"

theorem request_passes_every_guard_witness:
  "length (searches (as_searches (fst (snd sample_answer)))) = 1 \<and> admitted sample_security (sample_arrival ''10.0.0.7'' 0) sample_rules"
proof -
  have "length (searches (as_searches (fst (snd sample_answer)))) = 1" "length (searches (as_searches listed_users)) = 0" by code_simp+
  moreover have "answer_request sample_config sample_framework bounded_op (Some trusting) any_env sample_delivery (listed_users, new_store 5, ())
      = (fst sample_answer, fst (snd sample_answer), fst (snd (snd sample_answer)), snd (snd (snd sample_answer)))"
    by (simp only: prod.collapse sample_answer_def)
  ultimately show ?thesis
    using request_passes_every_guard[of sample_config sample_framework bounded_op trusting any_env sample_delivery listed_users "new_store 5" "()"
        "fst sample_answer" "fst (snd sample_answer)" "fst (snd (snd sample_answer))" "snd (snd (snd sample_answer))"]
    by (auto simp: protected_def sample_config_def sample_delivery_def listed_users_def)
qed

end
