(* ===== verification/Repair.thy ===== *)
theory Repair
  imports Dice
begin

text \<open>
  The repair command for incomplete canonical Dice jobs
  (\<open>src/scripts/repair_incomplete_dice_jobs.py\<close>): its read-only report, the local repair, which
  replays legacy rows through normalization and ingestion in one transaction, and the live
  repair, which fetches detail pages. The SQL predicates are two-valued because every
  disjunct tests for null; text columns are compared in the order of their characters. A
  run reads the clock once.
\<close>

section \<open>The SQL predicates\<close>

text \<open>\<open>nullif(btrim(v), '') IS NULL\<close>: \<open>btrim\<close> removes blanks only.\<close>

definition blank_sql :: "string option \<Rightarrow> bool" where
  "blank_sql v = (case v of None \<Rightarrow> True | Some s \<Rightarrow> list_all (\<lambda>c. c = CHR '' '') s)"

definition incomplete :: "canonical_job \<Rightarrow> bool" where
  "incomplete j \<longleftrightarrow> cj_company_id j = None \<or> blank_sql (cj_location j) \<or> blank_sql (cj_description j) \<or>
     blank_sql (cj_employment_type j) \<or> cj_posted_at j = None"

text \<open>The legacy row is missing in the outer join when it is \<open>None\<close>.\<close>

definition local_improvement :: "canonical_job \<Rightarrow> global_job option \<Rightarrow> bool" where
  "local_improvement j legacy = (case legacy of
      None \<Rightarrow> False
    | Some g \<Rightarrow> cj_company_id j = None \<and> \<not> blank_sql (gj_company g) \<or>
        blank_sql (cj_location j) \<and> \<not> blank_sql (gj_location g) \<or>
        blank_sql (cj_description j) \<and> \<not> blank_sql (gj_description g) \<or>
        blank_sql (cj_employment_type j) \<and> \<not> blank_sql (gj_employment_type g) \<or>
        cj_posted_at j = None \<and> gj_posted_at g \<noteq> None)"

definition legacy_of :: "global_db \<Rightarrow> source_row \<Rightarrow> global_job option" where
  "legacy_of g r = List.find (\<lambda>x. gj_source x = js_source r \<and> gj_external_id x = js_source_job_id r) (gd_rows g)"

text \<open>The rows \<open>jobs\<close> joined with their Dice listings and the legacy rows.\<close>

type_synonym dice_row = "source_row \<times> canonical_job \<times> global_job option"

definition dice_rows :: "global_db \<Rightarrow> db \<Rightarrow> dice_row list" where
  "dice_rows g d = List.map_filter (\<lambda>r. map_option (\<lambda>j. (r, j, legacy_of g r)) (get_job d (js_job_id r)))
     (filter (\<lambda>r. js_source r = ''dice'') (sources d))"

section \<open>The report\<close>

definition migration_stub :: "source_row \<Rightarrow> bool" where
  "migration_stub r \<longleftrightarrow> dget (js_raw_data r) ''legacy_global_job_id'' \<noteq> None"

definition detail_payload :: "source_row \<Rightarrow> bool" where
  "detail_payload r \<longleftrightarrow> js_raw_data r \<noteq> [] \<and> \<not> migration_stub r"

definition legacy_hash :: "global_job option \<Rightarrow> string option" where
  "legacy_hash legacy = Option.bind legacy gj_content_hash"

definition repair_report :: "global_db \<Rightarrow> db \<Rightarrow> (string \<times> nat) list" where
  "repair_report g d = (let rows = dice_rows g d; count = (\<lambda>P. length (filter P rows)) in
     [(''total'', length rows),
      (''with_company'', count (\<lambda>(r, j, l). cj_company_id j \<noteq> None)),
      (''missing_company'', count (\<lambda>(r, j, l). cj_company_id j = None)),
      (''with_location'', count (\<lambda>(r, j, l). \<not> blank_sql (cj_location j))),
      (''missing_location'', count (\<lambda>(r, j, l). blank_sql (cj_location j))),
      (''with_description'', count (\<lambda>(r, j, l). \<not> blank_sql (cj_description j))),
      (''missing_description'', count (\<lambda>(r, j, l). blank_sql (cj_description j))),
      (''with_employment_type'', count (\<lambda>(r, j, l). \<not> blank_sql (cj_employment_type j))),
      (''missing_employment_type'', count (\<lambda>(r, j, l). blank_sql (cj_employment_type j))),
      (''with_posted_at'', count (\<lambda>(r, j, l). cj_posted_at j \<noteq> None)),
      (''missing_posted_at'', count (\<lambda>(r, j, l). cj_posted_at j = None)),
      (''with_skills'', count (\<lambda>(r, j, l). cj_skills j \<noteq> [])),
      (''empty_skills'', count (\<lambda>(r, j, l). cj_skills j = [])),
      (''with_source_url'', count (\<lambda>(r, j, l). \<not> blank_sql (js_source_url r))),
      (''missing_source_url'', count (\<lambda>(r, j, l). blank_sql (js_source_url r))),
      (''migration_stubs'', count (\<lambda>(r, j, l). migration_stub r)),
      (''detail_payloads'', count (\<lambda>(r, j, l). detail_payload r)),
      (''incomplete_detail_payloads'', count (\<lambda>(r, j, l). detail_payload r \<and> incomplete j)),
      (''locally_repairable'', count (\<lambda>(r, j, l). local_improvement j l)),
      (''locally_repairable_same_hash'',
         count (\<lambda>(r, j, l). local_improvement j l \<and> legacy_hash l = Some (js_content_hash r))),
      (''locally_repairable_changed_hash'', count (\<lambda>(r, j, l). local_improvement j l \<and>
         (case legacy_hash l of None \<Rightarrow> False | Some h \<Rightarrow> js_content_hash r \<noteq> h))),
      (''requiring_detail_fetch'', count (\<lambda>(r, j, l). incomplete j \<and> \<not> local_improvement j l))])"

section \<open>Local repair\<close>

definition candidate_ids :: "global_db \<Rightarrow> db \<Rightarrow> nat \<Rightarrow> string list" where
  "candidate_ids g d limit = take limit (sort (List.map_filter
     (\<lambda>(r, j, l). case l of
        Some x \<Rightarrow> if incomplete j \<and> local_improvement j l then Some (gj_external_id x) else None
      | None \<Rightarrow> None) (dice_rows g d)))"

definition local_candidates :: "global_db \<Rightarrow> db \<Rightarrow> nat \<Rightarrow> global_job list" where
  "local_candidates g d limit = (let ids = candidate_ids g d limit in
     sort_key gj_external_id (filter (\<lambda>x. gj_source x = ''dice'' \<and> gj_external_id x \<in> set ids) (gd_rows g)))"

definition raw_from_legacy :: "global_job \<Rightarrow> raw_job" where
  "raw_from_legacy x = \<lparr>rj_source = gj_source x, rj_external_id = gj_external_id x, rj_title = gj_title x,
     rj_company = gj_company x, rj_location = gj_location x, rj_url = gj_url x, rj_description = gj_description x,
     rj_salary_text = gj_salary_text x, rj_salary_min = None, rj_salary_max = None, rj_salary_currency = None,
     rj_salary_period = None, rj_employment_type = gj_employment_type x, rj_remote = gj_remote x, rj_remote_type = None,
     rj_posted_at = map_option (\<lambda>t. Aware t 0) (gj_posted_at x), rj_source_updated_at = None, rj_skills = gj_skills x,
     rj_experience_min = None, rj_experience_max = None, rj_experience_text = None, rj_raw_data = []\<rparr>"

datatype repair_error = NotNormalizable normalize_error | NotIngestible db_error

fun replay :: "digests \<Rightarrow> int \<Rightarrow> global_job list \<Rightarrow> db \<Rightarrow> repair_error + db" where
  "replay dg now [] d = Inr d"
| "replay dg now (x # xs) d = (case normalize_job (dg_content dg) (raw_from_legacy x) of
      Inl e \<Rightarrow> Inl (NotNormalizable e)
    | Inr j \<Rightarrow> (case ingest (dg_text dg) d j now of
        Inl e \<Rightarrow> Inl (NotIngestible e)
      | Inr (_, d') \<Rightarrow> replay dg now xs d'))"

text \<open>One transaction: an error leaves the database as it was.\<close>

definition apply_local :: "digests \<Rightarrow> int \<Rightarrow> nat \<Rightarrow> global_db \<Rightarrow> db \<Rightarrow> (repair_error + nat) \<times> db" where
  "apply_local dg now limit g d = (let xs = local_candidates g d limit in
     (case replay dg now xs d of
        Inl e \<Rightarrow> (Inl e, d)
      | Inr d' \<Rightarrow> (Inr (length xs), d')))"

section \<open>Live repair\<close>

definition live_candidates :: "global_db \<Rightarrow> db \<Rightarrow> nat \<Rightarrow> discovered_job list" where
  "live_candidates g d limit = map (\<lambda>(r, j, l).
       \<lparr>dj_source = ''dice'', dj_external_id = js_source_job_id r, dj_title = cj_title j, dj_url = js_source_url r\<rparr>)
     (take limit (sort_key (\<lambda>(r, j, l). js_source_job_id r)
       (filter (\<lambda>(r, j, l). incomplete j \<and> \<not> local_improvement j l) (dice_rows g d))))"

definition repair_target :: "nat \<Rightarrow> target option" where
  "repair_target limit = make_target DICE ''repair'' None True (int limit)"

definition fetch_live ::
  "digests \<Rightarrow> int \<Rightarrow> http_client \<Rightarrow> (int \<Rightarrow> bool) \<Rightarrow> nat \<Rightarrow> job_tables \<Rightarrow> (collect_error + nat \<times> nat) \<times> job_tables" where
  "fetch_live dg now client accepts limit w = (case w of (g, d) \<Rightarrow>
     (let found = live_candidates g d limit in
      case repair_target limit of
        None \<Rightarrow> (Inl (OtherError ''ValidationError''), w)
      | Some t \<Rightarrow> (case dice_details client accepts t found of
          Inl e \<Rightarrow> (Inl e, w)
        | Inr raws \<Rightarrow> (Inr (length found, length raws), snd (persist_raw_jobs dg now t raws w)))))"

datatype repair_action = ReportOnly | ApplyLocal | FetchLive

text \<open>The command: what the chosen repair printed, and the report on the tables it leaves. An error of
  the repair ends the command.\<close>

datatype repair_output = NoRepair | LocallyRepaired nat | LiveRepaired nat nat

definition repair_command ::
  "digests \<Rightarrow> int \<Rightarrow> http_client \<Rightarrow> (int \<Rightarrow> bool) \<Rightarrow> repair_action \<Rightarrow> int \<Rightarrow> job_tables \<Rightarrow>
   (string + repair_output \<times> (string \<times> nat) list) \<times> job_tables" where
  "repair_command dg now client accepts action limit w =
     (if limit < 1 then (Inl ''--limit must be at least 1'', w)
      else case action of
        ReportOnly \<Rightarrow> (Inr (NoRepair, repair_report (fst w) (snd w)), w)
      | ApplyLocal \<Rightarrow> (case apply_local dg now (nat limit) (fst w) (snd w) of
            (Inl e, d') \<Rightarrow> (Inl ''repair failed'', (fst w, d'))
          | (Inr n, d') \<Rightarrow> (Inr (LocallyRepaired n, repair_report (fst w) d'), (fst w, d')))
      | FetchLive \<Rightarrow> (case fetch_live dg now client accepts (nat limit) w of
            (Inl e, w') \<Rightarrow> (Inl ''repair failed'', w')
          | (Inr (n, m), w') \<Rightarrow> (Inr (LiveRepaired n m, repair_report (fst w') (snd w')), w')))"

section \<open>What a replay does to an opening\<close>


text \<open>What is filled stays filled, though perhaps with another value, and what a row states is there.\<close>

definition stays_filled :: "canonical_job \<Rightarrow> canonical_job \<Rightarrow> bool" where
  "stays_filled c c' \<longleftrightarrow> (cj_company_id c \<noteq> None \<longrightarrow> cj_company_id c' \<noteq> None) \<and>
     (\<not> blank_sql (cj_location c) \<longrightarrow> \<not> blank_sql (cj_location c')) \<and>
     (\<not> blank_sql (cj_description c) \<longrightarrow> \<not> blank_sql (cj_description c')) \<and>
     (\<not> blank_sql (cj_employment_type c) \<longrightarrow> \<not> blank_sql (cj_employment_type c')) \<and>
     (cj_posted_at c \<noteq> None \<longrightarrow> cj_posted_at c' \<noteq> None)"


text \<open>What a run of replayed rows makes of one opening: in each field the last row that states it
  decides, and a field no row states is as before. The employer is the normalized name
  of the company an opening belongs to.\<close>

definition latest :: "('a option \<Rightarrow> bool) \<Rightarrow> 'a option list \<Rightarrow> 'a option \<Rightarrow> 'a option" where
  "latest P vs old = (case filter P (rev vs) of [] \<Rightarrow> old | v # _ \<Rightarrow> v)"





lemma latest_simps [simp]: "latest P [] old = old" "latest P [v] old = (if P v then v else old)"
  by (simp_all add: latest_def)



lemma stays_filled_refl [simp]: "stays_filled c c"
  by (simp add: stays_filled_def)
















lemma dice_text: "lower (strip ''dice'') = ''dice''"
  by code_simp














section \<open>Candidates\<close>









lemma in_dice_rows:
  "(r, j, l) \<in> set (dice_rows g d) \<longleftrightarrow> r \<in> set (sources d) \<and> js_source r = ''dice'' \<and> get_job d (js_job_id r) = Some j \<and> l = legacy_of g r"
  by (auto simp: dice_rows_def List.map_filter_def intro!: image_eqI[where x = r])






text \<open>The live repair persists details of the listings it selected and of no other one.\<close>

lemma live_repair_adds_nothing:
  assumes "global_wf g" "db_wf d" "\<forall>r \<in> set (sources d). strip (js_source_job_id r) = js_source_job_id r"
    and "fetch_live dg now client accepts limit (g, d) = (Inr (n, m), (g', d'))"
  shows "n \<le> limit \<and> m \<le> n \<and> global_wf g' \<and> db_wf d' \<and> canonical_keys d' = canonical_keys d \<and>
    global_keys g \<subseteq> global_keys g' \<and> global_keys g' \<subseteq> global_keys g \<union> canonical_keys d"
proof -
  let ?found = "live_candidates g d limit"
  obtain t raws where t: "repair_target limit = Some t" and raws: "dice_details client accepts t ?found = Inr raws"
    and n: "n = length ?found" "m = length raws" and p: "snd (persist_raw_jobs dg now t raws (g, d)) = (g', d')"
    using assms(4) by (auto simp: fetch_live_def Let_def split: option.splits sum.splits)
  have sub: "subseq (map rj_external_id raws) (map dj_external_id ?found)" "\<forall>j \<in> set raws. rj_source j = ''dice''"
    using dice.details[OF raws] by simp_all
  have m: "m \<le> n" using list_emb_length[OF sub(1)] n by simp
  have own: "k \<in> canonical_keys d" if k: "Some k \<in> raw_key dg ` set raws" for k
  proof -
    obtain raw where raw: "raw \<in> set raws" "raw_key dg raw = Some k" using k by auto
    have "rj_external_id raw \<in> set (map dj_external_id ?found)"
      using raw(1) subseq_order.order_trans subseq_singleton_left sub(1) by (metis image_eqI list.set_map list_emb_set)
    then obtain r where r: "r \<in> set (sources d)" "js_source r = ''dice''" "js_source_job_id r = rj_external_id raw"
      by (auto simp: live_candidates_def in_dice_rows dest!: in_set_takeD)
    have "k = (lower (strip (rj_source raw)), strip (rj_external_id raw))" using raw(2)
      by (auto simp: raw_key_def job_key_def normalize_job_def Let_def split: sum.splits if_splits option.splits prod.splits)
    then have "k = identity r" using r assms(3) sub(2) raw(1) dice_text by (auto simp: identity_def)
    then show ?thesis using r(1) by (simp add: canonical_keys_def)
  qed
  have "n \<le> limit" using n by (simp add: live_candidates_def)
  moreover have "global_wf g' \<and> db_wf d' \<and> global_keys g \<subseteq> global_keys g' \<and> canonical_keys d \<subseteq> canonical_keys d' \<and>
      global_keys g' \<subseteq> global_keys g \<union> canonical_keys d \<and> canonical_keys d' \<subseteq> canonical_keys d"
    using persist_raw_jobs_persisted[OF assms(1,2), of dg raws now t] p own
    by (auto simp: persisted_def split: prod.splits)
  ultimately show ?thesis using m by blast
qed

section \<open>Properties\<close>








end
