(* ===== verification/Schema.thy ===== *)
theory Schema
  imports ResumeModel
begin

text \<open>
  What the schema revisions (\<open>src/migrations/versions\<close>) and the mapped classes
  (\<open>src/app/domain\<close>) are written in: column types, server defaults, check conditions with
  SQL's three truth values, constraints, indexes and the operations of a revision. A revision
  script is a list of operations; running it follows PostgreSQL's documented rules (names are
  unique in the schema, a foreign key needs a unique target, a referenced table cannot be
  dropped) and stops at the first error. Nothing in this theory is code of the repository; the
  scripts are in \<open>Migrations\<close>, the classes in \<open>Metadata\<close>.
\<close>

section \<open>SQL text functions\<close>

definition btrim :: "string \<Rightarrow> string" where
  "btrim s = rev (dropWhile (\<lambda>c. c = CHR '' '') (rev (dropWhile (\<lambda>c. c = CHR '' '') s)))"

definition hex64 :: "string \<Rightarrow> bool" where
  "hex64 s \<longleftrightarrow> length s = 64 \<and> list_all lower_hex s"

section \<open>Conditions\<close>

datatype sql_value = SNull | SInt int | SNum rat | SText string | SBool bool | STime int | SUuid nat | SJson json

datatype sql_term = Col string | Val sql_value | CharLength sql_term | Btrim sql_term | JsonTypeof sql_term

datatype comparison = Equal | NotEqual | AtLeast | AtMost | GreaterThan

datatype sql_cond = Compare comparison sql_term sql_term | IsNull sql_term | IsNotNull sql_term
  | LowerHex64 sql_term | And sql_cond sql_cond | Or sql_cond sql_cond

fun json_kind :: "json \<Rightarrow> string" where
  "json_kind JNull = ''null''"
| "json_kind (JBool b) = ''boolean''"
| "json_kind (JNum q) = ''number''"
| "json_kind (JStr s) = ''string''"
| "json_kind (JList js) = ''array''"
| "json_kind (JObj m) = ''object''"

fun term_value :: "(string \<Rightarrow> sql_value) \<Rightarrow> sql_term \<Rightarrow> sql_value" where
  "term_value row (Col c) = row c"
| "term_value row (Val v) = v"
| "term_value row (CharLength t) = (case term_value row t of SText s \<Rightarrow> SInt (int (length s)) | _ \<Rightarrow> SNull)"
| "term_value row (Btrim t) = (case term_value row t of SText s \<Rightarrow> SText (btrim s) | _ \<Rightarrow> SNull)"
| "term_value row (JsonTypeof t) = (case term_value row t of SJson j \<Rightarrow> SText (json_kind j) | _ \<Rightarrow> SNull)"

fun number :: "sql_value \<Rightarrow> rat option" where
  "number (SInt i) = Some (of_int i)"
| "number (SNum q) = Some q"
| "number _ = None"

fun order_holds :: "comparison \<Rightarrow> rat \<Rightarrow> rat \<Rightarrow> bool" where
  "order_holds Equal x y \<longleftrightarrow> x = y"
| "order_holds NotEqual x y \<longleftrightarrow> x \<noteq> y"
| "order_holds AtLeast x y \<longleftrightarrow> y \<le> x"
| "order_holds AtMost x y \<longleftrightarrow> x \<le> y"
| "order_holds GreaterThan x y \<longleftrightarrow> y < x"

text \<open>An order of values that are not numbers does not occur in the scripts; it is unknown here.\<close>

fun compare_values :: "comparison \<Rightarrow> sql_value \<Rightarrow> sql_value \<Rightarrow> bool option" where
  "compare_values op a b =
     (if a = SNull \<or> b = SNull then None
      else case (number a, number b) of
          (Some x, Some y) \<Rightarrow> Some (order_holds op x y)
        | _ \<Rightarrow> (case op of Equal \<Rightarrow> Some (a = b) | NotEqual \<Rightarrow> Some (a \<noteq> b) | _ \<Rightarrow> None))"

fun and3 :: "bool option \<Rightarrow> bool option \<Rightarrow> bool option" where
  "and3 (Some True) b = b"
| "and3 (Some False) b = Some False"
| "and3 None b = (if b = Some False then Some False else None)"

fun or3 :: "bool option \<Rightarrow> bool option \<Rightarrow> bool option" where
  "or3 (Some True) b = Some True"
| "or3 (Some False) b = b"
| "or3 None b = (if b = Some True then Some True else None)"

fun truth :: "(string \<Rightarrow> sql_value) \<Rightarrow> sql_cond \<Rightarrow> bool option" where
  "truth row (Compare op a b) = compare_values op (term_value row a) (term_value row b)"
| "truth row (IsNull t) = Some (term_value row t = SNull)"
| "truth row (IsNotNull t) = Some (term_value row t \<noteq> SNull)"
| "truth row (LowerHex64 t) = (case term_value row t of SText s \<Rightarrow> Some (hex64 s) | _ \<Rightarrow> None)"
| "truth row (And a b) = and3 (truth row a) (truth row b)"
| "truth row (Or a b) = or3 (truth row a) (truth row b)"

lemma truth_connectives [simp]: "and3 (Some a) (Some b) = Some (a \<and> b)" "or3 (Some a) (Some b) = Some (a \<or> b)"
  by (cases a; simp)+

section \<open>Tables\<close>

datatype sql_type = UuidT | StringT nat | TextT | BooleanT | IntegerT | FloatT | NumericT nat nat
  | TimestampT | JsonbT | CidrT | InetT | EnumT string "string list"

text \<open>\<open>DefLiteral\<close> is a plain Python string, rendered as a quoted constant; the others are SQL
  expressions: \<open>now()\<close>, \<open>gen_random_uuid()\<close>, \<open>true\<close>, a quoted text and a quoted \<open>jsonb\<close>.\<close>

datatype sql_default = DefLiteral string | DefNow | DefUuid | DefTrue | DefText string | DefJson string

record sql_column =
  sc_name :: string
  sc_type :: sql_type
  sc_null :: bool
  sc_default :: "sql_default option"

definition column :: "string \<Rightarrow> sql_type \<Rightarrow> bool \<Rightarrow> sql_default option \<Rightarrow> sql_column" where
  "column n t nullable d = \<lparr>sc_name = n, sc_type = t, sc_null = nullable, sc_default = d\<rparr>"

datatype on_delete = Restrict | Cascade | SetNull

datatype sql_constraint = CheckC string sql_cond | ForeignC string "string list" string "string list" on_delete
  | PrimaryC string "string list" | UniqueC string "string list"

datatype index_method = Btree | GistWhere "(string \<times> string) list" string

record sql_table =
  tb_columns :: "sql_column list"
  tb_constraints :: "sql_constraint list"

record sql_index =
  ix_table :: string
  ix_columns :: "string list"
  ix_method :: index_method

text \<open>\<open>sch_revoked\<close>: the objects whose privileges were revoked from \<open>PUBLIC\<close>, the schema itself
  as the empty name.\<close>

record schema =
  sch_tables :: "(string \<times> sql_table) list"
  sch_indexes :: "(string \<times> sql_index) list"
  sch_revoked :: "string list"

fun constraint_name :: "sql_constraint \<Rightarrow> string" where
  "constraint_name (CheckC n p) = n"
| "constraint_name (ForeignC n cs t ts a) = n"
| "constraint_name (PrimaryC n cs) = n"
| "constraint_name (UniqueC n cs) = n"

fun term_columns :: "sql_term \<Rightarrow> string list" where
  "term_columns (Col c) = [c]"
| "term_columns (Val v) = []"
| "term_columns (CharLength t) = term_columns t"
| "term_columns (Btrim t) = term_columns t"
| "term_columns (JsonTypeof t) = term_columns t"

fun cond_columns :: "sql_cond \<Rightarrow> string list" where
  "cond_columns (Compare op a b) = term_columns a @ term_columns b"
| "cond_columns (IsNull t) = term_columns t"
| "cond_columns (IsNotNull t) = term_columns t"
| "cond_columns (LowerHex64 t) = term_columns t"
| "cond_columns (And a b) = cond_columns a @ cond_columns b"
| "cond_columns (Or a b) = cond_columns a @ cond_columns b"

fun constraint_columns :: "sql_constraint \<Rightarrow> string list" where
  "constraint_columns (CheckC n p) = cond_columns p"
| "constraint_columns (ForeignC n cs t ts a) = cs"
| "constraint_columns (PrimaryC n cs) = cs"
| "constraint_columns (UniqueC n cs) = cs"

text \<open>A primary key and a uniqueness constraint own an index of the same name.\<close>

fun key_columns :: "sql_constraint \<Rightarrow> (string \<times> string list) option" where
  "key_columns (PrimaryC n cs) = Some (n, cs)"
| "key_columns (UniqueC n cs) = Some (n, cs)"
| "key_columns _ = None"

fun refers_to :: "string \<Rightarrow> sql_constraint \<Rightarrow> bool" where
  "refers_to n (ForeignC _ _ t _ _) \<longleftrightarrow> t = n"
| "refers_to n _ \<longleftrightarrow> False"

definition relation_names :: "schema \<Rightarrow> string list" where
  "relation_names s = map fst (sch_tables s) @ map fst (sch_indexes s) @
     concat (map (\<lambda>(n, t). map fst (List.map_filter key_columns (tb_constraints t))) (sch_tables s))"

section \<open>Operations of a revision\<close>

datatype ddl =
    CreateTable string "sql_column list" "sql_constraint list"
  | DropTable string
  | AddColumn string sql_column
  | DropColumn string string
  | AddConstraint string sql_constraint
  | DropConstraint string string
  | CreateIndex string string "string list" index_method
  | DropIndex string string
  | RevokeTable string
  | RevokeSchema

datatype ddl_error = DuplicateRelation string | UndefinedTable string | DuplicateColumn string | UndefinedColumn string
  | DuplicateConstraint string | UndefinedConstraint string | InvalidForeignKey string | UndefinedIndex string
  | DependentObjects string

definition table_columns :: "schema \<Rightarrow> string \<Rightarrow> string list" where
  "table_columns s n = (case map_of (sch_tables s) n of None \<Rightarrow> [] | Some t \<Rightarrow> map sc_name (tb_columns t))"

definition table_constraints :: "schema \<Rightarrow> string \<Rightarrow> sql_constraint list" where
  "table_constraints s n = (case map_of (sch_tables s) n of None \<Rightarrow> [] | Some t \<Rightarrow> tb_constraints t)"

definition has_table :: "schema \<Rightarrow> string \<Rightarrow> bool" where
  "has_table s n \<longleftrightarrow> n \<in> set (map fst (sch_tables s))"

fun foreign_key_ok :: "schema \<Rightarrow> sql_constraint \<Rightarrow> bool" where
  "foreign_key_ok s (ForeignC n cs t ts a) \<longleftrightarrow> length cs = length ts \<and>
     list_ex (\<lambda>(_, ks). set ks = set ts) (List.map_filter key_columns (table_constraints s t))"
| "foreign_key_ok s _ \<longleftrightarrow> True"

text \<open>The first rule that is broken; the conditions in the order PostgreSQL meets them.\<close>

fun first_error :: "(bool \<times> ddl_error) list \<Rightarrow> ddl_error option" where
  "first_error [] = None"
| "first_error ((b, e) # rs) = (if b then Some e else first_error rs)"

definition constraint_rules :: "schema \<Rightarrow> string list \<Rightarrow> sql_constraint \<Rightarrow> (bool \<times> ddl_error) list" where
  "constraint_rules s cs k =
     [(\<not> list_all (\<lambda>c. c \<in> set cs) (constraint_columns k), UndefinedColumn (constraint_name k)),
      (key_columns k \<noteq> None \<and> constraint_name k \<in> set (relation_names s), DuplicateRelation (constraint_name k)),
      (\<not> foreign_key_ok s k, InvalidForeignKey (constraint_name k))]"

fun refusal :: "ddl \<Rightarrow> schema \<Rightarrow> ddl_error option" where
  "refusal (CreateTable n cs ks) s = first_error (
     (n \<in> set (relation_names s), DuplicateRelation n) #
     (\<not> distinct (map sc_name cs), DuplicateColumn n) #
     (\<not> distinct (map constraint_name ks), DuplicateConstraint n) #
     concat (map (constraint_rules s (map sc_name cs)) ks))"
| "refusal (DropTable n) s = first_error
     [(\<not> has_table s n, UndefinedTable n),
      (list_ex (\<lambda>(m, t). m \<noteq> n \<and> list_ex (refers_to n) (tb_constraints t)) (sch_tables s), DependentObjects n)]"
| "refusal (AddColumn n c) s = first_error
     [(\<not> has_table s n, UndefinedTable n), (sc_name c \<in> set (table_columns s n), DuplicateColumn (sc_name c))]"
| "refusal (DropColumn n c) s = first_error
     [(\<not> has_table s n, UndefinedTable n), (c \<notin> set (table_columns s n), UndefinedColumn c)]"
| "refusal (AddConstraint n k) s = first_error (
     (\<not> has_table s n, UndefinedTable n) #
     (constraint_name k \<in> set (map constraint_name (table_constraints s n)), DuplicateConstraint (constraint_name k)) #
     constraint_rules s (table_columns s n) k)"
| "refusal (DropConstraint n k) s = first_error
     [(\<not> has_table s n, UndefinedTable n),
      (k \<notin> set (map constraint_name (table_constraints s n)), UndefinedConstraint k)]"
| "refusal (CreateIndex i n cs m) s = first_error
     [(\<not> has_table s n, UndefinedTable n), (i \<in> set (relation_names s), DuplicateRelation i),
      (\<not> list_all (\<lambda>c. c \<in> set (table_columns s n)) cs, UndefinedColumn i)]"
| "refusal (DropIndex i n) s = first_error [(i \<notin> set (map fst (sch_indexes s)), UndefinedIndex i)]"
| "refusal (RevokeTable n) s = first_error [(\<not> has_table s n, UndefinedTable n)]"
| "refusal RevokeSchema s = None"

definition alter_table :: "string \<Rightarrow> (sql_table \<Rightarrow> sql_table) \<Rightarrow> schema \<Rightarrow> schema" where
  "alter_table n f s = s\<lparr>sch_tables := map (\<lambda>(m, t). if m = n then (m, f t) else (m, t)) (sch_tables s)\<rparr>"

text \<open>What an operation that is not refused does. Dropping a table takes its indexes along, and
  dropping a column takes the constraints and indexes over it.\<close>

fun effect :: "ddl \<Rightarrow> schema \<Rightarrow> schema" where
  "effect (CreateTable n cs ks) s = s\<lparr>sch_tables := sch_tables s @ [(n, \<lparr>tb_columns = cs, tb_constraints = ks\<rparr>)]\<rparr>"
| "effect (DropTable n) s =
     \<lparr>sch_tables = filter (\<lambda>(m, _). m \<noteq> n) (sch_tables s), sch_indexes = filter (\<lambda>(_, i). ix_table i \<noteq> n) (sch_indexes s),
      sch_revoked = filter (\<lambda>m. m \<noteq> n) (sch_revoked s)\<rparr>"
| "effect (AddColumn n c) s = alter_table n (\<lambda>t. t\<lparr>tb_columns := tb_columns t @ [c]\<rparr>) s"
| "effect (DropColumn n c) s =
     (alter_table n (\<lambda>t. t\<lparr>tb_columns := filter (\<lambda>d. sc_name d \<noteq> c) (tb_columns t),
                          tb_constraints := filter (\<lambda>k. c \<notin> set (constraint_columns k)) (tb_constraints t)\<rparr>) s)
     \<lparr>sch_indexes := filter (\<lambda>(_, i). \<not> (ix_table i = n \<and> c \<in> set (ix_columns i))) (sch_indexes s)\<rparr>"
| "effect (AddConstraint n k) s = alter_table n (\<lambda>t. t\<lparr>tb_constraints := tb_constraints t @ [k]\<rparr>) s"
| "effect (DropConstraint n k) s =
     alter_table n (\<lambda>t. t\<lparr>tb_constraints := filter (\<lambda>x. constraint_name x \<noteq> k) (tb_constraints t)\<rparr>) s"
| "effect (CreateIndex i n cs m) s = s\<lparr>sch_indexes := sch_indexes s @ [(i, \<lparr>ix_table = n, ix_columns = cs, ix_method = m\<rparr>)]\<rparr>"
| "effect (DropIndex i n) s = s\<lparr>sch_indexes := filter (\<lambda>(j, _). j \<noteq> i) (sch_indexes s)\<rparr>"
| "effect (RevokeTable n) s = s\<lparr>sch_revoked := List.insert n (sch_revoked s)\<rparr>"
| "effect RevokeSchema s = s\<lparr>sch_revoked := List.insert [] (sch_revoked s)\<rparr>"

fun run_ddl :: "ddl list \<Rightarrow> schema \<Rightarrow> ddl_error + schema" where
  "run_ddl [] s = Inr s"
| "run_ddl (x # xs) s = (case refusal x s of Some e \<Rightarrow> Inl e | None \<Rightarrow> run_ddl xs (effect x s))"

lemma run_ddl_append:
  "run_ddl (xs @ ys) s = (case run_ddl xs s of Inl e \<Rightarrow> Inl e | Inr s' \<Rightarrow> run_ddl ys s')"
  by (induction xs arbitrary: s) (auto split: option.split)

lemma run_ddl_effects: "run_ddl xs s = Inr s' \<Longrightarrow> s' = fold effect xs s"
  by (induction xs arbitrary: s) (auto split: option.splits)

section \<open>What a table enforces of a row\<close>

fun type_check :: "sql_type \<Rightarrow> sql_value \<Rightarrow> bool" where
  "type_check (EnumT n vs) v \<longleftrightarrow> (case v of SText s \<Rightarrow> s \<in> set vs | SNull \<Rightarrow> True | _ \<Rightarrow> False)"
| "type_check _ v \<longleftrightarrow> True"

definition enum_columns :: "sql_table \<Rightarrow> sql_column list" where
  "enum_columns t = filter (\<lambda>c. case sc_type c of EnumT n vs \<Rightarrow> True | _ \<Rightarrow> False) (tb_columns t)"

definition conditions :: "sql_table \<Rightarrow> sql_cond list" where
  "conditions t = List.map_filter (\<lambda>k. case k of CheckC n p \<Rightarrow> Some p | _ \<Rightarrow> None) (tb_constraints t)"

text \<open>A check holds unless its condition is false; an unknown condition passes.\<close>

definition passes :: "(string \<Rightarrow> sql_value) \<Rightarrow> sql_cond \<Rightarrow> bool" where
  "passes row p \<longleftrightarrow> truth row p \<noteq> Some False"

definition checks_pass :: "schema \<Rightarrow> string \<Rightarrow> (string \<Rightarrow> sql_value) \<Rightarrow> bool" where
  "checks_pass s n row = (case map_of (sch_tables s) n of None \<Rightarrow> False
     | Some t \<Rightarrow> list_all (passes row) (conditions t) \<and> list_all (\<lambda>c. type_check (sc_type c) (row (sc_name c))) (enum_columns t))"

text \<open>What a value stored in a column satisfies: a text of at most the declared length, an
  integer of four bytes.\<close>

fun fits :: "sql_type \<Rightarrow> sql_value \<Rightarrow> bool" where
  "fits (StringT n) v \<longleftrightarrow> (case v of SText s \<Rightarrow> length s \<le> n | _ \<Rightarrow> False)"
| "fits IntegerT v \<longleftrightarrow> (case v of SInt i \<Rightarrow> - (2 ^ 31) \<le> i \<and> i < 2 ^ 31 | _ \<Rightarrow> False)"
| "fits _ v \<longleftrightarrow> True"

definition slot_fits :: "bool \<Rightarrow> sql_type \<Rightarrow> sql_value \<Rightarrow> bool" where
  "slot_fits nullable ty v \<longleftrightarrow> (if v = SNull then nullable else fits ty v)"

definition columns_fit :: "schema \<Rightarrow> string \<Rightarrow> (string \<Rightarrow> sql_value) \<Rightarrow> bool" where
  "columns_fit s n row = (case map_of (sch_tables s) n of None \<Rightarrow> False
     | Some t \<Rightarrow> list_all (\<lambda>c. slot_fits (sc_null c) (sc_type c) (row (sc_name c))) (tb_columns t))"

end
