(* ===== verification/Migrations.thy ===== *)
theory Migrations
  imports Schema
begin

text \<open>
  The schema revisions (\<open>src/migrations/versions\<close>): the two scripts of each revision, operation
  by operation, the revision it follows, and the moves Alembic makes along them
  (\<open>src/migrations/env.py\<close>): one transaction for all revisions of a run. The data statements of
  the revision of the canonical tables are in \<open>Backfill\<close>; they change no table's shape.
\<close>

record revision =
  rv_id :: string
  rv_parent :: "string option"
  rv_upgrade :: "ddl list"
  rv_downgrade :: "ddl list"

section \<open>Scripts\<close>

definition upgrade_foundation :: "ddl list" where
  "upgrade_foundation = [RevokeSchema,
    RevokeTable ''alembic_version'']"

definition downgrade_foundation :: "ddl list" where
  "downgrade_foundation = []"

definition revision_foundation :: revision where
  "revision_foundation = \<lparr>rv_id = ''0001_persistence_foundation'', rv_parent = None, rv_upgrade = upgrade_foundation, rv_downgrade = downgrade_foundation\<rparr>"

definition upgrade_profiles :: "ddl list" where
  "upgrade_profiles = [CreateTable ''profiles''
      [column ''auth_user_id'' UuidT False None,
       column ''email'' (StringT 320) False None,
       column ''role'' (EnumT ''profile_role'' [''employee'', ''admin'']) False (Some (DefLiteral ''employee'')),
       column ''is_active'' BooleanT False (Some DefTrue),
       column ''id'' UuidT False (Some DefUuid),
       column ''created_at'' TimestampT False (Some DefNow),
       column ''updated_at'' TimestampT False (Some DefNow)]
      [PrimaryC ''pk_profiles'' [''id''],
       UniqueC ''uq_profiles_auth_user_id'' [''auth_user_id''],
       UniqueC ''uq_profiles_email'' [''email'']],
    RevokeTable ''profiles'']"

definition downgrade_profiles :: "ddl list" where
  "downgrade_profiles = [DropTable ''profiles'']"

definition revision_profiles :: revision where
  "revision_profiles = \<lparr>rv_id = ''0002_profiles'', rv_parent = Some ''0001_persistence_foundation'', rv_upgrade = upgrade_profiles, rv_downgrade = downgrade_profiles\<rparr>"

definition upgrade_ip_security :: "ddl list" where
  "upgrade_ip_security = [CreateTable ''ip_access_rules''
      [column ''cidr'' CidrT False None,
       column ''label'' (StringT 128) False None,
       column ''description'' (StringT 500) True None,
       column ''enabled'' BooleanT False (Some DefTrue),
       column ''created_by'' UuidT False None,
       column ''id'' UuidT False (Some DefUuid),
       column ''created_at'' TimestampT False (Some DefNow),
       column ''updated_at'' TimestampT False (Some DefNow)]
      [ForeignC ''fk_ip_access_rules_created_by_profiles'' [''created_by''] ''profiles'' [''id''] Restrict,
       PrimaryC ''pk_ip_access_rules'' [''id''],
       UniqueC ''uq_ip_access_rules_cidr'' [''cidr'']],
    CreateIndex ''ix_ip_access_rules_created_by'' ''ip_access_rules'' [''created_by''] Btree,
    CreateIndex ''ix_ip_access_rules_enabled_cidr'' ''ip_access_rules'' [''cidr''] (GistWhere [(''cidr'', ''inet_ops'')] ''enabled''),
    CreateTable ''security_audit_events''
      [column ''actor_user_id'' UuidT True None,
       column ''event_type'' (EnumT ''security_audit_event_type'' [''IP_ACCESS_DENIED'', ''IP_RULE_CREATED'', ''IP_RULE_UPDATED'', ''IP_RULE_DISABLED'', ''IP_RULE_DELETED'', ''IP_EMERGENCY_BYPASS_USED'']) False None,
       column ''request_ip'' InetT True None,
       column ''user_agent'' (StringT 512) True None,
       column ''resource_type'' (StringT 64) True None,
       column ''resource_id'' UuidT True None,
       column ''metadata'' JsonbT False (Some (DefJson ''{}'')),
       column ''id'' UuidT False (Some DefUuid),
       column ''created_at'' TimestampT False (Some DefNow)]
      [ForeignC ''fk_security_audit_events_actor_user_id_profiles'' [''actor_user_id''] ''profiles'' [''id''] SetNull,
       PrimaryC ''pk_security_audit_events'' [''id'']],
    CreateIndex ''ix_security_audit_events_created_at_id'' ''security_audit_events'' [''created_at'', ''id''] Btree,
    CreateIndex ''ix_security_audit_events_event_type'' ''security_audit_events'' [''event_type''] Btree,
    RevokeTable ''ip_access_rules'',
    RevokeTable ''security_audit_events'']"

definition downgrade_ip_security :: "ddl list" where
  "downgrade_ip_security = [DropTable ''security_audit_events'',
    DropTable ''ip_access_rules'']"

definition revision_ip_security :: revision where
  "revision_ip_security = \<lparr>rv_id = ''0003_ip_security'', rv_parent = Some ''0002_profiles'', rv_upgrade = upgrade_ip_security, rv_downgrade = downgrade_ip_security\<rparr>"

definition upgrade_resumes :: "ddl list" where
  "upgrade_resumes = [CreateTable ''resumes''
      [column ''owner_profile_id'' UuidT False None,
       column ''original_filename'' (StringT 255) False None,
       column ''storage_bucket'' (StringT 63) False None,
       column ''storage_object_key'' (StringT 1024) False None,
       column ''content_type'' (StringT 100) False None,
       column ''size_bytes'' IntegerT False None,
       column ''sha256'' (StringT 64) False None,
       column ''status'' (EnumT ''resume_status'' [''uploaded'', ''parsing'', ''parsed'', ''parse_failed'', ''deleted'']) False (Some (DefText ''uploaded'')),
       column ''parser_version'' (StringT 64) True None,
       column ''parse_error_code'' (StringT 64) True None,
       column ''deleted_at'' TimestampT True None,
       column ''id'' UuidT False (Some DefUuid),
       column ''created_at'' TimestampT False (Some DefNow),
       column ''updated_at'' TimestampT False (Some DefNow)]
      [CheckC ''ck_resumes_resume_size_positive'' (Compare GreaterThan (Col ''size_bytes'') (Val (SInt 0))),
       CheckC ''ck_resumes_resume_sha256_length'' (Compare Equal (CharLength (Col ''sha256'')) (Val (SInt 64))),
       CheckC ''ck_resumes_resume_pdf_content_type'' (Compare Equal (Col ''content_type'') (Val (SText ''application/pdf''))),
       CheckC ''ck_resumes_resume_deleted_state_consistent'' (Or (And (Compare Equal (Col ''status'') (Val (SText ''deleted''))) (IsNotNull (Col ''deleted_at'')))
         (And (Compare NotEqual (Col ''status'') (Val (SText ''deleted''))) (IsNull (Col ''deleted_at'')))),
       ForeignC ''fk_resumes_owner_profile_id_profiles'' [''owner_profile_id''] ''profiles'' [''id''] Restrict,
       PrimaryC ''pk_resumes'' [''id''],
       UniqueC ''uq_resumes_storage_object_key'' [''storage_object_key''],
       UniqueC ''uq_resumes_id_owner_profile_id'' [''id'', ''owner_profile_id'']],
    CreateIndex ''ix_resumes_owner_created_id'' ''resumes'' [''owner_profile_id'', ''created_at'', ''id''] Btree,
    CreateIndex ''ix_resumes_owner_status'' ''resumes'' [''owner_profile_id'', ''status''] Btree,
    CreateIndex ''ix_resumes_owner_sha256'' ''resumes'' [''owner_profile_id'', ''sha256''] Btree,
    CreateTable ''candidate_profiles''
      [column ''resume_id'' UuidT False None,
       column ''owner_profile_id'' UuidT False None,
       column ''full_name'' (StringT 200) True None,
       column ''email'' (StringT 320) True None,
       column ''phone'' (StringT 64) True None,
       column ''location'' (StringT 200) True None,
       column ''current_title'' (StringT 200) True None,
       column ''professional_summary'' TextT True None,
       column ''years_of_experience'' (NumericT 4 1) True None,
       column ''extracted_text'' TextT True None,
       column ''skills'' JsonbT False (Some (DefJson ''[]'')),
       column ''employment_history'' JsonbT False (Some (DefJson ''[]'')),
       column ''education'' JsonbT False (Some (DefJson ''[]'')),
       column ''certifications'' JsonbT False (Some (DefJson ''[]'')),
       column ''languages'' JsonbT False (Some (DefJson ''[]'')),
       column ''raw_parser_output'' JsonbT False (Some (DefJson ''{}'')),
       column ''id'' UuidT False (Some DefUuid),
       column ''created_at'' TimestampT False (Some DefNow),
       column ''updated_at'' TimestampT False (Some DefNow)]
      [CheckC ''ck_candidate_profiles_candidate_years_of_experience_range'' (Or (IsNull (Col ''years_of_experience''))
         (And (Compare AtLeast (Col ''years_of_experience'') (Val (SInt 0))) (Compare AtMost (Col ''years_of_experience'') (Val (SInt 80))))),
       CheckC ''ck_candidate_profiles_candidate_skills_array'' (Compare Equal (JsonTypeof (Col ''skills'')) (Val (SText ''array''))),
       CheckC ''ck_candidate_profiles_candidate_employment_history_array'' (Compare Equal (JsonTypeof (Col ''employment_history'')) (Val (SText ''array''))),
       CheckC ''ck_candidate_profiles_candidate_education_array'' (Compare Equal (JsonTypeof (Col ''education'')) (Val (SText ''array''))),
       CheckC ''ck_candidate_profiles_candidate_certifications_array'' (Compare Equal (JsonTypeof (Col ''certifications'')) (Val (SText ''array''))),
       CheckC ''ck_candidate_profiles_candidate_languages_array'' (Compare Equal (JsonTypeof (Col ''languages'')) (Val (SText ''array''))),
       CheckC ''ck_candidate_profiles_candidate_raw_parser_output_object'' (Compare Equal (JsonTypeof (Col ''raw_parser_output'')) (Val (SText ''object''))),
       ForeignC ''fk_candidate_profiles_owner_profile_id_profiles'' [''owner_profile_id''] ''profiles'' [''id''] Restrict,
       ForeignC ''fk_candidate_profiles_resume_owner_resumes'' [''resume_id'', ''owner_profile_id''] ''resumes'' [''id'', ''owner_profile_id''] Cascade,
       PrimaryC ''pk_candidate_profiles'' [''id''],
       UniqueC ''uq_candidate_profiles_resume_id'' [''resume_id'']],
    CreateIndex ''ix_candidate_profiles_owner_created_id'' ''candidate_profiles'' [''owner_profile_id'', ''created_at'', ''id''] Btree,
    RevokeTable ''resumes'',
    RevokeTable ''candidate_profiles'']"

definition downgrade_resumes :: "ddl list" where
  "downgrade_resumes = [DropTable ''candidate_profiles'',
    DropTable ''resumes'']"

definition revision_resumes :: revision where
  "revision_resumes = \<lparr>rv_id = ''0004_resumes'', rv_parent = Some ''0003_ip_security'', rv_upgrade = upgrade_resumes, rv_downgrade = downgrade_resumes\<rparr>"

definition upgrade_hardening :: "ddl list" where
  "upgrade_hardening = [AddColumn ''resumes'' (column ''version'' IntegerT False (Some (DefLiteral ''1''))),
    AddConstraint ''resumes'' (CheckC ''ck_resumes_resume_sha256_lower_hex'' (LowerHex64 (Col ''sha256''))),
    CreateTable ''resume_storage_cleanups''
      [column ''owner_profile_id'' UuidT False None,
       column ''storage_bucket'' (StringT 63) False None,
       column ''storage_object_key'' (StringT 1024) False None,
       column ''available_at'' TimestampT False None,
       column ''attempts'' IntegerT False (Some (DefLiteral ''0'')),
       column ''last_error_code'' (StringT 64) True None,
       column ''id'' UuidT False (Some DefUuid),
       column ''created_at'' TimestampT False (Some DefNow),
       column ''updated_at'' TimestampT False (Some DefNow)]
      [CheckC ''ck_resume_storage_cleanups_resume_cleanup_attempts_nonnegative'' (Compare AtLeast (Col ''attempts'') (Val (SInt 0))),
       ForeignC ''fk_resume_storage_cleanups_owner_profile_id_profiles'' [''owner_profile_id''] ''profiles'' [''id''] Restrict,
       PrimaryC ''pk_resume_storage_cleanups'' [''id''],
       UniqueC ''uq_resume_storage_cleanups_storage_object_key'' [''storage_object_key'']],
    CreateIndex ''ix_resume_storage_cleanups_available_at_id'' ''resume_storage_cleanups'' [''available_at'', ''id''] Btree,
    RevokeTable ''resume_storage_cleanups'',
    AddConstraint ''resumes'' (CheckC ''ck_resumes_resume_filename_not_blank'' (Compare GreaterThan (CharLength (Btrim (Col ''original_filename''))) (Val (SInt 0)))),
    AddConstraint ''resumes'' (CheckC ''ck_resumes_resume_parse_error_state_consistent'' (Or (And (Compare Equal (Col ''status'') (Val (SText ''parse_failed''))) (IsNotNull (Col ''parse_error_code'')))
         (And (Compare NotEqual (Col ''status'') (Val (SText ''parse_failed''))) (IsNull (Col ''parse_error_code''))))),
    AddConstraint ''resumes'' (CheckC ''ck_resumes_resume_version_positive'' (Compare GreaterThan (Col ''version'') (Val (SInt 0))))]"

definition downgrade_hardening :: "ddl list" where
  "downgrade_hardening = [DropTable ''resume_storage_cleanups'',
    DropConstraint ''resumes'' ''ck_resumes_resume_version_positive'',
    DropConstraint ''resumes'' ''ck_resumes_resume_parse_error_state_consistent'',
    DropConstraint ''resumes'' ''ck_resumes_resume_filename_not_blank'',
    DropConstraint ''resumes'' ''ck_resumes_resume_sha256_lower_hex'',
    DropColumn ''resumes'' ''version'']"

definition revision_hardening :: revision where
  "revision_hardening = \<lparr>rv_id = ''0005_phase5_hardening'', rv_parent = Some ''0004_resumes'', rv_upgrade = upgrade_hardening, rv_downgrade = downgrade_hardening\<rparr>"

definition upgrade_global_jobs :: "ddl list" where
  "upgrade_global_jobs = [CreateTable ''global_jobs''
      [column ''source'' (StringT 32) False None,
       column ''external_job_id'' (StringT 512) False None,
       column ''job_title'' (StringT 500) False None,
       column ''normalized_title'' (StringT 500) False None,
       column ''role_family'' (StringT 64) False None,
       column ''company'' (StringT 500) True None,
       column ''location'' (StringT 500) True None,
       column ''job_url'' (StringT 2048) True None,
       column ''description'' TextT True None,
       column ''salary_text'' (StringT 500) True None,
       column ''employment_type'' (StringT 100) True None,
       column ''remote'' BooleanT True None,
       column ''skills'' JsonbT False (Some (DefJson ''[]'')),
       column ''posted_at'' TimestampT True None,
       column ''experience_min_years'' IntegerT True None,
       column ''experience_max_years'' IntegerT True None,
       column ''experience_text'' (StringT 500) True None,
       column ''first_seen_at'' TimestampT False (Some DefNow),
       column ''last_seen_at'' TimestampT False (Some DefNow),
       column ''scraped_at'' TimestampT False (Some DefNow),
       column ''is_active'' BooleanT False (Some DefTrue),
       column ''content_hash'' (StringT 128) True None,
       column ''id'' UuidT False (Some DefUuid),
       column ''created_at'' TimestampT False (Some DefNow),
       column ''updated_at'' TimestampT False (Some DefNow)]
      [CheckC ''ck_global_jobs_min_experience_nonnegative'' (Or (IsNull (Col ''experience_min_years'')) (Compare AtLeast (Col ''experience_min_years'') (Val (SInt 0)))),
       CheckC ''ck_global_jobs_max_experience_nonnegative'' (Or (IsNull (Col ''experience_max_years'')) (Compare AtLeast (Col ''experience_max_years'') (Val (SInt 0)))),
       CheckC ''ck_global_jobs_experience_ordered'' (Or (Or (IsNull (Col ''experience_max_years'')) (IsNull (Col ''experience_min_years'')))
         (Compare AtLeast (Col ''experience_max_years'') (Col ''experience_min_years''))),
       PrimaryC ''pk_global_jobs'' [''id''],
       UniqueC ''uq_global_jobs_source_external_id'' [''source'', ''external_job_id'']],
    CreateIndex ''ix_global_jobs_source_active'' ''global_jobs'' [''source'', ''is_active''] Btree,
    CreateIndex ''ix_global_jobs_active_posted'' ''global_jobs'' [''is_active'', ''posted_at''] Btree,
    CreateIndex ''ix_global_jobs_role_family_active'' ''global_jobs'' [''role_family'', ''is_active''] Btree,
    CreateIndex ''ix_global_jobs_experience'' ''global_jobs'' [''experience_min_years'', ''experience_max_years''] Btree,
    CreateIndex ''ix_global_jobs_location'' ''global_jobs'' [''location''] Btree,
    RevokeTable ''global_jobs'']"

definition downgrade_global_jobs :: "ddl list" where
  "downgrade_global_jobs = [DropTable ''global_jobs'']"

definition revision_global_jobs :: revision where
  "revision_global_jobs = \<lparr>rv_id = ''0006_global_jobs'', rv_parent = Some ''0005_phase5_hardening'', rv_upgrade = upgrade_global_jobs, rv_downgrade = downgrade_global_jobs\<rparr>"

definition upgrade_canonical_jobs :: "ddl list" where
  "upgrade_canonical_jobs = [CreateTable ''companies''
      [column ''name'' (StringT 500) False None,
       column ''normalized_name'' (StringT 500) False None,
       column ''website_url'' (StringT 2048) True None,
       column ''domain'' (StringT 255) True None,
       column ''id'' UuidT False (Some DefUuid),
       column ''created_at'' TimestampT False (Some DefNow),
       column ''updated_at'' TimestampT False (Some DefNow)]
      [PrimaryC ''pk_companies'' [''id''],
       UniqueC ''uq_companies_normalized_name'' [''normalized_name'']],
    CreateIndex ''ix_companies_domain'' ''companies'' [''domain''] Btree,
    CreateTable ''jobs''
      [column ''company_id'' UuidT True None,
       column ''title'' (StringT 500) False None,
       column ''normalized_title'' (StringT 500) False None,
       column ''description'' TextT True None,
       column ''location'' (StringT 500) True None,
       column ''normalized_location'' (StringT 500) True None,
       column ''employment_type'' (StringT 100) True None,
       column ''remote_type'' (StringT 32) True None,
       column ''skills'' JsonbT False (Some (DefJson ''[]'')),
       column ''experience_min_years'' IntegerT True None,
       column ''experience_max_years'' IntegerT True None,
       column ''experience_text'' (StringT 500) True None,
       column ''role_family'' (StringT 64) False None,
       column ''seniority'' (StringT 64) True None,
       column ''salary_min'' (NumericT 14 2) True None,
       column ''salary_max'' (NumericT 14 2) True None,
       column ''salary_currency'' (StringT 3) True None,
       column ''salary_text'' (StringT 500) True None,
       column ''posted_at'' TimestampT True None,
       column ''source_updated_at'' TimestampT True None,
       column ''first_seen_at'' TimestampT False (Some DefNow),
       column ''last_seen_at'' TimestampT False (Some DefNow),
       column ''is_active'' BooleanT False (Some DefTrue),
       column ''canonical_hash'' (StringT 64) False None,
       column ''id'' UuidT False (Some DefUuid),
       column ''created_at'' TimestampT False (Some DefNow),
       column ''updated_at'' TimestampT False (Some DefNow)]
      [CheckC ''ck_jobs_min_experience_nonnegative'' (Or (IsNull (Col ''experience_min_years'')) (Compare AtLeast (Col ''experience_min_years'') (Val (SInt 0)))),
       CheckC ''ck_jobs_max_experience_nonnegative'' (Or (IsNull (Col ''experience_max_years'')) (Compare AtLeast (Col ''experience_max_years'') (Val (SInt 0)))),
       CheckC ''ck_jobs_experience_ordered'' (Or (Or (IsNull (Col ''experience_max_years'')) (IsNull (Col ''experience_min_years'')))
         (Compare AtLeast (Col ''experience_max_years'') (Col ''experience_min_years''))),
       CheckC ''ck_jobs_salary_ordered'' (Or (Or (IsNull (Col ''salary_min'')) (IsNull (Col ''salary_max''))) (Compare AtLeast (Col ''salary_max'') (Col ''salary_min''))),
       ForeignC ''fk_jobs_company_id_companies'' [''company_id''] ''companies'' [''id''] Restrict,
       PrimaryC ''pk_jobs'' [''id'']],
    CreateIndex ''ix_jobs_company_id'' ''jobs'' [''company_id''] Btree,
    CreateIndex ''ix_jobs_canonical_hash'' ''jobs'' [''canonical_hash''] Btree,
    CreateIndex ''ix_jobs_normalized_title_location'' ''jobs'' [''normalized_title'', ''normalized_location''] Btree,
    CreateIndex ''ix_jobs_active_posted_at'' ''jobs'' [''is_active'', ''posted_at''] Btree,
    CreateIndex ''ix_jobs_active_last_seen_at'' ''jobs'' [''is_active'', ''last_seen_at''] Btree,
    CreateIndex ''ix_jobs_role_family_active'' ''jobs'' [''role_family'', ''is_active''] Btree,
    CreateTable ''job_sources''
      [column ''job_id'' UuidT False None,
       column ''source'' (StringT 32) False None,
       column ''source_job_id'' (StringT 512) False None,
       column ''source_url'' (StringT 2048) True None,
       column ''source_posted_at'' TimestampT True None,
       column ''source_updated_at'' TimestampT True None,
       column ''first_seen_at'' TimestampT False (Some DefNow),
       column ''last_seen_at'' TimestampT False (Some DefNow),
       column ''scraped_at'' TimestampT False (Some DefNow),
       column ''content_hash'' (StringT 64) False None,
       column ''is_active'' BooleanT False (Some DefTrue),
       column ''raw_data'' JsonbT False (Some (DefJson ''{}'')),
       column ''id'' UuidT False (Some DefUuid),
       column ''created_at'' TimestampT False (Some DefNow),
       column ''updated_at'' TimestampT False (Some DefNow)]
      [ForeignC ''fk_job_sources_job_id_jobs'' [''job_id''] ''jobs'' [''id''] Cascade,
       PrimaryC ''pk_job_sources'' [''id''],
       UniqueC ''uq_job_sources_source_job_id'' [''source'', ''source_job_id'']],
    CreateIndex ''ix_job_sources_job_id'' ''job_sources'' [''job_id''] Btree,
    CreateIndex ''ix_job_sources_source_url'' ''job_sources'' [''source'', ''source_url''] Btree,
    CreateIndex ''ix_job_sources_source_last_seen_at'' ''job_sources'' [''source'', ''last_seen_at''] Btree,
    RevokeTable ''companies'',
    RevokeTable ''jobs'',
    RevokeTable ''job_sources'']"

definition downgrade_canonical_jobs :: "ddl list" where
  "downgrade_canonical_jobs = [DropTable ''job_sources'',
    DropTable ''jobs'',
    DropTable ''companies'']"

definition revision_canonical_jobs :: revision where
  "revision_canonical_jobs = \<lparr>rv_id = ''0007_canonical_jobs'', rv_parent = Some ''0006_global_jobs'', rv_upgrade = upgrade_canonical_jobs, rv_downgrade = downgrade_canonical_jobs\<rparr>"

definition upgrade_async_search :: "ddl list" where
  "upgrade_async_search = [CreateTable ''job_searches''
      [column ''user_id'' UuidT False None,
       column ''status'' (StringT 32) False None,
       column ''query'' (StringT 200) True None,
       column ''location'' (StringT 200) True None,
       column ''remote_type'' (StringT 32) True None,
       column ''job_type'' (StringT 100) True None,
       column ''experience_min'' IntegerT True None,
       column ''experience_max'' IntegerT True None,
       column ''requested_limit'' IntegerT False None,
       column ''progress'' IntegerT False None,
       column ''current_stage'' (StringT 32) False None,
       column ''error_message'' (StringT 1024) True None,
       column ''started_at'' TimestampT True None,
       column ''completed_at'' TimestampT True None,
       column ''id'' UuidT False (Some DefUuid),
       column ''created_at'' TimestampT False (Some DefNow),
       column ''updated_at'' TimestampT False (Some DefNow)]
      [CheckC ''ck_job_searches_chk_progress_range'' (And (Compare AtLeast (Col ''progress'') (Val (SInt 0))) (Compare AtMost (Col ''progress'') (Val (SInt 100)))),
       ForeignC ''fk_job_searches_user_id_profiles'' [''user_id''] ''profiles'' [''id''] Cascade,
       PrimaryC ''pk_job_searches'' [''id'']],
    CreateIndex ''ix_job_searches_created_at'' ''job_searches'' [''created_at''] Btree,
    CreateIndex ''ix_job_searches_status'' ''job_searches'' [''status''] Btree,
    CreateIndex ''ix_job_searches_user_id'' ''job_searches'' [''user_id''] Btree,
    CreateTable ''job_search_results''
      [column ''search_id'' UuidT False None,
       column ''job_id'' UuidT False None,
       column ''rank'' IntegerT False None,
       column ''match_score'' FloatT False None,
       column ''skills_score'' FloatT False None,
       column ''experience_score'' FloatT False None,
       column ''location_score'' FloatT False None,
       column ''freshness_score'' FloatT False None,
       column ''id'' UuidT False (Some DefUuid),
       column ''created_at'' TimestampT False (Some DefNow),
       column ''updated_at'' TimestampT False (Some DefNow)]
      [ForeignC ''fk_job_search_results_job_id_jobs'' [''job_id''] ''jobs'' [''id''] Cascade,
       ForeignC ''fk_job_search_results_search_id_job_searches'' [''search_id''] ''job_searches'' [''id''] Cascade,
       PrimaryC ''pk_job_search_results'' [''id''],
       UniqueC ''uq_job_search_results_search_job'' [''search_id'', ''job_id'']],
    CreateIndex ''ix_job_search_results_rank'' ''job_search_results'' [''search_id'', ''rank''] Btree,
    CreateIndex ''ix_job_search_results_search_id'' ''job_search_results'' [''search_id''] Btree]"

definition downgrade_async_search :: "ddl list" where
  "downgrade_async_search = [DropIndex ''ix_job_search_results_search_id'' ''job_search_results'',
    DropIndex ''ix_job_search_results_rank'' ''job_search_results'',
    DropTable ''job_search_results'',
    DropIndex ''ix_job_searches_user_id'' ''job_searches'',
    DropIndex ''ix_job_searches_status'' ''job_searches'',
    DropIndex ''ix_job_searches_created_at'' ''job_searches'',
    DropTable ''job_searches'']"

definition revision_async_search :: revision where
  "revision_async_search = \<lparr>rv_id = ''7ab1651e6578'', rv_parent = Some ''0007_canonical_jobs'', rv_upgrade = upgrade_async_search, rv_downgrade = downgrade_async_search\<rparr>"

definition upgrade_salary_period :: "ddl list" where
  "upgrade_salary_period = [AddColumn ''jobs'' (column ''salary_period'' (StringT 32) True None)]"

definition downgrade_salary_period :: "ddl list" where
  "downgrade_salary_period = [DropColumn ''jobs'' ''salary_period'']"

definition revision_salary_period :: revision where
  "revision_salary_period = \<lparr>rv_id = ''b04da2158cf4'', rv_parent = Some ''7ab1651e6578'', rv_upgrade = upgrade_salary_period, rv_downgrade = downgrade_salary_period\<rparr>"

definition revisions :: "revision list" where
  "revisions = [revision_foundation, revision_profiles, revision_ip_security, revision_resumes, revision_hardening,
     revision_global_jobs, revision_canonical_jobs, revision_async_search, revision_salary_period]"

section \<open>Running them\<close>

text \<open>\<open>bootstrap\<close>: the schema created before any revision runs, with Alembic's table in it.\<close>

definition bootstrap :: schema where
  "bootstrap = \<lparr>sch_tables = [(''alembic_version'', \<lparr>tb_columns = [column ''version_num'' (StringT 32) False None],
       tb_constraints = [PrimaryC ''alembic_version_pkc'' [''version_num'']]\<rparr>)], sch_indexes = [], sch_revoked = []\<rparr>"

datatype move = Up | Down

datatype migration_error = NoRevision | Failed ddl_error

type_synonym database = "string option \<times> schema"

fun move_once :: "move \<Rightarrow> database \<Rightarrow> migration_error + database" where
  "move_once Up (v, s) = (case find (\<lambda>r. rv_parent r = v) revisions of
      None \<Rightarrow> Inl NoRevision
    | Some r \<Rightarrow> (case run_ddl (rv_upgrade r) s of Inl e \<Rightarrow> Inl (Failed e) | Inr s' \<Rightarrow> Inr (Some (rv_id r), s')))"
| "move_once Down (v, s) = (case find (\<lambda>r. Some (rv_id r) = v) revisions of
      None \<Rightarrow> Inl NoRevision
    | Some r \<Rightarrow> (case run_ddl (rv_downgrade r) s of Inl e \<Rightarrow> Inl (Failed e) | Inr s' \<Rightarrow> Inr (rv_parent r, s')))"

fun run_migrations :: "move list \<Rightarrow> database \<Rightarrow> migration_error + database" where
  "run_migrations [] d = Inr d"
| "run_migrations (m # ms) d = (case move_once m d of Inl e \<Rightarrow> Inl e | Inr d' \<Rightarrow> run_migrations ms d')"

text \<open>\<open>run_online\<close>: a failed run is rolled back and answered with one \<open>CommandError\<close>.\<close>

definition run_online :: "move list \<Rightarrow> database \<Rightarrow> string option \<times> database" where
  "run_online ms d = (case run_migrations ms d of
      Inl e \<Rightarrow> (Some ''Database migration failed; check connectivity, privileges, and revision SQL'', d)
    | Inr d' \<Rightarrow> (None, d'))"

section \<open>The history\<close>

text \<open>The schema the first \<open>k\<close> revisions make, if none of their operations is refused.\<close>

definition schema_after :: "nat \<Rightarrow> schema" where
  "schema_after k = fold effect (concat (map rv_upgrade (take k revisions))) bootstrap"

definition stage :: "nat \<Rightarrow> database" where
  "stage k = (if k = 0 then None else Some (rv_id (revisions ! (k - 1))), schema_after k)"

text \<open>The empty schema after a full downgrade: the first revision keeps its restrictions.\<close>

definition restricted :: database where
  "restricted = (None, bootstrap\<lparr>sch_revoked := [''alembic_version'', []]\<rparr>)"

definition accepted :: "ddl_error + schema \<Rightarrow> bool" where
  "accepted r = (case r of Inl e \<Rightarrow> False | Inr s \<Rightarrow> True)"

definition head_schema :: schema where
  "head_schema = schema_after 9"

lemma accepted_effects: "accepted (run_ddl xs s) \<Longrightarrow> run_ddl xs s = Inr (fold effect xs s)"
  by (auto simp: accepted_def dest: run_ddl_effects split: sum.splits)

lemma schema_after_Suc: "k < 9 \<Longrightarrow> schema_after (Suc k) = fold effect (rv_upgrade (revisions ! k)) (schema_after k)"
  by (simp add: schema_after_def take_Suc_conv_app_nth revisions_def del: take_Suc_Cons)

lemma up_0: "accepted (run_ddl (rv_upgrade (revisions ! 0)) (schema_after 0))"
  by code_simp

lemma up_1: "accepted (run_ddl (rv_upgrade (revisions ! 1)) (schema_after 1))"
  by code_simp

lemma up_2: "accepted (run_ddl (rv_upgrade (revisions ! 2)) (schema_after 2))"
  by code_simp

lemma up_3: "accepted (run_ddl (rv_upgrade (revisions ! 3)) (schema_after 3))"
  by code_simp

lemma up_4: "accepted (run_ddl (rv_upgrade (revisions ! 4)) (schema_after 4))"
  by code_simp

lemma up_5: "accepted (run_ddl (rv_upgrade (revisions ! 5)) (schema_after 5))"
  by code_simp

lemma up_6: "accepted (run_ddl (rv_upgrade (revisions ! 6)) (schema_after 6))"
  by code_simp

lemma up_7: "accepted (run_ddl (rv_upgrade (revisions ! 7)) (schema_after 7))"
  by code_simp

lemma up_8: "accepted (run_ddl (rv_upgrade (revisions ! 8)) (schema_after 8))"
  by code_simp

text \<open>The values of two closed schemas are compared by normalising both below an unknown predicate.\<close>

lemma down_1: "(P (run_ddl (rv_downgrade (revisions ! 1)) (schema_after (Suc 1))) :: bool) = P (Inr (schema_after 1))"
  by code_simp

lemma down_2: "(P (run_ddl (rv_downgrade (revisions ! 2)) (schema_after (Suc 2))) :: bool) = P (Inr (schema_after 2))"
  by code_simp

lemma down_3: "(P (run_ddl (rv_downgrade (revisions ! 3)) (schema_after (Suc 3))) :: bool) = P (Inr (schema_after 3))"
  by code_simp

lemma down_4: "(P (run_ddl (rv_downgrade (revisions ! 4)) (schema_after (Suc 4))) :: bool) = P (Inr (schema_after 4))"
  by code_simp

lemma down_5: "(P (run_ddl (rv_downgrade (revisions ! 5)) (schema_after (Suc 5))) :: bool) = P (Inr (schema_after 5))"
  by code_simp

lemma down_6: "(P (run_ddl (rv_downgrade (revisions ! 6)) (schema_after (Suc 6))) :: bool) = P (Inr (schema_after 6))"
  by code_simp

lemma down_7: "(P (run_ddl (rv_downgrade (revisions ! 7)) (schema_after (Suc 7))) :: bool) = P (Inr (schema_after 7))"
  by code_simp

lemma down_8: "(P (run_ddl (rv_downgrade (revisions ! 8)) (schema_after (Suc 8))) :: bool) = P (Inr (schema_after 8))"
  by code_simp

lemma below_nine: "k < 9 \<Longrightarrow> k \<in> {0, 1, 2, 3, 4, 5, 6, 7, 8 :: nat}"
  by auto

lemma upgrade_accepted:
  assumes "k < 9"
  shows "run_ddl (rv_upgrade (revisions ! k)) (schema_after k) = Inr (schema_after (Suc k))"
proof -
  have "accepted (run_ddl (rv_upgrade (revisions ! k)) (schema_after k))"
    using below_nine[OF assms] up_0 up_1 up_2 up_3 up_4 up_5 up_6 up_7 up_8 by (elim insertE emptyE) simp_all
  then show ?thesis unfolding schema_after_Suc[OF assms] by (rule accepted_effects)
qed

lemma downgrade_restores:
  assumes "k < 9" "k \<noteq> 0"
  shows "run_ddl (rv_downgrade (revisions ! k)) (schema_after (Suc k)) = Inr (schema_after k)"
proof -
  let ?P = "\<lambda>k r. r = Inr (schema_after k)"
  have "?P k (run_ddl (rv_downgrade (revisions ! k)) (schema_after (Suc k))) = ?P k (Inr (schema_after k))"
    using below_nine[OF assms(1)] assms(2)
      down_1[of "?P 1"] down_2[of "?P 2"] down_3[of "?P 3"] down_4[of "?P 4"]
      down_5[of "?P 5"] down_6[of "?P 6"] down_7[of "?P 7"] down_8[of "?P 8"]
    by (elim insertE emptyE) (simp_all only: simp_thms)
  then show ?thesis by simp
qed

lemmas revision_defs = revisions_def revision_foundation_def revision_profiles_def revision_ip_security_def revision_resumes_def
  revision_hardening_def revision_global_jobs_def revision_canonical_jobs_def revision_async_search_def revision_salary_period_def

lemma next_revision: "k < 9 \<Longrightarrow> List.find (\<lambda>r. rv_parent r = fst (stage k)) revisions = Some (revisions ! k)"
  by (drule below_nine) (elim insertE emptyE; simp add: stage_def revision_defs)

lemma last_revision: "k < 9 \<Longrightarrow> List.find (\<lambda>r. Some (rv_id r) = fst (stage (Suc k))) revisions = Some (revisions ! k)"
  by (drule below_nine) (elim insertE emptyE; simp add: stage_def revision_defs)

lemma parent_of: "k < 9 \<Longrightarrow> rv_parent (revisions ! k) = fst (stage k)"
  by (drule below_nine) (elim insertE emptyE; simp add: stage_def revision_defs)

lemma no_revision: "List.find (\<lambda>r. rv_parent r = fst (stage 9)) revisions = None" "List.find (\<lambda>r. Some (rv_id r) = None) revisions = None"
  by (simp_all add: stage_def revision_defs)

section \<open>Every sequence of runs\<close>

lemma restricted_stage: "restricted = (None, schema_after 1)"
  by (simp add: restricted_def schema_after_def bootstrap_def revision_defs upgrade_foundation_def List.insert_def)

text \<open>The states the database is ever in.\<close>

definition known_states :: "database set" where
  "known_states = insert restricted (stage ` {..9})"

lemma restricted_up: "move_once Up restricted = Inr (stage 1)"
proof -
  have "run_ddl upgrade_foundation (schema_after 1) = Inr (schema_after 1)"
    by (simp add: schema_after_def bootstrap_def revision_defs upgrade_foundation_def List.insert_def has_table_def)
  then show ?thesis by (simp add: restricted_stage stage_def revision_defs)
qed

lemma stage_up: "k < 9 \<Longrightarrow> move_once Up (stage k) = Inr (stage (Suc k))"
  using next_revision[of k] upgrade_accepted[of k] by (simp add: stage_def)

lemma stage_down:
  assumes "k < 9"
  shows "move_once Down (stage (Suc k)) = Inr (if k = 0 then restricted else stage k)"
proof (cases "k = 0")
  case True
  have "run_ddl (rv_downgrade (revisions ! 0)) (schema_after 1) = Inr (schema_after 1)"
    by (simp add: revisions_def revision_foundation_def downgrade_foundation_def)
  then show ?thesis using True last_revision[of 0] parent_of[of 0] by (simp add: stage_def restricted_stage)
next
  case False
  then show ?thesis using last_revision[OF assms] parent_of[OF assms] downgrade_restores[OF assms] by (simp add: stage_def)
qed

lemma move_known:
  assumes "d \<in> known_states"
  shows "move_once m d = Inl NoRevision \<or> (\<exists>d' \<in> known_states. move_once m d = Inr d')"
proof -
  consider "d = restricted" | k where "d = stage k" "k \<le> 9" using assms by (auto simp: known_states_def)
  then show ?thesis
  proof cases
    case 1
    have "move_once Down restricted = Inl NoRevision" using no_revision(2) by (simp add: restricted_stage)
    then show ?thesis using 1 restricted_up by (cases m) (auto simp: known_states_def)
  next
    case 2
    show ?thesis
    proof (cases m)
      case Up
      then show ?thesis using 2 stage_up[of k] no_revision(1)
        by (cases "k = 9") (auto simp: known_states_def stage_def[of 9])
    next
      case Down
      have "move_once Down (stage 0) = Inl NoRevision" using no_revision(2) by (simp add: stage_def)
      then show ?thesis using 2 Down stage_down[of "k - 1"] by (cases k) (auto simp: known_states_def)
    qed
  qed
qed

lemma run_known:
  assumes "d \<in> known_states"
  shows "run_migrations ms d = Inl NoRevision \<or> (\<exists>d' \<in> known_states. run_migrations ms d = Inr d')"
  using assms
proof (induction ms arbitrary: d)
  case (Cons m ms)
  then show ?case using move_known[OF Cons.prems, of m] by fastforce
qed simp

lemma climb: "j + k \<le> 9 \<Longrightarrow> run_migrations (replicate j Up) (stage k) = Inr (stage (k + j))"
  using stage_up by (induction j arbitrary: k) simp_all

definition database_after :: "move list list \<Rightarrow> database" where
  "database_after runs = fold (\<lambda>ms d. snd (run_online ms d)) runs (None, bootstrap)"

lemma database_known: "database_after runs \<in> known_states"
  unfolding database_after_def
proof (rule fold_invariant[where Q = "\<lambda>_. True"])
  show "(None, bootstrap) \<in> known_states" by (auto simp: known_states_def stage_def schema_after_def intro!: image_eqI[of _ _ 0])
  show "snd (run_online ms d) \<in> known_states" if "d \<in> known_states" for ms d
    using run_known[OF that, of ms] that by (auto simp: run_online_def)
qed simp

lemma head_reached: "\<exists>j. run_online (replicate j Up) (database_after runs) = (None, Some ''b04da2158cf4'', head_schema)"
proof -
  have head: "stage 9 = (Some ''b04da2158cf4'', head_schema)" by (simp add: stage_def head_schema_def revision_defs)
  have "\<exists>j. run_migrations (replicate j Up) (database_after runs) = Inr (stage 9)"
  proof (cases "database_after runs = restricted")
    case True
    then have "run_migrations (Up # replicate 8 Up) (database_after runs) = Inr (stage 9)" using restricted_up climb[of 8 1] by simp
    then show ?thesis by (metis replicate_Suc)
  next
    case False
    then obtain k where "k \<le> 9" "database_after runs = stage k" using database_known by (auto simp: known_states_def)
    then show ?thesis using climb[of "9 - k" k] by auto
  qed
  then obtain j where "run_migrations (replicate j Up) (database_after runs) = Inr (stage 9)" ..
  then have "run_online (replicate j Up) (database_after runs) = (None, Some ''b04da2158cf4'', head_schema)"
    by (simp add: run_online_def head)
  then show ?thesis by (intro exI[of _ j])
qed

text \<open>C34: Whatever runs are made against a fresh database, upgrades and downgrades of any length in
  any order, no operation of any script is ever refused: a run fails only for want of a further
  revision, and then changes nothing. The schema is decided by the version alone: it is the one
  the scripts of the revisions up to it make, so each downgrade script undoes its upgrade
  exactly; only the first revision, as it says, keeps the revoked privileges. And from every
  state some upgrade reaches the last revision.\<close>

theorem migrations_consistent:
  "database_after runs \<in> insert restricted (stage ` {..9}) \<and>
   run_migrations ms (database_after runs) \<in> insert (Inl NoRevision) (range Inr) \<and>
   (\<exists>j. run_online (replicate j Up) (database_after runs) = (None, Some ''b04da2158cf4'', head_schema))"
proof (intro conjI)
  show "database_after runs \<in> insert restricted (stage ` {..9})"
    using database_known unfolding known_states_def .
  show "run_migrations ms (database_after runs) \<in> insert (Inl NoRevision) (range Inr)"
    using run_known[OF database_known] by (metis insert_iff rangeI)
qed (rule head_reached)

end
