(* ===== verification/Metadata.thy ===== *)
theory Metadata
  imports Migrations GlobalJobs
begin

text \<open>
  The mapped classes (\<open>src/app/domain\<close>) over the naming convention and the shared columns of
  \<open>src/app/db/base.py\<close>: what each class declares, and the table, constraints and indexes the
  declaration stands for. A nullable column is one declared so, or one annotated with \<open>None\<close>;
  the target of a foreign key without a schema is in the application's schema.
\<close>

section \<open>Declarations\<close>

record mapped_attr =
  mc_column :: sql_column
  mc_primary :: bool
  mc_unique :: bool
  mc_index :: bool
  mc_foreign :: "(string \<times> string \<times> on_delete) option"

definition mapped_column :: "string \<Rightarrow> sql_type \<Rightarrow> bool \<Rightarrow> sql_default option \<Rightarrow> mapped_attr" where
  "mapped_column n t nullable d = \<lparr>mc_column = column n t nullable d, mc_primary = False, mc_unique = False,
     mc_index = False, mc_foreign = None\<rparr>"

datatype table_arg = ConstraintA sql_constraint | IndexA string "string list" index_method

record mapped_class =
  ma_table :: string
  ma_args :: "table_arg list"
  ma_columns :: "mapped_attr list"

text \<open>\<open>IdentityTimestampMixin\<close>\<close>

definition identity_timestamp_columns :: "mapped_attr list" where
  "identity_timestamp_columns = [(mapped_column ''id'' UuidT False (Some DefUuid))\<lparr>mc_primary := True\<rparr>,
     mapped_column ''created_at'' TimestampT False (Some DefNow), mapped_column ''updated_at'' TimestampT False (Some DefNow)]"

text \<open>\<open>NAMING_CONVENTION\<close>: the columns of a key are joined with underscores.\<close>

definition join_names :: "string list \<Rightarrow> string" where
  "join_names ns = concat (map (\<lambda>n. ''_'' @ n) ns)"

definition index_name :: "string \<Rightarrow> string list \<Rightarrow> string" where
  "index_name t cs = ''ix_'' @ t @ join_names cs"

definition unique_name :: "string \<Rightarrow> string list \<Rightarrow> string" where
  "unique_name t cs = ''uq_'' @ t @ join_names cs"

definition check_name :: "string \<Rightarrow> string \<Rightarrow> string" where
  "check_name t n = ''ck_'' @ t @ ''_'' @ n"

definition foreign_name :: "string \<Rightarrow> string list \<Rightarrow> string \<Rightarrow> string" where
  "foreign_name t cs u = ''fk_'' @ t @ join_names cs @ ''_'' @ u"

definition primary_name :: "string \<Rightarrow> string" where
  "primary_name t = ''pk_'' @ t"

section \<open>Classes\<close>

definition profiles_class :: mapped_class where
  "profiles_class = \<lparr>ma_table = ''profiles'',
    ma_args = [],
    ma_columns = identity_timestamp_columns @ [(mapped_column ''auth_user_id'' UuidT False None)\<lparr>mc_unique := True\<rparr>,
      (mapped_column ''email'' (StringT 320) False None)\<lparr>mc_unique := True\<rparr>,
      mapped_column ''role'' (EnumT ''profile_role'' [''employee'', ''admin'']) False (Some (DefLiteral ''employee'')),
      mapped_column ''is_active'' BooleanT False (Some (DefLiteral ''true''))]\<rparr>"

definition ip_access_rules_class :: mapped_class where
  "ip_access_rules_class = \<lparr>ma_table = ''ip_access_rules'',
    ma_args = [IndexA ''ix_ip_access_rules_enabled_cidr'' [''cidr''] (GistWhere [(''cidr'', ''inet_ops'')] ''enabled'')],
    ma_columns = identity_timestamp_columns @ [(mapped_column ''cidr'' CidrT False None)\<lparr>mc_unique := True\<rparr>,
      mapped_column ''label'' (StringT 128) False None,
      mapped_column ''description'' (StringT 500) True None,
      mapped_column ''enabled'' BooleanT False (Some (DefLiteral ''true'')),
      (mapped_column ''created_by'' UuidT False None)\<lparr>mc_foreign := Some (''profiles'', ''id'', Restrict), mc_index := True\<rparr>]\<rparr>"

definition security_audit_events_class :: mapped_class where
  "security_audit_events_class = \<lparr>ma_table = ''security_audit_events'',
    ma_args = [IndexA ''ix_security_audit_events_created_at_id'' [''created_at'', ''id''] Btree,
      IndexA ''ix_security_audit_events_event_type'' [''event_type''] Btree],
    ma_columns = [(mapped_column ''id'' UuidT False (Some DefUuid))\<lparr>mc_primary := True\<rparr>,
      (mapped_column ''actor_user_id'' UuidT True None)\<lparr>mc_foreign := Some (''profiles'', ''id'', SetNull)\<rparr>,
      mapped_column ''event_type'' (EnumT ''security_audit_event_type'' [''IP_ACCESS_DENIED'', ''IP_RULE_CREATED'', ''IP_RULE_UPDATED'', ''IP_RULE_DISABLED'', ''IP_RULE_DELETED'', ''IP_EMERGENCY_BYPASS_USED'']) False None,
      mapped_column ''request_ip'' InetT True None,
      mapped_column ''user_agent'' (StringT 512) True None,
      mapped_column ''resource_type'' (StringT 64) True None,
      mapped_column ''resource_id'' UuidT True None,
      mapped_column ''metadata'' JsonbT False (Some (DefJson ''{}'')),
      mapped_column ''created_at'' TimestampT False (Some DefNow)]\<rparr>"

definition resumes_class :: mapped_class where
  "resumes_class = \<lparr>ma_table = ''resumes'',
    ma_args = [ConstraintA (UniqueC ''uq_resumes_id_owner_profile_id'' [''id'', ''owner_profile_id'']),
      ConstraintA (CheckC ''resume_size_positive'' (Compare GreaterThan (Col ''size_bytes'') (Val (SInt 0)))),
      ConstraintA (CheckC ''resume_sha256_length'' (Compare Equal (CharLength (Col ''sha256'')) (Val (SInt 64)))),
      ConstraintA (CheckC ''resume_sha256_lower_hex'' (LowerHex64 (Col ''sha256''))),
      ConstraintA (CheckC ''resume_filename_not_blank'' (Compare GreaterThan (CharLength (Btrim (Col ''original_filename''))) (Val (SInt 0)))),
      ConstraintA (CheckC ''resume_pdf_content_type'' (Compare Equal (Col ''content_type'') (Val (SText ''application/pdf'')))),
      ConstraintA (CheckC ''resume_deleted_state_consistent'' (Or (And (Compare Equal (Col ''status'') (Val (SText ''deleted''))) (IsNotNull (Col ''deleted_at'')))
         (And (Compare NotEqual (Col ''status'') (Val (SText ''deleted''))) (IsNull (Col ''deleted_at''))))),
      ConstraintA (CheckC ''resume_parse_error_state_consistent'' (Or (And (Compare Equal (Col ''status'') (Val (SText ''parse_failed''))) (IsNotNull (Col ''parse_error_code'')))
         (And (Compare NotEqual (Col ''status'') (Val (SText ''parse_failed''))) (IsNull (Col ''parse_error_code''))))),
      ConstraintA (CheckC ''resume_version_positive'' (Compare GreaterThan (Col ''version'') (Val (SInt 0)))),
      IndexA ''ix_resumes_owner_created_id'' [''owner_profile_id'', ''created_at'', ''id''] Btree,
      IndexA ''ix_resumes_owner_status'' [''owner_profile_id'', ''status''] Btree,
      IndexA ''ix_resumes_owner_sha256'' [''owner_profile_id'', ''sha256''] Btree],
    ma_columns = identity_timestamp_columns @ [(mapped_column ''owner_profile_id'' UuidT False None)\<lparr>mc_foreign := Some (''profiles'', ''id'', Restrict)\<rparr>,
      mapped_column ''original_filename'' (StringT 255) False None,
      mapped_column ''storage_bucket'' (StringT 63) False None,
      (mapped_column ''storage_object_key'' (StringT 1024) False None)\<lparr>mc_unique := True\<rparr>,
      mapped_column ''content_type'' (StringT 100) False None,
      mapped_column ''size_bytes'' IntegerT False None,
      mapped_column ''sha256'' (StringT 64) False None,
      mapped_column ''status'' (EnumT ''resume_status'' [''uploaded'', ''parsing'', ''parsed'', ''parse_failed'', ''deleted'']) False (Some (DefLiteral ''uploaded'')),
      mapped_column ''parser_version'' (StringT 64) True None,
      mapped_column ''parse_error_code'' (StringT 64) True None,
      mapped_column ''version'' IntegerT False (Some (DefLiteral ''1'')),
      mapped_column ''deleted_at'' TimestampT True None]\<rparr>"

definition candidate_profiles_class :: mapped_class where
  "candidate_profiles_class = \<lparr>ma_table = ''candidate_profiles'',
    ma_args = [ConstraintA (ForeignC ''fk_candidate_profiles_resume_owner_resumes'' [''resume_id'', ''owner_profile_id''] ''resumes'' [''id'', ''owner_profile_id''] Cascade),
      ConstraintA (CheckC ''candidate_years_of_experience_range'' (Or (IsNull (Col ''years_of_experience''))
         (And (Compare AtLeast (Col ''years_of_experience'') (Val (SInt 0))) (Compare AtMost (Col ''years_of_experience'') (Val (SInt 80)))))),
      ConstraintA (CheckC ''candidate_skills_array'' (Compare Equal (JsonTypeof (Col ''skills'')) (Val (SText ''array'')))),
      ConstraintA (CheckC ''candidate_employment_history_array'' (Compare Equal (JsonTypeof (Col ''employment_history'')) (Val (SText ''array'')))),
      ConstraintA (CheckC ''candidate_education_array'' (Compare Equal (JsonTypeof (Col ''education'')) (Val (SText ''array'')))),
      ConstraintA (CheckC ''candidate_certifications_array'' (Compare Equal (JsonTypeof (Col ''certifications'')) (Val (SText ''array'')))),
      ConstraintA (CheckC ''candidate_languages_array'' (Compare Equal (JsonTypeof (Col ''languages'')) (Val (SText ''array'')))),
      ConstraintA (CheckC ''candidate_raw_parser_output_object'' (Compare Equal (JsonTypeof (Col ''raw_parser_output'')) (Val (SText ''object'')))),
      IndexA ''ix_candidate_profiles_owner_created_id'' [''owner_profile_id'', ''created_at'', ''id''] Btree],
    ma_columns = identity_timestamp_columns @ [(mapped_column ''resume_id'' UuidT False None)\<lparr>mc_unique := True\<rparr>,
      (mapped_column ''owner_profile_id'' UuidT False None)\<lparr>mc_foreign := Some (''profiles'', ''id'', Restrict)\<rparr>,
      mapped_column ''full_name'' (StringT 200) True None,
      mapped_column ''email'' (StringT 320) True None,
      mapped_column ''phone'' (StringT 64) True None,
      mapped_column ''location'' (StringT 200) True None,
      mapped_column ''current_title'' (StringT 200) True None,
      mapped_column ''professional_summary'' TextT True None,
      mapped_column ''years_of_experience'' (NumericT 4 1) True None,
      mapped_column ''extracted_text'' TextT True None,
      mapped_column ''skills'' JsonbT False (Some (DefJson ''[]'')),
      mapped_column ''employment_history'' JsonbT False (Some (DefJson ''[]'')),
      mapped_column ''education'' JsonbT False (Some (DefJson ''[]'')),
      mapped_column ''certifications'' JsonbT False (Some (DefJson ''[]'')),
      mapped_column ''languages'' JsonbT False (Some (DefJson ''[]'')),
      mapped_column ''raw_parser_output'' JsonbT False (Some (DefJson ''{}''))]\<rparr>"

definition resume_storage_cleanups_class :: mapped_class where
  "resume_storage_cleanups_class = \<lparr>ma_table = ''resume_storage_cleanups'',
    ma_args = [ConstraintA (CheckC ''resume_cleanup_attempts_nonnegative'' (Compare AtLeast (Col ''attempts'') (Val (SInt 0)))),
      IndexA ''ix_resume_storage_cleanups_available_at_id'' [''available_at'', ''id''] Btree],
    ma_columns = identity_timestamp_columns @ [(mapped_column ''owner_profile_id'' UuidT False None)\<lparr>mc_foreign := Some (''profiles'', ''id'', Restrict)\<rparr>,
      mapped_column ''storage_bucket'' (StringT 63) False None,
      (mapped_column ''storage_object_key'' (StringT 1024) False None)\<lparr>mc_unique := True\<rparr>,
      mapped_column ''available_at'' TimestampT False None,
      mapped_column ''attempts'' IntegerT False (Some (DefLiteral ''0'')),
      mapped_column ''last_error_code'' (StringT 64) True None]\<rparr>"

definition global_jobs_class :: mapped_class where
  "global_jobs_class = \<lparr>ma_table = ''global_jobs'',
    ma_args = [ConstraintA (UniqueC ''uq_global_jobs_source_external_id'' [''source'', ''external_job_id'']),
      ConstraintA (CheckC ''global_jobs_min_experience_nonnegative'' (Or (IsNull (Col ''experience_min_years'')) (Compare AtLeast (Col ''experience_min_years'') (Val (SInt 0))))),
      ConstraintA (CheckC ''global_jobs_max_experience_nonnegative'' (Or (IsNull (Col ''experience_max_years'')) (Compare AtLeast (Col ''experience_max_years'') (Val (SInt 0))))),
      ConstraintA (CheckC ''global_jobs_experience_ordered'' (Or (Or (IsNull (Col ''experience_max_years'')) (IsNull (Col ''experience_min_years'')))
         (Compare AtLeast (Col ''experience_max_years'') (Col ''experience_min_years'')))),
      IndexA ''ix_global_jobs_source_active'' [''source'', ''is_active''] Btree,
      IndexA ''ix_global_jobs_active_posted'' [''is_active'', ''posted_at''] Btree,
      IndexA ''ix_global_jobs_role_family_active'' [''role_family'', ''is_active''] Btree,
      IndexA ''ix_global_jobs_experience'' [''experience_min_years'', ''experience_max_years''] Btree,
      IndexA ''ix_global_jobs_location'' [''location''] Btree],
    ma_columns = identity_timestamp_columns @ [mapped_column ''source'' (StringT 32) False None,
      mapped_column ''external_job_id'' (StringT 512) False None,
      mapped_column ''job_title'' (StringT 500) False None,
      mapped_column ''normalized_title'' (StringT 500) False None,
      mapped_column ''role_family'' (StringT 64) False None,
      mapped_column ''company'' (StringT 500) True None,
      mapped_column ''location'' (StringT 500) True None,
      mapped_column ''job_url'' (StringT 2048) True None,
      mapped_column ''description'' TextT True None,
      mapped_column ''salary_text'' (StringT 500) True None,
      mapped_column ''employment_type'' (StringT 100) True None,
      mapped_column ''remote'' BooleanT True None,
      mapped_column ''skills'' JsonbT False (Some (DefLiteral ''[]'')),
      mapped_column ''posted_at'' TimestampT True None,
      mapped_column ''experience_min_years'' IntegerT True None,
      mapped_column ''experience_max_years'' IntegerT True None,
      mapped_column ''experience_text'' (StringT 500) True None,
      mapped_column ''first_seen_at'' TimestampT False (Some (DefLiteral ''now()'')),
      mapped_column ''last_seen_at'' TimestampT False (Some (DefLiteral ''now()'')),
      mapped_column ''scraped_at'' TimestampT False (Some (DefLiteral ''now()'')),
      mapped_column ''is_active'' BooleanT False (Some (DefLiteral ''true'')),
      mapped_column ''content_hash'' (StringT 128) True None]\<rparr>"

definition companies_class :: mapped_class where
  "companies_class = \<lparr>ma_table = ''companies'',
    ma_args = [ConstraintA (UniqueC ''uq_companies_normalized_name'' [''normalized_name'']),
      IndexA ''ix_companies_domain'' [''domain''] Btree],
    ma_columns = identity_timestamp_columns @ [mapped_column ''name'' (StringT 500) False None,
      mapped_column ''normalized_name'' (StringT 500) False None,
      mapped_column ''website_url'' (StringT 2048) True None,
      mapped_column ''domain'' (StringT 255) True None]\<rparr>"

definition jobs_class :: mapped_class where
  "jobs_class = \<lparr>ma_table = ''jobs'',
    ma_args = [ConstraintA (CheckC ''min_experience_nonnegative'' (Or (IsNull (Col ''experience_min_years'')) (Compare AtLeast (Col ''experience_min_years'') (Val (SInt 0))))),
      ConstraintA (CheckC ''max_experience_nonnegative'' (Or (IsNull (Col ''experience_max_years'')) (Compare AtLeast (Col ''experience_max_years'') (Val (SInt 0))))),
      ConstraintA (CheckC ''experience_ordered'' (Or (Or (IsNull (Col ''experience_max_years'')) (IsNull (Col ''experience_min_years'')))
         (Compare AtLeast (Col ''experience_max_years'') (Col ''experience_min_years'')))),
      ConstraintA (CheckC ''salary_ordered'' (Or (Or (IsNull (Col ''salary_min'')) (IsNull (Col ''salary_max''))) (Compare AtLeast (Col ''salary_max'') (Col ''salary_min'')))),
      IndexA ''ix_jobs_company_id'' [''company_id''] Btree,
      IndexA ''ix_jobs_canonical_hash'' [''canonical_hash''] Btree,
      IndexA ''ix_jobs_normalized_title_location'' [''normalized_title'', ''normalized_location''] Btree,
      IndexA ''ix_jobs_active_posted_at'' [''is_active'', ''posted_at''] Btree,
      IndexA ''ix_jobs_active_last_seen_at'' [''is_active'', ''last_seen_at''] Btree,
      IndexA ''ix_jobs_role_family_active'' [''role_family'', ''is_active''] Btree],
    ma_columns = identity_timestamp_columns @ [(mapped_column ''company_id'' UuidT True None)\<lparr>mc_foreign := Some (''companies'', ''id'', Restrict)\<rparr>,
      mapped_column ''title'' (StringT 500) False None,
      mapped_column ''normalized_title'' (StringT 500) False None,
      mapped_column ''description'' TextT True None,
      mapped_column ''location'' (StringT 500) True None,
      mapped_column ''normalized_location'' (StringT 500) True None,
      mapped_column ''employment_type'' (StringT 100) True None,
      mapped_column ''remote_type'' (StringT 32) True None,
      mapped_column ''skills'' JsonbT False (Some (DefLiteral ''[]'')),
      mapped_column ''experience_min_years'' IntegerT True None,
      mapped_column ''experience_max_years'' IntegerT True None,
      mapped_column ''experience_text'' (StringT 500) True None,
      mapped_column ''role_family'' (StringT 64) False None,
      mapped_column ''seniority'' (StringT 64) True None,
      mapped_column ''salary_min'' (NumericT 14 2) True None,
      mapped_column ''salary_max'' (NumericT 14 2) True None,
      mapped_column ''salary_currency'' (StringT 3) True None,
      mapped_column ''salary_text'' (StringT 500) True None,
      mapped_column ''salary_period'' (StringT 32) True None,
      mapped_column ''posted_at'' TimestampT True None,
      mapped_column ''source_updated_at'' TimestampT True None,
      mapped_column ''first_seen_at'' TimestampT False (Some (DefLiteral ''now()'')),
      mapped_column ''last_seen_at'' TimestampT False (Some (DefLiteral ''now()'')),
      mapped_column ''is_active'' BooleanT False (Some (DefLiteral ''true'')),
      mapped_column ''canonical_hash'' (StringT 64) False None]\<rparr>"

definition job_sources_class :: mapped_class where
  "job_sources_class = \<lparr>ma_table = ''job_sources'',
    ma_args = [ConstraintA (UniqueC ''uq_job_sources_source_job_id'' [''source'', ''source_job_id'']),
      IndexA ''ix_job_sources_job_id'' [''job_id''] Btree,
      IndexA ''ix_job_sources_source_url'' [''source'', ''source_url''] Btree,
      IndexA ''ix_job_sources_source_last_seen_at'' [''source'', ''last_seen_at''] Btree],
    ma_columns = identity_timestamp_columns @ [(mapped_column ''job_id'' UuidT False None)\<lparr>mc_foreign := Some (''jobs'', ''id'', Cascade)\<rparr>,
      mapped_column ''source'' (StringT 32) False None,
      mapped_column ''source_job_id'' (StringT 512) False None,
      mapped_column ''source_url'' (StringT 2048) True None,
      mapped_column ''source_posted_at'' TimestampT True None,
      mapped_column ''source_updated_at'' TimestampT True None,
      mapped_column ''first_seen_at'' TimestampT False (Some (DefLiteral ''now()'')),
      mapped_column ''last_seen_at'' TimestampT False (Some (DefLiteral ''now()'')),
      mapped_column ''scraped_at'' TimestampT False (Some (DefLiteral ''now()'')),
      mapped_column ''content_hash'' (StringT 64) False None,
      mapped_column ''is_active'' BooleanT False (Some (DefLiteral ''true'')),
      mapped_column ''raw_data'' JsonbT False (Some (DefLiteral ''{}''))]\<rparr>"

definition job_searches_class :: mapped_class where
  "job_searches_class = \<lparr>ma_table = ''job_searches'',
    ma_args = [ConstraintA (CheckC ''chk_progress_range'' (And (Compare AtLeast (Col ''progress'') (Val (SInt 0))) (Compare AtMost (Col ''progress'') (Val (SInt 100))))),
      IndexA ''ix_job_searches_user_id'' [''user_id''] Btree,
      IndexA ''ix_job_searches_status'' [''status''] Btree,
      IndexA ''ix_job_searches_created_at'' [''created_at''] Btree],
    ma_columns = identity_timestamp_columns @ [(mapped_column ''user_id'' UuidT False None)\<lparr>mc_foreign := Some (''profiles'', ''id'', Cascade)\<rparr>,
      mapped_column ''status'' (StringT 32) False None,
      mapped_column ''query'' (StringT 200) True None,
      mapped_column ''location'' (StringT 200) True None,
      mapped_column ''remote_type'' (StringT 32) True None,
      mapped_column ''job_type'' (StringT 100) True None,
      mapped_column ''experience_min'' IntegerT True None,
      mapped_column ''experience_max'' IntegerT True None,
      mapped_column ''requested_limit'' IntegerT False None,
      mapped_column ''progress'' IntegerT False None,
      mapped_column ''current_stage'' (StringT 32) False None,
      mapped_column ''error_message'' (StringT 1024) True None,
      mapped_column ''started_at'' TimestampT True None,
      mapped_column ''completed_at'' TimestampT True None]\<rparr>"

definition job_search_results_class :: mapped_class where
  "job_search_results_class = \<lparr>ma_table = ''job_search_results'',
    ma_args = [ConstraintA (UniqueC ''uq_job_search_results_search_job'' [''search_id'', ''job_id'']),
      IndexA ''ix_job_search_results_search_id'' [''search_id''] Btree,
      IndexA ''ix_job_search_results_rank'' [''search_id'', ''rank''] Btree],
    ma_columns = identity_timestamp_columns @ [(mapped_column ''search_id'' UuidT False None)\<lparr>mc_foreign := Some (''job_searches'', ''id'', Cascade)\<rparr>,
      (mapped_column ''job_id'' UuidT False None)\<lparr>mc_foreign := Some (''jobs'', ''id'', Cascade)\<rparr>,
      mapped_column ''rank'' IntegerT False None,
      mapped_column ''match_score'' FloatT False None,
      mapped_column ''skills_score'' FloatT False None,
      mapped_column ''experience_score'' FloatT False None,
      mapped_column ''location_score'' FloatT False None,
      mapped_column ''freshness_score'' FloatT False None]\<rparr>"

definition mapped_classes :: "mapped_class list" where
  "mapped_classes = [profiles_class, ip_access_rules_class, security_audit_events_class, resumes_class, candidate_profiles_class, resume_storage_cleanups_class, global_jobs_class, companies_class, jobs_class, job_sources_class, job_searches_class, job_search_results_class]"

section \<open>The tables they declare\<close>

fun arg_constraint :: "string \<Rightarrow> table_arg \<Rightarrow> sql_constraint option" where
  "arg_constraint t (ConstraintA (CheckC n p)) = Some (CheckC (check_name t n) p)"
| "arg_constraint t (ConstraintA k) = Some k"
| "arg_constraint t (IndexA n cs m) = None"

fun arg_index :: "string \<Rightarrow> table_arg \<Rightarrow> (string \<times> sql_index) option" where
  "arg_index t (IndexA n cs m) = Some (n, \<lparr>ix_table = t, ix_columns = cs, ix_method = m\<rparr>)"
| "arg_index t (ConstraintA k) = None"

definition attr_name :: "mapped_attr \<Rightarrow> string" where
  "attr_name a = sc_name (mc_column a)"

definition declared_constraints :: "mapped_class \<Rightarrow> sql_constraint list" where
  "declared_constraints m = (let t = ma_table m in
     List.map_filter (arg_constraint t) (ma_args m) @
     [PrimaryC (primary_name t) (map attr_name (filter mc_primary (ma_columns m)))] @
     map (\<lambda>a. UniqueC (unique_name t [attr_name a]) [attr_name a]) (filter mc_unique (ma_columns m)) @
     List.map_filter (\<lambda>a. map_option (\<lambda>(u, c, act). ForeignC (foreign_name t [attr_name a] u) [attr_name a] u [c] act) (mc_foreign a))
       (ma_columns m))"

definition declared_table :: "mapped_class \<Rightarrow> string \<times> sql_table" where
  "declared_table m = (ma_table m, \<lparr>tb_columns = map mc_column (ma_columns m), tb_constraints = declared_constraints m\<rparr>)"

definition declared_indexes :: "mapped_class \<Rightarrow> (string \<times> sql_index) list" where
  "declared_indexes m = (let t = ma_table m in
     List.map_filter (arg_index t) (ma_args m) @
     map (\<lambda>a. (index_name t [attr_name a], \<lparr>ix_table = t, ix_columns = [attr_name a], ix_method = Btree\<rparr>)) (filter mc_index (ma_columns m)))"

section \<open>Comparison with the migrated schema\<close>

text \<open>Columns by name, type and nullability; constraints with the names of all but the checks.\<close>

definition column_shape :: "sql_column \<Rightarrow> string \<times> sql_type \<times> bool" where
  "column_shape c = (sc_name c, sc_type c, sc_null c)"

fun unnamed_check :: "sql_constraint \<Rightarrow> sql_constraint" where
  "unnamed_check (CheckC n p) = CheckC [] p"
| "unnamed_check k = k"

definition same_elements :: "'a list \<Rightarrow> 'a list \<Rightarrow> bool" where
  "same_elements xs ys \<longleftrightarrow> length xs = length ys \<and> list_all (\<lambda>x. List.member ys x) xs \<and> list_all (\<lambda>y. List.member xs y) ys"

definition tables_agree :: "sql_table \<Rightarrow> sql_table \<Rightarrow> bool" where
  "tables_agree t u \<longleftrightarrow> same_elements (map column_shape (tb_columns t)) (map column_shape (tb_columns u)) \<and>
     same_elements (map unnamed_check (tb_constraints t)) (map unnamed_check (tb_constraints u))"

definition class_agrees :: "schema \<Rightarrow> mapped_class \<Rightarrow> bool" where
  "class_agrees s m = (case map_of (sch_tables s) (ma_table m) of None \<Rightarrow> False
     | Some t \<Rightarrow> tables_agree t (snd (declared_table m)))"

text \<open>What a default inserts: PostgreSQL reads a quoted constant when the table is created, so a
  quoted \<open>now()\<close> is the instant of the creation.\<close>

datatype default_meaning = NoDefault | InsertionInstant | CreationInstant | FreshUuid | Constant string

fun default_value :: "sql_type \<Rightarrow> sql_default option \<Rightarrow> default_meaning" where
  "default_value ty None = NoDefault"
| "default_value ty (Some DefNow) = InsertionInstant"
| "default_value ty (Some DefUuid) = FreshUuid"
| "default_value ty (Some DefTrue) = Constant ''true''"
| "default_value ty (Some (DefText s)) = Constant s"
| "default_value ty (Some (DefJson s)) = Constant s"
| "default_value ty (Some (DefLiteral s)) = (if ty = TimestampT \<and> s = ''now()'' then CreationInstant else Constant s)"

definition column_default :: "sql_column \<Rightarrow> default_meaning" where
  "column_default c = default_value (sc_type c) (sc_default c)"

definition drifted_columns :: "sql_table \<Rightarrow> sql_table \<Rightarrow> (string \<times> default_meaning \<times> default_meaning) list" where
  "drifted_columns t u = List.map_filter (\<lambda>c. case List.find (\<lambda>e. sc_name e = sc_name c) (tb_columns t) of
      None \<Rightarrow> None
    | Some e \<Rightarrow> if column_default e = column_default c then None else Some (sc_name c, column_default e, column_default c))
     (tb_columns u)"

definition class_drift :: "schema \<Rightarrow> mapped_class \<Rightarrow> (string \<times> default_meaning \<times> default_meaning) list" where
  "class_drift s m = (case map_of (sch_tables s) (ma_table m) of None \<Rightarrow> []
     | Some t \<Rightarrow> drifted_columns t (snd (declared_table m)))"

definition drift :: "schema \<Rightarrow> (string \<times> string \<times> default_meaning \<times> default_meaning) list" where
  "drift s = concat (map (\<lambda>m. map (Pair (ma_table m)) (class_drift s m)) mapped_classes)"

lemma classes_agree: "list_all (class_agrees head_schema) mapped_classes"
  by code_simp

lemma indexes_agree: "same_elements (sch_indexes head_schema) (concat (map declared_indexes mapped_classes))"
  by code_simp

text \<open>Its tables, the defaults that drifted, and the tables whose privileges were not revoked.\<close>

definition overview :: "schema \<Rightarrow> string list \<times> (string \<times> string \<times> default_meaning \<times> default_meaning) list \<times> string list" where
  "overview s = (map fst (sch_tables s), drift s, filter (\<lambda>n. n \<notin> set (sch_revoked s)) (map fst (sch_tables s)))"

lemma head_overview: "overview head_schema =
    (''alembic_version'' # [''profiles'', ''ip_access_rules'', ''security_audit_events'',
    ''resumes'', ''candidate_profiles'', ''resume_storage_cleanups'', ''global_jobs'', ''companies'', ''jobs'', ''job_sources'',
    ''job_searches'', ''job_search_results''],
     map (\<lambda>(t, c). (t, c, InsertionInstant, CreationInstant))
      [(''global_jobs'', ''first_seen_at''), (''global_jobs'', ''last_seen_at''), (''global_jobs'', ''scraped_at''),
       (''jobs'', ''first_seen_at''), (''jobs'', ''last_seen_at''),
       (''job_sources'', ''first_seen_at''), (''job_sources'', ''last_seen_at''), (''job_sources'', ''scraped_at'')],
     [''job_searches'', ''job_search_results''])"
  by code_simp

lemma classes_known: "map ma_table mapped_classes = [''profiles'', ''ip_access_rules'', ''security_audit_events'',
    ''resumes'', ''candidate_profiles'', ''resume_storage_cleanups'', ''global_jobs'', ''companies'', ''jobs'', ''job_sources'',
    ''job_searches'', ''job_search_results'']"
  by code_simp

lemma head_tables: "map fst (sch_tables head_schema) = ''alembic_version'' # map ma_table mapped_classes"
  using head_overview unfolding overview_def prod.inject classes_known by (elim conjE)

lemma head_drift: "drift head_schema = map (\<lambda>(t, c). (t, c, InsertionInstant, CreationInstant))
      [(''global_jobs'', ''first_seen_at''), (''global_jobs'', ''last_seen_at''), (''global_jobs'', ''scraped_at''),
       (''jobs'', ''first_seen_at''), (''jobs'', ''last_seen_at''),
       (''job_sources'', ''first_seen_at''), (''job_sources'', ''last_seen_at''), (''job_sources'', ''scraped_at'')]"
  using head_overview unfolding overview_def prod.inject by (elim conjE)

text \<open>C35: The migrated schema is the one the mapped classes declare. From any state of a database, the
  upgrade to the last revision makes exactly the tables of the classes, beside Alembic's own; the
  columns have the declared names, types and nullability, the keys, foreign keys and uniqueness
  constraints the declared names and columns, the checks the declared conditions, and the indexes
  are the declared ones. Server defaults insert the same, but for the eight seen and scraped
  times the classes declare as a quoted \<open>now()\<close>.\<close>

theorem migrations_match_classes:
  "\<exists>j s. run_online (replicate j Up) (database_after runs) = (None, Some ''b04da2158cf4'', s) \<and>
     map fst (sch_tables s) = ''alembic_version'' # map ma_table mapped_classes \<and> list_all (class_agrees s) mapped_classes \<and>
     same_elements (sch_indexes s) (concat (map declared_indexes mapped_classes)) \<and>
     drift s = map (\<lambda>(t, c). (t, c, InsertionInstant, CreationInstant))
      [(''global_jobs'', ''first_seen_at''), (''global_jobs'', ''last_seen_at''), (''global_jobs'', ''scraped_at''),
       (''jobs'', ''first_seen_at''), (''jobs'', ''last_seen_at''),
       (''job_sources'', ''first_seen_at''), (''job_sources'', ''last_seen_at''), (''job_sources'', ''scraped_at'')]"
proof -
  obtain j where j: "run_online (replicate j Up) (database_after runs) = (None, Some ''b04da2158cf4'', head_schema)"
    using head_reached[of runs] by (elim exE)
  show ?thesis
    by (intro exI[of _ j] exI[of _ head_schema] conjI) (rule j head_tables classes_agree indexes_agree head_drift)+
qed

end
