(* ===== verification/Constraints.thy ===== *)
theory Constraints
  imports Metadata SearchRun Auth
begin

text \<open>
  The rows of the development's tables as rows of the migrated schema: each attribute of a mapped
  class under the name of its column. The checks the scripts install are shown to be the
  predicates the components' invariants are stated with (\<open>resume_checks\<close>, \<open>profile_checks\<close>,
  \<open>global_checks\<close>, \<open>canonical_checks\<close>), and the column types of the legacy table those of
  \<open>global_columns_ok\<close>. \<open>updated_at\<close>, which the components do not keep, is an argument.
\<close>

section \<open>Rows by column\<close>

definition row_of :: "(string \<times> sql_value) list \<Rightarrow> string \<Rightarrow> sql_value" where
  "row_of kvs c = (case map_of kvs c of None \<Rightarrow> SNull | Some v \<Rightarrow> v)"

definition nullable_value :: "('a \<Rightarrow> sql_value) \<Rightarrow> 'a option \<Rightarrow> sql_value" where
  "nullable_value f v = (case v of None \<Rightarrow> SNull | Some x \<Rightarrow> f x)"

definition texts :: "string list \<Rightarrow> sql_value" where
  "texts ss = SJson (JList (map JStr ss))"

fun resume_status_str :: "resume_status \<Rightarrow> string" where
  "resume_status_str UPLOADED = ''uploaded''"
| "resume_status_str PARSING = ''parsing''"
| "resume_status_str PARSED = ''parsed''"
| "resume_status_str PARSE_FAILED = ''parse_failed''"
| "resume_status_str DELETED = ''deleted''"

fun search_status_str :: "search_status \<Rightarrow> string" where
  "search_status_str QUEUED = ''queued''"
| "search_status_str PROCESSING = ''processing''"
| "search_status_str COMPLETED = ''completed''"
| "search_status_str FAILED = ''failed''"

fun role_str :: "profile_role \<Rightarrow> string" where
  "role_str EMPLOYEE = ''employee''"
| "role_str ADMIN = ''admin''"

definition resume_row :: "int \<Rightarrow> resume \<Rightarrow> string \<Rightarrow> sql_value" where
  "resume_row u r = row_of
     [(''id'', SUuid (re_id r)), (''owner_profile_id'', SUuid (re_owner r)), (''original_filename'', SText (re_filename r)),
      (''storage_bucket'', SText (re_bucket r)), (''storage_object_key'', SText (re_key r)),
      (''content_type'', SText (re_content_type r)), (''size_bytes'', SInt (int (re_size r))), (''sha256'', SText (re_sha256 r)),
      (''status'', SText (resume_status_str (re_status r))), (''parser_version'', nullable_value SText (re_parser_version r)),
      (''parse_error_code'', nullable_value SText (re_parse_error r)), (''version'', SInt (int (re_version r))),
      (''deleted_at'', nullable_value STime (re_deleted_at r)), (''created_at'', STime (re_created_at r)), (''updated_at'', STime u)]"

definition candidate_row :: "nat \<Rightarrow> int \<Rightarrow> candidate_profile \<Rightarrow> string \<Rightarrow> sql_value" where
  "candidate_row i u p = row_of
     [(''id'', SUuid i), (''resume_id'', SUuid (cp_resume_id p)), (''owner_profile_id'', SUuid (cp_owner p)),
      (''full_name'', nullable_value SText (cp_full_name p)), (''email'', nullable_value SText (cp_email p)),
      (''phone'', nullable_value SText (cp_phone p)), (''location'', nullable_value SText (cp_location p)),
      (''current_title'', nullable_value SText (cp_current_title p)), (''professional_summary'', nullable_value SText (cp_summary p)),
      (''years_of_experience'', nullable_value SNum (cp_years p)), (''extracted_text'', nullable_value SText (cp_extracted_text p)),
      (''skills'', texts (cp_skills p)), (''employment_history'', SJson (JList (cp_employment p))),
      (''education'', SJson (JList (cp_education p))), (''certifications'', texts (cp_certifications p)),
      (''languages'', texts (cp_languages p)), (''raw_parser_output'', SJson (JObj (cp_raw_output p))),
      (''created_at'', STime u), (''updated_at'', STime (cp_updated_at p))]"

definition cleanup_row :: "int \<Rightarrow> cleanup \<Rightarrow> string \<Rightarrow> sql_value" where
  "cleanup_row u c = row_of
     [(''id'', SUuid (cl_id c)), (''owner_profile_id'', SUuid (cl_owner c)), (''storage_bucket'', SText (cl_bucket c)),
      (''storage_object_key'', SText (cl_key c)), (''available_at'', STime (cl_available_at c)),
      (''attempts'', SInt (int (cl_attempts c))), (''last_error_code'', nullable_value SText (cl_error c)),
      (''created_at'', STime u), (''updated_at'', STime u)]"

definition global_row :: "int \<Rightarrow> global_job \<Rightarrow> string \<Rightarrow> sql_value" where
  "global_row u g = row_of
     [(''source'', SText (gj_source g)), (''external_job_id'', SText (gj_external_id g)), (''job_title'', SText (gj_title g)),
      (''normalized_title'', SText (gj_normalized_title g)), (''role_family'', SText (gj_role_family g)),
      (''company'', nullable_value SText (gj_company g)), (''location'', nullable_value SText (gj_location g)),
      (''job_url'', nullable_value SText (gj_url g)), (''description'', nullable_value SText (gj_description g)),
      (''salary_text'', nullable_value SText (gj_salary_text g)), (''employment_type'', nullable_value SText (gj_employment_type g)),
      (''remote'', nullable_value SBool (gj_remote g)), (''skills'', texts (gj_skills g)),
      (''posted_at'', nullable_value STime (gj_posted_at g)), (''experience_min_years'', nullable_value SInt (gj_experience_min g)),
      (''experience_max_years'', nullable_value SInt (gj_experience_max g)),
      (''experience_text'', nullable_value SText (gj_experience_text g)), (''first_seen_at'', STime (gj_first_seen_at g)),
      (''last_seen_at'', STime (gj_last_seen_at g)), (''scraped_at'', STime (gj_scraped_at g)), (''is_active'', SBool (gj_is_active g)),
      (''content_hash'', nullable_value SText (gj_content_hash g)), (''id'', SUuid (gj_id g)),
      (''created_at'', STime u), (''updated_at'', STime u)]"

definition canonical_row :: "int \<Rightarrow> canonical_job \<Rightarrow> string \<Rightarrow> sql_value" where
  "canonical_row u j = row_of
     [(''company_id'', nullable_value SUuid (cj_company_id j)), (''title'', SText (cj_title j)),
      (''normalized_title'', SText (cj_normalized_title j)), (''description'', nullable_value SText (cj_description j)),
      (''location'', nullable_value SText (cj_location j)), (''normalized_location'', nullable_value SText (cj_normalized_location j)),
      (''employment_type'', nullable_value SText (cj_employment_type j)),
      (''remote_type'', nullable_value (SText \<circ> remote_str) (cj_remote_type j)), (''skills'', texts (cj_skills j)),
      (''experience_min_years'', nullable_value SInt (cj_experience_min j)),
      (''experience_max_years'', nullable_value SInt (cj_experience_max j)),
      (''experience_text'', nullable_value SText (cj_experience_text j)), (''role_family'', SText (cj_role_family j)),
      (''seniority'', nullable_value SText (cj_seniority j)), (''salary_min'', nullable_value SNum (cj_salary_min j)),
      (''salary_max'', nullable_value SNum (cj_salary_max j)), (''salary_currency'', nullable_value SText (cj_salary_currency j)),
      (''salary_text'', nullable_value SText (cj_salary_text j)), (''salary_period'', nullable_value SText (cj_salary_period j)),
      (''posted_at'', nullable_value STime (cj_posted_at j)), (''source_updated_at'', nullable_value STime (cj_source_updated_at j)),
      (''first_seen_at'', STime (cj_first_seen_at j)), (''last_seen_at'', STime (cj_last_seen_at j)),
      (''is_active'', SBool (cj_is_active j)), (''canonical_hash'', SText (cj_canonical_hash j)), (''id'', SUuid (cj_id j)),
      (''created_at'', STime u), (''updated_at'', STime u)]"

definition search_row :: "int \<Rightarrow> job_search \<Rightarrow> string \<Rightarrow> sql_value" where
  "search_row u s = row_of
     [(''user_id'', SUuid (se_user s)), (''status'', SText (search_status_str (se_status s))),
      (''query'', nullable_value SText (se_query s)), (''location'', nullable_value SText (se_location s)),
      (''remote_type'', nullable_value (SText \<circ> remote_str) (se_remote_type s)), (''job_type'', nullable_value SText (se_job_type s)),
      (''experience_min'', nullable_value SInt (se_experience_min s)), (''experience_max'', nullable_value SInt (se_experience_max s)),
      (''requested_limit'', SInt (int (se_limit s))), (''progress'', SInt (int (se_progress s))),
      (''current_stage'', SText (se_stage s)), (''error_message'', nullable_value SText (se_error s)),
      (''started_at'', nullable_value STime (se_started_at s)), (''completed_at'', nullable_value STime (se_completed_at s)),
      (''id'', SUuid (se_id s)), (''created_at'', STime u), (''updated_at'', STime u)]"

definition account_row :: "int \<Rightarrow> profile \<Rightarrow> string \<Rightarrow> sql_value" where
  "account_row u p = row_of
     [(''auth_user_id'', SUuid (pf_auth_user p)), (''email'', SText (pf_email p)), (''role'', SText (role_str (pf_role p))),
      (''is_active'', SBool (pf_active p)), (''id'', SUuid (pf_id p)), (''created_at'', STime (pf_created_at p)), (''updated_at'', STime u)]"

section \<open>The conditions the scripts leave installed\<close>

definition table_rules :: "schema \<Rightarrow> (string \<times> sql_cond list \<times> sql_column list) list" where
  "table_rules s = map (\<lambda>(n, t). (n, conditions t, enum_columns t)) (sch_tables s)"

lemma head_rules: "table_rules head_schema =
    [(''alembic_version'', [],
      []),
     (''profiles'', [],
      [column ''role'' (EnumT ''profile_role'' [''employee'', ''admin'']) False (Some (DefLiteral ''employee''))]),
     (''ip_access_rules'', [],
      []),
     (''security_audit_events'', [],
      [column ''event_type'' (EnumT ''security_audit_event_type'' [''IP_ACCESS_DENIED'', ''IP_RULE_CREATED'', ''IP_RULE_UPDATED'', ''IP_RULE_DISABLED'', ''IP_RULE_DELETED'', ''IP_EMERGENCY_BYPASS_USED'']) False None]),
     (''resumes'', [Compare GreaterThan (Col ''size_bytes'') (Val (SInt 0)),
      Compare Equal (CharLength (Col ''sha256'')) (Val (SInt 64)),
      Compare Equal (Col ''content_type'') (Val (SText ''application/pdf'')),
      Or (And (Compare Equal (Col ''status'') (Val (SText ''deleted''))) (IsNotNull (Col ''deleted_at'')))
         (And (Compare NotEqual (Col ''status'') (Val (SText ''deleted''))) (IsNull (Col ''deleted_at''))),
      LowerHex64 (Col ''sha256''),
      Compare GreaterThan (CharLength (Btrim (Col ''original_filename''))) (Val (SInt 0)),
      Or (And (Compare Equal (Col ''status'') (Val (SText ''parse_failed''))) (IsNotNull (Col ''parse_error_code'')))
         (And (Compare NotEqual (Col ''status'') (Val (SText ''parse_failed''))) (IsNull (Col ''parse_error_code''))),
      Compare GreaterThan (Col ''version'') (Val (SInt 0))],
      [column ''status'' (EnumT ''resume_status'' [''uploaded'', ''parsing'', ''parsed'', ''parse_failed'', ''deleted'']) False (Some (DefText ''uploaded''))]),
     (''candidate_profiles'', [Or (IsNull (Col ''years_of_experience''))
         (And (Compare AtLeast (Col ''years_of_experience'') (Val (SInt 0))) (Compare AtMost (Col ''years_of_experience'') (Val (SInt 80)))),
      Compare Equal (JsonTypeof (Col ''skills'')) (Val (SText ''array'')),
      Compare Equal (JsonTypeof (Col ''employment_history'')) (Val (SText ''array'')),
      Compare Equal (JsonTypeof (Col ''education'')) (Val (SText ''array'')),
      Compare Equal (JsonTypeof (Col ''certifications'')) (Val (SText ''array'')),
      Compare Equal (JsonTypeof (Col ''languages'')) (Val (SText ''array'')),
      Compare Equal (JsonTypeof (Col ''raw_parser_output'')) (Val (SText ''object''))],
      []),
     (''resume_storage_cleanups'', [Compare AtLeast (Col ''attempts'') (Val (SInt 0))],
      []),
     (''global_jobs'', [Or (IsNull (Col ''experience_min_years'')) (Compare AtLeast (Col ''experience_min_years'') (Val (SInt 0))),
      Or (IsNull (Col ''experience_max_years'')) (Compare AtLeast (Col ''experience_max_years'') (Val (SInt 0))),
      Or (Or (IsNull (Col ''experience_max_years'')) (IsNull (Col ''experience_min_years'')))
         (Compare AtLeast (Col ''experience_max_years'') (Col ''experience_min_years''))],
      []),
     (''companies'', [],
      []),
     (''jobs'', [Or (IsNull (Col ''experience_min_years'')) (Compare AtLeast (Col ''experience_min_years'') (Val (SInt 0))),
      Or (IsNull (Col ''experience_max_years'')) (Compare AtLeast (Col ''experience_max_years'') (Val (SInt 0))),
      Or (Or (IsNull (Col ''experience_max_years'')) (IsNull (Col ''experience_min_years'')))
         (Compare AtLeast (Col ''experience_max_years'') (Col ''experience_min_years'')),
      Or (Or (IsNull (Col ''salary_min'')) (IsNull (Col ''salary_max''))) (Compare AtLeast (Col ''salary_max'') (Col ''salary_min''))],
      []),
     (''job_sources'', [],
      []),
     (''job_searches'', [And (Compare AtLeast (Col ''progress'') (Val (SInt 0))) (Compare AtMost (Col ''progress'') (Val (SInt 100)))],
      []),
     (''job_search_results'', [],
      [])]"
  by code_simp

lemma checks_pass_rules:
  "checks_pass s n row \<longleftrightarrow> (case map_of (table_rules s) n of None \<Rightarrow> False
     | Some (ps, es) \<Rightarrow> list_all (passes row) ps \<and> list_all (\<lambda>c. type_check (sc_type c) (row (sc_name c))) es)"
proof -
  have "map_of (map (\<lambda>(n, t). (n, conditions t, enum_columns t)) ts) n = map_option (\<lambda>t. (conditions t, enum_columns t)) (map_of ts n)" for ts
    by (induction ts) auto
  then show ?thesis by (simp add: checks_pass_def table_rules_def split: option.split)
qed

lemma btrim_empty: "btrim s = [] \<longleftrightarrow> \<not> list_ex (\<lambda>c. c \<noteq> CHR '' '') s"
proof (cases "dropWhile (\<lambda>c. c = CHR '' '') s")
  case Nil
  then have "\<forall>c \<in> set s. c = CHR '' ''" by (simp add: dropWhile_eq_Nil_conv)
  then show ?thesis unfolding btrim_def Nil by (auto simp: list_ex_iff)
next
  case (Cons v vs)
  then have "v \<noteq> CHR '' ''" using hd_dropWhile[of "\<lambda>c. c = CHR '' ''" s] by simp
  moreover have "v \<in> set s" using Cons set_dropWhileD[of v "\<lambda>c. c = CHR '' ''" s] by simp
  ultimately show ?thesis using Cons by (auto simp: btrim_def dropWhile_eq_Nil_conv list_ex_iff)
qed

lemma nullable_null [simp]: "nullable_value SText v = SNull \<longleftrightarrow> v = None" "nullable_value STime w = SNull \<longleftrightarrow> w = None"
  "nullable_value SInt i = SNull \<longleftrightarrow> i = None" "nullable_value SNum q = SNull \<longleftrightarrow> q = None"
  by (simp_all add: nullable_value_def split: option.split)

lemmas row_simps = row_of_def column_def texts_def

lemma status_texts [simp]:
  "resume_status_str st = ''deleted'' \<longleftrightarrow> st = DELETED" "resume_status_str st = ''parse_failed'' \<longleftrightarrow> st = PARSE_FAILED"
  "resume_status_str st = ''uploaded'' \<or> resume_status_str st = ''parsing'' \<or> resume_status_str st = ''parsed'' \<or> st = PARSE_FAILED \<or> st = DELETED"
  by (cases st; simp)+

text \<open>The shapes of the conditions over optional columns.\<close>

lemma passes_nonneg:
  "row c = nullable_value SInt v \<Longrightarrow> passes row (Or (IsNull (Col c)) (Compare AtLeast (Col c) (Val (SInt 0)))) \<longleftrightarrow> nonneg_opt v"
  by (cases v) (simp_all add: passes_def nullable_value_def nonneg_opt_def)

lemma passes_ordered:
  "row c = nullable_value SInt v \<Longrightarrow> row d = nullable_value SInt w \<Longrightarrow>
   passes row (Or (Or (IsNull (Col d)) (IsNull (Col c))) (Compare AtLeast (Col d) (Col c))) \<longleftrightarrow> ordered_opt v w"
  "row c = nullable_value SNum x \<Longrightarrow> row d = nullable_value SNum y \<Longrightarrow>
   passes row (Or (Or (IsNull (Col c)) (IsNull (Col d))) (Compare AtLeast (Col d) (Col c))) \<longleftrightarrow> ordered_opt x y"
  by (cases v; cases w; simp add: passes_def nullable_value_def ordered_opt_def)
    (cases x; cases y; simp add: passes_def nullable_value_def ordered_opt_def)

lemma passes_state:
  "row c = SText s \<Longrightarrow> passes row (Or (And (Compare Equal (Col c) (Val (SText k))) (IsNotNull (Col d)))
     (And (Compare NotEqual (Col c) (Val (SText k))) (IsNull (Col d)))) \<longleftrightarrow> (s = k \<longleftrightarrow> row d \<noteq> SNull)"
  by (auto simp: passes_def)

lemma rat_of_length: "rat_of_nat k = rat_of_int n \<longleftrightarrow> int k = n"
  by (metis of_int_eq_iff of_int_of_nat_eq)

lemma passes_simple:
  "row c = SInt i \<Longrightarrow> passes row (Compare GreaterThan (Col c) (Val (SInt 0))) \<longleftrightarrow> 0 < i"
  "row c = SText s \<Longrightarrow> passes row (Compare Equal (CharLength (Col c)) (Val (SInt n))) \<longleftrightarrow> int (length s) = n"
  "row c = SText s \<Longrightarrow> passes row (Compare Equal (Col c) (Val (SText k))) \<longleftrightarrow> s = k"
  "row c = SText s \<Longrightarrow> passes row (LowerHex64 (Col c)) \<longleftrightarrow> hex64 s"
  "row c = SText s \<Longrightarrow> passes row (Compare GreaterThan (CharLength (Btrim (Col c))) (Val (SInt 0))) \<longleftrightarrow> list_ex (\<lambda>c. c \<noteq> CHR '' '') s"
  "row c = SJson j \<Longrightarrow> passes row (Compare Equal (JsonTypeof (Col c)) (Val (SText k))) \<longleftrightarrow> json_kind j = k"
  by (simp_all add: passes_def btrim_empty rat_of_length)

lemma resumes_checked: "checks_pass head_schema ''resumes'' (resume_row u r) \<longleftrightarrow> resume_checks r"
  unfolding checks_pass_rules head_rules resume_row_def
  by (simp add: row_simps passes_simple passes_state resume_checks_def hex64_def del: term_value.simps) blast

lemma candidates_checked: "checks_pass head_schema ''candidate_profiles'' (candidate_row i u p) \<longleftrightarrow> profile_checks p"
  unfolding checks_pass_rules head_rules candidate_row_def
  by (cases "cp_years p") (simp_all add: row_simps passes_simple passes_def[of _ "Or _ _"] nullable_value_def profile_checks_def)

lemma cleanups_checked: "checks_pass head_schema ''resume_storage_cleanups'' (cleanup_row u c)"
  unfolding checks_pass_rules head_rules cleanup_row_def
  by (simp add: row_simps passes_def)

lemma globals_checked: "checks_pass head_schema ''global_jobs'' (global_row u g) \<longleftrightarrow> global_checks g"
  unfolding checks_pass_rules head_rules global_row_def
  by (simp add: row_simps passes_nonneg passes_ordered global_checks_def)

lemma canonicals_checked: "checks_pass head_schema ''jobs'' (canonical_row u j) \<longleftrightarrow> canonical_checks j"
  unfolding checks_pass_rules head_rules canonical_row_def
  by (simp add: row_simps passes_nonneg passes_ordered canonical_checks_def)

lemma searches_checked: "checks_pass head_schema ''job_searches'' (search_row u s) \<longleftrightarrow> se_progress s \<le> 100"
  unfolding checks_pass_rules head_rules search_row_def
  by (simp add: row_simps passes_def)

lemma accounts_checked: "checks_pass head_schema ''profiles'' (account_row u p)"
  unfolding checks_pass_rules head_rules account_row_def
  by (cases "pf_role p") (simp_all add: row_simps)

lemma global_columns: "map_option tb_columns (map_of (sch_tables head_schema) ''global_jobs'') = Some
    [column ''source'' (StringT 32) False None, column ''external_job_id'' (StringT 512) False None,
     column ''job_title'' (StringT 500) False None, column ''normalized_title'' (StringT 500) False None,
     column ''role_family'' (StringT 64) False None, column ''company'' (StringT 500) True None,
     column ''location'' (StringT 500) True None, column ''job_url'' (StringT 2048) True None, column ''description'' TextT True None,
     column ''salary_text'' (StringT 500) True None, column ''employment_type'' (StringT 100) True None,
     column ''remote'' BooleanT True None, column ''skills'' JsonbT False (Some (DefJson ''[]'')),
     column ''posted_at'' TimestampT True None, column ''experience_min_years'' IntegerT True None,
     column ''experience_max_years'' IntegerT True None, column ''experience_text'' (StringT 500) True None,
     column ''first_seen_at'' TimestampT False (Some DefNow), column ''last_seen_at'' TimestampT False (Some DefNow),
     column ''scraped_at'' TimestampT False (Some DefNow), column ''is_active'' BooleanT False (Some DefTrue),
     column ''content_hash'' (StringT 128) True None, column ''id'' UuidT False (Some DefUuid),
     column ''created_at'' TimestampT False (Some DefNow), column ''updated_at'' TimestampT False (Some DefNow)]"
  by code_simp

lemma columns_fit_known:
  "map_option tb_columns (map_of (sch_tables s) n) = Some cs \<Longrightarrow>
   columns_fit s n row \<longleftrightarrow> list_all (\<lambda>c. slot_fits (sc_null c) (sc_type c) (row (sc_name c))) cs"
  by (auto simp: columns_fit_def split: option.splits)

lemma slots [simp]:
  "slot_fits b (StringT n) (SText s) \<longleftrightarrow> length s \<le> n" "slot_fits True (StringT n) (nullable_value SText v) \<longleftrightarrow> short_opt n v"
  "slot_fits True IntegerT (nullable_value SInt i) \<longleftrightarrow> int4_opt i" "slot_fits True TextT (nullable_value SText v)"
  "slot_fits True BooleanT (nullable_value SBool b')" "slot_fits True TimestampT (nullable_value STime t)"
  "slot_fits False JsonbT (texts ss)" "slot_fits False TimestampT (STime x)" "slot_fits False BooleanT (SBool y)"
  "slot_fits False UuidT (SUuid k)"
  by (simp_all add: slot_fits_def nullable_value_def texts_def short_opt_def int4_opt_def split: option.split)

lemma global_fits: "columns_fit head_schema ''global_jobs'' (global_row u g) \<longleftrightarrow> global_columns_ok g"
  unfolding columns_fit_known[OF global_columns]
  by (simp add: column_def global_row_def row_of_def global_columns_ok_def) blast

text \<open>C33: What the database enforces is what the components assume. After any sequence of runs and
  the upgrade to the last revision, the check constraints of the tables accept a resume, a
  candidate profile, a legacy row, an opening or a search just when it satisfies the predicate
  its invariant is stated with, and every cleanup and account; and the column types of the
  legacy table store exactly the rows the repository's flush accepts.\<close>

theorem database_enforces_invariants:
  "\<exists>j s. run_online (replicate j Up) (database_after runs) = (None, Some ''b04da2158cf4'', s) \<and>
     checks_pass s ''resumes'' (resume_row u r) = resume_checks r \<and>
     checks_pass s ''candidate_profiles'' (candidate_row i u p) = profile_checks p \<and>
     checks_pass s ''resume_storage_cleanups'' (cleanup_row u c) \<and>
     checks_pass s ''global_jobs'' (global_row u g) = global_checks g \<and>
     columns_fit s ''global_jobs'' (global_row u g) = global_columns_ok g \<and>
     checks_pass s ''jobs'' (canonical_row u k) = canonical_checks k \<and>
     checks_pass s ''job_searches'' (search_row u q) = (se_progress q \<le> 100) \<and>
     checks_pass s ''profiles'' (account_row u a)"
proof -
  obtain j where j: "run_online (replicate j Up) (database_after runs) = (None, Some ''b04da2158cf4'', head_schema)"
    using head_reached[of runs] by (elim exE)
  show ?thesis
    by (intro exI[of _ j] exI[of _ head_schema] conjI)
      (rule j resumes_checked candidates_checked cleanups_checked globals_checked global_fits canonicals_checked
        searches_checked accounts_checked)+
qed

end
