(* ===== verification/Backfill.thy ===== *)
theory Backfill
  imports Collection Html Schema
begin

text \<open>
  The data migration into the canonical tables
  (\<open>src/migrations/versions/0007_canonical_jobs.py\<close>): one company per normalised name, one
  opening per legacy row under the same identifier, one listing per provider identity. The
  tables are created empty just before, so the \<open>ON CONFLICT\<close> clauses never apply. The
  identifiers \<open>gen_random_uuid()\<close> draws are the numbers after those of the legacy table; \<open>md5\<close>
  and the text of a UUID are parameters; text is ordered by its characters.
\<close>

section \<open>SQL text functions\<close>

definition pg_space :: "char \<Rightarrow> bool" where
  "pg_space c \<longleftrightarrow> (let n = char_code c in n = 32 \<or> (9 \<le> n \<and> n \<le> 13))"

text \<open>\<open>regexp_replace(s, '\s+', ' ', 'g')\<close>\<close>

function squeeze_runs :: "string \<Rightarrow> string" where
  "squeeze_runs [] = []"
| "squeeze_runs (c # cs) =
     (if pg_space c then CHR '' '' # squeeze_runs (dropWhile pg_space cs) else c # squeeze_runs cs)"
  by pat_completeness auto
termination
  by (relation "measure length") (auto simp: less_Suc_eq_le length_dropWhile_le)

definition sql_key :: "string \<Rightarrow> string" where
  "sql_key s = lower (squeeze_runs (btrim s))"

section \<open>Companies\<close>

text \<open>The companies the migration groups: not null and not blank.\<close>

definition legacy_companies :: "global_db \<Rightarrow> string list" where
  "legacy_companies g = filter (\<lambda>s. btrim s \<noteq> []) (List.map_filter gj_company (gd_rows g))"

definition company_keys :: "global_db \<Rightarrow> string list" where
  "company_keys g = remdups (map sql_key (legacy_companies g))"

definition least_name :: "global_db \<Rightarrow> string \<Rightarrow> string" where
  "least_name g k = hd (sort (map btrim (filter (\<lambda>s. sql_key s = k) (legacy_companies g))))"

definition backfilled_companies :: "global_db \<Rightarrow> company list" where
  "backfilled_companies g = map (\<lambda>(i, k). \<lparr>co_id = i, co_name = least_name g k, co_normalized_name = k,
     co_website_url = None, co_domain = None\<rparr>) (enumerate (gd_next g) (company_keys g))"

section \<open>Openings and listings\<close>

definition company_link :: "global_db \<Rightarrow> global_job \<Rightarrow> nat option" where
  "company_link g x = (case gj_company x of
      None \<Rightarrow> None
    | Some s \<Rightarrow> map_option co_id (List.find (\<lambda>c. co_normalized_name c = sql_key s) (backfilled_companies g)))"

definition backfilled_job :: "(string \<Rightarrow> string) \<Rightarrow> (nat \<Rightarrow> string) \<Rightarrow> global_db \<Rightarrow> global_job \<Rightarrow> canonical_job" where
  "backfilled_job md5 uuid g x = \<lparr>cj_id = gj_id x, cj_company_id = company_link g x, cj_title = gj_title x,
     cj_normalized_title = gj_normalized_title x, cj_description = gj_description x, cj_location = gj_location x,
     cj_normalized_location = map_option sql_key (gj_location x), cj_employment_type = gj_employment_type x,
     cj_remote_type = map_option (\<lambda>b. if b then REMOTE else ON_SITE) (gj_remote x), cj_skills = gj_skills x,
     cj_experience_min = gj_experience_min x, cj_experience_max = gj_experience_max x,
     cj_experience_text = gj_experience_text x, cj_role_family = gj_role_family x, cj_seniority = None,
     cj_salary_min = None, cj_salary_max = None, cj_salary_currency = None, cj_salary_text = gj_salary_text x,
     cj_salary_period = None, cj_posted_at = gj_posted_at x, cj_source_updated_at = None,
     cj_first_seen_at = gj_first_seen_at x, cj_last_seen_at = gj_last_seen_at x, cj_is_active = gj_is_active x,
     cj_canonical_hash = md5 (uuid (gj_id x)) @ md5 (uuid (gj_id x) @ ''-canonical'')\<rparr>"

definition backfilled_hash :: "(string \<Rightarrow> string) \<Rightarrow> (nat \<Rightarrow> string) \<Rightarrow> global_job \<Rightarrow> string" where
  "backfilled_hash md5 uuid x = (case gj_content_hash x of
      Some h \<Rightarrow> if hex64 h then h else md5 (uuid (gj_id x)) @ md5 (uuid (gj_id x) @ ''-content'')
    | None \<Rightarrow> md5 (uuid (gj_id x)) @ md5 (uuid (gj_id x) @ ''-content''))"

definition backfilled_source :: "(string \<Rightarrow> string) \<Rightarrow> (nat \<Rightarrow> string) \<Rightarrow> nat \<times> global_job \<Rightarrow> source_row" where
  "backfilled_source md5 uuid ix = (case ix of (i, x) \<Rightarrow> \<lparr>js_id = i, js_job_id = gj_id x, js_source = gj_source x,
     js_source_job_id = gj_external_id x, js_source_url = gj_url x, js_posted_at = gj_posted_at x, js_updated_at = None,
     js_first_seen_at = gj_first_seen_at x, js_last_seen_at = gj_last_seen_at x, js_scraped_at = gj_scraped_at x,
     js_content_hash = backfilled_hash md5 uuid x, js_is_active = gj_is_active x,
     js_raw_data = [(''legacy_global_job_id'', JStr (uuid (gj_id x)))]\<rparr>)"

definition backfill :: "(string \<Rightarrow> string) \<Rightarrow> (nat \<Rightarrow> string) \<Rightarrow> global_db \<Rightarrow> db" where
  "backfill md5 uuid g = (let first_source = gd_next g + length (company_keys g) in
     \<lparr>companies = backfilled_companies g, jobs = map (backfilled_job md5 uuid g) (gd_rows g),
      sources = map (backfilled_source md5 uuid) (enumerate first_source (gd_rows g)),
      next_id = first_source + length (gd_rows g)\<rparr>)"

section \<open>Well-formedness\<close>

lemma company_keys_facts: "map co_normalized_name (backfilled_companies g) = company_keys g"
  "map co_id (backfilled_companies g) = [gd_next g..<gd_next g + length (company_keys g)]"
  by (simp_all add: backfilled_companies_def case_prod_beta comp_def map_snd_enumerate map_fst_enumerate)

lemma map_backfilled:
  assumes "\<And>i x. f (backfilled_source md5 uuid (i, x)) = h x"
  shows "map f (map (backfilled_source md5 uuid) (enumerate n xs)) = map h xs"
  by (induction xs arbitrary: n) (simp_all add: assms)

lemma source_facts:
  "map js_id (map (backfilled_source md5 uuid) (enumerate n xs)) = [n..<n + length xs]"
  "map identity (map (backfilled_source md5 uuid) (enumerate n xs)) = map global_key xs"
  "map js_job_id (map (backfilled_source md5 uuid) (enumerate n xs)) = map gj_id xs"
  "map (\<lambda>r. (js_job_id r, js_is_active r)) (map (backfilled_source md5 uuid) (enumerate n xs)) = map (\<lambda>x. (gj_id x, gj_is_active x)) xs"
proof -
  have "map js_id (map (backfilled_source md5 uuid) (enumerate n xs)) = map fst (enumerate n xs)"
    unfolding map_map by (rule map_cong[OF refl]) (auto simp: backfilled_source_def)
  then show "map js_id (map (backfilled_source md5 uuid) (enumerate n xs)) = [n..<n + length xs]"
    by (simp only: map_fst_enumerate)
qed (rule map_backfilled, simp add: backfilled_source_def identity_def global_key_def)+

lemma company_link_in:
  "company_link g x \<in> insert None (Some ` co_id ` set (backfilled_companies g))"
proof (cases "company_link g x")
  case (Some i)
  then obtain c where "c \<in> set (backfilled_companies g)" "i = co_id c"
    unfolding company_link_def by (auto split: option.splits dest!: find_SomeD)
  then show ?thesis using Some by simp
qed simp

lemma company_link_key:
  assumes "x \<in> set (gd_rows g)" "gj_company x = Some s" "btrim s \<noteq> []"
  obtains c where "c \<in> set (backfilled_companies g)" "company_link g x = Some (co_id c)" "co_normalized_name c = sql_key s"
proof -
  have "s \<in> set (legacy_companies g)" using assms by (force simp: legacy_companies_def List.map_filter_def)
  then have "sql_key s \<in> set (map co_normalized_name (backfilled_companies g))" by (simp add: company_keys_facts(1) company_keys_def)
  then have "\<exists>c \<in> set (backfilled_companies g). co_normalized_name c = sql_key s" by (metis imageE list.set_map)
  then obtain c where "List.find (\<lambda>c. co_normalized_name c = sql_key s) (backfilled_companies g) = Some c"
    by (metis (mono_tags, lifting) find_None_iff option.exhaust)
  then show thesis using that[of c] assms(2) by (auto simp: company_link_def dest: find_SomeD)
qed

lemma backfill_wf:
  assumes "global_wf g"
  shows "db_wf (backfill md5 uuid g)"
proof -
  let ?d = "backfill md5 uuid g"
  have rows: "distinct (map gj_id (gd_rows g))" "distinct (map global_key (gd_rows g))"
    "\<And>x. x \<in> set (gd_rows g) \<Longrightarrow> gj_id x < gd_next g \<and> global_checks x"
    using assms by (auto simp: global_wf_def)
  have jobs: "map cj_id (jobs ?d) = map gj_id (gd_rows g)"
    by (simp add: backfill_def Let_def backfilled_job_def comp_def)
  let ?n = "gd_next g + length (company_keys g)"
  have sources: "map js_id (sources ?d) = [?n..<?n + length (gd_rows g)]" "map identity (sources ?d) = map global_key (gd_rows g)"
    "map js_job_id (sources ?d) = map gj_id (gd_rows g)"
    using source_facts by (simp_all add: backfill_def Let_def)
  have companies: "companies ?d = backfilled_companies g" by (simp add: backfill_def Let_def)
  have next_id: "next_id ?d = ?n + length (gd_rows g)" by (simp add: backfill_def Let_def)
  have "ids_wf ?d"
  proof -
    have "\<forall>i \<in> cj_id ` set (jobs ?d). i < next_id ?d"
      unfolding list.set_map[symmetric] jobs next_id using rows(3) by force
    moreover have "\<forall>i \<in> js_id ` set (sources ?d). i < next_id ?d"
      unfolding list.set_map[symmetric] sources next_id by simp
    moreover have "\<forall>i \<in> co_id ` set (companies ?d). i < next_id ?d"
      unfolding list.set_map[symmetric] companies company_keys_facts next_id by simp
    moreover have "distinct (map co_id (companies ?d)) \<and> distinct (map co_normalized_name (companies ?d))"
      unfolding companies company_keys_facts by (simp add: company_keys_def)
    ultimately show ?thesis unfolding ids_wf_def jobs sources using rows(1,2) by (intro conjI) simp_all
  qed
  moreover have "links_wf ?d"
  proof -
    have "js_job_id ` set (sources ?d) = cj_id ` set (jobs ?d)" by (metis jobs sources(3) list.set_map)
    moreover have "cj_company_id j \<in> insert None (Some ` co_id ` set (companies ?d))" if "j \<in> set (jobs ?d)" for j
    proof -
      have "\<exists>x. j = backfilled_job md5 uuid g x" using that by (auto simp: backfill_def Let_def)
      then obtain x where "j = backfilled_job md5 uuid g x" ..
      then show ?thesis using company_link_in[of g x] companies by (simp add: backfilled_job_def)
    qed
    ultimately show ?thesis by (auto simp: links_wf_def)
  qed
  moreover have "active_sync ?d"
  proof -
    have pairs: "(\<lambda>r. (js_job_id r, js_is_active r)) ` set (sources ?d) = (\<lambda>x. (gj_id x, gj_is_active x)) ` set (gd_rows g)"
      using source_facts(4)[of md5 uuid ?n "gd_rows g"] by (metis (no_types, lifting) backfill_def db.select_convs(3) list.set_map)
    have "has_active_source (sources ?d) (gj_id x) \<longleftrightarrow> gj_is_active x" if x: "x \<in> set (gd_rows g)" for x
    proof -
      have "has_active_source (sources ?d) (gj_id x) \<longleftrightarrow> (gj_id x, True) \<in> (\<lambda>r. (js_job_id r, js_is_active r)) ` set (sources ?d)"
        unfolding has_active_iff image_iff prod.inject by metis
      also have "\<dots> \<longleftrightarrow> gj_is_active x" unfolding pairs using distinct_map_eq[OF rows(1)] x by (auto simp: image_iff)
      finally show ?thesis .
    qed
    then show ?thesis by (auto simp: active_sync_def backfill_def Let_def backfilled_job_def)
  qed
  moreover have "checks_wf ?d"
    using rows(3) by (auto simp: checks_wf_def backfill_def Let_def backfilled_job_def canonical_checks_def global_checks_def)
  ultimately show ?thesis by (simp add: db_wf_def)
qed


section \<open>Agreement with the ingestion\<close>

lemma pg_space_blank [simp]: "pg_space (CHR '' '')"
  by (simp add: pg_space_def char_code_def)

lemma pg_space_is_space: "pg_space c \<Longrightarrow> is_space c"
  by (auto simp: pg_space_def is_space_def Let_def)

lemma collapse_ws_Nil: "collapse_ws [] = []"
  by (simp add: collapse_ws_def split_ws_def)

lemma collapse_ws_dropWhile: "collapse_ws (dropWhile is_space s) = collapse_ws s"
  by (induction s) (simp_all add: collapse_ws_Cons)

lemma collapse_ws_solid: "s \<noteq> [] \<Longrightarrow> \<not> is_space (last s) \<Longrightarrow> collapse_ws s \<noteq> []"
  by (induction s) (auto simp: collapse_ws_Cons split: if_splits)

lemma squeeze_runs_collapse:
  assumes "\<forall>c \<in> set s. is_space c \<longleftrightarrow> pg_space c" "s \<noteq> []" "\<not> is_space (last s)"
  shows "squeeze_runs s = (if is_space (hd s) then CHR '' '' # collapse_ws s else collapse_ws s)"
  using assms
proof (induction s rule: squeeze_runs.induct)
  case (2 c cs)
  show ?case
  proof (cases "pg_space c")
    case True
    have drop: "dropWhile pg_space cs = dropWhile is_space cs" by (rule dropWhile_cong[OF refl]) (use 2 in auto)
    have cs: "cs \<noteq> []" "\<not> is_space (last cs)" using True 2 by (auto split: if_splits)
    then obtain v vs where v: "dropWhile is_space cs = v # vs" by (metis dropWhile_eq_Nil_conv last_in_set neq_Nil_conv)
    then have "last (v # vs) = last cs" by (metis last_appendR list.distinct(1) takeWhile_dropWhile_id)
    then have "squeeze_runs (v # vs) = collapse_ws (v # vs)"
      using 2(1)[OF True] 2(3) drop v cs dropWhile_head[OF v] set_dropWhileD by (fastforce simp: v)
    then show ?thesis using True 2(3) drop v collapse_ws_dropWhile[of cs] by (simp add: collapse_ws_Cons)
  next
    case False
    then show ?thesis using 2 collapse_ws_solid[of cs] by (cases "cs = []") (auto simp: collapse_ws_Cons collapse_ws_Nil)
  qed
qed simp

lemma lower_collapse_ws: "collapse_ws (lower s) = lower (collapse_ws s)"
proof (induction s)
  case (Cons c cs)
  have "lower_char (CHR '' '') = CHR '' ''" by code_simp
  moreover have "is_space (hd (lower cs)) = is_space (hd cs)" if "cs \<noteq> []" using that by (cases cs) (auto simp: lower_def)
  ultimately show ?case using Cons by (auto simp: collapse_ws_Cons lower_def[of "_ # _"] lower_Nil_iff simp flip: lower_def)
qed (simp add: collapse_ws_Nil)

text \<open>The text the legacy table holds is squeezed already, as the normalization writes it.\<close>

definition squeezed_rows :: "global_db \<Rightarrow> bool" where
  "squeezed_rows g \<longleftrightarrow> list_all (\<lambda>x. case gj_company x of None \<Rightarrow> True | Some s \<Rightarrow> s \<noteq> [] \<and> collapse_ws s = s) (gd_rows g)"

lemma collapsed_spaces: "c \<in> set (collapse_ws s) \<Longrightarrow> is_space c \<Longrightarrow> c = CHR '' ''"
proof (induction s)
  case (Cons x s)
  then show ?case by (auto simp: collapse_ws_Cons split: if_splits)
qed (simp add: collapse_ws_Nil)

lemma sql_key_collapsed:
  assumes "s \<noteq> []" "collapse_ws s = s"
  shows "btrim s \<noteq> [] \<and> sql_key s = normalize_company_name s"
proof -
  have strip: "strip s = s" by (metis assms(2) collapse_ws_strip)
  have ends: "\<not> is_space (hd s)" "\<not> is_space (last s)"
    using strip_head[of s "hd s" "tl s"] strip_last[of s] strip assms(1) by simp_all
  have "dropWhile (\<lambda>c. c = CHR '' '') s = s" using ends(1) assms(1) by (cases s) auto
  moreover have "dropWhile (\<lambda>c. c = CHR '' '') (rev s) = rev s" using ends(2) assms(1) by (cases "rev s") (auto simp flip: last_rev)
  ultimately have "btrim s = s" by (simp add: btrim_def)
  moreover have "squeeze_runs s = collapse_ws s"
    using squeeze_runs_collapse[of s] ends assms(1) collapsed_spaces[of _ s] pg_space_is_space assms(2) by fastforce
  ultimately show ?thesis using assms by (simp add: sql_key_def normalize_company_name_def lower_collapse_ws)
qed

lemma company_again:
  assumes "x \<in> set (gd_rows g)" "gj_company x = Some s" "s \<noteq> []" "collapse_ws s = s"
  shows "\<exists>c. resolve_company (backfill md5 uuid g) s (normalize_company_name s) = (c, False, backfill md5 uuid g) \<and>
           company_link g x = Some (co_id c)"
proof -
  have key: "sql_key s = normalize_company_name s" "btrim s \<noteq> []" using sql_key_collapsed assms(3,4) by simp_all
  obtain c where c: "c \<in> set (backfilled_companies g)" "co_normalized_name c = sql_key s"
    using company_link_key[OF assms(1,2) key(2)] by metis
  then obtain c' where c': "List.find (\<lambda>c. co_normalized_name c = sql_key s) (backfilled_companies g) = Some c'"
    by (metis (mono_tags, lifting) find_None_iff option.exhaust)
  then show ?thesis using assms(2) key(1)
    by (simp add: company_link_def resolve_company_def backfill_def Let_def)
qed

lemma backfilled_lookup:
  assumes "global_wf g" "x \<in> set (gd_rows g)"
  shows "get_job (backfill md5 uuid g) (gj_id x) = Some (backfilled_job md5 uuid g x)"
    and "\<exists>i. get_source (backfill md5 uuid g) (gj_source x) (gj_external_id x) = Some (backfilled_source md5 uuid (i, x))"
proof -
  have keys: "distinct (map gj_id (gd_rows g))" "distinct (map global_key (gd_rows g))"
    using assms(1) by (auto simp: global_wf_def)
  have "List.find (\<lambda>j. cj_id j = gj_id x) (map (backfilled_job md5 uuid g) xs) = Some (backfilled_job md5 uuid g x)"
    if "distinct (map gj_id xs)" "x \<in> set xs" for xs
    using that by (induction xs) (auto simp: backfilled_job_def image_iff)
  then show "get_job (backfill md5 uuid g) (gj_id x) = Some (backfilled_job md5 uuid g x)"
    using keys(1) assms(2) by (simp add: get_job_def backfill_def Let_def)
  have "\<exists>i. List.find (is_identity (gj_source x) (gj_external_id x)) (map (backfilled_source md5 uuid) (enumerate n xs)) =
      Some (backfilled_source md5 uuid (i, x))" if "distinct (map global_key xs)" "x \<in> set xs" for xs n
    using that by (induction xs arbitrary: n) (auto simp: backfilled_source_def is_identity_def global_key_def image_iff)
  then show "\<exists>i. get_source (backfill md5 uuid g) (gj_source x) (gj_external_id x) = Some (backfilled_source md5 uuid (i, x))"
    using keys(2) assms(2) by (simp add: get_source_def backfill_def Let_def)
qed

lemma set_dset_subset: "set (dset k v m) \<subseteq> insert (k, v) (set m)"
  by (induction m) (auto split: if_splits)

text \<open>A row the backfill wrote carries its mark, so that the collectors fetch its detail page once more.\<close>

lemma backfill_not_fetched:
  "\<forall>(i, b) \<in> set (detail_fetched_by_source_id (backfill md5 uuid g) src ids). \<not> b"
proof -
  have marked: "dget (js_raw_data r) ''legacy_global_job_id'' \<noteq> None" if "r \<in> set (sources (backfill md5 uuid g))" for r
    using that by (auto simp: backfill_def Let_def backfilled_source_def dget_def)
  have step: "\<forall>(i, b) \<in> set (fold (\<lambda>r m. dset (js_source_job_id r)
      (js_raw_data r \<noteq> [] \<and> dget (js_raw_data r) ''legacy_global_job_id'' = None) m) rs m). \<not> b"
    if "\<forall>r \<in> set rs. dget (js_raw_data r) ''legacy_global_job_id'' \<noteq> None" "\<forall>(i, b) \<in> set m. \<not> b" for rs m
    using that
  proof (induction rs arbitrary: m)
    case (Cons r rs)
    have "\<forall>(i, b) \<in> set (dset (js_source_job_id r) False m). \<not> b"
      using Cons.prems(2) set_dset_subset[of "js_source_job_id r" False m] by auto
    then show ?case unfolding fold.simps comp_apply by (intro Cons.IH) (use Cons.prems(1) in auto)
  qed simp
  show ?thesis
  proof (cases "ids = []")
    case False
    then show ?thesis unfolding detail_fetched_by_source_id_def if_not_P[OF False] by (intro step) (use marked in auto)
  qed (simp add: detail_fetched_by_source_id_def)
qed

text \<open>C37: The data migration loses nothing and creates nothing it should not. From any well-formed
  legacy table, with company names squeezed as the ingestion writes them, it makes a
  well-formed canonical database with the same provider identities and one opening per legacy
  row. Each row is found again under its old identifier, and its listing under its provider
  identity, with the same title, text, dates and activity; a company named by the row is one the
  ingestion resolves the same name to, so it never makes a second company. And every
  migrated listing counts as not yet fetched in detail, so the collectors read its page again.\<close>

theorem backfill_faithful:
  assumes g: "global_wf g" "squeezed_rows g"
  shows "db_wf (backfill md5 uuid g) \<and> canonical_keys (backfill md5 uuid g) = global_keys g \<and>
    length (jobs (backfill md5 uuid g)) = length (gd_rows g) \<and>
    (\<forall>x \<in> set (gd_rows g). \<exists>j r.
       get_job (backfill md5 uuid g) (gj_id x) = Some j \<and>
       get_source (backfill md5 uuid g) (gj_source x) (gj_external_id x) = Some r \<and>
       js_job_id r = gj_id x \<and> js_source_url r = gj_url x \<and> js_last_seen_at r = gj_last_seen_at x \<and>
       js_is_active r = gj_is_active x \<and>
       cj_title j = gj_title x \<and> cj_description j = gj_description x \<and> cj_location j = gj_location x \<and>
       cj_skills j = gj_skills x \<and> cj_posted_at j = gj_posted_at x \<and> cj_is_active j = gj_is_active x \<and>
       (case gj_company x of None \<Rightarrow> cj_company_id j = None
        | Some s \<Rightarrow> \<exists>c. resolve_company (backfill md5 uuid g) s (normalize_company_name s) = (c, False, backfill md5 uuid g) \<and>
            cj_company_id j = Some (co_id c))) \<and>
    (\<forall>src ids. \<forall>(i, fetched) \<in> set (detail_fetched_by_source_id (backfill md5 uuid g) src ids). \<not> fetched)"
proof (intro conjI ballI allI)
  show "db_wf (backfill md5 uuid g)" by (rule backfill_wf[OF g(1)])
  show "canonical_keys (backfill md5 uuid g) = global_keys g"
    unfolding canonical_keys_def global_keys_def list.set_map[symmetric] backfill_def Let_def db.select_convs source_facts ..
  show "length (jobs (backfill md5 uuid g)) = length (gd_rows g)" by (simp add: backfill_def Let_def)
next
  fix x assume x: "x \<in> set (gd_rows g)"
  obtain i where r: "get_source (backfill md5 uuid g) (gj_source x) (gj_external_id x) = Some (backfilled_source md5 uuid (i, x))"
    using backfilled_lookup(2)[OF g(1) x] by blast
  have company: "case gj_company x of None \<Rightarrow> company_link g x = None
      | Some s \<Rightarrow> \<exists>c. resolve_company (backfill md5 uuid g) s (normalize_company_name s) = (c, False, backfill md5 uuid g) \<and>
          company_link g x = Some (co_id c)"
  proof (cases "gj_company x")
    case (Some s)
    then have "s \<noteq> []" "collapse_ws s = s" using g(2) x by (auto simp: squeezed_rows_def list_all_iff)
    then show ?thesis using company_again[OF x Some] Some by simp
  qed (simp add: company_link_def)
  show "\<exists>j r. get_job (backfill md5 uuid g) (gj_id x) = Some j \<and>
       get_source (backfill md5 uuid g) (gj_source x) (gj_external_id x) = Some r \<and>
       js_job_id r = gj_id x \<and> js_source_url r = gj_url x \<and> js_last_seen_at r = gj_last_seen_at x \<and>
       js_is_active r = gj_is_active x \<and>
       cj_title j = gj_title x \<and> cj_description j = gj_description x \<and> cj_location j = gj_location x \<and>
       cj_skills j = gj_skills x \<and> cj_posted_at j = gj_posted_at x \<and> cj_is_active j = gj_is_active x \<and>
       (case gj_company x of None \<Rightarrow> cj_company_id j = None
        | Some s \<Rightarrow> \<exists>c. resolve_company (backfill md5 uuid g) s (normalize_company_name s) = (c, False, backfill md5 uuid g) \<and>
            cj_company_id j = Some (co_id c))"
    using backfilled_lookup(1)[OF g(1) x] r company
    by (cases "gj_company x") (simp_all add: backfilled_job_def backfilled_source_def)
next
  fix src ids p assume p: "p \<in> set (detail_fetched_by_source_id (backfill md5 uuid g) src ids)"
  show "case p of (i, fetched) \<Rightarrow> \<not> fetched" by (rule bspec[OF backfill_not_fetched p])
qed

definition migrated_row :: "nat \<Rightarrow> string \<Rightarrow> string option \<Rightarrow> bool \<Rightarrow> global_job" where
  "migrated_row i ext co active = \<lparr>gj_id = i, gj_source = ''dice'', gj_external_id = ext, gj_title = ''Backend Engineer'',
     gj_normalized_title = ''backend engineer'', gj_role_family = ''backend'', gj_company = co, gj_location = Some ''Austin, TX'',
     gj_url = None, gj_description = None, gj_salary_text = None, gj_employment_type = None, gj_remote = Some False,
     gj_skills = [''sql''], gj_posted_at = Some 0, gj_experience_min = None, gj_experience_max = None, gj_experience_text = None,
     gj_first_seen_at = 0, gj_last_seen_at = 0, gj_scraped_at = 0, gj_is_active = active, gj_content_hash = None\<rparr>"

definition migrated_table :: global_db where
  "migrated_table = \<lparr>gd_rows = [migrated_row 0 ''1'' (Some ''Acme Corp'') True, migrated_row 1 ''2'' (Some ''ACME corp'') False,
     migrated_row 2 ''3'' None True], gd_next = 3\<rparr>"

theorem backfill_faithful_witness:
  "db_wf (backfill rev (\<lambda>i. replicate i CHR ''1'') migrated_table) \<and>
   canonical_keys (backfill rev (\<lambda>i. replicate i CHR ''1'') migrated_table) = global_keys migrated_table \<and>
   map co_name (companies (backfill rev (\<lambda>i. replicate i CHR ''1'') migrated_table)) = [''ACME corp''] \<and>
   map cj_company_id (jobs (backfill rev (\<lambda>i. replicate i CHR ''1'') migrated_table)) = [Some 3, Some 3, None]"
proof -
  have "map co_name (companies (backfill rev (\<lambda>i. replicate i CHR ''1'') migrated_table)) = [''ACME corp''] \<and>
   map cj_company_id (jobs (backfill rev (\<lambda>i. replicate i CHR ''1'') migrated_table)) = [Some 3, Some 3, None]"
    by code_simp
  moreover have "global_wf migrated_table" "squeezed_rows migrated_table" by code_simp+
  ultimately show ?thesis using backfill_faithful[of migrated_table rev "\<lambda>i. replicate i CHR ''1''"] by blast
qed

end
