(* ===== verification/Spec2Isabelle.thy ===== *)
theory Spec2Isabelle
  imports IpGate Ingestion Recommend SearchRun ResumeSafety ResumeParse LeaseSpec Auth Collectors App Repair Constraints Backfill
begin

text \<open>
  Verification library of the job collection backend (\<open>src/app\<close>, \<open>src/migrations\<close> and one
  of \<open>src/scripts\<close>).

  The program. A worker collects job listings from source adapters, normalises them,
  merges equal openings of several sources into canonical jobs, and keeps a legacy table
  beside them. Users upload resumes, which are parsed into profiles; recommendations and
  asynchronous searches match profiles against the canonical jobs. In front of the HTTP
  routes stand authentication, an IP allowlist, rate limits and a limit on upload bodies;
  behind them a scheduler submits collections to a Redis queue. Settings are validated once.

  Theories and what they model.

  \<^item> Prelude, Regex, Paging: Python's text operations, insertion-ordered dictionaries and
    integers; the backtracking matcher of \<open>re\<close>; the contract of paged reads (locale
    \<open>paged_read\<close>).
  \<^item> Salary, Experience, Skills, Url (\<open>jobs/parsing\<close>, \<open>urllib.parse\<close>): the listing parsers.
    Their lemmas tie every value found to the text it came from and bound it.
  \<^item> JobModel, Normalization, Dedup (\<open>domain/jobs.py\<close>, \<open>jobs/ingestion\<close>): rows, payloads, the
    normal form of a listing, and the decision when two listings are one opening.
  \<^item> CanonicalRepo, JobSearch, Ingestion (\<open>repositories/canonical_jobs.py\<close>,
    \<open>jobs/ingestion/service.py\<close>): the three canonical tables with their constraints, every
    repository operation, ingestion, discovery touches and the stale sweep. \<open>db_wf\<close> is the
    invariant; the locale \<open>identity_store\<close> states what a batch does to the set of
    identities and is interpreted on this repository and on the legacy one.
  \<^item> GlobalJobs (\<open>repositories/jobs.py\<close>): the legacy table.
  \<^item> QueueLocks, Scheduler, Collection (\<open>queue\<close>, \<open>jobs/collection.py\<close>, \<open>jobs/targets.py\<close>):
    Redis, expiring leases (locale \<open>exclusive_lease\<close>), rotation and scheduling, the
    coordinator, and the queued tasks with the lease they hold. LeaseSpec gives the
    abstract table of owners the leases refine (locale \<open>lease_refinement\<close>).
  \<^item> PyJson, PyDate, UrlJoin, Html: what the adapters use of Python's library (decoding and
    printing of JSON values with binary64 numbers, \<open>datetime.fromisoformat\<close>, \<open>urljoin\<close>,
    splitting and replacing by patterns).
  \<^item> Adapters, LinkedIn, Glassdoor, Dice, HiringCafe, Collectors (\<open>jobs/sources\<close>): the page loop
    and the detail loop (locales \<open>paged_source\<close> and \<open>detail_source\<close>), the four adapters, and the
    worker's registry of them under the coordinator (locale \<open>source_adapter\<close>, for Glassdoor
    through \<open>glassdoor_instance\<close>).
  \<^item> Matching, Recommend, SearchRun (\<open>jobs/matching\<close>, \<open>jobs/service.py\<close>, \<open>search\<close>): the
    eligibility rules, scores and order, recommendation pages, and the life of a search as
    a step relation over user and worker actions with failing calls.
  \<^item> ResumeModel, ResumeFiles, ResumeStorage, ResumeStore, ResumeParse, ResumeSafety
    (\<open>resumes\<close>, \<open>domain/resumes.py\<close>): rows and constraints, upload checks, object keys,
    the service over two stores that fail independently, the parser, the bounded thread
    pool, and the invariant that no object of an active resume is lost and none is left behind
    but those of uploads whose answer was lost (\<open>orphans\<close>).
  \<^item> IpNet, RateLimit, IpRules, IpGate (\<open>security\<close>): addresses as words, the limiter (locale
    \<open>counter_store\<close>), rules and audit trail, and the middleware composed of them.
  \<^item> Auth, Errors, Config (\<open>auth\<close>, \<open>core\<close>, \<open>db/urls.py\<close>): the key cache and token checks,
    error responses, settings validation, the upload body limit.
  \<^item> Admin, Api (\<open>repositories/admin.py\<close>, \<open>api/v1/routes\<close>): the administrator's console, and
    the endpoints for resumes, jobs, searches and security rules over the services above, with
    the dispatcher that authenticates each request; an endpoint only sees its caller's rows.
  \<^item> App (\<open>main.py\<close>, \<open>api/root.py\<close>, \<open>routes/health.py\<close>): a request through the whole stack, request
    context, upload limit, security middleware, handlers and endpoints composed in their order.
  \<^item> Repair (\<open>scripts/repair_incomplete_dice_jobs.py\<close>): the report and the two repairs of openings
    that lack facts, over both job databases.
  \<^item> Schema, Migrations, Metadata, Constraints (\<open>migrations/versions\<close>, \<open>migrations/env.py\<close>,
    \<open>db/base.py\<close>, \<open>domain\<close>): the operations a schema revision is made of and PostgreSQL's rules for
    them, the nine revisions with their runs, the mapped classes, and the rows of the components
    as rows of the migrated tables. Backfill is the data half of the revision \<open>0007\<close>, from the
    legacy table into the canonical ones.

  Correspondence. A class with state is a record and its methods are functions returning
  the new record; a table is a list of rows and a flush that breaks a constraint is an
  error value that leaves the committed state; an exception is the left side of a sum.
  Calls that may fail (commits, storage requests, Redis) take their outcome as an
  argument, so a theorem over all arguments covers every failure. Interleavings are lists
  of steps or inductive step relations, and invariants hold by induction over them.
  Advisory and transaction locks make each mutation one step. Instants are integer
  microseconds of UTC (milliseconds in Redis), monotonic clocks and decimals rationals,
  identifiers natural numbers.

  Parameters. What the code calls but does not define is an argument of the definitions
  that use it: SHA-256, PyJWT, SQLAlchemy's \<open>make_url\<close>, the PDF reader, ARQ's queue, the
  answers of the HTTP clients and of the browser, and the statuses \<open>raise_for_status\<close> accepts. No law is assumed of them except where a theorem names it as a
  hypothesis, and its witness instantiates it.

  The schema. The scripts are lists of operations; whether one is refused is decided by names and
  key columns alone (\<open>refusal\<close>), what it does by \<open>effect\<close>. That no operation is ever refused is
  evaluated once for each of the nine revisions in each direction; \<open>run_ddl_effects\<close> and
  induction carry it to all sequences of runs. Check conditions have three truth values.

  Bounds. The regular-expression matcher and the scanners recurse with the length of the
  text as fuel, which every iteration that continues consumes. The JSON decoder takes twice
  the length of the text and one, and more fuel changes nothing (\<open>decode_total\<close>). No other
  definition needs fuel; loops of the code are folds or structural recursion.

  Not modelled. Text outside Latin-1 (case folding and NFKC are exact on ASCII), float
  rounding of scores and clocks, CPython's limits on recursion and on the digits of integers,
  salaries that are NaN or infinite in a page's JSON (treated as absent), logging and metrics,
  the start of the application and of the worker processes (\<open>lifespan\<close>, \<open>queue/connection.py\<close>,
  \<open>queue/dependencies.py\<close>, \<open>queue/workers\<close>, sessions and engines of \<open>db\<close>), OpenAPI schemas that
  only copy fields, the offline mode of the migrations, the names of check constraints and what
  exceeds 63 bytes of them, and the scripts that only inspect, test or enqueue.
\<close>

end
